(* ===== verification/Prelude.thy ===== *)
theory Prelude
  imports Main "HOL-Library.Word"
begin

text \<open>
  The vocabulary every theory of this development shares: the machine integer types of the
  Rust sources, the three outcomes a Rust function can have (\<open>Ok\<close>, \<open>Err\<close> and a panic), the
  state monad in which all stateful code is written, a weakest-precondition calculus for that
  monad, and the generic lemmas on words and lists.

  \<^item> \<open>('a, 'e) result\<close> is Rust's \<open>Result<T, E>\<close> with a third constructor \<open>Panic\<close> for every
    \<open>panic!\<close>, \<open>unwrap\<close> on \<open>None\<close>, failed \<open>assert!\<close>, slice index out of range, and arithmetic
    on \<open>usize\<close> that would underflow.
  \<^item> \<open>('s, 'a, 'e) m\<close> is a function that takes \<open>&mut S\<close> and returns such an outcome: the state is
    returned on every outcome, since Rust keeps what was written before an early return.
  \<^item> \<open>wpM f Q E s\<close> says that \<open>f\<close> run in \<open>s\<close> does not panic, that \<open>Q\<close> holds of an \<open>Ok\<close> result
    and \<open>E\<close> of an \<open>Err\<close> result. Its equations are collected in \<open>wp\<close>.
\<close>

unbundle bit_operations_syntax

type_synonym u8 = "8 word"
type_synonym u16 = "16 word"
type_synonym u32 = "32 word"
type_synonym u64 = "64 word"

section \<open>Outcomes\<close>

datatype ('a, 'e) result = Ok 'a | Err 'e | Panic

type_synonym ('s, 'a, 'e) m = "'s \<Rightarrow> ('a, 'e) result \<times> 's"

named_theorems wp "weakest-precondition equations of the state monad"

definition retM :: "'a \<Rightarrow> ('s, 'a, 'e) m" where
  "retM a = (\<lambda>s. (Ok a, s))"

definition errM :: "'e \<Rightarrow> ('s, 'a, 'e) m" where
  "errM e = (\<lambda>s. (Err e, s))"

definition panicM :: "('s, 'a, 'e) m" where
  "panicM = (\<lambda>s. (Panic, s))"

definition bindM :: "('s, 'a, 'e) m \<Rightarrow> ('a \<Rightarrow> ('s, 'b, 'e) m) \<Rightarrow> ('s, 'b, 'e) m" where
  "bindM f g = (\<lambda>s. case f s of
     (Ok a, t) \<Rightarrow> g a t
   | (Err e, t) \<Rightarrow> (Err e, t)
   | (Panic, t) \<Rightarrow> (Panic, t))"

definition thenM :: "('s, 'a, 'e) m \<Rightarrow> ('s, 'b, 'e) m \<Rightarrow> ('s, 'b, 'e) m" where
  "thenM f g = bindM f (\<lambda>_. g)"

definition getM :: "('s \<Rightarrow> 'a) \<Rightarrow> ('s, 'a, 'e) m" where
  "getM f = (\<lambda>s. (Ok (f s), s))"

definition modifyM :: "('s \<Rightarrow> 's) \<Rightarrow> ('s, unit, 'e) m" where
  "modifyM f = (\<lambda>s. (Ok (), f s))"

definition liftR :: "('a, 'e) result \<Rightarrow> ('s, 'a, 'e) m" where
  "liftR r = (\<lambda>s. (r, s))"

definition whenM :: "bool \<Rightarrow> ('s, unit, 'e) m \<Rightarrow> ('s, unit, 'e) m" where
  "whenM b f = (if b then f else retM ())"

text \<open>\<open>opt.ok_or(e)?\<close>, \<open>opt.unwrap()\<close> and \<open>assert!(b)\<close>.\<close>

definition ok_or :: "'a option \<Rightarrow> 'e \<Rightarrow> ('s, 'a, 'e) m" where
  "ok_or x e = (case x of Some a \<Rightarrow> retM a | None \<Rightarrow> errM e)"

definition unwrapM :: "'a option \<Rightarrow> ('s, 'a, 'e) m" where
  "unwrapM x = (case x of Some a \<Rightarrow> retM a | None \<Rightarrow> panicM)"

definition assertM :: "bool \<Rightarrow> ('s, unit, 'e) m" where
  "assertM b = (if b then retM () else panicM)"

text \<open>\<open>xs[i]\<close> on a slice: out of range panics.\<close>

definition indexM :: "'a list \<Rightarrow> nat \<Rightarrow> ('s, 'a, 'e) m" where
  "indexM xs i = (if i < length xs then retM (xs ! i) else panicM)"

text \<open>\<open>xs.get(i)\<close>: out of range is \<open>None\<close>.\<close>

definition get_opt :: "'a list \<Rightarrow> nat \<Rightarrow> 'a option" where
  "get_opt xs i = (if i < length xs then Some (xs ! i) else None)"

text \<open>A \<open>for\<close> loop over a list, stopping at the first error.\<close>

fun forM :: "'a list \<Rightarrow> ('a \<Rightarrow> ('s, unit, 'e) m) \<Rightarrow> ('s, unit, 'e) m" where
  "forM [] f = retM ()"
| "forM (x # xs) f = thenM (f x) (forM xs f)"

text \<open>The result of \<open>n\<close> successive reads, in order.\<close>

fun repeatM :: "nat \<Rightarrow> ('s, 'a, 'e) m \<Rightarrow> ('s, 'a list, 'e) m" where
  "repeatM 0 f = retM []"
| "repeatM (Suc n) f = bindM f (\<lambda>x. bindM (repeatM n f) (\<lambda>xs. retM (x # xs)))"

section \<open>Weakest preconditions\<close>

definition wpM :: "('s, 'a, 'e) m \<Rightarrow> ('a \<Rightarrow> 's \<Rightarrow> bool) \<Rightarrow> ('e \<Rightarrow> 's \<Rightarrow> bool) \<Rightarrow> 's \<Rightarrow> bool" where
  "wpM f Q E s = (case f s of (Ok a, t) \<Rightarrow> Q a t | (Err e, t) \<Rightarrow> E e t | (Panic, t) \<Rightarrow> False)"

lemma wpM_ret [wp]: "wpM (retM a) Q E s = Q a s"
  by (simp add: wpM_def retM_def)

lemma wpM_err [wp]: "wpM (errM e) Q E s = E e s"
  by (simp add: wpM_def errM_def)

lemma wpM_panic [wp]: "wpM panicM Q E s = False"
  by (simp add: wpM_def panicM_def)

lemma wpM_bind [wp]: "wpM (bindM f g) Q E s = wpM f (\<lambda>a. wpM (g a) Q E) E s"
  by (auto simp: wpM_def bindM_def split: prod.splits result.splits)

lemma wpM_then [wp]: "wpM (thenM f g) Q E s = wpM f (\<lambda>_. wpM g Q E) E s"
  by (simp add: thenM_def wpM_bind)

lemma wpM_get [wp]: "wpM (getM f) Q E s = Q (f s) s"
  by (simp add: wpM_def getM_def)

lemma wpM_modify [wp]: "wpM (modifyM f) Q E s = Q () (f s)"
  by (simp add: wpM_def modifyM_def)

lemma wpM_lift [wp]:
  "wpM (liftR r) Q E s = (case r of Ok a \<Rightarrow> Q a s | Err e \<Rightarrow> E e s | Panic \<Rightarrow> False)"
  by (simp add: wpM_def liftR_def)

lemma wpM_when [wp]: "wpM (whenM b f) Q E s = (if b then wpM f Q E s else Q () s)"
  by (simp add: whenM_def wpM_ret)

lemma wpM_if [wp]: "wpM (if b then f else g) Q E s = (if b then wpM f Q E s else wpM g Q E s)"
  by simp

lemma wpM_ok_or [wp]: "wpM (ok_or x e) Q E s = (case x of Some a \<Rightarrow> Q a s | None \<Rightarrow> E e s)"
  by (simp add: ok_or_def wpM_ret wpM_err split: option.split)

lemma wpM_unwrap [wp]: "wpM (unwrapM x) Q E s = (\<exists>a. x = Some a \<and> Q a s)"
  by (simp add: unwrapM_def wpM_ret wpM_panic split: option.split)

lemma wpM_assert [wp]: "wpM (assertM b) Q E s = (b \<and> Q () s)"
  by (simp add: assertM_def wpM_ret wpM_panic)

lemma wpM_index [wp]: "wpM (indexM xs i) Q E s = (i < length xs \<and> Q (xs ! i) s)"
  by (simp add: indexM_def wpM_ret wpM_panic)

lemma wpM_mono:
  assumes "wpM f Q E s" "\<And>a t. Q a t \<Longrightarrow> Q' a t" "\<And>e t. E e t \<Longrightarrow> E' e t"
  shows "wpM f Q' E' s"
  using assms by (auto simp: wpM_def split: prod.splits result.splits)

lemma wpM_conj:
  assumes "wpM f Q E s" "wpM f Q' E' s"
  shows "wpM f (\<lambda>a t. Q a t \<and> Q' a t) (\<lambda>e t. E e t \<and> E' e t) s"
  using assms by (auto simp: wpM_def split: prod.splits result.splits)

lemma wpM_no_panic: "wpM f Q E s \<Longrightarrow> fst (f s) \<noteq> Panic"
  by (auto simp: wpM_def split: prod.splits result.splits)

lemma wpM_OkD: "wpM f Q E s \<Longrightarrow> f s = (Ok a, t) \<Longrightarrow> Q a t"
  by (auto simp: wpM_def)

lemma wpM_ErrD: "wpM f Q E s \<Longrightarrow> f s = (Err e, t) \<Longrightarrow> E e t"
  by (auto simp: wpM_def)

lemma wpM_OkI: "f s = (Ok a, t) \<Longrightarrow> Q a t \<Longrightarrow> wpM f Q E s"
  by (auto simp: wpM_def)

section \<open>Monad equations used when a computation is run\<close>

lemmas run_defs = bindM_def thenM_def retM_def errM_def panicM_def getM_def modifyM_def
  liftR_def whenM_def ok_or_def unwrapM_def assertM_def indexM_def

lemma bindM_Ok: "f s = (Ok a, t) \<Longrightarrow> bindM f g s = g a t"
  by (simp add: bindM_def)

lemma bindM_Err: "f s = (Err e, t) \<Longrightarrow> bindM f g s = (Err e, t)"
  by (simp add: bindM_def)

lemma bindM_OkE:
  assumes "bindM f g s = (Ok b, u)"
  obtains a t where "f s = (Ok a, t)" "g a t = (Ok b, u)"
  using assms by (auto simp: bindM_def split: prod.splits result.splits)

lemma thenM_OkE:
  assumes "thenM f g s = (Ok b, u)"
  obtains a t where "f s = (Ok a, t)" "g t = (Ok b, u)"
  using assms by (auto simp: thenM_def elim: bindM_OkE)

lemma bindM_ret_left: "bindM (retM a) g = g a"
  by (simp add: bindM_def retM_def)

lemma bindM_assoc: "bindM (bindM f g) h = bindM f (\<lambda>a. bindM (g a) h)"
  by (auto simp: bindM_def fun_eq_iff split: prod.splits result.splits)

section \<open>Related outcomes\<close>

text \<open>
  Two runs agree when they return the same value in states related by \<open>R\<close>, fail with the same
  error in states related by \<open>E\<close>, or both panic.
\<close>

fun outcome_rel ::
  "('s \<Rightarrow> 't \<Rightarrow> bool) \<Rightarrow> ('s \<Rightarrow> 't \<Rightarrow> bool) \<Rightarrow> ('a, 'e) result \<times> 's \<Rightarrow> ('a, 'e) result \<times> 't \<Rightarrow> bool"
where
  "outcome_rel R E (Ok a, s) y \<longleftrightarrow> (\<exists>t. y = (Ok a, t) \<and> R s t)"
| "outcome_rel R E (Err e, s) y \<longleftrightarrow> (\<exists>t. y = (Err e, t) \<and> E s t)"
| "outcome_rel R E (Panic, s) y \<longleftrightarrow> (\<exists>t. y = (Panic, t))"

lemma outcome_rel_bind:
  assumes "outcome_rel R E (f s) (f' t)"
    and "\<And>a s t. R s t \<Longrightarrow> outcome_rel R' E (g a s) (g' a t)"
  shows "outcome_rel R' E (bindM f g s) (bindM f' g' t)"
  using assms
  by (cases "(R, E, f s, f' t)" rule: outcome_rel.cases) (auto simp: bindM_def)

lemma outcome_rel_OkD:
  "outcome_rel R E x (Ok a, t) \<Longrightarrow> \<exists>s. x = (Ok a, s) \<and> R s t"
  by (cases x; cases "fst x") auto

lemma outcome_rel_ErrD:
  "outcome_rel R E x (Err e, t) \<Longrightarrow> \<exists>s. x = (Err e, s) \<and> E s t"
  by (cases x; cases "fst x") auto

lemma outcome_rel_compose:
  assumes "outcome_rel R E x z" "outcome_rel R E y z"
    and "\<And>s t u. R s u \<Longrightarrow> R t u \<Longrightarrow> R' s t" "\<And>s t u. E s u \<Longrightarrow> E t u \<Longrightarrow> E' s t"
  shows "outcome_rel R' E' x y"
  using assms by (cases x; cases y; cases "fst x"; cases "fst y") auto

section \<open>Words\<close>

text \<open>Disjoint fields: \<open>or\<close> of a value below \<open>2^n\<close> and a value shifted by \<open>n\<close> is their sum.\<close>

lemma take_bit_or_push_bit:
  fixes a b :: "'a::len word"
  assumes "take_bit n a = a"
  shows "take_bit n (a OR push_bit n b) = a"
proof (rule bit_eqI)
  fix i
  have "bit a i \<Longrightarrow> i < n"
    using assms by (metis bit_take_bit_iff)
  then show "bit (take_bit n (a OR push_bit n b)) i = bit a i"
    by (auto simp: bit_simps)
qed

lemma drop_bit_or_push_bit:
  fixes a b :: "'a::len word"
  assumes "take_bit n a = a"
  shows "drop_bit n (a OR push_bit n b) = take_bit (LENGTH('a) - n) b"
proof (rule bit_eqI)
  fix i
  have "\<not> bit a (n + i)"
    using assms by (metis bit_take_bit_iff not_add_less1)
  then show "bit (drop_bit n (a OR push_bit n b)) i = bit (take_bit (LENGTH('a) - n) b) i"
    by (auto simp: bit_simps)
qed

lemma unat_or_push_bit:
  fixes a b :: "'a::len word"
  assumes a: "unat a < 2 ^ n" and b: "unat b * 2 ^ n < 2 ^ LENGTH('a)"
  shows "unat (a OR push_bit n b) = unat a + unat b * 2 ^ n"
proof -
  have "a AND push_bit n b = 0"
  proof (rule bit_eqI)
    fix i
    have "take_bit n a = a"
      using a by (simp add: word_unat_eq_iff unsigned_take_bit_eq take_bit_nat_eq_self)
    then have "bit a i \<Longrightarrow> i < n"
      by (metis bit_take_bit_iff)
    then show "bit (a AND push_bit n b) i = bit (0 :: 'a word) i"
      by (auto simp: bit_simps)
  qed
  then have "a OR push_bit n b = a + push_bit n b"
    by (simp add: disjunctive_add_eq_or [symmetric])
  moreover have "unat (push_bit n b) = unat b * 2 ^ n"
    using b unfolding unsigned_push_bit_eq by (simp add: push_bit_eq_mult take_bit_nat_eq_self)
  moreover have "unat a + unat b * 2 ^ n < 2 ^ LENGTH('a)"
  proof -
    have n: "n \<le> LENGTH('a) \<or> unat b = 0"
    proof (rule ccontr)
      assume "\<not> ?thesis"
      then have "LENGTH('a) < n" "1 \<le> unat b" by auto
      then have "(2::nat) ^ LENGTH('a) < 2 ^ n" "2 ^ n \<le> unat b * 2 ^ n" by auto
      with b show False by simp
    qed
    show ?thesis
    proof (cases "unat b = 0")
      case True
      then show ?thesis using unsigned_less [of a] by simp
    next
      case False
      with n obtain k where k: "LENGTH('a) = n + k" using le_Suc_ex by blast
      from b k have "unat b < 2 ^ k" by (simp add: power_add mult.commute)
      then have "Suc (unat b) * 2 ^ n \<le> 2 ^ k * 2 ^ n" by (intro mult_le_mono1) simp
      with a k show ?thesis by (simp add: power_add mult.commute)
    qed
  qed
  ultimately show ?thesis
    by (simp add: unat_word_ariths)
qed

section \<open>Lists\<close>

lemma get_opt_Some: "get_opt xs i = Some x \<longleftrightarrow> i < length xs \<and> xs ! i = x"
  by (auto simp: get_opt_def)

lemma nth_update_other: "j \<noteq> i \<Longrightarrow> xs[i := v] ! j = xs ! j"
  by simp

end
