(* ===== verification/Errors.thy ===== *)
theory Errors
  imports Prelude
begin

text \<open>
  The error values of the crate: \<open>AllocError\<close> (src/util/alloc.rs), \<open>MemoryError\<close>
  (src/memory.rs), \<open>ConstantExprError\<close> (src/constant.rs), \<open>SectionKind\<close> (src/module.rs) and
  \<open>ValidationError\<close>, \<open>SectionDecodeError\<close>, \<open>ParseError\<close> (src/error.rs), with the \<open>From\<close>
  conversions the \<open>?\<close> operator inserts. The constructors carry the Rust names; those of the
  smaller enums are prefixed (\<open>AE_\<close>, \<open>ME_\<close>, \<open>CE_\<close>, \<open>Sec_\<close>) because several enums share a name.
\<close>

datatype alloc_error =
    AE_AllocationFailed
  | AE_OutOfMemory
  | AE_PageTooSmall
  | AE_HeapPoisoned

definition alloc_error_from_u32 :: "u32 \<Rightarrow> alloc_error" where
  "alloc_error_from_u32 v =
     (if v = 1 then AE_OutOfMemory else if v = 2 then AE_PageTooSmall
      else if v = 3 then AE_HeapPoisoned else AE_AllocationFailed)"

primrec alloc_error_to_u32 :: "alloc_error \<Rightarrow> u32" where
  "alloc_error_to_u32 AE_AllocationFailed = 0"
| "alloc_error_to_u32 AE_OutOfMemory = 1"
| "alloc_error_to_u32 AE_PageTooSmall = 2"
| "alloc_error_to_u32 AE_HeapPoisoned = 3"

datatype memory_error =
    ME_OutOfBounds
  | ME_OutOfMemory
  | ME_AllocationFailed
  | ME_PageTooSmall
  | ME_HeapPoisoned

primrec memory_error_from_alloc :: "alloc_error \<Rightarrow> memory_error" where
  "memory_error_from_alloc AE_AllocationFailed = ME_AllocationFailed"
| "memory_error_from_alloc AE_OutOfMemory = ME_OutOfMemory"
| "memory_error_from_alloc AE_PageTooSmall = ME_PageTooSmall"
| "memory_error_from_alloc AE_HeapPoisoned = ME_HeapPoisoned"

datatype constant_expr_error =
    CE_InvalidConstantInstruction
  | CE_AlreadyHasValue
  | CE_NoValue
  | CE_InvalidGlobal

text \<open>The sections in the order the binary format prescribes.\<close>

datatype section_kind =
    Sec_Custom | Sec_Type | Sec_Import | Sec_Function | Sec_Table | Sec_Memory
  | Sec_Global | Sec_Export | Sec_Start | Sec_Element | Sec_Code | Sec_Data | Sec_N

text \<open>
  With 90 constructors the code generator's equality test and the random generators are quadratic, so the
  datatype goes without these plugins: proofs evaluate it with the simplifier, and \<open>equal\<close> is HOL's equality.
\<close>

datatype (plugins only: size) validation_error =
    Eof
  | MalformedInteger
  | I33IsNegative
  | MalformedMagic
  | MalformedVersion
  | MalformedUtf8
  | DuplicateModuleName
  | DuplicateExportName
  | MalformedSectionId u8
  | MalformedValueType u8
  | MalformedFunction u8
  | MalformedLimit u8
  | MalformedElemType u8
  | MalformedSectionSize
  | ExpectedConstOrVar u8
  | MalformedImportExportDesc u8
  | MalformedMemType u8
  | InvalidPageSize u8
  | InvalidSectionOrdering section_kind section_kind
  | DuplicateSection section_kind
  | InvalidMaxLimit
  | ExpectedTerminal u8
  | InvalidOpcode u8
  | InvalidFcOpcode u8
  | MalformedCodeSize
  | InvalidCodeSectionFunctionCount
  | VecTooLong
  | IdxTooLarge
  | ModuleIdxTooLarge
  | MemoryTooLarge
  | TableTooLarge
  | MemoryImportTooLarge
  | MemAlignTooLarge
  | ControlFlowTooDeep
  | StackUnderflow
  | StackTooLarge
  | LabelStackJumpTooDeep
  | LabelJumpTooLarge
  | TypeMismatch
  | BlockResultTypeMismatch
  | BrTableResultTypeMismatch
  | FunctionResultTypeMismatch
  | IllegalMemoryGrow
  | InvalidElementOffset
  | InvalidElementOutOfBounds
  | InvalidTableIndex
  | TableNotDefined
  | InvalidElementCount
  | InvalidMemIndex
  | MemoryNotDefined
  | InvalidMemOffsetType
  | InvalidMemOffset
  | InvalidLabelIndex
  | InvalidElseBlock
  | InvalidEndBlock
  | MultipleMemories
  | MultipleTables
  | PossibleBackpatchCycle
  | PageFault
  | InstructionOutsideOfFunction
  | LocalIdxOutOfRange
  | FunctionIdxOutOfRange
  | TypeIdxOutOfRange
  | FunctionTextOutOfRange
  | GlobalIdxOutOfRange
  | FunctionImportNotFound
  | GlobalImportNotFound
  | MemoryImportNotFound
  | TableImportNotFound
  | FunctionImportOutOfRange
  | FunctionImportTypeMismatch
  | GlobalNotMutable
  | GlobalImportTypeMismatch
  | MemoryImportTypeMismatch
  | TableImportTypeMismatch
  | TableImportIncompatibleSize
  | TableRefNotUnique
  | FunctionParametersTooLarge
  | FunctionReturnsTooLarge
  | TooManyLocals
  | InvalidConstInstruction
  | GlobalTypeMismatch
  | AlignmentLargerThanType
  | InvalidStartFunctionSignature
  | InvalidHostStartFunction
  | InvalidConstantExpr constant_expr_error
  | GuestMemoryAllocationFailure
  | VAllocError alloc_error
  | VMemoryError memory_error
  | ReaderError u8

instantiation validation_error :: equal
begin

definition equal_validation_error :: "validation_error \<Rightarrow> validation_error \<Rightarrow> bool" where
  [code del]: "equal_validation_error a b \<longleftrightarrow> a = b"

instance by standard (simp add: equal_validation_error_def)

end

text \<open>\<open>SectionDecodeError\<close> and \<open>ParseError\<close>: the error with the section and the byte offset.\<close>

record section_decode_error =
  sde_section :: "section_kind option"
  sde_err :: validation_error

definition section_error_new :: "validation_error \<Rightarrow> section_decode_error" where
  "section_error_new e = \<lparr>sde_section = None, sde_err = e\<rparr>"

definition with_section :: "section_kind \<Rightarrow> validation_error \<Rightarrow> section_decode_error" where
  "with_section sec e = \<lparr>sde_section = Some sec, sde_err = e\<rparr>"

record parse_error =
  pe_offset :: u32
  pe_err :: section_decode_error

text \<open>The \<open>From\<close> conversion that \<open>?\<close> applies to an error in a caller with another error type.\<close>

definition map_err :: "('e \<Rightarrow> 'f) \<Rightarrow> ('s, 'a, 'e) m \<Rightarrow> ('s, 'a, 'f) m" where
  "map_err h f = (\<lambda>s. case f s of
     (Ok a, t) \<Rightarrow> (Ok a, t)
   | (Err e, t) \<Rightarrow> (Err (h e), t)
   | (Panic, t) \<Rightarrow> (Panic, t))"

lemma wpM_map_err [wp]: "wpM (map_err h f) Q E s = wpM f Q (\<lambda>e. E (h e)) s"
  by (auto simp: wpM_def map_err_def split: prod.splits result.splits)

text \<open>The error code of an allocation failure survives the FFI boundary of the global allocator.\<close>

lemma alloc_error_u32_roundtrip: "alloc_error_from_u32 (alloc_error_to_u32 e) = e"
  by (cases e) (simp_all add: alloc_error_from_u32_def)

end
