(* ===== verification/Circular_Buffer.thy ===== *)
theory Circular_Buffer
  imports Prelude
begin

text \<open>
  \<open>CircularBuffer<T, N>\<close> of src/util/circular_buffer.rs: a fixed array of \<open>N\<close> possibly
  uninitialised slots, a start index and a size. \<open>cb_items\<close> is the array (\<open>None\<close> is an
  uninitialised slot, \<open>N\<close> its length). The abstraction \<open>cb_list\<close> is the queue of live elements
  from front to back; every operation is proved to be the corresponding list operation, and no
  operation reads an uninitialised slot. The locale \<open>fifo\<close> is the interface the byte reader
  relies on; it is interpreted on this buffer.
\<close>

record 'a circular_buffer =
  cb_size :: nat
  cb_start :: nat
  cb_items :: "'a option list"

definition cb_new :: "nat \<Rightarrow> 'a circular_buffer" where
  "cb_new n = \<lparr>cb_size = 0, cb_start = 0, cb_items = replicate n None\<rparr>"

definition cb_capacity :: "'a circular_buffer \<Rightarrow> nat" where
  "cb_capacity b = length (cb_items b)"

definition cb_is_empty :: "'a circular_buffer \<Rightarrow> bool" where
  "cb_is_empty b \<longleftrightarrow> cb_size b = 0"

definition cb_is_full :: "'a circular_buffer \<Rightarrow> bool" where
  "cb_is_full b \<longleftrightarrow> cb_size b = cb_capacity b"

text \<open>\<open>push\<close> overwrites the oldest element of a full buffer.\<close>

definition cb_push :: "'a \<Rightarrow> 'a circular_buffer \<Rightarrow> 'a circular_buffer" where
  "cb_push v b =
     (if cb_size b < cb_capacity b
      then b\<lparr>cb_items := (cb_items b)[(cb_start b + cb_size b) mod cb_capacity b := Some v],
             cb_size := Suc (cb_size b)\<rparr>
      else b\<lparr>cb_items := (cb_items b)[cb_start b := Some v],
             cb_start := (cb_start b + 1) mod cb_capacity b\<rparr>)"

definition cb_pop_front :: "'a circular_buffer \<Rightarrow> 'a option \<times> 'a circular_buffer" where
  "cb_pop_front b =
     (if cb_size b = 0 then (None, b)
      else (cb_items b ! cb_start b,
            b\<lparr>cb_start := (cb_start b + 1) mod cb_capacity b, cb_size := cb_size b - 1\<rparr>))"

definition cb_pop_back :: "'a circular_buffer \<Rightarrow> 'a option \<times> 'a circular_buffer" where
  "cb_pop_back b =
     (if cb_size b = 0 then (None, b)
      else (cb_items b ! ((cb_start b + (cb_size b - 1)) mod cb_capacity b),
            b\<lparr>cb_size := cb_size b - 1\<rparr>))"

definition cb_front :: "'a circular_buffer \<Rightarrow> 'a option" where
  "cb_front b = (if cb_size b = 0 then None else cb_items b ! cb_start b)"

definition cb_back :: "'a circular_buffer \<Rightarrow> 'a option" where
  "cb_back b = (if cb_size b = 0 then None
     else cb_items b ! ((cb_start b + cb_size b - 1) mod cb_capacity b))"

definition cb_get :: "nat \<Rightarrow> 'a circular_buffer \<Rightarrow> 'a option" where
  "cb_get i b = (if cb_size b \<le> i then None
     else cb_items b ! ((cb_start b + i) mod cb_capacity b))"

text \<open>A write through \<open>get_mut\<close>.\<close>

definition cb_set :: "nat \<Rightarrow> 'a \<Rightarrow> 'a circular_buffer \<Rightarrow> 'a circular_buffer" where
  "cb_set i v b = (if cb_size b \<le> i then b
     else b\<lparr>cb_items := (cb_items b)[(cb_start b + i) mod cb_capacity b := Some v]\<rparr>)"

text \<open>\<open>clear\<close> pops until \<open>pop_front\<close> returns \<open>None\<close>; the size bounds the number of pops.\<close>

fun cb_clear_loop :: "nat \<Rightarrow> 'a circular_buffer \<Rightarrow> 'a circular_buffer" where
  "cb_clear_loop 0 b = b"
| "cb_clear_loop (Suc n) b =
     (case cb_pop_front b of (None, b') \<Rightarrow> b' | (Some _, b') \<Rightarrow> cb_clear_loop n b')"

definition cb_clear :: "'a circular_buffer \<Rightarrow> 'a circular_buffer" where
  "cb_clear b = cb_clear_loop (Suc (cb_size b)) b"

text \<open>The iterator yields \<open>get 0\<close>, \<open>get 1\<close>, and so on up to the size.\<close>

definition cb_iter :: "'a circular_buffer \<Rightarrow> 'a option list" where
  "cb_iter b = map (\<lambda>i. cb_get i b) [0..<cb_size b]"

section \<open>Abstraction and invariant\<close>

definition cb_slot :: "'a circular_buffer \<Rightarrow> nat \<Rightarrow> nat" where
  "cb_slot b i = (cb_start b + i) mod cb_capacity b"

definition cb_list :: "'a circular_buffer \<Rightarrow> 'a list" where
  "cb_list b = map (\<lambda>i. the (cb_items b ! cb_slot b i)) [0..<cb_size b]"

definition cb_inv :: "'a circular_buffer \<Rightarrow> bool" where
  "cb_inv b \<longleftrightarrow> 0 < cb_capacity b \<and> cb_start b < cb_capacity b \<and> cb_size b \<le> cb_capacity b \<and>
     (\<forall>i < cb_size b. cb_items b ! cb_slot b i \<noteq> None)"

lemmas cb_defs = cb_list_def cb_inv_def cb_slot_def cb_capacity_def

lemma length_cb_list [simp]: "length (cb_list b) = cb_size b"
  by (simp add: cb_list_def)

lemma cb_slot_inj:
  assumes "i < cb_capacity b" "j < cb_capacity b" "cb_slot b i = cb_slot b j"
  shows "i = j"
proof -
  let ?n = "cb_capacity b"
  have *: "k = l" if "k \<le> l" "l < ?n" "(cb_start b + k) mod ?n = (cb_start b + l) mod ?n" for k l
  proof -
    have "?n dvd (cb_start b + l) - (cb_start b + k)"
      using that by (metis mod_eq_dvd_iff_nat add_le_cancel_left)
    then have "?n dvd l - k" using that by simp
    with that show ?thesis by (metis dvd_imp_le le_antisym less_imp_diff_less not_less zero_less_diff linorder_not_le)
  qed
  show ?thesis
    using assms * [of i j] * [of j i] by (cases "i \<le> j") (auto simp: cb_slot_def)
qed

lemma cb_slot_less: "0 < cb_capacity b \<Longrightarrow> cb_slot b i < cb_capacity b"
  by (simp add: cb_slot_def)

lemma cb_inv_new: "0 < n \<Longrightarrow> cb_inv (cb_new n)"
  by (simp add: cb_new_def cb_defs)

lemma cb_list_new [simp]: "cb_list (cb_new n) = []"
  by (simp add: cb_new_def cb_list_def)

lemma cb_capacity_new [simp]: "cb_capacity (cb_new n) = n"
  by (simp add: cb_new_def cb_capacity_def)

lemma cb_capacity_push [simp]: "cb_capacity (cb_push v b) = cb_capacity b"
  by (simp add: cb_push_def cb_capacity_def)

lemma cb_capacity_pop [simp]: "cb_capacity (snd (cb_pop_front b)) = cb_capacity b"
  by (simp add: cb_pop_front_def cb_capacity_def)

lemma cb_is_empty_list: "cb_is_empty b \<longleftrightarrow> cb_list b = []"
  by (simp add: cb_is_empty_def cb_list_def)

text \<open>Pushing onto a buffer with a free slot appends.\<close>

lemma cb_push_room:
  assumes inv: "cb_inv b" and room: "cb_size b < cb_capacity b"
  shows "cb_list (cb_push v b) = cb_list b @ [v]" and "cb_inv (cb_push v b)"
proof -
  let ?b = "cb_push v b"
  have sz: "cb_size ?b = Suc (cb_size b)" and slot: "\<And>i. cb_slot ?b i = cb_slot b i"
    using room by (simp_all add: cb_push_def cb_slot_def cb_capacity_def)
  have items: "cb_items ?b = (cb_items b)[cb_slot b (cb_size b) := Some v]"
    using room by (simp add: cb_push_def cb_slot_def)
  have pos: "cb_slot b (cb_size b) < length (cb_items b)"
    using inv cb_slot_less by (auto simp: cb_inv_def cb_capacity_def)
  have old: "cb_items ?b ! cb_slot ?b i = cb_items b ! cb_slot b i" if "i < cb_size b" for i
    using that room cb_slot_inj [of i b "cb_size b"]
    by (metis items slot nth_list_update_neq less_irrefl less_trans)
  have new: "cb_items ?b ! cb_slot ?b (cb_size b) = Some v"
    using pos by (simp add: items slot)
  show "cb_list ?b = cb_list b @ [v]"
    using old new by (simp add: cb_list_def sz)
  show "cb_inv ?b"
    using inv room old new
    by (auto simp: cb_inv_def sz less_Suc_eq) (simp add: cb_push_def)
qed

text \<open>Pushing onto a full buffer drops the oldest element.\<close>

lemma cb_push_full:
  assumes inv: "cb_inv b" and full: "cb_size b = cb_capacity b"
  shows "cb_list (cb_push v b) = tl (cb_list b) @ [v]" and "cb_inv (cb_push v b)"
proof -
  let ?b = "cb_push v b" and ?n = "cb_capacity b"
  have n: "0 < ?n" "cb_start b < ?n" using inv by (auto simp: cb_inv_def)
  have sz: "cb_size ?b = ?n" and cap: "cb_capacity ?b = ?n"
    using full by (simp_all add: cb_push_def cb_capacity_def)
  have slot: "cb_slot ?b i = cb_slot b (Suc i)" for i
    using full by (simp add: cb_push_def cb_slot_def cb_capacity_def mod_simps ac_simps)
  have items: "cb_items ?b = (cb_items b)[cb_slot b 0 := Some v]"
    using full n by (simp add: cb_push_def cb_slot_def)
  have old: "cb_items ?b ! cb_slot ?b i = cb_items b ! cb_slot b (Suc i)" if "Suc i < ?n" for i
    using that n cb_slot_inj [of "Suc i" b 0]
    by (metis items slot nth_list_update_neq nat.distinct(1))
  have wrap: "cb_slot b ?n = cb_slot b 0" by (simp add: cb_slot_def)
  have new: "cb_items ?b ! cb_slot ?b (?n - 1) = Some v"
    using n cb_slot_less [of b 0] by (simp add: items slot wrap cb_capacity_def [symmetric])
  have all: "cb_items ?b ! cb_slot ?b i \<noteq> None" if "i < ?n" for i
  proof (cases "Suc i < ?n")
    case True
    with inv full show ?thesis by (simp add: old cb_inv_def)
  next
    case False
    with that have "i = ?n - 1" by simp
    with new show ?thesis by simp
  qed
  show "cb_inv ?b"
    using n full all cap sz by (auto simp: cb_inv_def) (simp add: cb_push_def)
  show "cb_list ?b = tl (cb_list b) @ [v]"
  proof (rule nth_equalityI)
    show "length (cb_list ?b) = length (tl (cb_list b) @ [v])"
      using n full by (simp add: sz)
  next
    fix i assume "i < length (cb_list ?b)"
    then have i: "i < ?n" by (simp add: sz)
    show "cb_list ?b ! i = (tl (cb_list b) @ [v]) ! i"
    proof (cases "Suc i < ?n")
      case True
      then have "i < ?n - 1" by simp
      with i full old True show ?thesis by (simp add: cb_list_def sz nth_append nth_tl)
    next
      case False
      with i have "i = ?n - 1" by simp
      with n full new show ?thesis by (simp add: cb_list_def sz nth_append)
    qed
  qed
qed

text \<open>Popping the front returns and removes the head.\<close>

lemma cb_pop_front_Nil: "cb_list b = [] \<Longrightarrow> cb_pop_front b = (None, b)"
  by (simp add: cb_pop_front_def cb_list_def)

lemma cb_pop_front_Cons:
  assumes inv: "cb_inv b" and ne: "cb_list b = x # xs"
  shows "fst (cb_pop_front b) = Some x" "cb_list (snd (cb_pop_front b)) = xs"
    "cb_inv (snd (cb_pop_front b))"
proof -
  let ?b = "snd (cb_pop_front b)" and ?n = "cb_capacity b"
  from ne have pos: "0 < cb_size b" by (metis length_cb_list length_greater_0_conv list.discI)
  have n: "0 < ?n" "cb_start b < ?n" using inv by (auto simp: cb_inv_def)
  have slot0: "cb_slot b 0 = cb_start b" using n by (simp add: cb_slot_def)
  have slot: "cb_slot ?b i = cb_slot b (Suc i)" for i
    using pos by (simp add: cb_pop_front_def cb_slot_def cb_capacity_def mod_simps ac_simps)
  have sz: "cb_size ?b = cb_size b - 1" and items: "cb_items ?b = cb_items b"
    using pos by (simp_all add: cb_pop_front_def)
  have split: "cb_list b = the (cb_items b ! cb_slot b 0) # map (\<lambda>i. the (cb_items b ! cb_slot b (Suc i))) [0..<cb_size b - 1]"
    using pos by (cases "cb_size b") (simp_all add: cb_list_def upt_conv_Cons map_Suc_upt [symmetric] del: upt_Suc)
  have "cb_items b ! cb_start b \<noteq> None"
    using inv pos slot0 by (auto simp: cb_inv_def)
  with ne split slot0 show "fst (cb_pop_front b) = Some x"
    using pos by (auto simp: cb_pop_front_def)
  show "cb_list ?b = xs"
    using ne split by (simp add: cb_list_def sz items slot)
  show "cb_inv ?b"
    using inv pos n by (auto simp: cb_inv_def sz items slot) (simp add: cb_pop_front_def)
qed

lemma cb_front_list:
  assumes "cb_inv b"
  shows "cb_front b = (case cb_list b of [] \<Rightarrow> None | x # _ \<Rightarrow> Some x)"
  using cb_pop_front_Cons(1) [OF assms]
  by (cases "cb_list b") (auto simp: cb_front_def cb_pop_front_def cb_list_def split: if_splits)

text \<open>Indexed access, the back end and clearing.\<close>

lemma cb_slot_live:
  assumes "cb_inv b" "i < cb_size b"
  shows "cb_items b ! cb_slot b i = Some (cb_list b ! i)"
  using assms by (auto simp: cb_inv_def cb_list_def)

lemma cb_get_list:
  assumes "cb_inv b"
  shows "cb_get i b = get_opt (cb_list b) i"
  using cb_slot_live [OF assms] by (auto simp: cb_get_def get_opt_def cb_slot_def)

lemma cb_back_list:
  assumes "cb_inv b"
  shows "cb_back b = (if cb_list b = [] then None else Some (last (cb_list b)))"
proof (cases "cb_size b")
  case 0
  then show ?thesis by (simp add: cb_back_def cb_list_def)
next
  case (Suc n)
  then have "cb_items b ! cb_slot b n = Some (cb_list b ! n)"
    using cb_slot_live [OF assms, of n] by simp
  moreover have "cb_list b \<noteq> []" using Suc by (metis length_cb_list list.size(3) nat.distinct(1))
  ultimately show ?thesis
    using Suc by (simp add: cb_back_def cb_slot_def last_conv_nth)
qed

lemma cb_pop_back_list:
  assumes inv: "cb_inv b" and ne: "cb_list b \<noteq> []"
  shows "fst (cb_pop_back b) = Some (last (cb_list b))"
    "cb_list (snd (cb_pop_back b)) = butlast (cb_list b)" "cb_inv (snd (cb_pop_back b))"
proof -
  let ?b = "snd (cb_pop_back b)"
  obtain n where n: "cb_size b = Suc n"
    using ne by (cases "cb_size b") (auto simp: cb_list_def)
  have flds: "cb_size ?b = n" "cb_slot ?b i = cb_slot b i" "cb_items ?b = cb_items b"
    "cb_capacity ?b = cb_capacity b" "cb_start ?b = cb_start b" for i
    using n by (simp_all add: cb_pop_back_def cb_slot_def cb_capacity_def)
  show "fst (cb_pop_back b) = Some (last (cb_list b))"
    using n ne cb_slot_live [OF inv, of n]
    by (simp add: cb_pop_back_def cb_slot_def last_conv_nth)
  show "cb_list ?b = butlast (cb_list b)"
    by (rule nth_equalityI) (simp_all add: flds n cb_list_def nth_butlast)
  show "cb_inv ?b"
    using inv n by (auto simp: cb_inv_def flds)
qed

lemma cb_set_list:
  assumes inv: "cb_inv b"
  shows "cb_list (cb_set i v b) = (cb_list b)[i := v]" and "cb_inv (cb_set i v b)"
proof -
  let ?b = "cb_set i v b"
  have flds: "cb_size ?b = cb_size b" "cb_slot ?b j = cb_slot b j" "cb_start ?b = cb_start b"
    "cb_capacity ?b = cb_capacity b" for j
    by (simp_all add: cb_set_def cb_slot_def cb_capacity_def)
  have items: "cb_items ?b ! cb_slot b j = (if j = i then Some v else cb_items b ! cb_slot b j)"
    if "j < cb_size b" for j
  proof (cases "i < cb_size b")
    case True
    then have "cb_items ?b = (cb_items b)[cb_slot b i := Some v]"
      by (simp add: cb_set_def cb_slot_def)
    moreover have "cb_slot b i < length (cb_items b)"
      using inv cb_slot_less by (auto simp: cb_inv_def cb_capacity_def)
    moreover have "cb_slot b j = cb_slot b i \<Longrightarrow> j = i"
      using that True inv cb_slot_inj [of j b i] by (simp add: cb_inv_def)
    ultimately show ?thesis by (metis nth_list_update_eq nth_list_update_neq)
  next
    case False
    with that show ?thesis by (auto simp: cb_set_def)
  qed
  show "cb_list ?b = (cb_list b)[i := v]"
    by (rule nth_equalityI) (auto simp: cb_list_def flds items nth_list_update)
  show "cb_inv ?b"
    using inv by (auto simp: cb_inv_def flds items)
qed

lemma cb_clear_loop_empties:
  "cb_inv b \<Longrightarrow> cb_size b < n \<Longrightarrow> cb_list (cb_clear_loop n b) = [] \<and> cb_inv (cb_clear_loop n b)"
proof (induction n arbitrary: b)
  case 0
  then show ?case by simp
next
  case (Suc n)
  show ?case
  proof (cases "cb_list b")
    case Nil
    with Suc.prems show ?thesis by (simp add: cb_pop_front_Nil)
  next
    case (Cons x xs)
    note pop = cb_pop_front_Cons [OF Suc.prems(1) Cons]
    obtain b' where b': "cb_pop_front b = (Some x, b')"
      using pop(1) by (metis prod.collapse)
    have "cb_size b' < n"
      using pop(2) Suc.prems(2) Cons b' by (metis length_Cons length_cb_list not_less_eq snd_conv)
    with Suc.IH pop(3) b' show ?thesis by simp
  qed
qed

lemma cb_clear_list: "cb_inv b \<Longrightarrow> cb_list (cb_clear b) = []" "cb_inv b \<Longrightarrow> cb_inv (cb_clear b)"
  using cb_clear_loop_empties [of b "Suc (cb_size b)"] by (simp_all add: cb_clear_def)

lemma cb_iter_list: "cb_inv b \<Longrightarrow> cb_iter b = map Some (cb_list b)"
  by (rule nth_equalityI) (auto simp: cb_iter_def cb_get_list get_opt_def)

section \<open>The queue interface\<close>

text \<open>
  What a client of a bounded first-in first-out buffer may rely on. \<open>fill\<close> is the copy loop
  \<open>for i in 0..n { buffer.push(chunk[i]) }\<close> of the reader.
\<close>

locale fifo =
  fixes inv :: "'q \<Rightarrow> bool"
    and contents :: "'q \<Rightarrow> 'a list"
    and cap :: "'q \<Rightarrow> nat"
    and push :: "'a \<Rightarrow> 'q \<Rightarrow> 'q"
    and pop :: "'q \<Rightarrow> 'a option \<times> 'q"
    and front :: "'q \<Rightarrow> 'a option"
  assumes push_contents: "inv q \<Longrightarrow> length (contents q) < cap q \<Longrightarrow> contents (push v q) = contents q @ [v]"
    and push_inv: "inv q \<Longrightarrow> inv (push v q)"
    and push_cap: "cap (push v q) = cap q"
    and pop_fst: "inv q \<Longrightarrow> contents q = x # xs \<Longrightarrow> fst (pop q) = Some x"
    and pop_snd: "inv q \<Longrightarrow> contents q = x # xs \<Longrightarrow> contents (snd (pop q)) = xs"
    and pop_inv: "inv q \<Longrightarrow> inv (snd (pop q))"
    and pop_cap: "cap (snd (pop q)) = cap q"
    and front_Nil: "inv q \<Longrightarrow> contents q = [] \<Longrightarrow> front q = None"
    and front_Cons: "inv q \<Longrightarrow> contents q = x # xs \<Longrightarrow> front q = Some x"
begin

text \<open>Filling within the capacity appends all elements: nothing is overwritten.\<close>

lemma fill_contents:
  "inv q \<Longrightarrow> length (contents q) + length xs \<le> cap q \<Longrightarrow> contents (fold push xs q) = contents q @ xs"
  by (induction xs arbitrary: q) (auto simp: push_contents push_inv push_cap)

lemma fill_inv: "inv q \<Longrightarrow> inv (fold push xs q)"
  by (induction xs arbitrary: q) (auto simp: push_inv)

lemma fill_cap: "cap (fold push xs q) = cap q"
  by (induction xs arbitrary: q) (auto simp: push_cap)

lemma fill_front:
  "inv q \<Longrightarrow> contents q = [] \<Longrightarrow> length xs \<le> cap q \<Longrightarrow> xs = y # ys \<Longrightarrow> front (fold push xs q) = Some y"
  using fill_contents [of q xs] fill_inv [of q xs] front_Cons by (simp del: fold.simps)

end

lemma cb_push_inv: "cb_inv b \<Longrightarrow> cb_inv (cb_push v b)"
  using cb_push_room(2) [of b v] cb_push_full(2) [of b v] by (auto simp: cb_inv_def [of b] le_less)

lemma cb_pop_inv: "cb_inv b \<Longrightarrow> cb_inv (snd (cb_pop_front b))"
  by (cases "cb_list b") (auto simp: cb_pop_front_Nil cb_pop_front_Cons)

interpretation cb: fifo cb_inv cb_list cb_capacity cb_push cb_pop_front cb_front
  by unfold_locales
    (auto simp: cb_push_room cb_push_inv cb_pop_front_Cons cb_pop_inv cb_front_list)

section \<open>Properties\<close>

text \<open>
  Claim C34. Every operation of the circular buffer is the list operation on its live elements: \<open>push\<close>
  appends (dropping the oldest element only when the buffer is full), \<open>pop_front\<close> and
  \<open>pop_back\<close> take an end, \<open>get\<close> indexes from the front, iteration yields the elements in order
  as initialised values, and \<open>clear\<close> empties it; \<open>push\<close> and the pops keep the invariant.
\<close>

theorem circular_buffer_is_queue:
  assumes inv: "cb_inv b"
  shows "cb_list (cb_push v b) = (if cb_size b < cb_capacity b then cb_list b else tl (cb_list b)) @ [v]
    \<and> fst (cb_pop_front b) = (if cb_list b = [] then None else Some (hd (cb_list b)))
    \<and> cb_list (snd (cb_pop_front b)) = tl (cb_list b)
    \<and> fst (cb_pop_back b) = (if cb_list b = [] then None else Some (last (cb_list b)))
    \<and> cb_list (snd (cb_pop_back b)) = butlast (cb_list b)
    \<and> cb_get i b = get_opt (cb_list b) i
    \<and> cb_list (cb_set i v b) = (cb_list b)[i := v]
    \<and> cb_iter b = map Some (cb_list b)
    \<and> cb_list (cb_clear b) = []
    \<and> cb_inv (cb_push v b) \<and> cb_inv (snd (cb_pop_front b)) \<and> cb_inv (snd (cb_pop_back b))
    \<and> cb_inv (cb_set i v b) \<and> cb_inv (cb_clear b)"
proof -
  have "cb_size b < cb_capacity b \<or> cb_size b = cb_capacity b"
    using inv by (auto simp: cb_inv_def)
  then have "cb_list (cb_push v b) = (if cb_size b < cb_capacity b then cb_list b else tl (cb_list b)) @ [v]"
    using inv by (auto simp: cb_push_room cb_push_full)
  moreover have "fst (cb_pop_front b) = (if cb_list b = [] then None else Some (hd (cb_list b)))"
    "cb_list (snd (cb_pop_front b)) = tl (cb_list b)"
    using cb_pop_front_Cons [OF inv] by (cases "cb_list b"; simp add: cb_pop_front_Nil)+
  moreover have "fst (cb_pop_back b) = (if cb_list b = [] then None else Some (last (cb_list b)))"
    "cb_list (snd (cb_pop_back b)) = butlast (cb_list b)" "cb_inv (snd (cb_pop_back b))"
    using cb_pop_back_list [OF inv] inv
    by (cases "cb_list b = []"; simp add: cb_pop_back_def cb_list_def)+
  ultimately show ?thesis
    using inv by (simp add: cb_get_list cb_iter_list cb_clear_list cb_set_list cb_push_inv cb_pop_inv)
qed

lemma circular_buffer_is_queue_witness:
  "cb_inv (cb_push (7::nat) (cb_new 2)) \<and>
   cb_list (cb_push 9 (cb_push 8 (cb_push 7 (cb_new 2)))) = [8, 9 :: nat]"
proof -
  have inv: "cb_inv (cb_push 8 (cb_push (7::nat) (cb_new 2)))"
    by (simp add: cb_push_inv cb_inv_new)
  have "cb_list (cb_push 9 (cb_push 8 (cb_push (7::nat) (cb_new 2)))) =
    tl (cb_list (cb_push 8 (cb_push 7 (cb_new 2)))) @ [9]"
    using circular_buffer_is_queue [OF inv, of 9 0] by (simp add: cb_push_def cb_new_def cb_capacity_def)
  then show ?thesis
    by (simp add: cb_push_inv cb_inv_new) (simp add: cb_push_def cb_new_def cb_capacity_def cb_list_def cb_slot_def)
qed

end
