(* ===== verification/Reader.thy ===== *)
theory Reader
  imports Errors Circular_Buffer
begin

text \<open>
  The byte reader of src/reader.rs and the stream it pulls chunks from (src/stream.rs). The state
  \<open>reader\<close> has the fields of the Rust struct: the stream, the chunk in use (\<open>next\<close>) with the number
  of bytes already copied from it (\<open>chunk_used\<close>), the 64-byte circular buffer, the byte offset and
  the read limit. The stream is a parameter of the embedding: it is modelled as the list of
  results its successive \<open>read\<close> calls give (\<open>Ok(None)\<close> once the list is used up), with the number of
  buffers handed back through \<open>return_\<close>. \<open>rd_alloc\<close> is the script of the embedder's allocator for
  the vectors \<open>read_vec\<close> allocates (one entry per allocation, success once it is used up).

  Lemmas: the reader implements a plain byte list (\<open>read_u8_sim\<close> and its kin), so that no decoder
  depends on how the stream cuts the binary into chunks (\<open>chunk_indep\<close>); reads never pass the
  limit; chunks are handed back exactly once. The integer decoders are in theory Leb128.
\<close>

definition USIZE_MAX :: nat where
  "USIZE_MAX = 2 ^ 64 - 1"

definition BUFFER_SIZE :: nat where
  "BUFFER_SIZE = 64"

datatype chunk_result = Chunk "u8 list" | NoChunk | ReadErr u8

record reader =
  rd_stream :: "chunk_result list"
  rd_returned :: nat
  rd_chunk_used :: nat
  rd_next :: "u8 list option"
  rd_buffer :: "u8 circular_buffer"
  rd_full_offset :: nat
  rd_limit :: nat
  rd_alloc :: "alloc_error option list"

type_synonym 'a rm = "(reader, 'a, validation_error) m"

definition reader_new :: "chunk_result list \<Rightarrow> alloc_error option list \<Rightarrow> reader" where
  "reader_new st al = \<lparr>rd_stream = st, rd_returned = 0, rd_chunk_used = 0, rd_next = None,
     rd_buffer = cb_new BUFFER_SIZE, rd_full_offset = 0, rd_limit = USIZE_MAX, rd_alloc = al\<rparr>"

section \<open>Chunks\<close>

text \<open>\<open>stream.read()\<close> and \<open>chunk.return_(stream)\<close>.\<close>

definition stream_read :: "reader \<Rightarrow> chunk_result \<times> reader" where
  "stream_read r = (case rd_stream r of
     [] \<Rightarrow> (NoChunk, r)
   | c # cs \<Rightarrow> (c, r\<lparr>rd_stream := cs\<rparr>))"

definition chunk_return :: "reader \<Rightarrow> reader" where
  "chunk_return r = (case rd_next r of
     None \<Rightarrow> r
   | Some _ \<Rightarrow> r\<lparr>rd_next := None, rd_returned := Suc (rd_returned r)\<rparr>)"

text \<open>The copy loop from the current chunk into the buffer.\<close>

definition copy_chunk :: "u8 list \<Rightarrow> nat \<Rightarrow> reader \<Rightarrow> reader" where
  "copy_chunk c n r = r\<lparr>rd_buffer := fold cb_push (take n (drop (rd_chunk_used r) c)) (rd_buffer r),
     rd_chunk_used := rd_chunk_used r + n\<rparr>"

definition fetch_chunk :: "unit rm" where
  "fetch_chunk = (\<lambda>r.
     let (res, r1) = stream_read (chunk_return r) in
     case res of
       ReadErr c \<Rightarrow> (Err (ReaderError c), r1)
     | NoChunk \<Rightarrow> (Err Eof, r1\<lparr>rd_next := None, rd_chunk_used := 0\<rparr>)
     | Chunk c \<Rightarrow>
         (let r2 = r1\<lparr>rd_next := Some c, rd_chunk_used := 0\<rparr> in
          if c = [] then (Err Eof, r2)
          else (Ok (), copy_chunk c (min (length c) (cb_capacity (rd_buffer r2))) r2)))"

definition fill_buffer :: "unit rm" where
  "fill_buffer = (\<lambda>r.
     if \<not> cb_is_empty (rd_buffer r) then (Ok (), r)
     else case rd_next r of
       Some c \<Rightarrow>
         (if length c < rd_chunk_used r then (Panic, r)
          else if 0 < length c - rd_chunk_used r
          then (Ok (), copy_chunk c (min (length c - rd_chunk_used r) (cb_capacity (rd_buffer r))) r)
          else fetch_chunk r)
     | None \<Rightarrow> fetch_chunk r)"

definition peek_u8 :: "u8 rm" where
  "peek_u8 = (\<lambda>r. case cb_front (rd_buffer r) of
     Some b \<Rightarrow> (Ok b, r)
   | None \<Rightarrow> thenM fill_buffer (bindM (getM (\<lambda>r. cb_front (rd_buffer r))) (\<lambda>f. ok_or f Eof)) r)"

definition read_u8 :: "u8 rm" where
  "read_u8 = (\<lambda>r.
     if rd_limit r \<le> rd_full_offset r then (Err Eof, r)
     else bindM peek_u8 (\<lambda>b.
       thenM (modifyM (\<lambda>r. r\<lparr>rd_buffer := snd (cb_pop_front (rd_buffer r)),
                              rd_full_offset := Suc (rd_full_offset r)\<rparr>))
             (retM b)) r)"

definition expect_u8 :: "u8 \<Rightarrow> unit rm" where
  "expect_u8 e = bindM peek_u8 (\<lambda>b.
     if b = e then bindM read_u8 (\<lambda>_. retM ()) else errM (ExpectedTerminal e))"

definition reader_offset :: "nat rm" where
  "reader_offset = getM rd_full_offset"

text \<open>\<open>strip_bytes::<N>\<close>, \<open>skip\<close> and \<open>bytes_remaining\<close>.\<close>

definition strip_bytes :: "nat \<Rightarrow> u8 list rm" where
  "strip_bytes n = repeatM n read_u8"

fun skip :: "nat \<Rightarrow> unit rm" where
  "skip 0 = retM ()"
| "skip (Suc n) = bindM read_u8 (\<lambda>_. skip n)"

definition bytes_remaining :: "nat rm" where
  "bytes_remaining = getM (\<lambda>r. rd_limit r - rd_full_offset r)"

text \<open>The reader hands its last chunk back when it is dropped.\<close>

definition reader_drop :: "reader \<Rightarrow> reader" where
  "reader_drop r = chunk_return r"

section \<open>Reads inside a limit\<close>

text \<open>
  \<open>with_limit\<close> runs a closure that captures more than the reader (the code builder, the module),
  so it works on a pair of the reader and the rest of the state. The previous limit is restored on
  every outcome of the closure. \<open>into\<close> is the \<open>From<ValidationError>\<close> conversion of the caller's
  error type.
\<close>

definition onReader :: "'a rm \<Rightarrow> (reader \<times> 'x, 'a, validation_error) m" where
  "onReader f = (\<lambda>(r, x). let (a, r') = f r in (a, (r', x)))"

definition onState :: "('x, 'a, 'e) m \<Rightarrow> (reader \<times> 'x, 'a, 'e) m" where
  "onState f = (\<lambda>(r, x). let (a, x') = f x in (a, (r, x')))"

definition with_limit ::
  "(validation_error \<Rightarrow> 'e) \<Rightarrow> nat \<Rightarrow> (reader \<times> 'x, 'a, 'e) m \<Rightarrow> (reader \<times> 'x, 'a, 'e) m" where
  "with_limit into len f = (\<lambda>(r, x).
     if USIZE_MAX < rd_full_offset r + len \<or> rd_limit r < rd_full_offset r + len
     then (Err (into MalformedSectionSize), (r, x))
     else let (a, (r', x')) = f (r\<lparr>rd_limit := rd_full_offset r + len\<rparr>, x)
          in (a, (r'\<lparr>rd_limit := rd_limit r\<rparr>, x')))"

section \<open>Abstraction: a list of bytes\<close>

text \<open>
  What the stream still holds: the bytes up to its end, and how it ends. An empty chunk and the
  absence of a chunk are both the end of the file.
\<close>

fun stream_data :: "chunk_result list \<Rightarrow> u8 list \<times> validation_error" where
  "stream_data [] = ([], Eof)"
| "stream_data (NoChunk # cs) = ([], Eof)"
| "stream_data (ReadErr c # cs) = ([], ReaderError c)"
| "stream_data (Chunk c # cs) =
     (if c = [] then ([], Eof) else (c @ fst (stream_data cs), snd (stream_data cs)))"

record byte_source =
  bs_bytes :: "u8 list"
  bs_end :: validation_error
  bs_offset :: nat
  bs_limit :: nat
  bs_alloc :: "alloc_error option list"

definition chunk_rest :: "reader \<Rightarrow> u8 list" where
  "chunk_rest r = (case rd_next r of None \<Rightarrow> [] | Some c \<Rightarrow> drop (rd_chunk_used r) c)"

definition reader_abs :: "reader \<Rightarrow> byte_source" where
  "reader_abs r = \<lparr>bs_bytes = cb_list (rd_buffer r) @ chunk_rest r @ fst (stream_data (rd_stream r)),
     bs_end = snd (stream_data (rd_stream r)), bs_offset = rd_full_offset r, bs_limit = rd_limit r,
     bs_alloc = rd_alloc r\<rparr>"

definition reader_inv :: "reader \<Rightarrow> bool" where
  "reader_inv r \<longleftrightarrow> cb_inv (rd_buffer r) \<and> cb_capacity (rd_buffer r) = BUFFER_SIZE \<and>
     (\<forall>c. rd_next r = Some c \<longrightarrow> rd_chunk_used r \<le> length c)"

text \<open>The specification of one read over the byte list.\<close>

definition spec_peek :: "(byte_source, u8, validation_error) m" where
  "spec_peek = (\<lambda>s. case bs_bytes s of [] \<Rightarrow> (Err (bs_end s), s) | b # _ \<Rightarrow> (Ok b, s))"

definition spec_read_u8 :: "(byte_source, u8, validation_error) m" where
  "spec_read_u8 = (\<lambda>s.
     if bs_limit s \<le> bs_offset s then (Err Eof, s)
     else case bs_bytes s of
       [] \<Rightarrow> (Err (bs_end s), s)
     | b # bs \<Rightarrow> (Ok b, s\<lparr>bs_bytes := bs, bs_offset := Suc (bs_offset s)\<rparr>))"

text \<open>
  \<open>sim f g\<close>: run from related states, the concrete \<open>f\<close> does what the specification \<open>g\<close> does; an
  error leaves the offset (the position reported with the error) in step.
\<close>

definition sim :: "'a rm \<Rightarrow> (byte_source, 'a, validation_error) m \<Rightarrow> bool" where
  "sim f g \<longleftrightarrow> (\<forall>r. reader_inv r \<longrightarrow>
     outcome_rel (\<lambda>r' s'. reader_inv r' \<and> reader_abs r' = s')
       (\<lambda>r' s'. rd_full_offset r' = bs_offset s') (f r) (g (reader_abs r)))"

lemma reader_inv_new: "reader_inv (reader_new st al)"
  by (simp add: reader_inv_def reader_new_def cb_inv_new BUFFER_SIZE_def)

lemma reader_abs_new:
  "reader_abs (reader_new st al) =
    \<lparr>bs_bytes = fst (stream_data st), bs_end = snd (stream_data st), bs_offset = 0,
     bs_limit = USIZE_MAX, bs_alloc = al\<rparr>"
  by (simp add: reader_abs_def reader_new_def chunk_rest_def)

text \<open>
  Copying from the chunk into an empty buffer moves bytes and changes nothing else: because only
  an empty buffer is refilled, the copied prefix always fits and nothing is overwritten.
\<close>

lemma copy_chunk_abs:
  assumes inv: "reader_inv r" and empty: "cb_list (rd_buffer r) = []" and c: "rd_next r = Some c"
    and n: "n \<le> cb_capacity (rd_buffer r)"
  shows "reader_abs (copy_chunk c n r) = reader_abs r"
    and "cb_list (rd_buffer (copy_chunk c n r)) = take n (drop (rd_chunk_used r) c)"
    and "cb_inv (rd_buffer (copy_chunk c n r))"
    and "cb_capacity (rd_buffer (copy_chunk c n r)) = cb_capacity (rd_buffer r)"
proof -
  have cbi: "cb_inv (rd_buffer r)" using inv by (simp add: reader_inv_def)
  show list: "cb_list (rd_buffer (copy_chunk c n r)) = take n (drop (rd_chunk_used r) c)"
    using cb.fill_contents [OF cbi, of "take n (drop (rd_chunk_used r) c)"] empty n
    by (simp add: copy_chunk_def)
  show "cb_inv (rd_buffer (copy_chunk c n r))"
    using cb.fill_inv [OF cbi] by (simp add: copy_chunk_def)
  show "cb_capacity (rd_buffer (copy_chunk c n r)) = cb_capacity (rd_buffer r)"
    by (simp add: copy_chunk_def cb.fill_cap)
  have "take n (drop (rd_chunk_used r) c) @ drop (rd_chunk_used r + n) c = drop (rd_chunk_used r) c"
    by (metis append_take_drop_id drop_drop add.commute)
  then show "reader_abs (copy_chunk c n r) = reader_abs r"
    using list empty c by (simp add: reader_abs_def chunk_rest_def copy_chunk_def)
qed

text \<open>Refilling an empty buffer: either a byte is available, or the stream has ended as it ends.\<close>

lemma fetch_chunk_spec:
  assumes inv: "reader_inv r" and empty: "cb_list (rd_buffer r) = []" and rest: "chunk_rest r = []"
  shows "(\<exists>r'. fetch_chunk r = (Ok (), r') \<and> reader_inv r' \<and> reader_abs r' = reader_abs r \<and>
            cb_list (rd_buffer r') \<noteq> [])
      \<or> (\<exists>r'. fetch_chunk r = (Err (bs_end (reader_abs r)), r') \<and> bs_bytes (reader_abs r) = [] \<and>
            rd_full_offset r' = rd_full_offset r)"
proof -
  define r0 where "r0 = chunk_return r"
  have r0: "rd_stream r0 = rd_stream r" "rd_buffer r0 = rd_buffer r" "rd_full_offset r0 = rd_full_offset r"
    "rd_limit r0 = rd_limit r" "rd_alloc r0 = rd_alloc r" "rd_next r0 = None"
    by (simp_all add: r0_def chunk_return_def split: option.split)
  show ?thesis
  proof (cases "rd_stream r")
    case Nil
    then show ?thesis
      using empty rest by (simp add: fetch_chunk_def stream_read_def r0_def [symmetric] r0 reader_abs_def)
  next
    case (Cons res cs)
    show ?thesis
    proof (cases res)
      case (Chunk c)
      show ?thesis
      proof (cases "c = []")
        case True
        with Cons Chunk empty rest show ?thesis
          by (simp add: fetch_chunk_def stream_read_def r0_def [symmetric] r0 reader_abs_def Let_def)
      next
        case False
        define r2 where "r2 = r0\<lparr>rd_stream := cs, rd_next := Some c, rd_chunk_used := 0\<rparr>"
        define n where "n = min (length c) (cb_capacity (rd_buffer r2))"
        have inv2: "reader_inv r2" and cap: "cb_capacity (rd_buffer r2) = BUFFER_SIZE"
          using inv by (auto simp: reader_inv_def r2_def r0)
        have abs2: "reader_abs r2 = reader_abs r"
          using empty rest Cons Chunk False by (simp add: reader_abs_def r2_def r0 chunk_rest_def)
        note copy = copy_chunk_abs [OF inv2, of c n]
        have pre: "cb_list (rd_buffer r2) = []" "rd_next r2 = Some c" "n \<le> cb_capacity (rd_buffer r2)"
          using empty by (simp_all add: r2_def r0 n_def)
        have run: "fetch_chunk r = (Ok (), copy_chunk c n r2)"
          using Cons Chunk False
          by (simp add: fetch_chunk_def stream_read_def r0_def [symmetric] r0 r2_def n_def Let_def)
        have "0 < n" using False cap by (simp add: n_def BUFFER_SIZE_def)
        then have "cb_list (rd_buffer (copy_chunk c n r2)) \<noteq> []"
          using copy(2) pre False by (simp add: r2_def)
        moreover have "reader_inv (copy_chunk c n r2)"
          using copy(3,4) pre cap by (simp add: reader_inv_def) (simp add: copy_chunk_def r2_def n_def)
        ultimately show ?thesis
          using run copy(1) pre abs2 by auto
      qed
    qed (use Cons empty rest in \<open>simp_all add: fetch_chunk_def stream_read_def r0_def [symmetric] r0 reader_abs_def\<close>)
  qed
qed

lemma fill_buffer_spec:
  assumes inv: "reader_inv r" and empty: "cb_list (rd_buffer r) = []"
  shows "(\<exists>r'. fill_buffer r = (Ok (), r') \<and> reader_inv r' \<and> reader_abs r' = reader_abs r \<and>
            cb_list (rd_buffer r') \<noteq> [])
      \<or> (\<exists>r'. fill_buffer r = (Err (bs_end (reader_abs r)), r') \<and> bs_bytes (reader_abs r) = [] \<and>
            rd_full_offset r' = rd_full_offset r)"
proof (cases "rd_next r")
  case None
  then have "fill_buffer r = fetch_chunk r"
    using empty by (simp add: fill_buffer_def cb_is_empty_list)
  with fetch_chunk_spec [OF inv empty] None show ?thesis by (simp add: chunk_rest_def)
next
  case (Some c)
  then have used: "rd_chunk_used r \<le> length c" using inv by (simp add: reader_inv_def)
  show ?thesis
  proof (cases "rd_chunk_used r < length c")
    case False
    with Some used have "fill_buffer r = fetch_chunk r" "chunk_rest r = []"
      using empty by (simp_all add: fill_buffer_def cb_is_empty_list chunk_rest_def)
    with fetch_chunk_spec [OF inv empty] show ?thesis by simp
  next
    case True
    define n where "n = min (length c - rd_chunk_used r) (cb_capacity (rd_buffer r))"
    have n: "n \<le> cb_capacity (rd_buffer r)" "0 < n" "rd_chunk_used r + n \<le> length c"
      using True inv by (auto simp: n_def reader_inv_def BUFFER_SIZE_def)
    note copy = copy_chunk_abs [OF inv empty Some n(1)]
    have "fill_buffer r = (Ok (), copy_chunk c n r)"
      using Some True used empty by (simp add: fill_buffer_def cb_is_empty_list n_def)
    moreover have "cb_list (rd_buffer (copy_chunk c n r)) \<noteq> []"
      using copy(2) n True by simp
    moreover have "reader_inv (copy_chunk c n r)"
      using copy(3,4) inv n(3) Some by (simp add: reader_inv_def) (simp add: copy_chunk_def)
    ultimately show ?thesis using copy(1) by auto
  qed
qed

text \<open>Peeking leaves the byte list as it is; reading takes its head.\<close>

lemma peek_u8_spec:
  assumes inv: "reader_inv r"
  shows "(\<exists>b bs r'. bs_bytes (reader_abs r) = b # bs \<and> peek_u8 r = (Ok b, r') \<and> reader_inv r' \<and>
            reader_abs r' = reader_abs r \<and> cb_list (rd_buffer r') \<noteq> [])
      \<or> (\<exists>r'. bs_bytes (reader_abs r) = [] \<and> peek_u8 r = (Err (bs_end (reader_abs r)), r') \<and>
            rd_full_offset r' = rd_full_offset r)"
proof (cases "cb_list (rd_buffer r)")
  case (Cons b bs)
  with inv have "cb_front (rd_buffer r) = Some b"
    by (simp add: reader_inv_def cb_front_list)
  with Cons inv show ?thesis by (simp add: peek_u8_def reader_abs_def)
next
  case Nil
  have front: "cb_front (rd_buffer r) = None"
    using inv Nil by (simp add: reader_inv_def cb_front_list)
  from fill_buffer_spec [OF inv Nil] show ?thesis
  proof
    assume "\<exists>r'. fill_buffer r = (Ok (), r') \<and> reader_inv r' \<and> reader_abs r' = reader_abs r \<and>
      cb_list (rd_buffer r') \<noteq> []"
    then obtain r' b bs where r': "fill_buffer r = (Ok (), r')" "reader_inv r'" "reader_abs r' = reader_abs r"
      "cb_list (rd_buffer r') = b # bs"
      by (meson neq_Nil_conv)
    then have "cb_front (rd_buffer r') = Some b" by (simp add: reader_inv_def cb_front_list)
    then have "peek_u8 r = (Ok b, r')"
      using r' front by (simp add: peek_u8_def run_defs)
    moreover have "\<exists>bs'. bs_bytes (reader_abs r') = b # bs'"
      using r'(4) by (simp add: reader_abs_def)
    ultimately show ?thesis using r' by auto
  next
    assume "\<exists>r'. fill_buffer r = (Err (bs_end (reader_abs r)), r') \<and> bs_bytes (reader_abs r) = [] \<and>
      rd_full_offset r' = rd_full_offset r"
    then show ?thesis using front by (auto simp: peek_u8_def run_defs)
  qed
qed

lemma pop_front_abs:
  assumes inv: "reader_inv r" and ne: "cb_list (rd_buffer r) = b # bs"
  defines "r' \<equiv> r\<lparr>rd_buffer := snd (cb_pop_front (rd_buffer r)), rd_full_offset := Suc (rd_full_offset r)\<rparr>"
  shows "reader_inv r'"
    and "reader_abs r' = (reader_abs r)\<lparr>bs_bytes := tl (bs_bytes (reader_abs r)),
           bs_offset := Suc (bs_offset (reader_abs r))\<rparr>"
  using inv ne cb_pop_front_Cons [of "rd_buffer r" b bs]
  by (auto simp: r'_def reader_inv_def reader_abs_def chunk_rest_def split: option.split)

lemma read_u8_sim: "sim read_u8 spec_read_u8"
  unfolding sim_def
proof (intro allI impI)
  fix r assume inv: "reader_inv r"
  show "outcome_rel (\<lambda>r' s'. reader_inv r' \<and> reader_abs r' = s')
     (\<lambda>r' s'. rd_full_offset r' = bs_offset s') (read_u8 r) (spec_read_u8 (reader_abs r))"
  proof (cases "rd_limit r \<le> rd_full_offset r")
    case True
    then show ?thesis by (simp add: read_u8_def spec_read_u8_def reader_abs_def)
  next
    case False
    then have lim: "\<not> bs_limit (reader_abs r) \<le> bs_offset (reader_abs r)" by (simp add: reader_abs_def)
    from peek_u8_spec [OF inv] show ?thesis
    proof
      assume "\<exists>b bs r'. bs_bytes (reader_abs r) = b # bs \<and> peek_u8 r = (Ok b, r') \<and> reader_inv r' \<and>
        reader_abs r' = reader_abs r \<and> cb_list (rd_buffer r') \<noteq> []"
      then obtain b bs r' x xs where *: "bs_bytes (reader_abs r) = b # bs" "peek_u8 r = (Ok b, r')"
        "reader_inv r'" "reader_abs r' = reader_abs r" "cb_list (rd_buffer r') = x # xs"
        by (meson neq_Nil_conv)
      with False lim pop_front_abs [OF *(3,5)] show ?thesis
        by (simp add: read_u8_def spec_read_u8_def run_defs)
    next
      assume "\<exists>r'. bs_bytes (reader_abs r) = [] \<and> peek_u8 r = (Err (bs_end (reader_abs r)), r') \<and>
        rd_full_offset r' = rd_full_offset r"
      with False lim show ?thesis
        by (auto simp: read_u8_def spec_read_u8_def run_defs reader_abs_def)
    qed
  qed
qed

text \<open>The two outcomes of a read, in the form the decoders use.\<close>

lemma read_u8_Cons:
  assumes "reader_inv r" "bs_bytes (reader_abs r) = b # bs" "rd_full_offset r < rd_limit r"
  obtains r' where "read_u8 r = (Ok b, r')" "reader_inv r'"
    "reader_abs r' = (reader_abs r)\<lparr>bs_bytes := bs, bs_offset := Suc (rd_full_offset r)\<rparr>"
    "rd_full_offset r' = Suc (rd_full_offset r)" "rd_limit r' = rd_limit r"
proof -
  have spec: "spec_read_u8 (reader_abs r) =
      (Ok b, (reader_abs r)\<lparr>bs_bytes := bs, bs_offset := Suc (rd_full_offset r)\<rparr>)"
    using assms by (simp add: spec_read_u8_def reader_abs_def)
  have rel: "outcome_rel (\<lambda>r' s'. reader_inv r' \<and> reader_abs r' = s')
     (\<lambda>r' s'. rd_full_offset r' = bs_offset s') (read_u8 r) (spec_read_u8 (reader_abs r))"
    using read_u8_sim assms(1) by (simp add: sim_def)
  obtain r' where r': "read_u8 r = (Ok b, r')" "reader_inv r'"
    "reader_abs r' = (reader_abs r)\<lparr>bs_bytes := bs, bs_offset := Suc (rd_full_offset r)\<rparr>"
    using outcome_rel_OkD [OF rel [unfolded spec]] by blast
  moreover have "rd_full_offset r' = Suc (rd_full_offset r)" "rd_limit r' = rd_limit r"
    using arg_cong [OF r'(3), of bs_offset] arg_cong [OF r'(3), of bs_limit]
    by (simp_all add: reader_abs_def)
  ultimately show thesis using that by blast
qed

lemma spec_read_u8_stuck:
  "bs_bytes s = [] \<or> bs_limit s \<le> bs_offset s \<Longrightarrow> \<exists>e. spec_read_u8 s = (Err e, s)"
  by (auto simp: spec_read_u8_def)

lemma read_u8_Nil:
  assumes "reader_inv r" "bs_bytes (reader_abs r) = [] \<or> rd_limit r \<le> rd_full_offset r"
  shows "\<exists>e. fst (read_u8 r) = Err e"
proof -
  have "bs_bytes (reader_abs r) = [] \<or> bs_limit (reader_abs r) \<le> bs_offset (reader_abs r)"
    using assms(2) by (simp add: reader_abs_def)
  then obtain e where spec: "spec_read_u8 (reader_abs r) = (Err e, reader_abs r)"
    using spec_read_u8_stuck by blast
  have rel: "outcome_rel (\<lambda>r' s'. reader_inv r' \<and> reader_abs r' = s')
     (\<lambda>r' s'. rd_full_offset r' = bs_offset s') (read_u8 r) (spec_read_u8 (reader_abs r))"
    using read_u8_sim assms(1) by (simp add: sim_def)
  show ?thesis using outcome_rel_ErrD [OF rel [unfolded spec]] by force
qed

section \<open>Vectors and names\<close>

text \<open>One request to the embedder's allocator; no request is made for an empty vector.\<close>

definition alloc_step :: "nat \<Rightarrow> unit rm" where
  "alloc_step n = (\<lambda>r. if n = 0 then (Ok (), r) else case rd_alloc r of
     [] \<Rightarrow> (Ok (), r)
   | None # al \<Rightarrow> (Ok (), r\<lparr>rd_alloc := al\<rparr>)
   | Some e # al \<Rightarrow> (Err (VAllocError e), r\<lparr>rd_alloc := al\<rparr>))"

section \<open>Independence of the chunking\<close>

text \<open>
  Two readers are in step when they hold the same byte list (and the same offset, limit and
  allocator script), however their streams cut it. A computation is independent of the chunking
  when, run from readers in step, it gives the same outcome and leaves them in step; on an error
  the reported offset is the same. The predicate is closed under everything the decoders are
  written with, so it holds of all of them by \<open>intro\<close>.
\<close>

definition in_step :: "reader \<Rightarrow> reader \<Rightarrow> bool" where
  "in_step r1 r2 \<longleftrightarrow> reader_inv r1 \<and> reader_inv r2 \<and> reader_abs r1 = reader_abs r2"

definition same_offset :: "reader \<Rightarrow> reader \<Rightarrow> bool" where
  "same_offset r1 r2 \<longleftrightarrow> rd_full_offset r1 = rd_full_offset r2"

definition reader_indep :: "'a rm \<Rightarrow> bool" where
  "reader_indep f \<longleftrightarrow> (\<forall>r1 r2. in_step r1 r2 \<longrightarrow> outcome_rel in_step same_offset (f r1) (f r2))"

definition chunk_indep :: "(reader \<times> 'x, 'a, 'e) m \<Rightarrow> bool" where
  "chunk_indep f \<longleftrightarrow> (\<forall>r1 r2 x. in_step r1 r2 \<longrightarrow>
     outcome_rel (\<lambda>p q. in_step (fst p) (fst q) \<and> snd p = snd q)
       (\<lambda>p q. same_offset (fst p) (fst q) \<and> snd p = snd q) (f (r1, x)) (f (r2, x)))"

named_theorems indep "closure rules of chunk independence"

lemma in_step_offset: "in_step r1 r2 \<Longrightarrow> rd_full_offset r1 = rd_full_offset r2"
  by (auto simp: in_step_def reader_abs_def)

lemma in_step_limit: "in_step r1 r2 \<Longrightarrow> rd_limit r1 = rd_limit r2"
  by (auto simp: in_step_def reader_abs_def)

lemma sim_indep: "sim f g \<Longrightarrow> reader_indep f"
  unfolding reader_indep_def
proof (intro allI impI)
  fix r1 r2 assume sim: "sim f g" and step: "in_step r1 r2"
  then have inv: "reader_inv r1" "reader_inv r2" and abs: "reader_abs r1 = reader_abs r2"
    by (simp_all add: in_step_def)
  note 1 = sim [unfolded sim_def, rule_format, OF inv(1), unfolded abs]
  note 2 = sim [unfolded sim_def, rule_format, OF inv(2)]
  show "outcome_rel in_step same_offset (f r1) (f r2)"
    by (rule outcome_rel_compose [OF 1 2]) (auto simp: in_step_def same_offset_def)
qed

lemma reader_indep_ret [indep]: "reader_indep (retM a)"
  by (simp add: reader_indep_def retM_def)

lemma reader_indep_err [indep]: "reader_indep (errM e)"
  by (simp add: reader_indep_def errM_def same_offset_def in_step_offset)

lemma reader_indep_panic [indep]: "reader_indep panicM"
  by (simp add: reader_indep_def panicM_def)

lemma reader_indep_ok_or [indep]: "reader_indep (ok_or x e)"
  by (cases x) (simp_all add: ok_or_def indep)

lemma reader_indep_unwrap [indep]: "reader_indep (unwrapM x)"
  by (cases x) (simp_all add: unwrapM_def indep)

lemma reader_indep_bind [indep]:
  "reader_indep f \<Longrightarrow> (\<And>a. reader_indep (g a)) \<Longrightarrow> reader_indep (bindM f g)"
  unfolding reader_indep_def by (blast intro: outcome_rel_bind)

lemma reader_indep_then [indep]: "reader_indep f \<Longrightarrow> reader_indep g \<Longrightarrow> reader_indep (thenM f g)"
  by (simp add: thenM_def reader_indep_bind)

lemma reader_indep_if [indep]:
  "(b \<Longrightarrow> reader_indep f) \<Longrightarrow> (\<not> b \<Longrightarrow> reader_indep g) \<Longrightarrow> reader_indep (if b then f else g)"
  by simp

lemma reader_indep_option [indep]:
  "reader_indep f \<Longrightarrow> (\<And>a. reader_indep (g a)) \<Longrightarrow> reader_indep (case x of None \<Rightarrow> f | Some a \<Rightarrow> g a)"
  by (cases x) simp_all

lemma reader_indep_let [indep]: "(\<And>a. reader_indep (f a)) \<Longrightarrow> reader_indep (let a = x in f a)"
  by simp

lemma reader_indep_get [indep]:
  "(\<And>r1 r2. in_step r1 r2 \<Longrightarrow> f r1 = f r2) \<Longrightarrow> reader_indep (getM f)"
  by (simp add: reader_indep_def getM_def)

lemma reader_indep_read_u8 [indep]: "reader_indep read_u8"
  by (rule sim_indep [OF read_u8_sim])

lemma peek_u8_Some:
  assumes inv: "reader_inv r" and b: "bs_bytes (reader_abs r) = b # bs"
  shows "\<exists>r'. peek_u8 r = (Ok b, r') \<and> reader_inv r' \<and> reader_abs r' = reader_abs r"
  using peek_u8_spec [OF inv]
proof
  assume "\<exists>b' bs r'. bs_bytes (reader_abs r) = b' # bs \<and> peek_u8 r = (Ok b', r') \<and> reader_inv r' \<and>
    reader_abs r' = reader_abs r \<and> cb_list (rd_buffer r') \<noteq> []"
  then obtain b' bs' r' where "b # bs = b' # bs'" "peek_u8 r = (Ok b', r')" "reader_inv r'"
    "reader_abs r' = reader_abs r"
    unfolding b by blast
  then show ?thesis by blast
next
  assume "\<exists>r'. bs_bytes (reader_abs r) = [] \<and> peek_u8 r = (Err (bs_end (reader_abs r)), r') \<and>
    rd_full_offset r' = rd_full_offset r"
  then show ?thesis unfolding b by blast
qed

lemma peek_u8_None:
  assumes inv: "reader_inv r" and b: "bs_bytes (reader_abs r) = []"
  shows "\<exists>r'. peek_u8 r = (Err (bs_end (reader_abs r)), r') \<and> rd_full_offset r' = rd_full_offset r"
  using peek_u8_spec [OF inv] unfolding b by blast

lemma reader_indep_peek_u8 [indep]: "reader_indep peek_u8"
  unfolding reader_indep_def
proof (intro allI impI)
  fix r1 r2 assume step: "in_step r1 r2"
  then have inv: "reader_inv r1" "reader_inv r2" and abs: "reader_abs r1 = reader_abs r2"
    by (simp_all add: in_step_def)
  show "outcome_rel in_step same_offset (peek_u8 r1) (peek_u8 r2)"
  proof (cases "bs_bytes (reader_abs r2)")
    case Nil
    obtain t1 t2 where "peek_u8 r1 = (Err (bs_end (reader_abs r2)), t1)" "rd_full_offset t1 = rd_full_offset r1"
      "peek_u8 r2 = (Err (bs_end (reader_abs r2)), t2)" "rd_full_offset t2 = rd_full_offset r2"
      using peek_u8_None [OF inv(1)] peek_u8_None [OF inv(2)] Nil abs by metis
    then show ?thesis by (simp add: same_offset_def in_step_offset [OF step])
  next
    case (Cons b bs)
    obtain t1 t2 where "peek_u8 r1 = (Ok b, t1)" "reader_inv t1" "reader_abs t1 = reader_abs r2"
      "peek_u8 r2 = (Ok b, t2)" "reader_inv t2" "reader_abs t2 = reader_abs r2"
      using peek_u8_Some [OF inv(1), of b bs] peek_u8_Some [OF inv(2), of b bs] Cons abs by metis
    then show ?thesis by (simp add: in_step_def)
  qed
qed

lemma reader_indep_repeat [indep]: "reader_indep f \<Longrightarrow> reader_indep (repeatM n f)"
  by (induction n) (auto intro: indep)

lemma reader_indep_alloc_step [indep]: "reader_indep (alloc_step n)"
  by (auto simp: reader_indep_def alloc_step_def in_step_def reader_abs_def reader_inv_def chunk_rest_def
      same_offset_def split: list.split option.split)

lemma reader_indep_expect_u8 [indep]: "reader_indep (expect_u8 e)"
  unfolding expect_u8_def by (intro indep)

lemma reader_indep_skip [indep]: "reader_indep (skip n)"
  by (induction n) (auto intro: indep)

lemma reader_indep_strip_bytes [indep]: "reader_indep (strip_bytes n)"
  unfolding strip_bytes_def by (intro indep)

lemma reader_indep_offset [indep]: "reader_indep reader_offset"
  unfolding reader_offset_def by (intro indep) (rule in_step_offset)

lemma reader_indep_remaining [indep]: "reader_indep bytes_remaining"
  unfolding bytes_remaining_def by (intro indep) (simp add: in_step_offset in_step_limit)

text \<open>The same closure rules for computations that carry more state than the reader.\<close>

lemma chunk_indep_ret [indep]: "chunk_indep (retM a)"
  by (simp add: chunk_indep_def retM_def)

lemma chunk_indep_err [indep]: "chunk_indep (errM e)"
  by (simp add: chunk_indep_def errM_def same_offset_def in_step_offset)

lemma chunk_indep_panic [indep]: "chunk_indep panicM"
  by (simp add: chunk_indep_def panicM_def)

lemma chunk_indep_ok_or [indep]: "chunk_indep (ok_or x e)"
  by (cases x) (simp_all add: ok_or_def indep)

lemma chunk_indep_unwrap [indep]: "chunk_indep (unwrapM x)"
  by (cases x) (simp_all add: unwrapM_def indep)

lemma chunk_indep_bind [indep]:
  assumes f: "chunk_indep f" and g: "\<And>a. chunk_indep (g a)"
  shows "chunk_indep (bindM f g)"
  unfolding chunk_indep_def
proof (intro allI impI)
  fix r1 r2 x assume step: "in_step r1 r2"
  show "outcome_rel (\<lambda>p q. in_step (fst p) (fst q) \<and> snd p = snd q)
     (\<lambda>p q. same_offset (fst p) (fst q) \<and> snd p = snd q) (bindM f g (r1, x)) (bindM f g (r2, x))"
  proof (rule outcome_rel_bind)
    show "outcome_rel (\<lambda>p q. in_step (fst p) (fst q) \<and> snd p = snd q)
      (\<lambda>p q. same_offset (fst p) (fst q) \<and> snd p = snd q) (f (r1, x)) (f (r2, x))"
      using f step by (simp add: chunk_indep_def)
  next
    fix a and s t :: "reader \<times> 'a"
    assume "in_step (fst s) (fst t) \<and> snd s = snd t"
    then show "outcome_rel (\<lambda>p q. in_step (fst p) (fst q) \<and> snd p = snd q)
      (\<lambda>p q. same_offset (fst p) (fst q) \<and> snd p = snd q) (g a s) (g a t)"
      using g [of a] by (cases s; cases t) (simp add: chunk_indep_def)
  qed
qed

lemma chunk_indep_then [indep]: "chunk_indep f \<Longrightarrow> chunk_indep g \<Longrightarrow> chunk_indep (thenM f g)"
  by (simp add: thenM_def chunk_indep_bind)

lemma chunk_indep_when [indep]: "(b \<Longrightarrow> chunk_indep f) \<Longrightarrow> chunk_indep (whenM b f)"
  by (simp add: whenM_def indep)

lemma chunk_indep_if [indep]:
  "(b \<Longrightarrow> chunk_indep f) \<Longrightarrow> (\<not> b \<Longrightarrow> chunk_indep g) \<Longrightarrow> chunk_indep (if b then f else g)"
  by simp

lemma chunk_indep_option [indep]:
  "chunk_indep f \<Longrightarrow> (\<And>a. chunk_indep (g a)) \<Longrightarrow> chunk_indep (case x of None \<Rightarrow> f | Some a \<Rightarrow> g a)"
  by (cases x) simp_all

lemma chunk_indep_let [indep]: "(\<And>a. chunk_indep (f a)) \<Longrightarrow> chunk_indep (let a = x in f a)"
  by simp

lemma chunk_indep_forM [indep]: "(\<And>a. chunk_indep (f a)) \<Longrightarrow> chunk_indep (forM xs f)"
  by (induction xs) (auto intro: indep)

lemma chunk_indep_onReader [indep]:
  assumes "reader_indep f" shows "chunk_indep (onReader f)"
  unfolding chunk_indep_def
proof (intro allI impI)
  fix r1 r2 x assume "in_step r1 r2"
  then have "outcome_rel in_step same_offset (f r1) (f r2)" using assms by (simp add: reader_indep_def)
  then show "outcome_rel (\<lambda>p q. in_step (fst p) (fst q) \<and> snd p = snd q)
     (\<lambda>p q. same_offset (fst p) (fst q) \<and> snd p = snd q) (onReader f (r1, x)) (onReader f (r2, x))"
    by (cases "f r1"; cases "fst (f r1)") (auto simp: onReader_def)
qed

lemma chunk_indep_onState [indep]: "chunk_indep (onState f)"
  unfolding chunk_indep_def
proof (intro allI impI)
  fix r1 r2 x assume "in_step r1 r2"
  then show "outcome_rel (\<lambda>p q. in_step (fst p) (fst q) \<and> snd p = snd q)
     (\<lambda>p q. same_offset (fst p) (fst q) \<and> snd p = snd q) (onState f (r1, x)) (onState f (r2, x))"
    by (cases "f x"; cases "fst (f x)") (auto simp: onState_def same_offset_def in_step_offset)
qed

lemma reader_abs_set_limit:
  "reader_abs (r\<lparr>rd_limit := n\<rparr>) = (reader_abs r)\<lparr>bs_limit := n\<rparr>"
  by (simp add: reader_abs_def chunk_rest_def split: option.split)

lemma in_step_set_limit: "in_step r1 r2 \<Longrightarrow> in_step (r1\<lparr>rd_limit := n\<rparr>) (r2\<lparr>rd_limit := n\<rparr>)"
  by (simp add: in_step_def reader_abs_set_limit) (simp add: reader_inv_def)

lemma chunk_indep_with_limit [indep]:
  assumes "chunk_indep f" shows "chunk_indep (with_limit into len f)"
  unfolding chunk_indep_def
proof (intro allI impI)
  fix r1 r2 x assume step: "in_step r1 r2"
  note eqs = in_step_offset [OF step] in_step_limit [OF step]
  let ?n = "rd_full_offset r2 + len"
  have "outcome_rel (\<lambda>p q. in_step (fst p) (fst q) \<and> snd p = snd q)
     (\<lambda>p q. same_offset (fst p) (fst q) \<and> snd p = snd q)
     (f (r1\<lparr>rd_limit := ?n\<rparr>, x)) (f (r2\<lparr>rd_limit := ?n\<rparr>, x))"
    using assms in_step_set_limit [OF step] by (simp add: chunk_indep_def)
  then show "outcome_rel (\<lambda>p q. in_step (fst p) (fst q) \<and> snd p = snd q)
     (\<lambda>p q. same_offset (fst p) (fst q) \<and> snd p = snd q)
     (with_limit into len f (r1, x)) (with_limit into len f (r2, x))"
    using step eqs in_step_set_limit
    by (cases "f (r1\<lparr>rd_limit := ?n\<rparr>, x)"; cases "fst (f (r1\<lparr>rd_limit := ?n\<rparr>, x))")
      (auto simp: with_limit_def same_offset_def)
qed

section \<open>Reads stay below the limit\<close>

text \<open>
  A computation respects the limit when it leaves the limit as it found it, never moves the offset
  back, and never moves it past the limit. The rules below show it of every decoder by \<open>intro\<close>.
\<close>

definition within_limit :: "reader \<Rightarrow> reader \<Rightarrow> bool" where
  "within_limit r r' \<longleftrightarrow> rd_limit r' = rd_limit r \<and> rd_full_offset r \<le> rd_full_offset r' \<and>
     (rd_full_offset r \<le> rd_limit r \<longrightarrow> rd_full_offset r' \<le> rd_limit r)"

definition reader_bounded :: "'a rm \<Rightarrow> bool" where
  "reader_bounded f \<longleftrightarrow> (\<forall>r. within_limit r (snd (f r)))"

definition bounded :: "(reader \<times> 'x, 'a, 'e) m \<Rightarrow> bool" where
  "bounded f \<longleftrightarrow> (\<forall>p. within_limit (fst p) (fst (snd (f p))))"

named_theorems bnd "closure rules of the limit discipline"

lemma within_limit_refl [simp]: "within_limit r r"
  by (simp add: within_limit_def)

lemma within_limit_trans: "within_limit r s \<Longrightarrow> within_limit s t \<Longrightarrow> within_limit r t"
  by (auto simp: within_limit_def)

lemma reader_bounded_pure [bnd]:
  "reader_bounded (retM a)" "reader_bounded (errM e)" "reader_bounded panicM" "reader_bounded (getM g)"
  "reader_bounded (ok_or x e)"
  by (auto simp: reader_bounded_def run_defs split: option.split)

lemma reader_bounded_bind [bnd]:
  "reader_bounded f \<Longrightarrow> (\<And>a. reader_bounded (g a)) \<Longrightarrow> reader_bounded (bindM f g)"
  unfolding reader_bounded_def bindM_def
  by (auto split: prod.split result.split) (metis within_limit_trans snd_conv)+

lemma reader_bounded_then [bnd]: "reader_bounded f \<Longrightarrow> reader_bounded g \<Longrightarrow> reader_bounded (thenM f g)"
  by (simp add: thenM_def reader_bounded_bind)

lemma reader_bounded_if [bnd]:
  "(b \<Longrightarrow> reader_bounded f) \<Longrightarrow> (\<not> b \<Longrightarrow> reader_bounded g) \<Longrightarrow> reader_bounded (if b then f else g)"
  by simp

lemma reader_bounded_let [bnd]: "(\<And>a. reader_bounded (f a)) \<Longrightarrow> reader_bounded (let a = x in f a)"
  by simp

lemma fill_buffer_keeps:
  "rd_full_offset (snd (fill_buffer r)) = rd_full_offset r \<and> rd_limit (snd (fill_buffer r)) = rd_limit r"
  by (auto simp: fill_buffer_def fetch_chunk_def stream_read_def chunk_return_def copy_chunk_def Let_def
      split: option.split list.split chunk_result.split)

lemma peek_u8_keeps:
  "rd_full_offset (snd (peek_u8 r)) = rd_full_offset r \<and> rd_limit (snd (peek_u8 r)) = rd_limit r"
  using fill_buffer_keeps [of r]
  by (auto simp: peek_u8_def run_defs split: option.split prod.split result.split)

lemma reader_bounded_peek_u8 [bnd]: "reader_bounded peek_u8"
  by (simp add: reader_bounded_def within_limit_def peek_u8_keeps)

lemma reader_bounded_read_u8 [bnd]: "reader_bounded read_u8"
  unfolding reader_bounded_def
proof
  fix r
  show "within_limit r (snd (read_u8 r))"
    using peek_u8_keeps [of r]
    by (cases "peek_u8 r"; cases "fst (peek_u8 r)") (auto simp: read_u8_def within_limit_def run_defs)
qed

lemma reader_bounded_repeat [bnd]: "reader_bounded f \<Longrightarrow> reader_bounded (repeatM n f)"
  by (induction n) (auto intro: bnd)

lemma reader_bounded_alloc_step [bnd]: "reader_bounded (alloc_step n)"
  by (auto simp: reader_bounded_def alloc_step_def within_limit_def split: list.split option.split)

lemma bounded_pure [bnd]:
  "bounded (retM a)" "bounded (errM e)" "bounded panicM" "bounded (getM g)" "bounded (ok_or x e)"
  "bounded (onState h)"
  by (auto simp: bounded_def run_defs onState_def split: option.split prod.split)

lemma bounded_bind [bnd]: "bounded f \<Longrightarrow> (\<And>a. bounded (g a)) \<Longrightarrow> bounded (bindM f g)"
  unfolding bounded_def bindM_def
  by (auto split: prod.split result.split) (metis within_limit_trans fst_conv snd_conv)+

lemma bounded_then [bnd]: "bounded f \<Longrightarrow> bounded g \<Longrightarrow> bounded (thenM f g)"
  by (simp add: thenM_def bounded_bind)

lemma bounded_if [bnd]: "(b \<Longrightarrow> bounded f) \<Longrightarrow> (\<not> b \<Longrightarrow> bounded g) \<Longrightarrow> bounded (if b then f else g)"
  by simp

lemma bounded_let [bnd]: "(\<And>a. bounded (f a)) \<Longrightarrow> bounded (let a = x in f a)"
  by simp

lemma bounded_onReader [bnd]: "reader_bounded f \<Longrightarrow> bounded (onReader f)"
  by (auto simp: reader_bounded_def bounded_def onReader_def split: prod.split) (metis snd_conv)

lemma bounded_with_limit [bnd]:
  assumes "bounded f" shows "bounded (with_limit into len f)"
  unfolding bounded_def
proof
  fix p :: "reader \<times> 'a"
  obtain r x where p: "p = (r, x)" by (cases p)
  obtain a r' x' where f: "f (r\<lparr>rd_limit := rd_full_offset r + len\<rparr>, x) = (a, (r', x'))"
    by (metis prod_cases3)
  from assms have "within_limit (r\<lparr>rd_limit := rd_full_offset r + len\<rparr>) r'"
    unfolding bounded_def by (metis f fst_conv snd_conv)
  then show "within_limit (fst p) (fst (snd (with_limit into len f p)))"
    by (auto simp: p f with_limit_def within_limit_def)
qed

section \<open>What a reader delivers\<close>

lemma sim_ret: "sim (retM a) (retM a)"
  by (simp add: sim_def retM_def)

lemma sim_bind:
  assumes "sim f f'" "\<And>a. sim (g a) (g' a)" shows "sim (bindM f g) (bindM f' g')"
  unfolding sim_def
proof (intro allI impI)
  fix r assume inv: "reader_inv r"
  show "outcome_rel (\<lambda>r' s'. reader_inv r' \<and> reader_abs r' = s')
    (\<lambda>r' s'. rd_full_offset r' = bs_offset s') (bindM f g r) (bindM f' g' (reader_abs r))"
  proof (rule outcome_rel_bind)
    show "outcome_rel (\<lambda>r' s'. reader_inv r' \<and> reader_abs r' = s')
      (\<lambda>r' s'. rd_full_offset r' = bs_offset s') (f r) (f' (reader_abs r))"
      using assms(1) inv by (simp add: sim_def)
  next
    fix a s t assume "reader_inv s \<and> reader_abs s = t"
    then show "outcome_rel (\<lambda>r' s'. reader_inv r' \<and> reader_abs r' = s')
      (\<lambda>r' s'. rd_full_offset r' = bs_offset s') (g a s) (g' a t)"
      using assms(2) [of a] by (auto simp: sim_def)
  qed
qed

lemma sim_repeat: "sim f g \<Longrightarrow> sim (repeatM n f) (repeatM n g)"
  by (induction n) (auto intro!: sim_bind sim_ret)

lemma spec_read_repeat:
  assumes "bs_offset s + n \<le> bs_limit s"
  shows "fst (repeatM n spec_read_u8 s) =
    (if n \<le> length (bs_bytes s) then Ok (take n (bs_bytes s)) else Err (bs_end s))"
  using assms
proof (induction n arbitrary: s)
  case 0
  then show ?case by (simp add: retM_def)
next
  case (Suc n)
  show ?case
  proof (cases "bs_bytes s")
    case Nil
    with Suc.prems show ?thesis by (simp add: spec_read_u8_def run_defs)
  next
    case (Cons b bs)
    define t where "t = s\<lparr>bs_bytes := bs, bs_offset := Suc (bs_offset s)\<rparr>"
    have "spec_read_u8 s = (Ok b, t)"
      using Cons Suc.prems by (simp add: spec_read_u8_def t_def)
    moreover have "fst (repeatM n spec_read_u8 t) = (if n \<le> length bs then Ok (take n bs) else Err (bs_end s))"
      using Suc.IH [of t] Suc.prems by (simp add: t_def)
    ultimately show ?thesis
      using Cons by (cases "repeatM n spec_read_u8 t") (auto simp: run_defs split: result.splits if_splits)
  qed
qed

lemma outcome_rel_fst:
  "outcome_rel R E x y \<Longrightarrow> fst x = fst y"
  by (cases x; cases "fst x") auto

text \<open>
  Claim C23. Whatever the sizes of the chunks the stream hands out, successive reads deliver the
  bytes of the stream in order and without loss or repetition, up to the first end-of-stream mark or
  stream error; asking for more bytes than there are reports that end (\<open>Eof\<close> or the stream's error).
\<close>

theorem reads_deliver_stream:
  assumes "n \<le> USIZE_MAX"
  shows "fst (repeatM n read_u8 (reader_new st al)) =
    (if n \<le> length (fst (stream_data st)) then Ok (take n (fst (stream_data st)))
     else Err (snd (stream_data st)))"
proof -
  let ?r = "reader_new st al"
  have "fst (repeatM n read_u8 ?r) = fst (repeatM n spec_read_u8 (reader_abs ?r))"
    using sim_repeat [OF read_u8_sim, of n] reader_inv_new [of st al] unfolding sim_def
    by (blast intro: outcome_rel_fst)
  then show ?thesis
    using assms by (simp add: spec_read_repeat reader_abs_new)
qed

lemma reads_deliver_stream_witness:
  "fst (repeatM 3 read_u8 (reader_new [Chunk [1, 2], Chunk [3, 4]] [])) = Ok [1, 2, 3] \<and>
   fst (repeatM 3 read_u8 (reader_new [Chunk [1], ReadErr 9] [])) = Err (ReaderError 9)"
  using reads_deliver_stream [of 3 "[Chunk [1, 2], Chunk [3, 4]]" "[]"]
    reads_deliver_stream [of 3 "[Chunk [1], ReadErr 9]" "[]"]
  by (simp add: USIZE_MAX_def)

section \<open>Every chunk is handed back once\<close>

text \<open>The states a reader goes through: reads and peeks in any order, under any limits.\<close>

inductive reader_reach :: "chunk_result list \<Rightarrow> alloc_error option list \<Rightarrow> reader \<Rightarrow> bool" for st al where
  reach_new: "reader_reach st al (reader_new st al)"
| reach_read: "reader_reach st al r \<Longrightarrow> reader_reach st al (snd (read_u8 r))"
| reach_peek: "reader_reach st al r \<Longrightarrow> reader_reach st al (snd (peek_u8 r))"
| reach_expect: "reader_reach st al r \<Longrightarrow> reader_reach st al (snd (expect_u8 e r))"
| reach_skip: "reader_reach st al r \<Longrightarrow> reader_reach st al (snd (skip n r))"
| reach_limit: "reader_reach st al r \<Longrightarrow> reader_reach st al (r\<lparr>rd_limit := n\<rparr>)"

fun chunk_count :: "chunk_result list \<Rightarrow> nat" where
  "chunk_count [] = 0"
| "chunk_count (Chunk c # cs) = Suc (chunk_count cs)"
| "chunk_count (NoChunk # cs) = chunk_count cs"
| "chunk_count (ReadErr e # cs) = chunk_count cs"

text \<open>The chunks handed back, the one held, and those still to come.\<close>

definition chunk_balance :: "reader \<Rightarrow> nat" where
  "chunk_balance r = rd_returned r + (if rd_next r = None then 0 else 1) + chunk_count (rd_stream r)"

lemma balance_fill: "chunk_balance (snd (fill_buffer r)) = chunk_balance r"
  by (auto simp: fill_buffer_def fetch_chunk_def stream_read_def chunk_return_def copy_chunk_def Let_def
      chunk_balance_def split: option.split list.split chunk_result.split)

lemma balance_peek: "chunk_balance (snd (peek_u8 r)) = chunk_balance r"
  using balance_fill [of r]
  by (auto simp: peek_u8_def run_defs split: option.split prod.split result.split)

lemma balance_read: "chunk_balance (snd (read_u8 r)) = chunk_balance r"
  using balance_peek [of r]
  by (cases "peek_u8 r"; cases "fst (peek_u8 r)") (auto simp: read_u8_def run_defs chunk_balance_def)

lemma balance_expect: "chunk_balance (snd (expect_u8 e r)) = chunk_balance r"
  using balance_peek [of r] balance_read [of "snd (peek_u8 r)"]
  by (auto simp: expect_u8_def run_defs split: prod.split result.split)

lemma balance_skip: "chunk_balance (snd (skip n r)) = chunk_balance r"
proof (induction n arbitrary: r)
  case (Suc n)
  then show ?case
    using balance_read [of r] by (auto simp: run_defs split: prod.split result.split)
qed (simp add: retM_def)

lemma balance_new: "chunk_balance (reader_new st al) = chunk_count st"
  by (simp add: chunk_balance_def reader_new_def)

lemma balance_limit: "chunk_balance (r\<lparr>rd_limit := n\<rparr>) = chunk_balance r"
  by (simp add: chunk_balance_def)

lemma reach_balance: "reader_reach st al r \<Longrightarrow> chunk_balance r = chunk_count st"
  by (induction rule: reader_reach.induct)
    (simp_all only: balance_read balance_peek balance_expect balance_skip balance_new balance_limit)

text \<open>
  Chunks are neither leaked nor handed back twice: whatever was read, peeked, skipped or
  limited, and however it failed, once the reader is dropped it holds no chunk and has called
  \<open>return_\<close> exactly as often as the stream delivered a chunk.
\<close>

lemma chunks_returned_once:
  assumes "reader_reach st al r"
  shows "rd_next (reader_drop r) = None \<and>
    rd_returned (reader_drop r) + chunk_count (rd_stream (reader_drop r)) = chunk_count st"
  using reach_balance [OF assms]
  by (auto simp: reader_drop_def chunk_return_def chunk_balance_def split: option.split)

lemma chunks_returned_once_witness:
  "let r = snd (skip 5 (snd (read_u8 (reader_new [Chunk [1, 2], Chunk [3]] [])))) in
   rd_next (reader_drop r) = None \<and>
     rd_returned (reader_drop r) + chunk_count (rd_stream (reader_drop r)) = 2"
  using chunks_returned_once [OF reach_skip [OF reach_read [OF reach_new [of "[Chunk [1, 2], Chunk [3]]" "[]"]]], of 5]
  by (simp add: Let_def numeral_2_eq_2)

end
