(* ===== verification/Leb128.thy ===== *)
theory Leb128
  imports Reader
begin

text \<open>
  The LEB128 decoders of src/reader.rs (\<open>read_u32\<close>, \<open>read_i32\<close>, \<open>read_i64\<close>), the little-endian float
  readers and the vector readers built on them. The source unrolls every group of seven bits; the
  definitions below are unrolled in the same way, each group being one \<open>leb_group\<close>. The lemmas fold
  the unrolled text into \<open>leb_groups\<close>, and the properties characterise each decoder exactly: which
  byte sequences it accepts, with which value, how many bytes it takes, and that every other
  sequence is \<open>MalformedInteger\<close>.
\<close>

definition CONTINUATION_BIT :: u8 where
  "CONTINUATION_BIT = 0b10000000"

definition INTEGER_BIT_FLAG :: u8 where
  "INTEGER_BIT_FLAG = NOT CONTINUATION_BIT"

text \<open>\<open>u8::count_ones\<close> and the \<open>(result << n) >> n\<close> sign extension.\<close>

definition count_ones :: "u8 \<Rightarrow> nat" where
  "count_ones b = length (filter (bit b) [0..<8])"

definition sign_extend_from :: "nat \<Rightarrow> 'w::len word \<Rightarrow> 'w word" where
  "sign_extend_from n x = signed_drop_bit n (push_bit n x)"

text \<open>
  One group of the unrolled code: read a byte, add its seven bits at shift \<open>sh\<close>, return when the
  continuation bit is clear (after \<open>fin\<close>, the sign extension), go on with \<open>k\<close> otherwise.
\<close>

definition leb_group ::
  "nat \<Rightarrow> ('w::len word \<Rightarrow> 'w word) \<Rightarrow> 'w word \<Rightarrow> ('w word \<Rightarrow> 'w word rm) \<Rightarrow> 'w word rm"
where
  "leb_group sh fin acc k = bindM read_u8 (\<lambda>byte.
     let result = acc OR push_bit sh (ucast (byte AND INTEGER_BIT_FLAG)) in
     if byte AND CONTINUATION_BIT = 0 then retM (fin result) else k result)"

definition read_u32 :: "u32 rm" where
  "read_u32 =
     leb_group 0 id 0 (\<lambda>result.
     leb_group 7 id result (\<lambda>result.
     leb_group 14 id result (\<lambda>result.
     leb_group 21 id result (\<lambda>result.
     bindM read_u8 (\<lambda>byte.
       let result = result OR push_bit 28 (ucast (byte AND INTEGER_BIT_FLAG));
           has_next_byte = byte AND CONTINUATION_BIT > 0;
           padding_bits_are_not_zero = byte AND 0b01110000 > 0
       in if has_next_byte \<or> padding_bits_are_not_zero then errM MalformedInteger
          else retM result)))))"

text \<open>The last group of the signed decoders; \<open>pmask\<close> is \<open>PADDING_AND_SIGN_BITMASK\<close>.\<close>

definition leb_signed_last :: "nat \<Rightarrow> u8 \<Rightarrow> 'w::len word \<Rightarrow> 'w word rm" where
  "leb_signed_last sh pmask result = bindM read_u8 (\<lambda>byte.
     let result = result OR push_bit sh (ucast (byte AND INTEGER_BIT_FLAG));
         has_next_byte = byte AND CONTINUATION_BIT > 0;
         number_of_ones = count_ones (byte AND pmask);
         padding_bits_match_sign_bit = (number_of_ones = count_ones pmask \<or> number_of_ones = 0)
     in if has_next_byte then errM MalformedInteger
        else if \<not> padding_bits_match_sign_bit then errM MalformedInteger
        else retM result)"

definition read_i32 :: "u32 rm" where
  "read_i32 =
     leb_group 0 (sign_extend_from (32 - 7)) 0 (\<lambda>result.
     leb_group 7 (sign_extend_from (32 - 14)) result (\<lambda>result.
     leb_group 14 (sign_extend_from (32 - 21)) result (\<lambda>result.
     leb_group 21 (sign_extend_from (32 - 28)) result (\<lambda>result.
     leb_signed_last 28 (0b01110000 OR 0b00001000) result))))"

definition read_i64 :: "u64 rm" where
  "read_i64 =
     leb_group 0 (sign_extend_from (64 - 7)) 0 (\<lambda>result.
     leb_group 7 (sign_extend_from (64 - 14)) result (\<lambda>result.
     leb_group 14 (sign_extend_from (64 - 21)) result (\<lambda>result.
     leb_group 21 (sign_extend_from (64 - 28)) result (\<lambda>result.
     leb_group 28 (sign_extend_from (64 - 35)) result (\<lambda>result.
     leb_group 35 (sign_extend_from (64 - 42)) result (\<lambda>result.
     leb_group 42 (sign_extend_from (64 - 49)) result (\<lambda>result.
     leb_group 49 (sign_extend_from (64 - 56)) result (\<lambda>result.
     leb_group 56 (sign_extend_from (64 - 63)) result (\<lambda>result.
     leb_signed_last 63 (0b01111110 OR 0b00000001) result)))))))))"

text \<open>\<open>u32::from_le_bytes\<close> and \<open>u64::from_le_bytes\<close>.\<close>

fun from_le_bytes :: "u8 list \<Rightarrow> 'w::len word" where
  "from_le_bytes [] = 0"
| "from_le_bytes (b # bs) = ucast b OR push_bit 8 (from_le_bytes bs)"

definition read_f32_bits :: "u32 rm" where
  "read_f32_bits = bindM (strip_bytes 4) (\<lambda>bytes. retM (from_le_bytes bytes))"

definition read_f64_bits :: "u64 rm" where
  "read_f64_bits = bindM (strip_bytes 8) (\<lambda>bytes. retM (from_le_bytes bytes))"

section \<open>Vectors\<close>

text \<open>
  \<open>read_vec\<close>: the length is checked against the bytes left under the limit before anything is
  allocated. \<open>read_vec_stack\<close> fills a \<open>StaticVec\<close> of capacity \<open>sz\<close>.
\<close>

definition read_vec :: "'a rm \<Rightarrow> 'a list rm" where
  "read_vec read_element = bindM read_u32 (\<lambda>len. bindM bytes_remaining (\<lambda>rem.
     if rem < unat len then errM VecTooLong
     else thenM (alloc_step (unat len)) (repeatM (unat len) read_element)))"

definition read_vec_stack :: "nat \<Rightarrow> 'a rm \<Rightarrow> 'a list rm" where
  "read_vec_stack sz read_element = bindM read_u32 (\<lambda>len. bindM bytes_remaining (\<lambda>rem.
     if sz < unat len \<or> rem < unat len then errM VecTooLong
     else repeatM (unat len) read_element))"

section \<open>Chunk independence and limits\<close>

lemma reader_indep_leb_group [indep]:
  "(\<And>a. reader_indep (k a)) \<Longrightarrow> reader_indep (leb_group sh fin acc k)"
  unfolding leb_group_def by (intro indep)

lemma reader_bounded_leb_group [bnd]:
  "(\<And>a. reader_bounded (k a)) \<Longrightarrow> reader_bounded (leb_group sh fin acc k)"
  unfolding leb_group_def by (intro bnd)

lemma reader_indep_read_u32 [indep]: "reader_indep read_u32"
  unfolding read_u32_def by (intro indep)

lemma reader_indep_read_i32 [indep]: "reader_indep read_i32"
  unfolding read_i32_def leb_signed_last_def by (intro indep)

lemma reader_indep_read_i64 [indep]: "reader_indep read_i64"
  unfolding read_i64_def leb_signed_last_def by (intro indep)

lemma reader_indep_floats [indep]: "reader_indep read_f32_bits" "reader_indep read_f64_bits"
  unfolding read_f32_bits_def read_f64_bits_def by (intro indep)+

lemma reader_indep_read_vec [indep]: "reader_indep f \<Longrightarrow> reader_indep (read_vec f)"
  unfolding read_vec_def by (intro indep)

lemma reader_indep_read_vec_stack [indep]: "reader_indep f \<Longrightarrow> reader_indep (read_vec_stack n f)"
  unfolding read_vec_stack_def by (intro indep)

lemma reader_bounded_ints [bnd]: "reader_bounded read_u32" "reader_bounded read_i32" "reader_bounded read_i64"
  unfolding read_u32_def read_i32_def read_i64_def leb_signed_last_def by (intro bnd)+

lemma reader_bounded_floats [bnd]: "reader_bounded read_f32_bits" "reader_bounded read_f64_bits"
  unfolding read_f32_bits_def read_f64_bits_def strip_bytes_def by (intro bnd)+

lemma reader_bounded_read_vec [bnd]: "reader_bounded f \<Longrightarrow> reader_bounded (read_vec f)"
  unfolding read_vec_def bytes_remaining_def by (intro bnd)

lemma reader_bounded_read_vec_stack [bnd]: "reader_bounded f \<Longrightarrow> reader_bounded (read_vec_stack n f)"
  unfolding read_vec_stack_def bytes_remaining_def by (intro bnd)

section \<open>Values\<close>

text \<open>A LEB128 prefix: every byte but the last has the continuation bit.\<close>

definition leb_prefix :: "u8 list \<Rightarrow> bool" where
  "leb_prefix p \<longleftrightarrow> p \<noteq> [] \<and> (\<forall>b\<in>set (butlast p). bit b 7) \<and> \<not> bit (last p) 7"

fun leb_value :: "u8 list \<Rightarrow> nat" where
  "leb_value [] = 0"
| "leb_value (b # bs) = unat b mod 128 + 128 * leb_value bs"

text \<open>The two's complement reading: bit 6 of the last byte is the sign.\<close>

definition sleb_value :: "u8 list \<Rightarrow> int" where
  "sleb_value p = (if bit (last p) 6 then int (leb_value p) - 2 ^ (7 * length p) else int (leb_value p))"

subsection \<open>The bits of a byte\<close>

lemma upt8: "[0..<8] = [0, 1, 2, 3, 4, 5, 6, 7 :: nat]"
  by (simp add: upt_rec)

lemma all_less_8: "(\<forall>n<8. P n) \<longleftrightarrow> P 0 \<and> P 1 \<and> P 2 \<and> P 3 \<and> P 4 \<and> P 5 \<and> P 6 \<and> P (7 :: nat)"
proof -
  have "(\<forall>n<8. P n) \<longleftrightarrow> (\<forall>n\<in>set [0..<8]. P n)" by auto
  then show ?thesis by (simp only: upt8) simp
qed

lemma u8_eq_iff: "(a :: u8) = b \<longleftrightarrow> (\<forall>n<8. bit a n = bit b n)"
  by (auto simp: bit_eq_iff)

lemma unat_u8_bits:
  "unat (b :: u8) = of_bool (bit b 0) + 2 * of_bool (bit b 1) + 4 * of_bool (bit b 2) + 8 * of_bool (bit b 3)
    + 16 * of_bool (bit b 4) + 32 * of_bool (bit b 5) + 64 * of_bool (bit b 6) + 128 * of_bool (bit b 7)"
proof -
  have "unat b < 2 ^ 8" using unsigned_less [of b] by simp
  then have "unat b = horner_sum of_bool 2 (map (bit (unat b)) [0..<8])"
    by (simp only: horner_sum_bit_eq_take_bit take_bit_nat_eq_self)
  then show ?thesis by (simp add: upt8 bit_unsigned_iff)
qed

lemma unat_u8_mod_128:
  "unat (b :: u8) mod 128 = of_bool (bit b 0) + 2 * of_bool (bit b 1) + 4 * of_bool (bit b 2)
    + 8 * of_bool (bit b 3) + 16 * of_bool (bit b 4) + 32 * of_bool (bit b 5) + 64 * of_bool (bit b 6)"
  unfolding unat_u8_bits by (simp split: split_of_bool)

lemma flag_bits: "bit INTEGER_BIT_FLAG n \<longleftrightarrow> n < 7"
  by (cases "n < 8") (auto simp: INTEGER_BIT_FLAG_def CONTINUATION_BIT_def bit_simps bit_numeral_word_iff
      less_Suc_eq numeral_eq_Suc dest: bit_imp_le_length)

lemma unat_payload: "unat (b AND INTEGER_BIT_FLAG) = unat b mod 128"
  unfolding unat_u8_bits [of "b AND INTEGER_BIT_FLAG"] unat_u8_mod_128 bit_and_iff flag_bits by simp

lemma continuation_0: "b AND CONTINUATION_BIT = 0 \<longleftrightarrow> \<not> bit b 7"
  unfolding u8_eq_iff all_less_8 bit_and_iff CONTINUATION_BIT_def by (simp add: bit_numeral_word_iff)

lemma continuation_pos: "b AND CONTINUATION_BIT > 0 \<longleftrightarrow> bit b 7"
  using continuation_0 [of b] unfolding word_gt_0 by auto

lemma padding_u32: "(b :: u8) AND 0b01110000 > 0 \<longleftrightarrow> 16 \<le> unat b mod 128"
proof -
  have "b AND 0b01110000 = 0 \<longleftrightarrow> \<not> bit b 4 \<and> \<not> bit b 5 \<and> \<not> bit b 6"
    unfolding u8_eq_iff all_less_8 bit_and_iff by (simp add: bit_numeral_word_iff)
  then show ?thesis
    unfolding unat_u8_mod_128 word_gt_0 by (simp split: split_of_bool)
qed

lemma sign_bit_6: "bit (b :: u8) 6 \<longleftrightarrow> 64 \<le> unat b mod 128"
  unfolding unat_u8_mod_128 by (simp split: split_of_bool)

lemma ones_120:
  "count_ones ((b :: u8) AND 120) = of_bool (bit b 3) + of_bool (bit b 4) + of_bool (bit b 5) + of_bool (bit b 6)"
  by (simp add: count_ones_def upt8 bit_and_iff bit_numeral_word_iff)

lemma ones_127:
  "count_ones ((b :: u8) AND 127) = of_bool (bit b 0) + of_bool (bit b 1) + of_bool (bit b 2)
    + of_bool (bit b 3) + of_bool (bit b 4) + of_bool (bit b 5) + of_bool (bit b 6)"
  by (simp add: count_ones_def upt8 bit_and_iff bit_numeral_word_iff)

lemma padding_i32:
  "count_ones ((b :: u8) AND 120) = 4 \<longleftrightarrow> 120 \<le> unat b mod 128"
  "count_ones ((b :: u8) AND 120) = 0 \<longleftrightarrow> unat b mod 128 < 8"
  unfolding ones_120 unat_u8_mod_128 by (simp_all split: split_of_bool)

lemma padding_i64:
  "count_ones ((b :: u8) AND 127) = 7 \<longleftrightarrow> unat b mod 128 = 127"
  "count_ones ((b :: u8) AND 127) = 0 \<longleftrightarrow> unat b mod 128 = 0"
  unfolding ones_127 unat_u8_mod_128 by (simp_all split: split_of_bool)

subsection \<open>Sign extension\<close>

lemma sint_unat_cases:
  fixes y :: "'w::len word"
  shows "sint y = (if 2 ^ (LENGTH('w) - 1) \<le> unat y then int (unat y) - 2 ^ LENGTH('w) else int (unat y))"
proof -
  define h where "h = (2::int) ^ (LENGTH('w) - 1)"
  have W: "(2::int) ^ LENGTH('w) = 2 * h"
    unfolding h_def by (metis One_nat_def Suc_pred len_gt_0 power_Suc)
  have s: "sint y = (uint y + h) mod (2 * h) - h"
    using len_gt_0 [where 'a = 'w]
    by (simp add: sint_uint signed_take_bit_eq_take_bit_shift take_bit_eq_mod W) (simp add: h_def)
  have u: "uint y = int (unat y)" "0 \<le> uint y" "uint y < 2 * h"
    using uint_lt2p [of y] W by simp_all
  have le: "2 ^ (LENGTH('w) - 1) \<le> unat y \<longleftrightarrow> h \<le> uint y"
    using of_nat_le_iff [of "2 ^ (LENGTH('w) - 1)" "unat y", where 'a = int] by (simp add: h_def)
  show ?thesis
  proof (cases "h \<le> uint y")
    case True
    have "uint y + h = (uint y - h) + 2 * h" by simp
    then have "(uint y + h) mod (2 * h) = (uint y - h) mod (2 * h)" by (simp only: mod_add_self2)
    also have "\<dots> = uint y - h" using True u(2,3) by (intro mod_pos_pos_trivial) auto
    finally have "(uint y + h) mod (2 * h) = uint y - h" .
    then show ?thesis using s le True W by simp
  next
    case False
    then have "(uint y + h) mod (2 * h) = uint y + h"
      using u(2,3) by (intro mod_pos_pos_trivial) linarith+
    then show ?thesis using s le False by simp
  qed
qed

lemma sint_sign_extend:
  fixes x :: "'w::len word"
  assumes x: "unat x < 2 ^ s" and s: "0 < s" "s \<le> LENGTH('w)"
  shows "sint (sign_extend_from (LENGTH('w) - s) x) = (if 2 ^ (s - 1) \<le> unat x then int (unat x) - 2 ^ s else int (unat x))"
proof -
  define n where "n = LENGTH('w) - s"
  have W: "LENGTH('w) = s + n" "LENGTH('w) - 1 = (s - 1) + n" using s by (simp_all add: n_def)
  have "unat x * 2 ^ n < 2 ^ LENGTH('w)" using x by (simp add: W power_add)
  then have y: "unat (push_bit n x) = unat x * 2 ^ n"
    unfolding unsigned_push_bit_eq by (simp add: push_bit_eq_mult take_bit_nat_eq_self)
  have "sint (sign_extend_from n x) = sint (push_bit n x) div 2 ^ n"
    by (simp add: sign_extend_from_def sint_signed_drop_bit_eq drop_bit_eq_div)
  also have "\<dots> = (if 2 ^ (s - 1) \<le> unat x then int (unat x) - 2 ^ s else int (unat x))"
  proof -
    have "int (unat x) * 2 ^ n - 2 ^ LENGTH('w) = (int (unat x) - 2 ^ s) * 2 ^ n"
      by (simp add: W power_add left_diff_distrib)
    moreover have "2 ^ (LENGTH('w) - 1) \<le> unat x * 2 ^ n \<longleftrightarrow> 2 ^ (s - 1) \<le> unat x"
      by (simp add: W(2) power_add del: One_nat_def)
    ultimately show ?thesis
      unfolding sint_unat_cases [of "push_bit n x"] y by simp
  qed
  finally show ?thesis by (simp add: n_def)
qed
section \<open>Correctness of the groups\<close>

text \<open>\<open>r'\<close> is \<open>r\<close> after \<open>n\<close> bytes have been read.\<close>

definition advanced :: "reader \<Rightarrow> nat \<Rightarrow> reader \<Rightarrow> bool" where
  "advanced r n r' \<longleftrightarrow> reader_inv r' \<and> reader_abs r' = (reader_abs r)
     \<lparr>bs_bytes := drop n (bs_bytes (reader_abs r)), bs_offset := bs_offset (reader_abs r) + n\<rparr>"

lemma advanced_trans:
  "advanced r n s \<Longrightarrow> advanced s m t \<Longrightarrow> advanced r (n + m) t"
  by (simp add: advanced_def add.commute add.assoc)

lemma advanced_fields:
  assumes "advanced r n r'"
  shows "bs_bytes (reader_abs r') = drop n (bs_bytes (reader_abs r))" "rd_limit r' = rd_limit r"
    "rd_full_offset r' = rd_full_offset r + n" "reader_inv r'"
proof -
  have abs: "reader_abs r' = (reader_abs r)\<lparr>bs_bytes := drop n (bs_bytes (reader_abs r)),
      bs_offset := bs_offset (reader_abs r) + n\<rparr>"
    using assms by (simp add: advanced_def)
  show "bs_bytes (reader_abs r') = drop n (bs_bytes (reader_abs r))" by (simp add: abs)
  show "rd_limit r' = rd_limit r" using arg_cong [OF abs, of bs_limit] by (simp add: reader_abs_def)
  show "rd_full_offset r' = rd_full_offset r + n"
    using arg_cong [OF abs, of bs_offset] by (simp add: reader_abs_def)
  show "reader_inv r'" using assms by (simp add: advanced_def)
qed

lemma read_u8_advanced:
  assumes "reader_inv r" "bs_bytes (reader_abs r) = b # bs" "rd_full_offset r < rd_limit r"
  obtains r' where "read_u8 r = (Ok b, r')" "advanced r 1 r'"
proof -
  obtain r' where r': "read_u8 r = (Ok b, r')" "reader_inv r'"
    "reader_abs r' = (reader_abs r)\<lparr>bs_bytes := bs, bs_offset := Suc (rd_full_offset r)\<rparr>"
    using read_u8_Cons [OF assms] by metis
  have "bs_offset (reader_abs r) = rd_full_offset r" by (simp add: reader_abs_def)
  with r' assms(2) have "advanced r 1 r'" by (simp add: advanced_def)
  with r'(1) show thesis using that by blast
qed

text \<open>\<open>m\<close> groups in a row, the first at shift \<open>sh\<close>: the unrolled text is an instance.\<close>

fun leb_groups ::
  "nat \<Rightarrow> nat \<Rightarrow> (nat \<Rightarrow> 'w::len word \<Rightarrow> 'w word) \<Rightarrow> 'w word \<Rightarrow> ('w word \<Rightarrow> 'w word rm) \<Rightarrow> 'w word rm"
where
  "leb_groups 0 sh fin acc k = k acc"
| "leb_groups (Suc m) sh fin acc k =
     leb_group sh (fin (sh + 7)) acc (\<lambda>acc. leb_groups m (sh + 7) fin acc k)"

lemma group_value:
  fixes acc :: "'w::len word" and b :: u8
  assumes acc: "unat acc < 2 ^ sh" and fits: "unat b mod 128 < 2 ^ k" "sh + k \<le> LENGTH('w)"
  shows "unat (acc OR push_bit sh (ucast (b AND INTEGER_BIT_FLAG))) = unat acc + 2 ^ sh * (unat b mod 128)"
    and "unat acc + 2 ^ sh * (unat b mod 128) < 2 ^ (sh + k)"
proof -
  let ?v = "unat b mod 128"
  have "unat acc + 2 ^ sh * ?v < 2 ^ sh * Suc ?v" using acc by simp
  also have "\<dots> \<le> 2 ^ sh * 2 ^ k" using fits(1) by (intro mult_le_mono2) simp
  finally show lt: "unat acc + 2 ^ sh * ?v < 2 ^ (sh + k)" by (simp add: power_add)
  have le: "(2::nat) ^ (sh + k) \<le> 2 ^ LENGTH('w)" using fits(2) by (intro power_increasing) auto
  have v: "unat (ucast (b AND INTEGER_BIT_FLAG) :: 'w word) = ?v"
  proof -
    have "(2::nat) ^ k \<le> 2 ^ LENGTH('w)" using fits(2) by (intro power_increasing) auto
    with fits(1) have "?v < 2 ^ LENGTH('w)" by linarith
    then show ?thesis by (simp add: unat_payload unsigned_ucast_eq take_bit_nat_eq_self)
  qed
  show "unat (acc OR push_bit sh (ucast (b AND INTEGER_BIT_FLAG))) = unat acc + 2 ^ sh * ?v"
    using unat_or_push_bit [of acc sh "ucast (b AND INTEGER_BIT_FLAG)"] acc lt le v
    by (simp add: mult.commute)
qed

lemma leb_prefix_Cons:
  "leb_prefix (b # p) \<longleftrightarrow> (if p = [] then \<not> bit b 7 else bit b 7 \<and> leb_prefix p)"
  by (auto simp: leb_prefix_def)

lemma payload_lt: "unat (b :: u8) mod 128 < 2 ^ 7"
  by simp

text \<open>The prefix ends within the groups: the value is returned through \<open>fin\<close>.\<close>

lemma leb_groups_short:
  fixes acc :: "'w::len word"
  assumes "leb_prefix p" "length p \<le> m" "sh + 7 * m \<le> LENGTH('w)" "unat acc < 2 ^ sh"
    and "reader_inv r" "bs_bytes (reader_abs r) = p @ rest" "rd_full_offset r + length p \<le> rd_limit r"
  shows "\<exists>x r'. leb_groups m sh fin acc k r = (Ok (fin (sh + 7 * length p) x), r') \<and>
    unat x = unat acc + 2 ^ sh * leb_value p \<and> unat x < 2 ^ (sh + 7 * length p) \<and> advanced r (length p) r'"
  using assms
proof (induction m arbitrary: p sh acc r)
  case 0
  then show ?case by (simp add: leb_prefix_def)
next
  case (Suc m)
  from Suc.prems(1) obtain b q where p: "p = b # q" by (auto simp: leb_prefix_def neq_Nil_conv)
  obtain r' where r': "read_u8 r = (Ok b, r')" "advanced r 1 r'"
    using read_u8_advanced [of r b "q @ rest"] Suc.prems p by auto
  define acc' where "acc' = acc OR push_bit sh (ucast (b AND INTEGER_BIT_FLAG))"
  have fit: "sh + 7 \<le> LENGTH('w)" using Suc.prems(3) by simp
  have val: "unat acc' = unat acc + 2 ^ sh * (unat b mod 128)" "unat acc' < 2 ^ (sh + 7)"
    using group_value [OF Suc.prems(4) payload_lt [of b] fit] by (simp_all add: acc'_def)
  show ?case
  proof (cases "q = []")
    case True
    with Suc.prems(1) p have "\<not> bit b 7" by (simp add: leb_prefix_Cons)
    then have "leb_groups (Suc m) sh fin acc k r = (Ok (fin (sh + 7) acc'), r')"
      by (simp add: leb_group_def bindM_def retM_def r' Let_def continuation_0 acc'_def)
    with True p val r'(2) show ?thesis by auto
  next
    case False
    with Suc.prems(1) p have b: "bit b 7" and q: "leb_prefix q" by (simp_all add: leb_prefix_Cons)
    note adv = advanced_fields [OF r'(2)]
    have "\<exists>x r''. leb_groups m (sh + 7) fin acc' k r' = (Ok (fin (sh + 7 + 7 * length q) x), r'') \<and>
      unat x = unat acc' + 2 ^ (sh + 7) * leb_value q \<and> unat x < 2 ^ (sh + 7 + 7 * length q) \<and>
      advanced r' (length q) r''"
      using Suc.prems p adv val(2) q by (intro Suc.IH) auto
    then obtain x r'' where x: "leb_groups m (sh + 7) fin acc' k r' = (Ok (fin (sh + 7 + 7 * length q) x), r'')"
      "unat x = unat acc' + 2 ^ (sh + 7) * leb_value q" "unat x < 2 ^ (sh + 7 + 7 * length q)"
      "advanced r' (length q) r''" by blast
    have "leb_groups (Suc m) sh fin acc k r = (Ok (fin (sh + 7 * length p) x), r'')"
      using x(1) b p by (simp add: leb_group_def bindM_def r' Let_def continuation_0 acc'_def algebra_simps)
    moreover have "unat x = unat acc + 2 ^ sh * leb_value p"
      using x(2) val(1) p by (simp add: power_add algebra_simps)
    moreover have "advanced r (length p) r''"
      using advanced_trans [OF r'(2) x(4)] p by simp
    ultimately show ?thesis using x(3) p by (auto simp: algebra_simps)
  qed
qed

text \<open>The prefix is longer: the groups are used up and \<open>k\<close> goes on with the value so far.\<close>

lemma leb_groups_long:
  fixes acc :: "'w::len word"
  assumes "\<forall>b\<in>set p. bit b 7" "length p = m" "sh + 7 * m \<le> LENGTH('w)" "unat acc < 2 ^ sh"
    and "reader_inv r" "bs_bytes (reader_abs r) = p @ rest" "rd_full_offset r + length p \<le> rd_limit r"
  shows "\<exists>x r'. leb_groups m sh fin acc k r = k x r' \<and> unat x = unat acc + 2 ^ sh * leb_value p \<and>
    unat x < 2 ^ (sh + 7 * length p) \<and> advanced r (length p) r'"
  using assms
proof (induction m arbitrary: p sh acc r)
  case 0
  then show ?case by (intro exI [of _ acc] exI [of _ r]) (simp add: advanced_def)
next
  case (Suc m)
  from Suc.prems(2) obtain b q where p: "p = b # q" by (auto simp: length_Suc_conv)
  obtain r' where r': "read_u8 r = (Ok b, r')" "advanced r 1 r'"
    using read_u8_advanced [of r b "q @ rest"] Suc.prems p by auto
  define acc' where "acc' = acc OR push_bit sh (ucast (b AND INTEGER_BIT_FLAG))"
  have fit: "sh + 7 \<le> LENGTH('w)" using Suc.prems(3) by simp
  have val: "unat acc' = unat acc + 2 ^ sh * (unat b mod 128)" "unat acc' < 2 ^ (sh + 7)"
    using group_value [OF Suc.prems(4) payload_lt [of b] fit] by (simp_all add: acc'_def)
  note adv = advanced_fields [OF r'(2)]
  have "\<exists>x r''. leb_groups m (sh + 7) fin acc' k r' = k x r'' \<and>
      unat x = unat acc' + 2 ^ (sh + 7) * leb_value q \<and> unat x < 2 ^ (sh + 7 + 7 * length q) \<and>
      advanced r' (length q) r''"
    using Suc.prems p adv val(2) by (intro Suc.IH) auto
  then obtain x r'' where x: "leb_groups m (sh + 7) fin acc' k r' = k x r''"
      "unat x = unat acc' + 2 ^ (sh + 7) * leb_value q" "unat x < 2 ^ (sh + 7 + 7 * length q)"
      "advanced r' (length q) r''" by blast
  have "leb_groups (Suc m) sh fin acc k r = k x r''"
    using x(1) Suc.prems(1) p by (simp add: leb_group_def bindM_def r' Let_def continuation_0 acc'_def)
  moreover have "unat x = unat acc + 2 ^ sh * leb_value p"
    using x(2) val(1) p by (simp add: power_add algebra_simps)
  moreover have "advanced r (length p) r''"
    using advanced_trans [OF r'(2) x(4)] p by simp
  ultimately show ?case using x(3) p by (intro exI [of _ x] exI [of _ r'']) (simp add: algebra_simps)
qed

section \<open>The decoders, exactly\<close>

lemma leb_split:
  assumes "leb_prefix p" "m < length p"
  obtains q c s where "p = q @ c # s" "length q = m" "\<forall>b\<in>set q. bit b 7"
    "if s = [] then \<not> bit c 7 else bit c 7"
proof
  show "p = take m p @ p ! m # drop (Suc m) p" using assms(2) by (rule id_take_nth_drop)
  show "length (take m p) = m" using assms(2) by simp
  have nth: "bit (p ! i) 7" if "i < length p - 1" for i
    using assms(1) that unfolding leb_prefix_def
    by (metis length_butlast nth_butlast nth_mem)
  show "\<forall>b\<in>set (take m p). bit b 7"
    using nth assms(2) by (auto simp: in_set_conv_nth)
  show "if drop (Suc m) p = [] then \<not> bit (p ! m) 7 else bit (p ! m) 7"
  proof (cases "Suc m = length p")
    case True
    then have "p ! m = last p" using assms(2) by (metis diff_Suc_1 last_conv_nth less_nat_zero_code list.size(3))
    then show ?thesis using True assms(1) by (simp add: leb_prefix_def)
  next
    case False
    then show ?thesis using nth [of m] assms(2) by auto
  qed
qed

lemma leb_value_append: "leb_value (q @ s) = leb_value q + 128 ^ length q * leb_value s"
  by (induction q) (simp_all add: algebra_simps)

lemma leb_value_lt: "leb_value p < 128 ^ length p"
proof (induction p)
  case (Cons b p)
  have "leb_value (b # p) < 128 * Suc (leb_value p)" by simp
  also have "\<dots> \<le> 128 * 128 ^ length p" using Cons by (intro mult_le_mono2) simp
  finally show ?case by simp
qed simp

lemma leb_value_last:
  assumes "p \<noteq> []"
  shows "bit (last p) 6 \<longleftrightarrow> 2 ^ (7 * length p - 1) \<le> leb_value p"
proof -
  define q b where "q = butlast p" and "b = last p"
  have p: "p = q @ [b]" using assms by (simp add: q_def b_def)
  have v: "leb_value p = leb_value q + 128 ^ length q * (unat b mod 128)"
    by (simp add: p leb_value_append)
  have pw: "(2::nat) ^ (7 * length p - 1) = 128 ^ length q * 64"
    by (simp add: p power_add power_mult)
  have lt: "leb_value q < 128 ^ length q" by (rule leb_value_lt)
  show ?thesis
  proof (cases "64 \<le> unat b mod 128")
    case True
    then have "128 ^ length q * 64 \<le> 128 ^ length q * (unat b mod 128)" by simp
    then have "2 ^ (7 * length p - 1) \<le> leb_value p" unfolding v pw by linarith
    with True show ?thesis by (simp add: b_def [symmetric] sign_bit_6)
  next
    case False
    then have "128 ^ length q * Suc (unat b mod 128) \<le> 128 ^ length q * 64" by (intro mult_le_mono2) simp
    then have "leb_value p < 2 ^ (7 * length p - 1)" unfolding v pw using lt by (simp only: mult_Suc_right)
    with False show ?thesis by (simp add: b_def [symmetric] sign_bit_6 not_le)
  qed
qed

lemma seven_eight: "(128::nat) ^ n = 2 ^ (7 * n)"
  by (simp add: power_mult)

text \<open>The unrolled texts as instances of \<open>leb_groups\<close>.\<close>

definition leb_u32_last :: "u32 \<Rightarrow> u32 rm" where
  "leb_u32_last result = bindM read_u8 (\<lambda>byte.
     let result = result OR push_bit 28 (ucast (byte AND INTEGER_BIT_FLAG));
         has_next_byte = byte AND CONTINUATION_BIT > 0;
         padding_bits_are_not_zero = byte AND 0b01110000 > 0
     in if has_next_byte \<or> padding_bits_are_not_zero then errM MalformedInteger
        else retM result)"

lemma read_u32_groups: "read_u32 = leb_groups 4 0 (\<lambda>_. id) 0 leb_u32_last"
  by (simp add: read_u32_def leb_u32_last_def eval_nat_numeral)

lemma read_i32_groups:
  "read_i32 = leb_groups 4 0 (\<lambda>n. sign_extend_from (32 - n)) 0 (leb_signed_last 28 120)"
  by (simp add: read_i32_def numeral_nat)

lemma read_i64_groups:
  "read_i64 = leb_groups 9 0 (\<lambda>n. sign_extend_from (64 - n)) 0 (leb_signed_last 63 127)"
  by (simp add: read_i64_def numeral_nat)

text \<open>What remains is the last byte of a prefix that uses up all the short groups.\<close>

lemma leb_u32_last_spec:
  assumes r: "reader_inv r" "bs_bytes (reader_abs r) = c # rest" "rd_full_offset r < rd_limit r"
    and x: "unat x < 2 ^ 28"
  obtains r' y where "advanced r 1 r'"
    "leb_u32_last x r = (if bit c 7 \<or> 16 \<le> unat c mod 128 then Err MalformedInteger else Ok y, r')"
    "unat c mod 128 < 16 \<Longrightarrow> unat y = unat x + 2 ^ 28 * (unat c mod 128)"
proof -
  obtain r' where r': "read_u8 r = (Ok c, r')" "advanced r 1 r'" using read_u8_advanced [OF r] .
  let ?y = "x OR push_bit 28 (ucast (c AND INTEGER_BIT_FLAG))"
  have "unat ?y = unat x + 2 ^ 28 * (unat c mod 128)" if "unat c mod 128 < 16"
    using group_value(1) [of x 28 c 4] x that by simp
  with r' show thesis
    by (intro that [of r' ?y]) (auto simp: leb_u32_last_def bindM_def errM_def retM_def Let_def
        continuation_pos padding_u32)
qed

text \<open>
  Claim C24. \<open>read_u32\<close> decodes exactly the LEB128 encodings of 32-bit values: an encoding \<open>p\<close> (of any
  length) at the head of the remaining bytes is accepted if and only if it has at most five bytes
  and its value is below \<open>2^32\<close>; then the value is that number and exactly the bytes of \<open>p\<close> are
  consumed. Everything else is \<open>MalformedInteger\<close>, never a panic or a truncated value.
\<close>

theorem read_u32_exact:
  assumes p: "leb_prefix p" and r: "reader_inv r" and bytes: "bs_bytes (reader_abs r) = p @ rest"
    and lim: "rd_full_offset r + length p \<le> rd_limit r"
  shows "case read_u32 r of
      (Ok x, r') \<Rightarrow> length p \<le> 5 \<and> leb_value p < 2 ^ 32 \<and> unat x = leb_value p \<and> advanced r (length p) r'
    | (Err e, r') \<Rightarrow> e = MalformedInteger \<and> \<not> (length p \<le> 5 \<and> leb_value p < 2 ^ 32)
    | (Panic, r') \<Rightarrow> False"
proof (cases "length p \<le> 4")
  case True
  obtain x r' where "leb_groups 4 0 (\<lambda>_. id) 0 leb_u32_last r = (Ok (id x), r')" "unat x = leb_value p"
    "advanced r (length p) r'"
    using leb_groups_short [OF p True _ _ r bytes lim, of 0 0 "\<lambda>_. id" leb_u32_last] by auto
  moreover have "leb_value p < 2 ^ 28"
    using leb_value_lt [of p] True power_increasing [of "7 * length p" 28 "2::nat"]
    by (simp add: seven_eight)
  ultimately show ?thesis using True by (simp add: read_u32_groups)
next
  case False
  then obtain q c s where split: "p = q @ c # s" "length q = 4" "\<forall>b\<in>set q. bit b 7"
    "if s = [] then \<not> bit c 7 else bit c 7"
    using leb_split [OF p, of 4] by auto
  obtain x r' where x: "read_u32 r = leb_u32_last x r'" "unat x = leb_value q" "unat x < 2 ^ 28"
    and adv: "advanced r 4 r'"
    using leb_groups_long [of q 4 0 0 r "c # s @ rest" "\<lambda>_. id" leb_u32_last] split r bytes lim
    by (auto simp: read_u32_groups)
  note f = advanced_fields [OF adv]
  have hd: "bs_bytes (reader_abs r') = c # s @ rest" "rd_full_offset r' < rd_limit r'"
    using f bytes lim split(1,2) by simp_all
  obtain r'' y where last: "advanced r' 1 r''"
    "read_u32 r = (if bit c 7 \<or> 16 \<le> unat c mod 128 then Err MalformedInteger else Ok y, r'')"
    "unat c mod 128 < 16 \<Longrightarrow> unat y = unat x + 2 ^ 28 * (unat c mod 128)"
    using leb_u32_last_spec [OF f(4) hd x(3)] x(1) by metis
  have v: "leb_value p = unat x + 2 ^ 28 * (unat c mod 128 + 128 * leb_value s)"
    using split(1,2) x(2) by (simp add: leb_value_append)
  show ?thesis
  proof (cases "s = []")
    case True
    then show ?thesis
      using last split(2,4) v x(3) advanced_trans [OF adv last(1)] split(1)
      by (auto simp: not_le)
  next
    case False
    then have "5 < length p" using split(1,2) by (cases s) auto
    with False last(2) split(4) show ?thesis by simp
  qed
qed

text \<open>The signed decoders share one argument: \<open>m\<close> full groups and \<open>k\<close> bits in the last byte.\<close>

lemma push_bit_top:
  fixes a :: "'w::len word"
  assumes "LENGTH('w) = n + k"
  shows "push_bit n (take_bit k a) = push_bit n a"
  by (rule bit_eqI) (use assms in \<open>auto simp: bit_simps\<close>)

lemma last_byte_word:
  fixes x :: "'w::len word" and c :: u8
  assumes W: "LENGTH('w) = n + k" "k \<le> 7" and x: "unat x < 2 ^ n"
  shows "unat (x OR push_bit n (ucast (c AND INTEGER_BIT_FLAG))) = unat x + 2 ^ n * ((unat c mod 128) mod 2 ^ k)"
proof -
  define v where "v = unat c mod 128"
  let ?u = "ucast (c AND INTEGER_BIT_FLAG) :: 'w word"
  have "unat (take_bit k ?u) = take_bit k (take_bit LENGTH('w) v)"
    by (simp add: unsigned_take_bit_eq unsigned_ucast_eq unat_payload v_def)
  then have v: "unat (take_bit k ?u) = v mod 2 ^ k"
    using W by (simp add: take_bit_eq_mod [symmetric] min_def)
  have lt: "(v mod 2 ^ k) * 2 ^ n < 2 ^ LENGTH('w)"
    using mult_less_mono1 [of "v mod 2 ^ k" "2 ^ k" "2 ^ n"] by (simp add: W(1) power_add mult.commute)
  have "x OR push_bit n ?u = x OR push_bit n (take_bit k ?u)"
    by (simp add: push_bit_top [OF W(1)])
  also have "unat \<dots> = unat x + (v mod 2 ^ k) * 2 ^ n"
    using unat_or_push_bit [of x n "take_bit k ?u"] x lt by (simp add: v)
  finally show ?thesis by (simp add: v_def mult.commute)
qed

text \<open>Arithmetic of the last byte: with \<open>M = 2^n\<close>, \<open>K = 2^(k-1)\<close> and \<open>v\<close> its seven bits.\<close>

lemma last_byte_range:
  fixes M K X v :: int
  assumes "0 \<le> X" "X < M" "0 \<le> v" "1 \<le> K" "K \<le> 64"
  defines "S \<equiv> (if 64 \<le> v then X + M * v - M * 128 else X + M * v)"
  shows "v < K \<Longrightarrow> X + M * v < M * K \<and> S = X + M * v"
    and "128 - K \<le> v \<Longrightarrow> M * K \<le> X + M * (v - 128 + 2 * K) \<and>
      S = X + M * (v - 128 + 2 * K) - 2 * (M * K)"
    and "K \<le> v \<Longrightarrow> v < 128 - K \<Longrightarrow> S < - (M * K) \<or> M * K \<le> S"
proof -
  assume "v < K"
  then have "M * (v + 1) \<le> M * K" using assms(1,2) by (intro mult_left_mono) auto
  then show "X + M * v < M * K \<and> S = X + M * v"
    using \<open>v < K\<close> assms by (simp add: distrib_left)
next
  assume "128 - K \<le> v"
  then have "M * K \<le> M * (v - 128 + 2 * K)" using assms(1,2) by (intro mult_left_mono) auto
  then show "M * K \<le> X + M * (v - 128 + 2 * K) \<and> S = X + M * (v - 128 + 2 * K) - 2 * (M * K)"
    using \<open>128 - K \<le> v\<close> assms by (simp add: algebra_simps)
next
  assume v: "K \<le> v" "v < 128 - K"
  have "M * K \<le> M * v" "M * (v + 1) \<le> M * (128 - K)"
    using v assms(1,2) by (auto intro!: mult_left_mono)
  then have "M * K \<le> X + M * v" "X + M * v - M * 128 < - (M * K)"
    using assms(1,2) unfolding distrib_left right_diff_distrib by linarith+
  then show "S < - (M * K) \<or> M * K \<le> S"
    by (simp add: S_def)
qed

lemma leb_signed_exact:
  fixes r :: reader and m k :: nat and pm :: u8
  defines "f \<equiv> leb_groups m 0 (\<lambda>n. sign_extend_from (LENGTH('w) - n)) 0 (leb_signed_last (7 * m) pm)
    :: 'w::len word rm"
  assumes W: "LENGTH('w) = 7 * m + k" and k: "1 \<le> k" "k \<le> 7"
    and pm: "\<And>c. count_ones (c AND pm) = count_ones pm \<or> count_ones (c AND pm) = 0 \<longleftrightarrow>
      unat c mod 128 < 2 ^ (k - 1) \<or> 128 - 2 ^ (k - 1) \<le> unat c mod 128"
    and p: "leb_prefix p" and r: "reader_inv r" and bytes: "bs_bytes (reader_abs r) = p @ rest"
    and lim: "rd_full_offset r + length p \<le> rd_limit r"
  shows "case f r of
      (Ok x, r') \<Rightarrow> length p \<le> Suc m \<and> sint x = sleb_value p \<and> advanced r (length p) r'
    | (Err e, r') \<Rightarrow> e = MalformedInteger \<and> (length p \<le> Suc m \<longrightarrow>
        sleb_value p < - (2 ^ (LENGTH('w) - 1)) \<or> 2 ^ (LENGTH('w) - 1) \<le> sleb_value p)
    | (Panic, r') \<Rightarrow> False"
proof (cases "length p \<le> m")
  case True
  have ne: "p \<noteq> []" using p by (simp add: leb_prefix_def)
  obtain x r' where x: "f r = (Ok (sign_extend_from (LENGTH('w) - 7 * length p) x), r')"
    "unat x = leb_value p" "unat x < 2 ^ (7 * length p)" "advanced r (length p) r'"
    using leb_groups_short [OF p True _ _ r bytes lim, of 0 "0 :: 'w word" "\<lambda>n. sign_extend_from (LENGTH('w) - n)"
        "leb_signed_last (7 * m) pm"] W by (auto simp: f_def)
  have "sint (sign_extend_from (LENGTH('w) - 7 * length p) x) = sleb_value p"
    using sint_sign_extend [OF x(3)] W True ne leb_value_last [OF ne] x(2)
    by (simp add: sleb_value_def)
  with x True show ?thesis by simp
next
  case False
  then obtain q c s where split: "p = q @ c # s" "length q = m" "\<forall>b\<in>set q. bit b 7"
    "if s = [] then \<not> bit c 7 else bit c 7"
    using leb_split [OF p, of m] by auto
  obtain x r' where x: "f r = leb_signed_last (7 * m) pm x r'" "unat x = leb_value q" "unat x < 2 ^ (7 * m)"
    and adv: "advanced r m r'"
    using leb_groups_long [of q m 0 "0 :: 'w word" r "c # s @ rest" "\<lambda>n. sign_extend_from (LENGTH('w) - n)"
        "leb_signed_last (7 * m) pm"] split r bytes lim W
    by (auto simp: f_def)
  note fields = advanced_fields [OF adv]
  have hd: "bs_bytes (reader_abs r') = c # s @ rest" "rd_full_offset r' < rd_limit r'"
    using fields bytes lim split(1,2) by simp_all
  obtain r'' where r'': "read_u8 r' = (Ok c, r'')" "advanced r' 1 r''"
    using read_u8_advanced [OF fields(4) hd] .
  define v where "v = unat c mod 128"
  define y where "y = x OR push_bit (7 * m) (ucast (c AND INTEGER_BIT_FLAG))"
  have run: "f r = (if bit c 7 \<or> \<not> (v < 2 ^ (k - 1) \<or> 128 - 2 ^ (k - 1) \<le> v)
      then Err MalformedInteger else Ok y, r'')"
    by (simp add: x(1) leb_signed_last_def bindM_def r''(1) errM_def retM_def Let_def continuation_pos pm
        v_def y_def)
  show ?thesis
  proof (cases "s = []")
    case False
    then have "Suc m < length p" using split(1,2) by (cases s) auto
    with False run split(4) show ?thesis by simp
  next
    case True
    define M K X where "M = (2::int) ^ (7 * m)" and "K = (2::int) ^ (k - 1)" and "X = int (leb_value q)"
    have K: "1 \<le> K" "K \<le> 64" "M * (2 * K) = 2 ^ LENGTH('w)" "M * K = 2 ^ (LENGTH('w) - 1)"
    proof -
      show "1 \<le> K" by (simp add: K_def)
      show "K \<le> 64" using power_increasing [of "k - 1" 6 "2::int"] k(2) by (simp add: K_def)
      show "M * K = 2 ^ (LENGTH('w) - 1)" using k(1) by (simp add: M_def K_def W flip: power_add)
      have "2 * K = 2 ^ k" using k(1) by (cases k) (simp_all add: K_def)
      then show "M * (2 * K) = 2 ^ LENGTH('w)" by (simp add: M_def W power_add)
    qed
    have X: "0 \<le> X" "X < M"
      using x(2,3) of_nat_less_iff [of "leb_value q" "2 ^ (7 * m)", where 'a = int]
      by (simp_all add: X_def M_def)
    have S: "sleb_value p = (if 64 \<le> int v then X + M * int v - M * 128 else X + M * int v)"
      using split(1,2) True
      by (simp add: sleb_value_def sign_bit_6 leb_value_append v_def [symmetric] X_def M_def seven_eight power_add)
    have uy: "int (unat y) = X + M * (int v mod (2 * K))"
    proof -
      have "2 * K = 2 ^ k" using k(1) by (cases k) (simp_all add: K_def)
      then show ?thesis
        using last_byte_word [OF W k(2) x(3), of c] x(2)
        by (simp add: y_def v_def X_def M_def zmod_int)
    qed
    have v: "0 \<le> int v" "int v < 128" by (simp_all add: v_def)
    note range = last_byte_range [OF X v(1) K(1,2)]
    have int_K: "int (2 ^ (k - 1)) = K" by (simp add: K_def)
    then have le64: "2 ^ (k - 1) \<le> (64 :: nat)" using K(2) by linarith
    have small: "v < 2 ^ (k - 1) \<longleftrightarrow> int v < K" using int_K by linarith
    have big: "128 - 2 ^ (k - 1) \<le> v \<longleftrightarrow> 128 - K \<le> int v" using int_K le64 by linarith
    have sint_y: "sint y = (if M * K \<le> int (unat y) then int (unat y) - M * (2 * K) else int (unat y))"
      unfolding sint_unat_cases [of y] K(3,4)
      using of_nat_le_iff [of "2 ^ (LENGTH('w) - 1)" "unat y", where 'a = int] by simp
    have accept: "sint y = sleb_value p" if "v < 2 ^ (k - 1) \<or> 128 - 2 ^ (k - 1) \<le> v"
    proof (cases "int v < K")
      case True
      then have "int v mod (2 * K) = int v" using K(1) v by (intro mod_pos_pos_trivial) auto
      with range(1) [OF True] show ?thesis unfolding sint_y uy S by simp
    next
      case False
      with that small big have v': "128 - K \<le> int v" by simp
      have "int v mod (2 * K) = (int v - 128 + 2 * K) mod (2 * K)"
      proof -
        have "2 * K = 2 ^ k" using k(1) by (cases k) (simp_all add: K_def)
        then have "2 * K dvd 2 ^ 7" using le_imp_power_dvd [OF k(2), of "2 :: int"] by simp
        then have "2 * K dvd - 128 + 2 * K" by simp
        then obtain j where "- 128 + 2 * K = 2 * K * j" by blast
        then have "int v - 128 + 2 * K = int v + 2 * K * j" by simp
        then show ?thesis by (metis mod_mult_self2)
      qed
      also have "\<dots> = int v - 128 + 2 * K" using v' v K(1) by (intro mod_pos_pos_trivial) auto
      finally have md: "int v mod (2 * K) = int v - 128 + 2 * K" .
      with range(2) [OF v'] show ?thesis unfolding sint_y uy S md by (simp only: if_True mult.left_commute)
    qed
    have reject: "sleb_value p < - (M * K) \<or> M * K \<le> sleb_value p"
      if "\<not> (v < 2 ^ (k - 1) \<or> 128 - 2 ^ (k - 1) \<le> v)"
      using range(3) that unfolding S small big by linarith
    show ?thesis
      using run True split(1,2,4) accept reject advanced_trans [OF adv r''(2)] K(4) by auto
  qed
qed

text \<open>
  \<open>read_i32\<close> decodes exactly the signed LEB128 encodings of 32-bit values: an encoding of any
  length is accepted if and only if it has at most five bytes and its two's complement value lies in
  \<open>[-2^31, 2^31)\<close>; the result is that value and exactly its bytes are consumed; everything else is
  \<open>MalformedInteger\<close>.
\<close>

lemma read_i32_exact:
  assumes p: "leb_prefix p" and r: "reader_inv r" and bytes: "bs_bytes (reader_abs r) = p @ rest"
    and lim: "rd_full_offset r + length p \<le> rd_limit r"
  shows "case read_i32 r of
      (Ok x, r') \<Rightarrow> length p \<le> 5 \<and> sint x = sleb_value p \<and> advanced r (length p) r'
    | (Err e, r') \<Rightarrow> e = MalformedInteger \<and>
        \<not> (length p \<le> 5 \<and> - (2 ^ 31) \<le> sleb_value p \<and> sleb_value p < 2 ^ 31)
    | (Panic, r') \<Rightarrow> False"
proof -
  have ones: "count_ones 120 = 4" using ones_120 [of 120] by (simp add: bit_numeral_word_iff)
  have "case read_i32 r of
      (Ok x, r') \<Rightarrow> length p \<le> Suc 4 \<and> sint x = sleb_value p \<and> advanced r (length p) r'
    | (Err e, r') \<Rightarrow> e = MalformedInteger \<and> (length p \<le> Suc 4 \<longrightarrow>
        sleb_value p < - (2 ^ (LENGTH(32) - 1)) \<or> 2 ^ (LENGTH(32) - 1) \<le> sleb_value p)
    | (Panic, r') \<Rightarrow> False"
    using leb_signed_exact [where 'w = 32 and m = 4 and k = 4 and pm = 120, OF _ _ _ _ p r bytes lim]
    by (simp add: read_i32_groups padding_i32 ones disj_commute)
  then show ?thesis by (auto split: prod.splits result.splits)
qed

text \<open>
  \<open>read_i64\<close> decodes exactly the signed LEB128 encodings of 64-bit values: at most ten bytes
  and a two's complement value in \<open>[-2^63, 2^63)\<close>, of which the tenth byte must be a pure sign byte.
\<close>

lemma read_i64_exact:
  assumes p: "leb_prefix p" and r: "reader_inv r" and bytes: "bs_bytes (reader_abs r) = p @ rest"
    and lim: "rd_full_offset r + length p \<le> rd_limit r"
  shows "case read_i64 r of
      (Ok x, r') \<Rightarrow> length p \<le> 10 \<and> sint x = sleb_value p \<and> advanced r (length p) r'
    | (Err e, r') \<Rightarrow> e = MalformedInteger \<and>
        \<not> (length p \<le> 10 \<and> - (2 ^ 63) \<le> sleb_value p \<and> sleb_value p < 2 ^ 63)
    | (Panic, r') \<Rightarrow> False"
proof -
  have ones: "count_ones 127 = 7" using ones_127 [of 127] by (simp add: bit_numeral_word_iff)
  have le: "unat c mod 128 = 127 \<longleftrightarrow> 127 \<le> unat c mod 128" for c :: u8 by linarith
  have "case read_i64 r of
      (Ok x, r') \<Rightarrow> length p \<le> Suc 9 \<and> sint x = sleb_value p \<and> advanced r (length p) r'
    | (Err e, r') \<Rightarrow> e = MalformedInteger \<and> (length p \<le> Suc 9 \<longrightarrow>
        sleb_value p < - (2 ^ (LENGTH(64) - 1)) \<or> 2 ^ (LENGTH(64) - 1) \<le> sleb_value p)
    | (Panic, r') \<Rightarrow> False"
    using leb_signed_exact [where 'w = 64 and m = 9 and k = 1 and pm = 127, OF _ _ _ _ p r bytes lim]
    by (simp add: read_i64_groups padding_i64 ones disj_commute le)
  then show ?thesis by (auto split: prod.splits result.splits)
qed

text \<open>A reader over one chunk, where the hypotheses of the three properties hold.\<close>

lemma one_chunk_reader:
  fixes bs :: "u8 list"
  defines "r \<equiv> reader_new [Chunk bs] []"
  assumes "bs \<noteq> []" "length bs \<le> 100"
  shows "reader_inv r" "bs_bytes (reader_abs r) = bs @ []" "rd_full_offset r + length bs \<le> rd_limit r"
    "rd_full_offset r = 0"
  using assms by (simp_all add: reader_inv_new reader_abs_new) (simp_all add: reader_new_def USIZE_MAX_def)

lemma read_u32_exact_witness:
  "case read_u32 (reader_new [Chunk [0xE5, 0x8E, 0x26]] []) of
      (Ok x, r') \<Rightarrow> unat x = 624485 \<and> rd_full_offset r' = 3 | _ \<Rightarrow> False"
proof -
  let ?p = "[0xE5, 0x8E, 0x26] :: u8 list"
  have p: "leb_prefix ?p" by (simp add: leb_prefix_def bit_numeral_word_iff)
  note r = one_chunk_reader [of ?p, simplified]
  have "leb_value ?p = 624485" by simp
  then show ?thesis
    using read_u32_exact [OF p one_chunk_reader(1-3)] r(4) advanced_fields(3)
    by (force split: prod.splits result.splits)
qed

lemma read_i32_exact_witness:
  "case read_i32 (reader_new [Chunk [0xFF, 0xFF, 0xFF, 0xFF, 0x77]] []) of
     (Err e, r') \<Rightarrow> e = MalformedInteger | _ \<Rightarrow> False"
proof -
  let ?p = "[0xFF, 0xFF, 0xFF, 0xFF, 0x77] :: u8 list"
  have p: "leb_prefix ?p" by (simp add: leb_prefix_def bit_numeral_word_iff)
  have v: "sleb_value ?p = - 2147483649" by (simp add: sleb_value_def bit_numeral_word_iff)
  have "sint x \<noteq> - 2147483649" for x :: u32 using sint_ge [of x] by simp
  then show ?thesis
    using read_i32_exact [OF p one_chunk_reader(1-3)] v by (force split: prod.splits result.splits)
qed

lemma read_i64_exact_witness:
  "case read_i64 (reader_new [Chunk [0xC0, 0xBB, 0x78]] []) of
      (Ok x, r') \<Rightarrow> sint x = - 123456 \<and> rd_full_offset r' = 3 | _ \<Rightarrow> False"
proof -
  let ?p = "[0xC0, 0xBB, 0x78] :: u8 list"
  have p: "leb_prefix ?p" by (simp add: leb_prefix_def bit_numeral_word_iff)
  note r = one_chunk_reader [of ?p, simplified]
  have "sleb_value ?p = - 123456" by (simp add: sleb_value_def bit_numeral_word_iff)
  then show ?thesis
    using read_i64_exact [OF p one_chunk_reader(1-3)] r(4) advanced_fields(3)
    by (force split: prod.splits result.splits)
qed

end
