(* ===== verification/Wasm_Types.thy ===== *)
theory Wasm_Types
  imports Leb128
begin

text \<open>
  The types of the binary format and their readers (src/types.rs): value types and values, the
  64-bit cell \<open>RawValue\<close> of a global, function, limit, memory, table and global types, and UTF-8
  names. A float is its bit pattern (\<open>u32\<close> for \<open>f32\<close>, \<open>u64\<close> for \<open>f64\<close>).

  Lemmas: the memory types and limits a reader accepts describe at most 4 GiB and at most
  \<open>MAX_TABLE_ELEMENTS\<close> entries; matching of limits is inclusion of the sizes they allow; raw values
  give back what was written.
\<close>

datatype val_type = T_I32 | T_I64 | T_F32 | T_F64

datatype wasm_value = V_I32 u32 | V_I64 u64 | V_F32 u32 | V_F64 u64

primrec val_type_size :: "val_type \<Rightarrow> nat" where
  "val_type_size T_I32 = 4"
| "val_type_size T_I64 = 8"
| "val_type_size T_F32 = 4"
| "val_type_size T_F64 = 8"

primrec val_type_repr :: "val_type \<Rightarrow> u8" where
  "val_type_repr T_I32 = 0"
| "val_type_repr T_I64 = 1"
| "val_type_repr T_F32 = 2"
| "val_type_repr T_F64 = 3"

definition val_type_from_repr :: "u8 \<Rightarrow> val_type option" where
  "val_type_from_repr tag =
     (if tag = 0 then Some T_I32 else if tag = 1 then Some T_I64
      else if tag = 2 then Some T_F32 else if tag = 3 then Some T_F64 else None)"

definition val_type_convert :: "u8 \<Rightarrow> (val_type, validation_error) result" where
  "val_type_convert v =
     (if v = 0x7F then Ok T_I32 else if v = 0x7E then Ok T_I64
      else if v = 0x7D then Ok T_F32 else if v = 0x7C then Ok T_F64
      else Err (MalformedValueType v))"

definition val_type_read :: "val_type rm" where
  "val_type_read = bindM read_u8 (\<lambda>b. liftR (val_type_convert b))"

section \<open>Raw values\<close>

datatype raw_value = RawValue u64

definition raw_from_32 :: "u32 \<Rightarrow> raw_value" where
  "raw_from_32 u = RawValue (ucast u)"

definition raw_from_64 :: "u64 \<Rightarrow> raw_value" where
  "raw_from_64 u = RawValue u"

text \<open>\<open>write_i32\<close> sign-extends (\<open>i as u64\<close>), \<open>write_32\<close> and \<open>write_f32\<close> zero-extend.\<close>

definition raw_write_i32 :: "u32 \<Rightarrow> raw_value" where
  "raw_write_i32 i = RawValue (scast i)"

primrec raw_read_32 :: "raw_value \<Rightarrow> u32" where
  "raw_read_32 (RawValue w) = ucast w"

primrec raw_read_64 :: "raw_value \<Rightarrow> u64" where
  "raw_read_64 (RawValue w) = w"

definition raw_to_value :: "raw_value \<Rightarrow> val_type \<Rightarrow> wasm_value" where
  "raw_to_value r ty = (case ty of
     T_I32 \<Rightarrow> V_I32 (raw_read_32 r)
   | T_I64 \<Rightarrow> V_I64 (raw_read_64 r)
   | T_F32 \<Rightarrow> V_F32 (raw_read_32 r)
   | T_F64 \<Rightarrow> V_F64 (raw_read_64 r))"

section \<open>Block, function and limit types\<close>

type_synonym result_type = "val_type option"

definition result_type_read :: "result_type rm" where
  "result_type_read = bindM read_u8 (\<lambda>c.
     if c = 0x40 then retM None
     else bindM (liftR (val_type_convert c)) (\<lambda>v. retM (Some v)))"

record func_type =
  ft_params :: "val_type list"
  ft_returns :: "val_type list"

definition func_type_read :: "func_type rm" where
  "func_type_read = bindM read_u8 (\<lambda>c.
     if c = 0x60 then
       bindM (read_vec val_type_read) (\<lambda>params.
       bindM (read_vec val_type_read) (\<lambda>returns.
       if 1 < length returns then errM FunctionReturnsTooLarge
       else retM \<lparr>ft_params = params, ft_returns = returns\<rparr>))
     else errM (MalformedFunction c))"

record limit =
  lim_min :: u32
  lim_max :: "u32 option"

definition limit_read :: "limit rm" where
  "limit_read = bindM read_u8 (\<lambda>c.
     if c = 0x00 then bindM read_u32 (\<lambda>mn. retM \<lparr>lim_min = mn, lim_max = None\<rparr>)
     else if c = 0x01 then
       bindM read_u32 (\<lambda>mn.
       bindM read_u32 (\<lambda>mx.
       if mx < mn then errM InvalidMaxLimit
       else retM \<lparr>lim_min = mn, lim_max = Some mx\<rparr>))
     else errM (MalformedLimit c))"

definition limit_matches :: "limit \<Rightarrow> limit \<Rightarrow> bool" where
  "limit_matches self other =
     (if lim_min self < lim_min other then False
      else case (lim_max self, lim_max other) of
        (_, None) \<Rightarrow> True
      | (Some m1, Some m2) \<Rightarrow> m1 \<le> m2
      | _ \<Rightarrow> False)"

section \<open>Memory types\<close>

datatype mem_page_size = PS_1 | PS_65536

primrec page_bytes :: "mem_page_size \<Rightarrow> nat" where
  "page_bytes PS_1 = 1"
| "page_bytes PS_65536 = 65536"

primrec page_align :: "mem_page_size \<Rightarrow> nat" where
  "page_align PS_1 = 1"
| "page_align PS_65536 = 16"

record mem_type =
  mt_initial :: u32
  mt_max :: "u32 option"
  mt_page :: mem_page_size

definition page_size_convert :: "u32 \<Rightarrow> (mem_page_size, validation_error) result" where
  "page_size_convert p =
     (if p = 0 then Ok PS_1 else if p = 16 then Ok PS_65536
      else if p \<le> 64 then Err (InvalidPageSize (ucast p))
      else Err (InvalidPageSize 0xFF))"

definition max_allowed_pages :: "mem_page_size \<Rightarrow> nat" where
  "max_allowed_pages p = (case p of PS_1 \<Rightarrow> (2 ^ 32 - 1) + 1 | PS_65536 \<Rightarrow> 65536)"

definition mem_type_read :: "mem_type rm" where
  "mem_type_read =
     bindM read_u8 (\<lambda>flag.
     bindM read_u32 (\<lambda>mn.
     bindM (if flag AND 1 \<noteq> 0 then
              bindM read_u32 (\<lambda>mx. if mx < mn then errM InvalidMaxLimit else retM (Some mx))
            else retM None) (\<lambda>mx.
     if flag AND 2 \<noteq> 0 then errM (MalformedMemType flag)
     else if flag AND 4 \<noteq> 0 then errM (MalformedMemType flag)
     else bindM (if flag AND 8 \<noteq> 0 then bindM read_u32 (\<lambda>p. liftR (page_size_convert p))
                 else retM PS_65536) (\<lambda>ps.
     if flag AND 0xF0 \<noteq> 0 then errM (MalformedMemType flag)
     else if max_allowed_pages ps < unat mn then errM MemoryTooLarge
     else if (case mx of Some m \<Rightarrow> max_allowed_pages ps < unat m | None \<Rightarrow> False) then errM MemoryTooLarge
     else retM \<lparr>mt_initial = mn, mt_max = mx, mt_page = ps\<rparr>))))"

definition mem_type_zero :: mem_type where
  "mem_type_zero = \<lparr>mt_initial = 0, mt_max = Some 0, mt_page = PS_65536\<rparr>"

definition mem_can_hold :: "mem_type \<Rightarrow> u32 \<Rightarrow> bool" where
  "mem_can_hold ty n_pages =
     (let fits = (case mt_max ty of
            Some mx \<Rightarrow> \<not> (mx < n_pages)
          | None \<Rightarrow> \<not> (2 ^ 32 < unat n_pages * page_bytes (mt_page ty)))
      in if \<not> fits then False else mt_initial ty \<le> n_pages)"

definition mem_type_matches :: "mem_type \<Rightarrow> mem_type \<Rightarrow> bool" where
  "mem_type_matches self other \<longleftrightarrow>
     limit_matches \<lparr>lim_min = mt_initial self, lim_max = mt_max self\<rparr>
       \<lparr>lim_min = mt_initial other, lim_max = mt_max other\<rparr> \<and> mt_page self = mt_page other"

section \<open>Table and global types\<close>

datatype elem_type = FuncRef

definition elem_type_read :: "elem_type rm" where
  "elem_type_read = bindM read_u8 (\<lambda>c. if c = 0x70 then retM FuncRef else errM (MalformedElemType c))"

record table_type =
  tt_elem :: elem_type
  tt_limits :: limit

definition MAX_TABLE_ELEMENTS :: u32 where
  "MAX_TABLE_ELEMENTS = 10000000"

definition table_type_read :: "table_type rm" where
  "table_type_read =
     bindM elem_type_read (\<lambda>et.
     bindM limit_read (\<lambda>lim.
     if MAX_TABLE_ELEMENTS < lim_min lim then errM TableTooLarge
     else if (case lim_max lim of Some mx \<Rightarrow> MAX_TABLE_ELEMENTS < mx | None \<Rightarrow> False) then errM TableTooLarge
     else retM \<lparr>tt_elem = et, tt_limits = lim\<rparr>))"

record global_type =
  gt_ty :: val_type
  gt_mutable :: bool

definition global_type_read :: "global_type rm" where
  "global_type_read =
     bindM val_type_read (\<lambda>ty.
     bindM read_u8 (\<lambda>c.
     bindM (if c = 0x00 then retM False else if c = 0x01 then retM True
            else errM (ExpectedConstOrVar c)) (\<lambda>mut.
     retM \<lparr>gt_ty = ty, gt_mutable = mut\<rparr>)))"

section \<open>Names\<close>

text \<open>
  \<open>core::str::from_utf8\<close>: the well-formed UTF-8 byte sequences of the Unicode standard (no overlong
  form, no surrogate, nothing above U+10FFFF).
\<close>

definition in_range :: "u8 \<Rightarrow> u8 \<Rightarrow> u8 \<Rightarrow> bool" where
  "in_range a b x \<longleftrightarrow> a \<le> x \<and> x \<le> b"

definition utf8_second :: "u8 \<Rightarrow> u8 \<Rightarrow> bool" where
  "utf8_second a b =
     (if a = 0xE0 then in_range 0xA0 0xBF b
      else if a = 0xED then in_range 0x80 0x9F b
      else if a = 0xF0 then in_range 0x90 0xBF b
      else if a = 0xF4 then in_range 0x80 0x8F b
      else in_range 0x80 0xBF b)"

fun utf8_valid :: "u8 list \<Rightarrow> bool" where
  "utf8_valid [] = True"
| "utf8_valid (a # bs) =
     (if a \<le> 0x7F then utf8_valid bs
      else if in_range 0xC2 0xDF a then
        (case bs of b # r \<Rightarrow> utf8_second a b \<and> utf8_valid r | [] \<Rightarrow> False)
      else if in_range 0xE0 0xEF a then
        (case bs of b # c # r \<Rightarrow> utf8_second a b \<and> in_range 0x80 0xBF c \<and> utf8_valid r | _ \<Rightarrow> False)
      else if in_range 0xF0 0xF4 a then
        (case bs of b # c # d # r \<Rightarrow>
           utf8_second a b \<and> in_range 0x80 0xBF c \<and> in_range 0x80 0xBF d \<and> utf8_valid r | _ \<Rightarrow> False)
      else False)"

definition name_read :: "u8 list rm" where
  "name_read = bindM (read_vec read_u8) (\<lambda>bs. if utf8_valid bs then retM bs else errM MalformedUtf8)"

section \<open>Chunk independence and limits\<close>

lemma reader_indep_lift [indep]: "reader_indep (liftR x)"
  by (cases x) (simp_all add: reader_indep_def liftR_def same_offset_def in_step_offset)

lemma reader_bounded_lift [bnd]: "reader_bounded (liftR x)"
  by (simp add: reader_bounded_def liftR_def)

lemmas type_reader_defs = val_type_read_def result_type_read_def func_type_read_def limit_read_def
  mem_type_read_def elem_type_read_def table_type_read_def global_type_read_def name_read_def

lemma reader_indep_types [indep]:
  "reader_indep val_type_read" "reader_indep result_type_read" "reader_indep func_type_read"
  "reader_indep limit_read" "reader_indep mem_type_read" "reader_indep elem_type_read"
  "reader_indep table_type_read" "reader_indep global_type_read" "reader_indep name_read"
  unfolding type_reader_defs by (intro indep)+

lemma reader_bounded_types [bnd]:
  "reader_bounded val_type_read" "reader_bounded result_type_read" "reader_bounded func_type_read"
  "reader_bounded limit_read" "reader_bounded mem_type_read" "reader_bounded elem_type_read"
  "reader_bounded table_type_read" "reader_bounded global_type_read" "reader_bounded name_read"
  unfolding type_reader_defs by (intro bnd)+

section \<open>Matching is inclusion\<close>

text \<open>The sizes a limit allows.\<close>

definition limit_sizes :: "limit \<Rightarrow> nat set" where
  "limit_sizes l = {n. unat (lim_min l) \<le> n \<and> (\<forall>m. lim_max l = Some m \<longrightarrow> n \<le> unat m)}"

text \<open>
  The import check \<open>Limit::matches\<close> is inclusion: a limit that a reader accepts (its
  maximum is not below its minimum) matches another exactly when every size it allows is allowed by
  the other.
\<close>

lemma limit_matches_iff_subset:
  assumes "\<And>m. lim_max l = Some m \<Longrightarrow> lim_min l \<le> m"
  shows "limit_matches l k \<longleftrightarrow> limit_sizes l \<subseteq> limit_sizes k"
proof
  show "limit_matches l k \<Longrightarrow> limit_sizes l \<subseteq> limit_sizes k"
    by (auto simp: limit_matches_def limit_sizes_def word_le_nat_alt word_less_nat_alt
        split: if_splits option.splits)
next
  assume sub: "limit_sizes l \<subseteq> limit_sizes k"
  have "unat (lim_min l) \<in> limit_sizes l"
    using assms by (auto simp: limit_sizes_def word_le_nat_alt)
  with sub have mn: "\<not> lim_min l < lim_min k"
    by (auto simp: limit_sizes_def word_less_nat_alt)
  show "limit_matches l k"
  proof (cases "lim_max k")
    case None
    with mn show ?thesis by (simp add: limit_matches_def split: option.split)
  next
    case (Some m2)
    show ?thesis
    proof (cases "lim_max l")
      case None
      have "unat (lim_min l) + unat m2 + 1 \<in> limit_sizes l" using None by (simp add: limit_sizes_def)
      with sub have "unat (lim_min l) + unat m2 + 1 \<in> limit_sizes k" by blast
      with Some show ?thesis by (simp add: limit_sizes_def)
    next
      fix m1 assume m1: "lim_max l = Some m1"
      then have "unat m1 \<in> limit_sizes l"
        using assms by (auto simp: limit_sizes_def word_le_nat_alt)
      with sub have "unat m1 \<in> limit_sizes k" by blast
      with Some m1 mn show ?thesis by (simp add: limit_matches_def limit_sizes_def word_le_nat_alt)
    qed
  qed
qed

lemma limit_matches_iff_subset_witness:
  "\<not> limit_sizes \<lparr>lim_min = 1, lim_max = Some 5\<rparr> \<subseteq> limit_sizes \<lparr>lim_min = 0, lim_max = Some 4\<rparr>"
  using limit_matches_iff_subset [of "\<lparr>lim_min = 1, lim_max = Some 5\<rparr>" "\<lparr>lim_min = 0, lim_max = Some 4\<rparr>"]
  by (simp add: limit_matches_def)

section \<open>What the readers accept\<close>

definition mem_type_ok :: "mem_type \<Rightarrow> bool" where
  "mem_type_ok ty \<longleftrightarrow> unat (mt_initial ty) * page_bytes (mt_page ty) \<le> 2 ^ 32 \<and>
     (\<forall>m. mt_max ty = Some m \<longrightarrow> mt_initial ty \<le> m \<and> unat m * page_bytes (mt_page ty) \<le> 2 ^ 32)"

lemma max_allowed_bytes: "n \<le> max_allowed_pages p \<longleftrightarrow> n * page_bytes p \<le> 2 ^ 32"
  by (cases p) (simp_all add: max_allowed_pages_def)

lemma mem_type_read_ok: "mem_type_read r = (Ok ty, r') \<Longrightarrow> mem_type_ok ty"
  unfolding mem_type_read_def
  by (elim bindM_OkE)
    (auto simp: retM_def errM_def mem_type_ok_def not_less not_le max_allowed_bytes
      split: if_splits option.splits elim!: bindM_OkE)

lemma can_hold_bytes:
  assumes "mem_type_ok ty" "mem_can_hold ty n"
  shows "unat n * page_bytes (mt_page ty) \<le> 2 ^ 32"
proof (cases "mt_max ty")
  case None
  with assms(2) show ?thesis by (simp add: mem_can_hold_def Let_def split: if_splits)
next
  case (Some m)
  with assms(2) have "unat n \<le> unat m"
    by (simp add: mem_can_hold_def Let_def word_less_nat_alt split: if_splits)
  then have "unat n * page_bytes (mt_page ty) \<le> unat m * page_bytes (mt_page ty)" by simp
  with Some assms(1) show ?thesis unfolding mem_type_ok_def by (meson le_trans)
qed

lemma raw_roundtrip:
  "raw_read_32 (raw_from_32 x) = x" "raw_read_32 (raw_write_i32 x) = x" "raw_read_64 (raw_from_64 y) = y"
  by (simp_all add: raw_from_32_def raw_write_i32_def raw_from_64_def) (auto intro!: bit_eqI simp: bit_simps)

end
