(* ===== verification/Linear_Memory.thy ===== *)
theory Linear_Memory
  imports Wasm_Types
begin

text \<open>
  Linear memory (src/memory.rs). The bytes behind the raw pointer are the list \<open>mem_bytes\<close>; its
  length is the field \<open>size\<close>, and the pointer is null exactly when the list is empty. \<open>mem_alloc\<close>
  says whether the memory has an allocator (the sentinel \<open>Memory::zero\<close> has none). The allocator
  itself belongs to the embedder: the operations that call it take its answer as an argument
  (\<open>resp old new align\<close>, \<open>None\<close> for success), and rely on what the trait documents (the old
  contents are kept, a failure changes nothing). \<open>Rc<Memory>\<close> sharing is the arena of theory Store.

  Lemmas: every access is checked against the size and touches exactly its bytes, little-endian;
  the memory's size stays within its type and below 4 GiB; \<open>grow\<close> extends with zeros or changes
  nothing.
\<close>

definition ISIZE_MAX :: nat where
  "ISIZE_MAX = 2 ^ 63 - 1"

record memory =
  mem_bytes :: "u8 list"
  mem_ty :: mem_type
  mem_alloc :: bool

abbreviation mem_size :: "memory \<Rightarrow> nat" where
  "mem_size m \<equiv> length (mem_bytes m)"

type_synonym alloc_response = "nat \<Rightarrow> nat \<Rightarrow> nat \<Rightarrow> alloc_error option"

text \<open>\<open>Layout::from_size_align\<close>: the alignment is a power of two here, only the size can be wrong.\<close>

definition layout_ok :: "nat \<Rightarrow> nat \<Rightarrow> bool" where
  "layout_ok sz al \<longleftrightarrow> sz \<le> ISIZE_MAX - (al - 1)"

definition memory_zero :: memory where
  "memory_zero = \<lparr>mem_bytes = [], mem_ty = mem_type_zero, mem_alloc = False\<rparr>"

definition memory_new :: "alloc_response \<Rightarrow> mem_type \<Rightarrow> (memory, alloc_error) result" where
  "memory_new resp ty =
     (let sz = unat (mt_initial ty) * page_bytes (mt_page ty);
          al = page_align (mt_page ty) in
      if 2 ^ 64 \<le> sz then Err AE_AllocationFailed
      else if USIZE_MAX < sz then Err AE_AllocationFailed
      else if sz = 0 then Ok \<lparr>mem_bytes = [], mem_ty = ty, mem_alloc = True\<rparr>
      else if \<not> layout_ok sz al then Err AE_AllocationFailed
      else case resp 0 sz al of
        Some e \<Rightarrow> Err e
      | None \<Rightarrow> Ok \<lparr>mem_bytes = replicate sz 0, mem_ty = ty, mem_alloc = True\<rparr>)"

section \<open>Loads and stores\<close>

definition check_in_bounds :: "memory \<Rightarrow> nat \<Rightarrow> nat \<Rightarrow> (unit, memory_error) result" where
  "check_in_bounds m addr sz =
     (if mem_size m < sz \<or> mem_size m - sz < addr then Err ME_OutOfBounds else Ok ())"

definition effective_address :: "u32 \<Rightarrow> u32 \<Rightarrow> (nat, memory_error) result" where
  "effective_address base offset =
     (let ea = unat base + unat offset in if USIZE_MAX < ea then Err ME_OutOfBounds else Ok ea)"

definition put_bytes :: "nat \<Rightarrow> u8 list \<Rightarrow> u8 list \<Rightarrow> u8 list" where
  "put_bytes addr data bytes = take addr bytes @ data @ drop (addr + length data) bytes"

definition get_bytes :: "nat \<Rightarrow> nat \<Rightarrow> u8 list \<Rightarrow> u8 list" where
  "get_bytes addr n bytes = take n (drop addr bytes)"

fun to_le_bytes :: "nat \<Rightarrow> 'w::len word \<Rightarrow> u8 list" where
  "to_le_bytes 0 w = []"
| "to_le_bytes (Suc n) w = ucast w # to_le_bytes n (drop_bit 8 w)"

definition memory_store :: "memory \<Rightarrow> nat \<Rightarrow> u8 list \<Rightarrow> (memory, memory_error) result" where
  "memory_store m addr data = (case check_in_bounds m addr (length data) of
     Ok _ \<Rightarrow> (if data = [] then Ok m else Ok (m\<lparr>mem_bytes := put_bytes addr data (mem_bytes m)\<rparr>))
   | Err e \<Rightarrow> Err e
   | Panic \<Rightarrow> Panic)"

definition memory_load :: "memory \<Rightarrow> nat \<Rightarrow> nat \<Rightarrow> (u8 list, memory_error) result" where
  "memory_load m addr n = (case check_in_bounds m addr n of
     Ok _ \<Rightarrow> (if n = 0 then Ok [] else Ok (get_bytes addr n (mem_bytes m)))
   | Err e \<Rightarrow> Err e
   | Panic \<Rightarrow> Panic)"

text \<open>The scalar accessors differ only in their width (\<open>n\<close> bytes of a \<open>8 n\<close>-bit word).\<close>

definition store_scalar :: "nat \<Rightarrow> memory \<Rightarrow> nat \<Rightarrow> 'w::len word \<Rightarrow> (memory, memory_error) result" where
  "store_scalar n m addr i = (case check_in_bounds m addr n of
     Ok _ \<Rightarrow> Ok (m\<lparr>mem_bytes := put_bytes addr (to_le_bytes n i) (mem_bytes m)\<rparr>)
   | Err e \<Rightarrow> Err e
   | Panic \<Rightarrow> Panic)"

definition load_scalar :: "nat \<Rightarrow> memory \<Rightarrow> nat \<Rightarrow> ('w::len word, memory_error) result" where
  "load_scalar n m addr = (case check_in_bounds m addr n of
     Ok _ \<Rightarrow> Ok (from_le_bytes (get_bytes addr n (mem_bytes m)))
   | Err e \<Rightarrow> Err e
   | Panic \<Rightarrow> Panic)"

definition store_u8 :: "memory \<Rightarrow> nat \<Rightarrow> u8 \<Rightarrow> (memory, memory_error) result" where
  "store_u8 = store_scalar 1"

definition store_u16 :: "memory \<Rightarrow> nat \<Rightarrow> u16 \<Rightarrow> (memory, memory_error) result" where
  "store_u16 = store_scalar 2"

definition store_u32 :: "memory \<Rightarrow> nat \<Rightarrow> u32 \<Rightarrow> (memory, memory_error) result" where
  "store_u32 = store_scalar 4"

definition store_u64 :: "memory \<Rightarrow> nat \<Rightarrow> u64 \<Rightarrow> (memory, memory_error) result" where
  "store_u64 = store_scalar 8"

definition load_u8 :: "memory \<Rightarrow> nat \<Rightarrow> (u8, memory_error) result" where
  "load_u8 = load_scalar 1"

definition load_u16 :: "memory \<Rightarrow> nat \<Rightarrow> (u16, memory_error) result" where
  "load_u16 = load_scalar 2"

definition load_u32 :: "memory \<Rightarrow> nat \<Rightarrow> (u32, memory_error) result" where
  "load_u32 = load_scalar 4"

definition load_u64 :: "memory \<Rightarrow> nat \<Rightarrow> (u64, memory_error) result" where
  "load_u64 = load_scalar 8"

section \<open>Growing\<close>

text \<open>\<open>Memory::size\<close>, in pages: the division is narrowed to \<open>u32\<close>.\<close>

definition memory_size :: "memory \<Rightarrow> u32" where
  "memory_size m = word_of_nat (mem_size m div page_bytes (mt_page (mem_ty m)))"

definition is_zero :: "memory \<Rightarrow> bool" where
  "is_zero m \<longleftrightarrow> mem_bytes m = [] \<and> \<not> mem_alloc m"

definition memory_grow :: "alloc_response \<Rightarrow> u32 \<Rightarrow> (memory, u32, memory_error) m" where
  "memory_grow resp n = (\<lambda>m.
     let old_pages = memory_size m;
         total = unat old_pages + unat n;
         al = page_align (mt_page (mem_ty m));
         old_size = mem_size m in
     if 2 ^ 32 \<le> total then (Err ME_OutOfMemory, m)
     else let total_pages = (word_of_nat total :: u32) in
     if \<not> mem_can_hold (mem_ty m) total_pages then (Err ME_OutOfMemory, m)
     else if \<not> mem_alloc m then (Err ME_OutOfMemory, m)
     else if n = 0 then (Ok old_pages, m)
     else let new_size = unat total_pages * page_bytes (mt_page (mem_ty m)) in
     if USIZE_MAX < new_size then (Err ME_OutOfMemory, m)
     else if \<not> layout_ok new_size al then (Err ME_AllocationFailed, m)
     else if old_size \<noteq> 0 \<and> \<not> layout_ok old_size al then (Err ME_AllocationFailed, m)
     else case resp old_size new_size al of
       Some e \<Rightarrow> (Err (memory_error_from_alloc e), m)
     | None \<Rightarrow>
         if new_size < old_size then (Panic, m)
         else (Ok old_pages, m\<lparr>mem_bytes := mem_bytes m @ replicate (new_size - old_size) 0\<rparr>))"

section \<open>Bytes\<close>

lemma length_put_bytes: "addr + length data \<le> length bytes \<Longrightarrow> length (put_bytes addr data bytes) = length bytes"
  by (simp add: put_bytes_def)

lemma nth_put_bytes:
  assumes "addr + length data \<le> length bytes" "i < length bytes"
  shows "put_bytes addr data bytes ! i =
    (if addr \<le> i \<and> i < addr + length data then data ! (i - addr) else bytes ! i)"
  using assms by (auto simp: put_bytes_def nth_append)

lemma get_put_bytes:
  "addr + length data \<le> length bytes \<Longrightarrow> get_bytes addr (length data) (put_bytes addr data bytes) = data"
  by (simp add: get_bytes_def put_bytes_def)

lemma length_to_le_bytes [simp]: "length (to_le_bytes n w) = n"
  by (induction n arbitrary: w) simp_all

text \<open>Little-endian bytes give the word back when there are enough of them.\<close>

lemma from_to_le_bytes:
  fixes w :: "'w::len word"
  shows "(from_le_bytes (to_le_bytes n w) :: 'w word) = take_bit (8 * n) w"
proof (induction n arbitrary: w)
  case (Suc n)
  have "(from_le_bytes (to_le_bytes (Suc n) w) :: 'w word) =
      ucast (ucast w :: u8) OR push_bit 8 (take_bit (8 * n) (drop_bit 8 w))"
    by (simp add: Suc.IH)
  also have "\<dots> = take_bit (8 * Suc n) w"
    by (rule bit_eqI) (auto simp: bit_simps not_less not_le)
  finally show ?case .
qed simp

lemma check_in_bounds_Ok: "check_in_bounds m addr n = Ok () \<longleftrightarrow> addr + n \<le> mem_size m"
  by (auto simp: check_in_bounds_def)

lemma check_in_bounds_cases:
  "check_in_bounds m addr n = (if addr + n \<le> mem_size m then Ok () else Err ME_OutOfBounds)"
  by (auto simp: check_in_bounds_def)

text \<open>
  Claim C33. A scalar store is checked and local: it fails with \<open>OutOfBounds\<close> exactly when some of its
  \<open>n\<close> bytes would lie outside the memory; otherwise loading the same \<open>n\<close> bytes gives the (truncated)
  value back, every other byte and the size are as before.
\<close>

theorem scalar_store_load:
  fixes i :: "'w::len word"
  shows "case store_scalar n m addr i of
      Ok m' \<Rightarrow> addr + n \<le> mem_size m \<and> load_scalar n m' addr = Ok (take_bit (8 * n) i) \<and>
        mem_size m' = mem_size m \<and> mem_ty m' = mem_ty m \<and> mem_alloc m' = mem_alloc m \<and>
        (\<forall>a < mem_size m. a < addr \<or> addr + n \<le> a \<longrightarrow> mem_bytes m' ! a = mem_bytes m ! a)
    | Err e \<Rightarrow> e = ME_OutOfBounds \<and> mem_size m < addr + n
    | Panic \<Rightarrow> False"
proof (cases "addr + n \<le> mem_size m")
  case True
  then have other: "put_bytes addr (to_le_bytes n i) (mem_bytes m) ! a = mem_bytes m ! a"
    if "a < mem_size m" "a < addr \<or> addr + n \<le> a" for a
    using that by (auto simp: nth_put_bytes)
  show ?thesis
    using True other get_put_bytes [of addr "to_le_bytes n i" "mem_bytes m"]
    by (simp add: store_scalar_def load_scalar_def check_in_bounds_cases length_put_bytes from_to_le_bytes)
qed (simp add: store_scalar_def check_in_bounds_cases)

lemma scalar_store_load_witness:
  "case store_scalar 2 \<lparr>mem_bytes = [1, 2, 3], mem_ty = mem_type_zero, mem_alloc = True\<rparr> 1 (0x0907 :: u16) of
     Ok m' \<Rightarrow> mem_bytes m' ! 0 = 1 \<and> load_scalar 2 m' 1 = Ok (0x0907 :: u16)
   | _ \<Rightarrow> False"
  using scalar_store_load [where n = 2 and m = "\<lparr>mem_bytes = [1, 2, 3], mem_ty = mem_type_zero, mem_alloc = True\<rparr>"
    and addr = 1 and i = "0x0907 :: u16"]
  by (simp split: result.splits)

text \<open>The same for the byte-slice accessors.\<close>

lemma memory_store_load:
  "memory_store m addr data = Ok m' \<Longrightarrow> memory_load m' addr (length data) = Ok data \<and> mem_size m' = mem_size m"
  by (auto simp: memory_store_def memory_load_def check_in_bounds_cases length_put_bytes get_put_bytes
      split: if_splits)

section \<open>The size of a memory\<close>

definition mem_ok :: "memory \<Rightarrow> bool" where
  "mem_ok m \<longleftrightarrow> mem_type_ok (mem_ty m) \<and>
     (\<exists>n. mem_size m = unat n * page_bytes (mt_page (mem_ty m)) \<and> mt_initial (mem_ty m) \<le> n \<and>
       (\<forall>mx. mt_max (mem_ty m) = Some mx \<longrightarrow> n \<le> mx) \<and> mem_size m \<le> 2 ^ 32)"

lemma page_bytes_pos [simp]: "0 < page_bytes p" "page_bytes p \<noteq> 0"
  by (cases p; simp)+

lemma memory_size_pages:
  "mem_size m = unat n * page_bytes (mt_page (mem_ty m)) \<Longrightarrow> memory_size m = n"
  by (simp add: memory_size_def)

lemma mem_ok_zero: "mem_ok memory_zero"
  by (auto simp: mem_ok_def memory_zero_def mem_type_zero_def mem_type_ok_def)

lemma mem_ok_new:
  assumes "mem_type_ok ty" "memory_new resp ty = Ok m" shows "mem_ok m"
proof -
  have "mem_ty m = ty" "mem_size m = unat (mt_initial ty) * page_bytes (mt_page ty)"
    using assms(2) by (auto simp: memory_new_def Let_def split: if_splits option.splits)
  with assms(1) show ?thesis unfolding mem_ok_def mem_type_ok_def by auto
qed

lemma mem_ok_store: "mem_ok m \<Longrightarrow> memory_store m addr data = Ok m' \<Longrightarrow> mem_ok m'"
  by (auto simp: memory_store_def check_in_bounds_cases mem_ok_def length_put_bytes split: if_splits)

lemma mem_ok_store_scalar: "mem_ok m \<Longrightarrow> store_scalar n m addr i = Ok m' \<Longrightarrow> mem_ok m'"
  by (auto simp: store_scalar_def check_in_bounds_cases mem_ok_def length_put_bytes split: if_splits)

lemma layout_ok_small: "sz \<le> 2 ^ 33 \<Longrightarrow> layout_ok sz (page_align p)"
  by (cases p) (simp_all add: layout_ok_def ISIZE_MAX_def)

text \<open>
  Everything \<open>grow\<close> can do, as one equation over page counts: \<open>k\<close> is the current count.
\<close>

lemma memory_grow_eq:
  assumes ok: "mem_ok m"
  defines "k \<equiv> memory_size m" and "p \<equiv> page_bytes (mt_page (mem_ty m))"
  shows "memory_grow resp n m =
    (if 2 ^ 32 \<le> unat k + unat n \<or> \<not> mem_can_hold (mem_ty m) (k + n) \<or> \<not> mem_alloc m then (Err ME_OutOfMemory, m)
     else if n = 0 then (Ok k, m)
     else case resp (mem_size m) ((unat k + unat n) * p) (page_align (mt_page (mem_ty m))) of
       Some e \<Rightarrow> (Err (memory_error_from_alloc e), m)
     | None \<Rightarrow> (Ok k, m\<lparr>mem_bytes := mem_bytes m @ replicate (unat n * p) 0\<rparr>))"
proof -
  obtain j :: u32 where j: "mem_size m = unat j * p" "mem_size m \<le> 2 ^ 32"
    using ok unfolding mem_ok_def p_def by blast
  then have size_k: "mem_size m = unat k * p" using memory_size_pages [of m j] by (simp add: k_def p_def)
  show ?thesis
  proof (cases "2 ^ 32 \<le> unat k + unat n \<or> \<not> mem_can_hold (mem_ty m) (k + n)")
    case True
    have w: "word_of_nat (unat k + unat n) = k + n" by simp
    show ?thesis using True w by (auto simp: memory_grow_def k_def [symmetric] Let_def)
  next
    case False
    then have sum: "unat (k + n) = unat k + unat n" by (simp add: unat_add_lem [THEN iffD1])
    have hold: "mem_can_hold (mem_ty m) (k + n)" using False by simp
    have ty: "mem_type_ok (mem_ty m)" using ok by (simp add: mem_ok_def)
    have bytes: "(unat k + unat n) * p \<le> 2 ^ 32"
      using can_hold_bytes [OF ty hold] by (simp add: sum p_def)
    have w: "(word_of_nat (unat k + unat n) :: u32) = k + n" by simp
    have diff: "(unat k + unat n) * p - unat k * p = unat n * p" by (simp add: distrib_right)
    have le: "unat k * p \<le> (unat k + unat n) * p" by simp
    have lay: "layout_ok ((unat k + unat n) * p) (page_align (mt_page (mem_ty m)))"
      "layout_ok (mem_size m) (page_align (mt_page (mem_ty m)))"
      using bytes j(2) by (auto intro!: layout_ok_small)
    have us: "\<not> USIZE_MAX < (unat k + unat n) * p" using bytes by (simp add: USIZE_MAX_def)
    show ?thesis
      using False lay us le
      by (simp add: memory_grow_def k_def [symmetric] p_def [symmetric] Let_def w sum hold size_k [symmetric])
        (simp add: size_k diff not_less k_def [symmetric] split: option.split)
  qed
qed

lemma can_hold_max: "mem_can_hold ty n \<Longrightarrow> mt_max ty = Some mx \<Longrightarrow> n \<le> mx"
  by (auto simp: mem_can_hold_def Let_def split: if_splits)

lemma can_hold_initial: "mem_can_hold ty n \<Longrightarrow> mt_initial ty \<le> n"
  by (auto simp: mem_can_hold_def Let_def split: if_splits)

lemma memory_grow_Ok:
  assumes ok: "mem_ok m" and grow: "memory_grow resp n m = (Ok old, m')"
  shows "old = memory_size m \<and> unat (memory_size m) + unat n < 2 ^ 32 \<and>
    mem_can_hold (mem_ty m) (memory_size m + n) \<and> mem_alloc m \<and>
    m' = m\<lparr>mem_bytes := mem_bytes m @ replicate (unat n * page_bytes (mt_page (mem_ty m))) 0\<rparr>"
  using grow unfolding memory_grow_eq [OF ok] by (auto split: if_splits option.splits)

lemma mem_ok_grow:
  assumes ok: "mem_ok m" shows "mem_ok (snd (memory_grow resp n m))"
proof (cases "memory_grow resp n m")
  case (Pair x m')
  show ?thesis
  proof (cases x)
    case (Ok old)
    define p where "p = page_bytes (mt_page (mem_ty m))"
    define k where "k = memory_size m"
    note g = memory_grow_Ok [OF ok Pair [unfolded Ok], folded p_def k_def]
    obtain j :: u32 where j: "mem_size m = unat j * p"
      using ok unfolding mem_ok_def p_def by blast
    then have size_k: "mem_size m = unat k * p" using memory_size_pages [of m j] by (simp add: k_def p_def)
    have sum: "unat (k + n) = unat k + unat n" using g by (simp add: unat_add_lem [THEN iffD1])
    have ty: "mem_type_ok (mem_ty m)" using ok by (simp add: mem_ok_def)
    have size': "mem_size m' = unat (k + n) * p" using g size_k by (simp add: sum distrib_right)
    have "mem_size m' \<le> 2 ^ 32"
      using can_hold_bytes [OF ty, of "k + n"] g unfolding size' p_def by blast
    moreover have "mem_ty m' = mem_ty m" using g by simp
    ultimately have "mem_ok m'"
      using ty size' g can_hold_max can_hold_initial unfolding mem_ok_def p_def by metis
    then show ?thesis using Pair by simp
  next
    case (Err e)
    then show ?thesis using Pair ok unfolding memory_grow_eq [OF ok] by (auto split: if_splits option.splits)
  next
    case Panic
    then show ?thesis using Pair unfolding memory_grow_eq [OF ok] by (auto split: if_splits option.splits)
  qed
qed

text \<open>The states a memory goes through once it has been created.\<close>

inductive memory_reach :: "mem_type \<Rightarrow> memory \<Rightarrow> bool" for ty where
  mem_create: "mem_type_ok ty \<Longrightarrow> memory_new resp ty = Ok m \<Longrightarrow> memory_reach ty m"
| mem_bulk: "memory_reach ty m \<Longrightarrow> memory_store m addr data = Ok m' \<Longrightarrow> memory_reach ty m'"
| mem_scalar: "memory_reach ty m \<Longrightarrow> store_scalar n m addr (i :: u64) = Ok m' \<Longrightarrow> memory_reach ty m'"
| mem_growing: "memory_reach ty m \<Longrightarrow> memory_reach ty (snd (memory_grow resp n m))"

lemma memory_grow_type: "mem_ty (snd (memory_grow resp n m)) = mem_ty m"
  by (simp add: memory_grow_def Let_def split: option.split)

lemma memory_reach_ok: "memory_reach ty m \<Longrightarrow> mem_ok m \<and> mem_ty m = ty"
proof (induction rule: memory_reach.induct)
  case (mem_create resp m)
  then show ?case
    using mem_ok_new by (auto simp: memory_new_def Let_def split: if_splits option.splits)
next
  case (mem_bulk m addr data m')
  then have "mem_ty m' = mem_ty m"
    by (auto simp: memory_store_def check_in_bounds_cases split: if_splits)
  with mem_bulk mem_ok_store show ?case by metis
next
  case (mem_scalar m n addr i m')
  then have "mem_ty m' = mem_ty m"
    by (auto simp: store_scalar_def check_in_bounds_cases split: if_splits)
  with mem_scalar mem_ok_store_scalar show ?case by metis
next
  case (mem_growing m resp n)
  then show ?case using mem_ok_grow by (simp add: memory_grow_type)
qed

text \<open>
  Claim C31. A linear memory keeps to its type: from creation on, after any stores and any successful or
  failed growths, its size in bytes is the reported number of pages times the page size, lies
  between the type's initial and maximal page count, and never exceeds 4 GiB (so an effective
  address never wraps into it).
\<close>

theorem memory_size_invariant:
  assumes "memory_reach ty m"
  shows "mem_size m = unat (memory_size m) * page_bytes (mt_page ty) \<and> mem_size m \<le> 2 ^ 32 \<and>
    mt_initial ty \<le> memory_size m \<and> (\<forall>mx. mt_max ty = Some mx \<longrightarrow> memory_size m \<le> mx)"
proof -
  from memory_reach_ok [OF assms] have ok: "mem_ok m" and ty: "mem_ty m = ty" by simp_all
  then obtain n where "mem_size m = unat n * page_bytes (mt_page ty)" "mt_initial ty \<le> n"
    "\<forall>mx. mt_max ty = Some mx \<longrightarrow> n \<le> mx" "mem_size m \<le> 2 ^ 32"
    unfolding mem_ok_def by blast
  moreover from this have "memory_size m = n" by (intro memory_size_pages) (simp add: ty)
  ultimately show ?thesis by simp
qed

definition tiny_type :: mem_type where
  "tiny_type = \<lparr>mt_initial = 1, mt_max = Some 3, mt_page = PS_1\<rparr>"

definition tiny_memory :: memory where
  "tiny_memory = \<lparr>mem_bytes = [0], mem_ty = tiny_type, mem_alloc = True\<rparr>"

lemma tiny_reach: "memory_reach tiny_type tiny_memory"
  by (rule mem_create [where resp = "\<lambda>_ _ _. None"])
    (simp_all add: memory_new_def tiny_type_def tiny_memory_def mem_type_ok_def USIZE_MAX_def layout_ok_def
      ISIZE_MAX_def)

lemma memory_size_invariant_witness:
  "mem_size (snd (memory_grow (\<lambda>_ _ _. None) 2 tiny_memory)) =
     unat (memory_size (snd (memory_grow (\<lambda>_ _ _. None) 2 tiny_memory))) \<and>
   memory_size (snd (memory_grow (\<lambda>_ _ _. None) 2 tiny_memory)) \<le> 3"
  using memory_size_invariant [OF mem_growing [OF tiny_reach, where resp = "\<lambda>_ _ _. None" and n = 2]]
  by (simp add: tiny_type_def)

text \<open>
  Claim C32. \<open>memory.grow\<close> is all or nothing: on success it returns the old page count, the new count
  is their exact (unwrapped) sum and allowed by the type, the old contents are kept and the new pages are zero; on
  any failure (32-bit overflow of the page count, type limit, no allocator, allocator error) the
  memory is unchanged; it never panics.
\<close>

theorem memory_grow_correct:
  assumes "memory_reach ty m"
  shows "case memory_grow resp n m of
      (Ok old, m') \<Rightarrow> old = memory_size m \<and> unat (memory_size m') = unat (memory_size m) + unat n \<and>
        mem_can_hold ty (memory_size m') \<and>
        mem_bytes m' = mem_bytes m @ replicate (unat n * page_bytes (mt_page ty)) 0
    | (Err e, m') \<Rightarrow> m' = m \<and> e \<noteq> ME_OutOfBounds
    | (Panic, m') \<Rightarrow> False"
proof -
  from memory_reach_ok [OF assms] have ok: "mem_ok m" and ty: "mem_ty m = ty" by simp_all
  show ?thesis
  proof (cases "memory_grow resp n m")
    case (Pair x m')
    show ?thesis
    proof (cases x)
      case (Ok old)
      define k where "k = memory_size m"
      note g = memory_grow_Ok [OF ok Pair [unfolded Ok], unfolded ty, folded k_def]
      have sum: "unat (k + n) = unat k + unat n" using g by (simp add: unat_add_lem [THEN iffD1])
      obtain j :: u32 where "mem_size m = unat j * page_bytes (mt_page ty)"
        using ok ty unfolding mem_ok_def by blast
      then have "mem_size m = unat k * page_bytes (mt_page ty)"
        using memory_size_pages [of m j] by (simp add: k_def ty)
      then have "mem_size m' = unat (k + n) * page_bytes (mt_page (mem_ty m'))"
        using g by (simp add: sum distrib_right ty)
      then have "memory_size m' = k + n" by (rule memory_size_pages)
      then show ?thesis using Pair Ok g sum by (simp add: k_def)
    next
      case (Err e)
      have "memory_error_from_alloc a \<noteq> ME_OutOfBounds" for a by (cases a) simp_all
      then show ?thesis
        using Pair Err unfolding memory_grow_eq [OF ok] by (auto split: if_splits option.splits)
    next
      case Panic
      then show ?thesis using Pair unfolding memory_grow_eq [OF ok] by (auto split: if_splits option.splits)
    qed
  qed
qed

lemma memory_grow_correct_witness:
  "(case memory_grow (\<lambda>_ _ _. None) 2 tiny_memory of (Ok old, m') \<Rightarrow> old = 1 \<and> mem_bytes m' = [0, 0, 0] | _ \<Rightarrow> False) \<and>
   memory_grow (\<lambda>_ _ _. None) 3 tiny_memory = (Err ME_OutOfMemory, tiny_memory)"
proof
  have size1: "memory_size tiny_memory = 1" by (simp add: memory_size_def tiny_memory_def tiny_type_def)
  have ok: "fst (memory_grow (\<lambda>_ _ _. None) 2 tiny_memory) = Ok 1"
    by (simp add: memory_grow_def size1 Let_def)
      (simp add: tiny_memory_def tiny_type_def mem_can_hold_def USIZE_MAX_def layout_ok_def ISIZE_MAX_def)
  from memory_grow_correct [OF tiny_reach, where resp = "\<lambda>_ _ _. None" and n = 2]
  show "case memory_grow (\<lambda>_ _ _. None) 2 tiny_memory of
      (Ok old, m') \<Rightarrow> old = 1 \<and> mem_bytes m' = [0, 0, 0] | _ \<Rightarrow> False"
    using ok by (simp add: split_beta size1) (simp add: tiny_memory_def tiny_type_def numeral_2_eq_2)
  have err: "fst (memory_grow (\<lambda>_ _ _. None) 3 tiny_memory) = Err ME_OutOfMemory"
    by (simp add: memory_grow_def size1 Let_def) (simp add: tiny_memory_def tiny_type_def mem_can_hold_def)
  from memory_grow_correct [OF tiny_reach, where resp = "\<lambda>_ _ _. None" and n = 3]
  show "memory_grow (\<lambda>_ _ _. None) 3 tiny_memory = (Err ME_OutOfMemory, tiny_memory)"
    using err by (simp add: split_beta prod_eq_iff)
qed

end
