(* ===== verification/Stack.thy ===== *)
theory Stack
  imports Linear_Memory
begin

text \<open>
  The interpreter's stack of 32-bit words (src/stack.rs). The raw buffer is a list of words whose
  length is \<open>size\<close>; \<open>check_bounds\<close> is the assertion of the \<open>strict-assertions\<close> feature, so an access
  outside the buffer (undefined behaviour without the feature) is \<open>Panic\<close>. A 64-bit value occupies
  two words, the low half first (the unaligned little-endian access of the source).

  Lemmas: what was written is read back through any width, other words are untouched (locale
  \<open>word_cells\<close>, interpreted for both widths), and weakest preconditions for the interpreter.
\<close>

type_synonym stack = "u32 list"

definition stack_new :: "(nat \<Rightarrow> (nat \<Rightarrow> u32, alloc_error) result) \<Rightarrow> nat \<Rightarrow> (stack, alloc_error) result" where
  "stack_new alloc sz =
     (if USIZE_MAX < sz * 4 then Err AE_AllocationFailed
      else if \<not> layout_ok (sz * 4) 4 then Panic
      else case alloc (sz * 4) of
        Ok f \<Rightarrow> Ok (map f [0..<sz])
      | Err e \<Rightarrow> Err e
      | Panic \<Rightarrow> Panic)"

definition stack_check_bounds :: "nat \<Rightarrow> nat \<Rightarrow> (stack, unit, 'e) m" where
  "stack_check_bounds addr word_n = bindM (getM length) (\<lambda>sz. assertM (addr + word_n \<le> sz))"

definition stack_read_u32 :: "nat \<Rightarrow> (stack, u32, 'e) m" where
  "stack_read_u32 addr = thenM (stack_check_bounds addr 1) (getM (\<lambda>s. s ! addr))"

definition join_u32 :: "u32 \<Rightarrow> u32 \<Rightarrow> u64" where
  "join_u32 lo hi = ucast lo OR push_bit 32 (ucast hi)"

definition stack_read_u64 :: "nat \<Rightarrow> (stack, u64, 'e) m" where
  "stack_read_u64 addr = thenM (stack_check_bounds addr 2) (getM (\<lambda>s. join_u32 (s ! addr) (s ! Suc addr)))"

definition stack_write_u32 :: "nat \<Rightarrow> u32 \<Rightarrow> (stack, unit, 'e) m" where
  "stack_write_u32 addr v = thenM (stack_check_bounds addr 1) (modifyM (\<lambda>s. s[addr := v]))"

definition lo_half :: "u64 \<Rightarrow> u32" where
  "lo_half v = ucast v"

definition hi_half :: "u64 \<Rightarrow> u32" where
  "hi_half v = ucast (drop_bit 32 v)"

definition stack_write_u64 :: "nat \<Rightarrow> u64 \<Rightarrow> (stack, unit, 'e) m" where
  "stack_write_u64 addr v =
     thenM (stack_check_bounds addr 2) (modifyM (\<lambda>s. s[addr := lo_half v, Suc addr := hi_half v]))"

section \<open>Halves\<close>

lemma join_halves [simp]: "join_u32 (lo_half v) (hi_half v) = v"
  by (rule bit_eqI) (auto simp: join_u32_def lo_half_def hi_half_def bit_simps)

lemma halves_join [simp]: "lo_half (join_u32 a b) = a" "hi_half (join_u32 a b) = b"
  by (rule bit_eqI; auto simp: join_u32_def lo_half_def hi_half_def bit_simps dest: bit_imp_le_length)+

section \<open>Cells of a buffer\<close>

text \<open>
  The interface the interpreter relies on: cells of \<open>width\<close> words that can be read and written
  inside the buffer, where a write changes its own words only.
\<close>

locale word_cells =
  fixes width :: nat
    and load :: "stack \<Rightarrow> nat \<Rightarrow> 'v"
    and put :: "stack \<Rightarrow> nat \<Rightarrow> 'v \<Rightarrow> stack"
  assumes load_put: "a + width \<le> length s \<Longrightarrow> load (put s a v) a = v"
    and length_put: "length (put s a v) = length s"
    and put_other: "i < a \<or> a + width \<le> i \<Longrightarrow> put s a v ! i = s ! i"
    and load_local: "(\<And>i. a \<le> i \<Longrightarrow> i < a + width \<Longrightarrow> s ! i = t ! i) \<Longrightarrow> load s a = load t a"
begin

lemma load_put_other: "a + width \<le> b \<or> b + width \<le> a \<Longrightarrow> load (put s a v) b = load s b"
  by (rule load_local) (auto intro!: put_other)

lemma put_put_load: "a + width \<le> length s \<Longrightarrow> load (put (put s a v) a w) a = w"
  by (simp add: load_put length_put)

fun put_all :: "stack \<Rightarrow> (nat \<times> 'v) list \<Rightarrow> stack" where
  "put_all s [] = s"
| "put_all s ((a, v) # ws) = put_all (put s a v) ws"

text \<open>The last write wins.\<close>

lemma put_all_last:
  assumes "a + width \<le> length s"
    and "\<forall>(b, w)\<in>set ws. a + width \<le> b \<or> b + width \<le> a"
  shows "load (put_all (put s a v) ws) a = v"
proof -
  have "length t = length s \<Longrightarrow> load t a = v \<Longrightarrow>
      \<forall>(b, w)\<in>set us. a + width \<le> b \<or> b + width \<le> a \<Longrightarrow> load (put_all t us) a = v" for t us
  proof (induction us arbitrary: t)
    case (Cons u us)
    obtain b w where u: "u = (b, w)" by (cases u)
    with Cons.prems have "b + width \<le> a \<or> a + width \<le> b" by auto
    then have "load (put t b w) a = v" using Cons.prems(2) load_put_other [of b a t w] by simp
    with Cons u show ?case by (simp add: length_put)
  qed simp
  from this [of "put s a v" ws] assms show ?thesis by (simp add: load_put length_put)
qed

end

definition load32 :: "stack \<Rightarrow> nat \<Rightarrow> u32" where
  "load32 s a = s ! a"

definition put32 :: "stack \<Rightarrow> nat \<Rightarrow> u32 \<Rightarrow> stack" where
  "put32 s a v = s[a := v]"

definition load64 :: "stack \<Rightarrow> nat \<Rightarrow> u64" where
  "load64 s a = join_u32 (s ! a) (s ! Suc a)"

definition put64 :: "stack \<Rightarrow> nat \<Rightarrow> u64 \<Rightarrow> stack" where
  "put64 s a v = s[a := lo_half v, Suc a := hi_half v]"

interpretation cells32: word_cells 1 load32 put32
  by unfold_locales (auto simp: load32_def put32_def)

interpretation cells64: word_cells 2 load64 put64
proof unfold_locales
  fix a and s t :: stack
  assume eq: "\<And>i. a \<le> i \<Longrightarrow> i < a + 2 \<Longrightarrow> s ! i = t ! i"
  show "load64 s a = load64 t a" using eq [of a] eq [of "Suc a"] by (simp add: load64_def)
qed (auto simp: load64_def put64_def nth_list_update)

section \<open>The operations over the cells\<close>

lemma stack_read_u32_eq: "stack_read_u32 a s = (if a < length s then (Ok (load32 s a), s) else (Panic, s))"
  by (simp add: stack_read_u32_def stack_check_bounds_def run_defs load32_def)

lemma stack_read_u64_eq: "stack_read_u64 a s = (if Suc a < length s then (Ok (load64 s a), s) else (Panic, s))"
  by (simp add: stack_read_u64_def stack_check_bounds_def run_defs load64_def)

lemma stack_write_u32_eq: "stack_write_u32 a v s = (if a < length s then (Ok (), put32 s a v) else (Panic, s))"
  by (simp add: stack_write_u32_def stack_check_bounds_def run_defs put32_def)

lemma stack_write_u64_eq: "stack_write_u64 a v s = (if Suc a < length s then (Ok (), put64 s a v) else (Panic, s))"
  by (simp add: stack_write_u64_def stack_check_bounds_def run_defs put64_def)

lemma wpM_stack [wp]:
  "wpM (stack_read_u32 a) Q E s = (a < length s \<and> Q (load32 s a) s)"
  "wpM (stack_read_u64 a) Q' E s = (Suc a < length s \<and> Q' (load64 s a) s)"
  "wpM (stack_write_u32 a v) U E s = (a < length s \<and> U () (put32 s a v))"
  "wpM (stack_write_u64 a w) U E s = (Suc a < length s \<and> U () (put64 s a w))"
  by (auto simp: wpM_def stack_read_u32_eq stack_read_u64_eq stack_write_u32_eq stack_write_u64_eq)

lemma length_put [simp]: "length (put32 s a v) = length s" "length (put64 s a w) = length s"
  by (simp_all add: cells32.length_put cells64.length_put)

lemma put64_other: "b \<noteq> a \<Longrightarrow> b \<noteq> Suc a \<Longrightarrow> put64 s a v ! b = s ! b"
  by (rule cells64.put_other) auto

text \<open>
  Accesses to the interpreter stack inside the buffer never panic and do not interfere: a
  64-bit write followed by a 64-bit read of the same address gives the value back, a 32-bit word
  outside the two written words is unchanged, and so is the buffer's size; an access that crosses
  the end of the buffer panics without changing it.
\<close>

lemma stack_write_read:
  "(if Suc a < length s
    then wpM (stack_write_u64 a v :: (stack, unit, 'e) m) (\<lambda>_ t. length t = length s \<and> stack_read_u64 a t = ((Ok v, t) :: (u64, 'e) result \<times> stack) \<and>
        (\<forall>b. b < length s \<and> b \<noteq> a \<and> b \<noteq> Suc a \<longrightarrow> stack_read_u32 b t = ((Ok (s ! b), t) :: (u32, 'e) result \<times> stack))) (\<lambda>_ _. False) s
    else stack_write_u64 a v s = ((Panic, s) :: (unit, 'e) result \<times> stack) \<and> stack_read_u64 a s = ((Panic, s) :: (u64, 'e) result \<times> stack))"
  using cells64.load_put [of a s v]
  by (auto simp: put64_other wp stack_read_u64_eq stack_read_u32_eq stack_write_u64_eq load32_def not_less)

lemma stack_write_read_witness:
  "wpM (stack_write_u64 1 9 :: (stack, unit, unit) m) (\<lambda>_ t. stack_read_u64 1 t = ((Ok 9, t) :: (u64, unit) result \<times> stack) \<and>
     stack_read_u32 0 t = ((Ok 5, t) :: (u32, unit) result \<times> stack)) (\<lambda>_ _. False) [5, 6, 7]"
proof -
  have "Suc 1 < length [5, 6, 7 :: u32]" by simp
  with stack_write_read [where 'e = unit and a = 1 and s = "[5, 6, 7]" and v = 9]
  show ?thesis by (simp, elim wpM_mono) (auto dest!: spec [of _ "0 :: nat"])
qed

end
