(* ===== verification/Code_Builder.thy ===== *)
theory Code_Builder
  imports Stack
begin

text \<open>
  The paged code buffer and the label encoding of src/text.rs: \<open>JumpOffset\<close>, \<open>JumpTarget\<close>,
  \<open>LabelTarget\<close>, \<open>CompilerOptions\<close> and \<open>CodeBuilder\<close> with its \<open>backpatch\<close> loop. A page is a list of
  256 words. \<open>cd_alloc\<close> is the script of the embedder's allocator (one entry per page requested,
  success once it is used up). Signed 32-bit offsets are words read by \<open>sint\<close>, with the wrap-around
  of release builds.

  Lemmas: a label gives back its fields; the pages behave as one growing list of words (locale
  \<open>word_buffer\<close>); backpatching a chain returns, makes every jump of the chain go to the current
  position, and changes nothing else.
\<close>

section \<open>Jumps and labels\<close>

datatype jump_offset = JumpOffset (jo_bits: u32)

datatype jump_target = JumpTarget (jt_addr: u32)

datatype label_target = LabelTarget (lt_bits: u32)

datatype label_arity = LA_None | LA_I32 | LA_I64

definition SENTINEL :: jump_target where
  "SENTINEL = JumpTarget 0xFFFFFFFF"

definition jump_sentinel :: jump_offset where
  "jump_sentinel = JumpOffset 0"

text \<open>The sum of an address and a signed offset, both of 32 bits.\<close>

definition target_add :: "jump_target \<Rightarrow> jump_offset \<Rightarrow> jump_target" where
  "target_add t d = JumpTarget (jt_addr t + jo_bits d)"

definition target_page :: "jump_target \<Rightarrow> nat" where
  "target_page t = unat (drop_bit 8 (jt_addr t))"

definition target_offset :: "jump_target \<Rightarrow> nat" where
  "target_offset t = unat (jt_addr t AND 0xFF)"

definition jump_offset_new :: "jump_target \<Rightarrow> jump_target \<Rightarrow> (jump_offset, validation_error) result" where
  "jump_offset_new current to =
     (if to = SENTINEL then Ok jump_sentinel
      else let offset = jt_addr to - jt_addr current;
               fits = (offset = signed_drop_bit (32 - 22) (push_bit (32 - 22) offset))
           in if \<not> fits then Err LabelJumpTooLarge else Ok (JumpOffset offset))"

definition label_rt :: "result_type \<Rightarrow> u32" where
  "label_rt rt = (case rt of
     None \<Rightarrow> 0
   | Some T_I32 \<Rightarrow> 1 | Some T_F32 \<Rightarrow> 1
   | Some T_I64 \<Rightarrow> 2 | Some T_F64 \<Rightarrow> 2)"

definition label_new :: "result_type \<Rightarrow> u8 \<Rightarrow> jump_offset \<Rightarrow> label_target" where
  "label_new rt depth off =
     LabelTarget (push_bit 30 (label_rt rt) OR push_bit 22 (ucast depth) OR (jo_bits off AND 0x3FFFFF))"

definition label_early_return :: "result_type \<Rightarrow> label_target" where
  "label_early_return rt = label_new rt 0 jump_sentinel"

definition with_jump :: "label_target \<Rightarrow> jump_offset \<Rightarrow> label_target" where
  "with_jump l off = LabelTarget ((lt_bits l AND 0xFFC00000) OR (jo_bits off AND 0x3FFFFF))"

definition label_jump :: "label_target \<Rightarrow> jump_offset" where
  "label_jump l = (let u = lt_bits l AND 0x3FFFFF in JumpOffset (signed_drop_bit 10 (push_bit 10 u)))"

definition is_sentinel :: "label_target \<Rightarrow> bool" where
  "is_sentinel l \<longleftrightarrow> label_jump l = JumpOffset 0"

text \<open>\<open>None\<close> is the \<open>unreachable!()\<close> of the source.\<close>

definition arity_of :: "label_target \<Rightarrow> label_arity option" where
  "arity_of l = (let a = drop_bit 30 (lt_bits l) AND 3 in
     if a = 0 then Some LA_None else if a = 1 then Some LA_I32 else if a = 2 then Some LA_I64 else None)"

definition depth_of :: "label_target \<Rightarrow> u8" where
  "depth_of l = ucast (drop_bit 22 (lt_bits l) AND 0xFF)"

section \<open>The code builder\<close>

definition MAX_ADDRESSABLE_CODE_PAGES :: nat where
  "MAX_ADDRESSABLE_CODE_PAGES = 2 ^ 24"

type_synonym text_page = "u16 list"

record compiler_options =
  allow_memory_grow :: bool
  max_backpatch_iterations :: "u32 option"
  max_code_pages :: nat

record code_builder =
  cd_pages :: "text_page list"
  cd_offset :: nat
  cd_options :: compiler_options
  cd_alloc :: "alloc_error option list"

definition code_new ::
  "alloc_error option list \<Rightarrow> compiler_options \<Rightarrow> (code_builder, alloc_error) result" where
  "code_new al opts =
     (if MAX_ADDRESSABLE_CODE_PAGES \<le> max_code_pages opts then Err AE_AllocationFailed
      else case (if max_code_pages opts = 0 then None # al else al) of
        Some e # _ \<Rightarrow> Err e
      | al' \<Rightarrow> Ok \<lparr>cd_pages = [], cd_offset = 0, cd_options = opts, cd_alloc = drop 1 al'\<rparr>)"

definition code_pc :: "(code_builder, jump_target, 'e) m" where
  "code_pc = bindM (getM (\<lambda>cd.
       if cd_offset cd = 256 then (length (cd_pages cd), 0)
       else if cd_pages cd = [] then (0, 0)
       else (length (cd_pages cd) - 1, cd_offset cd)))
     (\<lambda>(page_index, offset).
       thenM (assertM (page_index < MAX_ADDRESSABLE_CODE_PAGES))
       (thenM (assertM (offset < 256))
       (retM (JumpTarget (push_bit 8 (word_of_nat page_index) OR word_of_nat offset)))))"

definition add_page :: "(code_builder, unit, alloc_error) m" where
  "add_page = (\<lambda>cd.
     let (failed, al) = (case cd_alloc cd of [] \<Rightarrow> (None, []) | x # xs \<Rightarrow> (x, xs));
         cd1 = cd\<lparr>cd_alloc := al\<rparr> in
     case failed of
       Some e \<Rightarrow> (Err e, cd1)
     | None \<Rightarrow>
         if length (cd_pages cd1) < max_code_pages (cd_options cd1)
         then (Ok (), cd1\<lparr>cd_pages := cd_pages cd1 @ [replicate 256 0], cd_offset := 0\<rparr>)
         else (Err AE_OutOfMemory, cd1))"

text \<open>Writing word \<open>i\<close> of page \<open>p\<close>.\<close>

definition set_word :: "nat \<Rightarrow> nat \<Rightarrow> u16 \<Rightarrow> code_builder \<Rightarrow> code_builder" where
  "set_word p i v cd = cd\<lparr>cd_pages := (cd_pages cd)[p := ((cd_pages cd) ! p)[i := v]]\<rparr>"

definition code_push :: "u16 \<Rightarrow> (code_builder, unit, alloc_error) m" where
  "code_push c =
     bindM (getM (\<lambda>cd. (cd_offset cd, cd_pages cd = []))) (\<lambda>(offset, empty).
     thenM (if offset = 0 \<and> empty then add_page
            else if 256 \<le> offset then add_page
            else retM ())
     (bindM (getM (\<lambda>cd. (length (cd_pages cd), cd_offset cd))) (\<lambda>(n, off).
      thenM (assertM (0 < n \<and> off < 256))
      (modifyM (\<lambda>cd. (set_word (n - 1) off c cd)\<lparr>cd_offset := off + 1\<rparr>)))))"

definition code_write :: "jump_target \<Rightarrow> u16 \<Rightarrow> (code_builder, unit, validation_error) m" where
  "code_write address v =
     bindM (getM (\<lambda>cd. length (cd_pages cd))) (\<lambda>n.
     if n \<le> target_page address \<or> 256 \<le> target_offset address then errM PageFault
     else modifyM (set_word (target_page address) (target_offset address) v))"

definition target_succ :: "jump_target \<Rightarrow> jump_target" where
  "target_succ t = JumpTarget (jt_addr t + 1)"

definition code_write_32 :: "jump_target \<Rightarrow> u32 \<Rightarrow> (code_builder, unit, validation_error) m" where
  "code_write_32 address v =
     thenM (code_write address (ucast v)) (code_write (target_succ address) (ucast (drop_bit 16 v)))"

definition code_read :: "jump_target \<Rightarrow> (code_builder, u16, validation_error) m" where
  "code_read address =
     bindM (getM cd_pages) (\<lambda>pages.
     if length pages \<le> target_page address \<or> 256 \<le> target_offset address then errM PageFault
     else retM (pages ! target_page address ! target_offset address))"

definition code_read_32 :: "jump_target \<Rightarrow> (code_builder, u32, validation_error) m" where
  "code_read_32 address =
     bindM (code_read address) (\<lambda>w1.
     bindM (code_read (target_succ address)) (\<lambda>w2.
     retM (ucast w1 OR push_bit 16 (ucast w2))))"

section \<open>Backpatching\<close>

text \<open>
  The loop of \<open>backpatch\<close>. The closure may keep variables of its own (the \<open>prev\<close> and
  \<open>remaining_chain\<close> of the else branch), so it runs on the pair of the builder and those variables.
  A chain that runs in a circle loops for ever when no iteration limit is set: the loop is a partial
  function, and \<open>backpatch\<close> maps "does not return" to \<open>Panic\<close>, so that a result without \<open>Panic\<close> says
  that the loop returned.
\<close>

type_synonym 'x patch = "jump_target \<Rightarrow> label_target \<Rightarrow> (code_builder \<times> 'x, unit, validation_error) m"

definition onCode :: "(code_builder, 'a, 'e) m \<Rightarrow> (code_builder \<times> 'x, 'a, 'e) m" where
  "onCode f = (\<lambda>(cd, x). let (a, cd') = f cd in (a, (cd', x)))"

text \<open>One iteration: the label found and what to do next; \<open>n\<close>, a \<open>u32\<close>, counts the jumps followed.\<close>

definition backpatch_step ::
  "'x patch \<Rightarrow> jump_target \<Rightarrow> u32 \<Rightarrow> (code_builder \<times> 'x, jump_target option, validation_error) m" where
  "backpatch_step f address n =
     bindM (onCode (code_read_32 address)) (\<lambda>w.
     let lt = LabelTarget w in
     thenM (f address lt)
     (if is_sentinel lt then retM None
      else bindM (getM (\<lambda>(cd, x). max_backpatch_iterations (cd_options cd))) (\<lambda>limit.
        case limit of
          Some mx \<Rightarrow> if mx < n + 1 then errM PossibleBackpatchCycle
                    else retM (Some (target_add address (label_jump lt)))
        | None \<Rightarrow> retM (Some (target_add address (label_jump lt))))))"

partial_function (option) backpatch_loop ::
  "'x patch \<Rightarrow> jump_target \<Rightarrow> u32 \<Rightarrow> code_builder \<times> 'x \<Rightarrow>
   ((unit, validation_error) result \<times> (code_builder \<times> 'x)) option"
where
  "backpatch_loop f address n s = (case backpatch_step f address n s of
     (Ok None, t) \<Rightarrow> Some (Ok (), t)
   | (Ok (Some next), t) \<Rightarrow> backpatch_loop f next (n + 1) t
   | (Err e, t) \<Rightarrow> Some (Err e, t)
   | (Panic, t) \<Rightarrow> Some (Panic, t))"

definition backpatch :: "jump_target \<Rightarrow> 'x patch \<Rightarrow> (code_builder \<times> 'x, unit, validation_error) m" where
  "backpatch start f = (\<lambda>s.
     if start = SENTINEL then (Ok (), s)
     else case backpatch_loop f start 0 s of Some r \<Rightarrow> r | None \<Rightarrow> (Panic, s))"

section \<open>Fields of a label\<close>

lemma mask22: "(0x3FFFFF :: u32) = mask 22" "(0xFFC00000 :: u32) = NOT (mask 22)" "(0xFF :: u32) = mask 8"
  "(3 :: u32) = mask 2"
  by (simp_all add: mask_eq_exp_minus_1)

lemma bit_label_jump: "bit (jo_bits (label_jump l)) n \<longleftrightarrow> n < 32 \<and> bit (lt_bits l) (min n 21)"
  unfolding label_jump_def Let_def mask22
  by (auto simp: bit_signed_drop_bit_iff bit_simps min_def)

text \<open>An offset that survives the 22-bit field.\<close>

definition fits22 :: "jump_offset \<Rightarrow> bool" where
  "fits22 d \<longleftrightarrow> jo_bits d = signed_drop_bit 10 (push_bit 10 (jo_bits d))"

lemma fits22_bits: "fits22 d \<Longrightarrow> bit (jo_bits d) n \<longleftrightarrow> n < 32 \<and> bit (jo_bits d) (min n 21)"
proof -
  assume "fits22 d"
  then have "bit (jo_bits d) n \<longleftrightarrow> bit (signed_drop_bit 10 (push_bit 10 (jo_bits d))) n"
    by (simp add: fits22_def)
  also have "\<dots> \<longleftrightarrow> n < 32 \<and> bit (jo_bits d) (min n 21)"
    by (auto simp: bit_signed_drop_bit_iff bit_simps min_def)
  finally show ?thesis .
qed

lemma jump_eqI: "jo_bits a = jo_bits b \<Longrightarrow> a = b"
  by (cases a; cases b) simp

lemma label_jump_new: "fits22 d \<Longrightarrow> label_jump (label_new rt depth d) = d"
proof (rule jump_eqI, rule bit_eqI)
  fix n assume "fits22 d"
  show "bit (jo_bits (label_jump (label_new rt depth d))) n = bit (jo_bits d) n"
    unfolding fits22_bits [OF \<open>fits22 d\<close>, of n]
    by (auto simp: bit_label_jump label_new_def bit_simps mask22)
qed

lemma label_jump_with: "fits22 d \<Longrightarrow> label_jump (with_jump l d) = d"
proof (rule jump_eqI, rule bit_eqI)
  fix n assume "fits22 d"
  show "bit (jo_bits (label_jump (with_jump l d))) n = bit (jo_bits d) n"
    unfolding fits22_bits [OF \<open>fits22 d\<close>, of n]
    by (auto simp: bit_label_jump with_jump_def bit_simps mask22)
qed

lemma depth_of_new: "depth_of (label_new rt depth d) = depth"
  unfolding depth_of_def label_new_def mask22
  by (rule bit_eqI) (auto simp: bit_simps)

lemma depth_of_with: "depth_of (with_jump l d) = depth_of l"
  unfolding depth_of_def with_jump_def mask22
  by (rule bit_eqI) (auto simp: bit_simps)

lemma arity_bits_with: "drop_bit 30 (lt_bits (with_jump l d)) = drop_bit 30 (lt_bits l)"
  unfolding with_jump_def mask22 by (rule bit_eqI) (auto simp: bit_simps dest: bit_imp_le_length)

lemma arity_of_with: "arity_of (with_jump l d) = arity_of l"
  by (simp add: arity_of_def arity_bits_with)

lemma label_rt_cases: "label_rt rt = 0 \<or> label_rt rt = 1 \<or> label_rt rt = 2"
  by (auto simp: label_rt_def split: option.split val_type.split)

lemma arity_bits_new: "drop_bit 30 (lt_bits (label_new rt depth d)) = label_rt rt"
proof -
  have "bit (label_rt rt) n \<Longrightarrow> n < 2" for n
    using label_rt_cases [of rt] by (auto simp: bit_1_iff bit_numeral_word_iff dest: bit_imp_le_length
        simp: bit_2_iff)
  then show ?thesis
    unfolding label_new_def mask22
    by (intro bit_eqI) (auto simp: bit_simps dest: bit_imp_le_length)
qed

lemma arity_of_new:
  "arity_of (label_new rt depth d) = Some (case rt of None \<Rightarrow> LA_None
     | Some T_I32 \<Rightarrow> LA_I32 | Some T_F32 \<Rightarrow> LA_I32 | Some T_I64 \<Rightarrow> LA_I64 | Some T_F64 \<Rightarrow> LA_I64)"
  by (simp add: arity_of_def arity_bits_new label_rt_def split: option.split val_type.split)

lemma fits22_sentinel [simp]: "fits22 jump_sentinel"
  by (simp add: fits22_def jump_sentinel_def)

lemma jump_offset_new_Ok:
  assumes "jump_offset_new current to = Ok d"
  shows "fits22 d" "to \<noteq> SENTINEL \<Longrightarrow> target_add current d = to"
proof -
  have d: "d = JumpOffset (jt_addr to - jt_addr current) \<and> fits22 d" if "to \<noteq> SENTINEL"
  proof -
    define off where "off = jt_addr to - jt_addr current"
    have ten: "32 - 22 = (10 :: nat)" by simp
    have "off = signed_drop_bit 10 (push_bit 10 off)" "d = JumpOffset off"
      using assms that unfolding jump_offset_new_def Let_def off_def [symmetric] ten
      by (auto simp only: if_False result.inject result.distinct split: if_splits)
    then show ?thesis by (simp only: fits22_def jump_offset.sel off_def simp_thms)
  qed
  show "fits22 d"
  proof (cases "to = SENTINEL")
    case True
    then show ?thesis using assms by (simp add: jump_offset_new_def)
  qed (use d in blast)
  show "to \<noteq> SENTINEL \<Longrightarrow> target_add current d = to"
    using d by (simp add: target_add_def)
qed

text \<open>
  Claim C29. The 32-bit label encoding loses nothing the interpreter needs: for every result type,
  stack depth and pair of addresses whose distance passes the range check, the label's arity and
  depth are those given, its jump leads from the first address to the second, and re-targeting the
  label keeps arity and depth while its jump leads to the new address.
\<close>

theorem label_roundtrip:
  assumes "jump_offset_new current to = Ok d" "to \<noteq> SENTINEL"
    and "jump_offset_new current to' = Ok d'" "to' \<noteq> SENTINEL"
  shows "let l = label_new rt depth d; l' = with_jump l d' in
    target_add current (label_jump l) = to \<and> depth_of l = depth \<and>
    arity_of l = Some (case rt of None \<Rightarrow> LA_None
      | Some T_I32 \<Rightarrow> LA_I32 | Some T_F32 \<Rightarrow> LA_I32 | Some T_I64 \<Rightarrow> LA_I64 | Some T_F64 \<Rightarrow> LA_I64) \<and>
    target_add current (label_jump l') = to' \<and> depth_of l' = depth \<and> arity_of l' = arity_of l"
  using jump_offset_new_Ok(1) [OF assms(1)] jump_offset_new_Ok(2) [OF assms(1,2)]
    jump_offset_new_Ok(1) [OF assms(3)] jump_offset_new_Ok(2) [OF assms(3,4)]
  by (simp only: Let_def label_jump_new label_jump_with depth_of_new depth_of_with arity_of_new arity_of_with simp_thms)

lemma label_roundtrip_witness:
  "let l = label_new (Some T_I64) 7 (JumpOffset 0xFFFFFFF0) in
    target_add (JumpTarget 0x100) (label_jump l) = JumpTarget 0xF0 \<and> depth_of l = 7 \<and>
    arity_of l = Some LA_I64 \<and> target_add (JumpTarget 0x100) (label_jump (with_jump l (JumpOffset 0x20))) = JumpTarget 0x120"
  using label_roundtrip [of "JumpTarget 0x100" "JumpTarget 0xF0" "JumpOffset 0xFFFFFFF0" "JumpTarget 0x120"
      "JumpOffset 0x20" "Some T_I64" 7]
  by (simp add: Let_def jump_offset_new_def SENTINEL_def)

section \<open>Pages as one list of words\<close>

lemma length_concat_pages:
  "\<forall>p\<in>set ps. length p = k \<Longrightarrow> length (concat ps) = k * length ps"
  by (induction ps) auto

lemma concat_pages_nth:
  assumes "\<forall>p\<in>set ps. length p = k" "i < length ps" "j < k"
  shows "concat ps ! (k * i + j) = ps ! i ! j"
  using assms
proof (induction ps arbitrary: i)
  case (Cons p ps)
  then show ?case by (cases i) (auto simp: nth_append)
qed simp

lemma concat_pages_update:
  assumes "\<forall>p\<in>set ps. length p = k" "i < length ps" "j < k"
  shows "concat (ps[i := (ps ! i)[j := v]]) = (concat ps)[k * i + j := v]"
  using assms
proof (induction ps arbitrary: i)
  case (Cons p ps)
  then show ?case by (cases i) (auto simp: list_update_append)
qed simp

definition flat :: "code_builder \<Rightarrow> u16 list" where
  "flat cd = concat (cd_pages cd)"

definition word_count :: "code_builder \<Rightarrow> nat" where
  "word_count cd = (if cd_pages cd = [] then 0 else 256 * (length (cd_pages cd) - 1) + cd_offset cd)"

definition code_words :: "code_builder \<Rightarrow> u16 list" where
  "code_words cd = take (word_count cd) (flat cd)"

definition code_inv :: "code_builder \<Rightarrow> bool" where
  "code_inv cd \<longleftrightarrow> (\<forall>p\<in>set (cd_pages cd). length p = 256) \<and> cd_offset cd \<le> 256 \<and>
     (cd_pages cd = [] \<longrightarrow> cd_offset cd = 0) \<and> (cd_pages cd \<noteq> [] \<longrightarrow> 0 < cd_offset cd) \<and>
     length (cd_pages cd) \<le> max_code_pages (cd_options cd) \<and>
     max_code_pages (cd_options cd) < MAX_ADDRESSABLE_CODE_PAGES"

lemma code_inv_new: "code_new al opts = Ok cd \<Longrightarrow> code_inv cd \<and> code_words cd = []"
  by (auto simp: code_new_def code_inv_def code_words_def flat_def
      split: if_splits list.splits option.splits)

lemma length_flat: "code_inv cd \<Longrightarrow> length (flat cd) = 256 * length (cd_pages cd)"
  by (simp add: code_inv_def flat_def length_concat_pages)

lemma word_count_le: "code_inv cd \<Longrightarrow> word_count cd \<le> length (flat cd)"
  by (cases "length (cd_pages cd)") (auto simp: length_flat word_count_def code_inv_def)

lemma length_code_words [simp]: "code_inv cd \<Longrightarrow> length (code_words cd) = word_count cd"
  using word_count_le [of cd] by (simp add: code_words_def)

lemma target_page_offset:
  "target_page t = unat (jt_addr t) div 256" "target_offset t = unat (jt_addr t) mod 256"
  "unat (jt_addr t) = 256 * target_page t + target_offset t" "target_offset t < 256"
proof -
  have "unat (jt_addr t) < 2 ^ 32" using unsigned_less [of "jt_addr t"] by simp
  then show 1: "target_page t = unat (jt_addr t) div 256"
    unfolding target_page_def unsigned_drop_bit_eq
    by (simp add: drop_bit_eq_div take_bit_nat_eq_self)
  show 2: "target_offset t = unat (jt_addr t) mod 256"
    unfolding target_offset_def mask22 take_bit_eq_mask [symmetric] unsigned_take_bit_eq
    by (simp add: take_bit_eq_mod)
  show "unat (jt_addr t) = 256 * target_page t + target_offset t" "target_offset t < 256"
    by (simp_all add: 1 2)
qed

lemma target_page_iff:
  "length ps \<le> target_page t \<longleftrightarrow> 256 * length ps \<le> unat (jt_addr t)"
  using target_page_offset [of t] by linarith

lemma code_read_eq:
  assumes "code_inv cd"
  shows "code_read t cd = (if unat (jt_addr t) < length (flat cd) then (Ok (flat cd ! unat (jt_addr t)), cd)
    else (Err PageFault, cd))"
proof -
  have "cd_pages cd ! target_page t ! target_offset t = flat cd ! unat (jt_addr t)"
    if "target_page t < length (cd_pages cd)"
    using concat_pages_nth [of "cd_pages cd" 256 "target_page t" "target_offset t"] assms that
      target_page_offset(3,4) [of t]
    by (simp add: flat_def code_inv_def)
  then show ?thesis
    using target_page_offset(4) [of t] target_page_iff [of "cd_pages cd" t] assms
    by (auto simp: code_read_def run_defs length_flat not_le)
qed

lemma code_write_eq:
  assumes "code_inv cd"
  shows "code_write t v cd = (if unat (jt_addr t) < length (flat cd)
      then (Ok (), set_word (target_page t) (target_offset t) v cd) else (Err PageFault, cd))"
  using target_page_offset(4) [of t] target_page_iff [of "cd_pages cd" t] assms
  by (auto simp: code_write_def run_defs length_flat not_le)

lemma set_word_facts:
  assumes inv: "code_inv cd" and p: "p < length (cd_pages cd)" and i: "i < 256"
  shows "code_inv (set_word p i v cd)" "flat (set_word p i v cd) = (flat cd)[256 * p + i := v]"
    "word_count (set_word p i v cd) = word_count cd" "cd_options (set_word p i v cd) = cd_options cd"
proof -
  show "flat (set_word p i v cd) = (flat cd)[256 * p + i := v]"
    using concat_pages_update [of "cd_pages cd" 256 p i v] inv p i
    by (simp add: flat_def set_word_def code_inv_def)
  show "word_count (set_word p i v cd) = word_count cd"
    by (simp add: word_count_def set_word_def)
  show "code_inv (set_word p i v cd)"
    using inv p by (auto simp: code_inv_def set_word_def dest!: set_update_subset_insert [THEN subsetD])
  show "cd_options (set_word p i v cd) = cd_options cd" by (simp add: set_word_def)
qed

section \<open>A growing list of words\<close>

text \<open>
  The interface the instruction emitters rely on: a buffer whose \<open>push\<close> appends one word or fails
  without losing any.
\<close>

locale word_buffer =
  fixes inv :: "'s \<Rightarrow> bool"
    and contents :: "'s \<Rightarrow> 'w list"
    and push :: "'w \<Rightarrow> ('s, unit, 'e) m"
  assumes push_Ok: "inv s \<Longrightarrow> push c s = (Ok u, t) \<Longrightarrow> inv t \<and> contents t = contents s @ [c]"
    and push_Err: "inv s \<Longrightarrow> push c s = (Err e, t) \<Longrightarrow> inv t \<and> contents t = contents s"
    and push_no_panic: "inv s \<Longrightarrow> fst (push c s) \<noteq> Panic"
begin

lemma push_cases:
  assumes "inv s"
  obtains (pushed) t where "push c s = (Ok (), t)" "inv t" "contents t = contents s @ [c]"
  | (failed) e t where "push c s = (Err e, t)" "inv t" "contents t = contents s"
proof (cases "push c s")
  case (Pair r t)
  show thesis
  proof (cases r)
    case (Ok u)
    then have "push c s = (Ok (), t)" using Pair by (cases u) simp
    with pushed push_Ok [OF assms this] show thesis by blast
  next
    case (Err e)
    with failed push_Err [OF assms, of c e t] Pair show thesis by blast
  next
    case Panic
    with push_no_panic [OF assms, of c] Pair show thesis by simp
  qed
qed

text \<open>Pushing a list appends it, or a proper prefix of it up to the word that failed.\<close>

lemma push_list:
  assumes "inv s"
  shows "(\<exists>t. forM cs push s = (Ok (), t) \<and> inv t \<and> contents t = contents s @ cs)
    \<or> (\<exists>e t k. forM cs push s = (Err e, t) \<and> inv t \<and> k < length cs \<and> contents t = contents s @ take k cs)"
  using assms
proof (induction cs arbitrary: s)
  case Nil
  then show ?case by (simp add: retM_def)
next
  case (Cons c cs)
  from Cons.prems show ?case
  proof (cases rule: push_cases [of s c])
    case (pushed t)
    from Cons.IH [OF pushed(2)] show ?thesis
    proof
      assume "\<exists>u. forM cs push t = (Ok (), u) \<and> inv u \<and> contents u = contents t @ cs"
      then show ?thesis using pushed by (auto simp: thenM_def bindM_def)
    next
      assume "\<exists>e u k. forM cs push t = (Err e, u) \<and> inv u \<and> k < length cs \<and>
        contents u = contents t @ take k cs"
      then obtain e u k where "forM cs push t = (Err e, u)" "inv u" "k < length cs"
        "contents u = contents t @ take k cs" by blast
      then have "forM (c # cs) push s = (Err e, u) \<and> inv u \<and> Suc k < length (c # cs) \<and>
          contents u = contents s @ take (Suc k) (c # cs)"
        using pushed by (simp add: thenM_def bindM_def)
      then show ?thesis by blast
    qed
  next
    case (failed e t)
    then have "forM (c # cs) push s = (Err e, t) \<and> inv t \<and> 0 < length (c # cs) \<and>
        contents t = contents s @ take 0 (c # cs)"
      by (simp add: thenM_def bindM_def)
    then show ?thesis by blast
  qed
qed

end

text \<open>Adding a page: the new page is blank and empty, or nothing but the allocator moved.\<close>

lemma add_page_cases:
  obtains (added) al where "add_page cd = (Ok (), cd\<lparr>cd_alloc := al,
      cd_pages := cd_pages cd @ [replicate 256 0], cd_offset := 0\<rparr>)"
      "length (cd_pages cd) < max_code_pages (cd_options cd)"
  | (failed) e al where "add_page cd = (Err e, cd\<lparr>cd_alloc := al\<rparr>)"
proof -
  obtain x al where x: "(case cd_alloc cd of [] \<Rightarrow> (None, []) | x # xs \<Rightarrow> (x, xs)) = (x, al)" by fastforce
  show thesis
  proof (cases x)
    case None
    show thesis
    proof (cases "length (cd_pages cd) < max_code_pages (cd_options cd)")
      case True
      with None show thesis by (intro added) (simp_all add: add_page_def x)
    next
      case False
      with None show thesis by (intro failed [of AE_OutOfMemory al]) (simp add: add_page_def x)
    qed
  next
    case (Some e)
    then show thesis by (intro failed [of e al]) (simp add: add_page_def x)
  qed
qed

lemma code_inv_alloc: "code_inv cd \<Longrightarrow> code_inv (cd\<lparr>cd_alloc := al\<rparr>)"
  by (simp add: code_inv_def)

lemma code_words_alloc: "code_words (cd\<lparr>cd_alloc := al\<rparr>) = code_words cd"
  by (simp add: code_words_def word_count_def flat_def)

text \<open>Writing the next word, once the current page has room.\<close>

lemma write_next:
  fixes c :: u16
  assumes pages: "\<forall>p\<in>set (cd_pages cd). length p = 256" and ne: "cd_pages cd \<noteq> []" and off: "cd_offset cd < 256"
    and max: "length (cd_pages cd) \<le> max_code_pages (cd_options cd)" "max_code_pages (cd_options cd) < MAX_ADDRESSABLE_CODE_PAGES"
  defines "k \<equiv> 256 * (length (cd_pages cd) - 1) + cd_offset cd"
  defines "cd' \<equiv> (set_word (length (cd_pages cd) - 1) (cd_offset cd) c cd)\<lparr>cd_offset := cd_offset cd + 1\<rparr>"
  shows "code_inv cd'" "code_words cd' = take k (flat cd) @ [c]"
proof -
  let ?p = "length (cd_pages cd) - 1"
  have p: "?p < length (cd_pages cd)" using ne by simp
  have pages': "\<forall>q\<in>set (cd_pages cd'). length q = 256"
    using pages p by (auto simp: cd'_def set_word_def dest!: set_update_subset_insert [THEN subsetD])
  have len: "length (cd_pages cd') = length (cd_pages cd)" by (simp add: cd'_def set_word_def)
  show "code_inv cd'"
    using pages' len max off ne by (auto simp: code_inv_def) (simp_all add: cd'_def set_word_def)
  have flat': "flat cd' = (flat cd)[k := c]"
    using concat_pages_update [OF pages p off, of c] by (simp add: flat_def cd'_def set_word_def k_def)
  have "k < length (flat cd)"
    using length_concat_pages [OF pages] p off by (simp add: flat_def k_def) 
  moreover have "word_count cd' = Suc k"
  proof -
    have "cd_pages cd' \<noteq> []" using ne len by (metis length_0_conv)
    then show ?thesis by (simp add: word_count_def k_def len) (simp add: cd'_def)
  qed
  ultimately show "code_words cd' = take k (flat cd) @ [c]"
    by (simp add: code_words_def flat' take_Suc_conv_app_nth)
qed

text \<open>What a push does to the three kinds of builder: empty, with a full page, with room.\<close>

lemma code_push_room:
  assumes "code_inv cd" "cd_offset cd < 256" "cd_pages cd \<noteq> []"
  shows "\<exists>t. code_push c cd = (Ok (), t) \<and> code_inv t \<and> code_words t = code_words cd @ [c]"
proof -
  have "0 < cd_offset cd" using assms by (simp add: code_inv_def)
  then have run: "code_push c cd = (Ok (), (set_word (length (cd_pages cd) - 1) (cd_offset cd) c cd)
      \<lparr>cd_offset := cd_offset cd + 1\<rparr>)"
    using assms by (simp add: code_push_def run_defs)
  have "take (256 * (length (cd_pages cd) - 1) + cd_offset cd) (flat cd) = code_words cd"
    using assms(3) by (simp add: code_words_def word_count_def)
  with run write_next [of cd c] assms show ?thesis by (simp add: code_inv_def)
qed

lemma code_push_new_page:
  assumes inv: "code_inv cd" and full: "cd_pages cd = [] \<or> cd_offset cd = 256"
  shows "(\<exists>t. code_push c cd = (Ok (), t) \<and> code_inv t \<and> code_words t = code_words cd @ [c])
    \<or> (\<exists>e t. code_push c cd = (Err e, t) \<and> code_inv t \<and> code_words t = code_words cd)"
proof -
  have cond: "cd_offset cd = 0 \<and> cd_pages cd = [] \<or> 256 \<le> cd_offset cd"
    using inv full by (auto simp: code_inv_def)
  have all: "code_words cd = flat cd"
  proof (cases "cd_pages cd = []")
    case True
    then show ?thesis by (simp add: code_words_def flat_def)
  next
    case False
    then obtain k where "length (cd_pages cd) = Suc k" by (cases "cd_pages cd") auto
    with False full length_flat [OF inv] show ?thesis by (simp add: code_words_def word_count_def)
  qed
  show ?thesis
  proof (rule add_page_cases [of cd])
    fix al
    define cd1 where "cd1 = cd\<lparr>cd_alloc := al, cd_pages := cd_pages cd @ [replicate 256 0], cd_offset := 0\<rparr>"
    assume ok: "add_page cd = (Ok (), cd\<lparr>cd_alloc := al, cd_pages := cd_pages cd @ [replicate 256 0], cd_offset := 0\<rparr>)"
      and room: "length (cd_pages cd) < max_code_pages (cd_options cd)"
    have f: "cd_pages cd1 = cd_pages cd @ [replicate 256 0]" "cd_offset cd1 = 0" "cd_options cd1 = cd_options cd"
      "flat cd1 = flat cd @ replicate 256 0"
      by (simp_all add: cd1_def flat_def)
    have run: "code_push c cd = (Ok (), (set_word (length (cd_pages cd1) - 1) (cd_offset cd1) c cd1)
        \<lparr>cd_offset := cd_offset cd1 + 1\<rparr>)"
      using cond ok f(1,2) by (auto simp: code_push_def run_defs cd1_def [symmetric])
    have "take (256 * (length (cd_pages cd1) - 1) + cd_offset cd1) (flat cd1) = code_words cd"
      using length_flat [OF inv] by (simp add: f all)
    then show ?thesis
      using run write_next [of cd1 c] inv room f by (auto simp: code_inv_def)
  next
    fix e al assume "add_page cd = (Err e, cd\<lparr>cd_alloc := al\<rparr>)"
    then have "code_push c cd = (Err e, cd\<lparr>cd_alloc := al\<rparr>)"
      using cond by (auto simp: code_push_def run_defs)
    then show ?thesis using code_inv_alloc [OF inv] code_words_alloc by blast
  qed
qed

lemma code_push_cases:
  assumes "code_inv cd"
  shows "(\<exists>t. code_push c cd = (Ok (), t) \<and> code_inv t \<and> code_words t = code_words cd @ [c])
    \<or> (\<exists>e t. code_push c cd = (Err e, t) \<and> code_inv t \<and> code_words t = code_words cd)"
proof (cases "cd_pages cd = [] \<or> cd_offset cd = 256")
  case True
  then show ?thesis by (rule code_push_new_page [OF assms])
next
  case False
  then show ?thesis using code_push_room [OF assms, of c] assms by (auto simp: code_inv_def)
qed

interpretation cd: word_buffer code_inv code_words code_push
proof unfold_locales
  fix s c u t assume "code_inv s" "code_push c s = (Ok u, t)"
  then show "code_inv t \<and> code_words t = code_words s @ [c]" using code_push_cases [of s c] by auto
next
  fix s c e t assume "code_inv s" "code_push c s = (Err e, t)"
  then show "code_inv t \<and> code_words t = code_words s" using code_push_cases [of s c] by auto
next
  fix s c assume "code_inv s"
  then show "fst (code_push c s) \<noteq> Panic" using code_push_cases [of s c] by auto
qed

lemma word_count_bound: "code_inv cd \<Longrightarrow> word_count cd < 2 ^ 32"
proof -
  assume inv: "code_inv cd"
  then have "length (cd_pages cd) < 2 ^ 24"
    by (simp add: code_inv_def MAX_ADDRESSABLE_CODE_PAGES_def)
  with word_count_le [OF inv] length_flat [OF inv] show ?thesis by simp
qed

text \<open>The program counter is the number of words written; the assertions of \<open>pc\<close> hold.\<close>

lemma code_pc_eq:
  assumes inv: "code_inv cd"
  shows "code_pc cd = (Ok (JumpTarget (word_of_nat (word_count cd))), cd)"
proof -
  have join: "push_bit 8 (word_of_nat p) OR word_of_nat off = (word_of_nat (256 * p + off) :: u32)"
    if "off < 256" "256 * p + off < 2 ^ 32" for p off
  proof -
    have "unat (word_of_nat off OR push_bit 8 (word_of_nat p) :: u32) = off + p * 256"
      using unat_or_push_bit [of "word_of_nat off :: u32" 8 "word_of_nat p"] that
      by (simp add: unat_of_nat)
    also have "\<dots> = unat (word_of_nat (256 * p + off) :: u32)"
      by (rule trans [OF _ unat_of_nat [symmetric]]) (use that in simp)
    finally show ?thesis by (simp only: word_unat_eq_iff or.commute)
  qed
  have n: "length (cd_pages cd) < 2 ^ 24" "cd_offset cd \<le> 256"
    using inv by (simp_all add: code_inv_def MAX_ADDRESSABLE_CODE_PAGES_def)
  show ?thesis
  proof (cases "cd_pages cd = []")
    case True
    then show ?thesis
      using inv by (simp add: code_pc_def run_defs code_inv_def MAX_ADDRESSABLE_CODE_PAGES_def word_count_def)
  next
    case False
    then obtain k where k: "length (cd_pages cd) = Suc k" by (cases "cd_pages cd") auto
    show ?thesis
    proof (cases "cd_offset cd = 256")
      case True
      with False k n join [of 0 "Suc k"] show ?thesis
        by (simp add: code_pc_def run_defs MAX_ADDRESSABLE_CODE_PAGES_def word_count_def add.commute)
    next
      case False
      with \<open>cd_pages cd \<noteq> []\<close> k n join [of "cd_offset cd" k] show ?thesis
        by (simp add: code_pc_def run_defs MAX_ADDRESSABLE_CODE_PAGES_def word_count_def)
    qed
  qed
qed

text \<open>
  Claim C30. The paged code buffer is one growing array of words: pushing a list of words either
  appends exactly that list at the program counter, or fails (allocator, page table full) having
  appended a proper prefix of it; it never panics, never disturbs words already written, and the
  program counter stays the number of words written.
\<close>

theorem code_push_appends:
  assumes "code_inv cd"
  shows "case forM ws code_push cd of
      (Ok _, cd') \<Rightarrow> code_inv cd' \<and> code_words cd' = code_words cd @ ws \<and>
        (code_pc cd' :: (jump_target, alloc_error) result \<times> code_builder) =
          (Ok (JumpTarget (word_of_nat (length (code_words cd')))), cd')
    | (Err e, cd') \<Rightarrow> code_inv cd' \<and> (\<exists>k < length ws. code_words cd' = code_words cd @ take k ws)
    | (Panic, cd') \<Rightarrow> False"
proof -
  have pc: "(code_pc t :: (jump_target, alloc_error) result \<times> code_builder) =
      (Ok (JumpTarget (word_of_nat (length (code_words t)))), t)" if "code_inv t" for t
    using code_pc_eq [OF that] that by simp
  from cd.push_list [OF assms, of ws] show ?thesis
    using pc by (elim disjE exE conjE) (auto simp del: length_code_words)
qed

definition small_code :: code_builder where
  "small_code = \<lparr>cd_pages = [], cd_offset = 0,
     cd_options = \<lparr>allow_memory_grow = True, max_backpatch_iterations = None, max_code_pages = 4\<rparr>,
     cd_alloc = []\<rparr>"

lemma small_code_facts: "code_inv small_code" "code_words small_code = []" "word_count small_code = 0"
  by (simp_all add: small_code_def code_inv_def MAX_ADDRESSABLE_CODE_PAGES_def code_words_def word_count_def)

lemma code_push_appends_witness:
  "case forM [7, 8, 9] code_push small_code of (Ok _, cd') \<Rightarrow> code_words cd' = [7, 8, 9] | _ \<Rightarrow> False"
proof -
  have ok: "fst (forM [7, 8, 9] code_push small_code) = Ok ()"
    by (simp add: code_push_def add_page_def run_defs set_word_def small_code_def)
  from code_push_appends [OF small_code_facts(1), of "[7, 8, 9]"] show ?thesis
    using ok small_code_facts(2) by (cases "forM [7, 8, 9] code_push small_code") (simp del: forM.simps)
qed

end
