(* ===== verification/Backpatch.thy ===== *)
theory Backpatch
  imports Code_Builder
begin

text \<open>
  The two users of the backpatch loop of src/text.rs, the closures of \<open>pop_control\<close> and of
  \<open>pop_control_and_patch_if\<close>, and their correctness. The pending forward jumps of a block form a
  linked list threaded through the code: each label holds the distance to the label emitted before
  it, the oldest holds the sentinel. \<open>chain ws t as\<close> says that the list starting at \<open>t\<close> in the words
  \<open>ws\<close> visits the addresses \<open>as\<close>, newest first.
\<close>

section \<open>The closures\<close>

definition patch_label :: "jump_target \<Rightarrow> jump_target \<Rightarrow> label_target \<Rightarrow> (code_builder, unit, validation_error) m" where
  "patch_label pc address label =
     bindM (liftR (jump_offset_new address pc)) (\<lambda>d.
     code_write_32 address (lt_bits (with_jump label d)))"

text \<open>\<open>pop_control\<close>: every label of the chain is sent to \<open>pc\<close>.\<close>

definition patch_all_closure :: "jump_target \<Rightarrow> unit patch" where
  "patch_all_closure pc address label = onCode (patch_label pc address label)"

text \<open>
  \<open>pop_control_and_patch_if\<close>: only the tail, the false branch of the \<open>if\<close>, is sent to \<open>pc\<close>, and the
  label before it becomes the new tail. The closure's variables are \<open>prev\<close> and \<open>remaining_chain\<close>.
\<close>

definition patch_if_closure :: "jump_target \<Rightarrow> jump_target \<Rightarrow> (jump_target \<times> jump_target) patch" where
  "patch_if_closure head pc address label =
     (if is_sentinel label then
        thenM (onCode (patch_label pc address label))
        (bindM (getM (\<lambda>(cd, prev, rest). prev)) (\<lambda>prev.
         if prev \<noteq> SENTINEL then
           bindM (onCode (code_read_32 prev)) (\<lambda>w.
           thenM (onCode (code_write_32 prev (lt_bits (with_jump (LabelTarget w) jump_sentinel))))
           (modifyM (\<lambda>(cd, prev, rest). (cd, prev, head))))
         else retM ()))
      else modifyM (\<lambda>(cd, prev, rest). (cd, address, rest)))"

section \<open>Labels in the code\<close>

definition label_at :: "u16 list \<Rightarrow> nat \<Rightarrow> label_target" where
  "label_at ws a = LabelTarget (ucast (ws ! a) OR push_bit 16 (ucast (ws ! Suc a)))"

definition put_label :: "u16 list \<Rightarrow> nat \<Rightarrow> label_target \<Rightarrow> u16 list" where
  "put_label ws a l = ws[a := ucast (lt_bits l), Suc a := ucast (drop_bit 16 (lt_bits l))]"

lemma length_put_label [simp]: "length (put_label ws a l) = length ws"
  by (simp add: put_label_def)

lemma words_join: "(ucast (ucast w :: u16) :: u32) OR push_bit 16 (ucast (ucast (drop_bit 16 w) :: u16)) = w"
  by (rule bit_eqI) (auto simp: bit_simps)

lemma label_at_put: "Suc a < length ws \<Longrightarrow> label_at (put_label ws a l) a = l"
  by (simp add: label_at_def put_label_def words_join)

lemma label_at_put_other: "b + 2 \<le> a \<or> a + 2 \<le> b \<Longrightarrow> label_at (put_label ws a l) b = label_at ws b"
  by (auto simp: label_at_def put_label_def nth_list_update)

lemma nth_put_label: "i \<noteq> a \<Longrightarrow> i \<noteq> Suc a \<Longrightarrow> put_label ws a l ! i = ws ! i"
  by (simp add: put_label_def)

definition addr :: "nat \<Rightarrow> jump_target" where
  "addr a = JumpTarget (word_of_nat a)"

lemma unat_addr: "a < 2 ^ 32 \<Longrightarrow> unat (jt_addr (addr a)) = a"
  by (simp add: addr_def unat_of_nat)

lemma addr_succ: "Suc a < 2 ^ 32 \<Longrightarrow> unat (jt_addr (target_succ (addr a))) = Suc a"
proof -
  assume a: "Suc a < 2 ^ 32"
  have "target_succ (addr a) = addr (Suc a)" by (simp add: target_succ_def addr_def)
  with a show ?thesis by (simp only: unat_addr)
qed

lemma addr_not_sentinel: "Suc a < 2 ^ 32 \<Longrightarrow> addr a \<noteq> SENTINEL"
proof
  assume a: "Suc a < 2 ^ 32" and "addr a = SENTINEL"
  then have "unat (jt_addr (addr a)) = unat (jt_addr SENTINEL)" by simp
  with a show False by (simp add: unat_addr SENTINEL_def)
qed

section \<open>Reading and writing labels\<close>

text \<open>\<open>cd'\<close> is \<open>cd\<close> with other words: same size, same options.\<close>

definition rewritten :: "code_builder \<Rightarrow> u16 list \<Rightarrow> code_builder \<Rightarrow> bool" where
  "rewritten cd ws cd' \<longleftrightarrow> code_inv cd' \<and> code_words cd' = ws \<and> word_count cd' = word_count cd \<and>
     cd_options cd' = cd_options cd"

lemma code_read_word:
  assumes "code_inv cd" "a < word_count cd" "unat (jt_addr t) = a"
  shows "code_read t cd = (Ok (code_words cd ! a), cd)"
proof -
  have "a < length (flat cd)" using assms(2) word_count_le [OF assms(1)] by simp
  then show ?thesis unfolding code_read_eq [OF assms(1)] assms(3) code_words_def using assms(2) by simp
qed

lemma code_write_word:
  assumes inv: "code_inv cd" and a: "a < word_count cd" "unat (jt_addr t) = a"
  shows "\<exists>cd'. code_write t v cd = (Ok (), cd') \<and> rewritten cd ((code_words cd)[a := v]) cd'"
proof -
  have lt: "a < length (flat cd)" using a word_count_le [OF inv] by simp
  have p: "target_page t < length (cd_pages cd)" "target_offset t < 256"
    using target_page_iff [of "cd_pages cd" t] target_page_offset(4) [of t] lt a(2) length_flat [OF inv]
    by auto
  note s = set_word_facts [OF inv p, of v]
  have "256 * target_page t + target_offset t = a" using target_page_offset(3) [of t] a(2) by simp
  then have "code_words (set_word (target_page t) (target_offset t) v cd) = (code_words cd)[a := v]"
    using s(2,3) by (simp add: code_words_def take_update_swap)
  then show ?thesis using lt a(2) s by (auto simp: code_write_eq [OF inv] rewritten_def)
qed

lemma code_read_label:
  assumes inv: "code_inv cd" and a: "Suc a < word_count cd"
  shows "code_read_32 (addr a) cd = (Ok (lt_bits (label_at (code_words cd) a)), cd)"
proof -
  have lt: "Suc a < 2 ^ 32" using a word_count_bound [OF inv] by simp
  show ?thesis
    using code_read_word [OF inv, of a "addr a"] code_read_word [OF inv a addr_succ [OF lt]] a lt unat_addr [of a]
    by (simp add: code_read_32_def bindM_def retM_def label_at_def)
qed

lemma code_write_label:
  assumes inv: "code_inv cd" and a: "Suc a < word_count cd"
  shows "\<exists>cd'. code_write_32 (addr a) (lt_bits l) cd = (Ok (), cd') \<and> rewritten cd (put_label (code_words cd) a l) cd'"
proof -
  have lt: "Suc a < 2 ^ 32" using a word_count_bound [OF inv] by simp
  obtain cd1 where cd1: "code_write (addr a) (ucast (lt_bits l)) cd = (Ok (), cd1)"
    "rewritten cd ((code_words cd)[a := ucast (lt_bits l)]) cd1"
    using code_write_word [OF inv, of a "addr a"] a lt unat_addr [of a] by auto
  then have inv1: "code_inv cd1" "Suc a < word_count cd1" using a by (simp_all add: rewritten_def)
  obtain cd2 where "code_write (target_succ (addr a)) (ucast (drop_bit 16 (lt_bits l))) cd1 = (Ok (), cd2)"
    "rewritten cd1 ((code_words cd1)[Suc a := ucast (drop_bit 16 (lt_bits l))]) cd2"
    using code_write_word [OF inv1 addr_succ [OF lt]] by auto
  with cd1 show ?thesis
    by (auto simp: code_write_32_def thenM_def bindM_def rewritten_def put_label_def)
qed

lemma rewritten_trans: "rewritten cd ws cd1 \<Longrightarrow> rewritten cd1 ws' cd2 \<Longrightarrow> rewritten cd ws' cd2"
  by (simp add: rewritten_def)

section \<open>Chains\<close>

fun chain :: "u16 list \<Rightarrow> jump_target \<Rightarrow> nat list \<Rightarrow> bool" where
  "chain ws t [] \<longleftrightarrow> t = SENTINEL"
| "chain ws t (a # as) \<longleftrightarrow> t = addr a \<and> Suc a < length ws \<and>
     (if as = [] then is_sentinel (label_at ws a)
      else \<not> is_sentinel (label_at ws a) \<and> chain ws (target_add t (label_jump (label_at ws a))) as)"

text \<open>Newest first, and the two-word labels do not overlap.\<close>

abbreviation apart :: "nat list \<Rightarrow> bool" where
  "apart as \<equiv> sorted_wrt (\<lambda>a b. b + 2 \<le> a) as"

lemma chain_cong:
  "length ws = length ws' \<Longrightarrow> (\<And>a. a \<in> set as \<Longrightarrow> label_at ws a = label_at ws' a) \<Longrightarrow> chain ws t as = chain ws' t as"
  by (induction as arbitrary: t) auto

lemma chain_put_other:
  "(\<And>b. b \<in> set as \<Longrightarrow> b + 2 \<le> a \<or> a + 2 \<le> b) \<Longrightarrow> chain (put_label ws a l) t as = chain ws t as"
  by (rule chain_cong) (auto simp: label_at_put_other)

text \<open>The words after every label of a list has been sent to \<open>pc\<close>.\<close>

fun patched :: "nat \<Rightarrow> u16 list \<Rightarrow> nat list \<Rightarrow> u16 list" where
  "patched pc ws [] = ws"
| "patched pc ws (a # as) =
     patched pc (put_label ws a (with_jump (label_at ws a) (JumpOffset (word_of_nat pc - word_of_nat a)))) as"

lemma length_patched [simp]: "length (patched pc ws as) = length ws"
  by (induction as arbitrary: ws) auto

lemma nth_patched: "(\<And>a. a \<in> set as \<Longrightarrow> i \<noteq> a \<and> i \<noteq> Suc a) \<Longrightarrow> patched pc ws as ! i = ws ! i"
  by (induction as arbitrary: ws) (auto simp: nth_put_label)

lemma label_at_patched_other:
  "(\<And>a. a \<in> set as \<Longrightarrow> b + 2 \<le> a \<or> a + 2 \<le> b) \<Longrightarrow> label_at (patched pc ws as) b = label_at ws b"
  by (induction as arbitrary: ws) (auto simp: label_at_put_other)

lemma label_at_patched:
  assumes "apart as" "\<forall>a\<in>set as. Suc a < length ws" "a \<in> set as"
  shows "label_at (patched pc ws as) a = with_jump (label_at ws a) (JumpOffset (word_of_nat pc - word_of_nat a))"
  using assms
proof (induction as arbitrary: ws)
  case (Cons b as)
  show ?case
  proof (cases "a = b")
    case True
    then have "label_at (patched pc (put_label ws b l) as) a = label_at (put_label ws b l) b" for l
      using Cons.prems(1) by (subst label_at_patched_other) auto
    then show ?thesis using True Cons.prems by (simp add: label_at_put)
  next
    case False
    then have "a \<in> set as" using Cons.prems(3) by simp
    with Cons.prems False show ?thesis by (simp add: Cons.IH label_at_put_other)
  qed
qed simp

section \<open>Backpatching a whole chain\<close>

definition jump_fits :: "nat \<Rightarrow> nat \<Rightarrow> bool" where
  "jump_fits a pc \<longleftrightarrow> fits22 (JumpOffset (word_of_nat pc - word_of_nat a))"

lemma jump_offset_new_addr:
  assumes "Suc pc < 2 ^ 32"
  shows "jump_offset_new (addr a) (addr pc) = (if jump_fits a pc
    then Ok (JumpOffset (word_of_nat pc - word_of_nat a)) else Err LabelJumpTooLarge)"
proof -
  have "32 - 22 = (10 :: nat)" by simp
  then show ?thesis
    unfolding jump_offset_new_def jump_fits_def fits22_def Let_def
    using addr_not_sentinel [OF assms] by (simp add: addr_def)
qed

lemma patch_label_run:
  assumes inv: "code_inv cd" and a: "Suc a < word_count cd" and pc: "Suc pc < 2 ^ 32"
  obtains (patched) cd' where "jump_fits a pc" "patch_label (addr pc) (addr a) l cd = (Ok (), cd')"
      "rewritten cd (put_label (code_words cd) a (with_jump l (JumpOffset (word_of_nat pc - word_of_nat a)))) cd'"
  | (too_far) "\<not> jump_fits a pc" "patch_label (addr pc) (addr a) l cd = (Err LabelJumpTooLarge, cd)"
proof (cases "jump_fits a pc")
  case True
  then show thesis
    using patched code_write_label [OF inv a, of "with_jump l (JumpOffset (word_of_nat pc - word_of_nat a))"]
    by (auto simp: patch_label_def jump_offset_new_addr [OF pc] run_defs)
next
  case False
  then show thesis using too_far by (simp add: patch_label_def jump_offset_new_addr [OF pc] run_defs)
qed

text \<open>The counter does not wrap: a chain is shorter than the code.\<close>

lemma count_step:
  fixes n mx :: u32
  assumes "unat n + k < 2 ^ 32" "0 < k"
  shows "unat (n + 1) = Suc (unat n)" "mx < n + 1 \<longleftrightarrow> unat mx < Suc (unat n)"
proof -
  show "unat (n + 1) = Suc (unat n)" using assms by (simp add: unat_word_ariths)
  then show "mx < n + 1 \<longleftrightarrow> unat mx < Suc (unat n)" by (simp add: word_less_nat_alt)
qed

lemma apart_length: "apart as \<Longrightarrow> (\<And>a. a \<in> set as \<Longrightarrow> a < N) \<Longrightarrow> length as \<le> N"
proof -
  assume "apart as" and N: "\<And>a. a \<in> set as \<Longrightarrow> a < N"
  then have "distinct as" by (induction as) auto
  moreover have "set as \<subseteq> {..<N}" using N by auto
  ultimately show ?thesis by (metis card_lessThan card_mono distinct_card finite_lessThan)
qed

lemma backpatch_loop_all:
  assumes "code_inv cd" "chain (code_words cd) t as" "as \<noteq> []" "apart as" "Suc pc < 2 ^ 32" "unat n + length as < 2 ^ 32"
  shows "\<exists>r cd'. backpatch_loop (patch_all_closure (addr pc)) t n (cd, ()) = Some (r, (cd', ())) \<and> code_inv cd' \<and>
    (case r of
       Ok _ \<Rightarrow> rewritten cd (patched pc (code_words cd) as) cd' \<and> (\<forall>a\<in>set as. jump_fits a pc)
     | Err e \<Rightarrow> e = LabelJumpTooLarge \<and> (\<exists>a\<in>set as. \<not> jump_fits a pc) \<or>
         e = PossibleBackpatchCycle \<and>
           (\<exists>mx. max_backpatch_iterations (cd_options cd) = Some mx \<and> Suc (unat mx) < unat n + length as)
     | Panic \<Rightarrow> False)"
  using assms
proof (induction as arbitrary: cd t n)
  case (Cons a as)
  define l where "l = label_at (code_words cd) a"
  have t: "t = addr a" and a: "Suc a < word_count cd"
    using Cons.prems(1,2) by simp_all
  have lbl: "LabelTarget (lt_bits l) = l" by (cases l) simp
  have read: "code_read_32 (addr a) cd = (Ok (lt_bits l), cd)"
    using code_read_label [OF Cons.prems(1) a] by (simp add: l_def)
  from Cons.prems(1) a Cons.prems(5) show ?case
  proof (cases rule: patch_label_run [where l = l])
    case too_far
    then have "backpatch_step (patch_all_closure (addr pc)) t n (cd, ()) = (Err LabelJumpTooLarge, (cd, ()))"
      by (simp add: backpatch_step_def run_defs onCode_def read lbl patch_all_closure_def t Let_def)
    then show ?thesis using too_far Cons.prems(1) by (auto simp: backpatch_loop.simps)
  next
    case (patched cd')
    then have inv': "code_inv cd'" and words': "code_words cd' =
        put_label (code_words cd) a (with_jump l (JumpOffset (word_of_nat pc - word_of_nat a)))"
      and opts': "cd_options cd' = cd_options cd"
      by (simp_all add: rewritten_def)
    have step: "backpatch_step (patch_all_closure (addr pc)) t n (cd, ()) =
      (if is_sentinel l then retM None
       else (case max_backpatch_iterations (cd_options cd) of
          Some mx \<Rightarrow> if mx < n + 1 then errM PossibleBackpatchCycle
            else retM (Some (target_add t (label_jump l)))
        | None \<Rightarrow> retM (Some (target_add t (label_jump l))))) (cd', ())"
      using patched(2)
      by (auto simp: backpatch_step_def run_defs onCode_def read lbl patch_all_closure_def t Let_def opts'
          split: option.split)
    show ?thesis
    proof (cases "as = []")
      case True
      then have "is_sentinel l" using Cons.prems(2) by (simp add: l_def)
      then show ?thesis
        using True step patched(1,3) inv' by (simp add: backpatch_loop.simps retM_def l_def rewritten_def)
    next
      case False
      then have ns: "\<not> is_sentinel l" and rest: "chain (code_words cd) (target_add t (label_jump l)) as"
        using Cons.prems(2) by (auto simp: l_def)
      have rest': "chain (code_words cd') (target_add t (label_jump l)) as"
        using rest Cons.prems(4) by (simp add: words' chain_put_other)
      have ap: "apart as" using Cons.prems(4) by simp
      show ?thesis
      proof (cases "\<exists>mx. max_backpatch_iterations (cd_options cd) = Some mx \<and> mx < n + 1")
        case True
        have "1 \<le> length as" using False by (cases as) auto
        with True step ns inv' count_step(2) [OF Cons.prems(6)] show ?thesis by (auto simp: backpatch_loop.simps errM_def)
      next
        case no_limit: False
        then have "backpatch_loop (patch_all_closure (addr pc)) t n (cd, ()) =
            backpatch_loop (patch_all_closure (addr pc)) (target_add t (label_jump l)) (n + 1) (cd', ())"
          using step ns
          by (cases "max_backpatch_iterations (cd_options cd)")
            (simp_all add: backpatch_loop.simps [of _ t] retM_def)
        moreover have n: "unat (n + 1) = Suc (unat n)" using count_step(1) [OF Cons.prems(6)] by simp
        moreover have "unat (n + 1) + length as < 2 ^ 32" using Cons.prems(6) n by simp
        note Cons.IH [OF inv' rest' False ap Cons.prems(5) this]
        ultimately show ?thesis
          by (auto simp: opts' words' l_def rewritten_def patched(1) split: result.splits)
            (use patched in \<open>auto simp: rewritten_def\<close>)
      qed
    qed
  qed
qed simp

lemma chain_nonempty: "chain ws t as \<Longrightarrow> t \<noteq> SENTINEL \<Longrightarrow> as \<noteq> []"
  by auto

lemma chain_bounds: "chain ws t as \<Longrightarrow> a \<in> set as \<Longrightarrow> Suc a < length ws"
  by (induction as arbitrary: t) (auto split: if_splits)

lemma word_count_room: "code_inv cd \<Longrightarrow> Suc (word_count cd) < 2 ^ 32"
proof -
  assume inv: "code_inv cd"
  then have "length (cd_pages cd) < 2 ^ 24"
    by (simp add: code_inv_def MAX_ADDRESSABLE_CODE_PAGES_def)
  with word_count_le [OF inv] length_flat [OF inv] show ?thesis by simp
qed

lemma chain_length: "code_inv cd \<Longrightarrow> chain (code_words cd) t as \<Longrightarrow> apart as \<Longrightarrow> length as < 2 ^ 32"
proof -
  assume inv: "code_inv cd" and chain: "chain (code_words cd) t as" and "apart as"
  then have "length as \<le> word_count cd" using chain_bounds [OF chain] by (intro apart_length) (auto dest: Suc_lessD)
  then show ?thesis using word_count_room [OF inv] by simp
qed

lemma addr_eq_iff: "a < 2 ^ 32 \<Longrightarrow> b < 2 ^ 32 \<Longrightarrow> addr a = addr b \<longleftrightarrow> a = b"
  using unat_addr by metis

text \<open>A label sent to a later address jumps there, and is no sentinel.\<close>

lemma sent_label:
  fixes l :: label_target
  assumes "jump_fits a pc" "a < pc" "pc < 2 ^ 32"
  defines "l' \<equiv> with_jump l (JumpOffset (word_of_nat pc - word_of_nat a))"
  shows "target_add (addr a) (label_jump l') = addr pc" "\<not> is_sentinel l'"
    "depth_of l' = depth_of l" "arity_of l' = arity_of l"
proof -
  have j: "label_jump l' = JumpOffset (word_of_nat pc - word_of_nat a)"
    using assms(1) by (simp add: l'_def jump_fits_def label_jump_with)
  then show t: "target_add (addr a) (label_jump l') = addr pc" by (simp add: target_add_def addr_def)
  show "\<not> is_sentinel l'"
  proof
    assume "is_sentinel l'"
    then have "addr pc = addr a" using t by (simp add: is_sentinel_def target_add_def addr_def)
    with addr_eq_iff [of pc a] assms(2,3) show False by simp
  qed
  show "depth_of l' = depth_of l" "arity_of l' = arity_of l"
    by (simp_all add: l'_def depth_of_with arity_of_with)
qed

lemma backpatch_all_spec:
  assumes inv: "code_inv cd" and chain: "chain (code_words cd) start as" and apart: "apart as"
  shows "case backpatch start (patch_all_closure (addr (word_count cd))) (cd, ()) of
      (Ok _, (cd', _)) \<Rightarrow> code_inv cd' \<and> word_count cd' = word_count cd \<and>
        (\<forall>a\<in>set as. let l = label_at (code_words cd') a; l0 = label_at (code_words cd) a in
           target_add (addr a) (label_jump l) = addr (word_count cd) \<and> \<not> is_sentinel l \<and>
           depth_of l = depth_of l0 \<and> arity_of l = arity_of l0) \<and>
        (\<forall>i. (\<forall>a\<in>set as. i \<noteq> a \<and> i \<noteq> Suc a) \<longrightarrow> code_words cd' ! i = code_words cd ! i)
    | (Err e, (cd', _)) \<Rightarrow> code_inv cd' \<and>
        (e = LabelJumpTooLarge \<and> (\<exists>a\<in>set as. \<not> jump_fits a (word_count cd)) \<or>
         e = PossibleBackpatchCycle \<and>
           (\<exists>mx. max_backpatch_iterations (cd_options cd) = Some mx \<and> Suc (unat mx) < length as))
    | (Panic, _) \<Rightarrow> False"
proof (cases "start = SENTINEL")
  case True
  then have "as = []"
  proof (cases as)
    case (Cons a rest)
    then have "addr a = SENTINEL" "Suc a < 2 ^ 32"
      using True chain inv word_count_bound [OF inv] by auto
    then show ?thesis using addr_not_sentinel by blast
  qed simp
  with True inv show ?thesis by (simp add: backpatch_def)
next
  case False
  let ?pc = "word_count cd"
  note room = word_count_room [OF inv]
  obtain r cd' where run: "backpatch start (patch_all_closure (addr ?pc)) (cd, ()) = (r, (cd', ()))" "code_inv cd'"
    and res: "case r of
       Ok _ \<Rightarrow> rewritten cd (patched ?pc (code_words cd) as) cd' \<and> (\<forall>a\<in>set as. jump_fits a ?pc)
     | Err e \<Rightarrow> e = LabelJumpTooLarge \<and> (\<exists>a\<in>set as. \<not> jump_fits a ?pc) \<or>
         e = PossibleBackpatchCycle \<and>
           (\<exists>mx. max_backpatch_iterations (cd_options cd) = Some mx \<and> Suc (unat mx) < unat (0 :: u32) + length as)
     | Panic \<Rightarrow> False"
    using backpatch_loop_all [OF inv chain chain_nonempty [OF chain False] apart room, of 0] chain_length [OF inv chain apart] False
    by (auto simp: backpatch_def)
  show ?thesis
  proof (cases r)
    case (Ok u)
    have bounds: "Suc a < length (code_words cd)" if "a \<in> set as" for a
      using chain_bounds [OF chain that] .
    have words: "code_words cd' = patched ?pc (code_words cd) as" using res Ok by (simp add: rewritten_def)
    have fits: "jump_fits a ?pc" if "a \<in> set as" for a
      using res Ok that by simp
    have sent: "let l = label_at (code_words cd') a; l0 = label_at (code_words cd) a in
        target_add (addr a) (label_jump l) = addr ?pc \<and> \<not> is_sentinel l \<and>
        depth_of l = depth_of l0 \<and> arity_of l = arity_of l0" if a: "a \<in> set as" for a
    proof -
      have "a < ?pc" "?pc < 2 ^ 32" using bounds [OF a] inv room by auto
      from sent_label [OF fits [OF a] this, of "label_at (code_words cd) a"] show ?thesis
        using label_at_patched [OF apart _ a, of "code_words cd" ?pc] bounds by (simp add: words Let_def)
    qed
    have "code_words cd' ! i = code_words cd ! i" if "\<forall>a\<in>set as. i \<noteq> a \<and> i \<noteq> Suc a" for i
      unfolding words using that by (intro nth_patched) auto
    with sent show ?thesis
      using run res Ok by (simp add: rewritten_def)
  next
    case (Err e)
    then show ?thesis using run res by simp
  next
    case Panic
    then show ?thesis using run res by simp
  qed
qed


definition chain_code :: code_builder where
  "chain_code = \<lparr>cd_pages = [[0, 0, 0xFFFE, 0x3F] @ replicate 252 0], cd_offset = 4,
     cd_options = \<lparr>allow_memory_grow = True, max_backpatch_iterations = Some 9, max_code_pages = 4\<rparr>,
     cd_alloc = []\<rparr>"

lemma chain_code_facts:
  "code_inv chain_code" "word_count chain_code = 4" "code_words chain_code = [0, 0, 0xFFFE, 0x3F]"
  "chain (code_words chain_code) (addr 2) [2, 0]" "jump_fits 2 4" "jump_fits 0 4"
proof -
  show words: "code_words chain_code = [0, 0, 0xFFFE, 0x3F]"
    by (simp add: chain_code_def code_words_def word_count_def flat_def)
  have l: "label_at [0, 0, 0xFFFE, 0x3F] 2 = LabelTarget 0x3FFFFE" "label_at [0, 0, 0xFFFE, 0x3F] 0 = LabelTarget 0"
    by (simp_all add: label_at_def)
  show "chain (code_words chain_code) (addr 2) [2, 0]"
    by (simp add: words l is_sentinel_def label_jump_def Let_def addr_def target_add_def)
qed (simp_all add: chain_code_def code_inv_def word_count_def MAX_ADDRESSABLE_CODE_PAGES_def jump_fits_def fits22_def)


section \<open>Detaching the false branch of an if\<close>

text \<open>The words once the tail \<open>z\<close> is sent to \<open>pc\<close> and the label before it, if any, is the new tail.\<close>

definition detached :: "nat \<Rightarrow> u16 list \<Rightarrow> nat option \<Rightarrow> nat \<Rightarrow> u16 list" where
  "detached pc ws before z =
     (let ws1 = put_label ws z (with_jump (label_at ws z) (JumpOffset (word_of_nat pc - word_of_nat z))) in
      case before of None \<Rightarrow> ws1
      | Some p \<Rightarrow> put_label ws1 p (with_jump (label_at ws1 p) jump_sentinel))"

definition prev_of :: "nat option \<Rightarrow> jump_target" where
  "prev_of before = (case before of None \<Rightarrow> SENTINEL | Some p \<Rightarrow> addr p)"

text \<open>The last element of a list, or what precedes the list.\<close>

fun last_or :: "nat option \<Rightarrow> nat list \<Rightarrow> nat option" where
  "last_or before [] = before"
| "last_or before (a # as) = last_or (Some a) as"

lemma last_or_mem: "last_or before as = Some p \<Longrightarrow> before = Some p \<or> p \<in> set as"
  by (induction as arbitrary: before) auto

lemma patch_if_tail:
  assumes inv: "code_inv cd" and z: "Suc z < word_count cd" and before: "\<forall>p. before = Some p \<longrightarrow> Suc p < word_count cd"
    and pc: "Suc pc < 2 ^ 32" and tail: "is_sentinel (label_at (code_words cd) z)"
  shows "(\<exists>cd'. jump_fits z pc \<and> rewritten cd (detached pc (code_words cd) before z) cd' \<and>
      patch_if_closure head (addr pc) (addr z) (label_at (code_words cd) z) (cd, (prev_of before, rest)) =
        (Ok (), (cd', (prev_of before, if before = None then rest else head))))
    \<or> (\<not> jump_fits z pc \<and>
      patch_if_closure head (addr pc) (addr z) (label_at (code_words cd) z) (cd, (prev_of before, rest)) =
        (Err LabelJumpTooLarge, (cd, (prev_of before, rest))))"
  using inv z pc
proof (cases rule: patch_label_run [where l = "label_at (code_words cd) z"])
  case too_far
  then show ?thesis using tail by (simp add: patch_if_closure_def run_defs onCode_def)
next
  case (patched cd1)
  then have inv1: "code_inv cd1" and wc1: "word_count cd1 = word_count cd" by (simp_all add: rewritten_def)
  show ?thesis
  proof (cases before)
    case None
    then have "patch_if_closure head (addr pc) (addr z) (label_at (code_words cd) z) (cd, (prev_of before, rest)) =
        (Ok (), (cd1, (prev_of before, rest)))"
      using patched(2) tail by (simp add: patch_if_closure_def run_defs onCode_def prev_of_def)
    then show ?thesis using patched(1,3) None by (auto simp: detached_def Let_def)
  next
    case (Some p)
    then have p: "Suc p < word_count cd1" using before wc1 by simp
    have np: "addr p \<noteq> SENTINEL" using addr_not_sentinel p word_count_bound [OF inv1] by auto
    obtain cd2 where cd2: "code_write_32 (addr p) (lt_bits (with_jump (label_at (code_words cd1) p) jump_sentinel)) cd1
        = (Ok (), cd2)"
      "rewritten cd1 (put_label (code_words cd1) p (with_jump (label_at (code_words cd1) p) jump_sentinel)) cd2"
      using code_write_label [OF inv1 p] by blast
    have lbl: "LabelTarget (lt_bits l) = l" for l by (cases l) simp
    have "patch_if_closure head (addr pc) (addr z) (label_at (code_words cd) z) (cd, (prev_of before, rest)) =
        (Ok (), (cd2, (prev_of before, head)))"
      using patched(2) tail cd2(1) code_read_label [OF inv1 p] np Some lbl
      by (simp add: patch_if_closure_def run_defs onCode_def prev_of_def)
    moreover have "rewritten cd (detached pc (code_words cd) before z) cd2"
      using patched(3) cd2(2) Some by (simp add: detached_def Let_def rewritten_def)
    ultimately show ?thesis using patched(1) Some by auto
  qed
qed

lemma backpatch_loop_if:
  assumes "code_inv cd" "chain (code_words cd) t (as @ [z])" "apart (as @ [z])" "Suc pc < 2 ^ 32"
    and "\<forall>p. before = Some p \<longrightarrow> Suc p < word_count cd" "unat n + length as < 2 ^ 32"
  shows "\<exists>r cd' pr rs. backpatch_loop (patch_if_closure head (addr pc)) t n (cd, (prev_of before, rest)) =
      Some (r, (cd', (pr, rs))) \<and> code_inv cd' \<and>
    (case r of
       Ok _ \<Rightarrow> jump_fits z pc \<and> rewritten cd (detached pc (code_words cd) (last_or before as) z) cd' \<and>
         rs = (if last_or before as = None then rest else head)
     | Err e \<Rightarrow> e = LabelJumpTooLarge \<and> \<not> jump_fits z pc \<or>
         e = PossibleBackpatchCycle \<and>
           (\<exists>mx. max_backpatch_iterations (cd_options cd) = Some mx \<and> unat mx < unat n + length as)
     | Panic \<Rightarrow> False)"
  using assms
proof (induction as arbitrary: t n before)
  case Nil
  define l where "l = label_at (code_words cd) z"
  have t: "t = addr z" and z: "Suc z < word_count cd" and tail: "is_sentinel l"
    using Nil.prems(1,2) by (simp_all add: l_def)
  have lbl: "LabelTarget (lt_bits l) = l" by (cases l) simp
  have read: "code_read_32 (addr z) cd = (Ok (lt_bits l), cd)"
    using code_read_label [OF Nil.prems(1) z] by (simp add: l_def)
  from patch_if_tail [where before = before and head = head and rest = rest,
      OF Nil.prems(1) z Nil.prems(5) Nil.prems(4) tail [unfolded l_def]]
  show ?case
  proof (elim disjE exE conjE, goal_cases)
    case (1 cd')
    then have "backpatch_step (patch_if_closure head (addr pc)) t n (cd, (prev_of before, rest)) =
        (Ok None, (cd', (prev_of before, if before = None then rest else head)))"
      using tail by (simp add: backpatch_step_def run_defs onCode_def read lbl t Let_def l_def [symmetric])
    with 1 show ?case by (simp add: backpatch_loop.simps rewritten_def)
  next
    case 2
    then have "backpatch_step (patch_if_closure head (addr pc)) t n (cd, (prev_of before, rest)) =
        (Err LabelJumpTooLarge, (cd, (prev_of before, rest)))"
      using tail by (simp add: backpatch_step_def run_defs onCode_def read lbl t Let_def l_def [symmetric])
    with 2 Nil.prems(1) show ?case by (simp add: backpatch_loop.simps)
  qed
next
  case (Cons a as)
  define l where "l = label_at (code_words cd) a"
  have t: "t = addr a" and a: "Suc a < word_count cd" and ns: "\<not> is_sentinel l"
    and rest: "chain (code_words cd) (target_add t (label_jump l)) (as @ [z])"
    using Cons.prems(1,2) by (auto simp: l_def)
  have lbl: "LabelTarget (lt_bits l) = l" by (cases l) simp
  have read: "code_read_32 (addr a) cd = (Ok (lt_bits l), cd)"
    using code_read_label [OF Cons.prems(1) a] by (simp add: l_def)
  have step: "backpatch_step (patch_if_closure head (addr pc)) t n (cd, (prev_of before, rest)) =
      (case max_backpatch_iterations (cd_options cd) of
          Some mx \<Rightarrow> if mx < n + 1 then errM PossibleBackpatchCycle
            else retM (Some (target_add t (label_jump l)))
        | None \<Rightarrow> retM (Some (target_add t (label_jump l)))) (cd, (prev_of (Some a), rest))" for rest
    using ns by (auto simp: backpatch_step_def patch_if_closure_def run_defs onCode_def read lbl t Let_def
        prev_of_def split: option.split)
  show ?case
  proof (cases "\<exists>mx. max_backpatch_iterations (cd_options cd) = Some mx \<and> mx < n + 1")
    case True
    with step Cons.prems(1) count_step(2) [OF Cons.prems(6)] show ?thesis by (auto simp: backpatch_loop.simps errM_def)
  next
    case False
    then have "backpatch_loop (patch_if_closure head (addr pc)) t n (cd, (prev_of before, rest)) =
        backpatch_loop (patch_if_closure head (addr pc)) (target_add t (label_jump l)) (n + 1)
          (cd, (prev_of (Some a), rest))"
      using step
      by (cases "max_backpatch_iterations (cd_options cd)") (simp_all add: backpatch_loop.simps [of _ t] retM_def)
    moreover have "apart (as @ [z])" using Cons.prems(3) by simp
    moreover have "\<forall>p. Some a = Some p \<longrightarrow> Suc p < word_count cd" using a by simp
    moreover have n: "unat (n + 1) + length as = unat n + length (a # as)" using count_step(1) [OF Cons.prems(6)] by simp
    moreover have "unat (n + 1) + length as < 2 ^ 32" using n Cons.prems(6) by simp
    ultimately show ?thesis
      using Cons.IH [OF Cons.prems(1) rest _ Cons.prems(4), of "Some a" "n + 1"]
      by (simp only: last_or.simps simp_thms)
  qed
qed

lemma sentinel_with: "is_sentinel (with_jump l jump_sentinel)"
  by (simp add: is_sentinel_def label_jump_with) (simp add: jump_sentinel_def)

lemma last_or_last: "as \<noteq> [] \<Longrightarrow> last_or before as = Some (last as)"
  by (induction as arbitrary: before) auto

text \<open>Cutting a chain after one of its labels.\<close>

lemma chain_cut:
  assumes "chain ws t (as @ z # zs)" "as \<noteq> []" "apart as"
  shows "chain (put_label ws (last as) (with_jump (label_at ws (last as)) jump_sentinel)) t as"
  using assms
proof (induction as arbitrary: t)
  case (Cons a as)
  show ?case
  proof (cases "as = []")
    case True
    then show ?thesis using Cons.prems by (auto simp: label_at_put sentinel_with)
  next
    case False
    then have "last as + 2 \<le> a" using Cons.prems(3) by simp
    then have other: "label_at (put_label ws (last as) l) a = label_at ws a" for l
      by (simp add: label_at_put_other)
    show ?thesis
      using Cons.IH [of "target_add t (label_jump (label_at ws a))"] Cons.prems False
      by (auto simp: other)
  qed
qed simp

lemma backpatch_if_spec:
  assumes inv: "code_inv cd" and chain: "chain (code_words cd) head (as @ [z])" and apart: "apart (as @ [z])"
  shows "case backpatch head (patch_if_closure head (addr (word_count cd))) (cd, (SENTINEL, SENTINEL)) of
      (Ok _, (cd', (_, remaining))) \<Rightarrow> code_inv cd' \<and> word_count cd' = word_count cd \<and>
        chain (code_words cd') remaining as \<and>
        target_add (addr z) (label_jump (label_at (code_words cd') z)) = addr (word_count cd) \<and>
        (\<forall>a\<in>set (as @ [z]). depth_of (label_at (code_words cd') a) = depth_of (label_at (code_words cd) a) \<and>
           arity_of (label_at (code_words cd') a) = arity_of (label_at (code_words cd) a)) \<and>
        (\<forall>i. (\<forall>a\<in>set (as @ [z]). i \<noteq> a \<and> i \<noteq> Suc a) \<longrightarrow> code_words cd' ! i = code_words cd ! i)
    | (Err e, (cd', _)) \<Rightarrow> code_inv cd' \<and>
        (e = LabelJumpTooLarge \<and> \<not> jump_fits z (word_count cd) \<or>
         e = PossibleBackpatchCycle \<and>
           (\<exists>mx. max_backpatch_iterations (cd_options cd) = Some mx \<and> unat mx < length as))
    | (Panic, _) \<Rightarrow> False"
proof -
  let ?pc = "word_count cd" and ?ws = "code_words cd"
  note room = word_count_room [OF inv]
  have head: "head \<noteq> SENTINEL"
  proof -
    obtain a where "head = addr a" "Suc a < word_count cd"
      using chain inv by (cases as) auto
    then show ?thesis using addr_not_sentinel [of a] word_count_bound [OF inv] by auto
  qed
  have z: "Suc z < length ?ws" using chain_bounds [OF chain] by simp
  obtain r cd' pr rs where run: "backpatch head (patch_if_closure head (addr ?pc)) (cd, (SENTINEL, SENTINEL)) =
      (r, (cd', (pr, rs)))" "code_inv cd'"
    and res: "case r of
       Ok _ \<Rightarrow> jump_fits z ?pc \<and> rewritten cd (detached ?pc ?ws (last_or None as) z) cd' \<and>
         rs = (if last_or None as = None then SENTINEL else head)
     | Err e \<Rightarrow> e = LabelJumpTooLarge \<and> \<not> jump_fits z ?pc \<or>
         e = PossibleBackpatchCycle \<and>
           (\<exists>mx. max_backpatch_iterations (cd_options cd) = Some mx \<and> unat mx < unat (0 :: u32) + length as)
     | Panic \<Rightarrow> False"
    using backpatch_loop_if [OF inv chain apart room, of None 0 head SENTINEL] chain_length [OF inv chain apart] head
    by (auto simp: backpatch_def prev_of_def)
  show ?thesis
  proof (cases r)
    case (Ok u)
    define l where "l = with_jump (label_at ?ws z) (JumpOffset (word_of_nat ?pc - word_of_nat z))"
    have fits: "jump_fits z ?pc" using res Ok by simp
    have zpc: "z < ?pc" "?pc < 2 ^ 32" using z inv room by auto
    note sent = sent_label [OF fits zpc, of "label_at ?ws z", folded l_def]
    have words: "code_words cd' = detached ?pc ?ws (last_or None as) z" and rs: "rs = (if as = [] then SENTINEL else head)"
      using res Ok last_or_last by (auto simp: rewritten_def)
    show ?thesis
    proof (cases "as = []")
      case True
      then have w: "code_words cd' = put_label ?ws z l" by (simp add: words detached_def l_def)
      have "word_count cd' = word_count cd" using res Ok by (simp add: rewritten_def)
      then show ?thesis
        using run Ok True sent z by (simp add: w rs label_at_put nth_put_label)
    next
      case False
      define p where "p = last as"
      define ws1 where "ws1 = put_label ?ws z l"
      have p: "p \<in> set as" "z + 2 \<le> p" using False apart by (auto simp: p_def sorted_wrt_append)
      have l1: "label_at ws1 a = label_at ?ws a" if "a \<in> set as" for a
        using apart that by (simp add: ws1_def sorted_wrt_append label_at_put_other)
      have w: "code_words cd' = put_label ws1 p (with_jump (label_at ws1 p) jump_sentinel)"
        by (simp add: words detached_def last_or_last [OF False] p_def ws1_def l_def Let_def)
      have lz: "label_at (code_words cd') z = l"
        using p z by (simp add: w label_at_put_other) (simp add: ws1_def label_at_put)
      have pb: "Suc p < length ws1" using chain_bounds [OF chain, of p] p by (simp add: ws1_def)
      have far: "p + 2 \<le> a" if "a \<in> set as" "a \<noteq> p" for a
      proof -
        have as: "as = butlast as @ [p]" using False by (simp add: p_def)
        then have "a \<in> set (butlast as)" using that by (metis UnE empty_iff set_append set_ConsD list.set(1))
        moreover have "apart (butlast as @ [p])" using apart as by (simp add: sorted_wrt_append)
        ultimately show ?thesis by (simp add: sorted_wrt_append)
      qed
      have lp: "label_at (code_words cd') p = with_jump (label_at ?ws p) jump_sentinel"
        using pb by (simp add: w label_at_put l1 [OF p(1)])
      have lo: "label_at (code_words cd') a = label_at ?ws a" if "a \<in> set as" "a \<noteq> p" for a
        using far [OF that] l1 [OF that(1)] by (simp add: w label_at_put_other)
      have la: "depth_of (label_at (code_words cd') a) = depth_of (label_at ?ws a) \<and>
          arity_of (label_at (code_words cd') a) = arity_of (label_at ?ws a)" if "a \<in> set as" for a
        using lp lo [OF that] by (cases "a = p") (simp_all add: depth_of_with arity_of_with)
      define cut where "cut = put_label ?ws p (with_jump (label_at ?ws p) jump_sentinel)"
      have "chain cut head as"
        using chain_cut [of ?ws head as z "[]"] chain apart False by (simp add: cut_def p_def sorted_wrt_append)
      moreover have "label_at cut a = label_at (code_words cd') a" if "a \<in> set as" for a
        using lp lo [OF that] far [OF that] pb
        by (cases "a = p") (simp_all add: cut_def ws1_def label_at_put label_at_put_other)
      moreover have "length cut = length (code_words cd')" by (simp add: cut_def w ws1_def)
      ultimately have ch: "chain (code_words cd') head as" using chain_cong [of cut "code_words cd'" as] by blast
      have nth: "code_words cd' ! i = ?ws ! i" if "\<forall>a\<in>set (as @ [z]). i \<noteq> a \<and> i \<noteq> Suc a" for i
        using that p(1) by (auto simp: w ws1_def nth_put_label)
      have "rewritten cd (code_words cd') cd'" using res Ok by (auto simp: rewritten_def)
      then show ?thesis
        using run Ok sent lz la ch nth False by (auto simp: rs rewritten_def)
    qed
  next
    case (Err e)
    then show ?thesis using run res by simp
  next
    case Panic
    then show ?thesis using run res by simp
  qed
qed

text \<open>
  Reaching \<open>else\<close> separates the two kinds of pending jumps of an \<open>if\<close>: the list visits the
  branches \<open>as\<close> out of the block and, as its oldest entry, the false branch \<open>z\<close>. On success the false
  branch jumps to the current program counter (the start of the else body), the returned head starts
  a list of exactly the remaining branches \<open>as\<close>, labels keep arity and depth, and no other
  word of the code changes. Failures and termination are as for closing a block.
\<close>

lemma else_detaches_false_branch:
  assumes inv: "code_inv cd" and chain: "chain (code_words cd) head (as @ [z])" and apart: "apart (as @ [z])"
  shows "case backpatch head (patch_if_closure head (addr (word_count cd))) (cd, (SENTINEL, SENTINEL)) of
      (Ok _, (cd', (_, remaining))) \<Rightarrow> code_inv cd' \<and> word_count cd' = word_count cd \<and>
        chain (code_words cd') remaining as \<and>
        target_add (addr z) (label_jump (label_at (code_words cd') z)) = addr (word_count cd) \<and>
        (\<forall>a\<in>set (as @ [z]). depth_of (label_at (code_words cd') a) = depth_of (label_at (code_words cd) a) \<and>
           arity_of (label_at (code_words cd') a) = arity_of (label_at (code_words cd) a)) \<and>
        (\<forall>i. (\<forall>a\<in>set (as @ [z]). i \<noteq> a \<and> i \<noteq> Suc a) \<longrightarrow> code_words cd' ! i = code_words cd ! i)
    | (Err e, (cd', _)) \<Rightarrow> code_inv cd' \<and>
        (e = LabelJumpTooLarge \<and> \<not> jump_fits z (word_count cd) \<or>
         e = PossibleBackpatchCycle \<and>
           (\<exists>mx. max_backpatch_iterations (cd_options cd) = Some mx \<and> unat mx < length as))
    | (Panic, _) \<Rightarrow> False"
  by (rule backpatch_if_spec [OF assms])

lemma else_detaches_false_branch_witness:
  "case backpatch (addr 2) (patch_if_closure (addr 2) (addr 4)) (chain_code, (SENTINEL, SENTINEL)) of
      (Ok _, (cd', (_, remaining))) \<Rightarrow> chain (code_words cd') remaining [2] \<and>
        target_add (addr 0) (label_jump (label_at (code_words cd') 0)) = addr 4
    | _ \<Rightarrow> False"
  using else_detaches_false_branch [of chain_code "addr 2" "[2]" 0] chain_code_facts
  by (auto simp: Let_def chain_code_def split: prod.splits result.splits)

text \<open>Emitting one more pending jump at the end of the code puts its address in front of the chain.\<close>

definition label_words :: "label_target \<Rightarrow> u16 list" where
  "label_words l = [ucast (lt_bits l), ucast (drop_bit 16 (lt_bits l))]"

lemma label_at_append: "Suc a < length ws \<Longrightarrow> label_at (ws @ xs) a = label_at ws a"
  by (simp add: label_at_def nth_append)

lemma label_at_end: "label_at (ws @ label_words l) (length ws) = l"
  by (simp add: label_at_def label_words_def nth_append words_join)

lemma chain_append: "chain ws t as \<Longrightarrow> chain (ws @ xs) t as"
  by (induction as arbitrary: t) (auto simp: label_at_append split: if_splits)

lemma chain_extend:
  assumes chain: "chain ws t as" and apart: "apart as" and len: "length ws + 2 < 2 ^ 32"
    and d: "jump_offset_new (addr (length ws)) t = Ok d"
  shows "chain (ws @ label_words (label_new rt depth d)) (addr (length ws)) (length ws # as) \<and> apart (length ws # as)"
proof -
  let ?a = "length ws" and ?l = "label_new rt depth d"
  have bounds: "b + 2 \<le> ?a" if "b \<in> set as" for b using chain_bounds [OF chain that] by simp
  have fits: "fits22 d" using jump_offset_new_Ok(1) [OF d] .
  have jump: "label_jump ?l = d" using label_jump_new [OF fits] .
  have lbl: "label_at (ws @ label_words ?l) ?a = ?l" by (rule label_at_end)
  have "chain (ws @ label_words ?l) (addr ?a) (?a # as)"
  proof (cases as)
    case Nil
    then have "t = SENTINEL" using chain by simp
    then have "d = jump_sentinel" using d by (simp add: jump_offset_new_def)
    then have "is_sentinel ?l" using jump by (simp add: is_sentinel_def jump_sentinel_def)
    then show ?thesis using Nil lbl by (simp add: label_words_def)
  next
    case (Cons b bs)
    then have t: "t = addr b" and b: "Suc b < ?a" using chain by auto
    then have ns: "t \<noteq> SENTINEL" using addr_not_sentinel [of b] len by simp
    have add: "target_add (addr ?a) d = t" using jump_offset_new_Ok(2) [OF d ns] .
    have "\<not> is_sentinel ?l"
    proof
      assume "is_sentinel ?l"
      then have "d = JumpOffset 0" using jump by (simp add: is_sentinel_def)
      then have "addr ?a = addr b" using add t by (simp add: target_add_def addr_def)
      then show False using addr_eq_iff [of ?a b] b len by simp
    qed
    then show ?thesis
      using Cons lbl jump add chain_append [OF chain, of "label_words ?l"] by (auto simp: label_words_def)
  qed
  then show ?thesis using apart bounds by simp
qed

end
