(* ===== verification/Ops.thy ===== *)
theory Ops
  imports Wasm_Types
begin

text \<open>
  The instructions that carry no control flow and their opcodes (src/opcode.rs), grouped the way the
  visitor trait of src/visitor.rs groups them: comparisons, integer and float arithmetic,
  conversions, sign extensions, saturating truncations, loads and stores. \<open>base_sig\<close> and \<open>mem_sig\<close>
  are the operand signatures given to the \<open>instruction!\<close> macro of src/compiler.rs, the operands in
  the order in which \<open>validate!\<close> pops them.

  Lemmas: every opcode determines its instruction, and no opcode of this theory is the opcode of a
  control, variable or constant instruction.
\<close>

datatype width = W32 | W64

datatype irel_op = IEqz | IEq | INe | ILt_s | ILt_u | IGt_s | IGt_u | ILe_s | ILe_u | IGe_s | IGe_u

datatype frel_op = FEq | FNe | FLt | FGt | FLe | FGe

datatype iarith_op = IClz | ICtz | IPopcnt | IAdd | ISub | IMul | IDiv_s | IDiv_u | IRem_s | IRem_u
  | IAnd | IOr | IXor | IShl | IShr_s | IShr_u | IRotl | IRotr

datatype farith_op = FAbs | FNeg | FCeil | FFloor | FTrunc | FNearest | FSqrt | FAdd | FSub | FMul
  | FDiv | FMin | FMax | FCopysign

datatype conv_op =
    I32_WRAP_I64 | I32_TRUNC_F32_S | I32_TRUNC_F32_U | I32_TRUNC_F64_S | I32_TRUNC_F64_U
  | I64_EXTEND_I32_S | I64_EXTEND_I32_U | I64_TRUNC_F32_S | I64_TRUNC_F32_U | I64_TRUNC_F64_S | I64_TRUNC_F64_U
  | F32_CONVERT_I32_S | F32_CONVERT_I32_U | F32_CONVERT_I64_S | F32_CONVERT_I64_U | F32_DEMOTE_F64
  | F64_CONVERT_I32_S | F64_CONVERT_I32_U | F64_CONVERT_I64_S | F64_CONVERT_I64_U | F64_PROMOTE_F32

datatype extend_op = I32_EXTEND_8_S | I32_EXTEND_16_S | I64_EXTEND_8_S | I64_EXTEND_16_S | I64_EXTEND_32_S

datatype sat_op =
    I32_TRUNC_SAT_F32_S | I32_TRUNC_SAT_F32_U | I32_TRUNC_SAT_F64_S | I32_TRUNC_SAT_F64_U
  | I64_TRUNC_SAT_F32_S | I64_TRUNC_SAT_F32_U | I64_TRUNC_SAT_F64_S | I64_TRUNC_SAT_F64_U

datatype mem_op =
    I32_LOAD | I64_LOAD | F32_LOAD | F64_LOAD | I32_LOAD8_S | I32_LOAD8_U | I32_LOAD16_S | I32_LOAD16_U
  | I64_LOAD8_S | I64_LOAD8_U | I64_LOAD16_S | I64_LOAD16_U | I64_LOAD32_S | I64_LOAD32_U
  | I32_STORE | I64_STORE | F32_STORE | F64_STORE | I32_STORE8 | I32_STORE16
  | I64_STORE8 | I64_STORE16 | I64_STORE32

datatype base_op =
    IRel width irel_op
  | FRel width frel_op
  | IArith width iarith_op
  | FArith width farith_op
  | Conv conv_op
  | Extend extend_op
  | TruncSat sat_op

section \<open>Opcodes\<close>

primrec irel_code :: "irel_op \<Rightarrow> u8" where
  "irel_code IEqz = 0x45" | "irel_code IEq = 0x46" | "irel_code INe = 0x47"
| "irel_code ILt_s = 0x48" | "irel_code ILt_u = 0x49" | "irel_code IGt_s = 0x4A"
| "irel_code IGt_u = 0x4B" | "irel_code ILe_s = 0x4C" | "irel_code ILe_u = 0x4D"
| "irel_code IGe_s = 0x4E" | "irel_code IGe_u = 0x4F"

primrec irel64_code :: "irel_op \<Rightarrow> u8" where
  "irel64_code IEqz = 0x50" | "irel64_code IEq = 0x51" | "irel64_code INe = 0x52"
| "irel64_code ILt_s = 0x53" | "irel64_code ILt_u = 0x54" | "irel64_code IGt_s = 0x55"
| "irel64_code IGt_u = 0x56" | "irel64_code ILe_s = 0x57" | "irel64_code ILe_u = 0x58"
| "irel64_code IGe_s = 0x59" | "irel64_code IGe_u = 0x5A"

primrec frel_code :: "frel_op \<Rightarrow> u8" where
  "frel_code FEq = 0x5B" | "frel_code FNe = 0x5C" | "frel_code FLt = 0x5D"
| "frel_code FGt = 0x5E" | "frel_code FLe = 0x5F" | "frel_code FGe = 0x60"

primrec frel64_code :: "frel_op \<Rightarrow> u8" where
  "frel64_code FEq = 0x61" | "frel64_code FNe = 0x62" | "frel64_code FLt = 0x63"
| "frel64_code FGt = 0x64" | "frel64_code FLe = 0x65" | "frel64_code FGe = 0x66"

primrec iarith_code :: "iarith_op \<Rightarrow> u8" where
  "iarith_code IClz = 0x67" | "iarith_code ICtz = 0x68" | "iarith_code IPopcnt = 0x69"
| "iarith_code IAdd = 0x6A" | "iarith_code ISub = 0x6B" | "iarith_code IMul = 0x6C"
| "iarith_code IDiv_s = 0x6D" | "iarith_code IDiv_u = 0x6E" | "iarith_code IRem_s = 0x6F"
| "iarith_code IRem_u = 0x70" | "iarith_code IAnd = 0x71" | "iarith_code IOr = 0x72"
| "iarith_code IXor = 0x73" | "iarith_code IShl = 0x74" | "iarith_code IShr_s = 0x75"
| "iarith_code IShr_u = 0x76" | "iarith_code IRotl = 0x77" | "iarith_code IRotr = 0x78"

primrec iarith64_code :: "iarith_op \<Rightarrow> u8" where
  "iarith64_code IClz = 0x79" | "iarith64_code ICtz = 0x7A" | "iarith64_code IPopcnt = 0x7B"
| "iarith64_code IAdd = 0x7C" | "iarith64_code ISub = 0x7D" | "iarith64_code IMul = 0x7E"
| "iarith64_code IDiv_s = 0x7F" | "iarith64_code IDiv_u = 0x80" | "iarith64_code IRem_s = 0x81"
| "iarith64_code IRem_u = 0x82" | "iarith64_code IAnd = 0x83" | "iarith64_code IOr = 0x84"
| "iarith64_code IXor = 0x85" | "iarith64_code IShl = 0x86" | "iarith64_code IShr_s = 0x87"
| "iarith64_code IShr_u = 0x88" | "iarith64_code IRotl = 0x89" | "iarith64_code IRotr = 0x8A"

primrec farith_code :: "farith_op \<Rightarrow> u8" where
  "farith_code FAbs = 0x8B" | "farith_code FNeg = 0x8C" | "farith_code FCeil = 0x8D"
| "farith_code FFloor = 0x8E" | "farith_code FTrunc = 0x8F" | "farith_code FNearest = 0x90"
| "farith_code FSqrt = 0x91" | "farith_code FAdd = 0x92" | "farith_code FSub = 0x93"
| "farith_code FMul = 0x94" | "farith_code FDiv = 0x95" | "farith_code FMin = 0x96"
| "farith_code FMax = 0x97" | "farith_code FCopysign = 0x98"

primrec farith64_code :: "farith_op \<Rightarrow> u8" where
  "farith64_code FAbs = 0x99" | "farith64_code FNeg = 0x9A" | "farith64_code FCeil = 0x9B"
| "farith64_code FFloor = 0x9C" | "farith64_code FTrunc = 0x9D" | "farith64_code FNearest = 0x9E"
| "farith64_code FSqrt = 0x9F" | "farith64_code FAdd = 0xA0" | "farith64_code FSub = 0xA1"
| "farith64_code FMul = 0xA2" | "farith64_code FDiv = 0xA3" | "farith64_code FMin = 0xA4"
| "farith64_code FMax = 0xA5" | "farith64_code FCopysign = 0xA6"

primrec conv_code :: "conv_op \<Rightarrow> u8" where
  "conv_code I32_WRAP_I64 = 0xA7" | "conv_code I32_TRUNC_F32_S = 0xA8" | "conv_code I32_TRUNC_F32_U = 0xA9"
| "conv_code I32_TRUNC_F64_S = 0xAA" | "conv_code I32_TRUNC_F64_U = 0xAB" | "conv_code I64_EXTEND_I32_S = 0xAC"
| "conv_code I64_EXTEND_I32_U = 0xAD" | "conv_code I64_TRUNC_F32_S = 0xAE" | "conv_code I64_TRUNC_F32_U = 0xAF"
| "conv_code I64_TRUNC_F64_S = 0xB0" | "conv_code I64_TRUNC_F64_U = 0xB1" | "conv_code F32_CONVERT_I32_S = 0xB2"
| "conv_code F32_CONVERT_I32_U = 0xB3" | "conv_code F32_CONVERT_I64_S = 0xB4" | "conv_code F32_CONVERT_I64_U = 0xB5"
| "conv_code F32_DEMOTE_F64 = 0xB6" | "conv_code F64_CONVERT_I32_S = 0xB7" | "conv_code F64_CONVERT_I32_U = 0xB8"
| "conv_code F64_CONVERT_I64_S = 0xB9" | "conv_code F64_CONVERT_I64_U = 0xBA" | "conv_code F64_PROMOTE_F32 = 0xBB"

primrec extend_code :: "extend_op \<Rightarrow> u8" where
  "extend_code I32_EXTEND_8_S = 0xC0" | "extend_code I32_EXTEND_16_S = 0xC1" | "extend_code I64_EXTEND_8_S = 0xC2"
| "extend_code I64_EXTEND_16_S = 0xC3" | "extend_code I64_EXTEND_32_S = 0xC4"

definition EXTENDED_FC :: u8 where
  "EXTENDED_FC = 0xFC"

primrec sat_code :: "sat_op \<Rightarrow> u32" where
  "sat_code I32_TRUNC_SAT_F32_S = 0" | "sat_code I32_TRUNC_SAT_F32_U = 1"
| "sat_code I32_TRUNC_SAT_F64_S = 2" | "sat_code I32_TRUNC_SAT_F64_U = 3"
| "sat_code I64_TRUNC_SAT_F32_S = 4" | "sat_code I64_TRUNC_SAT_F32_U = 5"
| "sat_code I64_TRUNC_SAT_F64_S = 6" | "sat_code I64_TRUNC_SAT_F64_U = 7"

primrec mem_code :: "mem_op \<Rightarrow> u8" where
  "mem_code I32_LOAD = 0x28" | "mem_code I64_LOAD = 0x29" | "mem_code F32_LOAD = 0x2A" | "mem_code F64_LOAD = 0x2B"
| "mem_code I32_LOAD8_S = 0x2C" | "mem_code I32_LOAD8_U = 0x2D" | "mem_code I32_LOAD16_S = 0x2E"
| "mem_code I32_LOAD16_U = 0x2F" | "mem_code I64_LOAD8_S = 0x30" | "mem_code I64_LOAD8_U = 0x31"
| "mem_code I64_LOAD16_S = 0x32" | "mem_code I64_LOAD16_U = 0x33" | "mem_code I64_LOAD32_S = 0x34"
| "mem_code I64_LOAD32_U = 0x35" | "mem_code I32_STORE = 0x36" | "mem_code I64_STORE = 0x37"
| "mem_code F32_STORE = 0x38" | "mem_code F64_STORE = 0x39" | "mem_code I32_STORE8 = 0x3A"
| "mem_code I32_STORE16 = 0x3B" | "mem_code I64_STORE8 = 0x3C" | "mem_code I64_STORE16 = 0x3D"
| "mem_code I64_STORE32 = 0x3E"

text \<open>The opcode byte of an instruction; a saturating truncation has the prefix \<open>EXTENDED_FC\<close>.\<close>

fun base_code :: "base_op \<Rightarrow> u8" where
  "base_code (IRel W32 x) = irel_code x"
| "base_code (IRel W64 x) = irel64_code x"
| "base_code (FRel W32 x) = frel_code x"
| "base_code (FRel W64 x) = frel64_code x"
| "base_code (IArith W32 x) = iarith_code x"
| "base_code (IArith W64 x) = iarith64_code x"
| "base_code (FArith W32 x) = farith_code x"
| "base_code (FArith W64 x) = farith64_code x"
| "base_code (Conv x) = conv_code x"
| "base_code (Extend x) = extend_code x"
| "base_code (TruncSat x) = EXTENDED_FC"

definition UNREACHABLE :: u8 where "UNREACHABLE = 0x00"
definition NOP :: u8 where "NOP = 0x01"
definition BLOCK :: u8 where "BLOCK = 0x02"
definition LOOP :: u8 where "LOOP = 0x03"
definition IF :: u8 where "IF = 0x04"
definition ELSE :: u8 where "ELSE = 0x05"
definition END :: u8 where "END = 0x0B"
definition BR :: u8 where "BR = 0x0C"
definition BR_IF :: u8 where "BR_IF = 0x0D"
definition BR_TABLE :: u8 where "BR_TABLE = 0x0E"
definition RETURN :: u8 where "RETURN = 0x0F"
definition CALL :: u8 where "CALL = 0x10"
definition CALL_INDIRECT :: u8 where "CALL_INDIRECT = 0x11"
definition CALL_HOST :: u8 where "CALL_HOST = 0x12"
definition CALL_EXTERN :: u8 where "CALL_EXTERN = 0x13"
definition DROP :: u8 where "DROP = 0x1A"
definition SELECT :: u8 where "SELECT = 0x1B"
definition LOCAL_GET :: u8 where "LOCAL_GET = 0x20"
definition LOCAL_SET :: u8 where "LOCAL_SET = 0x21"
definition LOCAL_TEE :: u8 where "LOCAL_TEE = 0x22"
definition GLOBAL_GET :: u8 where "GLOBAL_GET = 0x23"
definition GLOBAL_SET :: u8 where "GLOBAL_SET = 0x24"
definition GLOBAL_GET_HOST :: u8 where "GLOBAL_GET_HOST = 0x25"
definition GLOBAL_SET_HOST :: u8 where "GLOBAL_SET_HOST = 0x26"
definition GLOBAL_GET_EXTERN :: u8 where "GLOBAL_GET_EXTERN = 0x27"
definition GLOBAL_SET_EXTERN :: u8 where "GLOBAL_SET_EXTERN = 0x1C"
definition MEMORY_SIZE :: u8 where "MEMORY_SIZE = 0x3F"
definition MEMORY_GROW :: u8 where "MEMORY_GROW = 0x40"
definition I32_CONST :: u8 where "I32_CONST = 0x41"
definition I64_CONST :: u8 where "I64_CONST = 0x42"
definition F32_CONST :: u8 where "F32_CONST = 0x43"
definition F64_CONST :: u8 where "F64_CONST = 0x44"
definition I32_REINTERPRET_F32 :: u8 where "I32_REINTERPRET_F32 = 0xBC"
definition I64_REINTERPRET_F64 :: u8 where "I64_REINTERPRET_F64 = 0xBD"
definition F32_REINTERPRET_I32 :: u8 where "F32_REINTERPRET_I32 = 0xBE"
definition F64_REINTERPRET_I64 :: u8 where "F64_REINTERPRET_I64 = 0xBF"

lemmas control_codes = UNREACHABLE_def NOP_def BLOCK_def LOOP_def IF_def ELSE_def END_def BR_def BR_IF_def
  BR_TABLE_def RETURN_def CALL_def CALL_INDIRECT_def CALL_HOST_def CALL_EXTERN_def DROP_def SELECT_def
  LOCAL_GET_def LOCAL_SET_def LOCAL_TEE_def GLOBAL_GET_def GLOBAL_SET_def GLOBAL_GET_HOST_def
  GLOBAL_SET_HOST_def GLOBAL_GET_EXTERN_def GLOBAL_SET_EXTERN_def MEMORY_SIZE_def MEMORY_GROW_def
  I32_CONST_def I64_CONST_def F32_CONST_def F64_CONST_def I32_REINTERPRET_F32_def I64_REINTERPRET_F64_def
  F32_REINTERPRET_I32_def F64_REINTERPRET_I64_def EXTENDED_FC_def

section \<open>The instruction of an opcode\<close>

definition all_irel :: "irel_op list" where
  "all_irel = [IEqz, IEq, INe, ILt_s, ILt_u, IGt_s, IGt_u, ILe_s, ILe_u, IGe_s, IGe_u]"

definition all_frel :: "frel_op list" where
  "all_frel = [FEq, FNe, FLt, FGt, FLe, FGe]"

definition all_iarith :: "iarith_op list" where
  "all_iarith = [IClz, ICtz, IPopcnt, IAdd, ISub, IMul, IDiv_s, IDiv_u, IRem_s, IRem_u,
     IAnd, IOr, IXor, IShl, IShr_s, IShr_u, IRotl, IRotr]"

definition all_farith :: "farith_op list" where
  "all_farith = [FAbs, FNeg, FCeil, FFloor, FTrunc, FNearest, FSqrt, FAdd, FSub, FMul, FDiv, FMin, FMax, FCopysign]"

definition all_conv :: "conv_op list" where
  "all_conv = [I32_WRAP_I64, I32_TRUNC_F32_S, I32_TRUNC_F32_U, I32_TRUNC_F64_S, I32_TRUNC_F64_U,
     I64_EXTEND_I32_S, I64_EXTEND_I32_U, I64_TRUNC_F32_S, I64_TRUNC_F32_U, I64_TRUNC_F64_S, I64_TRUNC_F64_U,
     F32_CONVERT_I32_S, F32_CONVERT_I32_U, F32_CONVERT_I64_S, F32_CONVERT_I64_U, F32_DEMOTE_F64,
     F64_CONVERT_I32_S, F64_CONVERT_I32_U, F64_CONVERT_I64_S, F64_CONVERT_I64_U, F64_PROMOTE_F32]"

definition all_extend :: "extend_op list" where
  "all_extend = [I32_EXTEND_8_S, I32_EXTEND_16_S, I64_EXTEND_8_S, I64_EXTEND_16_S, I64_EXTEND_32_S]"

definition all_sat :: "sat_op list" where
  "all_sat = [I32_TRUNC_SAT_F32_S, I32_TRUNC_SAT_F32_U, I32_TRUNC_SAT_F64_S, I32_TRUNC_SAT_F64_U,
     I64_TRUNC_SAT_F32_S, I64_TRUNC_SAT_F32_U, I64_TRUNC_SAT_F64_S, I64_TRUNC_SAT_F64_U]"

definition all_mem :: "mem_op list" where
  "all_mem = [I32_LOAD, I64_LOAD, F32_LOAD, F64_LOAD, I32_LOAD8_S, I32_LOAD8_U, I32_LOAD16_S, I32_LOAD16_U,
     I64_LOAD8_S, I64_LOAD8_U, I64_LOAD16_S, I64_LOAD16_U, I64_LOAD32_S, I64_LOAD32_U,
     I32_STORE, I64_STORE, F32_STORE, F64_STORE, I32_STORE8, I32_STORE16, I64_STORE8, I64_STORE16, I64_STORE32]"

text \<open>The one-byte instructions, in the order of their opcodes.\<close>

definition plain_ops :: "base_op list" where
  "plain_ops = map (IRel W32) all_irel @ map (IRel W64) all_irel @ map (FRel W32) all_frel @ map (FRel W64) all_frel @
     map (IArith W32) all_iarith @ map (IArith W64) all_iarith @ map (FArith W32) all_farith @
     map (FArith W64) all_farith @ map Conv all_conv @ map Extend all_extend"

definition plain_op_of :: "u8 \<Rightarrow> base_op option" where
  "plain_op_of b = find (\<lambda>p. base_code p = b) plain_ops"

definition sat_op_of :: "u32 \<Rightarrow> sat_op option" where
  "sat_op_of e = find (\<lambda>s. sat_code s = e) all_sat"

definition mem_op_of :: "u8 \<Rightarrow> mem_op option" where
  "mem_op_of b = find (\<lambda>p. mem_code p = b) all_mem"

section \<open>Signatures\<close>

primrec int_ty :: "width \<Rightarrow> val_type" where
  "int_ty W32 = T_I32"
| "int_ty W64 = T_I64"

primrec float_ty :: "width \<Rightarrow> val_type" where
  "float_ty W32 = T_F32"
| "float_ty W64 = T_F64"

primrec conv_sig :: "conv_op \<Rightarrow> val_type \<times> val_type" where
  "conv_sig I32_WRAP_I64 = (T_I64, T_I32)"
| "conv_sig I32_TRUNC_F32_S = (T_F32, T_I32)"
| "conv_sig I32_TRUNC_F32_U = (T_F32, T_I32)"
| "conv_sig I32_TRUNC_F64_S = (T_F64, T_I32)"
| "conv_sig I32_TRUNC_F64_U = (T_F64, T_I32)"
| "conv_sig I64_EXTEND_I32_S = (T_I32, T_I64)"
| "conv_sig I64_EXTEND_I32_U = (T_I32, T_I64)"
| "conv_sig I64_TRUNC_F32_S = (T_F32, T_I64)"
| "conv_sig I64_TRUNC_F32_U = (T_F32, T_I64)"
| "conv_sig I64_TRUNC_F64_S = (T_F64, T_I64)"
| "conv_sig I64_TRUNC_F64_U = (T_F64, T_I64)"
| "conv_sig F32_CONVERT_I32_S = (T_I32, T_F32)"
| "conv_sig F32_CONVERT_I32_U = (T_I32, T_F32)"
| "conv_sig F32_CONVERT_I64_S = (T_I64, T_F32)"
| "conv_sig F32_CONVERT_I64_U = (T_I64, T_F32)"
| "conv_sig F32_DEMOTE_F64 = (T_F64, T_F32)"
| "conv_sig F64_CONVERT_I32_S = (T_I32, T_F64)"
| "conv_sig F64_CONVERT_I32_U = (T_I32, T_F64)"
| "conv_sig F64_CONVERT_I64_S = (T_I64, T_F64)"
| "conv_sig F64_CONVERT_I64_U = (T_I64, T_F64)"
| "conv_sig F64_PROMOTE_F32 = (T_F32, T_F64)"

primrec extend_sig :: "extend_op \<Rightarrow> val_type \<times> val_type" where
  "extend_sig I32_EXTEND_8_S = (T_I32, T_I32)"
| "extend_sig I32_EXTEND_16_S = (T_I32, T_I32)"
| "extend_sig I64_EXTEND_8_S = (T_I64, T_I64)"
| "extend_sig I64_EXTEND_16_S = (T_I64, T_I64)"
| "extend_sig I64_EXTEND_32_S = (T_I64, T_I64)"

primrec sat_sig :: "sat_op \<Rightarrow> val_type \<times> val_type" where
  "sat_sig I32_TRUNC_SAT_F32_S = (T_F32, T_I32)"
| "sat_sig I32_TRUNC_SAT_F32_U = (T_F32, T_I32)"
| "sat_sig I32_TRUNC_SAT_F64_S = (T_F64, T_I32)"
| "sat_sig I32_TRUNC_SAT_F64_U = (T_F64, T_I32)"
| "sat_sig I64_TRUNC_SAT_F32_S = (T_F32, T_I64)"
| "sat_sig I64_TRUNC_SAT_F32_U = (T_F32, T_I64)"
| "sat_sig I64_TRUNC_SAT_F64_S = (T_F64, T_I64)"
| "sat_sig I64_TRUNC_SAT_F64_U = (T_F64, T_I64)"

definition iarith_unary :: "iarith_op \<Rightarrow> bool" where
  "iarith_unary x \<longleftrightarrow> x = IClz \<or> x = ICtz \<or> x = IPopcnt"

definition farith_unary :: "farith_op \<Rightarrow> bool" where
  "farith_unary x \<longleftrightarrow> x = FAbs \<or> x = FNeg \<or> x = FCeil \<or> x = FFloor \<or> x = FTrunc \<or> x = FNearest \<or> x = FSqrt"

primrec base_sig :: "base_op \<Rightarrow> val_type list \<times> val_type list" where
  "base_sig (IRel w x) = ((if x = IEqz then [int_ty w] else [int_ty w, int_ty w]), [T_I32])"
| "base_sig (FRel w x) = ([float_ty w, float_ty w], [T_I32])"
| "base_sig (IArith w x) = ((if iarith_unary x then [int_ty w] else [int_ty w, int_ty w]), [int_ty w])"
| "base_sig (FArith w x) = ((if farith_unary x then [float_ty w] else [float_ty w, float_ty w]), [float_ty w])"
| "base_sig (Conv x) = ([fst (conv_sig x)], [snd (conv_sig x)])"
| "base_sig (Extend x) = ([fst (extend_sig x)], [snd (extend_sig x)])"
| "base_sig (TruncSat x) = ([fst (sat_sig x)], [snd (sat_sig x)])"

text \<open>Loads and stores: signature and largest alignment exponent.\<close>

primrec mem_sig :: "mem_op \<Rightarrow> val_type list \<times> val_type list" where
  "mem_sig I32_LOAD = ([T_I32], [T_I32])"
| "mem_sig I64_LOAD = ([T_I32], [T_I64])"
| "mem_sig F32_LOAD = ([T_I32], [T_F32])"
| "mem_sig F64_LOAD = ([T_I32], [T_F64])"
| "mem_sig I32_LOAD8_S = ([T_I32], [T_I32])"
| "mem_sig I32_LOAD8_U = ([T_I32], [T_I32])"
| "mem_sig I32_LOAD16_S = ([T_I32], [T_I32])"
| "mem_sig I32_LOAD16_U = ([T_I32], [T_I32])"
| "mem_sig I64_LOAD8_S = ([T_I32], [T_I64])"
| "mem_sig I64_LOAD8_U = ([T_I32], [T_I64])"
| "mem_sig I64_LOAD16_S = ([T_I32], [T_I64])"
| "mem_sig I64_LOAD16_U = ([T_I32], [T_I64])"
| "mem_sig I64_LOAD32_S = ([T_I32], [T_I64])"
| "mem_sig I64_LOAD32_U = ([T_I32], [T_I64])"
| "mem_sig I32_STORE = ([T_I32, T_I32], [])"
| "mem_sig I64_STORE = ([T_I64, T_I32], [])"
| "mem_sig F32_STORE = ([T_F32, T_I32], [])"
| "mem_sig F64_STORE = ([T_F64, T_I32], [])"
| "mem_sig I32_STORE8 = ([T_I32, T_I32], [])"
| "mem_sig I32_STORE16 = ([T_I32, T_I32], [])"
| "mem_sig I64_STORE8 = ([T_I64, T_I32], [])"
| "mem_sig I64_STORE16 = ([T_I64, T_I32], [])"
| "mem_sig I64_STORE32 = ([T_I64, T_I32], [])"

primrec mem_align :: "mem_op \<Rightarrow> u32" where
  "mem_align I32_LOAD = 2" | "mem_align I64_LOAD = 3" | "mem_align F32_LOAD = 2" | "mem_align F64_LOAD = 3"
| "mem_align I32_LOAD8_S = 0" | "mem_align I32_LOAD8_U = 0" | "mem_align I32_LOAD16_S = 1"
| "mem_align I32_LOAD16_U = 1" | "mem_align I64_LOAD8_S = 0" | "mem_align I64_LOAD8_U = 0"
| "mem_align I64_LOAD16_S = 1" | "mem_align I64_LOAD16_U = 1" | "mem_align I64_LOAD32_S = 2"
| "mem_align I64_LOAD32_U = 2" | "mem_align I32_STORE = 2" | "mem_align I64_STORE = 3"
| "mem_align F32_STORE = 2" | "mem_align F64_STORE = 3" | "mem_align I32_STORE8 = 0"
| "mem_align I32_STORE16 = 1" | "mem_align I64_STORE8 = 0" | "mem_align I64_STORE16 = 1"
| "mem_align I64_STORE32 = 2"

section \<open>Opcodes determine instructions\<close>

lemma all_ops_complete:
  "x \<in> set all_irel" "y \<in> set all_frel" "a \<in> set all_iarith" "b \<in> set all_farith" "c \<in> set all_conv"
  "e \<in> set all_extend" "s \<in> set all_sat" "m \<in> set all_mem"
  by (cases x, simp_all add: all_irel_def) (cases y, simp_all add: all_frel_def,
    cases a, simp_all add: all_iarith_def, cases b, simp_all add: all_farith_def,
    cases c, simp_all add: all_conv_def, cases e, simp_all add: all_extend_def,
    cases s, simp_all add: all_sat_def, cases m, simp_all add: all_mem_def)

lemma plain_complete: "(\<And>s. p \<noteq> TruncSat s) \<Longrightarrow> p \<in> set plain_ops"
proof (cases p)
  case (IRel w x) then show ?thesis by (cases w) (simp_all add: plain_ops_def all_ops_complete)
next
  case (FRel w x) then show ?thesis by (cases w) (simp_all add: plain_ops_def all_ops_complete)
next
  case (IArith w x) then show ?thesis by (cases w) (simp_all add: plain_ops_def all_ops_complete)
next
  case (FArith w x) then show ?thesis by (cases w) (simp_all add: plain_ops_def all_ops_complete)
qed (auto simp add: plain_ops_def all_ops_complete)

text \<open>The table of one-byte opcodes starts at 0x45 and only skips the four reinterpretations.\<close>

lemma plain_codes: "map base_code plain_ops = map word_of_nat ([0x45..<0xBC] @ [0xC0..<0xC5])"
  by (simp add: plain_ops_def all_irel_def all_frel_def all_iarith_def all_farith_def all_conv_def
      all_extend_def upt_rec)

lemma mem_codes: "map mem_code all_mem = map word_of_nat [0x28..<0x3F]"
  by (simp add: all_mem_def upt_rec)

lemma find_by_key: "distinct (map f xs) \<Longrightarrow> x \<in> set xs \<Longrightarrow> find (\<lambda>y. f y = f x) xs = Some x"
  by (induction xs) (auto simp: rev_image_eqI)

lemma find_key_SomeD: "find P xs = Some x \<Longrightarrow> P x \<and> x \<in> set xs"
  by (induction xs) (auto split: if_splits)

lemma distinct_words: "\<forall>n\<in>set ns. n < 256 \<Longrightarrow> distinct ns \<Longrightarrow> distinct (map (word_of_nat :: nat \<Rightarrow> u8) ns)"
proof (induction ns)
  case (Cons n ns)
  have "(word_of_nat n :: u8) \<noteq> word_of_nat m" if "m \<in> set ns" for m
  proof
    assume "(word_of_nat n :: u8) = word_of_nat m"
    then have "unat (word_of_nat n :: u8) = unat (word_of_nat m :: u8)" by simp
    with that Cons.prems show False by (auto simp: unat_of_nat)
  qed
  with Cons show ?case by auto
qed simp

lemma plain_op_of_code: "(\<And>s. p \<noteq> TruncSat s) \<Longrightarrow> plain_op_of (base_code p) = Some p"
  unfolding plain_op_of_def
  by (intro find_by_key plain_complete) (simp_all only: plain_codes, rule distinct_words, auto)

lemma mem_op_of_code: "mem_op_of (mem_code p) = Some p"
  unfolding mem_op_of_def
  by (intro find_by_key all_ops_complete) (simp only: mem_codes, rule distinct_words, auto)

lemma sat_op_of_code: "sat_op_of (sat_code s) = Some s"
  unfolding sat_op_of_def by (intro find_by_key all_ops_complete) (simp add: all_sat_def)

lemma plain_op_ofD: "plain_op_of b = Some p \<Longrightarrow> base_code p = b \<and> (\<forall>s. p \<noteq> TruncSat s)"
  unfolding plain_op_of_def by (drule find_key_SomeD) (auto simp: plain_ops_def)

lemma mem_op_ofD: "mem_op_of b = Some p \<Longrightarrow> mem_code p = b"
  unfolding mem_op_of_def by (drule find_key_SomeD) auto

lemma sat_op_ofD: "sat_op_of b = Some p \<Longrightarrow> sat_code p = b"
  unfolding sat_op_of_def by (drule find_key_SomeD) auto

text \<open>The opcode ranges, which keep the instructions of this theory apart from all others.\<close>

lemma plain_code_range:
  assumes "\<And>s. p \<noteq> TruncSat s"
  shows "0x45 \<le> base_code p \<and> (base_code p < 0xBC \<or> 0xC0 \<le> base_code p \<and> base_code p < 0xC5)"
proof -
  have "base_code p \<in> word_of_nat ` set ([0x45..<0xBC] @ [0xC0..<0xC5])"
    using plain_complete [OF assms] by (metis image_eqI plain_codes set_map)
  then obtain n where n: "base_code p = word_of_nat n" "n \<in> set ([0x45..<0xBC] @ [0xC0..<0xC5])"
    by (rule imageE)
  have range: "0x45 \<le> n \<and> (n < 0xBC \<or> 0xC0 \<le> n \<and> n < 0xC5)"
    using n(2) by (simp only: set_append set_upt Un_iff atLeastLessThan_iff) arith
  then have "unat (base_code p) = n"
    unfolding n(1) unat_of_nat by (intro mod_less) (simp, arith)
  with range show ?thesis by (simp add: word_le_nat_alt word_less_nat_alt)
qed

lemma mem_code_range: "0x28 \<le> mem_code p \<and> mem_code p < 0x3F"
  by (cases p) simp_all

end
