(* ===== verification/Module_Data.thy ===== *)
theory Module_Data
  imports Code_Builder
begin

text \<open>
  The data a loaded program consists of: functions (src/code.rs), modules with their globals, tables,
  exports and imports (src/module.rs, src/imports.rs), references (src/visitor.rs), host modules
  (src/host.rs) and the store that owns them (src/store.rs), with the lookups every other part uses.

  A reference-counted memory or table (\<open>Rc\<close>) is an address in one of the two lists of cells of the
  store, so that two modules can share one; \<open>cell_extra\<close> counts the references from outside of the store:
  the embedder's, and that of an engine to its current table while it loads a module.
  Address 0 is the \<open>zero_memory\<close> (\<open>zero_table\<close>) of the source. The closure of a host function and the
  value behind a host global belong to the embedder: the store knows their types only.

  Lemmas: the function and global index spaces are the imports of that kind followed by the module's
  own definitions.
\<close>

section \<open>References, functions, globals\<close>

datatype sym_ref = Ref_Module u16 | Ref_Host u8 u16 | Ref_Extern u8 u16

record wasm_ref =
  wr_module :: u8
  wr_index :: u16

record local_variable =
  lv_frame_offset :: u16
  lv_ty :: val_type

record func =
  fn_ty :: u32
  fn_stack_usage :: u16
  fn_local_size :: u16
  fn_param_size :: u8
  fn_return :: "val_type option"
  fn_locals :: "(u16 \<times> val_type) list"
  fn_expr :: jump_target

definition required_stack_words :: "func \<Rightarrow> nat" where
  "required_stack_words f = unat (fn_stack_usage f) + 2 + unat (fn_local_size f)"

record global_var =
  gl_type :: global_type
  gl_value :: raw_value

definition global_value :: "global_var \<Rightarrow> wasm_value" where
  "global_value g = raw_to_value (gl_value g) (gt_ty (gl_type g))"

datatype table_element = TE_Uninit | TE_Host u8 u16 | TE_Func u8 u16

datatype memory_kind = MK_Owned nat | MK_Import u8 | MK_ImportHost u8 u16

datatype table_kind = TK_Owned nat table_type | TK_Import u8 | TK_ImportHost u8 u16

datatype import_item =
    Imp_Func u8 u16
  | Imp_HostFunc u8 u16
  | Imp_Table u8 u16
  | Imp_HostTable u8 u16
  | Imp_Memory u8 u16
  | Imp_HostMemory u8 u16
  | Imp_Global u8 u16
  | Imp_HostGlobal u8 u16

datatype export_desc = Exp_Func u32 | Exp_Table u32 | Exp_Mem u32 | Exp_Global u32

record export_item =
  ex_name :: "u8 list"
  ex_desc :: export_desc

record wmodule =
  md_name :: "u8 list"
  md_types :: "func_type list"
  md_functions :: "func list"
  md_table :: "table_kind option"
  md_memory :: "memory_kind option"
  md_globals :: "global_var list"
  md_imports :: "import_item list"
  md_exports :: "export_item list"
  md_start :: "sym_ref option"

section \<open>Host modules\<close>

record host_function =
  hf_name :: "u8 list"
  hf_params :: "val_type list"
  hf_returns :: result_type
  hf_present :: bool

text \<open>The size of the parameters in words.\<close>

definition param_words :: "val_type list \<Rightarrow> nat" where
  "param_words ts = foldl (\<lambda>n t. n + val_type_size t) 0 ts div 4"

definition host_param_size :: "host_function \<Rightarrow> nat" where
  "host_param_size f = param_words (hf_params f)"

record host_global =
  hg_name :: "u8 list"
  hg_ty :: val_type
  hg_mutable :: bool

record host_memory =
  hm_name :: "u8 list"
  hm_addr :: nat

record host_table =
  ht_name :: "u8 list"
  ht_addr :: nat
  ht_limit :: limit

record host_module =
  hmod_name :: "u8 list"
  hmod_globals :: "host_global list"
  hmod_functions :: "host_function list"
  hmod_memory :: "host_memory list"
  hmod_table :: "host_table list"

section \<open>Lookups and chains of fallible steps\<close>

text \<open>\<open>xs[i]\<close>: out of range panics.\<close>

definition at :: "'a list \<Rightarrow> nat \<Rightarrow> ('a, 'e) result" where
  "at xs i = (if i < length xs then Ok (xs ! i) else Panic)"

definition bindR :: "('a, 'e) result \<Rightarrow> ('a \<Rightarrow> ('b, 'e) result) \<Rightarrow> ('b, 'e) result" where
  "bindR r f = (case r of Ok a \<Rightarrow> f a | Err e \<Rightarrow> Err e | Panic \<Rightarrow> Panic)"

lemma bindR_simps [simp]: "bindR (Ok a) f = f a" "bindR (Err e) f = Err e" "bindR Panic f = Panic"
  by (simp_all add: bindR_def)

lemma bindR_Ok_iff: "bindR r f = Ok b \<longleftrightarrow> (\<exists>a. r = Ok a \<and> f a = Ok b)"
  by (cases r) simp_all

lemma at_Ok_iff [simp]: "at xs i = Ok x \<longleftrightarrow> i < length xs \<and> xs ! i = x"
  by (auto simp: at_def)

lemma at_in [simp]: "i < length xs \<Longrightarrow> at xs i = Ok (xs ! i)"
  by (simp add: at_def)

section \<open>The store\<close>

record 'a rc_cell =
  cell_value :: 'a
  cell_extra :: nat

record store =
  st_modules :: "wmodule list"
  st_max_modules :: nat
  st_host_modules :: "host_module list"
  st_memories :: "memory rc_cell list"
  st_tables :: "table_element list rc_cell list"

text \<open>One answer of the global allocator, and the answers left; without an entry the request is granted.\<close>

fun alloc_answer :: "alloc_error option list \<Rightarrow> (alloc_error option list, alloc_error) result" where
  "alloc_answer [] = Ok []"
| "alloc_answer (None # al) = Ok al"
| "alloc_answer (Some e # al) = Err e"

text \<open>
  \<open>Store::from_host_modules\<close> asks for the vector of the modules (unless it is empty), the \<open>zero_memory\<close> and
  the \<open>zero_table\<close>; \<open>mems\<close> and \<open>tabs\<close> are the cells of the host modules.
\<close>

definition from_host_modules ::
  "alloc_error option list \<Rightarrow> nat \<Rightarrow> host_module list \<Rightarrow> memory rc_cell list \<Rightarrow> table_element list rc_cell list \<Rightarrow>
    (store, alloc_error) result"
where
  "from_host_modules al max_modules hosts mems tabs =
     (if 256 < max_modules then Err AE_OutOfMemory
      else bindR (if max_modules = 0 then Ok al else alloc_answer al) (\<lambda>al.
        bindR (alloc_answer al) (\<lambda>al.
        bindR (alloc_answer al) (\<lambda>_.
        Ok \<lparr>st_modules = [], st_max_modules = max_modules, st_host_modules = hosts,
          st_memories = \<lparr>cell_value = memory_zero, cell_extra = 0\<rparr> # mems,
          st_tables = \<lparr>cell_value = [], cell_extra = 0\<rparr> # tabs\<rparr>))))"

lemma from_host_modules_Ok:
  "from_host_modules al n hosts mems tabs = Ok st \<Longrightarrow>
    n \<le> 256 \<and> st = \<lparr>st_modules = [], st_max_modules = n, st_host_modules = hosts,
      st_memories = \<lparr>cell_value = memory_zero, cell_extra = 0\<rparr> # mems, st_tables = \<lparr>cell_value = [], cell_extra = 0\<rparr> # tabs\<rparr>"
  by (auto simp: from_host_modules_def bindR_Ok_iff split: if_splits)

definition store_push_module :: "wmodule \<Rightarrow> (store, u8, alloc_error) m" where
  "store_push_module md = (\<lambda>st.
     if st_max_modules st \<le> length (st_modules st) then (Err AE_OutOfMemory, st)
     else (Ok (word_of_nat (length (st_modules st))), st\<lparr>st_modules := st_modules st @ [md]\<rparr>))"

definition store_pop_module :: "store \<Rightarrow> wmodule option \<times> store" where
  "store_pop_module st = (case rev (st_modules st) of
     [] \<Rightarrow> (None, st)
   | md # rest \<Rightarrow> (Some md, st\<lparr>st_modules := rev rest\<rparr>))"

text \<open>
  The address of the memory (table) of a module, through at most one import; \<open>None\<close> where the source
  panics (an index out of range, an import of a memory its module does not own).
\<close>

definition get_memory :: "store \<Rightarrow> u8 \<Rightarrow> nat option" where
  "get_memory st r = Option.bind (get_opt (st_modules st) (unat r)) (\<lambda>md.
     case md_memory md of
       None \<Rightarrow> Some 0
     | Some (MK_Owned a) \<Rightarrow> Some a
     | Some (MK_Import i) \<Rightarrow> Option.bind (get_opt (st_modules st) (unat i)) (\<lambda>im.
         case md_memory im of Some (MK_Owned a) \<Rightarrow> Some a | _ \<Rightarrow> None)
     | Some (MK_ImportHost h i) \<Rightarrow> Option.bind (get_opt (st_host_modules st) (unat h)) (\<lambda>hm.
         map_option hm_addr (get_opt (hmod_memory hm) (unat i))))"

definition get_table :: "store \<Rightarrow> u8 \<Rightarrow> nat option" where
  "get_table st r = Option.bind (get_opt (st_modules st) (unat r)) (\<lambda>md.
     case md_table md of
       None \<Rightarrow> Some 0
     | Some (TK_Owned a _) \<Rightarrow> Some a
     | Some (TK_Import i) \<Rightarrow> Option.bind (get_opt (st_modules st) (unat i)) (\<lambda>im.
         case md_table im of Some (TK_Owned a _) \<Rightarrow> Some a | _ \<Rightarrow> None)
     | Some (TK_ImportHost h i) \<Rightarrow> Option.bind (get_opt (st_host_modules st) (unat h)) (\<lambda>hm.
         map_option ht_addr (get_opt (hmod_table hm) (unat i))))"

text \<open>The number of strong references to a memory: its owners in the store, and those outside of it.\<close>

definition owns_memory :: "nat \<Rightarrow> wmodule \<Rightarrow> bool" where
  "owns_memory a md \<longleftrightarrow> md_memory md = Some (MK_Owned a)"

definition memory_refs :: "store \<Rightarrow> nat \<Rightarrow> nat" where
  "memory_refs st a =
     (if a = 0 then 1 else 0) +
     length (filter (owns_memory a) (st_modules st)) +
     sum_list (map (\<lambda>hm. length (filter (\<lambda>s. hm_addr s = a) (hmod_memory hm))) (st_host_modules st)) +
     cell_extra (st_memories st ! a)"

section \<open>Index spaces\<close>

fun find_func_import :: "import_item list \<Rightarrow> u32 \<Rightarrow> u32 \<Rightarrow> sym_ref + u32" where
  "find_func_import [] x n = Inr n"
| "find_func_import (Imp_Func md i # is) x n =
     (if x = n then Inl (Ref_Extern md i) else find_func_import is x (n + 1))"
| "find_func_import (Imp_HostFunc md i # is) x n =
     (if x = n then Inl (Ref_Host md i) else find_func_import is x (n + 1))"
| "find_func_import (_ # is) x n = find_func_import is x n"

definition get_func_ref :: "wmodule \<Rightarrow> u32 \<Rightarrow> sym_ref option" where
  "get_func_ref md x = (case find_func_import (md_imports md) x 0 of
     Inl r \<Rightarrow> Some r
   | Inr n \<Rightarrow> let i = unat (x - n) in
       if length (md_functions md) \<le> i then None else Some (Ref_Module (word_of_nat i)))"

fun find_global_import :: "import_item list \<Rightarrow> u32 \<Rightarrow> u32 \<Rightarrow> sym_ref + u32" where
  "find_global_import [] x n = Inr n"
| "find_global_import (Imp_Global md i # is) x n =
     (if x = n then Inl (Ref_Extern md i) else find_global_import is x (n + 1))"
| "find_global_import (Imp_HostGlobal md i # is) x n =
     (if x = n then Inl (Ref_Host md i) else find_global_import is x (n + 1))"
| "find_global_import (_ # is) x n = find_global_import is x n"

definition get_global_ref :: "wmodule \<Rightarrow> u32 \<Rightarrow> sym_ref option" where
  "get_global_ref md x = (case find_global_import (md_imports md) x 0 of
     Inl r \<Rightarrow> Some r
   | Inr n \<Rightarrow> let i = unat (x - n) in
       if length (md_globals md) \<le> i then None else Some (Ref_Module (word_of_nat i)))"

definition check_memory_defined :: "wmodule \<Rightarrow> (unit, validation_error) result" where
  "check_memory_defined md = (if md_memory md = None then Err MemoryNotDefined else Ok ())"

text \<open>The imports of one kind, as references in import order.\<close>

fun func_imports :: "import_item list \<Rightarrow> sym_ref list" where
  "func_imports [] = []"
| "func_imports (Imp_Func md i # is) = Ref_Extern md i # func_imports is"
| "func_imports (Imp_HostFunc md i # is) = Ref_Host md i # func_imports is"
| "func_imports (_ # is) = func_imports is"

fun global_imports :: "import_item list \<Rightarrow> sym_ref list" where
  "global_imports [] = []"
| "global_imports (Imp_Global md i # is) = Ref_Extern md i # global_imports is"
| "global_imports (Imp_HostGlobal md i # is) = Ref_Host md i # global_imports is"
| "global_imports (_ # is) = global_imports is"

text \<open>The loop of both lookups counts through such a list.\<close>

fun count_to :: "sym_ref list \<Rightarrow> u32 \<Rightarrow> u32 \<Rightarrow> sym_ref + u32" where
  "count_to [] x n = Inr n"
| "count_to (r # rs) x n = (if x = n then Inl r else count_to rs x (n + 1))"

lemma find_func_import_count: "find_func_import is x n = count_to (func_imports is) x n"
  by (induction "is" arbitrary: n rule: func_imports.induct) auto

lemma find_global_import_count: "find_global_import is x n = count_to (global_imports is) x n"
  by (induction "is" arbitrary: n rule: global_imports.induct) auto

lemma count_to_eq:
  assumes "unat n \<le> unat x" "unat n + length rs < 2 ^ 32"
  shows "count_to rs x n =
    (if unat x - unat n < length rs then Inl (rs ! (unat x - unat n)) else Inr (n + word_of_nat (length rs)))"
  using assms
proof (induction rs arbitrary: n)
  case (Cons r rs)
  show ?case
  proof (cases "x = n")
    case False
    then have lt: "unat n < unat x" using Cons.prems(1) by (metis le_neq_implies_less word_unat_eq_iff)
    have n1: "unat (n + 1) = Suc (unat n)"
      using Cons.prems(2) by (subst unat_word_ariths) simp
    have "count_to (r # rs) x n = (if unat x - unat (n + 1) < length rs then Inl (rs ! (unat x - unat (n + 1)))
        else Inr (n + 1 + word_of_nat (length rs)))"
      using False Cons.IH [of "n + 1"] lt Cons.prems(2) by (simp add: n1)
    moreover have "unat x - unat n = Suc (unat x - unat (n + 1))" using lt n1 by simp
    ultimately show ?thesis by (simp add: algebra_simps)
  qed simp
qed simp

text \<open>
  The function index space of a module is its imported functions in import order, followed
  by its own functions in order, and nothing else: every index below the number of imports resolves
  to that import, the next ones to the module's functions, and an index past both to nothing.
\<close>

lemma func_index_space:
  assumes "length (func_imports (md_imports md)) + length (md_functions md) < 2 ^ 16"
  shows "get_func_ref md x = get_opt (func_imports (md_imports md) @
    map (\<lambda>i. Ref_Module (word_of_nat i)) [0..<length (md_functions md)]) (unat x)"
proof -
  let ?k = "length (func_imports (md_imports md))"
  have c: "count_to (func_imports (md_imports md)) x 0 =
    (if unat x < ?k then Inl (func_imports (md_imports md) ! unat x) else Inr (word_of_nat ?k))"
    using count_to_eq [of 0 x "func_imports (md_imports md)"] assms by simp
  have "unat (x - word_of_nat ?k) = unat x - ?k" if "\<not> unat x < ?k"
  proof -
    have k: "unat (word_of_nat ?k :: u32) = ?k" using assms by (simp add: unat_of_nat)
    with that show ?thesis by (subst unat_sub) (simp_all add: word_le_nat_alt)
  qed
  then show ?thesis
    by (auto simp: get_func_ref_def find_func_import_count c get_opt_def nth_append Let_def)
qed

definition small_module :: wmodule where
  "small_module = \<lparr>md_name = [], md_types = [\<lparr>ft_params = [], ft_returns = []\<rparr>],
     md_functions = [\<lparr>fn_ty = 0, fn_stack_usage = 0, fn_local_size = 0, fn_param_size = 0,
       fn_return = None, fn_locals = [], fn_expr = JumpTarget 0\<rparr>],
     md_table = None, md_memory = None, md_globals = [],
     md_imports = [Imp_Memory 0 0, Imp_HostFunc 2 5], md_exports = [], md_start = None\<rparr>"

lemma func_index_space_witness:
  "get_func_ref small_module 0 = Some (Ref_Host 2 5) \<and> get_func_ref small_module 1 = Some (Ref_Module 0) \<and>
   get_func_ref small_module 2 = None"
  using func_index_space [of small_module 0] func_index_space [of small_module 1]
    func_index_space [of small_module 2]
  by (simp add: small_module_def get_opt_def)

lemma count_to_Inl: "count_to rs x n = Inl r \<Longrightarrow> r \<in> set rs"
  by (induction rs arbitrary: n) (auto split: if_splits)

lemma get_func_ref_cases:
  assumes "get_func_ref md x = Some r"
  obtains (imported) "r \<in> set (func_imports (md_imports md))"
  | (own) i where "i < length (md_functions md)" "r = Ref_Module (word_of_nat i)"
proof (cases "find_func_import (md_imports md) x 0")
  case (Inl r')
  then show thesis
    using imported assms count_to_Inl [of _ x 0 r'] by (auto simp: get_func_ref_def find_func_import_count)
next
  case (Inr n)
  then show thesis
    using own [of "unat (x - n)"] assms by (auto simp: get_func_ref_def Let_def not_le split: if_splits)
qed

end
