(* ===== verification/Builder.thy ===== *)
theory Builder
  imports Backpatch Module_Data Ops
begin

text \<open>
  \<open>TextBuilder\<close> (src/text.rs): the type-checking and code-emitting state of one function. The control
  frames and the operand types are \<open>StaticVec\<close>s (src/util/static_vec.rs), lists in push order whose
  length is bounded by the const generics \<open>MAX_CONTROL_FRAMES\<close> and \<open>MAX_STACK_DEPTH\<close>; these two, the
  store, the module and the function are the fixed environment \<open>build_env\<close>.

  Lemmas: locals resolve to disjoint slots inside the frame; the builder invariant \<open>builder_inv\<close>
  (frame heights, chains of pending jumps, high-water mark) is in \<open>Builder_Inv\<close>.
\<close>

section \<open>Static vectors\<close>

definition sv_push :: "nat \<Rightarrow> 'a list \<Rightarrow> 'a \<Rightarrow> ('a list, alloc_error) result" where
  "sv_push cap xs x = (if cap \<le> length xs then Err AE_OutOfMemory else Ok (xs @ [x]))"

definition sv_pop :: "'a list \<Rightarrow> 'a option \<times> 'a list" where
  "sv_pop xs = (if xs = [] then (None, []) else (Some (last xs), butlast xs))"

definition sv_truncate :: "'a list \<Rightarrow> nat \<Rightarrow> ('a list, 'e) result" where
  "sv_truncate xs n = (if n \<le> length xs then Ok (take n xs) else Panic)"

definition sv_last :: "'a list \<Rightarrow> 'a option" where
  "sv_last xs = (if xs = [] then None else Some (last xs))"

section \<open>State\<close>

datatype operand_type = OT_Unknown | OT_Known val_type

primrec operand_val_type :: "operand_type \<Rightarrow> val_type" where
  "operand_val_type OT_Unknown = T_I32"
| "operand_val_type (OT_Known t) = t"

definition operand_u8 :: "operand_type \<Rightarrow> u8" where
  "operand_u8 t = val_type_repr (operand_val_type t)"

datatype block_kind = BK_Loop | BK_Block | BK_If

record control_frame =
  cf_kind :: block_kind
  cf_label :: result_type
  cf_out :: result_type
  cf_height :: u16
  cf_target :: jump_target
  cf_unreachable :: bool

record global_variable =
  gv_reference :: sym_ref
  gv_ty :: val_type
  gv_mutable :: bool

record build_env =
  be_store :: store
  be_module :: wmodule
  be_func :: func
  be_max_frames :: nat
  be_max_stack :: nat

record builder =
  tb_code :: code_builder
  tb_frames :: "control_frame list"
  tb_stack :: "operand_type list"
  tb_highwater :: nat
  tb_table_result :: "result_type option"

type_synonym 'a tb = "(builder, 'a, validation_error) m"

text \<open>Running an operation of the code buffer, with the error conversion of \<open>?\<close>.\<close>

definition onCodeB :: "(code_builder, 'a, 'e) m \<Rightarrow> (builder, 'a, 'e) m" where
  "onCodeB f = (\<lambda>b. let (a, cd) = f (tb_code b) in (a, b\<lparr>tb_code := cd\<rparr>))"

definition emit_word :: "u16 \<Rightarrow> unit tb" where
  "emit_word w = map_err VAllocError (onCodeB (code_push w))"

definition pcB :: "jump_target tb" where
  "pcB = onCodeB code_pc"

text \<open>A backpatch run, whose closure has variables of its own.\<close>

definition backpatchB :: "'x \<Rightarrow> jump_target \<Rightarrow> 'x patch \<Rightarrow> 'x tb" where
  "backpatchB x start f = (\<lambda>b. case backpatch start f (tb_code b, x) of
     (Ok _, (cd, x')) \<Rightarrow> (Ok x', b\<lparr>tb_code := cd\<rparr>)
   | (Err e, (cd, x')) \<Rightarrow> (Err e, b\<lparr>tb_code := cd\<rparr>)
   | (Panic, (cd, x')) \<Rightarrow> (Panic, b\<lparr>tb_code := cd\<rparr>))"

section \<open>Variables\<close>

text \<open>The parameter loop of \<open>get_local\<close>: type and byte offset of parameter \<open>x\<close>.\<close>

fun param_slot :: "val_type list \<Rightarrow> u16 \<Rightarrow> nat \<Rightarrow> nat \<Rightarrow> (val_type \<times> nat) option" where
  "param_slot [] x i off = None"
| "param_slot (t # ts) x i off =
     (if x = word_of_nat i then Some (t, off) else param_slot ts x (i + 1) (off + val_type_size t))"

text \<open>The local loop; \<open>ci\<close> is the 16-bit \<open>current_index\<close>, whose sums wrap around in release builds.\<close>

fun local_slot :: "(u16 \<times> val_type) list \<Rightarrow> u16 \<Rightarrow> u16 \<Rightarrow> nat \<Rightarrow> (local_variable, validation_error) result" where
  "local_slot [] x ci off = Err LocalIdxOutOfRange"
| "local_slot ((n, ty) # ls) x ci off =
     (if x < ci + n then
        let offset = off + val_type_size ty * unat (x - ci);
            word_offset = offset div 4 in
        if 32767 - 2 < word_offset then Err LocalIdxOutOfRange
        else Ok \<lparr>lv_frame_offset = word_of_nat word_offset + 2, lv_ty = ty\<rparr>
      else local_slot ls x (ci + n) (off + unat n * val_type_size ty))"

definition get_local :: "build_env \<Rightarrow> u32 \<Rightarrow> (local_variable, validation_error) result" where
  "get_local env x32 =
     (if 0xFFFF < x32 then Err LocalIdxOutOfRange
      else let x = ucast x32 :: u16; fn = be_func env in
        case get_opt (md_types (be_module env)) (unat (fn_ty fn)) of
          None \<Rightarrow> Err TypeIdxOutOfRange
        | Some signature \<Rightarrow>
            (case param_slot (ft_params signature) x 0 0 of
               Some (ty, off) \<Rightarrow>
                 Ok \<lparr>lv_frame_offset = word_of_nat (off div 4) - ucast (fn_param_size fn), lv_ty = ty\<rparr>
             | None \<Rightarrow> local_slot (fn_locals fn) x (word_of_nat (length (ft_params signature))) 0))"

definition get_global :: "build_env \<Rightarrow> u32 \<Rightarrow> (global_variable, validation_error) result" where
  "get_global env x = (case get_global_ref (be_module env) x of
     None \<Rightarrow> Err GlobalIdxOutOfRange
   | Some (Ref_Module idx) \<Rightarrow>
       (case get_opt (md_globals (be_module env)) (unat idx) of
          None \<Rightarrow> Err GlobalIdxOutOfRange
        | Some g \<Rightarrow> Ok \<lparr>gv_reference = Ref_Module idx, gv_ty = gt_ty (gl_type g), gv_mutable = gt_mutable (gl_type g)\<rparr>)
   | Some (Ref_Host md i) \<Rightarrow>
       bindR (at (st_host_modules (be_store env)) (unat md)) (\<lambda>hm.
       bindR (at (hmod_globals hm) (unat i)) (\<lambda>g.
       Ok \<lparr>gv_reference = Ref_Host md i, gv_ty = hg_ty g, gv_mutable = hg_mutable g\<rparr>))
   | Some (Ref_Extern md i) \<Rightarrow>
       bindR (at (st_modules (be_store env)) (unat md)) (\<lambda>em.
       bindR (at (md_globals em) (unat i)) (\<lambda>g.
       Ok \<lparr>gv_reference = Ref_Extern md i, gv_ty = gt_ty (gl_type g), gv_mutable = gt_mutable (gl_type g)\<rparr>)))"

section \<open>The operand stack\<close>

primrec ty_words :: "val_type \<Rightarrow> nat" where
  "ty_words T_I32 = 1"
| "ty_words T_I64 = 2"
| "ty_words T_F32 = 1"
| "ty_words T_F64 = 2"

text \<open>The loop of \<open>stack_height\<close> and \<open>stack_height_for\<close>: it stops at an unknown type.\<close>

fun height_words :: "operand_type list \<Rightarrow> nat" where
  "height_words [] = 0"
| "height_words (OT_Unknown # ts) = 0"
| "height_words (OT_Known t # ts) = ty_words t + height_words ts"

definition stack_height :: "nat tb" where
  "stack_height = getM (\<lambda>b. height_words (tb_stack b))"

definition stack_height_for :: "nat \<Rightarrow> nat tb" where
  "stack_height_for n = bindM (getM tb_stack) (\<lambda>st.
     thenM (assertM (n \<le> length st)) (retM (height_words (take n st))))"

definition is_unreachable :: "builder \<Rightarrow> bool" where
  "is_unreachable b = (case sv_last (tb_frames b) of Some c \<Rightarrow> cf_unreachable c | None \<Rightarrow> False)"

definition control_frame_stack_len :: "nat tb" where
  "control_frame_stack_len = bindM (getM (\<lambda>b. (length (tb_stack b),
       case sv_last (tb_frames b) of Some c \<Rightarrow> unat (cf_height c) | None \<Rightarrow> 0)))
     (\<lambda>(len, height). thenM (assertM (height \<le> len)) (retM (len - height)))"

definition mark_unreachable :: "unit tb" where
  "mark_unreachable = bindM (getM (\<lambda>b. sv_last (tb_frames b))) (\<lambda>lst. case lst of
     None \<Rightarrow> retM ()
   | Some frame \<Rightarrow>
       bindM (getM tb_stack) (\<lambda>st.
       bindM (liftR (sv_truncate st (unat (cf_height frame)))) (\<lambda>st'.
       modifyM (\<lambda>b. b\<lparr>tb_stack := st',
         tb_frames := butlast (tb_frames b) @ [frame\<lparr>cf_unreachable := True\<rparr>]\<rparr>))))"

definition push_stack :: "build_env \<Rightarrow> operand_type \<Rightarrow> unit tb" where
  "push_stack env ty =
     bindM (getM tb_stack) (\<lambda>st.
     bindM (map_err VAllocError (liftR (sv_push (be_max_stack env) st ty))) (\<lambda>st'.
     thenM (modifyM (\<lambda>b. b\<lparr>tb_stack := st'\<rparr>))
     (bindM stack_height (\<lambda>l.
      modifyM (\<lambda>b. if tb_highwater b < l then b\<lparr>tb_highwater := l\<rparr> else b)))))"

definition pop_stack_t :: "operand_type tb" where
  "pop_stack_t =
     bindM control_frame_stack_len (\<lambda>len.
     bindM (getM is_unreachable) (\<lambda>unreach.
     if len = 0 \<and> unreach then retM OT_Unknown
     else if len = 0 then errM StackUnderflow
     else bindM (getM (\<lambda>b. sv_pop (tb_stack b))) (\<lambda>(x, st').
       thenM (modifyM (\<lambda>b. b\<lparr>tb_stack := st'\<rparr>)) (ok_or x StackUnderflow))))"

definition pop_stack :: "operand_type \<Rightarrow> operand_type tb" where
  "pop_stack expected = bindM pop_stack_t (\<lambda>actual.
     if actual = OT_Unknown then retM expected
     else if expected = OT_Unknown then retM actual
     else if actual \<noteq> expected then errM TypeMismatch
     else retM actual)"

definition pop_result_type :: "result_type \<Rightarrow> unit tb" where
  "pop_result_type r = (case r of
     Some t \<Rightarrow> thenM (pop_stack (OT_Known t)) (retM ())
   | None \<Rightarrow> retM ())"

definition push_result_type :: "build_env \<Rightarrow> result_type \<Rightarrow> unit tb" where
  "push_result_type env r = (case r of Some t \<Rightarrow> push_stack env (OT_Known t) | None \<Rightarrow> retM ())"

section \<open>Branch tables\<close>

definition check_br_table_result :: "result_type \<Rightarrow> unit tb" where
  "check_br_table_result r = bindM (getM tb_table_result) (\<lambda>other. case other of
     Some o' \<Rightarrow> if o' \<noteq> r then errM BrTableResultTypeMismatch else retM ()
   | None \<Rightarrow> modifyM (\<lambda>b. b\<lparr>tb_table_result := Some r\<rparr>))"

definition check_and_clear_br_table_result :: "result_type \<Rightarrow> unit tb" where
  "check_and_clear_br_table_result r = bindM (getM tb_table_result) (\<lambda>other. case other of
     Some o' \<Rightarrow> if o' \<noteq> r then errM BrTableResultTypeMismatch
                else modifyM (\<lambda>b. b\<lparr>tb_table_result := None\<rparr>)
   | None \<Rightarrow> retM ())"

section \<open>Control frames and labels\<close>

definition emit_label :: "label_target \<Rightarrow> unit tb" where
  "emit_label l = thenM (emit_word (ucast (lt_bits l))) (emit_word (ucast (drop_bit 16 (lt_bits l))))"

definition set_target :: "nat \<Rightarrow> jump_target \<Rightarrow> builder \<Rightarrow> builder" where
  "set_target i t b = b\<lparr>tb_frames := (tb_frames b)[i := (tb_frames b ! i)\<lparr>cf_target := t\<rparr>]\<rparr>"

definition write_label_target :: "build_env \<Rightarrow> u32 \<Rightarrow> result_type tb" where
  "write_label_target env label =
     bindM (getM tb_frames) (\<lambda>frames.
     if length frames \<le> unat label then errM InvalidLabelIndex
     else let idx = length frames - 1 - unat label in
       if idx = 0 then
         thenM (emit_label (label_early_return (fn_return (be_func env)))) (retM (fn_return (be_func env)))
       else
         bindM pcB (\<lambda>pc.
         bindM stack_height (\<lambda>start_height.
         bindM (indexM frames idx) (\<lambda>frame.
         bindM (stack_height_for (unat (cf_height frame))) (\<lambda>end_height.
         thenM (assertM (end_height \<le> start_height))
         (let delta = start_height - end_height in
          if 255 < delta then errM LabelStackJumpTooDeep
          else case cf_kind frame of
            BK_Loop \<Rightarrow>
              bindM (liftR (jump_offset_new pc (cf_target frame))) (\<lambda>off.
              thenM (emit_label (label_new None (word_of_nat delta) off))
              (retM None))
          | _ \<Rightarrow>
              bindM pcB (\<lambda>pc'.
              thenM (modifyM (set_target idx pc'))
              (bindM (liftR (jump_offset_new pc (cf_target frame))) (\<lambda>off.
               thenM (emit_label (label_new (cf_out frame) (word_of_nat delta) off))
               (retM (cf_label frame)))))))))))"

definition push_control :: "build_env \<Rightarrow> block_kind \<Rightarrow> result_type \<Rightarrow> result_type \<Rightarrow> unit tb" where
  "push_control env kind label out =
     bindM (getM (\<lambda>b. (tb_frames b, length (tb_stack b)))) (\<lambda>(frames, h).
     bindM (map_err VAllocError (liftR (sv_push (be_max_frames env) frames
       \<lparr>cf_kind = kind, cf_label = label, cf_out = out, cf_height = word_of_nat h,
        cf_target = SENTINEL, cf_unreachable = False\<rparr>))) (\<lambda>frames'.
     modifyM (\<lambda>b. b\<lparr>tb_frames := frames'\<rparr>)))"

definition set_control_target :: "jump_target \<Rightarrow> unit tb" where
  "set_control_target t =
     bindM (getM (\<lambda>b. sv_last (tb_frames b))) (\<lambda>lst.
     bindM (ok_or lst InvalidEndBlock) (\<lambda>frame.
     modifyM (\<lambda>b. set_target (length (tb_frames b) - 1) t b)))"

definition write_if_else_target :: "unit tb" where
  "write_if_else_target =
     bindM (getM (\<lambda>b. sv_last (tb_frames b))) (\<lambda>lst.
     bindM (ok_or lst InvalidEndBlock) (\<lambda>frame.
     bindM pcB (\<lambda>patch_location.
     thenM (emit_label (label_new (cf_out frame) 0 jump_sentinel))
     (bindM (getM (\<lambda>b. sv_last (tb_frames b))) (\<lambda>lst'.
      thenM (unwrapM lst')
      (modifyM (\<lambda>b. set_target (length (tb_frames b) - 1) patch_location b)))))))"

text \<open>Popping the top frame, once its results have been taken off the stack.\<close>

definition pop_frame :: "control_frame tb" where
  "pop_frame = bindM (getM (\<lambda>b. sv_pop (tb_frames b))) (\<lambda>(x, frames').
     thenM (modifyM (\<lambda>b. b\<lparr>tb_frames := frames'\<rparr>)) (unwrapM x))"

definition pop_control_and_patch_if :: "(result_type \<times> jump_target) tb" where
  "pop_control_and_patch_if =
     bindM (getM (\<lambda>b. sv_last (tb_frames b))) (\<lambda>lst0.
     bindM (unwrapM lst0) (\<lambda>lst.
     if cf_kind lst \<noteq> BK_If then errM InvalidElseBlock
     else thenM (pop_result_type (cf_out lst))
       (bindM (getM (\<lambda>b. length (tb_stack b))) (\<lambda>len.
        if len \<noteq> unat (cf_height lst) then errM BlockResultTypeMismatch
        else bindM pop_frame (\<lambda>frame.
          bindM pcB (\<lambda>pc.
          bindM (backpatchB (SENTINEL, SENTINEL) (cf_target frame) (patch_if_closure (cf_target frame) pc))
          (\<lambda>(prev, remaining). retM (cf_out frame, remaining))))))))"

definition pop_control :: "result_type tb" where
  "pop_control =
     bindM (getM (\<lambda>b. sv_last (tb_frames b))) (\<lambda>lst0.
     bindM (unwrapM lst0) (\<lambda>lst.
     thenM (pop_result_type (cf_out lst))
     (bindM (getM (\<lambda>b. length (tb_stack b))) (\<lambda>len.
      if len \<noteq> unat (cf_height lst) then errM BlockResultTypeMismatch
      else bindM pop_frame (\<lambda>frame.
        thenM (case cf_kind frame of
            BK_Loop \<Rightarrow> retM ()
          | BK_Block \<Rightarrow> bindM pcB (\<lambda>pc. backpatchB () (cf_target frame) (patch_all_closure pc))
          | BK_If \<Rightarrow>
              if cf_out frame = None then
                bindM pcB (\<lambda>pc. backpatchB () (cf_target frame) (patch_all_closure pc))
              else errM BlockResultTypeMismatch)
        (retM (cf_out frame)))))))"

definition builder_new :: "build_env \<Rightarrow> code_builder \<Rightarrow> builder" where
  "builder_new env cd =
     (let b = \<lparr>tb_code = cd, tb_frames = [], tb_stack = [], tb_highwater = 0, tb_table_result = None\<rparr>;
          r = fn_return (be_func env) in
      snd (push_control env BK_Block r r b))"

section \<open>Instruction encodings\<close>

definition opcode_word :: "u8 \<Rightarrow> u8 \<Rightarrow> u16" where
  "opcode_word p imm = push_bit 8 (ucast p) OR ucast imm"

definition instr :: "u8 \<Rightarrow> unit tb" where
  "instr p = emit_word (push_bit 8 (ucast p))"

definition instr_imm_8 :: "u8 \<Rightarrow> u8 \<Rightarrow> unit tb" where
  "instr_imm_8 p imm = emit_word (opcode_word p imm)"

definition write_16 :: "u16 \<Rightarrow> unit tb" where
  "write_16 w = emit_word w"

definition write_32 :: "u32 \<Rightarrow> unit tb" where
  "write_32 i = thenM (emit_word (ucast i)) (emit_word (ucast (drop_bit 16 i)))"

definition write_64 :: "u64 \<Rightarrow> unit tb" where
  "write_64 i = thenM (emit_word (ucast i)) (thenM (emit_word (ucast (drop_bit 16 i)))
     (thenM (emit_word (ucast (drop_bit 32 i))) (emit_word (ucast (drop_bit 48 i)))))"

definition instr_imm_8_or_16 :: "u8 \<Rightarrow> u32 \<Rightarrow> unit tb" where
  "instr_imm_8_or_16 p idx =
     (if 0xFFFF < idx then errM IdxTooLarge
      else if idx < 0xFF then instr_imm_8 p (ucast idx)
      else thenM (instr_imm_8 p 0xFF) (emit_word (ucast idx)))"

record mem_arg =
  ma_align :: u32
  ma_offset :: u32

definition instr_mem :: "u8 \<Rightarrow> mem_arg \<Rightarrow> unit tb" where
  "instr_mem p ma =
     (if 0xFF \<le> ma_align ma then errM MemAlignTooLarge
      else thenM (instr_imm_8 p (ucast (ma_align ma)))
        (thenM (emit_word (ucast (ma_offset ma AND 0xFFFF)))
          (emit_word (ucast (drop_bit 16 (ma_offset ma) AND 0xFFFF)))))"

definition instr_imm_8_or_32 :: "u8 \<Rightarrow> u32 \<Rightarrow> unit tb" where
  "instr_imm_8_or_32 p i =
     (if i < 0xFF then instr_imm_8 p (ucast i)
      else thenM (instr_imm_8 p 0xFF) (write_32 i))"

definition instr_imm_8_or_64 :: "u8 \<Rightarrow> u64 \<Rightarrow> unit tb" where
  "instr_imm_8_or_64 p i =
     (if i < 0xFF then instr_imm_8 p (ucast i)
      else thenM (instr_imm_8 p 0xFF) (write_64 i))"

section \<open>Where a local lives\<close>

definition ty_list_words :: "val_type list \<Rightarrow> nat" where
  "ty_list_words ts = sum_list (map ty_words ts)"

lemma ty_list_words_simps [simp]:
  "ty_list_words [] = 0" "ty_list_words (t # ts) = ty_words t + ty_list_words ts"
  "ty_list_words (ts @ us) = ty_list_words ts + ty_list_words us"
  by (simp_all add: ty_list_words_def)

lemma ty_list_words_replicate [simp]: "ty_list_words (replicate n t) = n * ty_words t"
  by (induction n) auto

lemma val_type_size_words: "val_type_size t = 4 * ty_words t"
  by (cases t) simp_all

lemma param_words_eq: "param_words ts = ty_list_words ts"
proof -
  have "foldl (\<lambda>n t. n + val_type_size t) k ts = k + 4 * ty_list_words ts" for k
    by (induction ts arbitrary: k) (auto simp: val_type_size_words)
  then show ?thesis by (simp add: param_words_def)
qed

definition local_types :: "(u16 \<times> val_type) list \<Rightarrow> val_type list" where
  "local_types ls = concat (map (\<lambda>(n, t). replicate (unat n) t) ls)"

lemma local_types_simps [simp]:
  "local_types [] = []" "local_types ((n, t) # ls) = replicate (unat n) t @ local_types ls"
  by (simp_all add: local_types_def)

lemma param_slot_eq:
  assumes "i \<le> unat x" "i + length ts \<le> 2 ^ 16"
  shows "param_slot ts x i (4 * off) =
    (if unat x - i < length ts then Some (ts ! (unat x - i), 4 * (off + ty_list_words (take (unat x - i) ts))) else None)"
  using assms
proof (induction ts arbitrary: i off)
  case (Cons t ts)
  have i: "unat (word_of_nat i :: u16) = i" using Cons.prems(2) by (simp add: unat_of_nat)
  show ?case
  proof (cases "x = word_of_nat i")
    case True
    then have "unat x = i" using i by simp
    then show ?thesis using True by simp
  next
    case False
    then have "unat x \<noteq> i" by (metis word_unat_eq_iff i)
    then obtain k where k: "unat x = Suc (i + k)" using Cons.prems(1) by (metis le_neq_implies_less less_imp_Suc_add)
    have "param_slot (t # ts) x i (4 * off) = param_slot ts x (Suc i) (4 * (off + ty_words t))"
      using False by (simp add: val_type_size_words algebra_simps)
    also have "\<dots> = (if k < length ts then Some (ts ! k, 4 * (off + ty_words t + ty_list_words (take k ts))) else None)"
      using Cons.IH [of "Suc i" "off + ty_words t"] Cons.prems k by simp
    finally show ?thesis by (simp add: k Suc_diff_le algebra_simps)
  qed
qed simp

text \<open>The slot of local \<open>j\<close> among the locals, \<open>base\<close> words after the frame header.\<close>

definition local_at :: "val_type list \<Rightarrow> nat \<Rightarrow> nat \<Rightarrow> (local_variable, validation_error) result" where
  "local_at ts j base = (if j < length ts \<and> base + ty_list_words (take j ts) \<le> 32765
     then Ok \<lparr>lv_frame_offset = word_of_nat (base + ty_list_words (take j ts)) + 2, lv_ty = ts ! j\<rparr>
     else Err LocalIdxOutOfRange)"

lemma local_slot_eq:
  assumes "c \<le> unat x" "c + length (local_types ls) < 2 ^ 16"
  shows "local_slot ls x (word_of_nat c) (4 * off) = local_at (local_types ls) (unat x - c) off"
  using assms
proof (induction ls arbitrary: c off)
  case (Cons p ls)
  obtain n ty where p: "p = (n, ty)" by (cases p)
  have c: "unat (word_of_nat c :: u16) = c" and cn: "unat (word_of_nat c + n) = c + unat n"
    using Cons.prems(2) by (simp_all add: p unat_of_nat unat_word_ariths)
  have less: "x < word_of_nat c + n \<longleftrightarrow> unat x - c < unat n"
    using Cons.prems(1) by (auto simp: word_less_nat_alt cn)
  have diff: "unat (x - word_of_nat c) = unat x - c"
    using Cons.prems(1) c by (subst unat_sub) (simp_all add: word_le_nat_alt)
  show ?case
  proof (cases "unat x - c < unat n")
    case True
    have "4 * off + val_type_size ty * (unat x - c) = 4 * (off + (unat x - c) * ty_words ty)"
      by (simp only: val_type_size_words) algebra
    then have wo: "(4 * off + val_type_size ty * (unat x - c)) div 4 = off + (unat x - c) * ty_words ty"
      by (metis nonzero_mult_div_cancel_left zero_neq_numeral)
    have "local_slot (p # ls) x (word_of_nat c) (4 * off) =
        (if 32765 < off + (unat x - c) * ty_words ty then Err LocalIdxOutOfRange
         else Ok \<lparr>lv_frame_offset = word_of_nat (off + (unat x - c) * ty_words ty) + 2, lv_ty = ty\<rparr>)"
      using True unfolding p local_slot.simps less diff Let_def wo by (simp add: less)
    then show ?thesis
      using True by (simp add: p local_at_def nth_append min_def)
  next
    case False
    then have le: "c + unat n \<le> unat x" using Cons.prems(1) by simp
    have "local_slot (p # ls) x (word_of_nat c) (4 * off) =
        local_slot ls x (word_of_nat (c + unat n)) (4 * (off + unat n * ty_words ty))"
    proof -
      have eq: "4 * off + unat n * val_type_size ty = 4 * (off + unat n * ty_words ty)"
        by (simp only: val_type_size_words) algebra
      show ?thesis using False unfolding p local_slot.simps less eq by simp
    qed
    also have "\<dots> = local_at (local_types ls) (unat x - (c + unat n)) (off + unat n * ty_words ty)"
      using Cons.prems(2) by (intro Cons.IH [OF le]) (simp add: p)
    finally have run: "local_slot (p # ls) x (word_of_nat c) (4 * off) =
        local_at (local_types ls) (unat x - (c + unat n)) (off + unat n * ty_words ty)" .
    obtain k where k: "unat x - c = unat n + k" using False le_Suc_ex [of "unat n" "unat x - c"] by auto
    then have "unat x - (c + unat n) = k" by simp
    then show ?thesis unfolding run k by (simp add: p local_at_def nth_append add.assoc)
  qed
qed (simp add: local_at_def)

text \<open>
  Claim C17. \<open>get_local\<close> computes the layout of the frame: the parameters lie in order directly below
  the frame pointer (offset minus the parameter size), the declared locals in order from two words
  above it, each with its declared type and with the widths of its predecessors as distance; a local
  more than 32765 words up, or an index past the last local, is rejected.
\<close>

theorem get_local_layout:
  assumes "get_opt (md_types (be_module env)) (unat (fn_ty (be_func env))) = Some sig"
    and "length (ft_params sig) + length (local_types (fn_locals (be_func env))) < 2 ^ 16"
  shows "get_local env x = (let ps = ft_params sig; ls = local_types (fn_locals (be_func env)) in
     if unat x < length ps
     then Ok \<lparr>lv_frame_offset = word_of_nat (ty_list_words (take (unat x) ps)) - ucast (fn_param_size (be_func env)),
              lv_ty = ps ! unat x\<rparr>
     else local_at ls (unat x - length ps) 0)"
proof (cases "0xFFFF < x")
  case True
  then have "2 ^ 16 \<le> unat x" by (simp add: word_less_nat_alt)
  then have "\<not> unat x - length (ft_params sig) < length (local_types (fn_locals (be_func env)))"
    "\<not> unat x < length (ft_params sig)"
    using assms(2) by linarith+
  then show ?thesis using True by (simp only: get_local_def local_at_def Let_def if_True if_False simp_thms)
next
  case False
  then have x: "unat x < 2 ^ 16" by (simp add: word_less_nat_alt)
  then have ux: "unat (ucast x :: u16) = unat x" by (simp add: unsigned_ucast_eq take_bit_nat_eq_self)
  show ?thesis
    using False assms param_slot_eq [of 0 "ucast x" "ft_params sig" 0]
      local_slot_eq [of "length (ft_params sig)" "ucast x" "fn_locals (be_func env)" 0]
    by (simp add: get_local_def ux Let_def)
qed

definition two_locals :: build_env where
  "two_locals = \<lparr>be_store = \<lparr>st_modules = [], st_max_modules = 1, st_host_modules = [], st_memories = [], st_tables = []\<rparr>,
     be_module = small_module\<lparr>md_types := [\<lparr>ft_params = [T_I32, T_F64], ft_returns = []\<rparr>]\<rparr>,
     be_func = \<lparr>fn_ty = 0, fn_stack_usage = 0, fn_local_size = 4, fn_param_size = 3, fn_return = None,
       fn_locals = [(2, T_I32), (1, T_I64)], fn_expr = JumpTarget 0\<rparr>,
     be_max_frames = 8, be_max_stack = 8\<rparr>"

lemma get_local_layout_witness:
  "get_local two_locals 1 = Ok \<lparr>lv_frame_offset = 1 - 3, lv_ty = T_F64\<rparr> \<and>
   get_local two_locals 4 = Ok \<lparr>lv_frame_offset = 4, lv_ty = T_I64\<rparr> \<and>
   get_local two_locals 5 = Err LocalIdxOutOfRange"
proof -
  have two: "replicate 2 t = [t, t]" for t :: val_type by (simp add: numeral_2_eq_2)
  have ls: "local_types (fn_locals (be_func two_locals)) = [T_I32, T_I32, T_I64]"
    by (simp add: two_locals_def two)
  have sig: "get_opt (md_types (be_module two_locals)) (unat (fn_ty (be_func two_locals))) =
      Some \<lparr>ft_params = [T_I32, T_F64], ft_returns = []\<rparr>" "fn_param_size (be_func two_locals) = 3"
    by (simp_all add: two_locals_def get_opt_def)
  note layout = get_local_layout [OF sig(1), unfolded ls sig(2)]
  have "get_local two_locals 1 = Ok \<lparr>lv_frame_offset = 1 - 3, lv_ty = T_F64\<rparr>"
    unfolding layout [of 1, simplified] by simp
  moreover have "get_local two_locals 4 = Ok \<lparr>lv_frame_offset = 4, lv_ty = T_I64\<rparr>"
    unfolding layout [of 4, simplified] by (simp add: local_at_def numeral_2_eq_2)
  moreover have "get_local two_locals 5 = Err LocalIdxOutOfRange"
    unfolding layout [of 5, simplified] by (simp add: local_at_def)
  ultimately show ?thesis by blast
qed

text \<open>
  The bound on the indices is needed: the 16-bit index sum of \<open>get_local\<close> wraps around when
  parameters and locals together exceed 65535, although each list respects the limit its own reader
  checks, and then the first declared local, an i32 two words above the frame pointer, is rejected.
\<close>

lemma get_local_index_wraps:
  "\<exists>env sig. get_opt (md_types (be_module env)) (unat (fn_ty (be_func env))) = Some sig \<and>
     ty_list_words (ft_params sig) \<le> 255 \<and>
     ty_list_words (local_types (fn_locals (be_func env))) + 2 < 0xFFFF \<and>
     length (ft_params sig) = 10 \<and> local_types (fn_locals (be_func env)) ! 0 = T_I32 \<and>
     get_local env 10 = Err LocalIdxOutOfRange"
proof -
  define sig where "sig = \<lparr>ft_params = replicate 10 T_I32, ft_returns = []\<rparr>"
  define env where "env = two_locals\<lparr>be_module := small_module\<lparr>md_types := [sig]\<rparr>,
    be_func := be_func two_locals\<lparr>fn_param_size := 10, fn_locals := [(65530, T_I32)]\<rparr>\<rparr>"
  have env: "get_opt (md_types (be_module env)) (unat (fn_ty (be_func env))) = Some sig"
    "fn_locals (be_func env) = [(65530, T_I32)]" "ft_params sig = replicate 10 T_I32"
    by (simp_all add: env_def two_locals_def small_module_def get_opt_def sig_def)
  have "param_slot (replicate 10 T_I32) 10 0 0 = None"
    using param_slot_eq [of 0 10 "replicate 10 T_I32" 0] by simp
  then have "get_local env 10 = Err LocalIdxOutOfRange"
    unfolding get_local_def env Let_def by (simp add: env)
  moreover have "ty_list_words (ft_params sig) = 10"
    by (simp only: env ty_list_words_replicate ty_words.simps)
  moreover have "ty_list_words (local_types (fn_locals (be_func env))) = 65530"
    by (simp only: env local_types_simps ty_list_words_replicate ty_list_words_simps ty_words.simps) simp
  moreover have "length (ft_params sig) = 10" by (simp only: env length_replicate)
  moreover have "local_types (fn_locals (be_func env)) ! 0 = T_I32"
    by (simp only: env local_types_simps append_Nil2) simp
  ultimately show ?thesis using env(1) by (intro exI [of _ env] exI [of _ sig]) (simp del: One_nat_def)
qed

end
