(* ===== verification/Compiler.thy ===== *)
theory Compiler
  imports Builder
begin

text \<open>
  The compiler (src/compiler.rs): one operation per visitor method, each of which checks the operand
  types and appends the instruction's words. \<open>visit\<close> is the interface of the traits \<open>BaseVisitor\<close> and
  \<open>WasmVisitor\<close> of src/visitor.rs, one constructor per method with its arguments; \<open>compile_visit\<close> is
  the implementation of the traits for \<open>Compiler\<close>. An \<open>i32\<close> or \<open>i64\<close> constant is its bit pattern.
\<close>

datatype visit =
    Vs_unreachable | Vs_nop
  | Vs_enter_block result_type | Vs_exit_block | Vs_finish
  | Vs_loop result_type | Vs_if result_type | Vs_else
  | Vs_br u32 | Vs_br_if u32
  | Vs_br_table_start u32 | Vs_br_table_branch u32 | Vs_br_table_finish u32
  | Vs_return | Vs_call u32 | Vs_call_indirect u32
  | Vs_drop | Vs_select
  | Vs_local_get u32 | Vs_local_set u32 | Vs_local_tee u32
  | Vs_global_get u32 | Vs_global_set u32
  | Vs_mem mem_op mem_arg | Vs_memory_size | Vs_memory_grow
  | Vs_i32_const u32 | Vs_i64_const u64 | Vs_f32_const u32 | Vs_f64_const u64
  | Vs_base base_op
  | Vs_i32_reinterpret_f32 | Vs_i64_reinterpret_f64 | Vs_f32_reinterpret_i32 | Vs_f64_reinterpret_i64

section \<open>The macros\<close>

definition pop_known :: "val_type \<Rightarrow> unit tb" where
  "pop_known t = thenM (pop_stack (OT_Known t)) (retM ())"

definition push_known :: "build_env \<Rightarrow> val_type \<Rightarrow> unit tb" where
  "push_known env t = push_stack env (OT_Known t)"

definition validate :: "build_env \<Rightarrow> val_type list \<times> val_type list \<Rightarrow> unit tb" where
  "validate env sig = thenM (forM (fst sig) pop_known) (forM (snd sig) (push_known env))"

definition c_base :: "build_env \<Rightarrow> base_op \<Rightarrow> unit tb" where
  "c_base env p = thenM (validate env (base_sig p))
     (case p of TruncSat s \<Rightarrow> instr_imm_8 EXTENDED_FC (ucast (sat_code s)) | _ \<Rightarrow> instr (base_code p))"

definition c_mem :: "build_env \<Rightarrow> mem_op \<Rightarrow> mem_arg \<Rightarrow> unit tb" where
  "c_mem env p ma =
     thenM (liftR (check_memory_defined (be_module env)))
     (thenM (validate env (mem_sig p))
     (if mem_align p < ma_align ma then errM AlignmentLargerThanType
      else instr_mem (mem_code p) ma))"

section \<open>Parametric and control instructions\<close>

definition c_drop :: "unit tb" where
  "c_drop = bindM pop_stack_t (\<lambda>ty. instr_imm_8 DROP (operand_u8 ty))"

definition c_select :: "build_env \<Rightarrow> unit tb" where
  "c_select env =
     thenM (pop_known T_I32)
     (bindM pop_stack_t (\<lambda>t1.
      bindM (pop_stack t1) (\<lambda>t2.
      thenM (push_stack env t2)
      (instr_imm_8 SELECT (operand_u8 t2)))))"

definition c_enter_block :: "build_env \<Rightarrow> result_type \<Rightarrow> unit tb" where
  "c_enter_block env ty = push_control env BK_Block ty ty"

definition c_exit_block :: "build_env \<Rightarrow> unit tb" where
  "c_exit_block env = bindM pop_control (push_result_type env)"

definition instr_return :: "result_type \<Rightarrow> unit tb" where
  "instr_return r = (case r of
     Some ty \<Rightarrow> instr_imm_8 RETURN (word_of_nat (val_type_size ty) div 4)
   | None \<Rightarrow> instr RETURN)"

definition c_finish :: "unit tb" where
  "c_finish = bindM pop_control instr_return"

definition c_loop :: "build_env \<Rightarrow> result_type \<Rightarrow> unit tb" where
  "c_loop env ty = thenM (push_control env BK_Loop None ty) (bindM pcB set_control_target)"

definition c_if :: "build_env \<Rightarrow> result_type \<Rightarrow> unit tb" where
  "c_if env ty =
     thenM (pop_known T_I32)
     (thenM (instr IF)
     (thenM (push_control env BK_If ty ty)
      write_if_else_target))"

definition c_else :: "build_env \<Rightarrow> unit tb" where
  "c_else env =
     thenM (instr BR)
     (thenM (write_label_target env 0)
     (bindM pop_control_and_patch_if (\<lambda>(results, br_chain).
      thenM (push_control env BK_Block results results)
      (set_control_target br_chain))))"

definition c_br :: "build_env \<Rightarrow> u32 \<Rightarrow> unit tb" where
  "c_br env l =
     thenM (instr BR)
     (bindM (write_label_target env l) (\<lambda>lbl.
      thenM (pop_result_type lbl) mark_unreachable))"

definition c_br_if :: "build_env \<Rightarrow> u32 \<Rightarrow> unit tb" where
  "c_br_if env l =
     thenM (pop_known T_I32)
     (thenM (instr BR_IF)
     (bindM (write_label_target env l) (\<lambda>lbl.
      thenM (pop_result_type lbl) (push_result_type env lbl))))"

definition c_br_table_start :: "u32 \<Rightarrow> unit tb" where
  "c_br_table_start len = thenM (pop_known T_I32) (instr_imm_8_or_16 BR_TABLE len)"

definition c_br_table_branch :: "build_env \<Rightarrow> u32 \<Rightarrow> unit tb" where
  "c_br_table_branch env br = bindM (write_label_target env br) check_br_table_result"

definition c_br_table_finish :: "build_env \<Rightarrow> u32 \<Rightarrow> unit tb" where
  "c_br_table_finish env dflt =
     bindM (write_label_target env dflt) (\<lambda>r.
     thenM (check_and_clear_br_table_result r)
     (thenM (pop_result_type r) mark_unreachable))"

definition c_return :: "build_env \<Rightarrow> unit tb" where
  "c_return env =
     thenM (case fn_return (be_func env) of
         Some ty \<Rightarrow> thenM (pop_known ty) (instr_return (Some ty))
       | None \<Rightarrow> instr_return None)
     mark_unreachable"

section \<open>Calls\<close>

text \<open>Arguments are popped and results pushed last first.\<close>

definition call_sig :: "build_env \<Rightarrow> val_type list \<Rightarrow> val_type list \<Rightarrow> unit tb" where
  "call_sig env ps rs = thenM (forM (rev ps) pop_known) (forM (rev rs) (push_known env))"

definition result_list :: "result_type \<Rightarrow> val_type list" where
  "result_list r = (case r of Some t \<Rightarrow> [t] | None \<Rightarrow> [])"

text \<open>The signature of a function of a module, both index expressions checked.\<close>

definition func_sig :: "wmodule \<Rightarrow> u16 \<Rightarrow> (func_type, 'e) result" where
  "func_sig md i = bindR (at (md_functions md) (unat i)) (\<lambda>f. at (md_types md) (unat (fn_ty f)))"

definition c_call :: "build_env \<Rightarrow> u32 \<Rightarrow> unit tb" where
  "c_call env x =
     bindM (ok_or (get_func_ref (be_module env) x) FunctionIdxOutOfRange) (\<lambda>r. case r of
       Ref_Module index \<Rightarrow>
         bindM (liftR (func_sig (be_module env) index)) (\<lambda>ty.
         thenM (call_sig env (ft_params ty) (ft_returns ty))
         (thenM (instr_imm_8 CALL 0) (write_16 index)))
     | Ref_Host md index \<Rightarrow>
         bindM (liftR (bindR (at (st_host_modules (be_store env)) (unat md))
           (\<lambda>hm. at (hmod_functions hm) (unat index)))) (\<lambda>f.
         thenM (call_sig env (hf_params f) (result_list (hf_returns f)))
         (thenM (instr_imm_8 CALL_HOST md) (write_16 index)))
     | Ref_Extern md index \<Rightarrow>
         bindM (liftR (bindR (at (st_modules (be_store env)) (unat md)) (\<lambda>em. func_sig em index))) (\<lambda>ty.
         thenM (call_sig env (ft_params ty) (ft_returns ty))
         (thenM (instr_imm_8 CALL_EXTERN md) (write_16 index))))"

definition c_call_indirect :: "build_env \<Rightarrow> u32 \<Rightarrow> unit tb" where
  "c_call_indirect env x =
     (if md_table (be_module env) = None then errM TableNotDefined
      else thenM (pop_known T_I32)
        (bindM (ok_or (get_opt (md_types (be_module env)) (unat x)) TypeIdxOutOfRange) (\<lambda>ty.
         thenM (forM (rev (ft_params ty)) pop_known)
         (thenM (forM (ft_returns ty) (push_known env))
         (if 0xFFFF < x then errM IdxTooLarge
          else thenM (instr CALL_INDIRECT) (write_16 (ucast x)))))))"

section \<open>Variables\<close>

definition c_local_get :: "build_env \<Rightarrow> u32 \<Rightarrow> unit tb" where
  "c_local_get env x = bindM (liftR (get_local env x)) (\<lambda>l.
     thenM (push_known env (lv_ty l))
     (thenM (instr_imm_8 LOCAL_GET (val_type_repr (lv_ty l))) (write_16 (lv_frame_offset l))))"

definition c_local_set :: "build_env \<Rightarrow> u32 \<Rightarrow> unit tb" where
  "c_local_set env x = bindM (liftR (get_local env x)) (\<lambda>l.
     thenM (pop_known (lv_ty l))
     (thenM (instr_imm_8 LOCAL_SET (val_type_repr (lv_ty l))) (write_16 (lv_frame_offset l))))"

definition c_local_tee :: "build_env \<Rightarrow> u32 \<Rightarrow> unit tb" where
  "c_local_tee env x = bindM (liftR (get_local env x)) (\<lambda>l.
     thenM (pop_known (lv_ty l))
     (thenM (push_known env (lv_ty l))
     (thenM (instr_imm_8 LOCAL_TEE (val_type_repr (lv_ty l))) (write_16 (lv_frame_offset l)))))"

definition c_global_get :: "build_env \<Rightarrow> u32 \<Rightarrow> unit tb" where
  "c_global_get env x = bindM (liftR (get_global env x)) (\<lambda>g.
     thenM (push_known env (gv_ty g))
     (case gv_reference g of
        Ref_Module idx \<Rightarrow> instr_imm_8_or_16 GLOBAL_GET (ucast idx)
      | Ref_Extern md index \<Rightarrow> thenM (instr_imm_8 GLOBAL_GET_EXTERN md) (write_16 index)
      | Ref_Host md index \<Rightarrow> thenM (instr_imm_8 GLOBAL_GET_HOST md) (write_16 index)))"

definition c_global_set :: "build_env \<Rightarrow> u32 \<Rightarrow> unit tb" where
  "c_global_set env x = bindM (liftR (get_global env x)) (\<lambda>g.
     if \<not> gv_mutable g then errM GlobalNotMutable
     else thenM (pop_known (gv_ty g))
     (case gv_reference g of
        Ref_Module idx \<Rightarrow> instr_imm_8_or_16 GLOBAL_SET (ucast idx)
      | Ref_Extern md index \<Rightarrow> thenM (instr_imm_8 GLOBAL_SET_EXTERN md) (write_16 index)
      | Ref_Host md index \<Rightarrow> thenM (instr_imm_8 GLOBAL_SET_HOST md) (write_16 index)))"

section \<open>Memory, constants, reinterpretations\<close>

definition c_unreachable :: "unit tb" where
  "c_unreachable = thenM (instr_imm_8 UNREACHABLE 0) mark_unreachable"

definition c_memory_size :: "build_env \<Rightarrow> unit tb" where
  "c_memory_size env = thenM (liftR (check_memory_defined (be_module env)))
     (thenM (validate env ([], [T_I32])) (instr MEMORY_SIZE))"

definition c_memory_grow :: "build_env \<Rightarrow> unit tb" where
  "c_memory_grow env = thenM (liftR (check_memory_defined (be_module env)))
     (thenM (validate env ([T_I32], [T_I32]))
     (bindM (getM (\<lambda>b. allow_memory_grow (cd_options (tb_code b)))) (\<lambda>allowed.
      if allowed then instr MEMORY_GROW else errM IllegalMemoryGrow)))"

definition c_i32_const :: "build_env \<Rightarrow> u32 \<Rightarrow> unit tb" where
  "c_i32_const env n = thenM (validate env ([], [T_I32])) (instr_imm_8_or_32 I32_CONST n)"

definition c_i64_const :: "build_env \<Rightarrow> u64 \<Rightarrow> unit tb" where
  "c_i64_const env n = thenM (validate env ([], [T_I64])) (instr_imm_8_or_64 I64_CONST n)"

definition c_f32_const :: "build_env \<Rightarrow> u32 \<Rightarrow> unit tb" where
  "c_f32_const env z = thenM (validate env ([], [T_F32])) (thenM (instr F32_CONST) (write_32 z))"

definition c_f64_const :: "build_env \<Rightarrow> u64 \<Rightarrow> unit tb" where
  "c_f64_const env z = thenM (validate env ([], [T_F64])) (thenM (instr F64_CONST) (write_64 z))"

primrec compile_visit :: "build_env \<Rightarrow> visit \<Rightarrow> unit tb" where
  "compile_visit env Vs_unreachable = c_unreachable"
| "compile_visit env Vs_nop = retM ()"
| "compile_visit env (Vs_enter_block ty) = c_enter_block env ty"
| "compile_visit env Vs_exit_block = c_exit_block env"
| "compile_visit env Vs_finish = c_finish"
| "compile_visit env (Vs_loop ty) = c_loop env ty"
| "compile_visit env (Vs_if ty) = c_if env ty"
| "compile_visit env Vs_else = c_else env"
| "compile_visit env (Vs_br l) = c_br env l"
| "compile_visit env (Vs_br_if l) = c_br_if env l"
| "compile_visit env (Vs_br_table_start n) = c_br_table_start n"
| "compile_visit env (Vs_br_table_branch l) = c_br_table_branch env l"
| "compile_visit env (Vs_br_table_finish l) = c_br_table_finish env l"
| "compile_visit env Vs_return = c_return env"
| "compile_visit env (Vs_call x) = c_call env x"
| "compile_visit env (Vs_call_indirect x) = c_call_indirect env x"
| "compile_visit env Vs_drop = c_drop"
| "compile_visit env Vs_select = c_select env"
| "compile_visit env (Vs_local_get x) = c_local_get env x"
| "compile_visit env (Vs_local_set x) = c_local_set env x"
| "compile_visit env (Vs_local_tee x) = c_local_tee env x"
| "compile_visit env (Vs_global_get x) = c_global_get env x"
| "compile_visit env (Vs_global_set x) = c_global_set env x"
| "compile_visit env (Vs_mem p ma) = c_mem env p ma"
| "compile_visit env Vs_memory_size = c_memory_size env"
| "compile_visit env Vs_memory_grow = c_memory_grow env"
| "compile_visit env (Vs_i32_const n) = c_i32_const env n"
| "compile_visit env (Vs_i64_const n) = c_i64_const env n"
| "compile_visit env (Vs_f32_const z) = c_f32_const env z"
| "compile_visit env (Vs_f64_const z) = c_f64_const env z"
| "compile_visit env (Vs_base p) = c_base env p"
| "compile_visit env Vs_i32_reinterpret_f32 = validate env ([T_F32], [T_I32])"
| "compile_visit env Vs_i64_reinterpret_f64 = validate env ([T_F64], [T_I64])"
| "compile_visit env Vs_f32_reinterpret_i32 = validate env ([T_I32], [T_F32])"
| "compile_visit env Vs_f64_reinterpret_i64 = validate env ([T_I64], [T_F64])"

end
