(* ===== verification/Builder_Inv.thy ===== *)
theory Builder_Inv
  imports Compiler
begin

text \<open>
  The invariant of \<open>TextBuilder\<close> and the proof that every builder operation and every visitor method
  of the compiler preserves it and never panics. \<open>tb_ok\<close> says: the code buffer is well formed; the
  frames' heights grow and lie below the operand stack, which respects its bound and its high-water
  mark; the pending forward jumps of every block and \<open>if\<close> form a chain in the code, the chains of
  different frames do not overlap, that of an \<open>if\<close> is not empty; and the target of a loop lies in the
  code. \<open>safe env k f\<close> says that \<open>f\<close> keeps \<open>tb_ok\<close>, changes the number of frames by \<open>k\<close>, and
  leaves a well-formed code buffer behind when it fails.
\<close>

section \<open>The invariant\<close>

definition heights :: "control_frame list \<Rightarrow> nat list" where
  "heights fs = map (\<lambda>f. unat (cf_height f)) fs"

definition frame_ok :: "u16 list \<Rightarrow> control_frame \<Rightarrow> nat list \<Rightarrow> bool" where
  "frame_ok ws f as \<longleftrightarrow> (if cf_kind f = BK_Loop then as = [] \<and> (\<exists>a\<le>length ws. cf_target f = addr a)
     else chain ws (cf_target f) as \<and> apart as \<and> (cf_kind f = BK_If \<longrightarrow> as \<noteq> []))"

definition disjoint_labels :: "nat \<Rightarrow> nat \<Rightarrow> bool" where
  "disjoint_labels a b \<longleftrightarrow> a + 2 \<le> b \<or> b + 2 \<le> a"

definition frames_ok :: "u16 list \<Rightarrow> control_frame list \<Rightarrow> bool" where
  "frames_ok ws fs \<longleftrightarrow> (\<exists>L. list_all2 (frame_ok ws) fs L \<and> sorted_wrt disjoint_labels (concat L))"

definition stack_ok :: "nat \<Rightarrow> control_frame list \<Rightarrow> operand_type list \<Rightarrow> nat \<Rightarrow> bool" where
  "stack_ok cap fs st hw \<longleftrightarrow> sorted (heights fs @ [length st]) \<and> length st \<le> cap \<and> cap < 2 ^ 16 \<and>
     height_words st \<le> hw"

definition tb_ok :: "build_env \<Rightarrow> builder \<Rightarrow> bool" where
  "tb_ok env b \<longleftrightarrow> code_inv (tb_code b) \<and> stack_ok (be_max_stack env) (tb_frames b) (tb_stack b) (tb_highwater b) \<and>
     frames_ok (code_words (tb_code b)) (tb_frames b)"

abbreviation code_kept :: "'e \<Rightarrow> builder \<Rightarrow> bool" where
  "code_kept e b \<equiv> code_inv (tb_code b)"

section \<open>The stack part\<close>

lemma stack_ok_last:
  assumes "stack_ok cap fs st hw" "fs \<noteq> []"
  shows "unat (cf_height (last fs)) \<le> length st"
proof -
  obtain gs f where "fs = gs @ [f]" using assms(2) by (cases fs rule: rev_cases) auto
  with assms(1) show ?thesis by (simp add: stack_ok_def heights_def sorted_append)
qed

lemma height_words_take: "height_words (take n st) \<le> height_words st"
  by (induction st arbitrary: n rule: height_words.induct) (auto simp: take_Cons')

lemma height_words_append: "height_words st \<le> height_words (st @ us)"
  using height_words_take [of "length st" "st @ us"] by simp

lemma stack_ok_shrink:
  assumes "stack_ok cap fs st hw" "fs \<noteq> []" "unat (cf_height (last fs)) \<le> n" "n \<le> length st"
  shows "stack_ok cap fs (take n st) hw"
proof -
  obtain gs f where fs: "fs = gs @ [f]" using assms(2) by (cases fs rule: rev_cases) auto
  have "height_words (take n st) \<le> hw"
    using assms(1) height_words_take [of n st] by (simp add: stack_ok_def)
  then show ?thesis
    using assms by (auto simp: stack_ok_def heights_def fs sorted_append min_def)
qed

lemma stack_ok_push:
  assumes "stack_ok cap fs st hw" "length st < cap" "height_words (st @ [t]) \<le> hw'" 
  shows "stack_ok cap fs (st @ [t]) hw'"
  using assms by (auto simp: stack_ok_def sorted_append)

lemma stack_ok_frames: "stack_ok cap fs st hw \<Longrightarrow> heights fs = heights gs \<Longrightarrow> stack_ok cap gs st hw"
  by (simp add: stack_ok_def)

section \<open>The code part\<close>

lemma frame_ok_append: "frame_ok ws f as \<Longrightarrow> frame_ok (ws @ xs) f as"
  unfolding frame_ok_def by (simp add: chain_append split: if_splits) (metis trans_le_add1)

lemma frames_ok_append: "frames_ok ws fs \<Longrightarrow> frames_ok (ws @ xs) fs"
  unfolding frames_ok_def by (blast intro: list_all2_mono frame_ok_append)

text \<open>Only kind and target of a frame matter.\<close>

lemma frame_ok_cong: "cf_kind f = cf_kind g \<Longrightarrow> cf_target f = cf_target g \<Longrightarrow> frame_ok ws f as = frame_ok ws g as"
  by (simp add: frame_ok_def)

lemma disjoint_labels_sym: "disjoint_labels a b = disjoint_labels b a"
  by (auto simp: disjoint_labels_def)

lemma frame_ok_bounds: "frame_ok ws f as \<Longrightarrow> a \<in> set as \<Longrightarrow> a + 2 \<le> length ws"
  using chain_bounds by (fastforce simp: frame_ok_def split: if_splits)

lemma frames_bounds:
  assumes "list_all2 (frame_ok ws) fs L" "a \<in> set (concat L)"
  shows "a + 2 \<le> length ws"
proof -
  obtain as where "as \<in> set L" "a \<in> set as" using assms(2) by auto
  then obtain i where i: "i < length L" "as = L ! i" by (auto simp: in_set_conv_nth)
  with assms(1) have "frame_ok ws (fs ! i) as" by (simp add: list_all2_conv_all_nth)
  then show ?thesis using \<open>a \<in> set as\<close> by (rule frame_ok_bounds)
qed

lemma sorted_wrt_swap_middle:
  assumes sym: "\<And>a b. R a b = R b a"
  shows "sorted_wrt R (xs @ ys @ zs) \<longleftrightarrow> sorted_wrt R xs \<and> sorted_wrt R ys \<and> sorted_wrt R zs \<and>
    (\<forall>x\<in>set xs. \<forall>z\<in>set zs. R x z) \<and> (\<forall>y\<in>set ys. \<forall>x\<in>set xs \<union> set zs. R x y)"
  unfolding sorted_wrt_append set_append using sym by blast

lemmas sorted_labels_middle = sorted_wrt_swap_middle [of disjoint_labels, OF disjoint_labels_sym]

text \<open>A new, non-overlapping label in front of the chain of frame \<open>i\<close>.\<close>

lemma frames_ok_new_label:
  assumes ok: "frames_ok ws fs" and i: "i < length fs" and nl: "cf_kind (fs ! i) \<noteq> BK_Loop"
    and len: "length ws + 2 < 2 ^ 32"
    and d: "jump_offset_new (addr (length ws)) (cf_target (fs ! i)) = Ok d"
  shows "frames_ok (ws @ label_words (label_new rt depth d)) (fs[i := (fs ! i)\<lparr>cf_target := addr (length ws)\<rparr>])"
proof -
  obtain L where L: "list_all2 (frame_ok ws) fs L" "sorted_wrt disjoint_labels (concat L)"
    using ok by (auto simp: frames_ok_def)
  let ?ws' = "ws @ label_words (label_new rt depth d)"
  have iL: "i < length L" using L(1) i by (simp add: list_all2_lengthD)
  have fi: "frame_ok ws (fs ! i) (L ! i)" using L(1) i by (simp add: list_all2_conv_all_nth)
  then have ch: "chain ws (cf_target (fs ! i)) (L ! i)" "apart (L ! i)"
    using nl by (simp_all add: frame_ok_def)
  have "chain ?ws' (addr (length ws)) (length ws # L ! i) \<and> apart (length ws # L ! i)"
    by (rule chain_extend [OF ch len d])
  then have new: "frame_ok ?ws' ((fs ! i)\<lparr>cf_target := addr (length ws)\<rparr>) (length ws # L ! i)"
    using nl by (simp add: frame_ok_def)
  have all: "list_all2 (frame_ok ?ws') (fs[i := (fs ! i)\<lparr>cf_target := addr (length ws)\<rparr>]) (L[i := length ws # L ! i])"
    using list_all2_mono [OF L(1) frame_ok_append] new by (intro list_all2_update_cong)
  have cL: "concat (L[i := length ws # L ! i]) = concat (take i L) @ (length ws # L ! i) @ concat (drop (Suc i) L)"
    using iL by (simp add: upd_conv_take_nth_drop)
  have cL0: "concat L = concat (take i L) @ (L ! i) @ concat (drop (Suc i) L)"
    using iL by (metis concat.simps(2) concat_append id_take_nth_drop)
  have "disjoint_labels a (length ws)" if "a \<in> set (concat L)" for a
    using frames_bounds [OF L(1) that] by (simp add: disjoint_labels_def)
  then have "sorted_wrt disjoint_labels (concat (L[i := length ws # L ! i]))"
    using L(2) unfolding cL cL0 sorted_labels_middle
    by (auto simp: cL0 disjoint_labels_sym)
  with all show ?thesis by (auto simp: frames_ok_def)
qed

text \<open>Words rewritten only at labels of the last frame leave the other frames intact.\<close>

lemma frames_ok_pop:
  assumes L: "list_all2 (frame_ok ws) (fs @ [f]) (L @ [as])" "sorted_wrt disjoint_labels (concat (L @ [as]))"
    and len: "length ws' = length ws"
    and same: "\<And>i. (\<forall>a\<in>set as. i \<noteq> a \<and> i \<noteq> Suc a) \<Longrightarrow> ws' ! i = ws ! i"
  shows "list_all2 (frame_ok ws') fs L" "sorted_wrt disjoint_labels (concat L)"
proof -
  show "sorted_wrt disjoint_labels (concat L)" using L(2) by (simp add: sorted_wrt_append)
  have "frame_ok ws' g bs" if "frame_ok ws g bs" "set bs \<subseteq> set (concat L)" for g bs
  proof -
    have "label_at ws' b = label_at ws b" if b: "b \<in> set bs" for b
    proof -
      have "disjoint_labels b a" if "a \<in> set as" for a
        using L(2) that b \<open>set bs \<subseteq> set (concat L)\<close> by (auto simp: sorted_wrt_append)
      then have "ws' ! b = ws ! b" "ws' ! Suc b = ws ! Suc b"
        by (auto intro!: same simp: disjoint_labels_def) (use not_less_eq_eq in fastforce)+
      then show ?thesis by (simp add: label_at_def)
    qed
    then have "chain ws' t bs = chain ws t bs" for t
      using chain_cong [of ws' ws bs t] len by simp
    then show ?thesis using that(1) unfolding frame_ok_def by (simp only: len)
  qed
  then have keep: "set bs \<subseteq> set (concat L) \<Longrightarrow> frame_ok ws g bs \<Longrightarrow> frame_ok ws' g bs" for g bs by blast
  have "list_all2 (frame_ok ws) fs L"
    using L(1) list_all2_lengthD [OF L(1)] by (simp add: list_all2_append)
  then show "list_all2 (frame_ok ws') fs L"
    unfolding list_all2_conv_all_nth by (auto intro!: keep) (metis nth_mem)
qed

section \<open>Operations that append words\<close>

definition appended :: "u16 list \<Rightarrow> builder \<Rightarrow> builder \<Rightarrow> bool" where
  "appended ws b b' \<longleftrightarrow> (\<exists>cd. b' = b\<lparr>tb_code := cd\<rparr> \<and> code_inv cd \<and>
     code_words cd = code_words (tb_code b) @ ws \<and> cd_options cd = cd_options (tb_code b))"

definition emits :: "(builder, 'a, 'e) m \<Rightarrow> u16 list \<Rightarrow> bool" where
  "emits f ws \<longleftrightarrow> (\<forall>b. code_inv (tb_code b) \<longrightarrow> wpM f (\<lambda>_. appended ws b) code_kept b)"

named_theorems emits_intros "operations that append known words"

lemma appended_trans: "appended ws b b1 \<Longrightarrow> appended vs b1 b2 \<Longrightarrow> appended (ws @ vs) b b2"
  by (auto simp: appended_def)

lemma appendedD:
  assumes "appended ws b b'"
  shows "code_inv (tb_code b')" "code_words (tb_code b') = code_words (tb_code b) @ ws"
    "cd_options (tb_code b') = cd_options (tb_code b)" "tb_frames b' = tb_frames b"
    "tb_stack b' = tb_stack b" "tb_highwater b' = tb_highwater b" "tb_table_result b' = tb_table_result b"
  using assms by (auto simp: appended_def)

lemma emits_ret: "emits (retM a) []"
  by (auto simp: emits_def wp appended_def intro!: exI [of _ "tb_code _"])

lemma emits_err [emits_intros]: "emits (errM e) ws"
  by (simp add: emits_def wp)

lemma emits_bind:
  assumes "emits f ws" "\<And>a. emits (g a) vs"
  shows "emits (bindM f g) (ws @ vs)"
  unfolding emits_def
proof (intro allI impI)
  fix b :: builder assume "code_inv (tb_code b)"
  then have "wpM f (\<lambda>_. appended ws b) code_kept b" using assms(1) by (simp add: emits_def)
  then show "wpM (bindM f g) (\<lambda>_. appended (ws @ vs) b) code_kept b"
    unfolding wpM_bind
  proof (rule wpM_mono)
    fix a b1 assume a: "appended ws b b1"
    then have "wpM (g a) (\<lambda>_. appended vs b1) code_kept b1"
      using assms(2) appendedD(1) by (auto simp: emits_def)
    then show "wpM (g a) (\<lambda>_. appended (ws @ vs) b) code_kept b1"
      by (rule wpM_mono) (auto intro: appended_trans a)
  qed
qed

lemma emits_then [emits_intros]: "emits f ws \<Longrightarrow> emits g vs \<Longrightarrow> emits (thenM f g) (ws @ vs)"
  by (simp add: thenM_def emits_bind)

lemma emits_if: "(c \<Longrightarrow> emits f ws) \<Longrightarrow> (\<not> c \<Longrightarrow> emits g ws) \<Longrightarrow> emits (if c then f else g) ws"
  by simp

lemma code_push_options: "cd_options (snd (code_push c cd)) = cd_options cd"
  by (auto simp: code_push_def run_defs add_page_def Let_def set_word_def split: list.splits option.splits)

lemma emits_word [emits_intros]: "emits (emit_word w) [w]"
  unfolding emits_def
proof (intro allI impI)
  fix b :: builder assume inv: "code_inv (tb_code b)"
  obtain r cd where run: "code_push w (tb_code b) = (r, cd)" by fastforce
  then have "cd_options cd = cd_options (tb_code b)" using code_push_options [of w "tb_code b"] by simp
  then show "wpM (emit_word w) (\<lambda>_. appended [w] b) code_kept b"
    using run code_push_cases [OF inv, of w]
    by (auto simp: emit_word_def map_err_def onCodeB_def wpM_def appended_def intro!: exI [of _ cd])
qed

lemma emits_cong: "emits f ws \<Longrightarrow> ws = vs \<Longrightarrow> emits f vs"
  by simp

lemma emits_label [emits_intros]: "emits (emit_label l) (label_words l)"
  unfolding emit_label_def label_words_def
  by (rule emits_cong, (rule emits_intros)+, simp)

lemma emits_instr [emits_intros]:
  "emits (instr p) [opcode_word p 0]" "emits (instr_imm_8 p imm) [opcode_word p imm]"
  "emits (write_16 w) [w]"
  by (simp_all add: instr_def instr_imm_8_def write_16_def opcode_word_def emits_word)

definition words_32 :: "u32 \<Rightarrow> u16 list" where
  "words_32 i = [ucast i, ucast (drop_bit 16 i)]"

definition words_64 :: "u64 \<Rightarrow> u16 list" where
  "words_64 i = [ucast i, ucast (drop_bit 16 i), ucast (drop_bit 32 i), ucast (drop_bit 48 i)]"

definition idx_words :: "u8 \<Rightarrow> u32 \<Rightarrow> u16 list" where
  "idx_words p i = (if i < 0xFF then [opcode_word p (ucast i)] else [opcode_word p 0xFF, ucast i])"

definition imm_32_words :: "u8 \<Rightarrow> u32 \<Rightarrow> u16 list" where
  "imm_32_words p i = (if i < 0xFF then [opcode_word p (ucast i)] else opcode_word p 0xFF # words_32 i)"

definition imm_64_words :: "u8 \<Rightarrow> u64 \<Rightarrow> u16 list" where
  "imm_64_words p i = (if i < 0xFF then [opcode_word p (ucast i)] else opcode_word p 0xFF # words_64 i)"

lemma emits_write [emits_intros]: "emits (write_32 i) (words_32 i)" "emits (write_64 j) (words_64 j)"
  unfolding write_32_def write_64_def words_32_def words_64_def
  by (rule emits_cong, (rule emits_intros)+, simp)+

lemma mem_offset_words: "(ucast (i AND 0xFFFF) :: u16) = ucast i"
  "(ucast (drop_bit 16 i AND 0xFFFF) :: u16) = ucast (drop_bit 16 (i :: u32))"
proof -
  have m: "(0xFFFF :: u32) = mask 16" by (simp add: mask_eq_exp_minus_1)
  show "(ucast (i AND 0xFFFF) :: u16) = ucast i"
    unfolding m by (rule bit_eqI) (auto simp: bit_simps)
  show "(ucast (drop_bit 16 i AND 0xFFFF) :: u16) = ucast (drop_bit 16 i)"
    unfolding m by (rule bit_eqI) (auto simp: bit_simps)
qed

lemma emits_imm [emits_intros]:
  "emits (instr_imm_8_or_16 p i) (idx_words p i)"
  "emits (instr_imm_8_or_32 p i) (imm_32_words p i)"
  "emits (instr_imm_8_or_64 p j) (imm_64_words p j)"
  "emits (instr_mem p ma) (opcode_word p (ucast (ma_align ma)) # words_32 (ma_offset ma))"
proof -
  show "emits (instr_imm_8_or_16 p i) (idx_words p i)"
    unfolding instr_imm_8_or_16_def idx_words_def
    by (intro emits_if emits_err) (use emits_instr(2) emits_then [OF emits_instr(2) emits_word] in auto)
  show "emits (instr_imm_8_or_32 p i) (imm_32_words p i)"
    unfolding instr_imm_8_or_32_def imm_32_words_def
    using emits_instr(2) emits_then [OF emits_instr(2) emits_write(1)] by auto
  show "emits (instr_imm_8_or_64 p j) (imm_64_words p j)"
    unfolding instr_imm_8_or_64_def imm_64_words_def
    using emits_instr(2) emits_then [OF emits_instr(2) emits_write(2)] by auto
  show "emits (instr_mem p ma) (opcode_word p (ucast (ma_align ma)) # words_32 (ma_offset ma))"
    unfolding instr_mem_def words_32_def mem_offset_words
    using emits_then [OF emits_instr(2) emits_then [OF emits_word emits_word]] emits_err by auto
qed

section \<open>Safe operations\<close>

definition safe :: "build_env \<Rightarrow> int \<Rightarrow> (builder, 'a, 'e) m \<Rightarrow> bool" where
  "safe env k f \<longleftrightarrow> (\<forall>b. tb_ok env b \<and> tb_frames b \<noteq> [] \<longrightarrow>
     wpM f (\<lambda>_ b'. tb_ok env b' \<and> int (length (tb_frames b')) = int (length (tb_frames b)) + k) code_kept b)"

text \<open>\<open>stack_only env f\<close>: moreover neither code nor frames change.\<close>

definition stack_step :: "build_env \<Rightarrow> builder \<Rightarrow> builder \<Rightarrow> bool" where
  "stack_step env b b' \<longleftrightarrow> tb_ok env b' \<and> tb_code b' = tb_code b \<and> tb_frames b' = tb_frames b"

definition stack_only :: "build_env \<Rightarrow> (builder, 'a, 'e) m \<Rightarrow> bool" where
  "stack_only env f \<longleftrightarrow> (\<forall>b. tb_ok env b \<and> tb_frames b \<noteq> [] \<longrightarrow> wpM f (\<lambda>_. stack_step env b) code_kept b)"

named_theorems safe_intros "operations that keep the builder invariant"

lemma tb_ok_inv: "tb_ok env b \<Longrightarrow> code_inv (tb_code b)"
  by (simp add: tb_ok_def)

lemma stack_only_safe: "stack_only env f \<Longrightarrow> safe env 0 f"
  unfolding stack_only_def safe_def
  by (auto elim!: wpM_mono simp: stack_step_def)

lemma emits_safe: "emits f ws \<Longrightarrow> safe env 0 f"
  unfolding safe_def
proof (intro allI impI)
  fix b assume em: "emits f ws" and ok: "tb_ok env b \<and> tb_frames b \<noteq> []"
  then have "wpM f (\<lambda>_. appended ws b) code_kept b" by (simp add: emits_def tb_ok_def)
  then show "wpM f (\<lambda>_ b'. tb_ok env b' \<and> int (length (tb_frames b')) = int (length (tb_frames b)) + 0) code_kept b"
    by (rule wpM_mono) (use ok in \<open>auto simp: tb_ok_def appendedD frames_ok_append\<close>)
qed

lemma safe_pure [safe_intros]: "safe env 0 (retM a)" "safe env k (errM e)" "safe env 0 (getM h)"
  by (auto simp: safe_def wp tb_ok_def)

lemma safe_lift [safe_intros]: "r \<noteq> Panic \<Longrightarrow> safe env 0 (liftR r)"
  by (auto simp: safe_def wp tb_ok_def split: result.splits)

lemma safe_ok_or [safe_intros]: "safe env 0 (ok_or x e)"
  by (auto simp: safe_def wp tb_ok_def split: option.splits)

lemma safe_bind [safe_intros]:
  assumes "safe env 0 f" "\<And>a. safe env k (g a)"
  shows "safe env k (bindM f g)"
  unfolding safe_def
proof (intro allI impI)
  fix b assume "tb_ok env b \<and> tb_frames b \<noteq> []"
  then have "wpM f (\<lambda>_ b'. tb_ok env b' \<and> int (length (tb_frames b')) = int (length (tb_frames b)) + 0) code_kept b"
    using assms(1) by (simp add: safe_def)
  then show "wpM (bindM f g) (\<lambda>_ b'. tb_ok env b' \<and> int (length (tb_frames b')) = int (length (tb_frames b)) + k) code_kept b"
    unfolding wpM_bind
  proof (rule wpM_mono)
    fix a b1 assume b1: "tb_ok env b1 \<and> int (length (tb_frames b1)) = int (length (tb_frames b)) + 0"
    with \<open>tb_ok env b \<and> tb_frames b \<noteq> []\<close> have "tb_frames b1 \<noteq> []" by auto
    with b1 assms(2) [of a] have "wpM (g a) (\<lambda>_ b'. tb_ok env b' \<and> int (length (tb_frames b')) = int (length (tb_frames b1)) + k) code_kept b1"
      unfolding safe_def by blast
    then show "wpM (g a) (\<lambda>_ b'. tb_ok env b' \<and> int (length (tb_frames b')) = int (length (tb_frames b)) + k) code_kept b1"
      using b1 by (elim wpM_mono) auto
  qed
qed

lemma safe_then [safe_intros]: "safe env 0 f \<Longrightarrow> safe env k g \<Longrightarrow> safe env k (thenM f g)"
  by (simp add: thenM_def safe_bind)

lemma safe_if [safe_intros]: "(c \<Longrightarrow> safe env k f) \<Longrightarrow> (\<not> c \<Longrightarrow> safe env k g) \<Longrightarrow> safe env k (if c then f else g)"
  by simp

lemma safe_option [safe_intros]:
  "safe env k f \<Longrightarrow> (\<And>a. x = Some a \<Longrightarrow> safe env k (g a)) \<Longrightarrow> safe env k (case x of None \<Rightarrow> f | Some a \<Rightarrow> g a)"
  by (cases x) auto

lemma safe_ref [safe_intros]:
  "(\<And>i. r = Ref_Module i \<Longrightarrow> safe env k (f i)) \<Longrightarrow> (\<And>m i. r = Ref_Host m i \<Longrightarrow> safe env k (g m i)) \<Longrightarrow>
   (\<And>m i. r = Ref_Extern m i \<Longrightarrow> safe env k (h m i)) \<Longrightarrow>
   safe env k (case r of Ref_Module i \<Rightarrow> f i | Ref_Host m i \<Rightarrow> g m i | Ref_Extern m i \<Rightarrow> h m i)"
  by (cases r) auto

lemma safe_forM [safe_intros]: "(\<And>a. safe env 0 (f a)) \<Longrightarrow> safe env 0 (forM xs f)"
  by (induction xs) (auto intro: safe_intros)

section \<open>The operand stack operations\<close>

lemma stack_only_pure: "stack_only env (retM a)" "stack_only env (errM e)" "stack_only env (getM h)"
  "stack_only env (ok_or x e)"
  by (auto simp: stack_only_def wp tb_ok_def stack_step_def split: option.splits)

lemma stack_only_bind:
  assumes "stack_only env f" "\<And>a. stack_only env (g a)"
  shows "stack_only env (bindM f g)"
  unfolding stack_only_def
proof (intro allI impI)
  fix b assume b: "tb_ok env b \<and> tb_frames b \<noteq> []"
  then have "wpM f (\<lambda>_. stack_step env b) code_kept b" using assms(1) by (simp add: stack_only_def)
  then show "wpM (bindM f g) (\<lambda>_. stack_step env b) code_kept b"
    unfolding wpM_bind
  proof (rule wpM_mono)
    fix a b1 assume b1: "stack_step env b b1"
    then have "wpM (g a) (\<lambda>_. stack_step env b1) code_kept b1"
      using assms(2) [of a] b unfolding stack_only_def stack_step_def by (metis (no_types, lifting))
    then show "wpM (g a) (\<lambda>_. stack_step env b) code_kept b1"
      using b1 by (elim wpM_mono) (auto simp: stack_step_def)
  qed
qed

lemma stack_only_then: "stack_only env f \<Longrightarrow> stack_only env g \<Longrightarrow> stack_only env (thenM f g)"
  by (simp add: thenM_def stack_only_bind)

lemma stack_only_if: "(c \<Longrightarrow> stack_only env f) \<Longrightarrow> (\<not> c \<Longrightarrow> stack_only env g) \<Longrightarrow> stack_only env (if c then f else g)"
  by simp

lemma stack_only_option:
  "stack_only env f \<Longrightarrow> (\<And>a. stack_only env (g a)) \<Longrightarrow> stack_only env (case x of None \<Rightarrow> f | Some a \<Rightarrow> g a)"
  by (cases x) auto

lemma stack_only_forM: "(\<And>a. stack_only env (f a)) \<Longrightarrow> stack_only env (forM xs f)"
  by (induction xs) (auto intro: stack_only_pure stack_only_then)

lemmas stack_only_intros = stack_only_pure stack_only_bind stack_only_then stack_only_if stack_only_option
  stack_only_forM

text \<open>One pop, exactly.\<close>

lemma wpM_pop_stack_t:
  assumes "tb_ok env b" "tb_frames b \<noteq> []"
  shows "wpM pop_stack_t Q E b \<longleftrightarrow>
    (let h = unat (cf_height (last (tb_frames b))) in
     if length (tb_stack b) = h then
       (if cf_unreachable (last (tb_frames b)) then Q OT_Unknown b else E StackUnderflow b)
     else Q (last (tb_stack b)) (b\<lparr>tb_stack := butlast (tb_stack b)\<rparr>))"
proof -
  have "unat (cf_height (last (tb_frames b))) \<le> length (tb_stack b)"
    using assms stack_ok_last by (auto simp: tb_ok_def)
  then show ?thesis
    using assms(2) by (auto simp: pop_stack_t_def control_frame_stack_len_def wp sv_last_def is_unreachable_def
        sv_pop_def Let_def split: option.splits)
qed

lemma tb_ok_butlast:
  assumes "tb_ok env b" "tb_frames b \<noteq> []" "length (tb_stack b) \<noteq> unat (cf_height (last (tb_frames b)))"
  shows "tb_ok env (b\<lparr>tb_stack := butlast (tb_stack b)\<rparr>)"
proof -
  have "unat (cf_height (last (tb_frames b))) \<le> length (tb_stack b)"
    using assms stack_ok_last by (auto simp: tb_ok_def)
  then show ?thesis
    using assms by (auto simp: tb_ok_def butlast_conv_take intro!: stack_ok_shrink)
qed

lemma stack_only_pop_stack_t: "stack_only env pop_stack_t"
  unfolding stack_only_def
  by (auto simp: wpM_pop_stack_t Let_def stack_step_def tb_ok_butlast tb_ok_inv)

lemma stack_only_pops: "stack_only env (pop_stack t)" "stack_only env (pop_result_type r)" "stack_only env (pop_known ty)"
proof -
  show *: "stack_only env (pop_stack t)" for t
    unfolding pop_stack_def by (intro stack_only_intros stack_only_pop_stack_t)
  show "stack_only env (pop_result_type r)" "stack_only env (pop_known ty)"
    unfolding pop_result_type_def pop_known_def by (intro stack_only_intros *)+
qed

lemma wpM_push_stack:
  "wpM (push_stack env t) Q E b \<longleftrightarrow>
    (if be_max_stack env \<le> length (tb_stack b) then E (VAllocError AE_OutOfMemory) b
     else Q () (b\<lparr>tb_stack := tb_stack b @ [t], tb_highwater := max (tb_highwater b) (height_words (tb_stack b @ [t]))\<rparr>))"
  by (auto simp: push_stack_def wp sv_push_def stack_height_def max_def)

lemma stack_only_pushes:
  "stack_only env (push_stack env t)" "stack_only env (push_result_type env r)" "stack_only env (push_known env ty)"
proof -
  show *: "stack_only env (push_stack env t)" for t
    unfolding stack_only_def
    by (auto simp: wpM_push_stack stack_step_def tb_ok_def intro!: stack_ok_push)
  show "stack_only env (push_result_type env r)" "stack_only env (push_known env ty)"
    unfolding push_result_type_def push_known_def by (intro stack_only_intros *)+
qed

lemma stack_only_sigs: "stack_only env (validate env sig)" "stack_only env (call_sig env ps rs)"
  unfolding validate_def call_sig_def by (intro stack_only_intros stack_only_pops stack_only_pushes)+

lemma stack_only_br_table:
  "stack_only env (check_br_table_result r)" "stack_only env (check_and_clear_br_table_result r)"
  by (auto simp: stack_only_def check_br_table_result_def check_and_clear_br_table_result_def wp stack_step_def
      tb_ok_def split: option.splits)

lemmas stack_onlys = stack_only_pops stack_only_pushes stack_only_sigs stack_only_br_table stack_only_pop_stack_t

lemmas stack_safe [safe_intros] = stack_onlys [THEN stack_only_safe]

lemmas emit_safe [safe_intros] = emits_word [THEN emits_safe] emits_label [THEN emits_safe]
  emits_instr [THEN emits_safe] emits_write [THEN emits_safe] emits_imm [THEN emits_safe]

section \<open>Frames and labels\<close>

lemma wpM_pcB:
  assumes "code_inv (tb_code b)"
  shows "wpM pcB Q E b = Q (addr (word_count (tb_code b))) b"
proof -
  have "(code_pc (tb_code b) :: (jump_target, validation_error) result \<times> code_builder) = (Ok (addr (word_count (tb_code b))), tb_code b)"
    unfolding addr_def by (rule code_pc_eq [OF assms])
  then show ?thesis by (simp add: wpM_def pcB_def onCodeB_def)
qed

lemma wpM_ret_fun: "wpM (retM a) Q E = Q a"
  by (simp add: fun_eq_iff wp)

lemma word_count_room2: "code_inv cd \<Longrightarrow> word_count cd + 2 < 2 ^ 32"
proof -
  assume inv: "code_inv cd"
  then have "length (cd_pages cd) < 2 ^ 24"
    by (simp add: code_inv_def MAX_ADDRESSABLE_CODE_PAGES_def)
  with word_count_le [OF inv] length_flat [OF inv] show ?thesis by simp
qed

lemma frame_height_le:
  assumes "stack_ok cap fs st hw" "f \<in> set fs"
  shows "unat (cf_height f) \<le> length st"
  using assms by (auto simp: stack_ok_def heights_def sorted_append)

lemma safe_mark_unreachable [safe_intros]: "safe env 0 mark_unreachable"
  unfolding safe_def
proof (intro allI impI)
  fix b assume b: "tb_ok env b \<and> tb_frames b \<noteq> []"
  then obtain gs f where fs: "tb_frames b = gs @ [f]" by (cases "tb_frames b" rule: rev_cases) auto
  let ?n = "unat (cf_height f)"
  have so: "stack_ok (be_max_stack env) (gs @ [f]) (tb_stack b) (tb_highwater b)"
    using b fs by (simp add: tb_ok_def)
  have n: "?n \<le> length (tb_stack b)" using stack_ok_last [OF so] by simp
  have "stack_ok (be_max_stack env) (gs @ [f]) (take ?n (tb_stack b)) (tb_highwater b)"
    by (rule stack_ok_shrink [OF so]) (simp_all add: n)
  then have so': "stack_ok (be_max_stack env) (gs @ [f\<lparr>cf_unreachable := True\<rparr>]) (take ?n (tb_stack b)) (tb_highwater b)"
    by (rule stack_ok_frames) (simp add: heights_def)
  obtain L where L: "list_all2 (frame_ok (code_words (tb_code b))) (gs @ [f]) L" "sorted_wrt disjoint_labels (concat L)"
    using b fs by (auto simp: tb_ok_def frames_ok_def)
  have "frame_ok (code_words (tb_code b)) (f\<lparr>cf_unreachable := True\<rparr>) = frame_ok (code_words (tb_code b)) f"
    by (intro ext frame_ok_cong) simp_all
  then have "list_all2 (frame_ok (code_words (tb_code b))) (gs @ [f\<lparr>cf_unreachable := True\<rparr>]) L"
    using L(1) by (auto simp: list_all2_append1 list_all2_Cons1)
  then have "frames_ok (code_words (tb_code b)) (gs @ [f\<lparr>cf_unreachable := True\<rparr>])"
    using L(2) by (auto simp: frames_ok_def)
  with so' n b show "wpM mark_unreachable (\<lambda>_ b'. tb_ok env b' \<and>
      int (length (tb_frames b')) = int (length (tb_frames b)) + 0) code_kept b"
    by (simp add: mark_unreachable_def wp sv_last_def fs sv_truncate_def tb_ok_def)
qed

lemma emits_wp:
  assumes "emits f ws" "code_inv (tb_code b)" "\<And>b'. appended ws b b' \<Longrightarrow> Q b'"
  shows "wpM f (\<lambda>_. Q) code_kept b"
  using assms unfolding emits_def by (blast intro: wpM_mono)

lemma heights_update: "heights (fs[i := (fs ! i)\<lparr>cf_target := t\<rparr>]) = heights fs"
  by (cases "i < length fs") (auto simp: heights_def list_eq_iff_nth_eq nth_list_update)

text \<open>The jump a label carries, and the builder after it has been written.\<close>

lemma safe_write_label_target [safe_intros]: "safe env 0 (write_label_target env l)"
  unfolding safe_def
proof (intro allI impI)
  fix b assume b: "tb_ok env b \<and> tb_frames b \<noteq> []"
  let ?Q = "\<lambda>(_ :: result_type) b'. tb_ok env b' \<and> int (length (tb_frames b')) = int (length (tb_frames b)) + 0"
  let ?fs = "tb_frames b" and ?idx = "length (tb_frames b) - 1 - unat l"
  let ?f = "?fs ! ?idx" and ?n = "word_count (tb_code b)"
  have inv: "code_inv (tb_code b)" using b tb_ok_inv by blast
  have fin: "?Q r b'" if "appended ws b b'" for r ws b'
    using b that by (auto simp: tb_ok_def appendedD frames_ok_append)
  have lab: "wpM (emit_label x) (\<lambda>_. ?Q r) code_kept b" for x r
    by (rule emits_wp [OF emits_label inv]) (rule fin)
  show "wpM (write_label_target env l) ?Q code_kept b"
  proof (cases "length ?fs \<le> unat l")
    case True
    then show ?thesis using inv by (simp add: write_label_target_def wp)
  next
    case l: False
    then have idx: "?idx < length ?fs" using b by auto
    have ht: "unat (cf_height ?f) \<le> length (tb_stack b)"
      using frame_height_le [of _ ?fs _ _ ?f] idx b by (auto simp: tb_ok_def)
    have le: "height_words (take (unat (cf_height ?f)) (tb_stack b)) \<le> height_words (tb_stack b)"
      by (rule height_words_take)
    let ?delta = "height_words (tb_stack b) - height_words (take (unat (cf_height ?f)) (tb_stack b))"
    have forward: "wpM (bindM (liftR (jump_offset_new (addr ?n) (cf_target ?f))) (\<lambda>off.
          thenM (emit_label (label_new (cf_out ?f) (word_of_nat ?delta) off)) (retM (cf_label ?f))))
        ?Q code_kept (set_target ?idx (addr ?n) b)" if nl: "cf_kind ?f \<noteq> BK_Loop"
    proof (cases "jump_offset_new (addr ?n) (cf_target ?f)")
      case (Ok off)
      have fr: "frames_ok (code_words (tb_code b) @ label_words (label_new (cf_out ?f) (word_of_nat ?delta) off))
          (?fs[?idx := ?f\<lparr>cf_target := addr ?n\<rparr>])"
        using frames_ok_new_label [OF _ idx nl, of "code_words (tb_code b)" off "cf_out ?f" "word_of_nat ?delta"]
          word_count_room2 [OF inv] Ok b inv by (simp add: tb_ok_def)
      have "wpM (emit_label (label_new (cf_out ?f) (word_of_nat ?delta) off)) (\<lambda>_. ?Q (cf_label ?f)) code_kept
          (set_target ?idx (addr ?n) b)"
      proof (rule emits_wp [OF emits_label])
        show "code_inv (tb_code (set_target ?idx (addr ?n) b))" using inv by (simp add: set_target_def)
      next
        fix b' assume a: "appended (label_words (label_new (cf_out ?f) (word_of_nat ?delta) off)) (set_target ?idx (addr ?n) b) b'"
        note d = appendedD [OF a]
        have "stack_ok (be_max_stack env) (?fs[?idx := ?f\<lparr>cf_target := addr ?n\<rparr>]) (tb_stack b) (tb_highwater b)"
          using b by (auto simp: tb_ok_def heights_update intro: stack_ok_frames)
        then show "?Q (cf_label ?f) b'"
          using d fr by (simp add: tb_ok_def set_target_def)
      qed
      then show ?thesis using Ok by (simp add: wp wpM_ret_fun)
    next
      case (Err e)
      then show ?thesis using inv by (simp add: wp set_target_def)
    next
      case Panic
      then show ?thesis by (simp add: jump_offset_new_def Let_def split: if_splits)
    qed
    have loop: "wpM (bindM (liftR (jump_offset_new (addr ?n) (cf_target ?f))) (\<lambda>off.
          thenM (emit_label (label_new None (word_of_nat ?delta) off)) (retM None))) ?Q code_kept b"
    proof (cases "jump_offset_new (addr ?n) (cf_target ?f)")
      case Panic
      then show ?thesis by (simp add: jump_offset_new_def Let_def split: if_splits)
    qed (use lab inv in \<open>simp_all add: wp wpM_ret_fun\<close>)
    show ?thesis
      using l idx lab loop forward inv le ht
      unfolding write_label_target_def
      by (simp add: wp wpM_ret_fun wpM_pcB stack_height_def stack_height_for_def Let_def
          del: of_nat_diff split: block_kind.split)
  qed
qed

section \<open>Opening and closing frames\<close>

definition new_frame :: "builder \<Rightarrow> block_kind \<Rightarrow> result_type \<Rightarrow> result_type \<Rightarrow> control_frame" where
  "new_frame b kind label out = \<lparr>cf_kind = kind, cf_label = label, cf_out = out,
     cf_height = word_of_nat (length (tb_stack b)), cf_target = SENTINEL, cf_unreachable = False\<rparr>"

lemma wpM_push_control:
  "wpM (push_control env kind label out) Q E b \<longleftrightarrow>
    (if be_max_frames env \<le> length (tb_frames b) then E (VAllocError AE_OutOfMemory) b
     else Q () (b\<lparr>tb_frames := tb_frames b @ [new_frame b kind label out]\<rparr>))"
  by (auto simp: push_control_def wp sv_push_def new_frame_def)

lemma wpM_set_control_target:
  assumes "tb_frames b = gs @ [f]"
  shows "wpM (set_control_target t) Q E b = Q () (b\<lparr>tb_frames := gs @ [f\<lparr>cf_target := t\<rparr>]\<rparr>)"
  using assms by (simp add: set_control_target_def wp sv_last_def set_target_def)

lemma stack_ok_new_frame:
  assumes "stack_ok cap fs (tb_stack b) hw" "cf_height f = word_of_nat (length (tb_stack b))"
  shows "stack_ok cap (fs @ [f]) (tb_stack b) hw"
proof -
  have "length (tb_stack b) < 2 ^ 16" using assms(1) by (simp add: stack_ok_def)
  then have "unat (cf_height f) = length (tb_stack b)" using assms(2) by (simp add: unat_of_nat)
  then show ?thesis using assms(1) by (auto simp: stack_ok_def heights_def sorted_append)
qed

text \<open>A frame on top of the others, with its labels apart from theirs.\<close>

lemma tb_ok_add_frame:
  assumes "tb_ok env b" "cf_height f = word_of_nat (length (tb_stack b))"
    and "list_all2 (frame_ok (code_words (tb_code b))) (tb_frames b) L" "sorted_wrt disjoint_labels (concat (L @ [as]))"
    and "frame_ok (code_words (tb_code b)) f as"
  shows "tb_ok env (b\<lparr>tb_frames := tb_frames b @ [f]\<rparr>)"
proof -
  have "list_all2 (frame_ok (code_words (tb_code b))) (tb_frames b @ [f]) (L @ [as])"
    using assms(3,5) by (simp add: list_all2_appendI)
  then have "frames_ok (code_words (tb_code b)) (tb_frames b @ [f])"
    using assms(4) unfolding frames_ok_def by blast
  then show ?thesis
    using assms(1,2) stack_ok_new_frame by (auto simp: tb_ok_def)
qed

lemma tb_ok_labels:
  assumes "tb_ok env b"
  obtains L where "list_all2 (frame_ok (code_words (tb_code b))) (tb_frames b) L"
    "sorted_wrt disjoint_labels (concat (L @ [[]]))"
  using assms by (auto simp: tb_ok_def frames_ok_def)

lemma safe_enter_block: "safe env 1 (c_enter_block env ty)"
  unfolding safe_def
proof (intro allI impI)
  fix b assume b: "tb_ok env b \<and> tb_frames b \<noteq> []"
  then obtain L where L: "list_all2 (frame_ok (code_words (tb_code b))) (tb_frames b) L"
    "sorted_wrt disjoint_labels (concat (L @ [[]]))" using tb_ok_labels by blast
  have "tb_ok env (b\<lparr>tb_frames := tb_frames b @ [new_frame b BK_Block ty ty]\<rparr>)"
    using b by (intro tb_ok_add_frame [OF _ _ L]) (simp_all add: new_frame_def frame_ok_def)
  then show "wpM (c_enter_block env ty) (\<lambda>_ b'. tb_ok env b' \<and>
      int (length (tb_frames b')) = int (length (tb_frames b)) + 1) code_kept b"
    using b tb_ok_inv by (auto simp: c_enter_block_def wpM_push_control)
qed

lemma safe_loop: "safe env 1 (c_loop env ty)"
  unfolding safe_def
proof (intro allI impI)
  fix b assume b: "tb_ok env b \<and> tb_frames b \<noteq> []"
  then have inv: "code_inv (tb_code b)" using tb_ok_inv by blast
  obtain L where L: "list_all2 (frame_ok (code_words (tb_code b))) (tb_frames b) L"
    "sorted_wrt disjoint_labels (concat (L @ [[]]))" using b tb_ok_labels by blast
  let ?f = "(new_frame b BK_Loop None ty)\<lparr>cf_target := addr (word_count (tb_code b))\<rparr>"
  have "tb_ok env (b\<lparr>tb_frames := tb_frames b @ [?f]\<rparr>)"
    using b inv by (intro tb_ok_add_frame [OF _ _ L]) (auto simp add: new_frame_def frame_ok_def)
  then show "wpM (c_loop env ty) (\<lambda>_ b'. tb_ok env b' \<and>
      int (length (tb_frames b')) = int (length (tb_frames b)) + 1) code_kept b"
    using inv by (simp add: c_loop_def wp wpM_push_control wpM_pcB wpM_set_control_target)
qed

lemma safe_push_if: "safe env 1 (thenM (push_control env BK_If ty ty) write_if_else_target)"
  unfolding safe_def
proof (intro allI impI)
  fix b assume b: "tb_ok env b \<and> tb_frames b \<noteq> []"
  then have inv: "code_inv (tb_code b)" using tb_ok_inv by blast
  obtain L where L: "list_all2 (frame_ok (code_words (tb_code b))) (tb_frames b) L"
    "sorted_wrt disjoint_labels (concat (L @ [[]]))" using b tb_ok_labels by blast
  let ?n = "word_count (tb_code b)" and ?f = "new_frame b BK_If ty ty"
  let ?l = "label_new ty 0 jump_sentinel" and ?b1 = "b\<lparr>tb_frames := tb_frames b @ [?f]\<rparr>"
  let ?ws = "code_words (tb_code b) @ label_words ?l"
  have len: "length (code_words (tb_code b)) = ?n" using inv by simp
  have "jump_offset_new (addr ?n) SENTINEL = Ok jump_sentinel" by (simp add: jump_offset_new_def)
  then have "chain ?ws (addr ?n) [?n]"
    using chain_extend [of "code_words (tb_code b)" SENTINEL "[]" jump_sentinel ty 0]
      word_count_room2 [OF inv] by (simp add: len)
  then have fr: "frame_ok ?ws (?f\<lparr>cf_target := addr ?n\<rparr>) [?n]" by (simp add: frame_ok_def new_frame_def)
  have sorted: "sorted_wrt disjoint_labels (concat (L @ [[?n]]))"
    using L frames_bounds [OF L(1)] len by (auto simp: sorted_wrt_append disjoint_labels_def)
  have fin: "tb_ok env (b'\<lparr>tb_frames := tb_frames b @ [?f\<lparr>cf_target := addr ?n\<rparr>]\<rparr>)"
    if a: "appended (label_words ?l) ?b1 b'" for b'
  proof -
    note d = appendedD [OF a]
    let ?b2 = "b'\<lparr>tb_frames := tb_frames b\<rparr>"
    have w: "code_words (tb_code b') = ?ws" "tb_stack b' = tb_stack b" "tb_highwater b' = tb_highwater b"
      using d by simp_all
    have ok2: "tb_ok env ?b2"
      using b d by (simp add: tb_ok_def frames_ok_append)
    have "tb_ok env (?b2\<lparr>tb_frames := tb_frames ?b2 @ [?f\<lparr>cf_target := addr ?n\<rparr>]\<rparr>)"
      using L(1) fr sorted
      by (intro tb_ok_add_frame [OF ok2, of _ L "[?n]"])
        (auto simp: w new_frame_def intro: list_all2_mono frame_ok_append)
    then show ?thesis by simp
  qed
  have "wpM (emit_label ?l) (\<lambda>_ b'. tb_frames b' = tb_frames ?b1 \<and> tb_ok env (b'\<lparr>tb_frames := tb_frames b @ [?f\<lparr>cf_target := addr ?n\<rparr>]\<rparr>))
      code_kept ?b1"
    using inv fin by (intro emits_wp [OF emits_label]) (auto simp: appendedD)
  then show "wpM (thenM (push_control env BK_If ty ty) write_if_else_target)
     (\<lambda>_ b'. tb_ok env b' \<and> int (length (tb_frames b')) = int (length (tb_frames b)) + 1) code_kept b"
    using inv
    by (auto simp: wp wpM_push_control write_if_else_target_def sv_last_def wpM_pcB set_target_def new_frame_def
        elim!: wpM_mono)
qed

lemma safe_if_: "safe env 1 (c_if env ty)"
  unfolding c_if_def by (intro safe_intros safe_push_if)

section \<open>Backpatching inside the builder\<close>

lemma wpM_pop_frame: "tb_frames b = gs @ [f] \<Longrightarrow> wpM pop_frame Q E b = Q f (b\<lparr>tb_frames := gs\<rparr>)"
  by (simp add: pop_frame_def sv_pop_def wp)

lemma stack_ok_pop_frame: "stack_ok cap (gs @ [f]) st hw \<Longrightarrow> stack_ok cap gs st hw"
  by (auto simp: stack_ok_def heights_def sorted_append)

lemma tb_ok_pop_frame:
  assumes "code_inv cd'" "stack_ok (be_max_stack env) (gs @ [f]) (tb_stack b) (tb_highwater b)"
    and L: "list_all2 (frame_ok ws) (gs @ [f]) (L @ [as])" "sorted_wrt disjoint_labels (concat (L @ [as]))"
    and len: "length (code_words cd') = length ws"
    and same: "\<And>i. (\<forall>a\<in>set as. i \<noteq> a \<and> i \<noteq> Suc a) \<Longrightarrow> code_words cd' ! i = ws ! i"
  shows "tb_ok env (b\<lparr>tb_frames := gs, tb_code := cd'\<rparr>)"
  using frames_ok_pop [OF L len same] assms(1) stack_ok_pop_frame [OF assms(2)]
  by (auto simp: tb_ok_def frames_ok_def)

lemma split_labels:
  assumes "list_all2 P (gs @ [f]) L"
  obtains L' as where "L = L' @ [as]" "list_all2 P gs L'" "P f as"
  using assms by (auto simp: list_all2_append1 list_all2_Cons1)

text \<open>Closing a block: the frame is gone and everything else is as before.\<close>

lemma wpM_close_block:
  assumes inv: "code_inv (tb_code b)"
    and so: "stack_ok (be_max_stack env) (gs @ [f]) (tb_stack b) (tb_highwater b)"
    and fr: "frames_ok (code_words (tb_code b)) (gs @ [f])" and kind: "cf_kind f \<noteq> BK_Loop"
  shows "wpM (bindM pcB (\<lambda>pc. backpatchB () (cf_target f) (patch_all_closure pc)))
    (\<lambda>_ b'. tb_ok env b' \<and> tb_frames b' = gs) code_kept (b\<lparr>tb_frames := gs\<rparr>)"
proof -
  obtain L where "list_all2 (frame_ok (code_words (tb_code b))) (gs @ [f]) L" "sorted_wrt disjoint_labels (concat L)"
    using fr by (auto simp: frames_ok_def)
  then obtain L as where L: "list_all2 (frame_ok (code_words (tb_code b))) (gs @ [f]) (L @ [as])"
    "sorted_wrt disjoint_labels (concat (L @ [as]))" by (metis split_labels)
  then have "frame_ok (code_words (tb_code b)) f as"
    by (metis list_all2_append list_all2_Cons list_all2_lengthD append_same_eq length_append_singleton nat.inject)
  then have ch: "chain (code_words (tb_code b)) (cf_target f) as" "apart as"
    using kind by (simp_all add: frame_ok_def)
  obtain r cd' where run: "backpatch (cf_target f) (patch_all_closure (addr (word_count (tb_code b)))) (tb_code b, ()) = (r, (cd', ()))"
    by (metis prod.exhaust old.unit.exhaust)
  note spec = backpatch_all_spec [OF inv ch, unfolded run]
  show ?thesis
  proof (cases r)
    case (Ok u)
    then have "tb_ok env (b\<lparr>tb_frames := gs, tb_code := cd'\<rparr>)"
      using spec inv by (intro tb_ok_pop_frame [OF _ so L]) auto
    then show ?thesis
      using inv run Ok by (simp add: wp wpM_pcB) (simp add: wpM_def backpatchB_def)
  next
    case (Err e)
    then show ?thesis
      using inv run spec by (simp add: wp wpM_pcB) (simp add: wpM_def backpatchB_def)
  next
    case Panic
    then show ?thesis using spec by simp
  qed
qed

lemma wpM_stack_only:
  assumes "stack_only env f" "tb_ok env b" "tb_frames b \<noteq> []" "\<And>a b'. stack_step env b b' \<Longrightarrow> Q a b'"
  shows "wpM f Q code_kept b"
  using assms unfolding stack_only_def by (blast intro: wpM_mono)

lemma safe_pop_control: "safe env (- 1) pop_control"
  unfolding safe_def
proof (intro allI impI)
  fix b assume b: "tb_ok env b \<and> tb_frames b \<noteq> []"
  then obtain gs f where fs: "tb_frames b = gs @ [f]" by (cases "tb_frames b" rule: rev_cases) auto
  let ?Q = "\<lambda>(_ :: result_type) b'. tb_ok env b' \<and> int (length (tb_frames b')) = int (length (tb_frames b)) + - 1"
  let ?K = "\<lambda>frame. thenM (case cf_kind frame of
            BK_Loop \<Rightarrow> retM ()
          | BK_Block \<Rightarrow> bindM pcB (\<lambda>pc. backpatchB () (cf_target frame) (patch_all_closure pc))
          | BK_If \<Rightarrow>
              if cf_out frame = None then
                bindM pcB (\<lambda>pc. backpatchB () (cf_target frame) (patch_all_closure pc))
              else errM BlockResultTypeMismatch)
        (retM (cf_out frame))"
  have rest: "wpM (bindM pop_frame ?K) ?Q code_kept b1" if b1: "stack_step env b b1" for b1
  proof -
    have fs1: "tb_frames b1 = gs @ [f]" and ok1: "tb_ok env b1" using b1 fs by (simp_all add: stack_step_def)
    then have parts: "code_inv (tb_code b1)" "stack_ok (be_max_stack env) (gs @ [f]) (tb_stack b1) (tb_highwater b1)"
      "frames_ok (code_words (tb_code b1)) (gs @ [f])" by (simp_all add: tb_ok_def)
    note close = wpM_close_block [OF parts]
    have fin: "?Q (cf_out f) b2" if "tb_ok env b2 \<and> tb_frames b2 = gs" for b2 using that fs by simp
    show ?thesis
    proof (cases "cf_kind f = BK_Loop")
      case True
      obtain L where L: "list_all2 (frame_ok (code_words (tb_code b1))) (gs @ [f]) L" "sorted_wrt disjoint_labels (concat L)"
        using parts(3) by (auto simp: frames_ok_def)
      then obtain L' as where "L = L' @ [as]" "list_all2 (frame_ok (code_words (tb_code b1))) gs L'"
        by (metis split_labels)
      then have "frames_ok (code_words (tb_code b1)) gs"
        using L(2) by (auto simp: frames_ok_def sorted_wrt_append)
      then have "tb_ok env (b1\<lparr>tb_frames := gs\<rparr>)"
        using parts(1) stack_ok_pop_frame [OF parts(2)] by (simp add: tb_ok_def)
      then show ?thesis using True fs by (simp add: wpM_pop_frame [OF fs1] wp)
    next
      case False
      have run: "wpM (thenM (bindM pcB (\<lambda>pc. backpatchB () (cf_target f) (patch_all_closure pc))) (retM (cf_out f)))
          ?Q code_kept (b1\<lparr>tb_frames := gs\<rparr>)"
        unfolding wpM_then wpM_ret_fun by (rule wpM_mono [OF close [OF False]]) (use fin in auto)
      show ?thesis
        unfolding wpM_bind wpM_pop_frame [OF fs1]
        using False run parts(1) by (cases "cf_kind f") (auto simp: wp)
    qed
  qed
  have inv1: "code_inv (tb_code b1)" if "stack_step env b b1" for b1
    using that tb_ok_inv unfolding stack_step_def by metis
  show "wpM pop_control ?Q code_kept b"
    unfolding pop_control_def wpM_bind wpM_then wpM_get wpM_unwrap
  proof (rule exI [of _ f], intro conjI)
    show "sv_last (tb_frames b) = Some f" by (simp add: sv_last_def fs)
    show "wpM (pop_result_type (cf_out f)) (\<lambda>_ s. wpM (if length (tb_stack s) \<noteq> unat (cf_height f)
        then errM BlockResultTypeMismatch else bindM pop_frame ?K) ?Q code_kept s) code_kept b"
    proof (rule wpM_stack_only [OF stack_only_pops(2)])
      fix a b1 assume b1: "stack_step env b b1"
      show "wpM (if length (tb_stack b1) \<noteq> unat (cf_height f) then errM BlockResultTypeMismatch
          else bindM pop_frame ?K) ?Q code_kept b1"
        using rest [OF b1] inv1 [OF b1] by (simp only: wpM_if wpM_err if_True if_False split: if_split) simp
    qed (use b in simp_all)
  qed
qed

section \<open>Else\<close>

lemma safe_reopen_else:
  "safe env 0 (bindM pop_control_and_patch_if (\<lambda>(results, br_chain).
     thenM (push_control env BK_Block results results) (set_control_target br_chain)))"
  unfolding safe_def
proof (intro allI impI)
  fix b assume b: "tb_ok env b \<and> tb_frames b \<noteq> []"
  then obtain gs f where fs: "tb_frames b = gs @ [f]" by (cases "tb_frames b" rule: rev_cases) auto
  let ?Q = "\<lambda>(_ :: unit) b'. tb_ok env b' \<and> int (length (tb_frames b')) = int (length (tb_frames b)) + 0"
  let ?open = "\<lambda>(results, br_chain). thenM (push_control env BK_Block results results) (set_control_target br_chain)"
  let ?patch = "bindM pcB (\<lambda>pc. bindM (backpatchB (SENTINEL, SENTINEL) (cf_target f) (patch_if_closure (cf_target f) pc))
          (\<lambda>(prev, remaining). retM (cf_out f, remaining)))"
  have patch: "wpM ?patch (\<lambda>r. wpM (?open r) ?Q code_kept) code_kept (b1\<lparr>tb_frames := gs\<rparr>)"
    if b1: "stack_step env b b1" and kind: "cf_kind f = BK_If" for b1
  proof -
    let ?cd = "tb_code b1" and ?ws = "code_words (tb_code b1)"
    have fs1: "tb_frames b1 = gs @ [f]" and ok1: "tb_ok env b1" using b1 fs by (simp_all add: stack_step_def)
    then have inv: "code_inv ?cd" and so: "stack_ok (be_max_stack env) (gs @ [f]) (tb_stack b1) (tb_highwater b1)"
      and fr: "frames_ok ?ws (gs @ [f])" by (simp_all add: tb_ok_def)
    obtain L where "list_all2 (frame_ok ?ws) (gs @ [f]) L" "sorted_wrt disjoint_labels (concat L)"
      using fr by (auto simp: frames_ok_def)
    then obtain L as where L: "list_all2 (frame_ok ?ws) (gs @ [f]) (L @ [as])"
      "sorted_wrt disjoint_labels (concat (L @ [as]))" and "frame_ok ?ws f as" by (metis split_labels)
    then have ch: "chain ?ws (cf_target f) as" "apart as" "as \<noteq> []" using kind by (simp_all add: frame_ok_def)
    then obtain init z where az: "as = init @ [z]" by (cases as rule: rev_cases) auto
    obtain r cd' pr rem where run: "backpatch (cf_target f) (patch_if_closure (cf_target f) (addr (word_count ?cd)))
        (?cd, (SENTINEL, SENTINEL)) = (r, (cd', (pr, rem)))" by (metis prod.exhaust)
    note spec = backpatch_if_spec [OF inv ch(1,2) [unfolded az], unfolded run]
    have start: "wpM ?patch Q E (b1\<lparr>tb_frames := gs\<rparr>) = (case r of
        Ok _ \<Rightarrow> Q (cf_out f, rem) (b1\<lparr>tb_frames := gs, tb_code := cd'\<rparr>)
      | Err e \<Rightarrow> E e (b1\<lparr>tb_frames := gs, tb_code := cd'\<rparr>) | Panic \<Rightarrow> False)" for Q E
      using inv run by (cases r) (simp_all add: wp wpM_pcB, simp_all add: wpM_def backpatchB_def bindM_def retM_def)
    show ?thesis
    proof (cases r)
      case (Ok u)
      then have inv': "code_inv cd'" and len: "length (code_words cd') = length ?ws" and rest: "chain (code_words cd') rem init"
        and same: "\<And>i. (\<forall>a\<in>set as. i \<noteq> a \<and> i \<noteq> Suc a) \<Longrightarrow> code_words cd' ! i = ?ws ! i"
        using spec inv by (auto simp: az)
      let ?b2 = "b1\<lparr>tb_frames := gs, tb_code := cd'\<rparr>"
      have ok2: "tb_ok env ?b2" by (rule tb_ok_pop_frame [OF inv' so L len same])
      have LL: "list_all2 (frame_ok (code_words cd')) gs L" by (rule frames_ok_pop(1) [OF L len same])
      let ?nf = "(new_frame ?b2 BK_Block (cf_out f) (cf_out f))\<lparr>cf_target := rem\<rparr>"
      have "frame_ok (code_words cd') ?nf init"
        using rest ch(2) az by (simp add: frame_ok_def new_frame_def sorted_wrt_append)
      moreover have "sorted_wrt disjoint_labels (concat (L @ [init]))"
        using L(2) by (auto simp: az sorted_wrt_append)
      ultimately have "tb_ok env (?b2\<lparr>tb_frames := tb_frames ?b2 @ [?nf]\<rparr>)"
        using LL by (intro tb_ok_add_frame [OF ok2, of _ L init]) (simp_all add: new_frame_def)
      then show ?thesis
        unfolding start using Ok inv' fs
        by (simp add: wp wpM_push_control wpM_set_control_target [of _ gs])
    next
      case (Err e)
      then show ?thesis unfolding start using spec by simp
    next
      case Panic
      then show ?thesis using spec by simp
    qed
  qed
  have inv1: "code_inv (tb_code b1)" if "stack_step env b b1" for b1
    using that tb_ok_inv unfolding stack_step_def by blast
  have after: "wpM (bindM (getM (\<lambda>b. length (tb_stack b))) (\<lambda>len.
        if len \<noteq> unat (cf_height f) then errM BlockResultTypeMismatch
        else bindM pop_frame (\<lambda>frame.
          bindM pcB (\<lambda>pc.
          bindM (backpatchB (SENTINEL, SENTINEL) (cf_target frame) (patch_if_closure (cf_target frame) pc))
          (\<lambda>(prev, remaining). retM (cf_out frame, remaining))))))
        (\<lambda>r. wpM (?open r) ?Q code_kept) code_kept b1"
    if b1: "stack_step env b b1" and kind: "cf_kind f = BK_If" for b1
  proof -
    have fs1: "tb_frames b1 = gs @ [f]" using b1 fs by (simp add: stack_step_def)
    show ?thesis
      unfolding wpM_bind [of "getM _"] wpM_get wpM_if wpM_err wpM_bind [of pop_frame] wpM_pop_frame [OF fs1]
      using patch [OF b1 kind] inv1 [OF b1] by (simp del: wpM_bind)
  qed
  show "wpM (bindM pop_control_and_patch_if ?open) ?Q code_kept b"
    unfolding wpM_bind [of pop_control_and_patch_if]
    unfolding pop_control_and_patch_if_def wpM_bind [of "getM (\<lambda>b. sv_last (tb_frames b))"] wpM_get
      wpM_bind [of "unwrapM _"] wpM_unwrap
  proof (rule exI [of _ f], intro conjI)
    show "sv_last (tb_frames b) = Some f" by (simp add: sv_last_def fs)
    show "wpM (if cf_kind f \<noteq> BK_If then errM InvalidElseBlock
     else thenM (pop_result_type (cf_out f))
       (bindM (getM (\<lambda>b. length (tb_stack b))) (\<lambda>len.
        if len \<noteq> unat (cf_height f) then errM BlockResultTypeMismatch
        else bindM pop_frame (\<lambda>frame.
          bindM pcB (\<lambda>pc.
          bindM (backpatchB (SENTINEL, SENTINEL) (cf_target frame) (patch_if_closure (cf_target frame) pc))
          (\<lambda>(prev, remaining). retM (cf_out frame, remaining))))))) (\<lambda>r. wpM (?open r) ?Q code_kept) code_kept b"
    proof (cases "cf_kind f = BK_If")
      case True
      then show ?thesis
        unfolding wpM_if wpM_then
        using b after by (auto intro!: wpM_stack_only [OF stack_only_pops(2)])
    next
      case False
      then show ?thesis using b tb_ok_inv by (auto simp: wp)
    qed
  qed
qed

lemma safe_else: "safe env 0 (c_else env)"
  unfolding c_else_def by (intro safe_intros safe_reopen_else)

section \<open>Every visitor method\<close>

text \<open>The references of a module lead to existing symbols with existing types.\<close>

definition module_types_ok :: "wmodule \<Rightarrow> bool" where
  "module_types_ok md \<longleftrightarrow> length (md_functions md) < 2 ^ 16 \<and>
     (\<forall>f\<in>set (md_functions md). unat (fn_ty f) < length (md_types md))"

fun ref_ok :: "store \<Rightarrow> sym_ref \<Rightarrow> bool" where
  "ref_ok st (Ref_Module i) \<longleftrightarrow> True"
| "ref_ok st (Ref_Host m i) \<longleftrightarrow> unat m < length (st_host_modules st) \<and>
     unat i < length (hmod_functions (st_host_modules st ! unat m))"
| "ref_ok st (Ref_Extern m i) \<longleftrightarrow> unat m < length (st_modules st) \<and>
     unat i < length (md_functions (st_modules st ! unat m)) \<and> module_types_ok (st_modules st ! unat m)"

fun global_ref_ok :: "store \<Rightarrow> sym_ref \<Rightarrow> bool" where
  "global_ref_ok st (Ref_Module i) \<longleftrightarrow> True"
| "global_ref_ok st (Ref_Host m i) \<longleftrightarrow> unat m < length (st_host_modules st) \<and>
     unat i < length (hmod_globals (st_host_modules st ! unat m))"
| "global_ref_ok st (Ref_Extern m i) \<longleftrightarrow> unat m < length (st_modules st) \<and>
     unat i < length (md_globals (st_modules st ! unat m))"

definition env_ok :: "build_env \<Rightarrow> bool" where
  "env_ok env \<longleftrightarrow> module_types_ok (be_module env) \<and> be_max_stack env < 2 ^ 16 \<and>
     (\<forall>r\<in>set (func_imports (md_imports (be_module env))). ref_ok (be_store env) r) \<and>
     (\<forall>r\<in>set (global_imports (md_imports (be_module env))). global_ref_ok (be_store env) r)"

lemma func_sig_ok:
  assumes "module_types_ok md" "unat i < length (md_functions md)"
  shows "func_sig md i \<noteq> Panic"
proof -
  have "md_functions md ! unat i \<in> set (md_functions md)" using assms(2) by (rule nth_mem)
  then have "unat (fn_ty (md_functions md ! unat i)) < length (md_types md)"
    using assms(1) by (auto simp: module_types_ok_def)
  with assms(2) show ?thesis by (simp add: func_sig_def)
qed

lemma local_slot_no_panic: "local_slot ls x ci off \<noteq> Panic"
  by (induction ls arbitrary: ci off) (auto simp: Let_def split: if_splits)

lemma get_local_no_panic: "get_local env x \<noteq> Panic"
  by (auto simp: get_local_def Let_def local_slot_no_panic split: option.splits)

lemma get_global_ref_import:
  "get_global_ref md x = Some r \<Longrightarrow> r \<in> set (global_imports (md_imports md)) \<or> (\<exists>i. r = Ref_Module i)"
  by (auto simp: get_global_ref_def find_global_import_count Let_def split: sum.splits if_splits dest: count_to_Inl)

lemma get_global_no_panic:
  assumes "env_ok env"
  shows "get_global env x \<noteq> Panic"
proof (cases "get_global_ref (be_module env) x")
  case (Some r)
  then have "global_ref_ok (be_store env) r"
    using assms get_global_ref_import [OF Some] by (auto simp: env_ok_def)
  then show ?thesis using Some by (cases r) (auto simp: get_global_def split: option.splits)
qed (simp add: get_global_def)

lemma func_imports_kind: "r \<in> set (func_imports is) \<Longrightarrow> r \<noteq> Ref_Module i"
  by (induction "is" rule: func_imports.induct) auto

lemma safe_call:
  assumes ok: "env_ok env"
  shows "safe env 0 (c_call env x)"
proof (cases "get_func_ref (be_module env) x")
  case None
  then show ?thesis unfolding c_call_def ok_or_def by (auto simp: safe_def wp tb_ok_def)
next
  case (Some r)
  have c: "c_call env x = bindM (retM r) (\<lambda>r. case r of
       Ref_Module index \<Rightarrow> bindM (liftR (func_sig (be_module env) index)) (\<lambda>ty.
         thenM (call_sig env (ft_params ty) (ft_returns ty)) (thenM (instr_imm_8 CALL 0) (write_16 index)))
     | Ref_Host md index \<Rightarrow>
         bindM (liftR (bindR (at (st_host_modules (be_store env)) (unat md))
           (\<lambda>hm. at (hmod_functions hm) (unat index)))) (\<lambda>f.
         thenM (call_sig env (hf_params f) (result_list (hf_returns f)))
         (thenM (instr_imm_8 CALL_HOST md) (write_16 index)))
     | Ref_Extern md index \<Rightarrow>
         bindM (liftR (bindR (at (st_modules (be_store env)) (unat md)) (\<lambda>em. func_sig em index))) (\<lambda>ty.
         thenM (call_sig env (ft_params ty) (ft_returns ty)) (thenM (instr_imm_8 CALL_EXTERN md) (write_16 index))))"
    by (simp add: c_call_def Some ok_or_def)
  have valid: "case r of Ref_Module i \<Rightarrow> func_sig (be_module env) i \<noteq> Panic
    | Ref_Host m i \<Rightarrow> bindR (at (st_host_modules (be_store env)) (unat m)) (\<lambda>hm. at (hmod_functions hm) (unat i)) \<noteq> Panic
    | Ref_Extern m i \<Rightarrow> bindR (at (st_modules (be_store env)) (unat m)) (\<lambda>em. func_sig em i) \<noteq> Panic"
    using Some
  proof (cases rule: get_func_ref_cases)
    case imported
    then have "ref_ok (be_store env) r" using ok by (simp add: env_ok_def)
    then show ?thesis using func_imports_kind [OF imported] by (cases r) (auto simp: func_sig_ok)
  next
    case (own i)
    then have "unat (word_of_nat i :: u16) = i"
      using ok by (simp add: env_ok_def module_types_ok_def unat_of_nat)
    then show ?thesis using own ok func_sig_ok [of "be_module env" "word_of_nat i"] by (simp add: env_ok_def)
  qed
  show ?thesis unfolding c bindM_ret_left
    by (cases r) (use valid in \<open>auto intro!: safe_intros\<close>)
qed

lemma safe_call_indirect: "safe env 0 (c_call_indirect env x)"
  unfolding c_call_indirect_def by (intro safe_intros)

lemma safe_locals: "safe env 0 (c_local_get env x)" "safe env 0 (c_local_set env x)" "safe env 0 (c_local_tee env x)"
  unfolding c_local_get_def c_local_set_def c_local_tee_def by (intro safe_intros get_local_no_panic)+

lemma safe_globals:
  assumes "env_ok env"
  shows "safe env 0 (c_global_get env x)" "safe env 0 (c_global_set env x)"
  unfolding c_global_get_def c_global_set_def by (intro safe_intros get_global_no_panic assms)+

lemma check_memory_no_panic: "check_memory_defined md \<noteq> Panic"
  by (simp add: check_memory_defined_def)

lemma safe_base: "safe env 0 (c_base env p)"
  unfolding c_base_def by (cases p) (auto intro!: safe_intros)

lemma safe_mem: "safe env 0 (c_mem env p ma)"
  unfolding c_mem_def by (intro safe_intros check_memory_no_panic)

lemma safe_consts:
  "safe env 0 (c_i32_const env n)" "safe env 0 (c_i64_const env k)" "safe env 0 (c_f32_const env n)"
  "safe env 0 (c_f64_const env k)" "safe env 0 (c_memory_size env)" "safe env 0 (c_memory_grow env)"
  unfolding c_i32_const_def c_i64_const_def c_f32_const_def c_f64_const_def c_memory_size_def c_memory_grow_def
  by (intro safe_intros check_memory_no_panic)+

lemma safe_parametric: "safe env 0 c_drop" "safe env 0 (c_select env)" "safe env 0 c_unreachable"
  unfolding c_drop_def c_select_def c_unreachable_def by (intro safe_intros)+

lemma safe_instr_return: "safe env 0 (instr_return r)"
  unfolding instr_return_def by (intro safe_intros)

lemma safe_branches:
  "safe env 0 (c_br env l)" "safe env 0 (c_br_if env l)" "safe env 0 (c_br_table_start n)"
  "safe env 0 (c_br_table_branch env l)" "safe env 0 (c_br_table_finish env l)" "safe env 0 (c_return env)"
  unfolding c_br_def c_br_if_def c_br_table_start_def c_br_table_branch_def c_br_table_finish_def c_return_def
  by (intro safe_intros safe_instr_return)+

text \<open>How a visit changes the number of open frames.\<close>

fun depth_change :: "visit \<Rightarrow> int" where
  "depth_change (Vs_enter_block _) = 1"
| "depth_change (Vs_loop _) = 1"
| "depth_change (Vs_if _) = 1"
| "depth_change Vs_exit_block = - 1"
| "depth_change Vs_finish = - 1"
| "depth_change _ = 0"

lemma safe_visit:
  assumes "env_ok env" "v \<noteq> Vs_exit_block" "v \<noteq> Vs_finish"
  shows "safe env (depth_change v) (compile_visit env v)"
  using assms
  by (cases v) (simp_all add: safe_pure safe_parametric safe_enter_block safe_loop safe_if_ safe_else safe_branches
      safe_call safe_call_indirect safe_locals safe_globals safe_mem safe_consts safe_base stack_safe)

lemma exit_block_wp:
  assumes "tb_ok env b" "2 \<le> length (tb_frames b)"
  shows "wpM (c_exit_block env) (\<lambda>_ b'. tb_ok env b' \<and> int (length (tb_frames b')) = int (length (tb_frames b)) - 1)
    code_kept b"
proof -
  have "wpM pop_control (\<lambda>_ b'. tb_ok env b' \<and> int (length (tb_frames b')) = int (length (tb_frames b)) + - 1) code_kept b"
    using safe_pop_control assms unfolding safe_def by fastforce
  then show ?thesis
    unfolding c_exit_block_def wpM_bind
  proof (rule wpM_mono)
    fix r b1 assume b1: "tb_ok env b1 \<and> int (length (tb_frames b1)) = int (length (tb_frames b)) + - 1"
    then have "tb_frames b1 \<noteq> []" using assms(2) by auto
    with b1 have "wpM (push_result_type env r) (\<lambda>_. stack_step env b1) code_kept b1"
      using stack_only_pushes(2) [of env r] by (simp add: stack_only_def)
    then show "wpM (push_result_type env r)
        (\<lambda>_ b'. tb_ok env b' \<and> int (length (tb_frames b')) = int (length (tb_frames b)) - 1) code_kept b1"
      using b1 by (elim wpM_mono) (auto simp: stack_step_def)
  qed
qed

lemma finish_wp:
  assumes "tb_ok env b" "tb_frames b \<noteq> []"
  shows "wpM c_finish (\<lambda>_ b'. tb_ok env b' \<and> int (length (tb_frames b')) = int (length (tb_frames b)) - 1) code_kept b"
proof -
  have "wpM pop_control (\<lambda>_ b'. tb_ok env b' \<and> int (length (tb_frames b')) = int (length (tb_frames b)) + - 1) code_kept b"
    using safe_pop_control assms unfolding safe_def by fastforce
  then show ?thesis
    unfolding c_finish_def wpM_bind
  proof (rule wpM_mono)
    fix r b1 assume b1: "tb_ok env b1 \<and> int (length (tb_frames b1)) = int (length (tb_frames b)) + - 1"
    have "\<exists>ws. emits (instr_return r) ws"
      unfolding instr_return_def by (cases r) (auto intro: emits_instr)
    then obtain ws where "emits (instr_return r) ws" by blast
    then show "wpM (instr_return r)
        (\<lambda>_ b'. tb_ok env b' \<and> int (length (tb_frames b')) = int (length (tb_frames b)) - 1) code_kept b1"
      using b1 by (intro emits_wp [where b = b1]) (auto simp: tb_ok_def appendedD frames_ok_append)
  qed
qed

text \<open>
  Claim C3. The compiler is safe on every sequence of visits the decoder can make: in a builder that
  satisfies the invariant, with as many frames open as the visit needs, every visitor method either
  fails with an error, leaving a well-formed code buffer, or keeps the whole invariant (stack bounds,
  high-water mark, heights of the frames, chains of pending jumps apart from each other, loop targets
  inside the code) and changes the number of open frames by the visit's nesting. It never panics.
\<close>

theorem compile_visit_safe:
  assumes "env_ok env" "tb_ok env b" "tb_frames b \<noteq> []" "v = Vs_exit_block \<Longrightarrow> 2 \<le> length (tb_frames b)"
  shows "wpM (compile_visit env v)
    (\<lambda>_ b'. tb_ok env b' \<and> int (length (tb_frames b')) = int (length (tb_frames b)) + depth_change v)
    (\<lambda>e b'. code_inv (tb_code b')) b"
proof (cases "v = Vs_exit_block \<or> v = Vs_finish")
  case True
  then show ?thesis using exit_block_wp [OF assms(2)] finish_wp [OF assms(2,3)] assms(4) by auto
next
  case False
  then show ?thesis using safe_visit [OF assms(1), of v] assms(2,3) by (simp add: safe_def)
qed

definition tiny_env :: build_env where
  "tiny_env = \<lparr>be_store = \<lparr>st_modules = [], st_max_modules = 1, st_host_modules = [], st_memories = [], st_tables = []\<rparr>,
     be_module = small_module\<lparr>md_imports := []\<rparr>, be_func = md_functions small_module ! 0,
     be_max_frames = 8, be_max_stack = 8\<rparr>"

lemma tiny_env_ok: "env_ok tiny_env"
  by (simp add: env_ok_def tiny_env_def small_module_def module_types_ok_def)

text \<open>A builder inside the function's frame, with one block open and a value on the stack.\<close>

definition tiny_builder :: builder where
  "tiny_builder = (let f = \<lparr>cf_kind = BK_Block, cf_label = None, cf_out = None, cf_height = 0,
       cf_target = SENTINEL, cf_unreachable = False\<rparr> in
     \<lparr>tb_code = small_code, tb_frames = [f, f], tb_stack = [], tb_highwater = 0, tb_table_result = None\<rparr>)"

lemma tiny_builder_ok: "tb_ok tiny_env tiny_builder"
proof -
  have "frames_ok [] (tb_frames tiny_builder)"
    unfolding frames_ok_def by (rule exI [of _ "[[], []]"]) (simp add: tiny_builder_def Let_def frame_ok_def)
  then show ?thesis
    by (simp add: tb_ok_def tiny_builder_def tiny_env_def small_code_facts stack_ok_def heights_def Let_def)
qed

lemma compile_visit_safe_witness:
  "wpM (compile_visit tiny_env Vs_exit_block)
    (\<lambda>_ b'. tb_ok tiny_env b' \<and> length (tb_frames b') = 1) (\<lambda>e b'. code_inv (tb_code b')) tiny_builder"
proof -
  have "length (tb_frames tiny_builder) = 2" by (simp add: tiny_builder_def Let_def)
  then show ?thesis
    using compile_visit_safe [OF tiny_env_ok tiny_builder_ok, of Vs_exit_block]
    by (fastforce elim!: wpM_mono)
qed

end
