(* ===== verification/Reader_Safe.thy ===== *)
theory Reader_Safe
  imports Wasm_Types
begin

text \<open>
  No decoder panics. \<open>reader_safe f\<close> says that \<open>f\<close>, run on a well-formed reader, never panics and
  leaves the reader well formed when it succeeds; the predicate is closed under everything the
  decoders are written with, so it holds of every reader operation and every type decoder by
  \<open>intro rsafe\<close>. The last section lifts it to computations on a reader and a further state.
\<close>

definition reader_safe :: "'a rm \<Rightarrow> bool" where
  "reader_safe f \<longleftrightarrow> (\<forall>r. reader_inv r \<longrightarrow> wpM f (\<lambda>_. reader_inv) (\<lambda>_ _. True) r)"

named_theorems rsafe "closure rules of panic freedom of the decoders"

lemma reader_safe_pure [rsafe]:
  "reader_safe (retM a)" "reader_safe (errM e)" "reader_safe (getM g)" "reader_safe (ok_or x e)"
  by (auto simp: reader_safe_def wp split: option.split)

lemma reader_safe_lift [rsafe]: "x \<noteq> Panic \<Longrightarrow> reader_safe (liftR x)"
  by (cases x) (auto simp: reader_safe_def wp)

lemma reader_safe_bind [rsafe]:
  assumes "reader_safe f" "\<And>a. reader_safe (g a)" shows "reader_safe (bindM f g)"
  unfolding reader_safe_def wpM_bind
proof (intro allI impI)
  fix r assume "reader_inv r"
  then have "wpM f (\<lambda>_. reader_inv) (\<lambda>_ _. True) r" using assms(1) by (simp add: reader_safe_def)
  then show "wpM f (\<lambda>a. wpM (g a) (\<lambda>_. reader_inv) (\<lambda>_ _. True)) (\<lambda>_ _. True) r"
    by (rule wpM_mono) (use assms(2) in \<open>auto simp: reader_safe_def\<close>)
qed

lemma reader_safe_then [rsafe]: "reader_safe f \<Longrightarrow> reader_safe g \<Longrightarrow> reader_safe (thenM f g)"
  by (simp add: thenM_def reader_safe_bind)

lemma reader_safe_if [rsafe]:
  "(b \<Longrightarrow> reader_safe f) \<Longrightarrow> (\<not> b \<Longrightarrow> reader_safe g) \<Longrightarrow> reader_safe (if b then f else g)"
  by simp

lemma reader_safe_let [rsafe]: "(\<And>a. reader_safe (f a)) \<Longrightarrow> reader_safe (let a = x in f a)"
  by simp

lemma reader_safe_option [rsafe]:
  "(x = None \<Longrightarrow> reader_safe f) \<Longrightarrow> (\<And>a. x = Some a \<Longrightarrow> reader_safe (g a)) \<Longrightarrow>
    reader_safe (case x of None \<Rightarrow> f | Some a \<Rightarrow> g a)"
  by (cases x) auto

lemma reader_safe_peek_u8 [rsafe]: "reader_safe peek_u8"
  unfolding reader_safe_def wpM_def using peek_u8_spec by fastforce

lemma reader_safe_read_u8 [rsafe]: "reader_safe read_u8"
  unfolding reader_safe_def
proof (intro allI impI)
  fix r assume inv: "reader_inv r"
  then have rel: "outcome_rel (\<lambda>r' s'. reader_inv r' \<and> reader_abs r' = s')
     (\<lambda>r' s'. rd_full_offset r' = bs_offset s') (read_u8 r) (spec_read_u8 (reader_abs r))"
    using read_u8_sim by (simp add: sim_def)
  have "fst (spec_read_u8 s) \<noteq> Panic" for s
    by (auto simp: spec_read_u8_def split: list.split)
  then show "wpM read_u8 (\<lambda>_. reader_inv) (\<lambda>_ _. True) r"
    using rel unfolding wpM_def
    by (cases "read_u8 r"; cases "fst (read_u8 r)") (auto, metis fst_conv)
qed

lemma reader_safe_repeat [rsafe]: "reader_safe f \<Longrightarrow> reader_safe (repeatM n f)"
  by (induction n) (auto intro: rsafe)

lemma reader_safe_alloc_step [rsafe]: "reader_safe (alloc_step n)"
  by (auto simp: reader_safe_def alloc_step_def wpM_def reader_inv_def split: list.split option.split)

lemma reader_safe_skip [rsafe]: "reader_safe (skip n)"
  by (induction n) (auto intro: rsafe)

lemma reader_safe_bytes [rsafe]:
  "reader_safe (expect_u8 e)" "reader_safe (strip_bytes n)" "reader_safe reader_offset"
  "reader_safe bytes_remaining"
  unfolding expect_u8_def strip_bytes_def reader_offset_def bytes_remaining_def by (intro rsafe)+

lemma reader_safe_leb_group [rsafe]:
  "(\<And>a. reader_safe (k a)) \<Longrightarrow> reader_safe (leb_group sh fin acc k)"
  unfolding leb_group_def by (intro rsafe)

lemma reader_safe_ints [rsafe]: "reader_safe read_u32" "reader_safe read_i32" "reader_safe read_i64"
  unfolding read_u32_def read_i32_def read_i64_def leb_signed_last_def by (intro rsafe)+

lemma reader_safe_floats [rsafe]: "reader_safe read_f32_bits" "reader_safe read_f64_bits"
  unfolding read_f32_bits_def read_f64_bits_def by (intro rsafe)+

lemma reader_safe_read_vec [rsafe]: "reader_safe f \<Longrightarrow> reader_safe (read_vec f)"
  unfolding read_vec_def by (intro rsafe)

lemma reader_safe_read_vec_stack [rsafe]: "reader_safe f \<Longrightarrow> reader_safe (read_vec_stack n f)"
  unfolding read_vec_stack_def by (intro rsafe)

lemma converts_no_panic: "val_type_convert v \<noteq> Panic" "page_size_convert p \<noteq> Panic"
  by (simp_all add: val_type_convert_def page_size_convert_def)

lemma reader_safe_types [rsafe]:
  "reader_safe val_type_read" "reader_safe result_type_read" "reader_safe func_type_read"
  "reader_safe limit_read" "reader_safe mem_type_read" "reader_safe elem_type_read"
  "reader_safe table_type_read" "reader_safe global_type_read" "reader_safe name_read"
  unfolding type_reader_defs by (intro rsafe converts_no_panic)+

section \<open>Computations on a reader and a state\<close>

lemma wpM_onReader:
  "wpM (onReader f) Q E (r, x) = wpM f (\<lambda>a r'. Q a (r', x)) (\<lambda>e r'. E e (r', x)) r"
  by (auto simp: wpM_def onReader_def split: prod.split result.split)

lemma wpM_onState:
  "wpM (onState f) Q E (r, x) = wpM f (\<lambda>a x'. Q a (r, x')) (\<lambda>e x'. E e (r, x')) x"
  by (auto simp: wpM_def onState_def split: prod.split result.split)

lemma wpM_reader_safe:
  assumes "reader_safe f" "reader_inv r" "\<And>a r'. reader_inv r' \<Longrightarrow> Q a (r', x)" "\<And>e r'. E e (r', x)"
  shows "wpM (onReader f) Q E (r, x)"
  unfolding wpM_onReader using assms(1,2) unfolding reader_safe_def
  by (auto intro: assms(3,4) elim!: wpM_mono)

lemma reader_inv_limit: "reader_inv (r\<lparr>rd_limit := n\<rparr>) = reader_inv r"
  by (simp add: reader_inv_def)

lemma wpM_with_limit:
  assumes "E (into MalformedSectionSize) (r, x)"
    and "wpM f (\<lambda>a (r', x'). Q a (r'\<lparr>rd_limit := rd_limit r\<rparr>, x'))
      (\<lambda>e (r', x'). E e (r'\<lparr>rd_limit := rd_limit r\<rparr>, x')) (r\<lparr>rd_limit := rd_full_offset r + len\<rparr>, x)"
  shows "wpM (with_limit into len f) Q E (r, x)"
  using assms by (auto simp: with_limit_def wpM_def split: prod.splits result.splits)

end
