(* ===== verification/Read_Ahead.thy ===== *)
theory Read_Ahead
  imports Reader_Safe
begin

text \<open>
  Running the decoders on bytes that are known: \<open>ahead r n bs lim\<close> says that the reader is at offset \<open>n\<close> below
  the limit \<open>lim\<close>, that the bytes \<open>bs\<close> follow and then the end of the stream, and that the allocator grants
  every request. The rules \<open>ahead_run\<close> consume the bytes one by one in a weakest precondition, so that a whole
  module can be decoded in a proof, without evaluating buffer and chunks.
\<close>

section \<open>Reading known bytes\<close>

definition ahead :: "reader \<Rightarrow> nat \<Rightarrow> u8 list \<Rightarrow> nat \<Rightarrow> bool" where
  "ahead r n bs lim \<longleftrightarrow> reader_inv r \<and>
     reader_abs r = \<lparr>bs_bytes = bs, bs_end = Eof, bs_offset = n, bs_limit = lim, bs_alloc = []\<rparr>"

lemma ahead_new: "bs \<noteq> [] \<Longrightarrow> ahead (reader_new [Chunk bs] []) 0 bs USIZE_MAX"
  by (simp add: ahead_def reader_inv_new reader_abs_new)

lemma ahead_fields: "ahead r n bs lim \<Longrightarrow> rd_full_offset r = n \<and> rd_limit r = lim \<and> rd_alloc r = []"
  by (auto simp: ahead_def reader_abs_def)

lemma ahead_limit: "ahead r n bs lim \<Longrightarrow> ahead (r\<lparr>rd_limit := m\<rparr>) n bs m"
  by (simp add: ahead_def reader_inv_limit reader_abs_set_limit)

lemma ahead_u8:
  assumes "ahead r n (b # bs) lim" "n < lim" "\<And>r'. ahead r' (Suc n) bs lim \<Longrightarrow> Q b r'"
  shows "wpM read_u8 Q E r"
proof -
  from assms(1,2) obtain r' where "read_u8 r = (Ok b, r')" "reader_inv r'"
    "reader_abs r' = (reader_abs r)\<lparr>bs_bytes := bs, bs_offset := Suc (rd_full_offset r)\<rparr>"
    using ahead_fields [OF assms(1)] by (auto simp: ahead_def intro: read_u8_Cons [of r b bs])
  moreover from this have "ahead r' (Suc n) bs lim"
    using assms(1) ahead_fields [OF assms(1)] by (simp add: ahead_def)
  ultimately show ?thesis using assms(3) by (simp add: wpM_def)
qed

lemma ahead_u32:
  assumes "ahead r n (b # bs) lim" "n < lim" "b AND CONTINUATION_BIT = 0"
    and "\<And>r'. ahead r' (Suc n) bs lim \<Longrightarrow> Q (ucast (b AND INTEGER_BIT_FLAG)) r'"
  shows "wpM read_u32 Q E r"
  unfolding read_u32_def leb_group_def wp
  by (rule ahead_u8 [OF assms(1,2)]) (simp add: wp assms(3,4))

lemma ahead_eof:
  assumes "ahead r n [] lim" "\<And>r'. rd_full_offset r' = n \<Longrightarrow> E Eof r'"
  shows "wpM read_u8 Q E r"
proof -
  have "spec_read_u8 (reader_abs r) = (Err Eof, reader_abs r)"
    using assms(1) by (simp add: ahead_def spec_read_u8_def)
  then have rel: "outcome_rel (\<lambda>r' s'. reader_inv r' \<and> reader_abs r' = s')
     (\<lambda>r' s'. rd_full_offset r' = bs_offset s') (read_u8 r) (Err Eof, reader_abs r)"
    using read_u8_sim assms(1) unfolding sim_def ahead_def by fastforce
  from outcome_rel_ErrD [OF this] obtain r' where "read_u8 r = (Err Eof, r')" "rd_full_offset r' = bs_offset (reader_abs r)"
    by blast
  then show ?thesis using assms by (simp add: wpM_def ahead_def)
qed

lemma ahead_alloc:
  assumes "ahead r n bs lim" "ahead r n bs lim \<Longrightarrow> Q () r" shows "wpM (alloc_step k) Q E r"
  using assms ahead_fields [OF assms(1)] by (simp add: wpM_def alloc_step_def)

lemma ahead_offset:
  assumes "ahead r n bs lim" "ahead r n bs lim \<Longrightarrow> Q n r" shows "wpM reader_offset Q E r"
  using assms ahead_fields [OF assms(1)] by (simp add: reader_offset_def wp)

lemma ahead_remaining:
  assumes "ahead r n bs lim" "ahead r n bs lim \<Longrightarrow> Q (lim - n) r" shows "wpM bytes_remaining Q E r"
  using assms ahead_fields [OF assms(1)] by (simp add: bytes_remaining_def wp)

lemma ahead_with_limit:
  assumes "ahead r n bs lim" "n + len \<le> lim" "lim \<le> USIZE_MAX"
    and "\<And>r'. ahead r' n bs (n + len) \<Longrightarrow> wpM f (\<lambda>a (r', x'). Q a (r'\<lparr>rd_limit := lim\<rparr>, x'))
      (\<lambda>e (r', x'). E e (r'\<lparr>rd_limit := lim\<rparr>, x')) (r', x)"
  shows "wpM (with_limit into len f) Q E (r, x)"
  using assms(4) [OF ahead_limit [OF assms(1)]] assms(2,3) ahead_fields [OF assms(1)]
  by (auto simp: with_limit_def wpM_def split: prod.splits result.splits)

lemma ahead_i32:
  assumes "ahead r n (b # bs) lim" "n < lim" "b AND CONTINUATION_BIT = 0"
    and "\<And>r'. ahead r' (Suc n) bs lim \<Longrightarrow> Q (sign_extend_from 25 (ucast (b AND INTEGER_BIT_FLAG))) r'"
  shows "wpM read_i32 Q E r"
  unfolding read_i32_def leb_group_def wp
  by (rule ahead_u8 [OF assms(1,2)]) (simp add: wp assms(3,4))

lemmas ahead_run = ahead_u8 ahead_u32 ahead_i32 ahead_alloc ahead_offset ahead_remaining

lemma repeatM_numeral: "repeatM (numeral k) f = bindM f (\<lambda>x. bindM (repeatM (pred_numeral k) f) (\<lambda>xs. retM (x # xs)))"
  by (simp add: numeral_eq_Suc)

end
