(* ===== verification/Decode.thy ===== *)
theory Decode
  imports Builder_Inv Reader_Safe
begin

text \<open>
  The Wasm decoder of src/code.rs: \<open>Reader::read_code\<close> reads opcodes and immediates and calls the
  visitor, until the \<open>end\<close> that closes the expression; \<open>Expr::read\<close> and \<open>Module::read_function_code\<close>
  run it with the compiler. A visitor is a function from \<open>visit\<close> to a computation on its own state;
  the state of the decoder is the pair of the reader and that state. The four groups of match arms
  are four definitions, tried in the order of the source.

  The decoding loop is a partial function, and \<open>read_code\<close> maps "does not return" to \<open>Panic\<close>; it
  is proved to return always, because every round consumes a byte below the reader's limit.
\<close>

type_synonym 's visitor = "visit \<Rightarrow> ('s, unit, validation_error) m"

type_synonym ('s, 'a) dm = "(reader \<times> 's, 'a, validation_error) m"

definition mem_arg_read :: "mem_arg rm" where
  "mem_arg_read = bindM read_u32 (\<lambda>align. bindM read_u32 (\<lambda>offset.
     retM \<lparr>ma_align = align, ma_offset = offset\<rparr>))"

fun timesM :: "nat \<Rightarrow> ('s, unit, 'e) m \<Rightarrow> ('s, unit, 'e) m" where
  "timesM 0 f = retM ()"
| "timesM (Suc n) f = thenM f (timesM n f)"

section \<open>One instruction\<close>

text \<open>\<open>instruction!\<close> without and with an immediate; the depth of open blocks is unchanged.\<close>

definition visit_op :: "'s visitor \<Rightarrow> nat \<Rightarrow> visit \<Rightarrow> ('s, nat option) dm" where
  "visit_op v depth x = thenM (onState (v x)) (retM (Some depth))"

definition visit_imm :: "'s visitor \<Rightarrow> nat \<Rightarrow> 'i rm \<Rightarrow> ('i \<Rightarrow> visit) \<Rightarrow> ('s, nat option) dm" where
  "visit_imm v depth rd x = bindM (onReader rd) (\<lambda>i. visit_op v depth (x i))"

definition decode_control :: "'s visitor \<Rightarrow> nat \<Rightarrow> u8 \<Rightarrow> ('s, nat option) dm option" where
  "decode_control v depth b =
     (if b = UNREACHABLE then Some (visit_op v depth Vs_unreachable)
      else if b = NOP then Some (visit_op v depth Vs_nop)
      else if b = BLOCK then Some (visit_imm v (depth + 1) result_type_read Vs_enter_block)
      else if b = LOOP then Some (visit_imm v (depth + 1) result_type_read Vs_loop)
      else if b = IF then Some (visit_imm v (depth + 1) result_type_read Vs_if)
      else if b = ELSE then Some (visit_op v depth Vs_else)
      else if b = END then
        Some (if 0 < depth then visit_op v (depth - 1) Vs_exit_block
              else thenM (onState (v Vs_finish)) (retM None))
      else if b = BR then Some (visit_imm v depth read_u32 Vs_br)
      else if b = BR_IF then Some (visit_imm v depth read_u32 Vs_br_if)
      else if b = BR_TABLE then
        Some (bindM (onReader read_u32) (\<lambda>len.
          thenM (onState (v (Vs_br_table_start len)))
          (thenM (timesM (unat len)
            (bindM (onReader read_u32) (\<lambda>br. onState (v (Vs_br_table_branch br)))))
          (visit_imm v depth read_u32 Vs_br_table_finish))))
      else if b = RETURN then Some (visit_op v depth Vs_return)
      else if b = CALL then Some (visit_imm v depth read_u32 Vs_call)
      else if b = CALL_INDIRECT then
        Some (bindM (onReader read_u32) (\<lambda>x.
          thenM (onReader (expect_u8 0)) (visit_op v depth (Vs_call_indirect x))))
      else None)"

definition decode_variable :: "'s visitor \<Rightarrow> nat \<Rightarrow> u8 \<Rightarrow> ('s, nat option) dm option" where
  "decode_variable v depth b =
     (if b = DROP then Some (visit_op v depth Vs_drop)
      else if b = SELECT then Some (visit_op v depth Vs_select)
      else if b = LOCAL_GET then Some (visit_imm v depth read_u32 Vs_local_get)
      else if b = LOCAL_SET then Some (visit_imm v depth read_u32 Vs_local_set)
      else if b = LOCAL_TEE then Some (visit_imm v depth read_u32 Vs_local_tee)
      else if b = GLOBAL_GET then Some (visit_imm v depth read_u32 Vs_global_get)
      else if b = GLOBAL_SET then Some (visit_imm v depth read_u32 Vs_global_set)
      else None)"

definition decode_memory :: "'s visitor \<Rightarrow> nat \<Rightarrow> u8 \<Rightarrow> ('s, nat option) dm option" where
  "decode_memory v depth b = (case mem_op_of b of
     Some p \<Rightarrow> Some (visit_imm v depth mem_arg_read (Vs_mem p))
   | None \<Rightarrow>
      if b = MEMORY_SIZE then Some (thenM (onReader (expect_u8 0)) (visit_op v depth Vs_memory_size))
      else if b = MEMORY_GROW then Some (thenM (onReader (expect_u8 0)) (visit_op v depth Vs_memory_grow))
      else if b = I32_CONST then Some (visit_imm v depth read_i32 Vs_i32_const)
      else if b = I64_CONST then Some (visit_imm v depth read_i64 Vs_i64_const)
      else if b = F32_CONST then Some (visit_imm v depth read_f32_bits Vs_f32_const)
      else if b = F64_CONST then Some (visit_imm v depth read_f64_bits Vs_f64_const)
      else None)"

definition decode_numeric :: "'s visitor \<Rightarrow> nat \<Rightarrow> u8 \<Rightarrow> ('s, nat option) dm" where
  "decode_numeric v depth b = (case plain_op_of b of
     Some p \<Rightarrow> visit_op v depth (Vs_base p)
   | None \<Rightarrow>
      if b = I32_REINTERPRET_F32 then visit_op v depth Vs_i32_reinterpret_f32
      else if b = I64_REINTERPRET_F64 then visit_op v depth Vs_i64_reinterpret_f64
      else if b = F32_REINTERPRET_I32 then visit_op v depth Vs_f32_reinterpret_i32
      else if b = F64_REINTERPRET_I64 then visit_op v depth Vs_f64_reinterpret_i64
      else if b = EXTENDED_FC then
        bindM (onReader read_u32) (\<lambda>ext. case sat_op_of ext of
          Some s \<Rightarrow> visit_op v depth (Vs_base (TruncSat s))
        | None \<Rightarrow> errM (InvalidFcOpcode (ucast ext)))
      else errM (InvalidOpcode b))"

definition decode_op :: "'s visitor \<Rightarrow> nat \<Rightarrow> u8 \<Rightarrow> ('s, nat option) dm" where
  "decode_op v depth b = (case decode_control v depth b of
     Some f \<Rightarrow> f
   | None \<Rightarrow> (case decode_variable v depth b of
       Some f \<Rightarrow> f
     | None \<Rightarrow> (case decode_memory v depth b of
         Some f \<Rightarrow> f
       | None \<Rightarrow> decode_numeric v depth b)))"

text \<open>One round of the loop: the new block depth, or \<open>None\<close> after the final \<open>end\<close>.\<close>

definition decode_step :: "'s visitor \<Rightarrow> nat \<Rightarrow> ('s, nat option) dm" where
  "decode_step v depth = bindM (onReader read_u8) (decode_op v depth)"

section \<open>The loop\<close>

partial_function (option) read_code_loop ::
  "'s visitor \<Rightarrow> nat \<Rightarrow> reader \<times> 's \<Rightarrow> ((unit, validation_error) result \<times> reader \<times> 's) option"
where
  "read_code_loop v depth s = (case decode_step v depth s of
     (Ok None, t) \<Rightarrow> Some (Ok (), t)
   | (Ok (Some d), t) \<Rightarrow> read_code_loop v d t
   | (Err e, t) \<Rightarrow> Some (Err e, t)
   | (Panic, t) \<Rightarrow> Some (Panic, t))"

definition read_code :: "'s visitor \<Rightarrow> ('s, unit) dm" where
  "read_code v = (\<lambda>s. case read_code_loop v 0 s of Some r \<Rightarrow> r | None \<Rightarrow> (Panic, s))"

section \<open>Function bodies\<close>

text \<open>Run a computation on a part of the state: \<open>get\<close> extracts the part, \<open>put\<close> stores it back.\<close>

definition focus ::
  "('c \<Rightarrow> 'b) \<Rightarrow> ('b \<Rightarrow> 'c \<Rightarrow> 'c) \<Rightarrow> (reader \<times> 'b, 'a, 'e) m \<Rightarrow> (reader \<times> 'c, 'a, 'e) m" where
  "focus get put f = (\<lambda>(r, c). case f (r, get c) of (x, (r', b)) \<Rightarrow> (x, (r', put b c)))"

text \<open>
  \<open>Expr::read\<close>: compile one expression into the code buffer; the entry point and the stack words it
  needs.
\<close>

definition expr_read :: "build_env \<Rightarrow> (code_builder, jump_target \<times> u16) dm" where
  "expr_read env =
     bindM (onState code_pc) (\<lambda>e.
     bindM (focus (builder_new env) (\<lambda>tb _. tb_code tb)
       (thenM (read_code (compile_visit env)) (onState (getM tb_highwater)))) (\<lambda>usage.
     if 0xFFFF < usage then errM StackTooLarge
     else retM (e, word_of_nat usage)))"

definition local_decl_read :: "(u16 \<times> val_type) rm" where
  "local_decl_read = bindM read_u32 (\<lambda>n. bindM val_type_read (\<lambda>t.
     if 0xFFFF < n then errM TooManyLocals else retM (ucast n, t)))"

text \<open>The checked sum of the local sizes in bytes.\<close>

fun locals_size :: "(u16 \<times> val_type) list \<Rightarrow> nat \<Rightarrow> nat option" where
  "locals_size [] acc = Some acc"
| "locals_size ((n, ty) # ls) acc =
     (if USIZE_MAX < unat n * val_type_size ty then None
      else if USIZE_MAX < acc + unat n * val_type_size ty then None
      else locals_size ls (acc + unat n * val_type_size ty))"

definition placeholder :: "func \<Rightarrow> func" where
  "placeholder f = f\<lparr>fn_locals := [], fn_expr := JumpTarget 0\<rparr>"

text \<open>The closure run within the limit of the body's declared size.\<close>

definition read_body ::
  "nat \<Rightarrow> nat \<Rightarrow> store \<Rightarrow> func \<Rightarrow> (wmodule \<times> code_builder, func) dm" where
  "read_body max_frames max_stack st f0 =
     bindM (onReader (read_vec local_decl_read)) (\<lambda>ls.
     bindM (ok_or (locals_size ls 0) TooManyLocals) (\<lambda>bytes.
     if 0xFFFF < bytes div 4 then errM TooManyLocals
     else let f1 = f0\<lparr>fn_locals := ls, fn_local_size := word_of_nat (bytes div 4)\<rparr> in
       bindM (onState (getM fst)) (\<lambda>md.
       bindM (focus snd (\<lambda>cd (md, _). (md, cd)) (expr_read \<lparr>be_store = st, be_module = md, be_func = f1,
         be_max_frames = max_frames, be_max_stack = max_stack\<rparr>)) (\<lambda>(e, usage).
       retM (f1\<lparr>fn_expr := e, fn_stack_usage := usage\<rparr>)))))"

definition read_function_code ::
  "nat \<Rightarrow> nat \<Rightarrow> store \<Rightarrow> nat \<Rightarrow> (wmodule \<times> code_builder, unit) dm" where
  "read_function_code max_frames max_stack st i =
     bindM (onReader read_u32) (\<lambda>sz.
     bindM (onReader reader_offset) (\<lambda>start.
     bindM (onState (bindM (getM (\<lambda>(md, cd). md_functions md)) (\<lambda>fs. indexM fs i))) (\<lambda>f0.
     thenM (onState (modifyM (\<lambda>(md, cd). (md\<lparr>md_functions := (md_functions md)[i := placeholder f0]\<rparr>, cd))))
     (bindM (with_limit (\<lambda>e. e) (unat sz) (read_body max_frames max_stack st f0)) (\<lambda>f.
      if 0xFFFF < 2 + unat (fn_local_size f) + unat (fn_stack_usage f) then errM StackTooLarge
      else thenM (onState (modifyM (\<lambda>(md, cd). (md\<lparr>md_functions := (md_functions md)[i := f]\<rparr>, cd))))
        (bindM (onReader reader_offset) (\<lambda>fin.
         thenM (assertM (start \<le> fin))
         (if (word_of_nat (fin - start) :: u32) \<noteq> sz then errM MalformedCodeSize else retM ()))))))))"

section \<open>The loop returns\<close>

lemma bounded_times [bnd]: "bounded f \<Longrightarrow> bounded (timesM n f)"
  by (induction n) (auto intro: bnd)

lemma reader_bounded_mem_arg [bnd]: "reader_bounded mem_arg_read"
  unfolding mem_arg_read_def by (intro bnd)

lemma reader_bounded_expect [bnd]: "reader_bounded (expect_u8 e)"
  unfolding expect_u8_def by (intro bnd)

lemma bounded_visit [bnd]: "bounded (visit_op v d x)" "reader_bounded rd \<Longrightarrow> bounded (visit_imm v d rd y)"
  unfolding visit_imm_def visit_op_def by (intro bnd | assumption)+

lemma bounded_option [bnd]:
  "(x = None \<Longrightarrow> bounded f) \<Longrightarrow> (\<And>a. x = Some a \<Longrightarrow> bounded (g a)) \<Longrightarrow>
    bounded (case x of None \<Rightarrow> f | Some a \<Rightarrow> g a)"
  by (cases x) auto

lemma decode_groups_bounded:
  "decode_control v depth b = Some f \<Longrightarrow> bounded f"
  "decode_variable v depth b = Some f \<Longrightarrow> bounded f"
  "decode_memory v depth b = Some f \<Longrightarrow> bounded f"
  "bounded (decode_numeric v depth b)"
  unfolding decode_control_def decode_variable_def decode_memory_def decode_numeric_def
  by (auto split: if_split_asm option.split_asm intro!: bnd)

lemma decode_op_bounded [bnd]: "bounded (decode_op v depth b)"
  unfolding decode_op_def by (intro bnd) (auto intro: decode_groups_bounded)

text \<open>A round that does not fail consumed a byte, and stayed below the reader's limit.\<close>

lemma read_u8_moves:
  "read_u8 r = (Ok b, r') \<Longrightarrow> rd_full_offset r < rd_full_offset r' \<and> rd_limit r' = rd_limit r \<and>
    rd_full_offset r' \<le> rd_limit r"
  using peek_u8_keeps [of r]
  by (cases "peek_u8 r"; cases "fst (peek_u8 r)") (auto simp: read_u8_def run_defs split: if_splits)

lemma decode_step_moves:
  assumes "decode_step v depth (r, x) = (Ok d, (r', x'))"
  shows "rd_full_offset r < rd_full_offset r' \<and> rd_limit r' = rd_limit r \<and> rd_full_offset r' \<le> rd_limit r"
proof -
  obtain b p where p: "onReader read_u8 (r, x) = (Ok b, p)" "decode_op v depth b p = (Ok d, (r', x'))"
    using assms unfolding decode_step_def by (rule bindM_OkE)
  then obtain r1 where r1: "read_u8 r = (Ok b, r1)" "p = (r1, x)"
    by (auto simp: onReader_def split: prod.splits)
  have "within_limit r1 r'"
    using decode_op_bounded [of v depth b] p(2) r1(2) unfolding bounded_def by (metis fst_conv snd_conv)
  with read_u8_moves [OF r1(1)] show ?thesis by (auto simp: within_limit_def)
qed

lemma read_code_loop_total:
  "\<exists>y. read_code_loop v depth (r, x) = Some y"
proof (induction "rd_limit r - rd_full_offset r" arbitrary: depth r x rule: less_induct)
  case less
  show ?case
  proof -
    obtain res t where Pair: "decode_step v depth (r, x) = (res, t)" by (metis surj_pair)
    show ?thesis
    proof (cases "\<exists>d. res = Ok (Some d)")
      case False
      with Pair show ?thesis
        by (subst read_code_loop.simps) (auto split: result.split option.split)
    next
      case True
      then obtain d where d: "res = Ok (Some d)" ..
      obtain r' x' where t: "t = (r', x')" by (cases t)
      have "rd_limit r' - rd_full_offset r' < rd_limit r - rd_full_offset r"
        using decode_step_moves Pair d t by fastforce
      from less [OF this, of d x'] show ?thesis
        using Pair d t by (subst read_code_loop.simps) simp
    qed
  qed
qed

text \<open>
  Claim C14. The decoder returns on every input: whatever the bytes, the limit and the visitor, the
  loop of \<open>read_code\<close> ends (with the final \<open>end\<close>, an error, or a panic of the visitor), since each
  round consumes a byte below the limit of the reader.
\<close>

theorem read_code_returns:
  "read_code_loop v 0 (r, x) = Some (read_code v (r, x))"
  using read_code_loop_total [of v 0 r x] by (auto simp: read_code_def)

section \<open>Decoding does not depend on the chunking\<close>

lemma chunk_indep_times [indep]: "chunk_indep f \<Longrightarrow> chunk_indep (timesM n f)"
  by (induction n) (auto intro: indep)

lemma reader_indep_mem_arg [indep]: "reader_indep mem_arg_read"
  unfolding mem_arg_read_def by (intro indep)

lemma chunk_indep_visit [indep]:
  "chunk_indep (visit_op v d x)" "reader_indep rd \<Longrightarrow> chunk_indep (visit_imm v d rd y)"
  unfolding visit_imm_def visit_op_def by (intro indep | assumption)+

lemma decode_groups_indep:
  "decode_control v depth b = Some f \<Longrightarrow> chunk_indep f"
  "decode_variable v depth b = Some f \<Longrightarrow> chunk_indep f"
  "decode_memory v depth b = Some f \<Longrightarrow> chunk_indep f"
  "chunk_indep (decode_numeric v depth b)"
  unfolding decode_control_def decode_variable_def decode_memory_def decode_numeric_def
  by (auto split: if_split_asm option.split_asm intro!: indep)

lemma chunk_indep_cases:
  "(x = None \<Longrightarrow> chunk_indep f) \<Longrightarrow> (\<And>a. x = Some a \<Longrightarrow> chunk_indep (g a)) \<Longrightarrow>
    chunk_indep (case x of None \<Rightarrow> f | Some a \<Rightarrow> g a)"
  by (cases x) auto

lemma chunk_indep_decode_op [indep]: "chunk_indep (decode_op v depth b)"
  unfolding decode_op_def by (intro chunk_indep_cases decode_groups_indep(4)) (auto intro: decode_groups_indep)

lemma chunk_indep_decode_step: "chunk_indep (decode_step v depth)"
  unfolding decode_step_def by (intro indep)

text \<open>One unfolding of the loop, for \<open>read_code\<close> started at any depth.\<close>

definition read_code_from :: "'s visitor \<Rightarrow> nat \<Rightarrow> ('s, unit) dm" where
  "read_code_from v depth = (\<lambda>s. the (read_code_loop v depth s))"

lemma read_code_from_0: "read_code v = read_code_from v 0"
proof
  fix s :: "reader \<times> 'a"
  obtain y where "read_code_loop v 0 s = Some y" using read_code_loop_total [of v 0] by (cases s) blast
  then show "read_code v s = read_code_from v 0 s" by (simp add: read_code_from_def read_code_def)
qed

lemma read_code_from_unfold:
  "read_code_from v depth = bindM (decode_step v depth)
     (\<lambda>d. case d of None \<Rightarrow> retM () | Some d' \<Rightarrow> read_code_from v d')"
  unfolding read_code_from_def bindM_def retM_def fun_eq_iff
  by (subst read_code_loop.simps) (auto split: prod.split result.split option.split)

text \<open>Induction over the rounds of the loop.\<close>

lemma read_code_induct:
  assumes "\<And>depth r x. (\<And>d r' x'. decode_step v depth (r, x) = (Ok (Some d), (r', x')) \<Longrightarrow> P d r' x') \<Longrightarrow> P depth r x"
  shows "P depth r x"
proof (induction "rd_limit r - rd_full_offset r" arbitrary: depth r x rule: less_induct)
  case less
  show ?case
  proof (rule assms)
    fix d r' x' assume "decode_step v depth (r, x) = (Ok (Some d), (r', x'))"
    then have "rd_limit r' - rd_full_offset r' < rd_limit r - rd_full_offset r"
      using decode_step_moves by fastforce
    then show "P d r' x'" by (rule less)
  qed
qed

lemma read_code_from_indep:
  assumes "in_step r1 r2"
  shows "outcome_rel (\<lambda>p q. in_step (fst p) (fst q) \<and> snd p = snd q)
     (\<lambda>p q. same_offset (fst p) (fst q) \<and> snd p = snd q) (read_code_from v depth (r1, x)) (read_code_from v depth (r2, x))"
  using assms
proof (induction depth r1 x arbitrary: r2 rule: read_code_induct [of v])
  case (1 depth r1 x)
  have step: "outcome_rel (\<lambda>p q. in_step (fst p) (fst q) \<and> snd p = snd q)
     (\<lambda>p q. same_offset (fst p) (fst q) \<and> snd p = snd q) (decode_step v depth (r1, x)) (decode_step v depth (r2, x))"
    using chunk_indep_decode_step [of v depth] 1(2) unfolding chunk_indep_def by blast
  obtain res r' x' where run: "decode_step v depth (r1, x) = (res, (r', x'))" by (metis prod_cases3)
  show ?case
  proof (cases res)
    case (Ok d)
    then obtain r2' where r2': "decode_step v depth (r2, x) = (Ok d, (r2', x'))" "in_step r' r2'"
      using step run by auto
    show ?thesis
    proof (cases d)
      case None
      then show ?thesis unfolding read_code_from_unfold [of v depth]
        using run r2' Ok by (simp add: bindM_def retM_def)
    next
      case (Some d')
      have "outcome_rel (\<lambda>p q. in_step (fst p) (fst q) \<and> snd p = snd q)
        (\<lambda>p q. same_offset (fst p) (fst q) \<and> snd p = snd q) (read_code_from v d' (r', x')) (read_code_from v d' (r2', x'))"
        using run Ok Some r2'(2) by (intro 1(1)) auto
      then show ?thesis unfolding read_code_from_unfold [of v depth]
        using run r2' Ok Some by (simp add: bindM_def)
    qed
  qed (use step run in \<open>auto simp: read_code_from_unfold [of v depth] bindM_def\<close>)
qed

lemma chunk_indep_read_code [indep]: "chunk_indep (read_code v)"
  unfolding chunk_indep_def read_code_from_0 by (blast intro: read_code_from_indep)

section \<open>Panic freedom\<close>

text \<open>
  The contract between the decoder and its visitor: an invariant of the visitor's state at each block
  depth that no visit breaks, \<open>exit_block\<close> being called only inside a block and \<open>finish\<close> only
  outside all of them.
\<close>

locale visitor_contract =
  fixes v :: "'s visitor" and I :: "nat \<Rightarrow> 's \<Rightarrow> bool" and F E :: "'s \<Rightarrow> bool"
  assumes visit_keeps: "I d x \<Longrightarrow> i \<noteq> Vs_finish \<Longrightarrow> (i = Vs_exit_block \<Longrightarrow> 0 < d) \<Longrightarrow>
      wpM (v i) (\<lambda>_. I (nat (int d + depth_change i))) (\<lambda>_. E) x"
    and finish_keeps: "I 0 x \<Longrightarrow> wpM (v Vs_finish) (\<lambda>_. F) (\<lambda>_. E) x"
    and inv_err: "I d x \<Longrightarrow> E x"
begin

definition round_ok :: "nat option \<Rightarrow> reader \<times> 's \<Rightarrow> bool" where
  "round_ok d p \<longleftrightarrow> reader_inv (fst p) \<and> (case d of None \<Rightarrow> F (snd p) | Some d' \<Rightarrow> I d' (snd p))"

abbreviation err_ok :: "'e \<Rightarrow> reader \<times> 's \<Rightarrow> bool" where
  "err_ok e p \<equiv> E (snd p)"

lemma visit_op_ok:
  assumes "I d x" "i \<noteq> Vs_finish" "i = Vs_exit_block \<Longrightarrow> 0 < d" "int d' = int d + depth_change i" "reader_inv r"
  shows "wpM (visit_op v d' i) round_ok err_ok (r, x)"
  unfolding visit_op_def wpM_then wpM_onState wpM_ret
proof (rule wpM_mono)
  have "nat (int d + depth_change i) = d'" using assms(4) by linarith
  then show "wpM (v i) (\<lambda>_. I d') (\<lambda>_. E) x"
    using visit_keeps [OF assms(1-3)] by simp
qed (use assms(5) in \<open>auto simp: round_ok_def\<close>)

lemma visit_imm_ok:
  assumes "I d x" "\<And>a. y a \<noteq> Vs_finish \<and> y a \<noteq> Vs_exit_block \<and> int d' = int d + depth_change (y a)" "reader_inv r"
    and "reader_safe rd"
  shows "wpM (visit_imm v d' rd y) round_ok err_ok (r, x)"
  unfolding visit_imm_def wpM_bind
proof (rule wpM_reader_safe [OF assms(4,3)])
  fix a r' assume "reader_inv r'"
  with assms(2) [of a] show "wpM (visit_op v d' (y a)) round_ok err_ok (r', x)"
    by (elim conjE) (rule visit_op_ok [OF assms(1)], simp_all)
qed (simp add: inv_err [OF assms(1)])

lemma finish_ok:
  assumes "I 0 x" "reader_inv r"
  shows "wpM (thenM (onState (v Vs_finish)) (retM None)) round_ok err_ok (r, x)"
  unfolding wpM_then wpM_onState wpM_ret
  by (rule wpM_mono [OF finish_keeps [OF assms(1)]]) (simp_all add: round_ok_def assms(2))

lemma read_then_ok:
  assumes "reader_safe rd" "reader_inv r" "I d x" "\<And>a r'. reader_inv r' \<Longrightarrow> wpM (g a) Q err_ok (r', x)"
  shows "wpM (bindM (onReader rd) g) Q err_ok (r, x)"
  unfolding wpM_bind
  by (rule wpM_reader_safe [OF assms(1,2)]) (simp_all add: assms(4) inv_err [OF assms(3)])

lemma visit_then_ok:
  assumes "I d x" "i \<noteq> Vs_finish" "i \<noteq> Vs_exit_block" "depth_change i = 0"
    "\<And>x'. I d x' \<Longrightarrow> wpM g Q err_ok (r, x')"
  shows "wpM (thenM (onState (v i)) g) Q err_ok (r, x)"
  unfolding wpM_then wpM_onState
proof (rule wpM_mono)
  show "wpM (v i) (\<lambda>_. I d) (\<lambda>_. E) x"
    using visit_keeps [of d x i] assms(1-4) by simp
qed (simp_all add: assms(5))

lemma branches_ok:
  assumes "I d x" "reader_inv r"
    and "\<And>r x. I d x \<Longrightarrow> reader_inv r \<Longrightarrow> wpM g Q err_ok (r, x)"
  shows "wpM (thenM (timesM n (bindM (onReader read_u32) (\<lambda>br. onState (v (Vs_br_table_branch br))))) g) Q err_ok (r, x)"
  using assms(1,2)
proof (induction n arbitrary: r x)
  case 0
  then show ?case using assms(3) by (simp add: wp)
next
  case (Suc n)
  let ?f = "\<lambda>br. onState (v (Vs_br_table_branch br))"
  have split: "thenM (timesM (Suc n) (bindM (onReader read_u32) ?f)) g =
      bindM (onReader read_u32) (\<lambda>br. thenM (?f br) (thenM (timesM n (bindM (onReader read_u32) ?f)) g))"
    by (simp add: thenM_def bindM_assoc)
  show ?case unfolding split
    by (rule read_then_ok [OF _ Suc.prems(2,1)], rule rsafe, rule visit_then_ok [OF Suc.prems(1)])
      (auto intro: Suc.IH)
qed

lemma decode_groups_ok:
  assumes "I d x" "reader_inv r"
  shows "decode_control v d b = Some f \<Longrightarrow> wpM f round_ok err_ok (r, x)"
    and "decode_variable v d b = Some f \<Longrightarrow> wpM f round_ok err_ok (r, x)"
    and "decode_memory v d b = Some f \<Longrightarrow> wpM f round_ok err_ok (r, x)"
    and "wpM (decode_numeric v d b) round_ok err_ok (r, x)"
proof -
  note ops = visit_op_ok [OF assms(1) _ _ _ assms(2)] visit_imm_ok [OF assms(1) _ assms(2)]
  note rd = read_then_ok [OF _ assms(2,1)]
  have mem: "reader_safe mem_arg_read" unfolding mem_arg_read_def by (intro rsafe)
  show "decode_variable v d b = Some f \<Longrightarrow> wpM f round_ok err_ok (r, x)"
    unfolding decode_variable_def by (auto split: if_split_asm intro!: ops rsafe)
  show "decode_memory v d b = Some f \<Longrightarrow> wpM f round_ok err_ok (r, x)"
    unfolding decode_memory_def thenM_def
    by (auto split: if_split_asm option.split_asm intro!: ops rd rsafe mem visit_op_ok [OF assms(1)])
  show "wpM (decode_numeric v d b) round_ok err_ok (r, x)"
  proof -
    have sat: "wpM (bindM (onReader read_u32) (\<lambda>ext. case sat_op_of ext of
        Some s \<Rightarrow> visit_op v d (Vs_base (TruncSat s)) | None \<Rightarrow> errM (InvalidFcOpcode (ucast ext)))) round_ok err_ok (r, x)"
      by (rule rd, rule rsafe)
        (auto simp: wpM_err inv_err [OF assms(1)] split: option.split intro!: visit_op_ok [OF assms(1)])
    have plain: "wpM (visit_op v d i) round_ok err_ok (r, x)" if "depth_change i = 0" for i
      using that by (intro visit_op_ok [OF assms(1)] assms) auto
    show ?thesis
      unfolding decode_numeric_def
      by (simp only: sat plain depth_change.simps wpM_if wpM_err inv_err [OF assms(1)] snd_conv if_cancel simp_thms
          split: option.split)
  qed
  have table: "wpM (bindM (onReader read_u32) (\<lambda>len. thenM (onState (v (Vs_br_table_start len)))
      (thenM (timesM (unat len) (bindM (onReader read_u32) (\<lambda>br. onState (v (Vs_br_table_branch br)))))
      (visit_imm v d read_u32 Vs_br_table_finish)))) round_ok err_ok (r, x)"
  proof (rule rd)
    fix len r' assume r': "reader_inv r'"
    show "wpM (thenM (onState (v (Vs_br_table_start len)))
      (thenM (timesM (unat len) (bindM (onReader read_u32) (\<lambda>br. onState (v (Vs_br_table_branch br)))))
      (visit_imm v d read_u32 Vs_br_table_finish))) round_ok err_ok (r', x)"
      by (rule visit_then_ok [OF assms(1)]) (auto intro!: branches_ok [OF _ r'] visit_imm_ok rsafe)
  qed (rule rsafe)
  have indirect: "wpM (bindM (onReader read_u32) (\<lambda>t. thenM (onReader (expect_u8 0)) (visit_op v d (Vs_call_indirect t))))
      round_ok err_ok (r, x)"
  proof (rule rd)
    fix t r' assume r': "reader_inv r'"
    show "wpM (thenM (onReader (expect_u8 0)) (visit_op v d (Vs_call_indirect t))) round_ok err_ok (r', x)"
      unfolding thenM_def by (rule read_then_ok [OF _ r' assms(1)]) (auto intro!: rsafe visit_op_ok [OF assms(1)])
  qed (rule rsafe)
  show "decode_control v d b = Some f \<Longrightarrow> wpM f round_ok err_ok (r, x)"
    unfolding decode_control_def using assms
    by (auto split: if_split_asm intro!: ops rsafe finish_ok table indirect)
qed

lemma decode_step_ok:
  assumes "I d x" "reader_inv r"
  shows "wpM (decode_step v d) round_ok err_ok (r, x)"
  unfolding decode_step_def
proof (rule read_then_ok [OF _ assms(2,1)])
  fix b r' assume r': "reader_inv r'"
  show "wpM (decode_op v d b) round_ok err_ok (r', x)"
    unfolding decode_op_def using decode_groups_ok [OF assms(1) r', of b]
    by (auto split: option.split)
qed (rule rsafe)

lemma read_code_from_ok:
  "I d x \<Longrightarrow> reader_inv r \<Longrightarrow> wpM (read_code_from v d) (\<lambda>_ p. reader_inv (fst p) \<and> F (snd p)) err_ok (r, x)"
proof (induction d r x rule: read_code_induct [of v])
  case (1 depth r x)
  obtain res r' x' where run: "decode_step v depth (r, x) = (res, (r', x'))" by (metis prod_cases3)
  then have ok: "wpM (decode_step v depth) round_ok err_ok (r, x)" using 1 by (intro decode_step_ok)
  show ?case
  proof (cases res)
    case (Ok d)
    then have "round_ok d (r', x')" using ok run by (auto simp: wpM_def)
    then show ?thesis
      using run Ok 1(1) unfolding read_code_from_unfold [of v depth]
      by (cases d) (auto simp: round_ok_def wpM_def bindM_def retM_def)
  qed (use ok run in \<open>auto simp: wpM_def bindM_def read_code_from_unfold [of v depth]\<close>)
qed

lemma read_code_ok:
  "I 0 x \<Longrightarrow> reader_inv r \<Longrightarrow> wpM (read_code v) (\<lambda>_ p. reader_inv (fst p) \<and> F (snd p)) err_ok (r, x)"
  unfolding read_code_from_0 by (rule read_code_from_ok)

end

text \<open>The compiler fulfils the contract: as many frames are open as blocks, plus the function's own.\<close>

interpretation compiling: visitor_contract "compile_visit env"
  "\<lambda>d b. env_ok env \<and> tb_ok env b \<and> length (tb_frames b) = Suc d"
  "\<lambda>b. tb_ok env b \<and> tb_frames b = []" "\<lambda>b. code_inv (tb_code b)"
  for env
proof
  fix d x i
  assume I: "env_ok env \<and> tb_ok env x \<and> length (tb_frames x) = Suc d" and i: "i \<noteq> Vs_finish" "i = Vs_exit_block \<Longrightarrow> 0 < d"
  show "wpM (compile_visit env i) (\<lambda>_ b. env_ok env \<and> tb_ok env b \<and> length (tb_frames b) = Suc (nat (int d + depth_change i)))
    (\<lambda>_ b. code_inv (tb_code b)) x"
  proof (cases "i = Vs_exit_block")
    case True
    then have "2 \<le> length (tb_frames x)" using I i(2) by auto
    with exit_block_wp [of env x] I True show ?thesis by (auto elim!: wpM_mono)
  next
    case False
    then have "safe env (depth_change i) (compile_visit env i)" using safe_visit I i(1) by blast
    moreover have "0 \<le> depth_change i" using False i(1) by (cases i) auto
    ultimately show ?thesis using I by (auto simp: safe_def elim!: wpM_mono)
  qed
next
  fix x assume x: "env_ok env \<and> tb_ok env x \<and> length (tb_frames x) = Suc 0"
  then have "tb_frames x \<noteq> []" by auto
  with x show "wpM (compile_visit env Vs_finish) (\<lambda>_ b. tb_ok env b \<and> tb_frames b = []) (\<lambda>_ b. code_inv (tb_code b)) x"
    using finish_wp [of env x] by (auto elim!: wpM_mono)
qed (auto simp: tb_ok_def)

text \<open>A fresh builder has one frame, that of the function.\<close>

lemma builder_new_ok:
  assumes "code_inv cd" "0 < be_max_frames env" "be_max_stack env < 2 ^ 16"
  shows "tb_ok env (builder_new env cd)" "length (tb_frames (builder_new env cd)) = 1"
    "tb_code (builder_new env cd) = cd"
proof -
  have new: "builder_new env cd = \<lparr>tb_code = cd, tb_frames = [\<lparr>cf_kind = BK_Block, cf_label = fn_return (be_func env),
      cf_out = fn_return (be_func env), cf_height = 0, cf_target = SENTINEL, cf_unreachable = False\<rparr>],
      tb_stack = [], tb_highwater = 0, tb_table_result = None\<rparr>"
    using assms(2) by (simp add: builder_new_def push_control_def run_defs sv_push_def map_err_def Let_def)
  show "length (tb_frames (builder_new env cd)) = 1" "tb_code (builder_new env cd) = cd" by (simp_all add: new)
  have "frames_ok (code_words cd) (tb_frames (builder_new env cd))"
    unfolding frames_ok_def by (rule exI [of _ "[[]]"]) (simp add: new frame_ok_def)
  then show "tb_ok env (builder_new env cd)"
    using assms by (simp add: tb_ok_def new stack_ok_def heights_def)
qed

lemma wpM_focus:
  "wpM (focus get put f) Q E (r, c) =
    wpM f (\<lambda>a (r', b). Q a (r', put b c)) (\<lambda>e (r', b). E e (r', put b c)) (r, get c)"
  by (auto simp: focus_def wpM_def split: prod.splits result.splits)

lemma bounded_focus [bnd]: "bounded f \<Longrightarrow> bounded (focus get put f)"
  unfolding bounded_def focus_def by (auto split: prod.split) (metis fst_conv snd_conv)

lemma chunk_indep_focus [indep]:
  assumes "chunk_indep f" shows "chunk_indep (focus get put f)"
  unfolding chunk_indep_def
proof (intro allI impI)
  fix r1 r2 c assume "in_step r1 r2"
  then have "outcome_rel (\<lambda>p q. in_step (fst p) (fst q) \<and> snd p = snd q)
     (\<lambda>p q. same_offset (fst p) (fst q) \<and> snd p = snd q) (f (r1, get c)) (f (r2, get c))"
    using assms by (simp add: chunk_indep_def)
  then show "outcome_rel (\<lambda>p q. in_step (fst p) (fst q) \<and> snd p = snd q)
     (\<lambda>p q. same_offset (fst p) (fst q) \<and> snd p = snd q) (focus get put f (r1, c)) (focus get put f (r2, c))"
    by (cases "f (r1, get c)"; cases "fst (f (r1, get c))") (auto simp: focus_def)
qed

lemma read_code_from_bounded: "within_limit r (fst (snd (read_code_from v d (r, x))))"
proof (induction d r x rule: read_code_induct [of v])
  case (1 depth r x)
  obtain res r' x' where run: "decode_step v depth (r, x) = (res, (r', x'))" by (metis prod_cases3)
  have "bounded (decode_step v depth)" unfolding decode_step_def by (intro bnd)
  with run have w: "within_limit r r'" unfolding bounded_def by (metis fst_conv snd_conv)
  show ?case
  proof (cases "\<exists>d. res = Ok (Some d)")
    case True
    then obtain d where "res = Ok (Some d)" by blast
    with 1 [of d r' x'] run w show ?thesis
      by (simp add: read_code_from_unfold [of v depth] bindM_def) (metis within_limit_trans)
  next
    case False
    with run w show ?thesis
      by (auto simp: read_code_from_unfold [of v depth] bindM_def retM_def split: result.split option.split)
  qed
qed

lemma bounded_read_code [bnd]: "bounded (read_code v)"
  unfolding bounded_def read_code_from_0 using read_code_from_bounded by (metis prod.collapse)

lemma wpM_code_pc: "code_inv cd \<Longrightarrow> wpM code_pc Q E cd = Q (addr (word_count cd)) cd"
  by (simp add: code_pc_eq wpM_def addr_def)

lemma expr_read_safe:
  assumes "env_ok env" "0 < be_max_frames env" "code_inv cd" "reader_inv r"
  shows "wpM (expr_read env)
     (\<lambda>(e, _) (r', cd'). reader_inv r' \<and> code_inv cd' \<and> e = addr (word_count cd)) (\<lambda>_ (_, cd'). code_inv cd') (r, cd)"
proof -
  have "be_max_stack env < 2 ^ 16" using assms(1) by (simp add: env_ok_def)
  note new = builder_new_ok [OF assms(3,2) this]
  have "wpM (read_code (compile_visit env)) (\<lambda>_ p. reader_inv (fst p) \<and> tb_ok env (snd p) \<and> tb_frames (snd p) = [])
      (\<lambda>_ p. code_inv (tb_code (snd p))) (r, builder_new env cd)"
    using new assms by (intro compiling.read_code_ok) auto
  then show ?thesis
    unfolding expr_read_def wpM_bind wpM_onState wpM_code_pc [OF assms(3)] wpM_focus wpM_then
    by (rule wpM_mono) (auto simp: wpM_onState wp tb_ok_def)
qed

text \<open>
  Compiling a function body never panics, whatever bytes the stream delivers: for a
  well-formed module and store, \<open>Expr::read\<close> either returns the entry point, which is where the code
  buffer ended before, or an error, and the code buffer is well formed afterwards in both cases.
\<close>

lemma expr_read_never_panics:
  assumes "env_ok env" "0 < be_max_frames env" "code_inv cd"
  shows "case expr_read env (reader_new st al, cd) of
      (Ok (e, usage), (r', cd')) \<Rightarrow> reader_inv r' \<and> code_inv cd' \<and> e = addr (word_count cd)
    | (Err _, (r', cd')) \<Rightarrow> code_inv cd'
    | (Panic, _) \<Rightarrow> False"
  using expr_read_safe [OF assms reader_inv_new [of st al]]
  by (auto simp: wpM_def split: prod.splits result.splits)

section \<open>Function bodies are decoded safely\<close>

lemma bounded_focus_expr [bnd]: "bounded (expr_read env)"
  unfolding expr_read_def by (intro bnd)

lemma locals_size_sum:
  "locals_size ls acc = Some n \<Longrightarrow> n = acc + (\<Sum>(k, ty)\<leftarrow>ls. unat k * val_type_size ty)"
  by (induction ls acc rule: locals_size.induct) (auto split: if_splits)

definition local_words :: "(u16 \<times> val_type) list \<Rightarrow> nat" where
  "local_words ls = (\<Sum>(k, ty)\<leftarrow>ls. unat k * ty_words ty)"

lemma local_words_bytes: "(\<Sum>(k, ty)\<leftarrow>ls. unat k * val_type_size ty) = 4 * local_words ls"
proof -
  have "val_type_size ty = 4 * ty_words ty" for ty by (cases ty) simp_all
  then show ?thesis by (induction ls) (auto simp: local_words_def algebra_simps)
qed

text \<open>What a body leaves in the function: its type kept, its locals measured in words.\<close>

definition body_of :: "func \<Rightarrow> func \<Rightarrow> bool" where
  "body_of f0 f \<longleftrightarrow> fn_ty f = fn_ty f0 \<and> fn_param_size f = fn_param_size f0 \<and> fn_return f = fn_return f0 \<and>
     unat (fn_local_size f) = local_words (fn_locals f)"

lemma reader_safe_local_decl [rsafe]: "reader_safe local_decl_read"
  unfolding local_decl_read_def by (intro rsafe)

lemma read_body_safe:
  assumes env: "env_ok \<lparr>be_store = st, be_module = md, be_func = f0, be_max_frames = mf, be_max_stack = ms\<rparr>"
    and mf: "0 < mf" and cd: "code_inv cd" and r: "reader_inv r"
  shows "wpM (read_body mf ms st f0) (\<lambda>f (r', (md', cd')). reader_inv r' \<and> md' = md \<and> code_inv cd' \<and> body_of f0 f)
    (\<lambda>_ (_, (md', cd')). md' = md \<and> code_inv cd') (r, (md, cd))"
  unfolding read_body_def wpM_bind [of "onReader _"]
proof (rule wpM_reader_safe [OF _ r])
  fix ls r1 assume r1: "reader_inv r1"
  show "wpM (bindM (ok_or (locals_size ls 0) TooManyLocals) (\<lambda>bytes.
     if 0xFFFF < bytes div 4 then errM TooManyLocals
     else let f1 = f0\<lparr>fn_locals := ls, fn_local_size := word_of_nat (bytes div 4)\<rparr> in
       bindM (onState (getM fst)) (\<lambda>md.
       bindM (focus snd (\<lambda>cd (md, _). (md, cd)) (expr_read \<lparr>be_store = st, be_module = md, be_func = f1,
         be_max_frames = mf, be_max_stack = ms\<rparr>)) (\<lambda>(e, usage).
       retM (f1\<lparr>fn_expr := e, fn_stack_usage := usage\<rparr>)))))
    (\<lambda>f (r', (md', cd')). reader_inv r' \<and> md' = md \<and> code_inv cd' \<and> body_of f0 f)
    (\<lambda>_ (_, (md', cd')). md' = md \<and> code_inv cd') (r1, (md, cd))"
  proof (cases "locals_size ls 0")
    case (Some n)
    define f1 where "f1 = f0\<lparr>fn_locals := ls, fn_local_size := word_of_nat (n div 4)\<rparr>"
    have n: "n div 4 = local_words ls"
      using locals_size_sum [OF Some] local_words_bytes [of ls] by simp
    have body: "body_of f0 (f1\<lparr>fn_expr := e, fn_stack_usage := u\<rparr>)" if "n div 4 \<le> 65535" for e u
      using that n by (simp add: body_of_def f1_def unat_of_nat)
    have "wpM (expr_read \<lparr>be_store = st, be_module = md, be_func = f1, be_max_frames = mf, be_max_stack = ms\<rparr>)
       (\<lambda>(e, _) (r', cd'). reader_inv r' \<and> code_inv cd' \<and> e = addr (word_count cd)) (\<lambda>_ (_, cd'). code_inv cd') (r1, cd)"
      using env mf by (intro expr_read_safe cd r1) (simp_all add: env_ok_def)
    then have "wpM (expr_read \<lparr>be_store = st, be_module = md, be_func = f1, be_max_frames = mf, be_max_stack = ms\<rparr>)
       (\<lambda>a (r', cd'). reader_inv r' \<and> code_inv cd') (\<lambda>_ (_, cd'). code_inv cd') (r1, cd)"
      by (rule wpM_mono) auto
    then have run: "wpM (focus snd (\<lambda>cd (md, _). (md, cd)) (expr_read \<lparr>be_store = st, be_module = md, be_func = f1,
        be_max_frames = mf, be_max_stack = ms\<rparr>))
       (\<lambda>a (r', (md', cd')). reader_inv r' \<and> md' = md \<and> code_inv cd') (\<lambda>_ (_, (md', cd')). md' = md \<and> code_inv cd') (r1, (md, cd))"
      unfolding wpM_focus by (simp add: case_prod_unfold)
    show ?thesis
    proof (cases "n div 4 \<le> 65535")
      case True
      then show ?thesis
        unfolding wpM_bind wpM_ok_or Some using run
        by (auto simp: Let_def f1_def [symmetric] wpM_bind wpM_onState wpM_get wpM_ret body elim!: wpM_mono)
    qed (use Some cd in \<open>simp add: wp\<close>)
  qed (use cd in \<open>simp add: wp\<close>)
qed (use cd in \<open>auto intro!: rsafe\<close>)

lemma bounded_local_decl [bnd]: "reader_bounded local_decl_read"
  unfolding local_decl_read_def by (intro bnd)

lemma bounded_prod [bnd]: "(\<And>a b. bounded (f a b)) \<Longrightarrow> bounded (case x of (a, b) \<Rightarrow> f a b)"
  by (cases x) simp

lemma bounded_read_body [bnd]: "bounded (read_body mf ms st f0)"
  unfolding read_body_def by (intro bnd)

lemma wpM_bounded:
  assumes "bounded f" "wpM f Q E p"
  shows "wpM f (\<lambda>a q. Q a q \<and> within_limit (fst p) (fst q)) E p"
proof -
  have "within_limit (fst p) (fst (snd (f p)))" using assms(1) unfolding bounded_def by blast
  then show ?thesis using assms(2) by (auto simp: wpM_def split: prod.splits result.splits)
qed

lemma env_ok_update:
  assumes "env_ok \<lparr>be_store = st, be_module = md, be_func = f, be_max_frames = mf, be_max_stack = ms\<rparr>"
    and "i < length (md_functions md)" "fn_ty g = fn_ty (md_functions md ! i)"
  shows "env_ok \<lparr>be_store = st, be_module = md\<lparr>md_functions := (md_functions md)[i := g]\<rparr>, be_func = f',
    be_max_frames = mf', be_max_stack = ms\<rparr>"
proof -
  have "unat (fn_ty g) < length (md_types md)" using assms by (simp add: env_ok_def module_types_ok_def)
  then have "module_types_ok (md\<lparr>md_functions := (md_functions md)[i := g]\<rparr>)"
    using assms(1) by (auto simp: env_ok_def module_types_ok_def dest!: set_update_subset_insert [THEN subsetD])
  then show ?thesis using assms(1) by (simp add: env_ok_def)
qed

text \<open>The module after a body was read or refused: only function \<open>i\<close> changed, and it kept its type.\<close>

definition only_function :: "nat \<Rightarrow> wmodule \<Rightarrow> wmodule \<Rightarrow> bool" where
  "only_function i md md' \<longleftrightarrow> (\<exists>g. md' = md\<lparr>md_functions := (md_functions md)[i := g]\<rparr> \<and>
     fn_ty g = fn_ty (md_functions md ! i))"

lemma only_function_refl: "i < length (md_functions md) \<Longrightarrow> only_function i md md"
  unfolding only_function_def by (rule exI [of _ "md_functions md ! i"]) simp

lemma read_function_code_ok:
  assumes env: "env_ok \<lparr>be_store = st, be_module = md, be_func = f, be_max_frames = mf, be_max_stack = ms\<rparr>"
    and mf: "0 < mf" and cd: "code_inv cd" and r: "reader_inv r" and i: "i < length (md_functions md)"
  shows "wpM (read_function_code mf ms st i)
    (\<lambda>_ (r', (md', cd')). reader_inv r' \<and> code_inv cd' \<and> only_function i md md' \<and>
       body_of (md_functions md ! i) (md_functions md' ! i) \<and> required_stack_words (md_functions md' ! i) \<le> 0xFFFF)
    (\<lambda>_ (_, (md', cd')). code_inv cd' \<and> only_function i md md') (r, (md, cd))"
proof -
  define f0 where "f0 = md_functions md ! i"
  define md1 where "md1 = md\<lparr>md_functions := (md_functions md)[i := placeholder f0]\<rparr>"
  note same = only_function_refl [OF i]
  have i1: "i < length (md_functions md1)" using i by (simp add: md1_def)
  have md1: "only_function i md md1"
    unfolding only_function_def md1_def by (rule exI [of _ "placeholder f0"]) (simp add: placeholder_def f0_def)
  have env1: "env_ok \<lparr>be_store = st, be_module = md1, be_func = f0, be_max_frames = mf, be_max_stack = ms\<rparr>"
    unfolding md1_def by (rule env_ok_update [OF env i]) (simp add: placeholder_def f0_def)
  have done_ok: "only_function i md (md1\<lparr>md_functions := (md_functions md1)[i := g]\<rparr>)" if "body_of f0 g" for g
    using that i unfolding only_function_def by (intro exI [of _ g]) (simp add: md1_def body_of_def f0_def)
  show ?thesis
    unfolding read_function_code_def wpM_bind [of "onReader read_u32"]
  proof (rule wpM_reader_safe [OF reader_safe_ints(1) r])
    fix sz :: u32 and r1 assume r1: "reader_inv r1"
    let ?P = "\<lambda>g (r', (md', cd')). reader_inv r' \<and> md' = md1 \<and> code_inv cd' \<and> body_of f0 g"
    have "wpM (read_body mf ms st f0) ?P (\<lambda>_ (_, (md', cd')). md' = md1 \<and> code_inv cd')
       (r1\<lparr>rd_limit := rd_full_offset r1 + unat sz\<rparr>, (md1, cd))"
      using r1 by (intro read_body_safe env1 mf cd) (simp add: reader_inv_limit)
    then have "wpM (with_limit (\<lambda>e. e) (unat sz) (read_body mf ms st f0)) ?P
       (\<lambda>_ (_, (md', cd')). md' = md1 \<and> code_inv cd') (r1, (md1, cd))"
      by (intro wpM_with_limit) (auto simp: cd reader_inv_limit case_prod_unfold elim!: wpM_mono)
    then have run: "wpM (with_limit (\<lambda>e. e) (unat sz) (read_body mf ms st f0))
       (\<lambda>g q. ?P g q \<and> within_limit r1 (fst q)) (\<lambda>_ (_, (md', cd')). md' = md1 \<and> code_inv cd') (r1, (md1, cd))"
      using wpM_bounded [OF bounded_with_limit [OF bounded_read_body]] by fastforce
    show "wpM (bindM (onReader reader_offset) (\<lambda>start.
     bindM (onState (bindM (getM (\<lambda>(md, cd). md_functions md)) (\<lambda>fs. indexM fs i))) (\<lambda>f0.
     thenM (onState (modifyM (\<lambda>(md, cd). (md\<lparr>md_functions := (md_functions md)[i := placeholder f0]\<rparr>, cd))))
     (bindM (with_limit (\<lambda>e. e) (unat sz) (read_body mf ms st f0)) (\<lambda>f.
      if 0xFFFF < 2 + unat (fn_local_size f) + unat (fn_stack_usage f) then errM StackTooLarge
      else thenM (onState (modifyM (\<lambda>(md, cd). (md\<lparr>md_functions := (md_functions md)[i := f]\<rparr>, cd))))
        (bindM (onReader reader_offset) (\<lambda>fin.
         thenM (assertM (start \<le> fin))
         (if (word_of_nat (fin - start) :: u32) \<noteq> sz then errM MalformedCodeSize else retM ()))))))))
    (\<lambda>_ (r', (md', cd')). reader_inv r' \<and> code_inv cd' \<and> only_function i md md' \<and>
       body_of (md_functions md ! i) (md_functions md' ! i) \<and> required_stack_words (md_functions md' ! i) \<le> 0xFFFF)
    (\<lambda>_ (_, (md', cd')). code_inv cd' \<and> only_function i md md') (r1, (md, cd))"
      unfolding wpM_bind wpM_then wpM_onReader wpM_onState reader_offset_def wpM_get wpM_modify wpM_index
      using i i1 run
      by (auto simp: wpM_if wpM_err wpM_then wpM_onState wpM_modify wpM_bind wpM_onReader reader_offset_def wpM_get
          wpM_assert wpM_ret f0_def [symmetric] md1_def [symmetric] within_limit_def required_stack_words_def
          md1 done_ok elim!: wpM_mono)
  qed (use cd same in auto)
qed

text \<open>
  Claim C4. Reading one entry of the code section is safe: for every stream of bytes it returns or
  reports an error, never panicking; the code buffer stays well formed, no other function of the module
  changes and the function keeps its type even when its body is refused; and an accepted function has
  its locals measured exactly in words and a call frame of at most 65535 words.
\<close>

theorem read_function_code_safe:
  assumes "env_ok \<lparr>be_store = st, be_module = md, be_func = f, be_max_frames = mf, be_max_stack = ms\<rparr>"
    and "0 < mf" "code_inv cd" "i < length (md_functions md)"
  shows "case read_function_code mf ms st i (reader_new stream al, (md, cd)) of
      (Ok _, (r', (md', cd'))) \<Rightarrow> code_inv cd' \<and> only_function i md md' \<and>
        body_of (md_functions md ! i) (md_functions md' ! i) \<and> required_stack_words (md_functions md' ! i) \<le> 0xFFFF
    | (Err _, (r', (md', cd'))) \<Rightarrow> code_inv cd' \<and> only_function i md md'
    | (Panic, _) \<Rightarrow> False"
  using read_function_code_ok [OF assms(1-3) reader_inv_new [of stream al] assms(4)]
  by (auto simp: wpM_def split: prod.splits result.splits)

lemma expr_read_never_panics_witness:
  "fst (expr_read tiny_env (reader_new [Chunk [0x41, 7], Chunk [0x1A, 0x0B]] [], small_code)) \<noteq> Panic"
  using expr_read_never_panics [OF tiny_env_ok _ small_code_facts(1), of "[Chunk [0x41, 7], Chunk [0x1A, 0x0B]]" "[]"]
  by (auto simp: tiny_env_def split: prod.splits result.splits)

lemma read_function_code_safe_witness:
  "fst (read_function_code 8 8 (be_store tiny_env) 0
     (reader_new [Chunk [4, 0, 0x41], Chunk [7, 0x0B]] [], (be_module tiny_env, small_code))) \<noteq> Panic"
proof -
  have env: "\<lparr>be_store = be_store tiny_env, be_module = be_module tiny_env, be_func = be_func tiny_env,
      be_max_frames = 8, be_max_stack = 8\<rparr> = tiny_env"
    by (simp add: tiny_env_def)
  have "0 < length (md_functions (be_module tiny_env))" by (simp add: tiny_env_def small_module_def)
  with read_function_code_safe [OF _ _ small_code_facts(1), of "be_store tiny_env" "be_module tiny_env"
      "be_func tiny_env" 8 8 0 "[Chunk [4, 0, 0x41], Chunk [7, 0x0B]]" "[]", unfolded env, OF tiny_env_ok]
  show ?thesis by (auto split: prod.splits result.splits)
qed

section \<open>Chunk independence of function bodies\<close>

lemma chunk_indep_prod [indep]: "(\<And>a b. chunk_indep (f a b)) \<Longrightarrow> chunk_indep (case x of (a, b) \<Rightarrow> f a b)"
  by (cases x) simp

lemma chunk_indep_assert [indep]: "chunk_indep (assertM b)"
  unfolding assertM_def by (intro indep)

lemma reader_indep_local_decl [indep]: "reader_indep local_decl_read"
  unfolding local_decl_read_def by (intro indep)

lemma chunk_indep_expr_read [indep]: "chunk_indep (expr_read env)"
  unfolding expr_read_def by (intro indep)

lemma chunk_indep_read_function_code [indep]: "chunk_indep (read_function_code mf ms st i)"
  unfolding read_function_code_def read_body_def by (intro indep)

end
