(* ===== verification/Constant.thy ===== *)
theory Constant
  imports Decode Read_Ahead
begin

text \<open>
  Constant expressions (src/constant.rs and \<open>Expr::read_constant\<close> of src/code.rs): a visitor whose state
  is the value found so far. Every instruction but the four constants and \<open>global.get\<close> of an immutable
  import is refused. The values of host globals belong to the embedder: \<open>host_read m i\<close> is what the
  global's \<open>read\<close> returns, \<open>None\<close> for its error.

  Lemmas: reading a constant never panics, and it accepts exactly the constant expressions, given as a grammar.
\<close>

type_synonym host_globals = "u8 \<Rightarrow> u16 \<Rightarrow> wasm_value option"

type_synonym 'a cm = "(wasm_value option, 'a, constant_expr_error) m"

definition invalid_constant :: "unit cm" where
  "invalid_constant = errM CE_InvalidConstantInstruction"

section \<open>The base visitor\<close>

definition const_mem :: "mem_op \<Rightarrow> mem_arg \<Rightarrow> unit cm" where
  "const_mem p ma = invalid_constant"

text \<open>\<open>state.replace(v)\<close>: the new value is stored even when there was one.\<close>

definition const_value :: "wasm_value \<Rightarrow> unit cm" where
  "const_value v = bindM (getM id) (\<lambda>before. thenM (modifyM (\<lambda>_. Some v))
     (if before \<noteq> None then errM CE_AlreadyHasValue else retM ()))"

primrec const_base :: "base_op \<Rightarrow> unit cm" where
  "const_base (IRel w r) = invalid_constant"
| "const_base (FRel w r) = invalid_constant"
| "const_base (IArith w p) = invalid_constant"
| "const_base (FArith w p) = invalid_constant"
| "const_base (Conv c) = invalid_constant"
| "const_base (Extend x) = invalid_constant"
| "const_base (TruncSat t) = invalid_constant"

section \<open>Globals\<close>

definition const_global_get :: "store \<Rightarrow> wmodule \<Rightarrow> host_globals \<Rightarrow> u32 \<Rightarrow> unit cm" where
  "const_global_get st md host_read x =
     bindM (ok_or (get_global_ref md x) CE_InvalidGlobal) (\<lambda>r.
     bindM (case r of
        Ref_Module _ \<Rightarrow> errM CE_InvalidConstantInstruction
      | Ref_Host m i \<Rightarrow>
          bindM (ok_or (get_opt (st_host_modules st) (unat m)) CE_InvalidGlobal) (\<lambda>hm.
          bindM (ok_or (get_opt (hmod_globals hm) (unat i)) CE_InvalidGlobal) (\<lambda>g.
          if hg_mutable g then errM CE_InvalidConstantInstruction
          else ok_or (host_read m i) CE_InvalidGlobal))
      | Ref_Extern m i \<Rightarrow>
          bindM (ok_or (get_opt (st_modules st) (unat m)) CE_InvalidGlobal) (\<lambda>em.
          bindM (ok_or (get_opt (md_globals em) (unat i)) CE_InvalidGlobal) (\<lambda>g.
          if gt_mutable (gl_type g) then errM CE_InvalidConstantInstruction
          else retM (global_value g)))) const_value)"

definition const_finish :: "unit cm" where
  "const_finish = bindM (getM id) (\<lambda>v. if v \<noteq> None then retM () else errM CE_NoValue)"

fun constant_visit :: "store \<Rightarrow> wmodule \<Rightarrow> host_globals \<Rightarrow> visit \<Rightarrow> unit cm" where
  "constant_visit st md h (Vs_i32_const n) = const_value (V_I32 n)"
| "constant_visit st md h (Vs_i64_const n) = const_value (V_I64 n)"
| "constant_visit st md h (Vs_f32_const z) = const_value (V_F32 z)"
| "constant_visit st md h (Vs_f64_const z) = const_value (V_F64 z)"
| "constant_visit st md h (Vs_global_get x) = const_global_get st md h x"
| "constant_visit st md h Vs_finish = const_finish"
| "constant_visit st md h (Vs_mem p ma) = const_mem p ma"
| "constant_visit st md h (Vs_base p) = const_base p"
| "constant_visit st md h _ = invalid_constant"

text \<open>\<open>Expr::read_constant\<close>: the errors of the visitor become validation errors.\<close>

definition read_constant :: "store \<Rightarrow> wmodule \<Rightarrow> host_globals \<Rightarrow> wasm_value rm" where
  "read_constant st md h = (\<lambda>r.
     case bindM (read_code (\<lambda>i. map_err InvalidConstantExpr (constant_visit st md h i)))
            (\<lambda>_. onState (bindM (getM id) unwrapM)) (r, None) of
       (x, (r', _)) \<Rightarrow> (x, r'))"

section \<open>Reading a constant is safe\<close>

text \<open>
  What the visitor does to its state: it fails, or it is the end of an expression that has a value,
  or it provides the first value. The values an instruction can provide are those of \<open>constant_of\<close>.
\<close>

fun constant_of :: "store \<Rightarrow> wmodule \<Rightarrow> host_globals \<Rightarrow> visit \<Rightarrow> wasm_value option" where
  "constant_of st md h (Vs_i32_const n) = Some (V_I32 n)"
| "constant_of st md h (Vs_i64_const n) = Some (V_I64 n)"
| "constant_of st md h (Vs_f32_const z) = Some (V_F32 z)"
| "constant_of st md h (Vs_f64_const z) = Some (V_F64 z)"
| "constant_of st md h (Vs_global_get x) = (case get_global_ref md x of
     Some (Ref_Host m i) \<Rightarrow>
       (if unat m < length (st_host_modules st) \<and> unat i < length (hmod_globals (st_host_modules st ! unat m)) \<and>
           \<not> hg_mutable (hmod_globals (st_host_modules st ! unat m) ! unat i)
        then h m i else None)
   | Some (Ref_Extern m i) \<Rightarrow>
       (if unat m < length (st_modules st) \<and> unat i < length (md_globals (st_modules st ! unat m)) \<and>
           \<not> gt_mutable (gl_type (md_globals (st_modules st ! unat m) ! unat i))
        then Some (global_value (md_globals (st_modules st ! unat m) ! unat i)) else None)
   | _ \<Rightarrow> None)"
| "constant_of st md h _ = None"

lemma const_value_run: "const_value v s = (if s = None then Ok () else Err CE_AlreadyHasValue, Some v)"
  by (simp add: const_value_def run_defs)

lemma constant_visit_run:
  "(\<exists>e t. constant_visit st md h i s = (Err e, t)) \<or>
   (i = Vs_finish \<and> s \<noteq> None \<and> constant_visit st md h i s = (Ok (), s)) \<or>
   (i \<noteq> Vs_finish \<and> s = None \<and> constant_of st md h i \<noteq> None \<and>
      constant_visit st md h i s = (Ok (), constant_of st md h i))"
proof (cases i)
  case (Vs_global_get x)
  then show ?thesis
    by (auto simp: const_global_get_def run_defs const_value_run get_opt_def split: option.split sym_ref.split)
next
  case (Vs_base p)
  then show ?thesis by (cases p) (simp_all add: invalid_constant_def run_defs)
qed (auto simp: const_value_run const_finish_def const_mem_def invalid_constant_def run_defs)

definition constant_ok :: "store \<Rightarrow> wmodule \<Rightarrow> host_globals \<Rightarrow> wasm_value option \<Rightarrow> bool" where
  "constant_ok st md h v \<longleftrightarrow> v = None \<or> (\<exists>i. constant_of st md h i = v)"

interpretation constants: visitor_contract "\<lambda>i. map_err InvalidConstantExpr (constant_visit st md h i)"
  "\<lambda>_. constant_ok st md h" "\<lambda>v. v \<noteq> None \<and> constant_ok st md h v" "\<lambda>_. True" for st md h
proof
  fix d x i
  assume "constant_ok st md h x" "i \<noteq> Vs_finish"
  then show "wpM (map_err InvalidConstantExpr (constant_visit st md h i)) (\<lambda>_. constant_ok st md h) (\<lambda>_ _. True) x"
    unfolding wpM_map_err using constant_visit_run [of st md h i x]
    by (auto simp: wpM_def constant_ok_def) blast+
next
  fix x assume "constant_ok st md h x"
  then show "wpM (map_err InvalidConstantExpr (constant_visit st md h Vs_finish))
      (\<lambda>_ v. v \<noteq> None \<and> constant_ok st md h v) (\<lambda>_ _. True) x"
    unfolding wpM_map_err using constant_visit_run [of st md h Vs_finish x] by (auto simp: wpM_def)
qed auto

lemma read_constant_wp:
  assumes "reader_inv r"
  shows "wpM (read_constant st md h) (\<lambda>v r'. reader_inv r' \<and> (\<exists>i. constant_of st md h i = Some v)) (\<lambda>_ _. True) r"
proof -
  have "wpM (read_code (\<lambda>i. map_err InvalidConstantExpr (constant_visit st md h i)))
      (\<lambda>_ p. reader_inv (fst p) \<and> snd p \<noteq> None \<and> constant_ok st md h (snd p)) (\<lambda>_ _. True) (r, None)"
    using constants.read_code_ok [of st md h None r] assms by (simp add: constant_ok_def)
  then have "wpM (bindM (read_code (\<lambda>i. map_err InvalidConstantExpr (constant_visit st md h i)))
      (\<lambda>_. onState (bindM (getM id) unwrapM)))
      (\<lambda>v p. reader_inv (fst p) \<and> (\<exists>i. constant_of st md h i = Some v)) (\<lambda>_ _. True) (r, None)"
    unfolding wpM_bind by (rule wpM_mono) (auto simp: wpM_onState wp constant_ok_def)
  then show ?thesis
    by (auto simp: wpM_def read_constant_def split: prod.splits result.splits)
qed

lemma reader_safe_read_constant [rsafe]: "reader_safe (read_constant st md h)"
  unfolding reader_safe_def by (auto intro: wpM_mono [OF read_constant_wp])

lemma reader_indep_run:
  assumes "chunk_indep f" shows "reader_indep (\<lambda>r. case f (r, x) of (a, (r', _)) \<Rightarrow> (a, r'))"
  unfolding reader_indep_def
proof (intro allI impI)
  fix r1 r2 assume "in_step r1 r2"
  then have "outcome_rel (\<lambda>p q. in_step (fst p) (fst q) \<and> snd p = snd q)
     (\<lambda>p q. same_offset (fst p) (fst q) \<and> snd p = snd q) (f (r1, x)) (f (r2, x))"
    using assms by (simp add: chunk_indep_def)
  then show "outcome_rel in_step same_offset (case f (r1, x) of (a, (r', _)) \<Rightarrow> (a, r'))
      (case f (r2, x) of (a, (r', _)) \<Rightarrow> (a, r'))"
    by (cases "f (r1, x)"; cases "fst (f (r1, x))") auto
qed

lemma reader_indep_read_constant [indep]: "reader_indep (read_constant st md h)"
  unfolding read_constant_def by (intro reader_indep_run indep)

lemma reader_bounded_read_constant [bnd]: "reader_bounded (read_constant st md h)"
proof -
  have "bounded (bindM (read_code (\<lambda>i. map_err InvalidConstantExpr (constant_visit st md h i)))
      (\<lambda>_. onState (bindM (getM id) unwrapM)))"
    by (intro bnd)
  then show ?thesis
    unfolding reader_bounded_def read_constant_def bounded_def by (auto split: prod.split) (metis fst_conv snd_conv)
qed

section \<open>The constant expressions\<close>

text \<open>
  What a constant expression is, without the decoder and its visitor: one constant instruction or a
  \<open>global.get\<close>, whose value is that of \<open>constant_of\<close>, and the byte of \<open>end\<close>. Only what it accepts matters: its
  errors are not those of the decoder.
\<close>

definition const_instruction :: "visit rm" where
  "const_instruction = bindM read_u8 (\<lambda>b.
     if b = I32_CONST then bindM read_i32 (\<lambda>n. retM (Vs_i32_const n))
     else if b = I64_CONST then bindM read_i64 (\<lambda>n. retM (Vs_i64_const n))
     else if b = F32_CONST then bindM read_f32_bits (\<lambda>z. retM (Vs_f32_const z))
     else if b = F64_CONST then bindM read_f64_bits (\<lambda>z. retM (Vs_f64_const z))
     else if b = GLOBAL_GET then bindM read_u32 (\<lambda>x. retM (Vs_global_get x))
     else errM (InvalidOpcode b))"

definition const_expression :: "store \<Rightarrow> wmodule \<Rightarrow> host_globals \<Rightarrow> wasm_value rm" where
  "const_expression st md h = bindM const_instruction (\<lambda>i.
     bindM (ok_or (constant_of st md h i) (InvalidConstantExpr CE_InvalidGlobal)) (\<lambda>v.
     bindM read_u8 (\<lambda>b. if b = END then retM v else errM (InvalidOpcode b))))"

text \<open>Computations that never succeed: every instruction but the five and \<open>end\<close>.\<close>

definition never_ok :: "('s, 'a, 'e) m \<Rightarrow> bool" where
  "never_ok f \<longleftrightarrow> (\<forall>s a t. f s \<noteq> (Ok a, t))"

named_theorems nok "computations that never succeed"

lemma never_then_state [nok]: "never_ok f \<Longrightarrow> never_ok (thenM (onState f) g)"
  by (auto simp: never_ok_def thenM_def onState_def split: prod.splits elim!: bindM_OkE)

lemma never_bind_reader [nok]: "(\<And>a. never_ok (g a)) \<Longrightarrow> never_ok (bindM (onReader f) g)"
  by (auto simp: never_ok_def elim!: bindM_OkE)

lemma never_then_reader [nok]: "never_ok g \<Longrightarrow> never_ok (thenM (onReader f) g)"
  unfolding thenM_def by (rule never_bind_reader)

lemma never_err [nok]: "never_ok (errM e)"
  by (simp add: never_ok_def errM_def)

lemma never_cases [nok]:
  "(c \<Longrightarrow> never_ok f) \<Longrightarrow> (\<not> c \<Longrightarrow> never_ok g) \<Longrightarrow> never_ok (if c then f else g)"
  "never_ok f \<Longrightarrow> (\<And>a. never_ok (h a)) \<Longrightarrow> never_ok (case x of None \<Rightarrow> f | Some a \<Rightarrow> h a)"
  by (simp_all split: option.split)

text \<open>The groups of the decoder's match are optional computations.\<close>

definition never_some :: "('s, 'a, 'e) m option \<Rightarrow> bool" where
  "never_some x \<longleftrightarrow> (case x of None \<Rightarrow> True | Some f \<Rightarrow> never_ok f)"

lemma never_some_cases [nok]:
  "never_some None"
  "never_ok f \<Longrightarrow> never_some (Some f)"
  "(c \<Longrightarrow> never_some y) \<Longrightarrow> (\<not> c \<Longrightarrow> never_some z) \<Longrightarrow> never_some (if c then y else z)"
  "never_some y \<Longrightarrow> (\<And>a. never_some (w a)) \<Longrightarrow> never_some (case x of None \<Rightarrow> y | Some a \<Rightarrow> w a)"
  by (simp_all add: never_some_def option.case_eq_if)

lemma never_some_else: "never_some x \<Longrightarrow> never_ok g \<Longrightarrow> never_ok (case x of None \<Rightarrow> g | Some f \<Rightarrow> f)"
  by (simp add: never_some_def split: option.splits)

abbreviation const_visitor :: "store \<Rightarrow> wmodule \<Rightarrow> host_globals \<Rightarrow> wasm_value option visitor" where
  "const_visitor st md h \<equiv> \<lambda>i. map_err InvalidConstantExpr (constant_visit st md h i)"

fun may_visit :: "visit \<Rightarrow> bool" where
  "may_visit (Vs_i32_const _) = True"
| "may_visit (Vs_i64_const _) = True"
| "may_visit (Vs_f32_const _) = True"
| "may_visit (Vs_f64_const _) = True"
| "may_visit (Vs_global_get _) = True"
| "may_visit Vs_finish = True"
| "may_visit _ = False"

lemma never_visit [nok]: "\<not> may_visit i \<Longrightarrow> never_ok (map_err InvalidConstantExpr (constant_visit st md h i))"
proof (cases i)
  case (Vs_base p)
  then show ?thesis by (cases p) (simp_all add: never_ok_def map_err_def invalid_constant_def errM_def)
qed (simp_all add: never_ok_def map_err_def invalid_constant_def const_mem_def errM_def)

lemma never_visit_op [nok]: "\<not> may_visit i \<Longrightarrow> never_ok (visit_op (const_visitor st md h) d i)"
  unfolding visit_op_def by (intro nok)

lemma never_visit_imm [nok]: "(\<And>i. \<not> may_visit (x i)) \<Longrightarrow> never_ok (visit_imm (const_visitor st md h) d rd x)"
  unfolding visit_imm_def by (intro nok)

text \<open>The opcodes of the five instructions, and \<open>end\<close>.\<close>

abbreviation const_opcodes :: "u8 list" where
  "const_opcodes \<equiv> [I32_CONST, I64_CONST, F32_CONST, F64_CONST, GLOBAL_GET, END]"

lemma never_control: "b \<notin> set const_opcodes \<Longrightarrow> never_some (decode_control (const_visitor st md h) d b)"
  unfolding decode_control_def by (intro nok; simp)

lemma never_variable: "b \<notin> set const_opcodes \<Longrightarrow> never_some (decode_variable (const_visitor st md h) d b)"
  unfolding decode_variable_def by (intro nok; simp)

lemma never_memory: "b \<notin> set const_opcodes \<Longrightarrow> never_some (decode_memory (const_visitor st md h) d b)"
  unfolding decode_memory_def by (intro nok; simp)

lemma never_numeric: "never_ok (decode_numeric (const_visitor st md h) d b)"
  unfolding decode_numeric_def by (intro nok; simp)

lemma never_decode: "b \<notin> set const_opcodes \<Longrightarrow> never_ok (decode_op (const_visitor st md h) d b)"
  unfolding decode_op_def
  by (intro never_some_else never_control never_variable never_memory never_numeric)

text \<open>The five instructions and \<open>end\<close> themselves.\<close>

lemma bindM_Ok_iff: "bindM f g s = (Ok b, u) \<longleftrightarrow> (\<exists>a t. f s = (Ok a, t) \<and> g a t = (Ok b, u))"
  by (auto simp: bindM_def split: prod.splits result.splits)

lemma onReader_Ok_iff: "onReader f (r, x) = (Ok a, (r', x')) \<longleftrightarrow> f r = (Ok a, r') \<and> x' = x"
  by (auto simp: onReader_def split: prod.split)

lemma onState_Ok_iff: "onState f (r, x) = (Ok a, (r', x')) \<longleftrightarrow> f x = (Ok a, x') \<and> r' = r"
  by (auto simp: onState_def split: prod.split)

lemmas Ok_iff = bindM_Ok_iff onReader_Ok_iff onState_Ok_iff thenM_def retM_def

lemma map_err_Ok_iff: "map_err e f s = (Ok a, t) \<longleftrightarrow> f s = (Ok a, t)"
  by (auto simp: map_err_def split: prod.split result.split)

lemma decode_constants:
  "decode_op v d I32_CONST = visit_imm v d read_i32 Vs_i32_const"
  "decode_op v d I64_CONST = visit_imm v d read_i64 Vs_i64_const"
  "decode_op v d F32_CONST = visit_imm v d read_f32_bits Vs_f32_const"
  "decode_op v d F64_CONST = visit_imm v d read_f64_bits Vs_f64_const"
  "decode_op v d GLOBAL_GET = visit_imm v d read_u32 Vs_global_get"
  "decode_op v 0 END = thenM (onState (v Vs_finish)) (retM None)"
  by (simp_all add: decode_op_def decode_control_def decode_variable_def decode_memory_def mem_op_of_def all_mem_def control_codes)

lemma visit_imm_Ok_iff:
  "visit_imm v d rd y (r, x) = (Ok d', (r', x')) \<longleftrightarrow>
     (\<exists>a. rd r = (Ok a, r') \<and> v (y a) x = (Ok (), x') \<and> d' = Some d)"
  unfolding visit_imm_def visit_op_def by (auto simp: Ok_iff)

text \<open>The first instruction provides the value, the second can only be \<open>end\<close>.\<close>

lemma constant_visit_first:
  "i \<noteq> Vs_finish \<Longrightarrow> constant_visit st md h i None = (Ok (), x) \<longleftrightarrow> constant_of st md h i = x \<and> x \<noteq> None"
proof (cases i)
  case (Vs_global_get x)
  then show ?thesis
    by (auto simp: const_global_get_def run_defs const_value_run get_opt_def split: option.split sym_ref.split)
next
  case (Vs_base p)
  then show ?thesis by (cases p) (simp_all add: invalid_constant_def run_defs)
qed (auto simp: const_value_run const_mem_def invalid_constant_def run_defs)

lemma constant_visit_second:
  "i \<noteq> Vs_finish \<Longrightarrow> constant_visit st md h i (Some w) \<noteq> (Ok (), x)"
  using constant_visit_run [of st md h i "Some w"] by auto

lemma constant_visit_finish:
  "constant_visit st md h Vs_finish s = (Ok (), x) \<longleftrightarrow> s \<noteq> None \<and> x = s"
  by (auto simp: const_finish_def run_defs)

lemmas const_decode_iff = decode_constants visit_imm_Ok_iff map_err_Ok_iff Ok_iff

lemma const_instruction_iff:
  "const_instruction r = (Ok i, r') \<longleftrightarrow> (\<exists>b r1. read_u8 r = (Ok b, r1) \<and>
     ((b = I32_CONST \<and> (\<exists>n. read_i32 r1 = (Ok n, r') \<and> i = Vs_i32_const n)) \<or>
      (b = I64_CONST \<and> (\<exists>n. read_i64 r1 = (Ok n, r') \<and> i = Vs_i64_const n)) \<or>
      (b = F32_CONST \<and> (\<exists>z. read_f32_bits r1 = (Ok z, r') \<and> i = Vs_f32_const z)) \<or>
      (b = F64_CONST \<and> (\<exists>z. read_f64_bits r1 = (Ok z, r') \<and> i = Vs_f64_const z)) \<or>
      (b = GLOBAL_GET \<and> (\<exists>x. read_u32 r1 = (Ok x, r') \<and> i = Vs_global_get x))))"
proof -
  have "(if b = I32_CONST then bindM read_i32 (\<lambda>n. retM (Vs_i32_const n))
     else if b = I64_CONST then bindM read_i64 (\<lambda>n. retM (Vs_i64_const n))
     else if b = F32_CONST then bindM read_f32_bits (\<lambda>z. retM (Vs_f32_const z))
     else if b = F64_CONST then bindM read_f64_bits (\<lambda>z. retM (Vs_f64_const z))
     else if b = GLOBAL_GET then bindM read_u32 (\<lambda>x. retM (Vs_global_get x))
     else errM (InvalidOpcode b)) r1 = (Ok i, r') \<longleftrightarrow>
     ((b = I32_CONST \<and> (\<exists>n. read_i32 r1 = (Ok n, r') \<and> i = Vs_i32_const n)) \<or>
      (b = I64_CONST \<and> (\<exists>n. read_i64 r1 = (Ok n, r') \<and> i = Vs_i64_const n)) \<or>
      (b = F32_CONST \<and> (\<exists>z. read_f32_bits r1 = (Ok z, r') \<and> i = Vs_f32_const z)) \<or>
      (b = F64_CONST \<and> (\<exists>z. read_f64_bits r1 = (Ok z, r') \<and> i = Vs_f64_const z)) \<or>
      (b = GLOBAL_GET \<and> (\<exists>x. read_u32 r1 = (Ok x, r') \<and> i = Vs_global_get x)))" for b r1
    by (simp add: Ok_iff errM_def control_codes) blast
  then show ?thesis
    unfolding const_instruction_def bindM_Ok_iff [of read_u8] by simp
qed

lemma const_decode_first:
  "decode_step (const_visitor st md h) 0 (r, None) = (Ok d, (r', x)) \<longleftrightarrow>
     (\<exists>i. const_instruction r = (Ok i, r') \<and> constant_of st md h i = x \<and> x \<noteq> None \<and> d = Some 0)"
proof -
  have op: "decode_op (const_visitor st md h) 0 b (r1, None) = (Ok d, (r', x)) \<longleftrightarrow>
     (\<exists>i. ((b = I32_CONST \<and> (\<exists>n. read_i32 r1 = (Ok n, r') \<and> i = Vs_i32_const n)) \<or>
      (b = I64_CONST \<and> (\<exists>n. read_i64 r1 = (Ok n, r') \<and> i = Vs_i64_const n)) \<or>
      (b = F32_CONST \<and> (\<exists>z. read_f32_bits r1 = (Ok z, r') \<and> i = Vs_f32_const z)) \<or>
      (b = F64_CONST \<and> (\<exists>z. read_f64_bits r1 = (Ok z, r') \<and> i = Vs_f64_const z)) \<or>
      (b = GLOBAL_GET \<and> (\<exists>x. read_u32 r1 = (Ok x, r') \<and> i = Vs_global_get x))) \<and>
      constant_of st md h i = x \<and> x \<noteq> None \<and> d = Some 0)" (is "?run b \<longleftrightarrow> ?spec b") for b r1
  proof (cases "b \<in> set const_opcodes")
    case True
    then consider "b = I32_CONST" | "b = I64_CONST" | "b = F32_CONST" | "b = F64_CONST" | "b = GLOBAL_GET" | "b = END"
      by auto
    then show ?thesis
    proof cases
      case 6
      then show ?thesis
        by (simp add: const_decode_iff constant_visit_finish del: constant_visit.simps) (simp add: control_codes)
    qed (simp_all only: const_decode_iff, auto simp: constant_visit_first control_codes simp del: constant_visit.simps)
  next
    case False
    then show ?thesis
      using never_decode [OF False, of st md h 0] by (auto simp: never_ok_def)
  qed
  show ?thesis
    unfolding const_instruction_iff decode_step_def Ok_iff op by (simp add: Ok_iff op) blast
qed

lemma const_decode_second:
  "decode_step (const_visitor st md h) 0 (r, Some w) = (Ok d, (r', x)) \<longleftrightarrow>
     read_u8 r = (Ok END, r') \<and> x = Some w \<and> d = None"
proof -
  have op: "decode_op (const_visitor st md h) 0 b (r1, Some w) = (Ok d, (r', x)) \<longleftrightarrow>
     b = END \<and> r' = r1 \<and> x = Some w \<and> d = None" for b r1
  proof (cases "b \<in> set const_opcodes")
    case True
    then consider "b = I32_CONST" | "b = I64_CONST" | "b = F32_CONST" | "b = F64_CONST" | "b = GLOBAL_GET" | "b = END"
      by auto
    then show ?thesis
    proof cases
      case 6
      then show ?thesis by (auto simp: const_decode_iff constant_visit_finish simp del: constant_visit.simps)
    qed (simp_all only: const_decode_iff, simp_all add: constant_visit_second control_codes del: constant_visit.simps)
  next
    case False
    then show ?thesis
      using never_decode [OF False, of st md h 0] by (auto simp: never_ok_def)
  qed
  show ?thesis
    by (auto simp: decode_step_def Ok_iff op)
qed

lemma const_code_iff:
  "read_code (const_visitor st md h) (r, None) = (Ok (), (r', x)) \<longleftrightarrow>
     (\<exists>i r1 v. const_instruction r = (Ok i, r1) \<and> constant_of st md h i = Some v \<and>
        read_u8 r1 = (Ok END, r') \<and> x = Some v)"
proof -
  have second: "read_code_from (const_visitor st md h) 0 (r1, Some v) = (Ok (), (r', x)) \<longleftrightarrow>
     read_u8 r1 = (Ok END, r') \<and> x = Some v" for r1 v x
    by (subst read_code_from_unfold) (auto simp: bindM_Ok_iff const_decode_second retM_def)
  show ?thesis
    unfolding read_code_from_0
    by (subst read_code_from_unfold) (auto simp: bindM_Ok_iff const_decode_first second)
qed

lemma read_constant_iff:
  "read_constant st md h r = (Ok v, r') \<longleftrightarrow> const_expression st md h r = (Ok v, r')"
proof -
  have "read_constant st md h r = (Ok v, r') \<longleftrightarrow>
     (\<exists>x. read_code (const_visitor st md h) (r, None) = (Ok (), (r', x)) \<and> x = Some v)"
    by (auto simp: read_constant_def bindM_def onState_def getM_def unwrapM_def retM_def panicM_def
      split: prod.splits result.splits option.splits)
  also have "\<dots> \<longleftrightarrow> const_expression st md h r = (Ok v, r')"
    unfolding const_code_iff const_expression_def
    by (auto simp: bindM_Ok_iff ok_or_def errM_def retM_def split: option.splits if_splits)
  finally show ?thesis .
qed

text \<open>
  Claim C15. A constant expression is read exactly: \<open>read_constant\<close> accepts an expression, with a value
  and a position of the reader, if and only if the bytes are one of the four constant instructions or a
  \<open>global.get\<close>, followed by \<open>end\<close>, and the value is the instruction's operand or that of an immutable
  global imported from a module or from the host. A global of the module itself, a mutable one, a second
  instruction, a missing value and every other opcode are refused. From every well-formed reader it
  returns a value or an error and never panics.
\<close>

theorem read_constant_sound:
  assumes "reader_inv r"
  shows "fst (read_constant st md h r) \<noteq> Panic \<and>
    (\<forall>v r'. read_constant st md h r = (Ok v, r') \<longleftrightarrow> const_expression st md h r = (Ok v, r'))"
  using wpM_no_panic [OF read_constant_wp [OF assms]] read_constant_iff by blast

text \<open>
  \<open>i32.const 42 end\<close> is 42; \<open>global.get 0 end\<close>, the import being the global \<open>g\<close> of another module, is the
  value of \<open>g\<close> if it is immutable and nothing otherwise.
\<close>

lemma const_expression_42:
  "\<exists>r'. const_expression st md h (reader_new [Chunk [0x41, 0x2A, 0x0B]] []) = (Ok (V_I32 42), r')"
proof -
  have "sign_extend_from 25 (42 :: u32) = 42" by (simp add: sign_extend_from_def)
  moreover have "ahead (reader_new [Chunk [0x41, 0x2A, 0x0B]] []) 0 [0x41, 0x2A, 0x0B] USIZE_MAX" by (rule ahead_new) simp
  ultimately have "wpM (const_expression st md h) (\<lambda>v _. v = V_I32 42) (\<lambda>_ _. False) (reader_new [Chunk [0x41, 0x2A, 0x0B]] [])"
    by (simp add: const_expression_def const_instruction_def wp)
      (erule ahead_run; (simp add: USIZE_MAX_def control_codes wp CONTINUATION_BIT_def INTEGER_BIT_FLAG_def)?)+
  then show ?thesis by (auto simp: wpM_def split: prod.splits result.splits)
qed

definition one_global :: "store \<Rightarrow> global_var \<Rightarrow> wmodule \<Rightarrow> store" where
  "one_global st g em = st\<lparr>st_modules := [em\<lparr>md_globals := [g]\<rparr>]\<rparr>"

lemma const_expression_global:
  assumes "gt_mutable (gl_type g) = b"
  shows "wpM (const_expression (one_global st g em) (md\<lparr>md_imports := [Imp_Global 0 0]\<rparr>) h)
     (\<lambda>v _. \<not> b \<and> v = global_value g) (\<lambda>_ _. b) (reader_new [Chunk [0x23, 0x00, 0x0B]] [])"
proof -
  note ev = const_expression_def const_instruction_def control_codes wp one_global_def get_global_ref_def assms
    USIZE_MAX_def CONTINUATION_BIT_def INTEGER_BIT_FLAG_def
  have "ahead (reader_new [Chunk [0x23, 0x00, 0x0B]] []) 0 [0x23, 0x00, 0x0B] USIZE_MAX" by (rule ahead_new) simp
  then show ?thesis
    by (cases b) (simp_all add: ev, (erule ahead_run; (simp add: ev)?)+)
qed

lemma read_constant_sound_witness:
  "\<forall>st md em h g.
     (\<exists>r'. read_constant st md h (reader_new [Chunk [0x41, 0x2A, 0x0B]] []) = (Ok (V_I32 42), r')) \<and>
     ((\<exists>v r'. read_constant (one_global st g em) (md\<lparr>md_imports := [Imp_Global 0 0]\<rparr>) h
        (reader_new [Chunk [0x23, 0x00, 0x0B]] []) = (Ok v, r')) \<longleftrightarrow> \<not> gt_mutable (gl_type g))"
proof (intro allI conjI)
  fix st md em h g
  show "\<exists>r'. read_constant st md h (reader_new [Chunk [0x41, 0x2A, 0x0B]] []) = (Ok (V_I32 42), r')"
    using read_constant_sound [OF reader_inv_new [of "[Chunk [0x41, 0x2A, 0x0B]]" "[]"]] const_expression_42 by blast
  have "read_constant (one_global st g em) (md\<lparr>md_imports := [Imp_Global 0 0]\<rparr>) h (reader_new [Chunk [0x23, 0x00, 0x0B]] []) = (Ok v, r') \<longleftrightarrow>
      const_expression (one_global st g em) (md\<lparr>md_imports := [Imp_Global 0 0]\<rparr>) h (reader_new [Chunk [0x23, 0x00, 0x0B]] []) = (Ok v, r')" for v r'
    using read_constant_sound [OF reader_inv_new [of "[Chunk [0x23, 0x00, 0x0B]]" "[]"]] by blast
  then show "(\<exists>v r'. read_constant (one_global st g em) (md\<lparr>md_imports := [Imp_Global 0 0]\<rparr>) h
        (reader_new [Chunk [0x23, 0x00, 0x0B]] []) = (Ok v, r')) \<longleftrightarrow> \<not> gt_mutable (gl_type g)"
    using const_expression_global [OF refl, of st g em md h] by (auto simp: wpM_def split: prod.splits result.splits)
qed

end
