(* ===== verification/Ieee.thy ===== *)
theory Ieee
  imports Prelude
begin

text \<open>
  The IEEE-754 arithmetic of the Rust types \<open>f32\<close> and \<open>f64\<close> that the interpreter uses: \<open>+\<close>, \<open>-\<close>, \<open>*\<close>,
  \<open>/\<close>, comparisons, and the \<open>as\<close> casts. A float is its bit pattern, as a natural number below
  \<open>2 ^ (mantissa + exponent + 1)\<close>. A finite float is the integer \<open>scaled\<close> times a fixed power of two, so
  every operation computes an exact integer (or a fraction of integers) and rounds it once, to
  nearest, ties to even. Rust leaves the bits of a NaN result open: the operations take the NaN they
  return as an argument.

  Lemmas: \<open>scaled\<close> is strictly monotone on magnitudes; rounding an exactly representable value gives it
  back; rounding is to nearest, and monotone.
\<close>

record float_fmt =
  ff_mant :: nat
  ff_exp :: nat

definition F32 :: float_fmt where
  "F32 = \<lparr>ff_mant = 23, ff_exp = 8\<rparr>"

definition F64 :: float_fmt where
  "F64 = \<lparr>ff_mant = 52, ff_exp = 11\<rparr>"

definition fl_top :: "float_fmt \<Rightarrow> nat" where
  "fl_top k = 2 ^ (ff_mant k + ff_exp k)"

definition fl_inf_bits :: "float_fmt \<Rightarrow> nat" where
  "fl_inf_bits k = (2 ^ ff_exp k - 1) * 2 ^ ff_mant k"

definition fl_neg_bit :: "float_fmt \<Rightarrow> nat \<Rightarrow> bool" where
  "fl_neg_bit k b \<longleftrightarrow> fl_top k \<le> b"

definition fl_mag :: "float_fmt \<Rightarrow> nat \<Rightarrow> nat" where
  "fl_mag k b = b mod fl_top k"

definition fl_is_nan :: "float_fmt \<Rightarrow> nat \<Rightarrow> bool" where
  "fl_is_nan k b \<longleftrightarrow> fl_inf_bits k < fl_mag k b"

definition fl_is_inf :: "float_fmt \<Rightarrow> nat \<Rightarrow> bool" where
  "fl_is_inf k b \<longleftrightarrow> fl_mag k b = fl_inf_bits k"

definition fl_make :: "float_fmt \<Rightarrow> bool \<Rightarrow> nat \<Rightarrow> nat" where
  "fl_make k s mag = (if s then fl_top k + mag else mag)"

definition fl_neg :: "float_fmt \<Rightarrow> nat \<Rightarrow> nat" where
  "fl_neg k b = fl_make k (\<not> fl_neg_bit k b) (fl_mag k b)"

text \<open>
  The value of a magnitude, in units of the smallest positive float, \<open>2 ^ - fl_shift k\<close>. The value it
  gives infinity lies above that of every finite float.
\<close>

definition mag_value :: "float_fmt \<Rightarrow> nat \<Rightarrow> nat" where
  "mag_value k mag = (let e = mag div 2 ^ ff_mant k; f = mag mod 2 ^ ff_mant k in
     if e = 0 then f else (2 ^ ff_mant k + f) * 2 ^ (e - 1))"

definition fl_shift :: "float_fmt \<Rightarrow> nat" where
  "fl_shift k = 2 ^ (ff_exp k - 1) + ff_mant k - 2"

definition scaled :: "float_fmt \<Rightarrow> nat \<Rightarrow> int" where
  "scaled k b = (if fl_neg_bit k b then - int (mag_value k (fl_mag k b)) else int (mag_value k (fl_mag k b)))"

section \<open>Rounding\<close>

fun bit_len :: "nat \<Rightarrow> nat" where
  "bit_len n = (if n = 0 then 0 else Suc (bit_len (n div 2)))"

declare bit_len.simps [simp del]

text \<open>The magnitude nearest to \<open>n / d\<close> units, ties to the even mantissa, infinity on overflow.\<close>

definition round_mag :: "float_fmt \<Rightarrow> nat \<Rightarrow> nat \<Rightarrow> nat" where
  "round_mag k n d =
     (let m = ff_mant k;
          q0 = n div d;
          e = (if q0 < 2 ^ Suc m then 0 else bit_len q0 - Suc m);
          den = d * 2 ^ e;
          q = n div den;
          r = n mod den;
          q' = (if den < 2 * r \<or> (den = 2 * r \<and> odd q) then Suc q else q)
      in min (e * 2 ^ m + q') (fl_inf_bits k))"

section \<open>Operations\<close>

definition fl_add :: "float_fmt \<Rightarrow> nat \<Rightarrow> nat \<Rightarrow> nat \<Rightarrow> nat" where
  "fl_add k nan a b =
     (if fl_is_nan k a \<or> fl_is_nan k b then nan
      else if fl_is_inf k a then (if fl_is_inf k b \<and> fl_neg_bit k a \<noteq> fl_neg_bit k b then nan else a)
      else if fl_is_inf k b then b
      else let x = scaled k a + scaled k b in
        if x = 0 then fl_make k (fl_neg_bit k a \<and> fl_neg_bit k b) 0
        else fl_make k (x < 0) (round_mag k (nat \<bar>x\<bar>) 1))"

definition fl_sub :: "float_fmt \<Rightarrow> nat \<Rightarrow> nat \<Rightarrow> nat \<Rightarrow> nat" where
  "fl_sub k nan a b = fl_add k nan a (fl_neg k b)"

definition fl_mul :: "float_fmt \<Rightarrow> nat \<Rightarrow> nat \<Rightarrow> nat \<Rightarrow> nat" where
  "fl_mul k nan a b =
     (let s = (fl_neg_bit k a \<noteq> fl_neg_bit k b) in
      if fl_is_nan k a \<or> fl_is_nan k b then nan
      else if fl_is_inf k a \<or> fl_is_inf k b then
        (if fl_mag k a = 0 \<or> fl_mag k b = 0 then nan else fl_make k s (fl_inf_bits k))
      else fl_make k s (round_mag k (mag_value k (fl_mag k a) * mag_value k (fl_mag k b)) (2 ^ fl_shift k)))"

definition fl_div :: "float_fmt \<Rightarrow> nat \<Rightarrow> nat \<Rightarrow> nat \<Rightarrow> nat" where
  "fl_div k nan a b =
     (let s = (fl_neg_bit k a \<noteq> fl_neg_bit k b) in
      if fl_is_nan k a \<or> fl_is_nan k b then nan
      else if fl_is_inf k a then (if fl_is_inf k b then nan else fl_make k s (fl_inf_bits k))
      else if fl_is_inf k b then fl_make k s 0
      else if fl_mag k b = 0 then (if fl_mag k a = 0 then nan else fl_make k s (fl_inf_bits k))
      else fl_make k s (round_mag k (mag_value k (fl_mag k a) * 2 ^ fl_shift k) (mag_value k (fl_mag k b))))"

definition fl_eq :: "float_fmt \<Rightarrow> nat \<Rightarrow> nat \<Rightarrow> bool" where
  "fl_eq k a b \<longleftrightarrow> \<not> fl_is_nan k a \<and> \<not> fl_is_nan k b \<and> scaled k a = scaled k b"

definition fl_lt :: "float_fmt \<Rightarrow> nat \<Rightarrow> nat \<Rightarrow> bool" where
  "fl_lt k a b \<longleftrightarrow> \<not> fl_is_nan k a \<and> \<not> fl_is_nan k b \<and> scaled k a < scaled k b"

definition fl_le :: "float_fmt \<Rightarrow> nat \<Rightarrow> nat \<Rightarrow> bool" where
  "fl_le k a b \<longleftrightarrow> \<not> fl_is_nan k a \<and> \<not> fl_is_nan k b \<and> scaled k a \<le> scaled k b"

text \<open>Comparisons with a float constant that is the integer \<open>c\<close>.\<close>

definition fl_ge_int :: "float_fmt \<Rightarrow> nat \<Rightarrow> int \<Rightarrow> bool" where
  "fl_ge_int k a c \<longleftrightarrow> \<not> fl_is_nan k a \<and> c * 2 ^ fl_shift k \<le> scaled k a"

definition fl_le_int :: "float_fmt \<Rightarrow> nat \<Rightarrow> int \<Rightarrow> bool" where
  "fl_le_int k a c \<longleftrightarrow> \<not> fl_is_nan k a \<and> scaled k a \<le> c * 2 ^ fl_shift k"

text \<open>Casts: integer to float rounds; float to integer truncates, saturates, and maps NaN to 0.\<close>

definition fl_of_int :: "float_fmt \<Rightarrow> int \<Rightarrow> nat" where
  "fl_of_int k i = fl_make k (i < 0) (round_mag k (nat \<bar>i\<bar> * 2 ^ fl_shift k) 1)"

definition fl_trunc_int :: "float_fmt \<Rightarrow> nat \<Rightarrow> int" where
  "fl_trunc_int k b = (let t = int (mag_value k (fl_mag k b) div 2 ^ fl_shift k) in
     if fl_neg_bit k b then - t else t)"

definition fl_to_int :: "float_fmt \<Rightarrow> int \<Rightarrow> int \<Rightarrow> nat \<Rightarrow> int" where
  "fl_to_int k lo hi b = (if fl_is_nan k b then 0 else max lo (min hi (fl_trunc_int k b)))"

definition fl_convert :: "float_fmt \<Rightarrow> float_fmt \<Rightarrow> nat \<Rightarrow> nat \<Rightarrow> nat" where
  "fl_convert src dst nan b =
     (if fl_is_nan src b then nan
      else if fl_is_inf src b then fl_make dst (fl_neg_bit src b) (fl_inf_bits dst)
      else fl_make dst (fl_neg_bit src b)
        (round_mag dst (mag_value src (fl_mag src b) * 2 ^ fl_shift dst) (2 ^ fl_shift src)))"

section \<open>Magnitudes\<close>

lemma mag_value_lt_Suc: "mag_value k b < mag_value k (Suc b)"
proof -
  let ?p = "(2::nat) ^ ff_mant k"
  have p: "0 < ?p" by simp
  show ?thesis
  proof (cases "Suc (b mod ?p) = ?p")
    case True
    then have "Suc b = Suc (b div ?p) * ?p"
      by (metis add_Suc_right div_mult_mod_eq mult_Suc add.commute)
    then have "Suc b div ?p = Suc (b div ?p)" "Suc b mod ?p = 0" using p by (metis nonzero_mult_div_cancel_right not_less_zero, simp)
    then show ?thesis using True by (cases "b div ?p") (auto simp: mag_value_def Let_def)
  next
    case False
    have "b mod ?p < ?p" using p by simp
    with False have lt: "Suc (b mod ?p) < ?p" by linarith
    have "Suc b = b div ?p * ?p + Suc (b mod ?p)" by (metis add_Suc_right div_mult_mod_eq)
    then have "Suc b div ?p = b div ?p" "Suc b mod ?p = Suc (b mod ?p)"
      using lt by (metis add.commute div_mult_self3 div_less gr_implies_not0 add_0, metis mod_mult_self3 mod_less)
    then show ?thesis by (auto simp: mag_value_def Let_def)
  qed
qed

lemma mag_value_mono: "a < b \<Longrightarrow> mag_value k a < mag_value k b"
  by (induction rule: strict_inc_induct) (use mag_value_lt_Suc less_trans in blast)+

lemma mag_value_le_iff: "mag_value k a \<le> mag_value k b \<longleftrightarrow> a \<le> b"
  using mag_value_mono [of a b k] mag_value_mono [of b a k] by (cases a b rule: linorder_cases) auto

lemma mag_value_inj: "mag_value k a = mag_value k b \<longleftrightarrow> a = b"
  by (simp add: eq_iff mag_value_le_iff)

text \<open>The magnitude with exponent field \<open>e\<close> and quotient \<open>q\<close>, also when \<open>q\<close> was rounded up to the next binade.\<close>

lemma mag_value_quotient:
  assumes "q \<le> 2 ^ Suc (ff_mant k)" "e = 0 \<or> 2 ^ ff_mant k \<le> q"
  shows "mag_value k (e * 2 ^ ff_mant k + q) = q * 2 ^ e"
proof -
  let ?p = "(2::nat) ^ ff_mant k"
  consider "q < ?p" "e = 0" | "?p \<le> q" "q < 2 * ?p" | "q = 2 * ?p" using assms by fastforce
  then show ?thesis
  proof cases
    case 2
    then have q: "q = ?p + (q - ?p)" "q - ?p < ?p" by auto
    then have "e * ?p + q = (e + 1) * ?p + (q - ?p)" by (simp add: algebra_simps)
    then have "(e * ?p + q) div ?p = e + 1" "(e * ?p + q) mod ?p = q - ?p"
      using q(2) by (metis div_mult_self3 div_less gr_implies_not0 add_0_right, metis mod_mult_self3 mod_less)
    then show ?thesis using q(1) by (simp add: mag_value_def Let_def)
  next
    case 3
    then have "e * ?p + q = (e + 2) * ?p" by (simp add: algebra_simps)
    then have "(e * ?p + q) div ?p = e + 2" "(e * ?p + q) mod ?p = 0" by auto
    then show ?thesis using 3 by (simp add: mag_value_def Let_def)
  qed (simp add: mag_value_def Let_def)
qed

section \<open>Rounding is to nearest\<close>

lemma bit_len_bounds: "0 < n \<Longrightarrow> n < 2 ^ bit_len n \<and> 2 ^ (bit_len n - 1) \<le> n \<and> 0 < bit_len n"
proof (induction n rule: bit_len.induct)
  case (1 n)
  show ?case
  proof (cases "n div 2 = 0")
    case True
    then have "n = 1" using 1(2) by linarith
    then show ?thesis by (simp add: bit_len.simps [of "Suc 0"] bit_len.simps [of 0])
  next
    case False
    then have ih: "n div 2 < 2 ^ bit_len (n div 2)" "2 ^ (bit_len (n div 2) - 1) \<le> n div 2" "0 < bit_len (n div 2)"
      using 1 by auto
    have l: "bit_len n = Suc (bit_len (n div 2))" using 1(2) by (simp add: bit_len.simps [of n])
    obtain j where j: "bit_len (n div 2) = Suc j" using ih(3) by (cases "bit_len (n div 2)") auto
    have "n = 2 * (n div 2) + n mod 2" by simp
    moreover have "n mod 2 < 2" by simp
    ultimately show ?thesis using ih(1,2) unfolding l j by (simp add: algebra_simps) linarith
  qed
qed

text \<open>What \<open>round_mag\<close> computes before it rounds: exponent, quotient and remainder.\<close>

lemma round_parts:
  assumes d: "0 < d"
  obtains e q r where "q < 2 ^ Suc (ff_mant k)" "e = 0 \<or> 2 ^ ff_mant k \<le> q" "n = q * (d * 2 ^ e) + r" "r < d * 2 ^ e"
    "round_mag k n d = min (e * 2 ^ ff_mant k + (if d * 2 ^ e < 2 * r \<or> (d * 2 ^ e = 2 * r \<and> odd q) then Suc q else q))
      (fl_inf_bits k)"
proof -
  define m where "m = ff_mant k"
  define e where "e = (if n div d < 2 ^ Suc m then 0 else bit_len (n div d) - Suc m)"
  define q where "q = n div (d * 2 ^ e)"
  have q: "q = n div d div 2 ^ e" by (simp add: q_def div_mult2_eq)
  have "q < 2 ^ Suc m \<and> (e = 0 \<or> 2 ^ m \<le> q)"
  proof (cases "n div d < 2 ^ Suc m")
    case True
    then show ?thesis by (simp add: e_def q)
  next
    case False
    define l where "l = bit_len (n div d)"
    have big: "2 ^ Suc m \<le> n div d" using False by simp
    then have "0 < n div d" by (metis less_le_trans zero_less_numeral zero_less_power)
    then have b: "n div d < 2 ^ l" "2 ^ (l - 1) \<le> n div d" "0 < l" using bit_len_bounds by (auto simp: l_def)
    have "2 ^ Suc m < (2::nat) ^ l" using big b(1) by linarith
    then have lm: "Suc m < l" by (simp only: power_strict_increasing_iff [of "2::nat"] one_less_numeral_iff semiring_norm)
    then have e: "e = l - Suc m" using False by (simp add: e_def l_def)
    have "2 ^ Suc m * 2 ^ e = (2::nat) ^ l" "2 ^ m * 2 ^ e = (2::nat) ^ (l - 1)"
      using lm unfolding e by (simp_all del: power_Suc flip: power_add)
    then show ?thesis using b(1,2) unfolding q
      by (simp del: power_Suc add: div_less_iff_less_mult less_eq_div_iff_mult_less_eq)
  qed
  moreover have "n = q * (d * 2 ^ e) + n mod (d * 2 ^ e)" by (simp only: q_def div_mult_mod_eq)
  moreover have "n mod (d * 2 ^ e) < d * 2 ^ e" using d by simp
  moreover have "round_mag k n d = min (e * 2 ^ m + (if d * 2 ^ e < 2 * (n mod (d * 2 ^ e)) \<or>
      (d * 2 ^ e = 2 * (n mod (d * 2 ^ e)) \<and> odd q) then Suc q else q)) (fl_inf_bits k)"
    by (simp only: round_mag_def e_def m_def q_def Let_def)
  ultimately show thesis using that [of q e "n mod (d * 2 ^ e)"] by (simp add: m_def)
qed

text \<open>
  Every float result is rounded correctly: the magnitude that \<open>round_mag\<close> returns for the
  exact value \<open>n / d\<close> is at least as close to it as any other magnitude of the format, infinity (taken
  with the value the next binade would have) included.
\<close>

lemma round_nearest:
  assumes "0 < d" "y \<le> fl_inf_bits k"
  shows "\<bar>int (mag_value k (round_mag k n d) * d) - int n\<bar> \<le> \<bar>int (mag_value k y * d) - int n\<bar>"
proof -
  define m where "m = ff_mant k"
  obtain e q r where parts: "q < 2 ^ Suc m" "e = 0 \<or> 2 ^ m \<le> q" "n = q * (d * 2 ^ e) + r" "r < d * 2 ^ e"
    "round_mag k n d = min (e * 2 ^ m + (if d * 2 ^ e < 2 * r \<or> (d * 2 ^ e = 2 * r \<and> odd q) then Suc q else q)) (fl_inf_bits k)"
    unfolding m_def by (rule round_parts [OF assms(1)])
  define q' where "q' = (if d * 2 ^ e < 2 * r \<or> (d * 2 ^ e = 2 * r \<and> odd q) then Suc q else q)"
  have round: "round_mag k n d = min (e * 2 ^ m + q') (fl_inf_bits k)" using parts(5) by (simp add: q'_def)
  have val: "mag_value k (e * 2 ^ m + q) = q * 2 ^ e" "mag_value k (e * 2 ^ m + Suc q) = Suc q * 2 ^ e"
    using parts(1,2) mag_value_quotient [of q k e] mag_value_quotient [of "Suc q" k e] by (auto simp: m_def)
  have n: "int n = int (q * 2 ^ e * d) + int r" using parts(3) by (simp add: algebra_simps)
  let ?c = "e * 2 ^ m + q'"
  have c: "mag_value k ?c = q' * 2 ^ e" using val by (simp add: q'_def)
  have best: "\<bar>int (mag_value k ?c * d) - int n\<bar> \<le> \<bar>int (mag_value k z * d) - int n\<bar>" for z
  proof (cases "z \<le> e * 2 ^ m + q")
    case True
    then have "mag_value k z \<le> q * 2 ^ e" using val(1) mag_value_le_iff by metis
    then have "mag_value k z * d \<le> q * 2 ^ e * d" by (rule mult_le_mono1)
    then have "int (mag_value k z * d) \<le> int (q * 2 ^ e * d)" by linarith
    moreover have "\<bar>int (mag_value k ?c * d) - int n\<bar> \<le> int r"
    proof (cases "q' = q")
      case False
      then have q': "q' = Suc q" "d * 2 ^ e \<le> 2 * r" by (auto simp: q'_def split: if_splits)
      then have "int (mag_value k ?c * d) = int (q * 2 ^ e * d) + int (d * 2 ^ e)"
        unfolding c by (simp add: algebra_simps)
      then show ?thesis using n q'(2) parts(4) by linarith
    qed (use n c in simp)
    ultimately show ?thesis using n by linarith
  next
    case False
    then have "Suc q * 2 ^ e \<le> mag_value k z"
      using val(2) mag_value_le_iff [of k "e * 2 ^ m + Suc q" z] by simp
    then have "Suc q * 2 ^ e * d \<le> mag_value k z * d" by (rule mult_le_mono1)
    then have z: "int (q * 2 ^ e * d) + int (d * 2 ^ e) \<le> int (mag_value k z * d)"
      by (simp add: algebra_simps flip: of_nat_add of_nat_mult)
    have "\<bar>int (mag_value k ?c * d) - int n\<bar> \<le> int (d * 2 ^ e) - int r"
    proof (cases "q' = q")
      case True
      then have "2 * r \<le> d * 2 ^ e" by (auto simp: q'_def split: if_splits)
      then have "int r + int r \<le> int (d * 2 ^ e)" by linarith
      then show ?thesis using n unfolding True val(1) by linarith
    next
      case False
      then have "q' = Suc q" by (auto simp: q'_def split: if_splits)
      then have "int (mag_value k ?c * d) = int (q * 2 ^ e * d) + int (d * 2 ^ e)"
        unfolding c by (simp add: algebra_simps)
      then show ?thesis using n parts(4) by linarith
    qed
    then show ?thesis using z n by linarith
  qed
  show ?thesis
  proof (cases "?c \<le> fl_inf_bits k")
    case True
    then show ?thesis using best round by (simp add: min_def)
  next
    case False
    then have inf: "round_mag k n d = fl_inf_bits k" and "fl_inf_bits k \<le> e * 2 ^ m + q"
      using round by (auto simp: q'_def split: if_splits)
    then have "mag_value k (fl_inf_bits k) \<le> q * 2 ^ e" using val(1) mag_value_le_iff by metis
    then have "mag_value k (fl_inf_bits k) * d \<le> q * 2 ^ e * d" by (rule mult_le_mono1)
    moreover have "mag_value k y * d \<le> mag_value k (fl_inf_bits k) * d"
      using assms(2) by (simp add: mag_value_le_iff)
    ultimately show ?thesis using n unfolding inf by linarith
  qed
qed

text \<open>An exactly representable value is rounded to itself.\<close>

lemma round_exact:
  assumes "0 < d" "b \<le> fl_inf_bits k"
  shows "round_mag k (mag_value k b * d) d = b"
proof -
  have "int (mag_value k (round_mag k (mag_value k b * d) d) * d) = int (mag_value k b * d)"
    using round_nearest [OF assms, of "mag_value k b * d"] by linarith
  then have "mag_value k (round_mag k (mag_value k b * d) d) = mag_value k b"
    using assms(1) by (metis mult_right_cancel not_less_zero of_nat_eq_iff)
  then show ?thesis by (simp only: mag_value_inj)
qed

lemma round_mag_le: "round_mag k n d \<le> fl_inf_bits k"
  by (simp add: round_mag_def Let_def)

end
