(* ===== verification/Engine.thy ===== *)
theory Engine
  imports Module_Data Stack Ieee
begin

text \<open>
  The engine (src/engine.rs, the \<open>impl Engine\<close> of src/store.rs) and the part of src/interpreter.rs that
  enters and leaves functions: \<open>call_impl\<close>, \<open>invoke\<close>, \<open>resume\<close>, \<open>return_\<close> and \<open>br_impl\<close>. The record
  \<open>engine\<close> has the fields of the Rust struct; the reference-counted memory and table in use are their
  addresses in the store. \<open>en_host\<close> is the state of the embedder, which its functions and globals may
  read and change.

  \<open>host_api\<close> collects what the embedder and third-party code provide: the host functions (which get the
  whole engine and may panic), the host globals, the allocator's answer when a memory grows, the functions of the
  \<open>libm\<close> crate, and the NaN that a float operation returns.

  Lemmas: \<open>return_\<close> undoes \<open>call_impl\<close>; a refused \<open>invoke\<close> leaves an idle engine; \<open>resume\<close> accepts
  exactly the value the paused host function declared.
\<close>

datatype trap_reason =
    TR_Unreachable | TR_Host | TR_DivideByZero | TR_InvalidTableIndex | TR_InvalidTableFunctionType
  | TR_UninitializedTableElement | TR_GlobalGetFailed | TR_GlobalSetFailed | TR_OutOfMemory
  | TR_MemoryRefNotUnique | TR_MemoryOutOfBounds | TR_StackOverflow | TR_UnrepresentableResult
  | TR_IntegerOverflow | TR_BadConversionToInteger | TR_MalformedIr

datatype interp_break = IB_Finished | IB_Trap trap_reason | IB_Pause

datatype interp_result = IR_Finished | IR_Trap trap_reason | IR_Pause | IR_OutOfFuel

datatype invoke_error = IE_ParamLenMismatch | IE_ParamTypeMismatch | IE_StackOverflow | IE_Busy

datatype resume_error = RE_NotPaused | RE_ResultTypeMismatch

datatype host_outcome = HO_Continue "wasm_value option" | HO_Trap | HO_Pause

record 'h engine =
  en_pc :: jump_target
  en_jumped :: bool
  en_fp :: u32
  en_sp :: nat
  en_stack :: stack
  en_memory :: nat
  en_table :: nat
  en_module :: u8
  en_store :: store
  en_pause :: "result_type option"
  en_result :: "raw_value option"
  en_host :: 'h

type_synonym ('h, 'a) em = "('h engine, 'a, interp_break) m"

record libm =
  lm_abs :: "float_fmt \<Rightarrow> nat \<Rightarrow> nat"
  lm_ceil :: "float_fmt \<Rightarrow> nat \<Rightarrow> nat"
  lm_floor :: "float_fmt \<Rightarrow> nat \<Rightarrow> nat"
  lm_trunc :: "float_fmt \<Rightarrow> nat \<Rightarrow> nat"
  lm_rint :: "float_fmt \<Rightarrow> nat \<Rightarrow> nat"
  lm_sqrt :: "float_fmt \<Rightarrow> nat \<Rightarrow> nat"
  lm_copysign :: "float_fmt \<Rightarrow> nat \<Rightarrow> nat \<Rightarrow> nat"
  lm_nan :: "float_fmt \<Rightarrow> nat \<Rightarrow> nat \<Rightarrow> nat"

record 'h host_api =
  ha_call :: "u8 \<Rightarrow> u16 \<Rightarrow> wasm_value list \<Rightarrow> ('h engine, host_outcome, unit) m"
  ha_read :: "u8 \<Rightarrow> u16 \<Rightarrow> 'h \<Rightarrow> wasm_value option"
  ha_write :: "u8 \<Rightarrow> u16 \<Rightarrow> wasm_value \<Rightarrow> 'h \<Rightarrow> bool \<times> 'h"
  ha_alloc :: alloc_response
  ha_libm :: libm

section \<open>Creating and resetting\<close>

definition map_errR :: "('e \<Rightarrow> 'f) \<Rightarrow> ('a, 'e) result \<Rightarrow> ('a, 'f) result" where
  "map_errR f r = (case r of Ok a \<Rightarrow> Ok a | Err e \<Rightarrow> Err (f e) | Panic \<Rightarrow> Panic)"

definition engine_new ::
  "alloc_error option list \<Rightarrow> (nat \<Rightarrow> (nat \<Rightarrow> u32, alloc_error) result) \<Rightarrow> nat \<Rightarrow> nat \<Rightarrow> host_module list \<Rightarrow>
    memory rc_cell list \<Rightarrow> table_element list rc_cell list \<Rightarrow> 'h \<Rightarrow> ('h engine, memory_error) result"
where
  "engine_new al alloc stack_size max_modules hosts mems tabs h =
     bindR (map_errR memory_error_from_alloc (from_host_modules al max_modules hosts mems tabs)) (\<lambda>st.
     bindR (map_errR memory_error_from_alloc (stack_new alloc stack_size)) (\<lambda>stk.
     Ok \<lparr>en_pc = SENTINEL, en_jumped = False, en_fp = 0, en_sp = 0, en_stack = stk, en_memory = 0,
       en_table = 0, en_module = 0, en_store = st, en_pause = None, en_result = None, en_host = h\<rparr>))"

definition clear_memory :: "'h engine \<Rightarrow> 'h engine" where
  "clear_memory s = s\<lparr>en_memory := 0\<rparr>"

definition clear_table :: "'h engine \<Rightarrow> 'h engine" where
  "clear_table s = s\<lparr>en_table := 0\<rparr>"

definition engine_reset :: "'h engine \<Rightarrow> 'h engine" where
  "engine_reset s = clear_table (clear_memory
     (s\<lparr>en_pc := SENTINEL, en_sp := 0, en_fp := 0, en_jumped := False, en_result := None, en_pause := None\<rparr>))"

definition is_idle :: "'h engine \<Rightarrow> bool" where
  "is_idle s \<longleftrightarrow> en_pc s = SENTINEL"

definition engine_push_module :: "wmodule \<Rightarrow> ('h engine, u8, alloc_error) m" where
  "engine_push_module md = (\<lambda>s. case store_push_module md (en_store s) of
     (r, st) \<Rightarrow> (r, s\<lparr>en_store := st\<rparr>))"

definition needs_start :: "'h engine \<Rightarrow> u8 \<Rightarrow> (bool, 'e) result" where
  "needs_start s i = bindR (at (st_modules (en_store s)) (unat i)) (\<lambda>md. Ok (md_start md \<noteq> None))"

definition module_start :: "'h engine \<Rightarrow> u8 \<Rightarrow> (wasm_ref option, 'e) result" where
  "module_start s i = (case get_opt (st_modules (en_store s)) (unat i) of
     None \<Rightarrow> Ok None
   | Some md \<Rightarrow> (case md_start md of
       None \<Rightarrow> Ok None
     | Some (Ref_Module index) \<Rightarrow> Ok (Some \<lparr>wr_module = i, wr_index = index\<rparr>)
     | Some (Ref_Extern md' index) \<Rightarrow> Ok (Some \<lparr>wr_module = md', wr_index = index\<rparr>)
     | Some (Ref_Host _ _) \<Rightarrow> Panic))"

section \<open>The stack of the engine\<close>

definition onStack :: "(stack, 'a, 'e) m \<Rightarrow> ('h engine, 'a, 'e) m" where
  "onStack f = (\<lambda>s. case f (en_stack s) of (r, st) \<Rightarrow> (r, s\<lparr>en_stack := st\<rparr>))"

definition rd32 :: "nat \<Rightarrow> ('h engine, u32, 'e) m" where
  "rd32 a = onStack (stack_read_u32 a)"

definition rd64 :: "nat \<Rightarrow> ('h engine, u64, 'e) m" where
  "rd64 a = onStack (stack_read_u64 a)"

definition wr32 :: "nat \<Rightarrow> u32 \<Rightarrow> ('h engine, unit, 'e) m" where
  "wr32 a v = onStack (stack_write_u32 a v)"

definition wr64 :: "nat \<Rightarrow> u64 \<Rightarrow> ('h engine, unit, 'e) m" where
  "wr64 a v = onStack (stack_write_u64 a v)"

text \<open>\<open>state.sp - n\<close>, \<open>state.sp -= n\<close> and \<open>state.sp += n\<close>.\<close>

definition sp_minus :: "nat \<Rightarrow> ('h engine, nat, 'e) m" where
  "sp_minus n = bindM (getM en_sp) (\<lambda>sp. if sp < n then panicM else retM (sp - n))"

definition sp_sub :: "nat \<Rightarrow> ('h engine, unit, 'e) m" where
  "sp_sub n = bindM (sp_minus n) (\<lambda>sp. modifyM (\<lambda>s. s\<lparr>en_sp := sp\<rparr>))"

definition sp_add :: "nat \<Rightarrow> ('h engine, unit, 'e) m" where
  "sp_add n = modifyM (\<lambda>s. s\<lparr>en_sp := en_sp s + n\<rparr>)"

text \<open>Write a value on top of the stack.\<close>

definition push32 :: "u32 \<Rightarrow> ('h engine, unit, 'e) m" where
  "push32 v = bindM (getM en_sp) (\<lambda>sp. thenM (wr32 sp v) (sp_add 1))"

definition push64 :: "u64 \<Rightarrow> ('h engine, unit, 'e) m" where
  "push64 v = bindM (getM en_sp) (\<lambda>sp. thenM (wr64 sp v) (sp_add 2))"

definition push_value :: "wasm_value \<Rightarrow> ('h engine, unit, 'e) m" where
  "push_value v = (case v of
     V_I32 n \<Rightarrow> push32 n | V_I64 n \<Rightarrow> push64 n | V_F32 z \<Rightarrow> push32 z | V_F64 z \<Rightarrow> push64 z)"

section \<open>Calls\<close>

text \<open>\<open>CallFrame\<close>, laid out in a \<open>u32\<close> from its low byte.\<close>

record call_frame =
  fr_length :: u16
  fr_module_delta :: u8
  fr_param_size :: u8

definition frame_into_bits :: "call_frame \<Rightarrow> u32" where
  "frame_into_bits f = ucast (fr_length f) OR push_bit 16 (ucast (fr_module_delta f)) OR
     push_bit 24 (ucast (fr_param_size f))"

definition frame_from_bits :: "u32 \<Rightarrow> call_frame" where
  "frame_from_bits b = \<lparr>fr_length = ucast b, fr_module_delta = ucast (drop_bit 16 b),
     fr_param_size = ucast (drop_bit 24 b)\<rparr>"

text \<open>The memory and the table of the current module become those in use.\<close>

definition load_context :: "('h engine, unit, 'e) m" where
  "load_context =
     bindM (getM (\<lambda>s. get_memory (en_store s) (en_module s))) (\<lambda>r. bindM (unwrapM r) (\<lambda>mem.
     thenM (modifyM (\<lambda>s. s\<lparr>en_memory := mem\<rparr>))
     (bindM (getM (\<lambda>s. get_table (en_store s) (en_module s))) (\<lambda>r. bindM (unwrapM r) (\<lambda>tab.
      modifyM (\<lambda>s. s\<lparr>en_table := tab\<rparr>))))))"

definition get_func :: "'h engine \<Rightarrow> u8 \<Rightarrow> u16 \<Rightarrow> (wmodule \<times> func) option" where
  "get_func s md i = Option.bind (get_opt (st_modules (en_store s)) (unat md)) (\<lambda>m.
     map_option (Pair m) (get_opt (md_functions m) (unat i)))"

fun zero_locals :: "nat \<Rightarrow> nat \<Rightarrow> ('h, unit) em" where
  "zero_locals 0 a = retM ()"
| "zero_locals (Suc n) a = thenM (wr32 a 0) (zero_locals n (Suc a))"

definition call_impl :: "u8 \<Rightarrow> u16 \<Rightarrow> ('h, unit) em" where
  "call_impl module_delta index =
     bindM (getM (\<lambda>s. get_func s (en_module s) index)) (\<lambda>r. bindM (unwrapM r) (\<lambda>(_, f).
     bindM (getM id) (\<lambda>s.
     if length (en_stack s) < en_sp s + required_stack_words f then errM (IB_Trap TR_StackOverflow)
     else if en_sp s < unat (en_fp s) then panicM
     else let frame = \<lparr>fr_length = word_of_nat (en_sp s - unat (en_fp s)), fr_module_delta = module_delta,
                        fr_param_size = fn_param_size f\<rparr> in
       thenM (wr32 (en_sp s) (frame_into_bits frame))
       (thenM (wr32 (en_sp s + 1) (jt_addr (en_pc s)))
       (thenM (modifyM (\<lambda>s. s\<lparr>en_fp := word_of_nat (en_sp s)\<rparr>))
       (thenM (zero_locals (unat (fn_local_size f)) (en_sp s + 2))
       (thenM (sp_add (2 + unat (fn_local_size f)))
       (modifyM (\<lambda>s. s\<lparr>en_pc := fn_expr f, en_jumped := True\<rparr>)))))))))"

definition call_impl_enter_module :: "wasm_ref \<Rightarrow> ('h, unit) em" where
  "call_impl_enter_module f_ref =
     bindM (getM en_module) (\<lambda>cur.
     if wr_module f_ref = cur then call_impl 0 (wr_index f_ref)
     else let delta = wr_module f_ref - cur in
       thenM (modifyM (\<lambda>s. s\<lparr>en_module := wr_module f_ref\<rparr>))
       (thenM load_context (call_impl delta (wr_index f_ref))))"

section \<open>Invoke and resume\<close>

text \<open>The loop over the parameters; a value of another type resets the stack pointer.\<close>

fun push_params :: "wasm_value list \<Rightarrow> val_type list \<Rightarrow> ('h engine, unit, invoke_error) m" where
  "push_params (V_I32 v # vs) (T_I32 # ts) = thenM (push32 v) (push_params vs ts)"
| "push_params (V_I64 v # vs) (T_I64 # ts) = thenM (push64 v) (push_params vs ts)"
| "push_params (V_F32 v # vs) (T_F32 # ts) = thenM (push32 v) (push_params vs ts)"
| "push_params (V_F64 v # vs) (T_F64 # ts) = thenM (push64 v) (push_params vs ts)"
| "push_params (_ # _) (_ # _) = thenM (modifyM (\<lambda>s. s\<lparr>en_sp := 0\<rparr>)) (errM IE_ParamTypeMismatch)"
| "push_params _ _ = retM ()"

text \<open>\<open>expect\<close>: an error of the call is a panic.\<close>

definition expectM :: "('s, 'a, 'e) m \<Rightarrow> ('s, 'a, 'f) m" where
  "expectM f = (\<lambda>s. case f s of (Ok a, t) \<Rightarrow> (Ok a, t) | (Err e, t) \<Rightarrow> (Panic, t) | (Panic, t) \<Rightarrow> (Panic, t))"

definition invoke :: "wasm_ref \<Rightarrow> wasm_value list \<Rightarrow> ('h engine, unit, invoke_error) m" where
  "invoke f_ref params =
     bindM (getM id) (\<lambda>s.
     if en_pc s \<noteq> SENTINEL \<or> en_sp s \<noteq> 0 \<or> en_fp s \<noteq> 0 then errM IE_Busy
     else bindM (unwrapM (get_func s (wr_module f_ref) (wr_index f_ref))) (\<lambda>(m, f).
     bindM (unwrapM (get_opt (md_types m) (unat (fn_ty f)))) (\<lambda>ty.
     if length (ft_params ty) \<noteq> length params then errM IE_ParamLenMismatch
     else if length (en_stack s) < (\<Sum>t\<leftarrow>ft_params ty. val_type_size t div 4) + required_stack_words f
     then errM IE_StackOverflow
     else thenM (push_params params (ft_params ty))
       (thenM (modifyM (\<lambda>s. s\<lparr>en_module := wr_module f_ref\<rparr>))
       (thenM load_context
       (thenM (expectM (call_impl 0 (wr_index f_ref)))
       (modifyM (\<lambda>s. s\<lparr>en_jumped := False, en_result := None\<rparr>))))))))"

definition resume :: "wasm_value option \<Rightarrow> ('h engine, unit, resume_error) m" where
  "resume v =
     bindM (getM en_pause) (\<lambda>p.
     thenM (modifyM (\<lambda>s. s\<lparr>en_pause := None\<rparr>))
     (case p of
        None \<Rightarrow> errM RE_NotPaused
      | Some ty \<Rightarrow> (case (ty, v) of
          (Some T_F32, Some (V_F32 z)) \<Rightarrow> push32 z
        | (Some T_F64, Some (V_F64 z)) \<Rightarrow> push64 z
        | (Some T_I32, Some (V_I32 n)) \<Rightarrow> push32 n
        | (Some T_I64, Some (V_I64 n)) \<Rightarrow> push64 n
        | (None, None) \<Rightarrow> retM ()
        | _ \<Rightarrow> thenM (modifyM (\<lambda>s. s\<lparr>en_pause := Some ty\<rparr>)) (errM RE_ResultTypeMismatch))))"

section \<open>Returns and branches\<close>

fun copy_words :: "nat \<Rightarrow> nat \<Rightarrow> nat \<Rightarrow> ('h, unit) em" where
  "copy_words 0 src dst = retM ()"
| "copy_words (Suc n) src dst = bindM (rd32 src) (\<lambda>v. thenM (wr32 dst v) (copy_words n (Suc src) (Suc dst)))"

definition target_plus :: "jump_target \<Rightarrow> u32 \<Rightarrow> jump_target" where
  "target_plus t n = JumpTarget (jt_addr t + n)"

definition return_result :: "nat \<Rightarrow> ('h, raw_value) em" where
  "return_result n = bindM (getM en_sp) (\<lambda>sp.
     if n = 0 then retM (raw_from_64 0)
     else if n = 1 then bindM (rd32 sp) (\<lambda>v. retM (raw_from_32 v))
     else if n = 2 then bindM (rd64 sp) (\<lambda>v. retM (raw_from_64 v))
     else panicM)"

text \<open>The end of \<open>return_\<close>: leave the context of a module, then finish or go on after the call.\<close>

definition restore_module :: "u8 \<Rightarrow> ('h, unit) em" where
  "restore_module delta = whenM (delta \<noteq> 0)
     (thenM (modifyM (\<lambda>s. s\<lparr>en_module := en_module s - delta\<rparr>)) load_context)"

definition return_jump :: "nat \<Rightarrow> nat \<Rightarrow> jump_target \<Rightarrow> ('h, unit) em" where
  "return_jump n start ret =
     (if ret = SENTINEL then
        thenM (modifyM (\<lambda>s. s\<lparr>en_sp := start, en_pc := SENTINEL, en_jumped := True\<rparr>))
        (bindM (return_result n) (\<lambda>v.
        thenM (modifyM (\<lambda>s. s\<lparr>en_result := Some v\<rparr>)) (errM IB_Finished)))
      else modifyM (\<lambda>s. s\<lparr>en_sp := start + n, en_pc := target_plus ret 2, en_jumped := True\<rparr>))"

definition return_impl :: "u8 \<Rightarrow> ('h, unit) em" where
  "return_impl return_size =
     bindM (getM (\<lambda>s. unat (en_fp s))) (\<lambda>fp.
     bindM (rd32 (fp + 1)) (\<lambda>ret.
     bindM (rd32 fp) (\<lambda>bits.
     let frame = frame_from_bits bits;
         return_fp = word_of_nat fp - ucast (fr_length frame);
         n = unat return_size in
     if fp < unat (fr_param_size frame) then panicM
     else let start = fp - unat (fr_param_size frame) in
       thenM (if n = 0 then retM () else bindM (sp_minus n) (\<lambda>src. copy_words n src start))
       (thenM (modifyM (\<lambda>s. s\<lparr>en_fp := return_fp\<rparr>))
       (thenM (restore_module (fr_module_delta frame))
       (return_jump n start (JumpTarget ret)))))))"

definition br_impl :: "jump_offset \<Rightarrow> label_target \<Rightarrow> ('h, unit) em" where
  "br_impl label_pc_offset l =
     bindM (unwrapM (arity_of l)) (\<lambda>arity.
     if is_sentinel l then
       return_impl (case arity of LA_None \<Rightarrow> 0 | LA_I32 \<Rightarrow> 1 | LA_I64 \<Rightarrow> 2)
     else let depth = unat (depth_of l) in
       thenM (sp_sub depth)
       (bindM (getM en_sp) (\<lambda>sp.
       thenM (case arity of
           LA_None \<Rightarrow> retM ()
         | LA_I32 \<Rightarrow>
             if sp + depth < 1 then panicM
             else bindM (rd32 (sp + depth - 1)) (\<lambda>w. thenM (wr32 sp w) (sp_add 1))
         | LA_I64 \<Rightarrow>
             if sp + depth < 2 then panicM
             else bindM (rd32 (sp + depth - 2)) (\<lambda>w1. bindM (rd32 (sp + depth - 1)) (\<lambda>w2.
               thenM (wr32 sp w1) (thenM (wr32 (sp + 1) w2) (sp_add 2)))))
       (modifyM (\<lambda>s. s\<lparr>en_pc := target_add (target_add (en_pc s) label_pc_offset) (label_jump l),
          en_jumped := True\<rparr>)))))"

section \<open>Weakest preconditions\<close>

lemma wpM_onStack: "wpM (onStack f) Q E s =
    wpM f (\<lambda>a st. Q a (s\<lparr>en_stack := st\<rparr>)) (\<lambda>e st. E e (s\<lparr>en_stack := st\<rparr>)) (en_stack s)"
  by (auto simp: wpM_def onStack_def split: prod.splits result.splits)

lemma wpM_words [wp]:
  "wpM (rd32 a) Q E s = (a < length (en_stack s) \<and> Q (load32 (en_stack s) a) s)"
  "wpM (rd64 a) Q' E s = (Suc a < length (en_stack s) \<and> Q' (load64 (en_stack s) a) s)"
  "wpM (wr32 a v) U E s = (a < length (en_stack s) \<and> U () (s\<lparr>en_stack := put32 (en_stack s) a v\<rparr>))"
  "wpM (wr64 a w) U E s = (Suc a < length (en_stack s) \<and> U () (s\<lparr>en_stack := put64 (en_stack s) a w\<rparr>))"
  by (simp_all add: rd32_def rd64_def wr32_def wr64_def wpM_onStack wpM_stack)

lemma wpM_sp [wp]:
  "wpM (sp_minus n) Q E s = (n \<le> en_sp s \<and> Q (en_sp s - n) s)"
  "wpM (sp_sub n) U E s = (n \<le> en_sp s \<and> U () (s\<lparr>en_sp := en_sp s - n\<rparr>))"
  "wpM (sp_add n) U E s = U () (s\<lparr>en_sp := en_sp s + n\<rparr>)"
  by (auto simp: sp_minus_def sp_sub_def sp_add_def wp)

lemma wpM_push [wp]:
  "wpM (push32 v) U E s = (en_sp s < length (en_stack s) \<and>
     U () (s\<lparr>en_stack := put32 (en_stack s) (en_sp s) v, en_sp := en_sp s + 1\<rparr>))"
  "wpM (push64 w) U E s = (Suc (en_sp s) < length (en_stack s) \<and>
     U () (s\<lparr>en_stack := put64 (en_stack s) (en_sp s) w, en_sp := en_sp s + 2\<rparr>))"
  by (auto simp: push32_def push64_def wp)

lemma wpM_expect [wp]: "wpM (expectM f) Q E s = wpM f Q (\<lambda>_ _. False) s"
  by (auto simp: wpM_def expectM_def split: prod.splits result.splits)

section \<open>Blocks of words\<close>

text \<open>Words \<open>a\<close> to \<open>a + n - 1\<close> replaced.\<close>

definition put_block :: "nat \<Rightarrow> u32 list \<Rightarrow> stack \<Rightarrow> stack" where
  "put_block a ws st = take a st @ ws @ drop (a + length ws) st"

lemma length_put_block [simp]: "a + length ws \<le> length st \<Longrightarrow> length (put_block a ws st) = length st"
  by (simp add: put_block_def)

lemma nth_put_block:
  "a + length ws \<le> length st \<Longrightarrow> i < length st \<Longrightarrow>
    put_block a ws st ! i = (if a \<le> i \<and> i < a + length ws then ws ! (i - a) else st ! i)"
  by (auto simp: put_block_def nth_append)

lemma put_block_Nil [simp]: "put_block a [] st = st"
  by (simp add: put_block_def)

lemma put_block_Cons:
  assumes "a + Suc (length ws) \<le> length st"
  shows "put_block (Suc a) ws (put32 st a w) = put_block a (w # ws) st"
  using assms by (intro nth_equalityI) (auto simp: put32_def nth_put_block nth_list_update nth_Cons')

lemma zero_locals_wp:
  "wpM (zero_locals n a) Q E s \<longleftrightarrow> (n = 0 \<or> a + n \<le> length (en_stack s)) \<and>
    Q () (s\<lparr>en_stack := put_block a (replicate n 0) (en_stack s)\<rparr>)"
proof (induction n arbitrary: a s)
  case (Suc n)
  show ?case
  proof (cases "a + Suc n \<le> length (en_stack s)")
    case True
    then show ?thesis using put_block_Cons [of a "replicate n 0" "en_stack s" 0] by (simp add: wp Suc.IH)
  next
    case False
    then show ?thesis by (auto simp: wp Suc.IH)
  qed
qed (simp add: wp)

text \<open>Copying upwards within the stack, towards lower addresses.\<close>

lemma copy_words_wp:
  assumes "dst \<le> src" "src + n \<le> length (en_stack s)"
  shows "wpM (copy_words n src dst) Q E s =
    Q () (s\<lparr>en_stack := put_block dst (take n (drop src (en_stack s))) (en_stack s)\<rparr>)"
  using assms
proof (induction n arbitrary: src dst s)
  case (Suc n)
  let ?st = "en_stack s"
  let ?st' = "put32 ?st dst (load32 ?st src)"
  have "drop (Suc src) ?st' = drop (Suc src) ?st"
    using Suc.prems by (simp add: put32_def drop_update_cancel)
  moreover have "take (Suc n) (drop src ?st) = load32 ?st src # take n (drop (Suc src) ?st)"
    using Suc.prems by (simp add: load32_def Cons_nth_drop_Suc [symmetric])
  ultimately have "put_block (Suc dst) (take n (drop (Suc src) ?st')) ?st' = put_block dst (take (Suc n) (drop src ?st)) ?st"
    using put_block_Cons [of dst "take n (drop (Suc src) ?st)" ?st "load32 ?st src"] Suc.prems by simp
  then show ?case
    using Suc.prems Suc.IH [of "Suc dst" "Suc src" "s\<lparr>en_stack := ?st'\<rparr>"] by (simp add: wp)
qed (simp add: wp)

section \<open>Frames\<close>

lemma frame_roundtrip: "frame_from_bits (frame_into_bits f) = f"
proof -
  have "ucast (frame_into_bits f) = fr_length f" "ucast (drop_bit 16 (frame_into_bits f)) = fr_module_delta f"
    "ucast (drop_bit 24 (frame_into_bits f)) = fr_param_size f"
    by (rule bit_eqI; auto simp: frame_into_bits_def bit_simps dest: bit_imp_le_length)+
  then show ?thesis by (simp add: frame_from_bits_def)
qed

text \<open>The frame a call pushes, and the state it starts the function in.\<close>

definition frame_for :: "'h engine \<Rightarrow> u8 \<Rightarrow> func \<Rightarrow> call_frame" where
  "frame_for s delta f = \<lparr>fr_length = word_of_nat (en_sp s - unat (en_fp s)), fr_module_delta = delta,
     fr_param_size = fn_param_size f\<rparr>"

definition entered :: "'h engine \<Rightarrow> u8 \<Rightarrow> func \<Rightarrow> 'h engine" where
  "entered s delta f = s\<lparr>en_fp := word_of_nat (en_sp s), en_stack := put_block (en_sp s) ([frame_into_bits (frame_for s delta f), jt_addr (en_pc s)] @
       replicate (unat (fn_local_size f)) 0) (en_stack s),
     en_sp := en_sp s + 2 + unat (fn_local_size f), en_pc := fn_expr f, en_jumped := True\<rparr>"

lemma call_impl_wp:
  assumes "get_func s (en_module s) index = Some (m, f)" "unat (en_fp s) \<le> en_sp s"
  shows "wpM (call_impl delta index) Q E s =
    (if length (en_stack s) < en_sp s + required_stack_words f then E (IB_Trap TR_StackOverflow) s
     else Q () (entered s delta f))"
proof (cases "length (en_stack s) < en_sp s + required_stack_words f")
  case True
  then show ?thesis using assms by (simp add: call_impl_def wp)
next
  case False
  let ?w1 = "frame_into_bits (frame_for s delta f)" and ?w2 = "jt_addr (en_pc s)"
    and ?z = "replicate (unat (fn_local_size f)) (0 :: u32)"
  have room: "en_sp s + 2 + unat (fn_local_size f) \<le> length (en_stack s)"
    using False by (simp add: required_stack_words_def)
  have "put_block (Suc (Suc (en_sp s))) ?z (put32 (put32 (en_stack s) (en_sp s) ?w1) (Suc (en_sp s)) ?w2) =
      put_block (en_sp s) (?w1 # ?w2 # ?z) (en_stack s)"
    using room put_block_Cons [of "Suc (en_sp s)" ?z "put32 (en_stack s) (en_sp s) ?w1" ?w2]
      put_block_Cons [of "en_sp s" "?w2 # ?z" "en_stack s" ?w1] by simp
  then show ?thesis
    using False assms room
    by (simp add: call_impl_def wp zero_locals_wp entered_def frame_for_def [symmetric] Let_def algebra_simps
        del: of_nat_diff)
qed

lemma wpM_load_context:
  assumes "get_memory (en_store s) (en_module s) = Some mem" "get_table (en_store s) (en_module s) = Some tab"
  shows "wpM load_context Q E s = Q () (s\<lparr>en_memory := mem, en_table := tab\<rparr>)"
  using assms by (simp add: load_context_def wp)

text \<open>
  A state that the callee may return from to \<open>s\<close>: its own frame is still the one that \<open>entered\<close>
  pushed, and the two words of the frame were not written.
\<close>

definition in_call :: "'h engine \<Rightarrow> u8 \<Rightarrow> func \<Rightarrow> 'h engine \<Rightarrow> bool" where
  "in_call s delta f t \<longleftrightarrow> unat (en_fp t) = en_sp s \<and> en_module t - delta = en_module s \<and>
     en_sp s + 1 < length (en_stack t) \<and>
     load32 (en_stack t) (en_sp s) = frame_into_bits (frame_for s delta f) \<and>
     load32 (en_stack t) (en_sp s + 1) = jt_addr (en_pc s)"

lemma restore_module_wp:
  assumes "get_memory (en_store s) (en_module s - delta) = Some mem" "get_table (en_store s) (en_module s - delta) = Some tab"
    and "\<And>mem tab. Q () (s\<lparr>en_module := en_module s - delta, en_memory := mem, en_table := tab\<rparr>)"
    and "Q () (s\<lparr>en_module := en_module s - delta\<rparr>)"
  shows "wpM (restore_module delta) Q E s"
  using assms by (cases "delta = 0") (auto simp: restore_module_def wp wpM_load_context)

lemma return_impl_wp:
  assumes "load32 (en_stack t) (unat (en_fp t)) = frame_into_bits fr" "Suc (unat (en_fp t)) < length (en_stack t)"
    and "unat (fr_param_size fr) \<le> unat (en_fp t)" "unat (en_fp t) + unat n \<le> en_sp t" "en_sp t \<le> length (en_stack t)"
  shows "wpM (return_impl n) Q E t =
    wpM (restore_module (fr_module_delta fr)) (\<lambda>_. wpM (return_jump (unat n) (unat (en_fp t) - unat (fr_param_size fr))
        (JumpTarget (load32 (en_stack t) (Suc (unat (en_fp t)))))) Q E) E
      (t\<lparr>en_stack := put_block (unat (en_fp t) - unat (fr_param_size fr))
           (take (unat n) (drop (en_sp t - unat n) (en_stack t))) (en_stack t),
         en_fp := en_fp t - ucast (fr_length fr)\<rparr>)"
proof -
  let ?start = "unat (en_fp t) - unat (fr_param_size fr)"
  have copy: "wpM (if unat n = 0 then retM () else bindM (sp_minus (unat n)) (\<lambda>src. copy_words (unat n) src ?start)) Q E t =
      Q () (t\<lparr>en_stack := put_block ?start (take (unat n) (drop (en_sp t - unat n) (en_stack t))) (en_stack t)\<rparr>)" for Q E
    using assms(4,5) by (auto simp: wp copy_words_wp)
  show ?thesis
    unfolding return_impl_def wpM_bind wpM_get wpM_words using assms(1-3)
    by (simp add: frame_roundtrip Let_def wpM_then copy wpM_modify)
qed

lemma return_wp:
  fixes s t :: "'h engine"
  assumes call: "in_call s delta f t"
    and s: "en_sp s - unat (en_fp s) < 2 ^ 16" "unat (en_fp s) \<le> en_sp s" "unat (fn_param_size f) \<le> en_sp s"
    and t: "en_sp s + 2 + unat n \<le> en_sp t" "en_sp t \<le> length (en_stack t)"
    and ctx: "get_memory (en_store t) (en_module s) = Some mem" "get_table (en_store t) (en_module s) = Some tab"
    and pc: "en_pc s \<noteq> SENTINEL"
  defines "start \<equiv> en_sp s - unat (fn_param_size f)"
  shows "wpM (return_impl n) (\<lambda>_ t'. 
      en_pc t' = target_plus (en_pc s) 2 \<and> en_fp t' = en_fp s \<and> en_sp t' = start + unat n \<and> en_module t' = en_module s \<and>
      en_stack t' = put_block start (take (unat n) (drop (en_sp t - unat n) (en_stack t))) (en_stack t) \<and>
      en_store t' = en_store t \<and> en_host t' = en_host t) (\<lambda>_ _. False) t"
proof -
  define fr where "fr = frame_for s delta f"
  have fp: "unat (en_fp t) = en_sp s" and inb: "Suc (en_sp s) < length (en_stack t)"
    and fr: "load32 (en_stack t) (en_sp s) = frame_into_bits fr"
    and ret: "load32 (en_stack t) (Suc (en_sp s)) = jt_addr (en_pc s)" and md: "en_module t - delta = en_module s"
    using call by (simp_all add: in_call_def fr_def)
  have "(ucast (fr_length fr) :: u32) = word_of_nat (en_sp s - unat (en_fp s))"
    using s(1) by (simp add: fr_def frame_for_def word_unat_eq_iff unat_of_nat unsigned_ucast_eq take_bit_nat_eq_self
        del: of_nat_diff)
  moreover have "word_of_nat (en_sp s) = en_fp t" unfolding fp [symmetric] by simp
  moreover have "word_of_nat (en_sp s) - word_of_nat (en_sp s - unat (en_fp s)) = en_fp s"
    using s(2) by (simp add: of_nat_diff)
  ultimately have rfp: "en_fp t - ucast (fr_length fr) = en_fp s" by simp
  have jump: "JumpTarget (jt_addr (en_pc s)) = en_pc s" by (cases "en_pc s") simp
  have parts: "fr_module_delta fr = delta" "fr_param_size fr = fn_param_size f" by (simp_all add: fr_def frame_for_def)
  show ?thesis
    by (subst return_impl_wp [where fr = fr])
      (use fr fp inb s t md ctx pc in \<open>auto simp: parts ret jump rfp start_def return_jump_def wp intro!: restore_module_wp\<close>)
qed

section \<open>Calls and returns\<close>

lemma call_impl_Ok:
  assumes "call_impl delta index s = (Ok (), s1)" "get_func s (en_module s) index = Some (m, f)"
    "unat (en_fp s) \<le> en_sp s"
  shows "s1 = entered s delta f" "en_sp s + required_stack_words f \<le> length (en_stack s)"
proof -
  have "wpM (call_impl delta index) (\<lambda>_ t. t = entered s delta f \<and> en_sp s + required_stack_words f \<le> length (en_stack s))
      (\<lambda>_ _. True) s"
    by (simp add: call_impl_wp [OF assms(2,3)] not_less)
  then show "s1 = entered s delta f" "en_sp s + required_stack_words f \<le> length (en_stack s)"
    using assms(1) by (auto simp: wpM_def)
qed

text \<open>Entering a function through \<open>call_impl_enter_module\<close>: the context of its module, then its frame.\<close>

lemma enter_module_Ok:
  assumes call: "call_impl_enter_module r s = (Ok (), s1)"
    and f: "get_func s (wr_module r) (wr_index r) = Some (m, f)" and fp: "unat (en_fp s) \<le> en_sp s"
  obtains mem tab where "s1 = entered (s\<lparr>en_module := wr_module r, en_memory := mem, en_table := tab\<rparr>)
      (wr_module r - en_module s) f"
    "en_sp s + required_stack_words f \<le> length (en_stack s)"
proof (cases "wr_module r = en_module s")
  case True
  then have "call_impl 0 (wr_index r) s = (Ok (), s1)"
    using call by (simp add: call_impl_enter_module_def run_defs)
  moreover have "s\<lparr>en_module := wr_module r, en_memory := en_memory s, en_table := en_table s\<rparr> = s"
    by (simp add: True)
  ultimately show thesis
    using True call_impl_Ok [of 0 "wr_index r" s s1 m f] f fp that [of "en_table s" "en_memory s"] by simp
next
  case False
  let ?s = "s\<lparr>en_module := wr_module r\<rparr>"
  have run: "thenM load_context (call_impl (wr_module r - en_module s) (wr_index r)) ?s = (Ok (), s1)"
    using call False by (simp add: call_impl_enter_module_def run_defs)
  have "get_memory (en_store ?s) (en_module ?s) \<noteq> None \<and> get_table (en_store ?s) (en_module ?s) \<noteq> None"
    using run by (auto simp: load_context_def run_defs split: option.splits)
  then obtain mem tab where ctx: "get_memory (en_store ?s) (en_module ?s) = Some mem"
    "get_table (en_store ?s) (en_module ?s) = Some tab" by auto
  let ?s' = "s\<lparr>en_module := wr_module r, en_memory := mem, en_table := tab\<rparr>"
  have "call_impl (wr_module r - en_module s) (wr_index r) ?s' = (Ok (), s1)"
    using run ctx by (simp add: load_context_def run_defs)
  moreover have "get_func ?s' (en_module ?s') (wr_index r) = Some (m, f)" using f by (simp add: get_func_def)
  ultimately show thesis
    using call_impl_Ok [of "wr_module r - en_module s" "wr_index r" ?s' s1 m f] fp that by simp
qed

text \<open>
  Claim C9. A call returns to its caller: take any state \<open>t\<close> that the callee entered by \<open>s\<close> may reach
  (it runs in its own frame, and the two words of that frame hold what the call wrote). Returning \<open>n\<close>
  words from \<open>t\<close> resumes the caller after the call instruction, in its module (also when the call went
  to another one) and its frame, with the parameters replaced by the results, which are the topmost
  \<open>n\<close> words of \<open>t\<close>, and with every word below the parameters as it was in \<open>t\<close>.
\<close>

theorem call_then_return:
  fixes s s1 t :: "'h engine"
  assumes call: "call_impl_enter_module r s = (Ok (), s1)"
    and f: "get_func s (wr_module r) (wr_index r) = Some (m, f)"
    and s: "unat (en_fp s) \<le> en_sp s" "en_sp s - unat (en_fp s) < 2 ^ 16" "unat (fn_param_size f) \<le> en_sp s"
      "en_sp s < 2 ^ 32" "en_pc s \<noteq> SENTINEL"
    and t: "en_fp t = en_fp s1" "en_module t = en_module s1" "length (en_stack t) = length (en_stack s)"
      "en_stack t ! en_sp s = en_stack s1 ! en_sp s" "en_stack t ! (en_sp s + 1) = en_stack s1 ! (en_sp s + 1)"
      "en_sp s + 2 + unat n \<le> en_sp t" "en_sp t \<le> length (en_stack t)"
    and ctx: "get_memory (en_store t) (en_module s) = Some mem" "get_table (en_store t) (en_module s) = Some tab"
  shows "\<exists>t'. return_impl n t = (Ok (), t') \<and>
    en_pc t' = target_plus (en_pc s) 2 \<and> en_fp t' = en_fp s \<and> en_module t' = en_module s \<and>
    en_sp t' = en_sp s - unat (fn_param_size f) + unat n \<and>
    (\<forall>i<unat n. en_stack t' ! (en_sp s - unat (fn_param_size f) + i) = en_stack t ! (en_sp t - unat n + i)) \<and>
    (\<forall>i<en_sp s - unat (fn_param_size f). en_stack t' ! i = en_stack t ! i)"
proof -
  obtain mem' tab' where s1: "s1 = entered (s\<lparr>en_module := wr_module r, en_memory := mem', en_table := tab'\<rparr>)
      (wr_module r - en_module s) f" and room: "en_sp s + required_stack_words f \<le> length (en_stack s)"
    by (rule enter_module_Ok [OF call f s(1)])
  let ?d = "wr_module r - en_module s" and ?z = "replicate (unat (fn_local_size f)) (0 :: u32)"
  have len: "en_sp s + 2 + unat (fn_local_size f) \<le> length (en_stack s)"
    using room by (simp add: required_stack_words_def)
  have fr: "frame_for (s\<lparr>en_module := wr_module r, en_memory := mem', en_table := tab'\<rparr>) ?d f = frame_for s ?d f"
    by (simp add: frame_for_def)
  have "en_stack s1 ! en_sp s = frame_into_bits (frame_for s ?d f)" "en_stack s1 ! (en_sp s + 1) = jt_addr (en_pc s)"
    using len by (simp_all add: s1 entered_def nth_put_block fr del: of_nat_diff)
  moreover have "unat (word_of_nat (en_sp s) :: u32) = en_sp s" using s(4) by (simp add: unat_of_nat)
  ultimately have "in_call s ?d f t"
    using t len by (simp add: in_call_def load32_def s1 entered_def)
  then have "wpM (return_impl n) (\<lambda>_ t'. 
      en_pc t' = target_plus (en_pc s) 2 \<and> en_fp t' = en_fp s \<and> en_sp t' = en_sp s - unat (fn_param_size f) + unat n \<and>
      en_module t' = en_module s \<and>
      en_stack t' = put_block (en_sp s - unat (fn_param_size f)) (take (unat n) (drop (en_sp t - unat n) (en_stack t))) (en_stack t) \<and>
      en_store t' = en_store t \<and> en_host t' = en_host t) (\<lambda>_ _. False) t"
    by (rule return_wp) (use s t ctx in auto)
  moreover have "put_block a (take (unat n) (drop (en_sp t - unat n) (en_stack t))) (en_stack t) ! i =
      (if a \<le> i \<and> i < a + unat n then en_stack t ! (en_sp t - unat n + (i - a)) else en_stack t ! i)"
    if "a + unat n \<le> length (en_stack t)" "i < length (en_stack t)" for a i
    using that t by (auto simp: nth_put_block)
  ultimately show ?thesis
    using t(3,6,7) by (auto simp: wpM_def split: prod.splits result.splits)
qed

text \<open>An engine with one module, whose function takes one word and returns one.\<close>

definition demo_engine :: "unit engine" where
  "demo_engine = \<lparr>en_pc = JumpTarget 3, en_jumped = False, en_fp = 0, en_sp = 3, en_stack = [0, 0, 42, 0, 0, 0, 7, 0],
     en_memory = 0, en_table = 0, en_module = 0,
     en_store = \<lparr>st_modules = [small_module\<lparr>md_types := [\<lparr>ft_params = [T_I32], ft_returns = [T_I32]\<rparr>],
         md_functions := [\<lparr>fn_ty = 0, fn_stack_usage = 1, fn_local_size = 1, fn_param_size = 1,
           fn_return = Some T_I32, fn_locals = [(1, T_I32)], fn_expr = JumpTarget 9\<rparr>]\<rparr>],
       st_max_modules = 1, st_host_modules = [], st_memories = [], st_tables = []\<rparr>,
     en_pause = None, en_result = None, en_host = ()\<rparr>"

lemma demo_func:
  "get_func demo_engine 0 0 = Some (st_modules (en_store demo_engine) ! 0, md_functions (st_modules (en_store demo_engine) ! 0) ! 0)"
  by (simp add: get_func_def demo_engine_def get_opt_def)

lemma call_then_return_witness:
  "let s1 = snd (call_impl_enter_module \<lparr>wr_module = 0, wr_index = 0\<rparr> demo_engine);
       t = s1\<lparr>en_sp := 7, en_stack := (en_stack s1)[6 := 5]\<rparr>
   in \<exists>t'. return_impl 1 t = (Ok (), t') \<and> en_pc t' = JumpTarget 5 \<and> en_sp t' = 3 \<and> en_stack t' ! 2 = 5"
proof -
  define f where "f = md_functions (st_modules (en_store demo_engine) ! 0) ! 0"
  have f: "fn_param_size f = 1" "fn_local_size f = 1" "required_stack_words f = 4"
    by (simp_all add: f_def demo_engine_def required_stack_words_def)
  have call: "call_impl_enter_module \<lparr>wr_module = 0, wr_index = 0\<rparr> demo_engine = (Ok (), entered demo_engine 0 f)"
  proof -
    have func: "get_func demo_engine (en_module demo_engine) 0 = Some (st_modules (en_store demo_engine) ! 0, f)"
      using demo_func by (simp add: demo_engine_def f_def)
    have "wpM (call_impl 0 0) (\<lambda>_ t. t = entered demo_engine 0 f) (\<lambda>_ _. False) demo_engine"
      using f(3) by (subst call_impl_wp [OF func]) (simp_all add: demo_engine_def)
    then have "call_impl 0 0 demo_engine = (Ok (), entered demo_engine 0 f)"
      by (auto simp: wpM_def split: prod.splits result.splits)
    then show ?thesis by (simp add: call_impl_enter_module_def run_defs) (simp add: demo_engine_def)
  qed
  have dm: "en_fp demo_engine = 0" "en_sp demo_engine = 3" "en_pc demo_engine = JumpTarget 3"
    by (simp_all add: demo_engine_def)
  define t where "t = (entered demo_engine 0 f)\<lparr>en_sp := 7, en_stack := (en_stack (entered demo_engine 0 f))[6 := 5]\<rparr>"
  have len: "length (en_stack (entered demo_engine 0 f)) = 8" using f by (simp add: entered_def demo_engine_def put_block_def)
  have ctx: "get_memory (en_store t) (en_module demo_engine) = Some 0" "get_table (en_store t) (en_module demo_engine) = Some 0"
    by (simp_all add: t_def entered_def demo_engine_def get_memory_def get_table_def get_opt_def small_module_def)
  have "\<exists>t'. return_impl 1 t = (Ok (), t') \<and>
    en_pc t' = target_plus (en_pc demo_engine) 2 \<and> en_fp t' = en_fp demo_engine \<and> en_module t' = en_module demo_engine \<and>
    en_sp t' = en_sp demo_engine - unat (fn_param_size f) + unat (1 :: u8) \<and>
    (\<forall>i<unat (1 :: u8). en_stack t' ! (en_sp demo_engine - unat (fn_param_size f) + i) = en_stack t ! (en_sp t - unat (1 :: u8) + i)) \<and>
    (\<forall>i<en_sp demo_engine - unat (fn_param_size f). en_stack t' ! i = en_stack t ! i)"
  proof (rule call_then_return [OF call _ _ _ _ _ _ _ _ _ _ _ _ _ ctx])
    show "get_func demo_engine (wr_module \<lparr>wr_module = 0, wr_index = 0\<rparr>) (wr_index \<lparr>wr_module = 0, wr_index = 0\<rparr>) =
        Some (st_modules (en_store demo_engine) ! 0, f)"
      using demo_func by (simp add: f_def)
    show "length (en_stack t) = length (en_stack demo_engine)" "en_sp t \<le> length (en_stack t)"
      using len by (simp_all add: t_def, simp add: demo_engine_def)
  qed (use f in \<open>simp_all add: t_def dm SENTINEL_def\<close>)
  moreover have "en_stack t ! 6 = 5" using len by (simp add: t_def)
  ultimately show ?thesis
    unfolding call Let_def snd_conv t_def [symmetric] using f
    by (auto simp: demo_engine_def target_plus_def t_def)
qed

section \<open>Resume\<close>

definition value_type :: "wasm_value \<Rightarrow> val_type" where
  "value_type v = (case v of V_I32 _ \<Rightarrow> T_I32 | V_I64 _ \<Rightarrow> T_I64 | V_F32 _ \<Rightarrow> T_F32 | V_F64 _ \<Rightarrow> T_F64)"

text \<open>
  Claim C16. \<open>resume\<close> accepts exactly the value the paused host function declared: an engine that is not
  paused is left as it is with \<open>NotPaused\<close>; a value of another type (or a missing or superfluous one) is
  refused with \<open>ResultTypeMismatch\<close> and the pause is still pending; a value of the declared type is
  pushed (if there is room) and the pause is over.
\<close>

theorem resume_outcome:
  "resume v s = (case en_pause s of
     None \<Rightarrow> (Err RE_NotPaused, s)
   | Some ty \<Rightarrow> if map_option value_type v \<noteq> ty then (Err RE_ResultTypeMismatch, s)
       else case v of None \<Rightarrow> (Ok (), s\<lparr>en_pause := None\<rparr>)
         | Some x \<Rightarrow> push_value x (s\<lparr>en_pause := None\<rparr>))"
proof (cases "en_pause s")
  case None
  then have "s\<lparr>en_pause := None\<rparr> = s" by simp
  then show ?thesis using None by (simp add: resume_def run_defs)
next
  case (Some ty)
  then have "s\<lparr>en_pause := Some ty\<rparr> = s" by simp
  then show ?thesis using Some
    by (cases v; cases ty; cases "the v"; cases "the ty")
      (simp_all add: resume_def run_defs value_type_def push_value_def)
qed

section \<open>Invoke\<close>

definition params_words :: "val_type list \<Rightarrow> nat" where
  "params_words ts = (\<Sum>t\<leftarrow>ts. val_type_size t div 4)"

text \<open>Only the stack and its pointer differ, and the stack keeps its size.\<close>

definition restacked :: "nat \<Rightarrow> 'h engine \<Rightarrow> 'h engine \<Rightarrow> bool" where
  "restacked n s t \<longleftrightarrow> (\<exists>stk. t = s\<lparr>en_stack := stk, en_sp := n\<rparr> \<and> length stk = length (en_stack s))"

lemma restacked_simps [simp]: "restacked n s (s\<lparr>en_sp := n\<rparr>)" "restacked (en_sp s) s s"
  by (auto simp: restacked_def intro!: exI [of _ "en_stack s"])

lemma push_params_wp:
  "length vs = length ts \<Longrightarrow> en_sp s + params_words ts \<le> length (en_stack s) \<Longrightarrow>
    wpM (push_params vs ts) (\<lambda>_ t. map value_type vs = ts \<and> restacked (en_sp s + params_words ts) s t)
      (\<lambda>e t. e = IE_ParamTypeMismatch \<and> map value_type vs \<noteq> ts \<and> restacked 0 s t) s"
proof (induction vs ts arbitrary: s rule: push_params.induct)
  have step: "wpM (push_params vs ts) (\<lambda>_ t. map value_type vs = ts \<and> restacked (en_sp s + (k + params_words ts)) s t)
      (\<lambda>e t. e = IE_ParamTypeMismatch \<and> map value_type vs \<noteq> ts \<and> restacked 0 s t) (s\<lparr>en_stack := stk, en_sp := en_sp s + k\<rparr>)"
    if "wpM (push_params vs ts) (\<lambda>_ t. map value_type vs = ts \<and> restacked (en_sp s + k + params_words ts) (s\<lparr>en_stack := stk, en_sp := en_sp s + k\<rparr>) t)
      (\<lambda>e t. e = IE_ParamTypeMismatch \<and> map value_type vs \<noteq> ts \<and> restacked 0 (s\<lparr>en_stack := stk, en_sp := en_sp s + k\<rparr>) t)
      (s\<lparr>en_stack := stk, en_sp := en_sp s + k\<rparr>)" "length stk = length (en_stack s)"
    for vs ts k stk and s :: "'a engine"
    using that(1) by (rule wpM_mono) (auto simp: restacked_def that(2) add.assoc)
  {
    case (1 v vs ts)
    show ?case using 1(2,3) by (simp add: wp params_words_def value_type_def [of "V_I32 v"])
        (use step [of vs ts s 1 "put32 (en_stack s) (en_sp s) v"] 1(1) [of "s\<lparr>en_stack := put32 (en_stack s) (en_sp s) v, en_sp := en_sp s + 1\<rparr>"] in
          \<open>simp add: params_words_def\<close>)
  next
    case (2 v vs ts)
    show ?case using 2(2,3) by (simp add: wp params_words_def value_type_def [of "V_I64 v"])
        (use step [of vs ts s 2 "put64 (en_stack s) (en_sp s) v"] 2(1) [of "s\<lparr>en_stack := put64 (en_stack s) (en_sp s) v, en_sp := en_sp s + 2\<rparr>"] in
          \<open>simp add: params_words_def\<close>)
  next
    case (3 v vs ts)
    show ?case using 3(2,3) by (simp add: wp params_words_def value_type_def [of "V_F32 v"])
        (use step [of vs ts s 1 "put32 (en_stack s) (en_sp s) v"] 3(1) [of "s\<lparr>en_stack := put32 (en_stack s) (en_sp s) v, en_sp := en_sp s + 1\<rparr>"] in
          \<open>simp add: params_words_def\<close>)
  next
    case (4 v vs ts)
    show ?case using 4(2,3) by (simp add: wp params_words_def value_type_def [of "V_F64 v"])
        (use step [of vs ts s 2 "put64 (en_stack s) (en_sp s) v"] 4(1) [of "s\<lparr>en_stack := put64 (en_stack s) (en_sp s) v, en_sp := en_sp s + 2\<rparr>"] in
          \<open>simp add: params_words_def\<close>)
  }
qed (auto simp: wp value_type_def params_words_def)

lemma invoke_wp:
  assumes idle: "en_pc s = SENTINEL" "en_sp s = 0" "en_fp s = 0"
    and f: "get_func s (wr_module r) (wr_index r) = Some (m, f)"
    and ty: "get_opt (md_types m) (unat (fn_ty f)) = Some ty"
    and ctx: "get_memory (en_store s) (wr_module r) = Some mem" "get_table (en_store s) (wr_module r) = Some tab"
  shows "wpM (invoke r vs)
    (\<lambda>_ t. map value_type vs = ft_params ty \<and>
       params_words (ft_params ty) + required_stack_words f \<le> length (en_stack s) \<and>
       en_pc t = fn_expr f \<and> en_fp t = word_of_nat (params_words (ft_params ty)) \<and>
       en_sp t = params_words (ft_params ty) + 2 + unat (fn_local_size f) \<and>
       en_module t = wr_module r \<and> en_memory t = mem \<and> en_table t = tab \<and> en_store t = en_store s \<and>
       length (en_stack t) = length (en_stack s) \<and> \<not> en_jumped t \<and> en_result t = None)
    (\<lambda>e t. restacked 0 s t \<and> (case e of
       IE_ParamLenMismatch \<Rightarrow> length vs \<noteq> length (ft_params ty)
     | IE_StackOverflow \<Rightarrow> length vs = length (ft_params ty) \<and>
         length (en_stack s) < params_words (ft_params ty) + required_stack_words f
     | IE_ParamTypeMismatch \<Rightarrow> length vs = length (ft_params ty) \<and> map value_type vs \<noteq> ft_params ty
     | IE_Busy \<Rightarrow> False)) s"
proof -
  let ?w = "params_words (ft_params ty)"
  have words: "(\<Sum>t\<leftarrow>ft_params ty. val_type_size t div 4) = ?w" by (simp add: params_words_def)
  consider (len) "length (ft_params ty) \<noteq> length vs"
    | (room) "length (ft_params ty) = length vs" "length (en_stack s) < ?w + required_stack_words f"
    | (ok) "length (ft_params ty) = length vs" "?w + required_stack_words f \<le> length (en_stack s)"
    by linarith
  then show ?thesis
  proof cases
    case len
    then show ?thesis using idle f ty by (simp add: invoke_def wp restacked_simps(2) [of s, unfolded idle(2)])
  next
    case room
    then show ?thesis using idle f ty by (simp add: invoke_def wp words restacked_simps(2) [of s, unfolded idle(2)])
  next
    case ok
    have push: "wpM (push_params vs (ft_params ty)) (\<lambda>_ t. map value_type vs = ft_params ty \<and> restacked ?w s t)
      (\<lambda>e t. e = IE_ParamTypeMismatch \<and> map value_type vs \<noteq> ft_params ty \<and> restacked 0 s t) s"
      using push_params_wp [of vs "ft_params ty" s] ok idle by simp
    have enter: "wpM (thenM (modifyM (\<lambda>s. s\<lparr>en_module := wr_module r\<rparr>)) (thenM load_context
        (thenM (expectM (call_impl 0 (wr_index r))) (modifyM (\<lambda>s. s\<lparr>en_jumped := False, en_result := None\<rparr>)))))
        Q E t = Q () ((entered t' 0 f)\<lparr>en_jumped := False, en_result := None\<rparr>)"
      if t0: "restacked ?w s t" "t' = t\<lparr>en_module := wr_module r, en_memory := mem, en_table := tab\<rparr>" for Q t t'
        and E :: "invoke_error \<Rightarrow> 'a engine \<Rightarrow> bool"
    proof -
      obtain stk where t: "t = s\<lparr>en_stack := stk, en_sp := ?w\<rparr>" "length stk = length (en_stack s)"
        using t0(1) unfolding restacked_def by blast
      have "get_func t' (en_module t') (wr_index r) = Some (m, f)" using f by (simp add: t0(2) t get_func_def)
      then have call: "wpM (call_impl 0 (wr_index r)) Q' E' t' = Q' () (entered t' 0 f)" for Q' E'
        using ok(2) idle by (subst call_impl_wp) (auto simp: t0(2) t)
      show ?thesis
        using ctx call by (simp add: wpM_then wpM_modify wpM_load_context [of _ mem tab] wpM_expect t0(2) t)
    qed
    show ?thesis
      unfolding invoke_def wpM_bind wpM_get id_def using idle f ty ok
      by (simp add: wpM_if wpM_bind wpM_unwrap words wpM_then [of "push_params _ _"] del: wpM_then)
        (rule wpM_mono [OF push], auto simp: enter, auto simp: entered_def restacked_def required_stack_words_def)
  qed
qed

text \<open>
  Claim C11. \<open>invoke\<close> on an idle engine never panics (in particular the \<open>expect\<close> on its call cannot fail),
  whatever the parameters. It starts the function exactly when the parameters have the declared types
  and the stack can hold them with the function's frame: then the frame lies above the parameters and
  the program counter is at the entry point. Each refusal names its reason and leaves the engine idle.
\<close>

theorem invoke_outcome:
  assumes idle: "en_pc s = SENTINEL" "en_sp s = 0" "en_fp s = 0"
    and f: "get_func s (wr_module r) (wr_index r) = Some (m, f)"
    and ty: "get_opt (md_types m) (unat (fn_ty f)) = Some ty"
    and ctx: "get_memory (en_store s) (wr_module r) = Some mem" "get_table (en_store s) (wr_module r) = Some tab"
  shows "wpM (invoke r vs)
    (\<lambda>_ t. map value_type vs = ft_params ty \<and>
       params_words (ft_params ty) + required_stack_words f \<le> length (en_stack s) \<and>
       en_pc t = fn_expr f \<and> en_fp t = word_of_nat (params_words (ft_params ty)) \<and>
       en_sp t = params_words (ft_params ty) + 2 + unat (fn_local_size f) \<and>
       en_module t = wr_module r \<and> en_memory t = mem \<and> en_table t = tab \<and> en_store t = en_store s \<and>
       length (en_stack t) = length (en_stack s) \<and> \<not> en_jumped t \<and> en_result t = None)
    (\<lambda>e t. restacked 0 s t \<and> (case e of
       IE_ParamLenMismatch \<Rightarrow> length vs \<noteq> length (ft_params ty)
     | IE_StackOverflow \<Rightarrow> length vs = length (ft_params ty) \<and>
         length (en_stack s) < params_words (ft_params ty) + required_stack_words f
     | IE_ParamTypeMismatch \<Rightarrow> length vs = length (ft_params ty) \<and> map value_type vs \<noteq> ft_params ty
     | IE_Busy \<Rightarrow> False)) s"
  using assms by (rule invoke_wp)

lemma invoke_outcome_witness:
  "let s = engine_reset demo_engine; r = \<lparr>wr_module = 0, wr_index = 0\<rparr> in
   wpM (invoke r [V_I32 4]) (\<lambda>_ t. en_pc t = JumpTarget 9 \<and> en_sp t = 4) (\<lambda>_ _. True) s \<and>
   wpM (invoke r [V_F32 4]) (\<lambda>_ _. False) (\<lambda>e t. e = IE_ParamTypeMismatch \<and> en_sp t = 0) s"
proof -
  let ?s = "engine_reset demo_engine" and ?r = "\<lparr>wr_module = 0, wr_index = 0\<rparr> :: wasm_ref"
  define m where "m = st_modules (en_store demo_engine) ! 0"
  define f where "f = md_functions m ! 0"
  have s: "en_pc ?s = SENTINEL" "en_sp ?s = 0" "en_fp ?s = 0" "en_store ?s = en_store demo_engine"
    "en_stack ?s = en_stack demo_engine"
    by (simp_all add: engine_reset_def clear_table_def clear_memory_def)
  have func: "get_func ?s (wr_module ?r) (wr_index ?r) = Some (m, f)"
    using demo_func by (simp add: get_func_def s m_def f_def)
  have ty: "get_opt (md_types m) (unat (fn_ty f)) = Some \<lparr>ft_params = [T_I32], ft_returns = [T_I32]\<rparr>"
    by (simp add: m_def f_def demo_engine_def get_opt_def)
  have f: "fn_expr f = JumpTarget 9" "fn_local_size f = 1" "required_stack_words f = 4"
    by (simp_all add: f_def m_def demo_engine_def required_stack_words_def)
  have ctx: "get_memory (en_store ?s) (wr_module ?r) = Some 0" "get_table (en_store ?s) (wr_module ?r) = Some 0"
    unfolding s by (simp_all add: demo_engine_def get_memory_def get_table_def get_opt_def small_module_def)
  note run = invoke_outcome [OF s(1-3) func ty ctx]
  have len: "length (en_stack ?s) = 8" unfolding s by (simp add: demo_engine_def)
  show ?thesis
    unfolding Let_def using run [of "[V_I32 4]"] run [of "[V_F32 4]"]
    by (auto simp: params_words_def f value_type_def len restacked_def elim!: wpM_mono split: invoke_error.splits)
qed

end
