(* ===== verification/Numerics.thy ===== *)
theory Numerics
  imports Engine Ops "HOL-Library.Signed_Division"
begin

text \<open>
  The values of the numeric instructions (src/interpreter.rs): the expression each \<open>instruction!\<close> line
  of the interpreter computes from its operands, as functions on words and on bit patterns of floats,
  with the traps of divisions and of checked truncations as errors. What they do with the stack is
  theory Interp.

  Lemmas: the checked truncations trap exactly when the truncated value does not fit, although the
  source compares with float constants that are not the bounds of the integer types; the integer
  operations are those of the integers, modulo the word size.
\<close>

section \<open>Integers\<close>

definition leading_zeros :: "'a::len word \<Rightarrow> nat" where
  "leading_zeros w = length (takeWhile (\<lambda>i. \<not> bit w i) (rev [0..<LENGTH('a)]))"

definition trailing_zeros :: "'a::len word \<Rightarrow> nat" where
  "trailing_zeros w = length (takeWhile (\<lambda>i. \<not> bit w i) [0..<LENGTH('a)])"

definition count_ones :: "'a::len word \<Rightarrow> nat" where
  "count_ones w = length (filter (bit w) [0..<LENGTH('a)])"

primrec irel :: "irel_op \<Rightarrow> 'a::len word \<Rightarrow> 'a word \<Rightarrow> bool" where
  "irel IEqz a b = (a = 0)"
| "irel IEq a b = (a = b)"
| "irel INe a b = (a \<noteq> b)"
| "irel ILt_s a b = (sint a < sint b)"
| "irel ILt_u a b = (a < b)"
| "irel IGt_s a b = (sint b < sint a)"
| "irel IGt_u a b = (b < a)"
| "irel ILe_s a b = (sint a \<le> sint b)"
| "irel ILe_u a b = (a \<le> b)"
| "irel IGe_s a b = (sint b \<le> sint a)"
| "irel IGe_u a b = (b \<le> a)"

text \<open>Shift counts are taken modulo the width (\<open>wrapping_shl\<close>, \<open>rotate_left\<close>).\<close>

definition shift_count :: "'a::len word \<Rightarrow> nat" where
  "shift_count b = unat b mod LENGTH('a)"

primrec iarith :: "iarith_op \<Rightarrow> 'a::len word \<Rightarrow> 'a word \<Rightarrow> ('a word, interp_break) result" where
  "iarith IClz a b = Ok (word_of_nat (leading_zeros a))"
| "iarith ICtz a b = Ok (word_of_nat (trailing_zeros a))"
| "iarith IPopcnt a b = Ok (word_of_nat (count_ones a))"
| "iarith IAdd a b = Ok (a + b)"
| "iarith ISub a b = Ok (a - b)"
| "iarith IMul a b = Ok (a * b)"
| "iarith IDiv_s a b =
     (if b = 0 then Err (IB_Trap TR_DivideByZero)
      else if sint a = - (2 ^ (LENGTH('a) - 1)) \<and> b = - 1 then Err (IB_Trap TR_IntegerOverflow)
      else Ok (word_of_int (sint a sdiv sint b)))"
| "iarith IDiv_u a b = (if b = 0 then Err (IB_Trap TR_DivideByZero) else Ok (a div b))"
| "iarith IRem_s a b = (if b = 0 then Err (IB_Trap TR_DivideByZero) else Ok (word_of_int (sint a smod sint b)))"
| "iarith IRem_u a b = (if b = 0 then Err (IB_Trap TR_DivideByZero) else Ok (a mod b))"
| "iarith IAnd a b = Ok (a AND b)"
| "iarith IOr a b = Ok (a OR b)"
| "iarith IXor a b = Ok (a XOR b)"
| "iarith IShl a b = Ok (push_bit (shift_count b) a)"
| "iarith IShr_s a b = Ok (signed_drop_bit (shift_count b) a)"
| "iarith IShr_u a b = Ok (drop_bit (shift_count b) a)"
| "iarith IRotl a b = Ok (word_rotl (shift_count b) a)"
| "iarith IRotr a b = Ok (word_rotr (shift_count b) a)"

section \<open>Floats\<close>

text \<open>\<open>f32::NAN\<close> and \<open>f64::NAN\<close>.\<close>

definition fl_nan :: "float_fmt \<Rightarrow> nat" where
  "fl_nan k = fl_inf_bits k + 2 ^ (ff_mant k - 1)"

primrec frel :: "float_fmt \<Rightarrow> frel_op \<Rightarrow> nat \<Rightarrow> nat \<Rightarrow> bool" where
  "frel k FEq a b = fl_eq k a b"
| "frel k FNe a b = (\<not> fl_eq k a b)"
| "frel k FLt a b = fl_lt k a b"
| "frel k FGt a b = fl_lt k b a"
| "frel k FLe a b = fl_le k a b"
| "frel k FGe a b = fl_le k b a"

definition quiet :: "float_fmt \<Rightarrow> (nat \<Rightarrow> nat) \<Rightarrow> nat \<Rightarrow> nat" where
  "quiet k f a = (if fl_is_nan k a then fl_nan k else f a)"

definition both_zero :: "float_fmt \<Rightarrow> nat \<Rightarrow> nat \<Rightarrow> bool" where
  "both_zero k a b \<longleftrightarrow> fl_mag k a = 0 \<and> fl_mag k b = 0"

definition fl_min :: "float_fmt \<Rightarrow> nat \<Rightarrow> nat \<Rightarrow> nat" where
  "fl_min k a b =
     (if fl_is_nan k a \<or> fl_is_nan k b then fl_nan k
      else if both_zero k a b then (if fl_neg_bit k a then a else b)
      else if fl_lt k b a then b else a)"

definition fl_max :: "float_fmt \<Rightarrow> nat \<Rightarrow> nat \<Rightarrow> nat" where
  "fl_max k a b =
     (if fl_is_nan k a \<or> fl_is_nan k b then fl_nan k
      else if both_zero k a b then (if fl_neg_bit k a then b else a)
      else if fl_lt k a b then b else a)"

primrec farith :: "libm \<Rightarrow> float_fmt \<Rightarrow> farith_op \<Rightarrow> nat \<Rightarrow> nat \<Rightarrow> nat" where
  "farith l k FAbs a b = lm_abs l k a"
| "farith l k FNeg a b = fl_neg k a"
| "farith l k FCeil a b = quiet k (lm_ceil l k) a"
| "farith l k FFloor a b = quiet k (lm_floor l k) a"
| "farith l k FTrunc a b = quiet k (lm_trunc l k) a"
| "farith l k FNearest a b = quiet k (lm_rint l k) a"
| "farith l k FSqrt a b = lm_sqrt l k a"
| "farith l k FAdd a b = fl_add k (lm_nan l k a b) a b"
| "farith l k FSub a b = fl_sub k (lm_nan l k a b) a b"
| "farith l k FMul a b = fl_mul k (lm_nan l k a b) a b"
| "farith l k FDiv a b = fl_div k (lm_nan l k a b) a b"
| "farith l k FMin a b = fl_min k a b"
| "farith l k FMax a b = fl_max k a b"
| "farith l k FCopysign a b = lm_copysign l k a b"

section \<open>Truncation\<close>

text \<open>
  The checks of a truncating instruction, whose constants \<open>hi\<close> and \<open>lo\<close> are float literals in the
  source, and the cast after them, which saturates at the bounds \<open>mn\<close> and \<open>mx\<close> of the integer type.
\<close>

definition trunc_guard :: "float_fmt \<Rightarrow> int \<Rightarrow> int \<Rightarrow> nat \<Rightarrow> (unit, interp_break) result" where
  "trunc_guard k hi lo f =
     (if fl_is_inf k f then Err (IB_Trap TR_UnrepresentableResult)
      else if fl_is_nan k f then Err (IB_Trap TR_BadConversionToInteger)
      else if fl_ge_int k f hi \<or> fl_le_int k f lo then Err (IB_Trap TR_UnrepresentableResult)
      else Ok ())"

definition trunc_to :: "float_fmt \<Rightarrow> int \<Rightarrow> int \<Rightarrow> int \<Rightarrow> int \<Rightarrow> nat \<Rightarrow> (int, interp_break) result" where
  "trunc_to k hi lo mn mx f = bindR (trunc_guard k hi lo f) (\<lambda>_. Ok (fl_to_int k mn mx f))"

definition i32_trunc_f32_s :: "nat \<Rightarrow> (int, interp_break) result" where
  "i32_trunc_f32_s = trunc_to F32 2147483648 (- 2147483904) (- (2 ^ 31)) (2 ^ 31 - 1)"

definition i32_trunc_f32_u :: "nat \<Rightarrow> (int, interp_break) result" where
  "i32_trunc_f32_u = trunc_to F32 4294967296 (- 1) 0 (2 ^ 32 - 1)"

definition i32_trunc_f64_s :: "nat \<Rightarrow> (int, interp_break) result" where
  "i32_trunc_f64_s = trunc_to F64 2147483648 (- 2147483649) (- (2 ^ 31)) (2 ^ 31 - 1)"

definition i32_trunc_f64_u :: "nat \<Rightarrow> (int, interp_break) result" where
  "i32_trunc_f64_u = trunc_to F64 4294967296 (- 1) 0 (2 ^ 32 - 1)"

definition i64_trunc_f32_s :: "nat \<Rightarrow> (int, interp_break) result" where
  "i64_trunc_f32_s = trunc_to F32 9223372036854775808 (- 9223373136366403584) (- (2 ^ 63)) (2 ^ 63 - 1)"

definition i64_trunc_f32_u :: "nat \<Rightarrow> (int, interp_break) result" where
  "i64_trunc_f32_u = trunc_to F32 18446744073709551616 (- 1) 0 (2 ^ 64 - 1)"

definition i64_trunc_f64_s :: "nat \<Rightarrow> (int, interp_break) result" where
  "i64_trunc_f64_s = trunc_to F64 9223372036854775808 (- 9223372036854777856) (- (2 ^ 63)) (2 ^ 63 - 1)"

definition i64_trunc_f64_u :: "nat \<Rightarrow> (int, interp_break) result" where
  "i64_trunc_f64_u = trunc_to F64 18446744073709551616 (- 1) 0 (2 ^ 64 - 1)"

section \<open>Truncation traps exactly when the value does not fit\<close>

text \<open>The reference: NaN, infinity, and the exact truncated value against the bounds of the type.\<close>

definition trunc_exact :: "float_fmt \<Rightarrow> int \<Rightarrow> int \<Rightarrow> nat \<Rightarrow> (int, interp_break) result" where
  "trunc_exact k mn mx f =
     (if fl_is_nan k f then Err (IB_Trap TR_BadConversionToInteger)
      else if \<not> fl_is_inf k f \<and> mn \<le> fl_trunc_int k f \<and> fl_trunc_int k f \<le> mx
      then Ok (fl_trunc_int k f)
      else Err (IB_Trap TR_UnrepresentableResult))"

text \<open>
  No float lies strictly between \<open>lo\<close> and \<open>mn - 1\<close>: either they are the same, or the magnitudes of
  \<open>mn\<close> and \<open>lo\<close> are neighbours.
\<close>

definition gap :: "float_fmt \<Rightarrow> int \<Rightarrow> int \<Rightarrow> bool" where
  "gap k mn lo \<longleftrightarrow> lo = mn - 1 \<or> (\<exists>b. int (mag_value k b) = - mn * 2 ^ fl_shift k \<and>
     int (mag_value k (Suc b)) = - lo * 2 ^ fl_shift k)"

lemma int_le_div: "0 < p \<Longrightarrow> (c::int) \<le> x div p \<longleftrightarrow> c * p \<le> x"
proof
  assume p: "0 < p"
  assume "c \<le> x div p"
  then have "c * p \<le> (x div p) * p" using p by (simp add: mult_right_mono)
  also have "\<dots> \<le> x" using p div_mult_mod_eq [of x p] pos_mod_sign [of p x] by linarith
  finally show "c * p \<le> x" .
next
  assume p: "0 < p" and le: "c * p \<le> x"
  show "c \<le> x div p"
  proof (rule ccontr)
    assume "\<not> c \<le> x div p"
    then have "(x div p + 1) * p \<le> c * p" using p by (intro mult_right_mono) simp_all
    then have "(x div p) * p + p \<le> x" using le by (simp add: algebra_simps)
    moreover have "x = p * (x div p) + x mod p" "x mod p < p" using p by simp_all
    ultimately show False by (simp add: mult.commute)
  qed
qed

lemma trunc_pos:
  assumes "\<not> fl_neg_bit k f"
  shows "0 \<le> fl_trunc_int k f" "0 \<le> scaled k f" "c * 2 ^ fl_shift k \<le> scaled k f \<longleftrightarrow> c \<le> fl_trunc_int k f"
proof -
  have "c \<le> int (mag_value k (fl_mag k f)) div 2 ^ fl_shift k \<longleftrightarrow> c * 2 ^ fl_shift k \<le> int (mag_value k (fl_mag k f))"
    by (rule int_le_div) simp
  then show "c * 2 ^ fl_shift k \<le> scaled k f \<longleftrightarrow> c \<le> fl_trunc_int k f"
    using assms by (simp add: scaled_def fl_trunc_int_def zdiv_int)
qed (use assms in \<open>simp_all add: scaled_def fl_trunc_int_def Let_def\<close>)

lemma trunc_neg:
  assumes "fl_neg_bit k f"
  shows "fl_trunc_int k f \<le> 0" "scaled k f \<le> 0" "scaled k f \<le> c * 2 ^ fl_shift k \<longleftrightarrow> fl_trunc_int k f \<le> c"
proof -
  have "- c \<le> int (mag_value k (fl_mag k f)) div 2 ^ fl_shift k \<longleftrightarrow> - c * 2 ^ fl_shift k \<le> int (mag_value k (fl_mag k f))"
    by (rule int_le_div) simp
  then show "scaled k f \<le> c * 2 ^ fl_shift k \<longleftrightarrow> fl_trunc_int k f \<le> c"
    using assms by (simp add: scaled_def fl_trunc_int_def zdiv_int) linarith
qed (use assms in \<open>simp_all add: scaled_def fl_trunc_int_def Let_def\<close>)

lemma trunc_low:
  assumes neg: "fl_neg_bit k f" and gap: "gap k mn lo"
  shows "scaled k f \<le> lo * 2 ^ fl_shift k \<longleftrightarrow> fl_trunc_int k f < mn"
proof (cases "lo = mn - 1")
  case True
  then show ?thesis using trunc_neg(3) [OF neg, of lo] by auto
next
  case False
  let ?P = "2 ^ fl_shift k :: int" and ?m = "fl_mag k f"
  have P: "0 < ?P" by simp
  obtain b where b: "int (mag_value k b) = - mn * ?P" "int (mag_value k (Suc b)) = - lo * ?P"
    using gap False by (auto simp: gap_def)
  have val: "scaled k f = - int (mag_value k ?m)" using neg by (simp add: scaled_def)
  show ?thesis
  proof
    assume "scaled k f \<le> lo * ?P"
    moreover have "lo * ?P < mn * ?P" using mag_value_lt_Suc [of k b] b by linarith
    ultimately show "fl_trunc_int k f < mn"
      using trunc_neg(3) [OF neg, of lo] P by (simp add: mult_less_cancel_right)
  next
    assume "fl_trunc_int k f < mn"
    then have "scaled k f \<le> (mn - 1) * ?P" using trunc_neg(3) [OF neg, of "mn - 1"] by auto
    moreover have "(mn - 1) * ?P = mn * ?P - ?P" by (simp add: algebra_simps)
    ultimately have "int (mag_value k b) < int (mag_value k ?m)" using b(1) val P by linarith
    then have "mag_value k b < mag_value k ?m" by simp
    then have "mag_value k (Suc b) \<le> mag_value k ?m"
      using mag_value_le_iff [of k ?m b] mag_value_le_iff [of k "Suc b" ?m] by (simp add: not_le)
    then show "scaled k f \<le> lo * ?P" using b(2) val by simp
  qed
qed

lemma trunc_to_exact:
  assumes "mn \<le> 0" "0 \<le> mx" "hi = mx + 1" "lo < 0" "gap k mn lo"
  shows "trunc_to k hi lo mn mx f = trunc_exact k mn mx f"
proof -
  let ?P = "2 ^ fl_shift k :: int"
  have P: "0 < ?P" by simp
  have "hi * ?P \<le> scaled k f \<or> scaled k f \<le> lo * ?P \<longleftrightarrow> \<not> (mn \<le> fl_trunc_int k f \<and> fl_trunc_int k f \<le> mx)"
  proof (cases "fl_neg_bit k f")
    case True
    have "0 < hi * ?P" using P assms(2,3) by (simp add: zero_less_mult_iff)
    then have "\<not> hi * ?P \<le> scaled k f" using trunc_neg(2) [OF True] by linarith
    then show ?thesis using trunc_low [OF True assms(5)] trunc_neg(1) [OF True] assms(2) by linarith
  next
    case False
    have "lo * ?P < 0" using P assms(4) by (simp add: mult_neg_pos)
    then have "lo * ?P < scaled k f" using trunc_pos(2) [OF False] by linarith
    then have "\<not> scaled k f \<le> lo * ?P" by simp
    moreover have "hi * ?P \<le> scaled k f \<longleftrightarrow> mx + 1 \<le> fl_trunc_int k f"
      unfolding assms(3) by (rule trunc_pos(3) [OF False])
    ultimately show ?thesis using trunc_pos(1) [OF False] assms(1) by linarith
  qed
  note fits = this
  show ?thesis
  proof (cases "fl_is_nan k f \<or> fl_is_inf k f")
    case True
    then show ?thesis
      by (auto simp: trunc_to_def trunc_guard_def trunc_exact_def fl_is_nan_def fl_is_inf_def bindR_def)
  next
    case False
    then have "trunc_to k hi lo mn mx f =
        (if hi * ?P \<le> scaled k f \<or> scaled k f \<le> lo * ?P then Err (IB_Trap TR_UnrepresentableResult)
         else Ok (max mn (min mx (fl_trunc_int k f))))"
      by (simp add: trunc_to_def trunc_guard_def fl_ge_int_def fl_le_int_def fl_to_int_def bindR_def)
    then show ?thesis using False unfolding fits by (simp add: trunc_exact_def)
  qed
qed

lemma mag_gap:
  "int (mag_value k b) = - mn * 2 ^ fl_shift k \<Longrightarrow> int (mag_value k (Suc b)) = - lo * 2 ^ fl_shift k \<Longrightarrow> gap k mn lo"
  by (auto simp: gap_def)

lemma gaps:
  "gap F32 (- (2 ^ 31)) (- 2147483904)" "gap F32 (- (2 ^ 63)) (- 9223373136366403584)"
  "gap F64 (- (2 ^ 63)) (- 9223372036854777856)"
  by (rule mag_gap [where b = "0x4F000000"] mag_gap [where b = "0x5F000000"] mag_gap [where b = "0x43E0000000000000"];
      simp add: mag_value_def fl_shift_def F32_def F64_def Let_def)+

text \<open>
  Claim C39. The truncating instructions are exact: each traps with \<open>BadConversionToInteger\<close> on NaN, with
  \<open>UnrepresentableResult\<close> exactly when the truncated value (or infinity) lies outside the integer type,
  and otherwise returns the truncated value, although the source compares with the nearest floats it
  can write as literals and then casts with saturation.
\<close>

theorem truncations_exact:
  "i32_trunc_f32_s f = trunc_exact F32 (- (2 ^ 31)) (2 ^ 31 - 1) f \<and>
   i32_trunc_f32_u f = trunc_exact F32 0 (2 ^ 32 - 1) f \<and>
   i32_trunc_f64_s f = trunc_exact F64 (- (2 ^ 31)) (2 ^ 31 - 1) f \<and>
   i32_trunc_f64_u f = trunc_exact F64 0 (2 ^ 32 - 1) f \<and>
   i64_trunc_f32_s f = trunc_exact F32 (- (2 ^ 63)) (2 ^ 63 - 1) f \<and>
   i64_trunc_f32_u f = trunc_exact F32 0 (2 ^ 64 - 1) f \<and>
   i64_trunc_f64_s f = trunc_exact F64 (- (2 ^ 63)) (2 ^ 63 - 1) f \<and>
   i64_trunc_f64_u f = trunc_exact F64 0 (2 ^ 64 - 1) f"
  unfolding i32_trunc_f32_s_def i32_trunc_f32_u_def i32_trunc_f64_s_def i32_trunc_f64_u_def
    i64_trunc_f32_s_def i64_trunc_f32_u_def i64_trunc_f64_s_def i64_trunc_f64_u_def
  by (intro conjI trunc_to_exact gaps; simp add: gap_def)

section \<open>Signed division\<close>

lemma sdiv_bounds:
  fixes x y :: int
  assumes y: "y \<noteq> 0" and x: "- m \<le> x" "x < m" and ov: "\<not> (x = - m \<and> y = - 1)"
  shows "- m \<le> x sdiv y \<and> x sdiv y < m"
proof -
  have eq: "x sdiv y = sgn x * sgn y * (\<bar>x\<bar> div \<bar>y\<bar>)" by (simp add: signed_divide_int_def)
  have nonneg: "0 \<le> \<bar>x\<bar> div \<bar>y\<bar>" using y by (simp add: pos_imp_zdiv_nonneg_iff)
  have le: "\<bar>x\<bar> div \<bar>y\<bar> \<le> \<bar>x\<bar>" using zdiv_mono2 [of "\<bar>x\<bar>" 1 "\<bar>y\<bar>"] y by simp
  show ?thesis
  proof (cases "\<bar>x\<bar> div \<bar>y\<bar> = m")
    case True
    then have "x = - m" using le x by linarith
    moreover have "\<bar>y\<bar> = 1"
    proof (rule ccontr)
      assume "\<bar>y\<bar> \<noteq> 1"
      then have "1 < \<bar>y\<bar>" using y by linarith
      moreover have "0 < m" using x by linarith
      ultimately have "\<bar>x\<bar> div \<bar>y\<bar> < \<bar>x\<bar>" using \<open>x = - m\<close> by (intro int_div_less_self) simp_all
      then show False using True \<open>x = - m\<close> \<open>0 < m\<close> by linarith
    qed
    ultimately show ?thesis using ov x y by (auto simp: abs_if split: if_splits)
  next
    case False
    then have "\<bar>x\<bar> div \<bar>y\<bar> < m" using le x by linarith
    then have "\<bar>x sdiv y\<bar> < m" using nonneg x y unfolding eq by (auto simp: sgn_if)
    then show ?thesis by linarith
  qed
qed

lemma sint_word_of_int:
  fixes x :: int
  assumes "- (2 ^ (LENGTH('a::len) - 1)) \<le> x" "x < 2 ^ (LENGTH('a) - 1)"
  shows "sint (word_of_int x :: 'a word) = x"
  by (simp only: sint_sbintrunc' signed_take_bit_int_eq_self_iff) (use assms in simp)

lemma smod_bounds:
  fixes x y :: int
  assumes "y \<noteq> 0" "- m \<le> x" "x < m"
  shows "- m \<le> x smod y \<and> x smod y < m"
proof -
  have "x smod y = sgn x * (\<bar>x\<bar> mod \<bar>y\<bar>)" by (simp add: signed_modulo_int_def smod_int_alt_def)
  moreover have "\<bar>x\<bar> mod \<bar>y\<bar> \<le> \<bar>x\<bar>" "0 \<le> \<bar>x\<bar> mod \<bar>y\<bar>" using assms(1) by (simp_all add: zmod_le_nonneg_dividend)
  ultimately have "\<bar>x smod y\<bar> \<le> \<bar>x\<bar>" "x < 0 \<Longrightarrow> x smod y \<le> 0" "0 \<le> x \<Longrightarrow> 0 \<le> x smod y"
    by (auto simp: abs_mult abs_sgn_eq sgn_if)
  then show ?thesis using assms by linarith
qed

text \<open>
  Claim C40. Signed division and remainder are exact: unless the divisor is 0, or the quotient of the
  smallest integer by -1 is asked for, quotient and remainder are those of the integers rounded towards
  0, without wrap-around; the remainder of that exceptional case is 0; and every trap names its cause.
\<close>

theorem signed_division_exact:
  fixes a b :: "'a::len word"
  shows "case (iarith IDiv_s a b, iarith IRem_s a b) of
      (Ok q, Ok r) \<Rightarrow> sint q = sint a sdiv sint b \<and> sint r = sint a smod sint b \<and> q * b + r = a
    | (Err e, Ok r) \<Rightarrow> e = IB_Trap TR_IntegerOverflow \<and> sint a = - (2 ^ (LENGTH('a) - 1)) \<and> b = - 1 \<and> r = 0
    | (Err e, Err e') \<Rightarrow> e = IB_Trap TR_DivideByZero \<and> e' = e \<and> b = 0
    | _ \<Rightarrow> False"
proof -
  let ?m = "2 ^ (LENGTH('a) - 1) :: int"
  have a: "- ?m \<le> sint a" "sint a < ?m" using sint_ge [of a] sint_lt [of a] by simp_all
  have eq: "word_of_int (sint a sdiv sint b) * b + word_of_int (sint a smod sint b) = a"
  proof -
    have "word_of_int (sint a sdiv sint b * sint b + sint a smod sint b) = (word_of_int (sint a) :: 'a word)"
      by (simp only: sdiv_mult_smod_eq)
    then show ?thesis by simp
  qed
  show ?thesis
  proof (cases "b = 0")
    case True
    then show ?thesis by simp
  next
    case False
    then have b: "sint b \<noteq> 0" using signed_word_eqI [of b 0] by auto
    have r: "sint (word_of_int (sint a smod sint b) :: 'a word) = sint a smod sint b"
      by (rule sint_word_of_int; use smod_bounds [OF b a] in simp)
    show ?thesis
    proof (cases "sint a = - ?m \<and> b = - 1")
      case True
      have "(2 ^ (LENGTH('a) - Suc 0) :: int) smod 1 = 0" by (simp add: signed_modulo_int_def)
      then show ?thesis using True False by simp
    next
      case no: False
      have "sint b \<noteq> - 1 \<or> b = - 1" by (metis signed_word_eqI sint_n1)
      then have "\<not> (sint a = - ?m \<and> sint b = - 1)" using no by auto
      then have "sint (word_of_int (sint a sdiv sint b) :: 'a word) = sint a sdiv sint b"
        by (intro sint_word_of_int; use sdiv_bounds [OF b a] in simp)
      then show ?thesis using False no r eq by (simp only: iarith.simps if_False prod.case result.case simp_thms)
    qed
  qed
qed

end
