(* ===== verification/Interp.thy ===== *)
theory Interp
  imports Numerics Compiler
begin

text \<open>
  The instruction handlers of the interpreter (src/interpreter.rs, \<open>impl BaseVisitor for Interpreter\<close>
  and \<open>impl IrVisitor for Interpreter\<close>), each as a function on the engine. A handler that traps or pauses
  is an \<open>Err\<close>; a stack access out of the buffer, an \<open>unwrap\<close> and an \<open>unreachable!\<close> are a \<open>Panic\<close>.
  \<open>ir_op\<close> is the interface to the IR reader: one constructor per method of the visitor, except for
  \<open>br_table\<close>, whose closure makes it a handler of its own.
\<close>

section \<open>Stack shapes\<close>

text \<open>The macro \<open>instruction!\<close>: operands in place, one word or two, and the result over the first.\<close>

definition un32 :: "(u32 \<Rightarrow> (u32, interp_break) result) \<Rightarrow> ('h, unit) em" where
  "un32 f = bindM (sp_minus 1) (\<lambda>p. bindM (rd32 p) (\<lambda>v. bindM (liftR (f v)) (wr32 p)))"

definition un64 :: "(u64 \<Rightarrow> (u64, interp_break) result) \<Rightarrow> ('h, unit) em" where
  "un64 f = bindM (sp_minus 2) (\<lambda>p. bindM (rd64 p) (\<lambda>v. bindM (liftR (f v)) (wr64 p)))"

definition bin32 :: "(u32 \<Rightarrow> u32 \<Rightarrow> (u32, interp_break) result) \<Rightarrow> ('h, unit) em" where
  "bin32 f = thenM (sp_sub 1) (bindM (getM en_sp) (\<lambda>sp. bindM (rd32 sp) (\<lambda>b.
     bindM (sp_minus 1) (\<lambda>p. bindM (rd32 p) (\<lambda>a. bindM (liftR (f a b)) (wr32 p))))))"

definition bin64 :: "(u64 \<Rightarrow> u64 \<Rightarrow> (u64, interp_break) result) \<Rightarrow> ('h, unit) em" where
  "bin64 f = thenM (sp_sub 2) (bindM (getM en_sp) (\<lambda>sp. bindM (rd64 sp) (\<lambda>b.
     bindM (sp_minus 2) (\<lambda>p. bindM (rd64 p) (\<lambda>a. bindM (liftR (f a b)) (wr64 p))))))"

definition truth :: "bool \<Rightarrow> u32" where
  "truth c = (if c then 1 else 0)"

definition test32 :: "(u32 \<Rightarrow> bool) \<Rightarrow> ('h, unit) em" where
  "test32 c = bindM (sp_minus 1) (\<lambda>p. bindM (rd32 p) (\<lambda>v. wr32 p (truth (c v))))"

definition test64 :: "(u64 \<Rightarrow> bool) \<Rightarrow> ('h, unit) em" where
  "test64 c = thenM (sp_sub 1) (bindM (sp_minus 1) (\<lambda>p. bindM (rd64 p) (\<lambda>v. wr32 p (truth (c v)))))"

definition rel32 :: "(u32 \<Rightarrow> u32 \<Rightarrow> bool) \<Rightarrow> ('h, unit) em" where
  "rel32 c = bin32 (\<lambda>a b. Ok (truth (c a b)))"

definition rel64 :: "(u64 \<Rightarrow> u64 \<Rightarrow> bool) \<Rightarrow> ('h, unit) em" where
  "rel64 c = thenM (sp_sub 3) (bindM (getM en_sp) (\<lambda>sp. bindM (rd64 (sp + 1)) (\<lambda>b.
     bindM (sp_minus 1) (\<lambda>p. bindM (rd64 p) (\<lambda>a. wr32 p (truth (c a b)))))))"

text \<open>Conversions between one word and two; \<open>shrink_after\<close> is \<open>i32_wrap_i64\<close>.\<close>

definition widen :: "(u32 \<Rightarrow> (u64, interp_break) result) \<Rightarrow> ('h, unit) em" where
  "widen f = bindM (sp_minus 1) (\<lambda>p. bindM (rd32 p) (\<lambda>v. bindM (liftR (f v)) (\<lambda>r.
     thenM (wr64 p r) (sp_add 1))))"

definition shrink :: "(u64 \<Rightarrow> (u32, interp_break) result) \<Rightarrow> ('h, unit) em" where
  "shrink f = thenM (sp_sub 1) (bindM (sp_minus 1) (\<lambda>p. bindM (rd64 p) (\<lambda>v. bindM (liftR (f v)) (wr32 p))))"

definition shrink_after :: "(u64 \<Rightarrow> u32) \<Rightarrow> ('h, unit) em" where
  "shrink_after f = bindM (sp_minus 2) (\<lambda>p. bindM (rd64 p) (\<lambda>v. thenM (wr32 p (f v)) (sp_sub 1)))"

section \<open>Numeric instructions\<close>

definition float32 :: "(nat \<Rightarrow> nat \<Rightarrow> nat) \<Rightarrow> u32 \<Rightarrow> u32 \<Rightarrow> (u32, interp_break) result" where
  "float32 f a b = Ok (word_of_nat (f (unat a) (unat b)))"

definition float64 :: "(nat \<Rightarrow> nat \<Rightarrow> nat) \<Rightarrow> u64 \<Rightarrow> u64 \<Rightarrow> (u64, interp_break) result" where
  "float64 f a b = Ok (word_of_nat (f (unat a) (unat b)))"

text \<open>The result of a truncation as a word.\<close>

definition to_word :: "(int, interp_break) result \<Rightarrow> ('a::len word, interp_break) result" where
  "to_word r = bindR r (\<lambda>i. Ok (word_of_int i))"

primrec interp_conv :: "libm \<Rightarrow> conv_op \<Rightarrow> ('h, unit) em" where
  "interp_conv l I32_WRAP_I64 = shrink_after ucast"
| "interp_conv l I32_TRUNC_F32_S = un32 (\<lambda>f. to_word (i32_trunc_f32_s (unat f)))"
| "interp_conv l I32_TRUNC_F32_U = un32 (\<lambda>f. to_word (i32_trunc_f32_u (unat f)))"
| "interp_conv l I32_TRUNC_F64_S = shrink (\<lambda>f. to_word (i32_trunc_f64_s (unat f)))"
| "interp_conv l I32_TRUNC_F64_U = shrink (\<lambda>f. to_word (i32_trunc_f64_u (unat f)))"
| "interp_conv l I64_EXTEND_I32_S = widen (\<lambda>i. Ok (scast i))"
| "interp_conv l I64_EXTEND_I32_U = widen (\<lambda>i. Ok (ucast i))"
| "interp_conv l I64_TRUNC_F32_S = widen (\<lambda>f. to_word (i64_trunc_f32_s (unat f)))"
| "interp_conv l I64_TRUNC_F32_U = widen (\<lambda>f. to_word (i64_trunc_f32_u (unat f)))"
| "interp_conv l I64_TRUNC_F64_S = un64 (\<lambda>f. to_word (i64_trunc_f64_s (unat f)))"
| "interp_conv l I64_TRUNC_F64_U = un64 (\<lambda>f. to_word (i64_trunc_f64_u (unat f)))"
| "interp_conv l F32_CONVERT_I32_S = un32 (\<lambda>i. Ok (word_of_nat (fl_of_int F32 (sint i))))"
| "interp_conv l F32_CONVERT_I32_U = un32 (\<lambda>i. Ok (word_of_nat (fl_of_int F32 (uint i))))"
| "interp_conv l F32_CONVERT_I64_S = shrink (\<lambda>i. Ok (word_of_nat (fl_of_int F32 (sint i))))"
| "interp_conv l F32_CONVERT_I64_U = shrink (\<lambda>i. Ok (word_of_nat (fl_of_int F32 (uint i))))"
| "interp_conv l F32_DEMOTE_F64 = shrink (\<lambda>f. Ok (word_of_nat (fl_convert F64 F32 (lm_nan l F32 (unat f) 0) (unat f))))"
| "interp_conv l F64_CONVERT_I32_S = widen (\<lambda>i. Ok (word_of_nat (fl_of_int F64 (sint i))))"
| "interp_conv l F64_CONVERT_I32_U = widen (\<lambda>i. Ok (word_of_nat (fl_of_int F64 (uint i))))"
| "interp_conv l F64_CONVERT_I64_S = un64 (\<lambda>i. Ok (word_of_nat (fl_of_int F64 (sint i))))"
| "interp_conv l F64_CONVERT_I64_U = un64 (\<lambda>i. Ok (word_of_nat (fl_of_int F64 (uint i))))"
| "interp_conv l F64_PROMOTE_F32 = widen (\<lambda>f. Ok (word_of_nat (fl_convert F32 F64 (lm_nan l F64 (unat f) 0) (unat f))))"

primrec interp_extend :: "extend_op \<Rightarrow> ('h, unit) em" where
  "interp_extend I32_EXTEND_8_S = un32 (\<lambda>v. Ok (scast (ucast v :: u8)))"
| "interp_extend I32_EXTEND_16_S = un32 (\<lambda>v. Ok (scast (ucast v :: u16)))"
| "interp_extend I64_EXTEND_8_S = un64 (\<lambda>v. Ok (scast (ucast v :: u8)))"
| "interp_extend I64_EXTEND_16_S = un64 (\<lambda>v. Ok (scast (ucast v :: u16)))"
| "interp_extend I64_EXTEND_32_S = un64 (\<lambda>v. Ok (scast (ucast v :: u32)))"

definition cast_s :: "nat \<Rightarrow> float_fmt \<Rightarrow> nat \<Rightarrow> int" where
  "cast_s w k f = fl_to_int k (- (2 ^ (w - 1))) (2 ^ (w - 1) - 1) f"

definition cast_u :: "nat \<Rightarrow> float_fmt \<Rightarrow> nat \<Rightarrow> int" where
  "cast_u w k f = fl_to_int k 0 (2 ^ w - 1) f"

primrec interp_sat :: "sat_op \<Rightarrow> ('h, unit) em" where
  "interp_sat I32_TRUNC_SAT_F32_S = un32 (\<lambda>f. Ok (word_of_int (cast_s 32 F32 (unat f))))"
| "interp_sat I32_TRUNC_SAT_F32_U = un32 (\<lambda>f. Ok (word_of_int (cast_u 32 F32 (unat f))))"
| "interp_sat I32_TRUNC_SAT_F64_S = shrink (\<lambda>f. Ok (word_of_int (cast_s 32 F64 (unat f))))"
| "interp_sat I32_TRUNC_SAT_F64_U = shrink (\<lambda>f. Ok (word_of_int (cast_u 32 F64 (unat f))))"
| "interp_sat I64_TRUNC_SAT_F32_S = widen (\<lambda>f. Ok (word_of_int (cast_s 64 F32 (unat f))))"
| "interp_sat I64_TRUNC_SAT_F32_U = widen (\<lambda>f. Ok (word_of_int (cast_u 64 F32 (unat f))))"
| "interp_sat I64_TRUNC_SAT_F64_S = un64 (\<lambda>f. Ok (word_of_int (cast_s 64 F64 (unat f))))"
| "interp_sat I64_TRUNC_SAT_F64_U = un64 (\<lambda>f. Ok (word_of_int (cast_u 64 F64 (unat f))))"

fun interp_base :: "libm \<Rightarrow> base_op \<Rightarrow> ('h, unit) em" where
  "interp_base l (IRel W32 x) = (if x = IEqz then test32 (\<lambda>i. i = 0) else rel32 (irel x))"
| "interp_base l (IRel W64 x) = (if x = IEqz then test64 (\<lambda>i. i = 0) else rel64 (irel x))"
| "interp_base l (FRel W32 x) = rel32 (\<lambda>a b. frel F32 x (unat a) (unat b))"
| "interp_base l (FRel W64 x) = rel64 (\<lambda>a b. frel F64 x (unat a) (unat b))"
| "interp_base l (IArith W32 x) = (if iarith_unary x then un32 (\<lambda>a. iarith x a 0) else bin32 (iarith x))"
| "interp_base l (IArith W64 x) = (if iarith_unary x then un64 (\<lambda>a. iarith x a 0) else bin64 (iarith x))"
| "interp_base l (FArith W32 x) =
     (if farith_unary x then un32 (\<lambda>a. float32 (farith l F32 x) a 0) else bin32 (float32 (farith l F32 x)))"
| "interp_base l (FArith W64 x) =
     (if farith_unary x then un64 (\<lambda>a. float64 (farith l F64 x) a 0) else bin64 (float64 (farith l F64 x)))"
| "interp_base l (Conv x) = interp_conv l x"
| "interp_base l (Extend x) = interp_extend x"
| "interp_base l (TruncSat x) = interp_sat x"

section \<open>Memory instructions\<close>

text \<open>\<open>From<MemoryError> for InterpreterBreak\<close>.\<close>

definition liftMem :: "('a, memory_error) result \<Rightarrow> ('h, 'a) em" where
  "liftMem r = (case r of
     Ok a \<Rightarrow> retM a
   | Err ME_OutOfBounds \<Rightarrow> errM (IB_Trap TR_MemoryOutOfBounds)
   | Err ME_OutOfMemory \<Rightarrow> errM (IB_Trap TR_OutOfMemory)
   | _ \<Rightarrow> panicM)"

text \<open>The memory of the running module, and a new value for it.\<close>

definition the_memory :: "('h, memory) em" where
  "the_memory = bindM (getM (\<lambda>s. get_opt (st_memories (en_store s)) (en_memory s))) (\<lambda>c.
     bindM (unwrapM c) (\<lambda>cell. retM (cell_value cell)))"

definition set_memory :: "nat \<Rightarrow> memory \<Rightarrow> 'h engine \<Rightarrow> 'h engine" where
  "set_memory a m s = s\<lparr>en_store := (en_store s)\<lparr>st_memories :=
     (st_memories (en_store s))[a := (st_memories (en_store s) ! a)\<lparr>cell_value := m\<rparr>]\<rparr>\<rparr>"

definition load_at :: "(memory \<Rightarrow> nat \<Rightarrow> ('w::len word, memory_error) result) \<Rightarrow> u32 \<Rightarrow> nat \<Rightarrow> ('h, 'w word) em" where
  "load_at ld offset p = bindM (rd32 p) (\<lambda>base. bindM (liftMem (effective_address base offset)) (\<lambda>addr.
     bindM the_memory (\<lambda>m. liftMem (ld m addr))))"

definition load_32 :: "(memory \<Rightarrow> nat \<Rightarrow> ('w::len word, memory_error) result) \<Rightarrow> ('w word \<Rightarrow> u32) \<Rightarrow> u32 \<Rightarrow> ('h, unit) em" where
  "load_32 ld f offset = bindM (sp_minus 1) (\<lambda>p. bindM (load_at ld offset p) (\<lambda>v. wr32 p (f v)))"

definition load_64 :: "(memory \<Rightarrow> nat \<Rightarrow> ('w::len word, memory_error) result) \<Rightarrow> ('w word \<Rightarrow> u64) \<Rightarrow> u32 \<Rightarrow> ('h, unit) em" where
  "load_64 ld f offset = bindM (sp_minus 1) (\<lambda>p. bindM (load_at ld offset p) (\<lambda>v.
     thenM (wr64 p (f v)) (sp_add 1)))"

definition store_at :: "(memory \<Rightarrow> nat \<Rightarrow> 'w::len word \<Rightarrow> (memory, memory_error) result) \<Rightarrow> u32 \<Rightarrow> 'w word \<Rightarrow> ('h, unit) em" where
  "store_at st offset v = bindM (getM en_sp) (\<lambda>sp. bindM (rd32 sp) (\<lambda>base.
     bindM (liftMem (effective_address base offset)) (\<lambda>addr.
     bindM the_memory (\<lambda>m. bindM (liftMem (st m addr v)) (\<lambda>m'. modifyM (\<lambda>s. set_memory (en_memory s) m' s))))))"

definition store_32 :: "(memory \<Rightarrow> nat \<Rightarrow> 'w::len word \<Rightarrow> (memory, memory_error) result) \<Rightarrow> (u32 \<Rightarrow> 'w word) \<Rightarrow> u32 \<Rightarrow> ('h, unit) em" where
  "store_32 st f offset = thenM (sp_sub 2) (bindM (getM en_sp) (\<lambda>sp. bindM (rd32 (sp + 1)) (\<lambda>v.
     store_at st offset (f v))))"

definition store_64 :: "(memory \<Rightarrow> nat \<Rightarrow> 'w::len word \<Rightarrow> (memory, memory_error) result) \<Rightarrow> (u64 \<Rightarrow> 'w word) \<Rightarrow> u32 \<Rightarrow> ('h, unit) em" where
  "store_64 st f offset = thenM (sp_sub 3) (bindM (getM en_sp) (\<lambda>sp. bindM (rd64 (sp + 1)) (\<lambda>v.
     store_at st offset (f v))))"

primrec interp_mem :: "mem_op \<Rightarrow> u32 \<Rightarrow> ('h, unit) em" where
  "interp_mem I32_LOAD = load_32 load_u32 id"
| "interp_mem I64_LOAD = load_64 load_u64 id"
| "interp_mem F32_LOAD = load_32 load_u32 id"
| "interp_mem F64_LOAD = load_64 load_u64 id"
| "interp_mem I32_LOAD8_S = load_32 load_u8 scast"
| "interp_mem I32_LOAD8_U = load_32 load_u8 ucast"
| "interp_mem I32_LOAD16_S = load_32 load_u16 scast"
| "interp_mem I32_LOAD16_U = load_32 load_u16 ucast"
| "interp_mem I64_LOAD8_S = load_64 load_u8 scast"
| "interp_mem I64_LOAD8_U = load_64 load_u8 ucast"
| "interp_mem I64_LOAD16_S = load_64 load_u16 scast"
| "interp_mem I64_LOAD16_U = load_64 load_u16 ucast"
| "interp_mem I64_LOAD32_S = load_64 load_u32 scast"
| "interp_mem I64_LOAD32_U = load_64 load_u32 ucast"
| "interp_mem I32_STORE = store_32 store_u32 id"
| "interp_mem I64_STORE = store_64 store_u64 id"
| "interp_mem F32_STORE = store_32 store_u32 id"
| "interp_mem F64_STORE = store_64 store_u64 id"
| "interp_mem I32_STORE8 = store_32 store_u8 ucast"
| "interp_mem I32_STORE16 = store_32 store_u16 ucast"
| "interp_mem I64_STORE8 = store_64 store_u8 ucast"
| "interp_mem I64_STORE16 = store_64 store_u16 ucast"
| "interp_mem I64_STORE32 = store_64 store_u32 ucast"

definition interp_memory_size :: "('h, unit) em" where
  "interp_memory_size = bindM the_memory (\<lambda>m. push32 (memory_size m))"

text \<open>
  \<open>memory_grow\<close>: the engine gives up its reference, the owner's must be the only one left, and a
  refused growth is the value -1.
\<close>

definition interp_memory_grow :: "alloc_response \<Rightarrow> ('h, unit) em" where
  "interp_memory_grow alloc = bindM (sp_minus 1) (\<lambda>p. bindM (rd32 p) (\<lambda>n.
     thenM (modifyM clear_memory)
     (bindM (getM (\<lambda>s. get_memory (en_store s) (en_module s))) (\<lambda>r. bindM (unwrapM r) (\<lambda>a.
      bindM (getM (\<lambda>s. (en_store s, get_opt (st_memories (en_store s)) a))) (\<lambda>(st, c). bindM (unwrapM c) (\<lambda>cell.
      bindM (if is_zero (cell_value cell) then retM 0xFFFFFFFF
             else if memory_refs st a = 1 then
               (case memory_grow alloc n (cell_value cell) of
                  (Ok old, m) \<Rightarrow> thenM (modifyM (set_memory a m)) (retM old)
                | (Err e, m) \<Rightarrow> thenM (modifyM (set_memory a m)) (retM 0xFFFFFFFF)
                | (Panic, m) \<Rightarrow> panicM)
             else errM (IB_Trap TR_MemoryRefNotUnique)) (\<lambda>v.
      thenM (modifyM (\<lambda>s. s\<lparr>en_memory := a\<rparr>)) (wr32 p v)))))))))"

end
