(* ===== verification/Interp_Control.thy ===== *)
theory Interp_Control
  imports Interp
begin

text \<open>
  The rest of the interpreter's visitor (src/interpreter.rs, \<open>impl IrVisitor for Interpreter\<close>): stack
  shuffling, branches, calls of all kinds, locals and globals; and \<open>interp_visit\<close>, which dispatches an
  instruction to its handler.
\<close>

datatype ir_op =
    Ir_unreachable | Ir_drop val_type | Ir_select val_type
  | Ir_if label_target | Ir_br label_target | Ir_br_if label_target
  | Ir_return u8 | Ir_call u16 | Ir_call_host u8 u16 | Ir_call_extern u8 u16 | Ir_call_indirect u32
  | Ir_local_get local_variable | Ir_local_set local_variable | Ir_local_tee local_variable
  | Ir_global_get u16 | Ir_global_set u16 | Ir_global_get_host u8 u16 | Ir_global_set_host u8 u16
  | Ir_global_get_extern u8 u16 | Ir_global_set_extern u8 u16
  | Ir_mem mem_op mem_arg | Ir_memory_size | Ir_memory_grow
  | Ir_i32_const u32 | Ir_i64_const u64 | Ir_f32_const u32 | Ir_f64_const u64
  | Ir_base base_op

section \<open>Parametric instructions\<close>

text \<open>Words of a value of a type on the stack.\<close>

primrec wide :: "val_type \<Rightarrow> bool" where
  "wide T_I32 = False" | "wide T_I64 = True" | "wide T_F32 = False" | "wide T_F64 = True"

definition interp_drop :: "val_type \<Rightarrow> ('h, unit) em" where
  "interp_drop ty = sp_sub (if wide ty then 2 else 1)"

definition interp_select :: "val_type \<Rightarrow> ('h, unit) em" where
  "interp_select ty = thenM (sp_sub 1) (bindM (getM en_sp) (\<lambda>sp. bindM (rd32 sp) (\<lambda>c.
     if wide ty then
       (if c \<noteq> 0 then sp_sub 2
        else bindM (sp_minus 2) (\<lambda>p2. bindM (rd64 p2) (\<lambda>v. bindM (sp_minus 4) (\<lambda>p1.
          thenM (wr64 p1 v) (sp_sub 2)))))
     else
       (if c \<noteq> 0 then sp_sub 1
        else bindM (sp_minus 1) (\<lambda>p2. bindM (rd32 p2) (\<lambda>v. bindM (sp_minus 2) (\<lambda>p1.
          thenM (wr32 p1 v) (sp_sub 1))))))))"

section \<open>Branches\<close>

definition pop_word :: "('h, u32) em" where
  "pop_word = thenM (sp_sub 1) (bindM (getM en_sp) rd32)"

definition interp_if :: "label_target \<Rightarrow> ('h, unit) em" where
  "interp_if l = bindM pop_word (\<lambda>v. whenM (v = 0)
     (modifyM (\<lambda>s. s\<lparr>en_pc := target_add (target_add (en_pc s) (JumpOffset 1)) (label_jump l), en_jumped := True\<rparr>)))"

definition interp_br :: "label_target \<Rightarrow> ('h, unit) em" where
  "interp_br l = br_impl (JumpOffset 1) l"

definition interp_br_if :: "label_target \<Rightarrow> ('h, unit) em" where
  "interp_br_if l = bindM pop_word (\<lambda>v. whenM (v \<noteq> 0) (br_impl (JumpOffset 1) l))"

text \<open>
  \<open>br_table\<close>: the closure \<open>cases\<close> reads the code, so it is an operation on the reader's program counter
  and the engine. The jump starts after the opcode and the cases before the chosen one.
\<close>

definition onSnd :: "('s, 'a, 'e) m \<Rightarrow> ('p \<times> 's, 'a, 'e) m" where
  "onSnd f = (\<lambda>(p, s). case f s of (r, t) \<Rightarrow> (r, (p, t)))"

definition interp_br_table ::
  "u32 \<Rightarrow> (u32 \<Rightarrow> (jump_target \<times> 'h engine, label_target, interp_break) m) \<Rightarrow> (jump_target \<times> 'h engine, unit, interp_break) m"
where
  "interp_br_table n cases = bindM (onSnd pop_word) (\<lambda>v. bindM (cases v) (\<lambda>label.
     let op_offset = (if 0xFF \<le> n then 2 else 1) in
     onSnd (if v < n then br_impl (JumpOffset (op_offset + 2 * v)) label
            else br_impl (JumpOffset (op_offset + 2 * n)) label)))"

section \<open>Calls\<close>

definition interp_call :: "u16 \<Rightarrow> ('h, unit) em" where
  "interp_call x = call_impl 0 x"

definition interp_call_extern :: "u8 \<Rightarrow> u16 \<Rightarrow> ('h, unit) em" where
  "interp_call_extern md x = call_impl_enter_module \<lparr>wr_module = md, wr_index = x\<rparr>"

definition MAX_HOST_FUNCTION_PARAMS :: nat where
  "MAX_HOST_FUNCTION_PARAMS = 9"

definition host_fn :: "'h engine \<Rightarrow> u8 \<Rightarrow> u16 \<Rightarrow> host_function option" where
  "host_fn s md x = Option.bind (get_opt (st_host_modules (en_store s)) (unat md)) (\<lambda>hm.
     get_opt (hmod_functions hm) (unat x))"

text \<open>The arguments of a host function, read upwards from \<open>a\<close> into a list of fixed capacity.\<close>

fun host_args :: "val_type list \<Rightarrow> nat \<Rightarrow> wasm_value list \<Rightarrow> ('h, wasm_value list) em" where
  "host_args [] a sv = retM sv"
| "host_args (ty # tys) a sv =
     bindM (case ty of
         T_I32 \<Rightarrow> bindM (rd32 a) (\<lambda>v. retM (V_I32 v, 1))
       | T_I64 \<Rightarrow> bindM (rd64 a) (\<lambda>v. retM (V_I64 v, 2))
       | T_F32 \<Rightarrow> bindM (rd32 a) (\<lambda>v. retM (V_F32 v, 1))
       | T_F64 \<Rightarrow> bindM (rd64 a) (\<lambda>v. retM (V_F64 v, 2))) (\<lambda>(v, n).
     case sv_push MAX_HOST_FUNCTION_PARAMS sv v of
       Ok sv' \<Rightarrow> host_args tys (a + n) sv'
     | _ \<Rightarrow> panicM)"

definition set_present :: "u8 \<Rightarrow> u16 \<Rightarrow> bool \<Rightarrow> 'h engine \<Rightarrow> 'h engine" where
  "set_present md x p s = (let st = en_store s; hms = st_host_modules st; hm = hms ! unat md; fs = hmod_functions hm in
     s\<lparr>en_store := st\<lparr>st_host_modules := hms[unat md := hm\<lparr>hmod_functions :=
       fs[unat x := (fs ! unat x)\<lparr>hf_present := p\<rparr>]\<rparr>]\<rparr>\<rparr>)"

text \<open>\<open>call_host_fn\<close> of src/store.rs: the closure is taken out for the duration of the call.\<close>

definition call_host_fn :: "'h host_api \<Rightarrow> u8 \<Rightarrow> u16 \<Rightarrow> wasm_value list \<Rightarrow> ('h, host_outcome) em" where
  "call_host_fn api md x args =
     bindM (getM (\<lambda>s. host_fn s md x)) (\<lambda>f. bindM (unwrapM f) (\<lambda>fn.
     if \<not> hf_present fn then panicM
     else thenM (modifyM (set_present md x False)) (\<lambda>s.
       case ha_call api md x args s of
         (Ok r, t) \<Rightarrow> (bindM (unwrapM (host_fn t md x)) (\<lambda>_. thenM (modifyM (set_present md x True)) (retM r))) t
       | (_, t) \<Rightarrow> (Panic, t))))"

definition host_result :: "wasm_value option \<Rightarrow> result_type \<Rightarrow> ('h, unit) em" where
  "host_result v ty = (case (v, ty) of
     (None, None) \<Rightarrow> retM ()
   | (Some (V_I32 i), Some T_I32) \<Rightarrow> push32 i
   | (Some (V_I64 i), Some T_I64) \<Rightarrow> push64 i
   | (Some (V_F32 f), Some T_F32) \<Rightarrow> push32 f
   | (Some (V_F64 f), Some T_F64) \<Rightarrow> push64 f
   | _ \<Rightarrow> panicM)"

definition interp_call_host :: "'h host_api \<Rightarrow> u8 \<Rightarrow> u16 \<Rightarrow> ('h, unit) em" where
  "interp_call_host api md x =
     bindM (getM (\<lambda>s. host_fn s md x)) (\<lambda>f. bindM (unwrapM f) (\<lambda>fn.
     thenM (sp_sub (host_param_size fn))
     (bindM (getM en_sp) (\<lambda>sp. bindM (host_args (hf_params fn) sp []) (\<lambda>sv.
      bindM (call_host_fn api md x sv) (\<lambda>r.
      bindM (getM (\<lambda>s. host_fn s md x)) (\<lambda>f'. bindM (unwrapM f') (\<lambda>fn'.
      case r of
        HO_Continue v \<Rightarrow> host_result v (hf_returns fn')
      | HO_Pause \<Rightarrow>
          bindM (getM en_pause) (\<lambda>other.
          thenM (modifyM (\<lambda>s. s\<lparr>en_pause := Some (hf_returns fn')\<rparr>))
          (if other \<noteq> None then panicM else errM IB_Pause))
      | HO_Trap \<Rightarrow> errM (IB_Trap TR_Host)))))))))"

text \<open>\<open>call_indirect\<close>: the callee's type must be the expected one, whatever module it is in.\<close>

definition the_table :: "('h, table_element list) em" where
  "the_table = bindM (getM (\<lambda>s. get_opt (st_tables (en_store s)) (en_table s))) (\<lambda>c.
     bindM (unwrapM c) (\<lambda>cell. retM (cell_value cell)))"

definition func_type_of :: "'h engine \<Rightarrow> u8 \<Rightarrow> u16 \<Rightarrow> func_type option" where
  "func_type_of s md index = Option.bind (get_func s md index) (\<lambda>(m, f). get_opt (md_types m) (unat (fn_ty f)))"

definition interp_call_indirect :: "'h host_api \<Rightarrow> u32 \<Rightarrow> ('h, unit) em" where
  "interp_call_indirect api x =
     bindM pop_word (\<lambda>i.
     bindM (getM (\<lambda>s. Option.bind (get_opt (st_modules (en_store s)) (unat (en_module s))) (\<lambda>m.
       get_opt (md_types m) (unat x)))) (\<lambda>e. bindM (unwrapM e) (\<lambda>expected.
     bindM the_table (\<lambda>tab.
     case get_opt tab (unat i) of
       None \<Rightarrow> errM (IB_Trap TR_InvalidTableIndex)
     | Some (TE_Func md index) \<Rightarrow>
         bindM (getM (\<lambda>s. func_type_of s md index)) (\<lambda>a. bindM (unwrapM a) (\<lambda>actual.
         if ft_params actual \<noteq> ft_params expected \<or> ft_returns actual \<noteq> ft_returns expected
         then errM (IB_Trap TR_InvalidTableFunctionType)
         else call_impl_enter_module \<lparr>wr_module = md, wr_index = index\<rparr>))
     | Some (TE_Host md index) \<Rightarrow>
         bindM (getM (\<lambda>s. host_fn s md index)) (\<lambda>f. bindM (unwrapM f) (\<lambda>fn.
         if hf_params fn \<noteq> ft_params expected \<or> result_list (hf_returns fn) \<noteq> ft_returns expected
         then errM (IB_Trap TR_InvalidTableFunctionType)
         else interp_call_host api md index))
     | Some TE_Uninit \<Rightarrow> errM (IB_Trap TR_UninitializedTableElement)))))"

section \<open>Variables\<close>

text \<open>\<open>LocalVariable::addr\<close>: signed 32-bit arithmetic, then a sign extension to \<open>usize\<close>.\<close>

definition local_addr :: "local_variable \<Rightarrow> u32 \<Rightarrow> nat" where
  "local_addr l fp = unat (scast (fp + scast (lv_frame_offset l)) :: u64)"

definition interp_local_get :: "local_variable \<Rightarrow> ('h, unit) em" where
  "interp_local_get l = bindM (getM (\<lambda>s. local_addr l (en_fp s))) (\<lambda>a.
     if wide (lv_ty l) then bindM (rd64 a) push64 else bindM (rd32 a) push32)"

definition interp_local_set :: "local_variable \<Rightarrow> ('h, unit) em" where
  "interp_local_set l = bindM (getM (\<lambda>s. local_addr l (en_fp s))) (\<lambda>a.
     if wide (lv_ty l) then thenM (sp_sub 2) (bindM (getM en_sp) (\<lambda>sp. bindM (rd64 sp) (wr64 a)))
     else thenM (sp_sub 1) (bindM (getM en_sp) (\<lambda>sp. bindM (rd32 sp) (wr32 a))))"

definition interp_local_tee :: "local_variable \<Rightarrow> ('h, unit) em" where
  "interp_local_tee l = bindM (getM (\<lambda>s. local_addr l (en_fp s))) (\<lambda>a.
     if wide (lv_ty l) then bindM (sp_minus 2) (\<lambda>p. bindM (rd64 p) (wr64 a))
     else bindM (sp_minus 1) (\<lambda>p. bindM (rd32 p) (wr32 a)))"

text \<open>Globals of a module of the store.\<close>

definition global_at :: "'h engine \<Rightarrow> u8 \<Rightarrow> u16 \<Rightarrow> global_var option" where
  "global_at s md idx = Option.bind (get_opt (st_modules (en_store s)) (unat md)) (\<lambda>m.
     get_opt (md_globals m) (unat idx))"

definition put_global :: "u8 \<Rightarrow> u16 \<Rightarrow> raw_value \<Rightarrow> 'h engine \<Rightarrow> 'h engine" where
  "put_global md idx v s = (let st = en_store s; ms = st_modules st; m = ms ! unat md; gs = md_globals m in
     s\<lparr>en_store := st\<lparr>st_modules := ms[unat md := m\<lparr>md_globals :=
       gs[unat idx := (gs ! unat idx)\<lparr>gl_value := v\<rparr>]\<rparr>]\<rparr>\<rparr>)"

definition interp_global_get :: "u16 \<Rightarrow> ('h, unit) em" where
  "interp_global_get idx = bindM (getM (\<lambda>s. global_at s (en_module s) idx)) (\<lambda>r. bindM (unwrapM r) (\<lambda>g.
     if wide (gt_ty (gl_type g)) then push64 (raw_read_64 (gl_value g)) else push32 (raw_read_32 (gl_value g))))"

definition interp_global_set :: "u16 \<Rightarrow> ('h, unit) em" where
  "interp_global_set idx = bindM (getM (\<lambda>s. global_at s (en_module s) idx)) (\<lambda>r. bindM (unwrapM r) (\<lambda>g.
     if wide (gt_ty (gl_type g)) then
       thenM (sp_sub 2) (bindM (getM en_sp) (\<lambda>sp. bindM (rd64 sp) (\<lambda>v.
         modifyM (\<lambda>s. put_global (en_module s) idx (raw_from_64 v) s))))
     else
       thenM (sp_sub 1) (bindM (getM en_sp) (\<lambda>sp. bindM (rd32 sp) (\<lambda>v.
         modifyM (\<lambda>s. put_global (en_module s) idx (raw_from_32 v) s))))))"

definition host_global_at :: "'h engine \<Rightarrow> u8 \<Rightarrow> u16 \<Rightarrow> host_global option" where
  "host_global_at s md idx = Option.bind (get_opt (st_host_modules (en_store s)) (unat md)) (\<lambda>hm.
     get_opt (hmod_globals hm) (unat idx))"

definition interp_global_get_host :: "'h host_api \<Rightarrow> u8 \<Rightarrow> u16 \<Rightarrow> ('h, unit) em" where
  "interp_global_get_host api md idx =
     bindM (getM (\<lambda>s. host_global_at s md idx)) (\<lambda>r. bindM (unwrapM r) (\<lambda>_.
     bindM (getM (\<lambda>s. ha_read api md idx (en_host s))) (\<lambda>v.
     bindM (ok_or v (IB_Trap TR_GlobalGetFailed)) push_value)))"

definition write_host_global :: "'h host_api \<Rightarrow> u8 \<Rightarrow> u16 \<Rightarrow> wasm_value \<Rightarrow> ('h, unit) em" where
  "write_host_global api md idx v = (\<lambda>s. case ha_write api md idx v (en_host s) of
     (ok, h) \<Rightarrow> (if ok then Ok () else Err (IB_Trap TR_GlobalSetFailed), s\<lparr>en_host := h\<rparr>))"

definition interp_global_set_host :: "'h host_api \<Rightarrow> u8 \<Rightarrow> u16 \<Rightarrow> ('h, unit) em" where
  "interp_global_set_host api md idx =
     bindM (getM (\<lambda>s. host_global_at s md idx)) (\<lambda>r. bindM (unwrapM r) (\<lambda>g.
     thenM (sp_sub (if wide (hg_ty g) then 2 else 1)) (bindM (getM en_sp) (\<lambda>sp.
     case hg_ty g of
       T_I32 \<Rightarrow> bindM (rd32 sp) (\<lambda>v. write_host_global api md idx (V_I32 v))
     | T_I64 \<Rightarrow> bindM (rd64 sp) (\<lambda>v. write_host_global api md idx (V_I64 v))
     | T_F32 \<Rightarrow> bindM (rd32 sp) (\<lambda>v. write_host_global api md idx (V_F32 v))
     | T_F64 \<Rightarrow> bindM (rd64 sp) (\<lambda>v. write_host_global api md idx (V_F64 v))))))"

text \<open>A global of another module: its handler run with that module as the current one.\<close>

definition in_module :: "u8 \<Rightarrow> ('h, unit) em \<Rightarrow> ('h, unit) em" where
  "in_module md f = (\<lambda>s. case f (s\<lparr>en_module := md\<rparr>) of (r, t) \<Rightarrow> (r, t\<lparr>en_module := en_module s\<rparr>))"

definition interp_global_get_extern :: "u8 \<Rightarrow> u16 \<Rightarrow> ('h, unit) em" where
  "interp_global_get_extern md idx = in_module md (interp_global_get idx)"

definition interp_global_set_extern :: "u8 \<Rightarrow> u16 \<Rightarrow> ('h, unit) em" where
  "interp_global_set_extern md idx = in_module md (interp_global_set idx)"

section \<open>Dispatch\<close>

primrec interp_visit :: "'h host_api \<Rightarrow> ir_op \<Rightarrow> ('h, unit) em" where
  "interp_visit api Ir_unreachable = errM (IB_Trap TR_Unreachable)"
| "interp_visit api (Ir_drop ty) = interp_drop ty"
| "interp_visit api (Ir_select ty) = interp_select ty"
| "interp_visit api (Ir_if l) = interp_if l"
| "interp_visit api (Ir_br l) = interp_br l"
| "interp_visit api (Ir_br_if l) = interp_br_if l"
| "interp_visit api (Ir_return n) = return_impl n"
| "interp_visit api (Ir_call x) = interp_call x"
| "interp_visit api (Ir_call_host md x) = interp_call_host api md x"
| "interp_visit api (Ir_call_extern md x) = interp_call_extern md x"
| "interp_visit api (Ir_call_indirect x) = interp_call_indirect api x"
| "interp_visit api (Ir_local_get l) = interp_local_get l"
| "interp_visit api (Ir_local_set l) = interp_local_set l"
| "interp_visit api (Ir_local_tee l) = interp_local_tee l"
| "interp_visit api (Ir_global_get x) = interp_global_get x"
| "interp_visit api (Ir_global_set x) = interp_global_set x"
| "interp_visit api (Ir_global_get_host md x) = interp_global_get_host api md x"
| "interp_visit api (Ir_global_set_host md x) = interp_global_set_host api md x"
| "interp_visit api (Ir_global_get_extern md x) = interp_global_get_extern md x"
| "interp_visit api (Ir_global_set_extern md x) = interp_global_set_extern md x"
| "interp_visit api (Ir_mem p ma) = interp_mem p (ma_offset ma)"
| "interp_visit api Ir_memory_size = interp_memory_size"
| "interp_visit api Ir_memory_grow = interp_memory_grow (ha_alloc api)"
| "interp_visit api (Ir_i32_const n) = push32 n"
| "interp_visit api (Ir_i64_const n) = push64 n"
| "interp_visit api (Ir_f32_const z) = push32 z"
| "interp_visit api (Ir_f64_const z) = push64 z"
| "interp_visit api (Ir_base p) = interp_base (ha_libm api) p"

end
