(* ===== verification/Ir_Reader.thy ===== *)
theory Ir_Reader
  imports Interp_Control Builder_Inv
begin

text \<open>
  The decoder of the IR (src/ir_reader.rs), over any visitor, with the feature \<open>strict-assertions\<close>: a read
  outside the pages, an unknown opcode and a wrong type immediate are panics. Its state is the program
  counter and the state of the visitor. Every instruction is a first word (opcode and an immediate
  byte) and its operand words, which \<open>ir_decode\<close> reads before the visitor is called.
\<close>

record ('s, 'e) ir_visitor =
  iv_visit :: "ir_op \<Rightarrow> ('s, unit, 'e) m"
  iv_br_table :: "u32 \<Rightarrow> (u32 \<Rightarrow> (jump_target \<times> 's, label_target, 'e) m) \<Rightarrow> (jump_target \<times> 's, unit, 'e) m"

section \<open>Reading words\<close>

definition ir_read :: "text_page list \<Rightarrow> (jump_target \<times> 's, u16, 'e) m" where
  "ir_read code = bindM (getM fst) (\<lambda>address.
     if length code \<le> target_page address \<or> 256 \<le> target_offset address then panicM
     else thenM (modifyM (\<lambda>(pc, s). (target_plus pc 1, s)))
       (retM (code ! target_page address ! target_offset address)))"

definition ir_read_u32 :: "text_page list \<Rightarrow> (jump_target \<times> 's, u32, 'e) m" where
  "ir_read_u32 code = bindM (ir_read code) (\<lambda>w1. bindM (ir_read code) (\<lambda>w2.
     retM (ucast w1 OR push_bit 16 (ucast w2))))"

definition ir_read_u64 :: "text_page list \<Rightarrow> (jump_target \<times> 's, u64, 'e) m" where
  "ir_read_u64 code = bindM (ir_read code) (\<lambda>w1. bindM (ir_read code) (\<lambda>w2.
     bindM (ir_read code) (\<lambda>w3. bindM (ir_read code) (\<lambda>w4.
     retM (ucast w1 OR push_bit 16 (ucast w2) OR push_bit 32 (ucast w3) OR push_bit 48 (ucast w4))))))"

section \<open>Instructions\<close>

text \<open>The closure of \<open>br_table\<close>: label \<open>c\<close> of \<open>n\<close>, or the default after them; all words are consumed.\<close>

definition ir_case :: "text_page list \<Rightarrow> u32 \<Rightarrow> u32 \<Rightarrow> (jump_target \<times> 's, label_target, 'e) m" where
  "ir_case code n c =
     (if c < n then
        bindM (repeatM (unat c) (ir_read_u32 code)) (\<lambda>_.
        bindM (ir_read_u32 code) (\<lambda>lt.
        bindM (if c + 1 < n then repeatM (unat (n - (c + 1))) (ir_read_u32 code) else retM []) (\<lambda>_.
        bindM (ir_read_u32 code) (\<lambda>_. retM (LabelTarget lt)))))
      else
        bindM (repeatM (unat n) (ir_read_u32 code)) (\<lambda>_.
        bindM (ir_read_u32 code) (\<lambda>lt. retM (LabelTarget lt))))"

definition imm_valtype :: "u8 \<Rightarrow> (jump_target \<times> 's, val_type, 'e) m" where
  "imm_valtype imm = unwrapM (val_type_from_repr imm)"

definition ir_control :: "text_page list \<Rightarrow> u8 \<Rightarrow> u8 \<Rightarrow> (jump_target \<times> 's, ir_op, 'e) m option" where
  "ir_control code opc imm =
     (if opc = UNREACHABLE then Some (retM Ir_unreachable)
      else if opc = IF then Some (bindM (ir_read_u32 code) (\<lambda>l. retM (Ir_if (LabelTarget l))))
      else if opc = BR then Some (bindM (ir_read_u32 code) (\<lambda>l. retM (Ir_br (LabelTarget l))))
      else if opc = BR_IF then Some (bindM (ir_read_u32 code) (\<lambda>l. retM (Ir_br_if (LabelTarget l))))
      else if opc = RETURN then Some (retM (Ir_return imm))
      else if opc = CALL then Some (bindM (ir_read code) (\<lambda>i. retM (Ir_call i)))
      else if opc = CALL_HOST then Some (bindM (ir_read code) (\<lambda>i. retM (Ir_call_host imm i)))
      else if opc = CALL_EXTERN then Some (bindM (ir_read code) (\<lambda>i. retM (Ir_call_extern imm i)))
      else if opc = CALL_INDIRECT then Some (bindM (ir_read code) (\<lambda>i. retM (Ir_call_indirect (ucast i))))
      else None)"

definition ir_local :: "text_page list \<Rightarrow> u8 \<Rightarrow> (local_variable \<Rightarrow> ir_op) \<Rightarrow> (jump_target \<times> 's, ir_op, 'e) m" where
  "ir_local code imm op = bindM (ir_read code) (\<lambda>off. bindM (imm_valtype imm) (\<lambda>ty.
     retM (op \<lparr>lv_frame_offset = off, lv_ty = ty\<rparr>)))"

definition ir_index :: "text_page list \<Rightarrow> u8 \<Rightarrow> (jump_target \<times> 's, u16, 'e) m" where
  "ir_index code imm = (if imm = 0xFF then ir_read code else retM (ucast imm))"

definition ir_variable :: "text_page list \<Rightarrow> u8 \<Rightarrow> u8 \<Rightarrow> (jump_target \<times> 's, ir_op, 'e) m option" where
  "ir_variable code opc imm =
     (if opc = DROP then Some (bindM (imm_valtype imm) (\<lambda>t. retM (Ir_drop t)))
      else if opc = SELECT then Some (bindM (imm_valtype imm) (\<lambda>t. retM (Ir_select t)))
      else if opc = LOCAL_GET then Some (ir_local code imm Ir_local_get)
      else if opc = LOCAL_SET then Some (ir_local code imm Ir_local_set)
      else if opc = LOCAL_TEE then Some (ir_local code imm Ir_local_tee)
      else if opc = GLOBAL_GET then Some (bindM (ir_index code imm) (\<lambda>i. retM (Ir_global_get i)))
      else if opc = GLOBAL_SET then Some (bindM (ir_index code imm) (\<lambda>i. retM (Ir_global_set i)))
      else if opc = GLOBAL_GET_HOST then Some (bindM (ir_read code) (\<lambda>i. retM (Ir_global_get_host imm i)))
      else if opc = GLOBAL_SET_HOST then Some (bindM (ir_read code) (\<lambda>i. retM (Ir_global_set_host imm i)))
      else if opc = GLOBAL_GET_EXTERN then Some (bindM (ir_read code) (\<lambda>i. retM (Ir_global_get_extern imm i)))
      else if opc = GLOBAL_SET_EXTERN then Some (bindM (ir_read code) (\<lambda>i. retM (Ir_global_set_extern imm i)))
      else None)"

definition ir_memory :: "text_page list \<Rightarrow> u8 \<Rightarrow> u8 \<Rightarrow> (jump_target \<times> 's, ir_op, 'e) m option" where
  "ir_memory code opc imm =
     (case mem_op_of opc of
        Some p \<Rightarrow> Some (bindM (ir_read_u32 code) (\<lambda>off. retM (Ir_mem p \<lparr>ma_align = ucast imm, ma_offset = off\<rparr>)))
      | None \<Rightarrow>
          if opc = MEMORY_SIZE then Some (retM Ir_memory_size)
          else if opc = MEMORY_GROW then Some (retM Ir_memory_grow)
          else None)"

definition ir_numeric :: "text_page list \<Rightarrow> u8 \<Rightarrow> u8 \<Rightarrow> (jump_target \<times> 's, ir_op, 'e) m" where
  "ir_numeric code opc imm =
     (if opc = I32_CONST then bindM (if imm = 0xFF then ir_read_u32 code else retM (ucast imm)) (\<lambda>n. retM (Ir_i32_const n))
      else if opc = I64_CONST then bindM (if imm = 0xFF then ir_read_u64 code else retM (ucast imm)) (\<lambda>n. retM (Ir_i64_const n))
      else if opc = F32_CONST then bindM (ir_read_u32 code) (\<lambda>z. retM (Ir_f32_const z))
      else if opc = F64_CONST then bindM (ir_read_u64 code) (\<lambda>z. retM (Ir_f64_const z))
      else if opc = EXTENDED_FC then bindM (unwrapM (sat_op_of (ucast imm))) (\<lambda>t. retM (Ir_base (TruncSat t)))
      else bindM (unwrapM (plain_op_of opc)) (\<lambda>p. retM (Ir_base p)))"

definition ir_decode :: "text_page list \<Rightarrow> u8 \<Rightarrow> u8 \<Rightarrow> (jump_target \<times> 's, ir_op, 'e) m" where
  "ir_decode code opc imm = (case ir_control code opc imm of Some f \<Rightarrow> f | None \<Rightarrow>
     (case ir_variable code opc imm of Some f \<Rightarrow> f | None \<Rightarrow>
     (case ir_memory code opc imm of Some f \<Rightarrow> f | None \<Rightarrow> ir_numeric code opc imm)))"

definition visit_instruction :: "text_page list \<Rightarrow> ('s, 'e) ir_visitor \<Rightarrow> (jump_target \<times> 's, unit, 'e) m" where
  "visit_instruction code v = bindM (ir_read code) (\<lambda>first.
     let opc = ucast (drop_bit 8 first) :: u8; imm = ucast (first AND 0xFF) :: u8 in
     if opc = BR_TABLE then
       bindM (if imm = 0xFF then bindM (ir_read code) (\<lambda>n. retM (ucast n)) else retM (ucast imm)) (\<lambda>n.
       iv_br_table v n (ir_case code n))
     else bindM (ir_decode code opc imm) (\<lambda>p. onSnd (iv_visit v p)))"

end
