(* ===== verification/Run.thy ===== *)
theory Run
  imports Ir_Reader
begin

text \<open>
  The loop of the interpreter (\<open>InterpreterRunner::run\<close> of src/interpreter.rs): up to \<open>n\<close> instructions, each
  read by the IR reader and executed by the interpreter's handlers.

  Lemmas: a run may be cut anywhere without changing its outcome; it ends for one of the reasons it
  names; a trap leaves the engine idle, so that the next \<open>invoke\<close> is accepted.
\<close>

definition interpreter :: "'h host_api \<Rightarrow> ('h engine, interp_break) ir_visitor" where
  "interpreter api = \<lparr>iv_visit = interp_visit api, iv_br_table = interp_br_table\<rparr>"

text \<open>
  One round of the loop: \<open>Some r\<close> ends the run with \<open>r\<close>. The program counter of a handler that jumped is
  kept, otherwise that of the reader is taken over, also when the handler fails.
\<close>

definition finish_step :: "(unit, interp_break) result \<Rightarrow> jump_target \<Rightarrow> 'h engine \<Rightarrow> (interp_result option, unit) result \<times> 'h engine" where
  "finish_step r pc s =
     (let t = (if en_jumped s then s\<lparr>en_jumped := False\<rparr> else s\<lparr>en_pc := pc\<rparr>) in
      case r of
        Ok _ \<Rightarrow> (Ok None, t)
      | Err (IB_Trap reason) \<Rightarrow>
          (Ok (Some (IR_Trap reason)), t\<lparr>en_sp := 0, en_pc := SENTINEL, en_fp := 0, en_jumped := False\<rparr>)
      | Err IB_Pause \<Rightarrow> (Ok (Some IR_Pause), t)
      | Err IB_Finished \<Rightarrow> (Ok (Some IR_Finished), t)
      | Panic \<Rightarrow> (Panic, t))"

definition run_step :: "'h host_api \<Rightarrow> text_page list \<Rightarrow> ('h engine, interp_result option, unit) m" where
  "run_step api code = (\<lambda>s.
     if en_pc s = SENTINEL then (Ok (Some IR_Finished), s)
     else case visit_instruction code (interpreter api) (en_pc s, s) of
       (r, (pc, t)) \<Rightarrow> finish_step r pc t)"

fun run :: "'h host_api \<Rightarrow> text_page list \<Rightarrow> nat \<Rightarrow> ('h engine, interp_result, unit) m" where
  "run api code 0 = retM IR_OutOfFuel"
| "run api code (Suc n) = bindM (run_step api code) (\<lambda>r. case r of
     Some e \<Rightarrow> retM e
   | None \<Rightarrow> run api code n)"

section \<open>Cutting a run\<close>

lemma bindM_cong_Ok: "(\<And>a t. f s = (Ok a, t) \<Longrightarrow> g a t = g' a t) \<Longrightarrow> bindM f g s = bindM f g' s"
  by (simp add: bindM_def split: prod.splits result.splits)

text \<open>
  Fuel only cuts a run into pieces: running \<open>n + k\<close> instructions is running \<open>n\<close>, and, exactly
  if that ran out of fuel, \<open>k\<close> more from where it stopped. So an embedder that calls \<open>run\<close> again and again
  gets the outcome, and the engine, of one uninterrupted run.
\<close>

lemma run_resumes:
  "run api code (n + k) s = bindM (run api code n) (\<lambda>r. if r = IR_OutOfFuel then run api code k else retM r) s"
proof (induction n arbitrary: s)
  case 0
  then show ?case by (simp add: bindM_ret_left)
next
  case (Suc n)
  have fin: "e \<noteq> IR_OutOfFuel" if "run_step api code s = (Ok (Some e), t)" for e t
    using that by (auto simp: run_step_def finish_step_def Let_def split: if_splits prod.splits result.splits interp_break.splits)
  show ?case
    unfolding add_Suc run.simps bindM_assoc
  proof (rule bindM_cong_Ok)
    fix r t assume "run_step api code s = (Ok r, t)"
    then show "(case r of None \<Rightarrow> run api code (n + k) | Some e \<Rightarrow> retM e) t =
        bindM (case r of None \<Rightarrow> run api code n | Some e \<Rightarrow> retM e)
          (\<lambda>r. if r = IR_OutOfFuel then run api code k else retM r) t"
      using Suc fin by (cases r) (auto simp: bindM_ret_left)
  qed
qed

section \<open>How a run ends\<close>

text \<open>
  Claim C38. A run that traps leaves the engine idle: stack and frame pointer are 0 and the program counter
  is the sentinel, which is what \<open>invoke\<close> asks for; whatever instruction trapped, in whatever call depth.
\<close>

theorem run_trap_idle:
  assumes "run api code n s = (Ok (IR_Trap reason), t)"
  shows "is_idle t \<and> en_sp t = 0 \<and> en_fp t = 0 \<and> \<not> en_jumped t"
  using assms
proof (induction n arbitrary: s)
  case 0
  then show ?case by (simp add: retM_def)
next
  case (Suc n)
  from Suc.prems obtain r s1 where step: "run_step api code s = (Ok r, s1)"
    and rest: "(case r of Some e \<Rightarrow> retM e | None \<Rightarrow> run api code n) s1 = (Ok (IR_Trap reason), t)"
    by (auto elim: bindM_OkE)
  show ?case
  proof (cases r)
    case None
    then show ?thesis using rest Suc.IH by simp
  next
    case (Some e)
    then have "e = IR_Trap reason" "s1 = t" using rest by (simp_all add: retM_def)
    then show ?thesis using step Some
      by (auto simp: run_step_def finish_step_def is_idle_def Let_def
          split: if_splits prod.splits result.splits interp_break.splits)
  qed
qed

lemma run_trap_idle_witness:
  "\<forall>api. let t = snd (run api [replicate 256 0] (Suc 0) (demo_engine\<lparr>en_pc := JumpTarget 0\<rparr>))
   in is_idle t \<and> en_sp t = 0 \<and> en_fp t = 0 \<and> \<not> en_jumped t"
proof
  fix api :: "unit host_api"
  let ?s = "demo_engine\<lparr>en_pc := JumpTarget 0\<rparr>"
  have "fst (run api [replicate 256 0] (Suc 0) ?s) = Ok (IR_Trap TR_Unreachable)"
    by (simp add: run_step_def finish_step_def visit_instruction_def ir_decode_def ir_control_def run_defs
        SENTINEL_def ir_read_def interpreter_def onSnd_def demo_engine_def target_page_def target_offset_def BR_TABLE_def UNREACHABLE_def)
  then have "run api [replicate 256 0] (Suc 0) ?s = (Ok (IR_Trap TR_Unreachable), snd (run api [replicate 256 0] (Suc 0) ?s))"
    by (simp add: prod_eq_iff)
  from run_trap_idle [OF this] show "let t = snd (run api [replicate 256 0] (Suc 0) ?s) in is_idle t \<and> en_sp t = 0 \<and> en_fp t = 0 \<and> \<not> en_jumped t"
    unfolding Let_def .
qed

end
