(* ===== verification/Stack_Effect.thy ===== *)
theory Stack_Effect
  imports Interp_Control
begin

text \<open>
  What an instruction does to the operand stack, against the signature its compilation was checked
  with (theory Compiler): it consumes and produces exactly the words of its operand and result types,
  leaves every word below its operands alone, and never panics when the operands are there. A trap
  happens only for a reason of the instruction itself.
\<close>

section \<open>Effects\<close>

definition is_trap :: "interp_break \<Rightarrow> bool" where
  "is_trap e \<longleftrightarrow> (\<exists>r. e = IB_Trap r)"

definition traps_only :: "('a, interp_break) result \<Rightarrow> bool" where
  "traps_only r = (case r of Ok _ \<Rightarrow> True | Err e \<Rightarrow> is_trap e | Panic \<Rightarrow> False)"

text \<open>Everything but the stack, its pointer and the store is as before.\<close>

definition same_frame :: "'h engine \<Rightarrow> 'h engine \<Rightarrow> bool" where
  "same_frame s t \<longleftrightarrow> en_pc t = en_pc s \<and> en_jumped t = en_jumped s \<and> en_fp t = en_fp s \<and>
     en_module t = en_module s \<and> en_memory t = en_memory s \<and> en_table t = en_table s \<and>
     en_pause t = en_pause s \<and> en_result t = en_result s \<and> en_host t = en_host s \<and>
     length (en_stack t) = length (en_stack s)"

definition memory_there :: "'h engine \<Rightarrow> bool" where
  "memory_there s \<longleftrightarrow> en_memory s < length (st_memories (en_store s))"

definition room :: "nat \<Rightarrow> nat \<Rightarrow> 'h engine \<Rightarrow> bool" where
  "room n m s \<longleftrightarrow> n \<le> en_sp s \<and> en_sp s \<le> length (en_stack s) \<and> en_sp s - n + m \<le> length (en_stack s)"

definition moved :: "nat \<Rightarrow> nat \<Rightarrow> nat set \<Rightarrow> 'h engine \<Rightarrow> 'h engine \<Rightarrow> bool" where
  "moved n m A s t \<longleftrightarrow> same_frame s t \<and> en_sp t = en_sp s - n + m \<and>
     (\<forall>i<en_sp s - n. i \<notin> A \<longrightarrow> en_stack t ! i = en_stack s ! i)"

definition effect :: "nat \<Rightarrow> nat \<Rightarrow> ('h, unit) em \<Rightarrow> bool" where
  "effect n m f \<longleftrightarrow> (\<forall>s. room n m s \<and> memory_there s \<longrightarrow> wpM f (\<lambda>_. moved n m {} s) (\<lambda>e _. is_trap e) s)"

named_theorems effects "stack effects of the instruction shapes"

lemmas effect_defs = effect_def room_def moved_def same_frame_def memory_there_def

lemma put_below [simp]: "i < a \<Longrightarrow> put32 st a v ! i = st ! i" "i < a \<Longrightarrow> put64 st a w ! i = st ! i"
  by (simp_all add: put32_def put64_def)

lemma wpM_traps_only: "traps_only r \<Longrightarrow> (\<And>a. r = Ok a \<Longrightarrow> Q a s) \<Longrightarrow> wpM (liftR r) Q (\<lambda>e _. is_trap e) s"
  by (auto simp: traps_only_def wp split: result.splits)

lemma traps_only_simps [simp]:
  "traps_only (Ok a)" "traps_only (Err (IB_Trap r))" "\<not> traps_only Panic"
  "traps_only (float32 h a32 b32)" "traps_only (float64 h a64 b64)"
  by (simp_all add: traps_only_def is_trap_def float32_def float64_def)

lemma traps_only_iarith [simp]: "traps_only (iarith x a b)"
  by (cases x) auto

lemma traps_only_trunc [simp]: "traps_only (to_word (trunc_to k hi lo mn mx f))"
  by (simp add: to_word_def trunc_to_def trunc_guard_def)

lemma traps_only_truncs [simp]:
  "traps_only (to_word (i32_trunc_f32_s f))" "traps_only (to_word (i32_trunc_f32_u f))"
  "traps_only (to_word (i32_trunc_f64_s f))" "traps_only (to_word (i32_trunc_f64_u f))"
  "traps_only (to_word (i64_trunc_f32_s f))" "traps_only (to_word (i64_trunc_f32_u f))"
  "traps_only (to_word (i64_trunc_f64_s f))" "traps_only (to_word (i64_trunc_f64_u f))"
  by (simp_all add: i32_trunc_f32_s_def i32_trunc_f32_u_def i32_trunc_f64_s_def i32_trunc_f64_u_def
      i64_trunc_f32_s_def i64_trunc_f32_u_def i64_trunc_f64_s_def i64_trunc_f64_u_def)

lemma effect_shapes [effects]:
  "(\<And>v. traps_only (f v)) \<Longrightarrow> effect 1 1 (un32 f)"
  "(\<And>v. traps_only (g v)) \<Longrightarrow> effect 2 2 (un64 g)"
  "(\<And>a b. traps_only (f2 a b)) \<Longrightarrow> effect 2 1 (bin32 f2)"
  "(\<And>a b. traps_only (g2 a b)) \<Longrightarrow> effect 4 2 (bin64 g2)"
  "effect 1 1 (test32 c)" "effect 2 1 (test64 d)" "effect 2 1 (rel32 c2)" "effect 4 1 (rel64 d2)"
  "(\<And>v. traps_only (w v)) \<Longrightarrow> effect 1 2 (widen w)"
  "(\<And>v. traps_only (k v)) \<Longrightarrow> effect 2 1 (shrink k)"
  "effect 2 1 (shrink_after k2)"
  by (auto simp: effect_defs un32_def un64_def bin32_def bin64_def test32_def test64_def rel32_def rel64_def
      widen_def shrink_def shrink_after_def wp simp del: wpM_lift intro!: wpM_traps_only)

section \<open>Numeric instructions\<close>

lemma effect_base: "effect (ty_list_words (fst (base_sig p))) (ty_list_words (snd (base_sig p))) (interp_base l p)"
proof (cases p)
  case (IRel w x)
  show ?thesis unfolding IRel by (cases w; cases "x = IEqz"; simp del: One_nat_def; intro effects)
next
  case (FRel w x)
  show ?thesis unfolding FRel by (cases w; simp del: One_nat_def; intro effects)
next
  case (IArith w x)
  show ?thesis unfolding IArith by (cases w; cases "iarith_unary x"; simp del: One_nat_def; intro effects; simp)
next
  case (FArith w x)
  show ?thesis unfolding FArith by (cases w; cases "farith_unary x"; simp del: One_nat_def; intro effects; simp)
next
  case (Conv x)
  show ?thesis unfolding Conv by (cases x; simp del: One_nat_def; intro effects; simp)
next
  case (Extend x)
  show ?thesis unfolding Extend by (cases x; simp del: One_nat_def; intro effects; simp)
next
  case (TruncSat x)
  show ?thesis unfolding TruncSat by (cases x; simp del: One_nat_def; intro effects; simp)
qed

section \<open>Memory instructions\<close>

text \<open>The scalar accessors fail only with \<open>OutOfBounds\<close>, and so does the address computation.\<close>

definition oob_only :: "('a, memory_error) result \<Rightarrow> bool" where
  "oob_only r \<longleftrightarrow> (\<exists>a. r = Ok a) \<or> r = Err ME_OutOfBounds"

lemma oob_only_simps [simp]:
  "oob_only (effective_address b f)" "oob_only (load_scalar n m a)" "oob_only (store_scalar n m a v)"
  by (simp_all add: oob_only_def effective_address_def Let_def load_scalar_def store_scalar_def check_in_bounds_def)

lemma wpM_liftMem: "oob_only r \<Longrightarrow> (\<And>a. r = Ok a \<Longrightarrow> Q a s) \<Longrightarrow> wpM (liftMem r) Q (\<lambda>e _. is_trap e) s"
  by (auto simp: oob_only_def liftMem_def is_trap_def wp)

lemma wpM_the_memory: "wpM the_memory Q E s \<longleftrightarrow>
    memory_there s \<and> Q (cell_value (st_memories (en_store s) ! en_memory s)) s"
  by (auto simp: the_memory_def memory_there_def get_opt_def wp)

lemma set_memory_fields [simp]:
  "en_sp (set_memory a m s) = en_sp s" "en_stack (set_memory a m s) = en_stack s"
  "same_frame r (set_memory a m s) = same_frame r s"
  by (simp_all add: set_memory_def same_frame_def)

lemma effect_mem_shapes [effects]:
  "(\<And>m a. oob_only (ld m a)) \<Longrightarrow> effect 1 1 (load_32 ld f off)"
  "(\<And>m a. oob_only (ld2 m a)) \<Longrightarrow> effect 1 2 (load_64 ld2 g off)"
  "(\<And>m a v. oob_only (st m a v)) \<Longrightarrow> effect 2 0 (store_32 st h off)"
  "(\<And>m a v. oob_only (st2 m a v)) \<Longrightarrow> effect 3 0 (store_64 st2 k off)"
  by (auto simp: effect_def room_def moved_def load_32_def load_64_def store_32_def store_64_def load_at_def
      store_at_def wpM_the_memory wp same_frame_def memory_there_def intro!: wpM_liftMem)
    (simp_all add: set_memory_def)

lemma effect_mem: "effect (ty_list_words (fst (mem_sig p))) (ty_list_words (snd (mem_sig p))) (interp_mem p off)"
  by (cases p; simp del: One_nat_def; intro effects;
      simp add: load_u8_def load_u16_def load_u32_def load_u64_def store_u8_def store_u16_def store_u32_def store_u64_def)

lemma effect_memory_size: "effect 0 1 interp_memory_size"
  by (auto simp: effect_defs interp_memory_size_def wpM_the_memory wp)

section \<open>Constants, parametric instructions and variables\<close>

lemma effect_consts: "effect 0 1 (push32 n)" "effect 0 2 (push64 k)"
  by (auto simp: effect_defs wp)

lemma ty_words_wide: "ty_words t = (if wide t then 2 else 1)"
  by (cases t) simp_all

lemma effect_drop: "effect (ty_words t) 0 (interp_drop t)"
  by (auto simp: effect_defs interp_drop_def ty_words_wide wp)

lemma effect_select: "effect (2 * ty_words t + 1) (ty_words t) (interp_select t)"
  by (auto simp: effect_defs interp_select_def ty_words_wide wp)

text \<open>The words of a local, which the instructions on it read or write.\<close>

definition local_slot_of :: "local_variable \<Rightarrow> 'h engine \<Rightarrow> nat set" where
  "local_slot_of l s = {local_addr l (en_fp s) ..< local_addr l (en_fp s) + ty_words (lv_ty l)}"

definition touched :: "nat \<Rightarrow> nat \<Rightarrow> nat set \<Rightarrow> ('h, unit) em \<Rightarrow> 'h engine \<Rightarrow> bool" where
  "touched n m A f s \<longleftrightarrow> wpM f (\<lambda>_. moved n m A s) (\<lambda>e _. is_trap e) s"

lemma effect_touched: "effect n m f \<Longrightarrow> room n m s \<Longrightarrow> memory_there s \<Longrightarrow> touched n m {} f s"
  by (simp add: effect_def touched_def)

lemma put_outside: "i \<noteq> a \<Longrightarrow> put32 st a v ! i = st ! i" "i \<noteq> a \<Longrightarrow> i \<noteq> Suc a \<Longrightarrow> put64 st a w ! i = st ! i"
  by (simp_all add: put32_def put64_def)

lemma touched_locals:
  assumes "\<forall>a\<in>local_slot_of l s. a < length (en_stack s)"
  shows "room 0 (ty_words (lv_ty l)) s \<Longrightarrow> touched 0 (ty_words (lv_ty l)) (local_slot_of l s) (interp_local_get l) s"
    "room (ty_words (lv_ty l)) 0 s \<Longrightarrow> touched (ty_words (lv_ty l)) 0 (local_slot_of l s) (interp_local_set l) s"
    "room (ty_words (lv_ty l)) (ty_words (lv_ty l)) s \<Longrightarrow>
       touched (ty_words (lv_ty l)) (ty_words (lv_ty l)) (local_slot_of l s) (interp_local_tee l) s"
  using assms
  by (auto simp: touched_def room_def moved_def same_frame_def local_slot_of_def ty_words_wide interp_local_get_def
      interp_local_set_def interp_local_tee_def wp put_outside Ball_def)

lemma same_frame_put_global [simp]: "same_frame r (put_global md i v s) = same_frame r s"
  "en_sp (put_global md i v s) = en_sp s" "en_stack (put_global md i v s) = en_stack s"
  by (simp_all add: put_global_def same_frame_def Let_def)

lemma touched_globals:
  assumes "global_at s (en_module s) x = Some g"
  shows "room 0 (ty_words (gt_ty (gl_type g))) s \<Longrightarrow> touched 0 (ty_words (gt_ty (gl_type g))) {} (interp_global_get x) s"
    "room (ty_words (gt_ty (gl_type g))) 0 s \<Longrightarrow> touched (ty_words (gt_ty (gl_type g))) 0 {} (interp_global_set x) s"
  using assms
  by (auto simp: touched_def room_def moved_def ty_words_wide interp_global_get_def interp_global_set_def wp)
    (auto simp: same_frame_def)

lemma touched_in_module:
  assumes "touched n m {} f (s\<lparr>en_module := md\<rparr>)"
  shows "touched n m {} (in_module md f) s"
  using assms
  by (auto simp: touched_def wpM_def in_module_def moved_def same_frame_def split: prod.splits result.splits)

section \<open>The effect of an instruction\<close>

text \<open>
  The words an instruction pops and pushes, from its own signature; for a global, from the declared type.
  Control instructions have none.
\<close>

definition sig_words :: "val_type list \<times> val_type list \<Rightarrow> (nat \<times> nat) option" where
  "sig_words sig = Some (ty_list_words (fst sig), ty_list_words (snd sig))"

fun op_effect :: "'h engine \<Rightarrow> ir_op \<Rightarrow> (nat \<times> nat) option" where
  "op_effect s (Ir_drop t) = sig_words ([t], [])"
| "op_effect s (Ir_select t) = sig_words ([t, t, T_I32], [t])"
| "op_effect s (Ir_local_get l) = sig_words ([], [lv_ty l])"
| "op_effect s (Ir_local_set l) = sig_words ([lv_ty l], [])"
| "op_effect s (Ir_local_tee l) = sig_words ([lv_ty l], [lv_ty l])"
| "op_effect s (Ir_global_get x) = Option.bind (global_at s (en_module s) x) (\<lambda>g. sig_words ([], [gt_ty (gl_type g)]))"
| "op_effect s (Ir_global_set x) = Option.bind (global_at s (en_module s) x) (\<lambda>g. sig_words ([gt_ty (gl_type g)], []))"
| "op_effect s (Ir_global_get_extern md x) = Option.bind (global_at s md x) (\<lambda>g. sig_words ([], [gt_ty (gl_type g)]))"
| "op_effect s (Ir_global_set_extern md x) = Option.bind (global_at s md x) (\<lambda>g. sig_words ([gt_ty (gl_type g)], []))"
| "op_effect s (Ir_mem p ma) = sig_words (mem_sig p)"
| "op_effect s Ir_memory_size = sig_words ([], [T_I32])"
| "op_effect s (Ir_i32_const n) = sig_words ([], [T_I32])"
| "op_effect s (Ir_i64_const n) = sig_words ([], [T_I64])"
| "op_effect s (Ir_f32_const n) = sig_words ([], [T_F32])"
| "op_effect s (Ir_f64_const n) = sig_words ([], [T_F64])"
| "op_effect s (Ir_base p) = sig_words (base_sig p)"
| "op_effect s _ = None"

fun op_slot :: "'h engine \<Rightarrow> ir_op \<Rightarrow> nat set" where
  "op_slot s (Ir_local_get l) = local_slot_of l s"
| "op_slot s (Ir_local_set l) = local_slot_of l s"
| "op_slot s (Ir_local_tee l) = local_slot_of l s"
| "op_slot s _ = {}"

lemma global_at_module [simp]: "global_at (s\<lparr>en_module := md'\<rparr>) md x = global_at s md x"
  by (simp add: global_at_def)

lemma room_module [simp]: "room n m (s\<lparr>en_module := md\<rparr>) = room n m s"
  by (simp add: room_def)

text \<open>
  Claim C35. Instructions have at run time the stack effect they were checked with at compile time: with its
  operands on the stack and room for its results, an instruction pops and pushes exactly the words of
  its signature, changes nothing below its operands except the local it names, keeps the frame, the
  module and the program counter, and never panics; if it fails, it traps.
\<close>

theorem instruction_stack_effect:
  assumes "op_effect s p = Some (n, m)" "room n m s" "memory_there s"
    and "\<forall>a\<in>op_slot s p. a < length (en_stack s)"
  shows "wpM (interp_visit api p) (\<lambda>_. moved n m (op_slot s p) s) (\<lambda>e _. is_trap e) s"
proof -
  note e = effect_touched [OF _ _ assms(3)]
  have "touched n m (op_slot s p) (interp_visit api p) s"
  proof (cases p)
    case (Ir_drop t)
    then show ?thesis using assms(1,2) e [OF effect_drop [of t]] by (auto simp: sig_words_def)
  next
    case (Ir_select t)
    then show ?thesis using assms(1,2) e [OF effect_select [of t]]
      by (auto simp: sig_words_def mult_2 add_ac)
  next
    case (Ir_mem q ma)
    then show ?thesis using assms(1,2) e [OF effect_mem [of q]] by (auto simp: sig_words_def)
  next
    case (Ir_base q)
    then show ?thesis using assms(1,2) e [OF effect_base [of q]] by (auto simp: sig_words_def)
  next
    case Ir_memory_size
    then show ?thesis using assms(1,2) e [OF effect_memory_size] by (auto simp: sig_words_def)
  next
    case (Ir_global_get_extern md x)
    then show ?thesis using assms(1,2)
      by (auto simp: sig_words_def interp_global_get_extern_def bind_eq_Some_conv intro!: touched_in_module touched_globals)
  next
    case (Ir_global_set_extern md x)
    then show ?thesis using assms(1,2)
      by (auto simp: sig_words_def interp_global_set_extern_def bind_eq_Some_conv intro!: touched_in_module touched_globals)
  qed (use assms e [OF effect_consts(1)] e [OF effect_consts(2)] touched_locals [of _ s] touched_globals [of s] in
      \<open>auto simp: sig_words_def bind_eq_Some_conv\<close>)
  then show ?thesis by (simp add: touched_def)
qed

text \<open>An \<open>i32.add\<close> of 42 and 5 in the engine of theory Engine, with a memory.\<close>

lemma instruction_stack_effect_witness:
  "\<forall>api m. let s = demo_engine\<lparr>en_sp := 4, en_stack := [0, 0, 42, 5, 0, 0, 0, 0],
        en_store := (en_store demo_engine)\<lparr>st_memories := [\<lparr>cell_value = m, cell_extra = 0\<rparr>]\<rparr>\<rparr>
   in wpM (interp_visit api (Ir_base (IArith W32 IAdd))) (\<lambda>_ t. en_sp t = 3 \<and> en_stack t ! 1 = 0) (\<lambda>e _. is_trap e) s"
proof (intro allI)
  fix api :: "unit host_api" and m :: memory
  let ?s = "demo_engine\<lparr>en_sp := 4, en_stack := [0, 0, 42, 5, 0, 0, 0, 0],
        en_store := (en_store demo_engine)\<lparr>st_memories := [\<lparr>cell_value = m, cell_extra = 0\<rparr>]\<rparr>\<rparr>"
  have "wpM (interp_visit api (Ir_base (IArith W32 IAdd))) (\<lambda>_. moved 2 1 (op_slot ?s (Ir_base (IArith W32 IAdd))) ?s)
      (\<lambda>e _. is_trap e) ?s"
    by (rule instruction_stack_effect) (simp_all add: sig_words_def iarith_unary_def room_def memory_there_def demo_engine_def)
  then show "let s = ?s in wpM (interp_visit api (Ir_base (IArith W32 IAdd))) (\<lambda>_ t. en_sp t = 3 \<and> en_stack t ! 1 = 0)
      (\<lambda>e _. is_trap e) s"
    unfolding Let_def by (rule wpM_mono) (auto simp: moved_def)
qed

end
