(* ===== verification/Ir_Roundtrip.thy ===== *)
theory Ir_Roundtrip
  imports Run
begin

text \<open>
  The compiler and the IR reader agree on the encoding. \<open>ir_words\<close> is the encoding of an instruction;
  reading it, wherever it lies in the code, gives the instruction back and stops behind it (\<open>reads\<close>);
  compiling an instruction appends exactly its encoding (\<open>writes\<close>).
\<close>

section \<open>The encoding\<close>

fun ir_words :: "ir_op \<Rightarrow> u16 list" where
  "ir_words Ir_unreachable = [opcode_word UNREACHABLE 0]"
| "ir_words (Ir_drop t) = [opcode_word DROP (val_type_repr t)]"
| "ir_words (Ir_select t) = [opcode_word SELECT (val_type_repr t)]"
| "ir_words (Ir_if l) = opcode_word IF 0 # words_32 (lt_bits l)"
| "ir_words (Ir_br l) = opcode_word BR 0 # words_32 (lt_bits l)"
| "ir_words (Ir_br_if l) = opcode_word BR_IF 0 # words_32 (lt_bits l)"
| "ir_words (Ir_return n) = [opcode_word RETURN n]"
| "ir_words (Ir_call i) = [opcode_word CALL 0, i]"
| "ir_words (Ir_call_host md i) = [opcode_word CALL_HOST md, i]"
| "ir_words (Ir_call_extern md i) = [opcode_word CALL_EXTERN md, i]"
| "ir_words (Ir_call_indirect x) = [opcode_word CALL_INDIRECT 0, ucast x]"
| "ir_words (Ir_local_get l) = [opcode_word LOCAL_GET (val_type_repr (lv_ty l)), lv_frame_offset l]"
| "ir_words (Ir_local_set l) = [opcode_word LOCAL_SET (val_type_repr (lv_ty l)), lv_frame_offset l]"
| "ir_words (Ir_local_tee l) = [opcode_word LOCAL_TEE (val_type_repr (lv_ty l)), lv_frame_offset l]"
| "ir_words (Ir_global_get x) = idx_words GLOBAL_GET (ucast x)"
| "ir_words (Ir_global_set x) = idx_words GLOBAL_SET (ucast x)"
| "ir_words (Ir_global_get_host md i) = [opcode_word GLOBAL_GET_HOST md, i]"
| "ir_words (Ir_global_set_host md i) = [opcode_word GLOBAL_SET_HOST md, i]"
| "ir_words (Ir_global_get_extern md i) = [opcode_word GLOBAL_GET_EXTERN md, i]"
| "ir_words (Ir_global_set_extern md i) = [opcode_word GLOBAL_SET_EXTERN md, i]"
| "ir_words (Ir_mem p ma) = opcode_word (mem_code p) (ucast (ma_align ma)) # words_32 (ma_offset ma)"
| "ir_words Ir_memory_size = [opcode_word MEMORY_SIZE 0]"
| "ir_words Ir_memory_grow = [opcode_word MEMORY_GROW 0]"
| "ir_words (Ir_i32_const n) = imm_32_words I32_CONST n"
| "ir_words (Ir_i64_const n) = imm_64_words I64_CONST n"
| "ir_words (Ir_f32_const z) = opcode_word F32_CONST 0 # words_32 z"
| "ir_words (Ir_f64_const z) = opcode_word F64_CONST 0 # words_64 z"
| "ir_words (Ir_base (TruncSat t)) = [opcode_word EXTENDED_FC (ucast (sat_code t))]"
| "ir_words (Ir_base p) = [opcode_word (base_code p) 0]"

text \<open>The operands that fit their fields: what the compiler checks before it emits.\<close>

fun ir_fits :: "ir_op \<Rightarrow> bool" where
  "ir_fits (Ir_call_indirect x) \<longleftrightarrow> x \<le> 0xFFFF"
| "ir_fits (Ir_mem p ma) \<longleftrightarrow> ma_align ma < 0xFF"
| "ir_fits _ \<longleftrightarrow> True"

section \<open>Fields\<close>

lemma opcode_word_fields [simp]:
  "ucast (drop_bit 8 (opcode_word p imm)) = p" "ucast (opcode_word p imm AND 0xFF) = imm"
proof -
  have m: "(0xFF :: u16) = mask 8" by (simp add: mask_eq_exp_minus_1)
  show "ucast (drop_bit 8 (opcode_word p imm)) = p" "ucast (opcode_word p imm AND 0xFF) = imm"
    unfolding opcode_word_def m by (rule bit_eqI, auto simp: bit_simps dest: bit_imp_le_length)+
qed

lemma words_32_join: "ucast (ucast i :: u16) OR push_bit 16 (ucast (ucast (drop_bit 16 i) :: u16)) = (i :: u32)"
  by (rule bit_eqI) (auto simp: bit_simps dest: bit_imp_le_length)

lemma words_64_join:
  "ucast (ucast i :: u16) OR push_bit 16 (ucast (ucast (drop_bit 16 i) :: u16)) OR
   push_bit 32 (ucast (ucast (drop_bit 32 i) :: u16)) OR push_bit 48 (ucast (ucast (drop_bit 48 i) :: u16)) = (i :: u64)"
proof (rule bit_eqI)
  fix n assume "possible_bit TYPE(u64) n"
  then have "n < 64" by simp
  then consider "n < 16" | "16 \<le> n" "n < 32" | "32 \<le> n" "n < 48" | "48 \<le> n" "n < 64" by fastforce
  then show "bit (ucast (ucast i :: u16) OR push_bit 16 (ucast (ucast (drop_bit 16 i) :: u16)) OR
      push_bit 32 (ucast (ucast (drop_bit 32 i) :: u16)) OR push_bit 48 (ucast (ucast (drop_bit 48 i) :: u16)) :: u64) n = bit i n"
    by cases (auto simp: bit_simps less_diff_conv2)
qed

lemma val_type_repr_back [simp]: "val_type_from_repr (val_type_repr t) = Some t"
  by (cases t) (simp_all add: val_type_from_repr_def)

section \<open>Reading\<close>

definition code_at :: "text_page list \<Rightarrow> jump_target \<Rightarrow> u16 list \<Rightarrow> bool" where
  "code_at code pc ws \<longleftrightarrow> (\<forall>p\<in>set code. length p = 256) \<and>
     unat (jt_addr pc) + length ws < 2 ^ 32 \<and>
     take (length ws) (drop (unat (jt_addr pc)) (concat code)) = ws"

definition reads :: "(text_page list \<Rightarrow> (jump_target \<times> 's, 'a, 'e) m) \<Rightarrow> u16 list \<Rightarrow> 'a \<Rightarrow> bool" where
  "reads f ws x \<longleftrightarrow> (\<forall>code pc s. code_at code pc ws \<longrightarrow> f code (pc, s) = (Ok x, (target_plus pc (word_of_nat (length ws)), s)))"

lemma readsD: "reads f ws x \<Longrightarrow> code_at code pc ws \<Longrightarrow> f code (pc, s) = (Ok x, (target_plus pc (word_of_nat (length ws)), s))"
  by (simp add: reads_def)

lemma target_plus_plus: "target_plus (target_plus pc m) n = target_plus pc (m + n)"
  by (simp add: target_plus_def)

lemma target_plus_0 [simp]: "target_plus pc 0 = pc"
  by (simp add: target_plus_def)

lemma code_at_append:
  assumes "code_at code pc (ws @ vs)"
  shows "code_at code pc ws" "code_at code (target_plus pc (word_of_nat (length ws))) vs"
proof -
  define a where "a = unat (jt_addr pc)"
  define n where "n = length ws"
  have l: "a + n + length vs < 2 ^ 32" "take (n + length vs) (drop a (concat code)) = ws @ vs"
    "\<forall>p\<in>set code. length p = 256"
    using assms by (simp_all add: code_at_def a_def n_def add_ac)
  have "take n (ws @ vs) = ws" "drop n (ws @ vs) = vs" by (simp_all add: n_def)
  then have t: "take n (drop a (concat code)) = ws" "take (length vs) (drop (a + n) (concat code)) = vs"
    unfolding l(2) [symmetric] by (simp_all add: drop_take add.commute)
  have "unat (jt_addr (target_plus pc (word_of_nat n))) = a + n"
  proof -
    have "unat (word_of_nat n :: u32) = n" using l by (simp add: unat_of_nat take_bit_nat_eq_self)
    then show ?thesis using l by (simp add: target_plus_def a_def unat_add_lem [THEN iffD1])
  qed
  then show "code_at code pc ws" "code_at code (target_plus pc (word_of_nat (length ws))) vs"
    using t l by (simp_all add: code_at_def a_def [symmetric] n_def [symmetric])
qed

named_theorems reads_intros "what the readers read"

lemma reads_ret [reads_intros]: "reads (\<lambda>code. retM x) [] x"
  by (simp add: reads_def retM_def)

lemma reads_unwrap [reads_intros]: "y = Some x \<Longrightarrow> reads (\<lambda>code. unwrapM y) [] x"
  by (simp add: reads_def retM_def unwrapM_def)

lemma reads_bind:
  assumes "reads f ws x" "reads (\<lambda>code. g code x) vs y"
  shows "reads (\<lambda>code. bindM (f code) (g code)) (ws @ vs) y"
  unfolding reads_def
proof (intro allI impI)
  fix code pc and s :: 'a assume "code_at code pc (ws @ vs)"
  note at = code_at_append [OF this]
  show "bindM (f code) (g code) (pc, s) = (Ok y, (target_plus pc (word_of_nat (length (ws @ vs))), s))"
    using assms at by (simp add: reads_def bindM_def target_plus_plus)
qed

lemma reads_word [reads_intros]: "reads ir_read [w] w"
  unfolding reads_def
proof (intro allI impI)
  fix code pc and s :: 'a assume at: "code_at code pc [w]"
  define a where "a = unat (jt_addr pc)"
  have ok: "\<forall>p\<in>set code. length p = 256" "take 1 (drop a (concat code)) = [w]"
    using at by (simp_all add: code_at_def a_def)
  then obtain vs where drop: "drop a (concat code) = w # vs" by (cases "drop a (concat code)") auto
  then have "a < length (concat code)" by (metis drop_eq_Nil linorder_not_le list.distinct(1))
  moreover have "concat code ! a = w" using drop by (rule nth_via_drop)
  moreover have "length (concat code) = 256 * length code" using ok(1) by (rule length_concat_pages)
  ultimately have "target_page pc < length code" "code ! target_page pc ! target_offset pc = w"
    using target_page_iff [of code pc] target_page_offset(3,4) [of pc] ok(1)
      concat_pages_nth [of code 256 "target_page pc" "target_offset pc"]
    by (simp_all add: a_def not_le [symmetric])
  then show "ir_read code (pc, s) = (Ok w, (target_plus pc (word_of_nat (length [w])), s))"
    using target_page_offset(4) [of pc] by (simp add: ir_read_def run_defs)
qed

lemma reads_cong: "reads f ws x \<Longrightarrow> ws = vs \<Longrightarrow> reads f vs x"
  by simp

lemma reads_words [reads_intros]:
  "reads ir_read_u32 (words_32 i) i" "reads ir_read_u64 (words_64 j) j"
  unfolding ir_read_u32_def ir_read_u64_def words_32_def words_64_def
  by (subst words_32_join [symmetric, of i], rule reads_cong, (rule reads_bind reads_intros)+, simp)
    (subst words_64_join [symmetric, of j], rule reads_cong, (rule reads_bind reads_intros)+, simp)

lemma reads_after: "reads f ws x \<Longrightarrow> g x = y \<Longrightarrow> reads (\<lambda>code. bindM (f code) (\<lambda>a. retM (g a))) ws y"
  using reads_bind [of f ws x "\<lambda>code a. retM (g a)" "[]" y] by (simp add: reads_ret)

lemma reads_local:
  "reads (\<lambda>code. ir_local code (val_type_repr (lv_ty l)) op) [lv_frame_offset l] (op l)"
proof -
  have "reads (\<lambda>code. ir_local code (val_type_repr (lv_ty l)) op) ([lv_frame_offset l] @ [] @ [])
      (op \<lparr>lv_frame_offset = lv_frame_offset l, lv_ty = lv_ty l\<rparr>)"
    unfolding ir_local_def imm_valtype_def
    by (rule reads_bind, rule reads_word, rule reads_bind, rule reads_unwrap, rule val_type_repr_back, rule reads_ret)
  then show ?thesis by (cases l) simp
qed

lemma mem_op_of_outside:
  assumes "c < 0x28 \<or> 0x3F \<le> c"
  shows "mem_code p \<noteq> c" "mem_op_of c = None"
proof -
  show ne: "mem_code p \<noteq> c" for p using mem_code_range [of p] assms by auto
  show "mem_op_of c = None"
  proof (cases "mem_op_of c")
    case (Some p)
    then show ?thesis using mem_op_ofD [of c p] ne [of p] by simp
  qed
qed

lemma base_code_outside:
  assumes "\<And>s. p \<noteq> TruncSat s" "c < 0x45 \<or> c = EXTENDED_FC"
  shows "base_code p \<noteq> c"
  using plain_code_range [OF assms(1)] assms(2) by (auto simp: EXTENDED_FC_def)

lemma decode_mem:
  "ir_decode code (mem_code p) imm =
     bindM (ir_read_u32 code) (\<lambda>off. retM (Ir_mem p \<lparr>ma_align = ucast imm, ma_offset = off\<rparr>))"
  by (simp add: ir_decode_def ir_control_def ir_variable_def ir_memory_def mem_op_of_code mem_op_of_outside(1) control_codes)

lemma decode_base:
  assumes "\<And>s. p \<noteq> TruncSat s"
  shows "ir_decode code (base_code p) imm = retM (Ir_base p)"
proof -
  have "0x3F \<le> base_code p" using plain_code_range [OF assms] by (auto intro: order.trans [of _ "0x45"])
  then have "mem_op_of (base_code p) = None" by (intro mem_op_of_outside(2)) simp
  then show ?thesis
    using plain_op_of_code [OF assms] base_code_outside [OF assms]
    by (simp add: ir_decode_def ir_control_def ir_variable_def ir_memory_def ir_numeric_def unwrapM_def control_codes bindM_ret_left)
qed

text \<open>The readers of the other opcodes.\<close>

lemma decode_control:
  "ir_decode code UNREACHABLE imm = retM Ir_unreachable"
  "ir_decode code IF imm = bindM (ir_read_u32 code) (\<lambda>l. retM (Ir_if (LabelTarget l)))"
  "ir_decode code BR imm = bindM (ir_read_u32 code) (\<lambda>l. retM (Ir_br (LabelTarget l)))"
  "ir_decode code BR_IF imm = bindM (ir_read_u32 code) (\<lambda>l. retM (Ir_br_if (LabelTarget l)))"
  "ir_decode code RETURN imm = retM (Ir_return imm)"
  "ir_decode code CALL imm = bindM (ir_read code) (\<lambda>i. retM (Ir_call i))"
  "ir_decode code CALL_HOST imm = bindM (ir_read code) (\<lambda>i. retM (Ir_call_host imm i))"
  "ir_decode code CALL_EXTERN imm = bindM (ir_read code) (\<lambda>i. retM (Ir_call_extern imm i))"
  "ir_decode code CALL_INDIRECT imm = bindM (ir_read code) (\<lambda>i. retM (Ir_call_indirect (ucast i)))"
  by (simp_all add: ir_decode_def ir_control_def control_codes)

lemma decode_variable:
  "ir_decode code DROP imm = bindM (imm_valtype imm) (\<lambda>t. retM (Ir_drop t))"
  "ir_decode code SELECT imm = bindM (imm_valtype imm) (\<lambda>t. retM (Ir_select t))"
  "ir_decode code LOCAL_GET imm = ir_local code imm Ir_local_get"
  "ir_decode code LOCAL_SET imm = ir_local code imm Ir_local_set"
  "ir_decode code LOCAL_TEE imm = ir_local code imm Ir_local_tee"
  "ir_decode code GLOBAL_GET imm = bindM (ir_index code imm) (\<lambda>i. retM (Ir_global_get i))"
  "ir_decode code GLOBAL_SET imm = bindM (ir_index code imm) (\<lambda>i. retM (Ir_global_set i))"
  "ir_decode code GLOBAL_GET_HOST imm = bindM (ir_read code) (\<lambda>i. retM (Ir_global_get_host imm i))"
  "ir_decode code GLOBAL_SET_HOST imm = bindM (ir_read code) (\<lambda>i. retM (Ir_global_set_host imm i))"
  "ir_decode code GLOBAL_GET_EXTERN imm = bindM (ir_read code) (\<lambda>i. retM (Ir_global_get_extern imm i))"
  "ir_decode code GLOBAL_SET_EXTERN imm = bindM (ir_read code) (\<lambda>i. retM (Ir_global_set_extern imm i))"
  by (simp_all add: ir_decode_def ir_control_def ir_variable_def control_codes)

lemma decode_rest:
  "ir_decode code MEMORY_SIZE imm = retM Ir_memory_size"
  "ir_decode code MEMORY_GROW imm = retM Ir_memory_grow"
  "ir_decode code I32_CONST imm = bindM (if imm = 0xFF then ir_read_u32 code else retM (ucast imm)) (\<lambda>n. retM (Ir_i32_const n))"
  "ir_decode code I64_CONST imm = bindM (if imm = 0xFF then ir_read_u64 code else retM (ucast imm)) (\<lambda>n. retM (Ir_i64_const n))"
  "ir_decode code F32_CONST imm = bindM (ir_read_u32 code) (\<lambda>z. retM (Ir_f32_const z))"
  "ir_decode code F64_CONST imm = bindM (ir_read_u64 code) (\<lambda>z. retM (Ir_f64_const z))"
  "ir_decode code EXTENDED_FC imm = bindM (unwrapM (sat_op_of (ucast imm))) (\<lambda>t. retM (Ir_base (TruncSat t)))"
  by (simp_all add: ir_decode_def ir_control_def ir_variable_def ir_memory_def ir_numeric_def mem_op_of_outside(2) control_codes)

lemmas decodes = decode_control decode_variable decode_rest decode_mem

lemma small_imm:
  fixes h :: u16 and i :: u32 and j :: u64
  shows "h < 0xFF \<Longrightarrow> (ucast h :: u8) \<noteq> 0xFF" "h < 0xFF \<Longrightarrow> ucast (ucast h :: u8) = h"
    "i < 0xFF \<Longrightarrow> (ucast i :: u8) \<noteq> 0xFF" "i < 0xFF \<Longrightarrow> ucast (ucast i :: u8) = i"
    "j < 0xFF \<Longrightarrow> (ucast j :: u8) \<noteq> 0xFF" "j < 0xFF \<Longrightarrow> ucast (ucast j :: u8) = j"
  by (auto simp: word_less_nat_alt word_unat_eq_iff unsigned_ucast_eq unsigned_take_bit_eq take_bit_nat_eq_self)

section \<open>The instruction that is read\<close>

definition visited :: "('s, 'e) ir_visitor \<Rightarrow> u16 list \<Rightarrow> ir_op \<Rightarrow> bool" where
  "visited v ws p \<longleftrightarrow> (\<forall>code pc s. code_at code pc ws \<longrightarrow>
     visit_instruction code v (pc, s) = onSnd (iv_visit v p) (target_plus pc (word_of_nat (length ws)), s))"

lemma visitedI:
  fixes v :: "('s, 'e) ir_visitor"
  assumes "opc \<noteq> BR_TABLE" "reads (\<lambda>code. ir_decode code opc imm :: (jump_target \<times> 's, ir_op, 'e) m) vs p"
  shows "visited v (opcode_word opc imm # vs) p"
  unfolding visited_def
proof (intro allI impI)
  fix code pc s assume "code_at code pc (opcode_word opc imm # vs)"
  then have "code_at code pc ([opcode_word opc imm] @ vs)" by simp
  note at = code_at_append [OF this]
  have read: "(ir_read code :: (jump_target \<times> 's, u16, 'e) m) (pc, s) = (Ok (opcode_word opc imm), (target_plus pc 1, s))"
    by (rule readsD [OF reads_word at(1), simplified])
  have dec: "ir_decode code opc imm (target_plus pc 1, s) = (Ok p :: (ir_op, 'e) result, (target_plus pc (1 + word_of_nat (length vs)), s))"
    using at(2) assms(2) by (simp add: reads_def target_plus_plus)
  show "visit_instruction code v (pc, s) =
      onSnd (iv_visit v p) (target_plus pc (word_of_nat (length (opcode_word opc imm # vs))), s)"
    using read dec assms(1) by (simp add: visit_instruction_def bindM_Ok target_plus_plus)
qed

lemmas read_atoms = reads_word reads_words reads_unwrap [OF val_type_repr_back]

lemma visited_control:
  "visited v (ir_words Ir_unreachable) Ir_unreachable"
  "visited v (ir_words (Ir_if l)) (Ir_if l)"
  "visited v (ir_words (Ir_br l)) (Ir_br l)"
  "visited v (ir_words (Ir_br_if l)) (Ir_br_if l)"
  "visited v (ir_words (Ir_return n)) (Ir_return n)"
  "visited v (ir_words (Ir_call i)) (Ir_call i)"
  "visited v (ir_words (Ir_call_host md i)) (Ir_call_host md i)"
  "visited v (ir_words (Ir_call_extern md i)) (Ir_call_extern md i)"
  unfolding ir_words.simps
  by (rule visitedI; ((simp add: control_codes; fail) | (simp only: decodes imm_valtype_def; (rule reads_ret reads_local | (rule reads_after, rule read_atoms, simp)))))+

lemma visited_variable:
  "visited v (ir_words (Ir_drop t)) (Ir_drop t)"
  "visited v (ir_words (Ir_select t)) (Ir_select t)"
  "visited v (ir_words (Ir_local_get l)) (Ir_local_get l)"
  "visited v (ir_words (Ir_local_set l)) (Ir_local_set l)"
  "visited v (ir_words (Ir_local_tee l)) (Ir_local_tee l)"
  "visited v (ir_words (Ir_global_get_host md i)) (Ir_global_get_host md i)"
  "visited v (ir_words (Ir_global_set_host md i)) (Ir_global_set_host md i)"
  "visited v (ir_words (Ir_global_get_extern md i)) (Ir_global_get_extern md i)"
  "visited v (ir_words (Ir_global_set_extern md i)) (Ir_global_set_extern md i)"
  unfolding ir_words.simps
  by (rule visitedI; ((simp add: control_codes; fail) | (simp only: decodes imm_valtype_def; (rule reads_ret reads_local | (rule reads_after, rule read_atoms, simp)))))+

lemma visited_rest:
  "visited v (ir_words Ir_memory_size) Ir_memory_size"
  "visited v (ir_words Ir_memory_grow) Ir_memory_grow"
  "visited v (ir_words (Ir_f32_const n)) (Ir_f32_const n)"
  "visited v (ir_words (Ir_f64_const k)) (Ir_f64_const k)"
  unfolding ir_words.simps
  by (rule visitedI; ((simp add: control_codes; fail) | (simp only: decodes imm_valtype_def; (rule reads_ret reads_local | (rule reads_after, rule read_atoms, simp)))))+

lemma idx_words_16: "idx_words opc (ucast i) = (if i < 0xFF then [opcode_word opc (ucast i)] else [opcode_word opc 0xFF, i])"
  for i :: u16
proof -
  have small: "unat i < 2 ^ 16" using unsigned_less [of i] by simp
  have "((ucast i :: u32) < 0xFF) = (i < 0xFF)"
    using small by (simp add: word_less_nat_alt unsigned_ucast_eq take_bit_nat_eq_self)
  moreover have "ucast (ucast i :: u32) = (ucast i :: u8)" "ucast (ucast i :: u32) = i"
    by (rule bit_eqI; auto simp: bit_simps dest: bit_imp_le_length)+
  ultimately show ?thesis by (simp add: idx_words_def)
qed

lemma visited_if:
  "(c \<Longrightarrow> visited v ws p) \<Longrightarrow> (\<not> c \<Longrightarrow> visited v vs p) \<Longrightarrow> visited v (if c then ws else vs) p"
  by simp

lemma visited_imm:
  "visited v (ir_words (Ir_global_get i)) (Ir_global_get i)"
  "visited v (ir_words (Ir_global_set i)) (Ir_global_set i)"
  "visited v (ir_words (Ir_i32_const n)) (Ir_i32_const n)"
  "visited v (ir_words (Ir_i64_const k)) (Ir_i64_const k)"
  unfolding ir_words.simps idx_words_16 imm_32_words_def imm_64_words_def
  by (rule visited_if; rule visitedI; ((simp add: control_codes; fail) |
      (simp only: decodes ir_index_def small_imm if_False if_True simp_thms bindM_ret_left; (rule reads_ret | (rule reads_after, rule read_atoms, simp)))))+

lemma visited_mem:
  assumes "ma_align ma < 0xFF"
  shows "visited v (ir_words (Ir_mem p ma)) (Ir_mem p ma)"
  unfolding ir_words.simps
proof (rule visitedI)
  show "mem_code p \<noteq> BR_TABLE" by (rule mem_op_of_outside(1)) (simp add: control_codes)
  show "reads (\<lambda>code. ir_decode code (mem_code p) (ucast (ma_align ma))) (words_32 (ma_offset ma)) (Ir_mem p ma)"
    unfolding decode_mem by (rule reads_after, rule read_atoms) (use assms in \<open>simp add: small_imm\<close>)
qed

lemma visited_base: "visited v (ir_words (Ir_base q)) (Ir_base q)"
proof (cases "\<exists>s. q = TruncSat s")
  case True
  then obtain s where s: "q = TruncSat s" by blast
  have sat: "sat_op_of (ucast (ucast (sat_code s) :: u8)) = Some s"
    using sat_op_of_code [of s] by (cases s) simp_all
  show ?thesis
    unfolding s ir_words.simps
    by (rule visitedI) (simp add: control_codes, simp only: decodes, rule reads_after, rule reads_unwrap, rule sat, rule refl)
next
  case False
  then have words: "ir_words (Ir_base q) = [opcode_word (base_code q) 0]" by (cases q) simp_all
  show ?thesis
    unfolding words
  proof (rule visitedI)
    show "base_code q \<noteq> BR_TABLE" using False by (intro base_code_outside) (auto simp: control_codes)
    show "reads (\<lambda>code. ir_decode code (base_code q) 0) [] (Ir_base q)"
      using False by (subst decode_base) (auto simp: reads_ret)
  qed
qed

lemma visited_call_indirect: "x \<le> 0xFFFF \<Longrightarrow> visited v (ir_words (Ir_call_indirect x)) (Ir_call_indirect x)"
proof -
  assume "x \<le> 0xFFFF"
  then have "ucast (ucast x :: u16) = x"
    by (simp add: word_le_nat_alt word_unat_eq_iff unsigned_ucast_eq unsigned_take_bit_eq take_bit_nat_eq_self)
  then show ?thesis
    unfolding ir_words.simps
    by (intro visitedI) (simp add: control_codes, simp only: decodes, rule reads_after, rule read_atoms, simp)
qed

lemma visited_op: "ir_fits p \<Longrightarrow> visited v (ir_words p) p"
  by (cases p) (simp_all only: visited_control visited_variable visited_rest visited_imm visited_base ir_fits.simps
      visited_mem visited_call_indirect)

section \<open>Compiling\<close>

text \<open>
  \<open>writes f ws\<close>: when \<open>f\<close> succeeds it has appended the words \<open>ws\<close>. The operations on the operand
  stack append nothing.
\<close>

definition writes :: "(builder, 'a, 'e) m \<Rightarrow> u16 list \<Rightarrow> bool" where
  "writes f ws \<longleftrightarrow> (\<forall>b a b'. code_inv (tb_code b) \<longrightarrow> f b = (Ok a, b') \<longrightarrow>
     code_inv (tb_code b') \<and> code_words (tb_code b') = code_words (tb_code b) @ ws)"

named_theorems writes_intros "operations that append known words"

lemma writes_emits: "emits f ws \<Longrightarrow> writes f ws"
  unfolding emits_def writes_def by (blast dest: wpM_OkD appendedD(1,2))

lemma writes_bind: "writes f ws \<Longrightarrow> (\<And>a. writes (g a) vs) \<Longrightarrow> writes (bindM f g) (ws @ vs)"
  unfolding writes_def by (metis append.assoc bindM_OkE)

lemma writes_then: "writes f ws \<Longrightarrow> writes g vs \<Longrightarrow> writes (thenM f g) (ws @ vs)"
  by (simp add: thenM_def writes_bind)

lemma writes_quiet_bind [writes_intros]: "writes f [] \<Longrightarrow> (\<And>a. writes (g a) vs) \<Longrightarrow> writes (bindM f g) vs"
  by (metis append_Nil writes_bind)

lemma writes_quiet_then [writes_intros]: "writes f [] \<Longrightarrow> writes g vs \<Longrightarrow> writes (thenM f g) vs"
  by (metis append_Nil writes_then)

lemma writes_state [writes_intros]:
  "writes (retM a) []" "writes (errM e) ws" "writes panicM ws" "writes (getM f) []" "writes (liftR r) []"
  "writes (ok_or x e) []" "writes (assertM c) []"
  by (auto simp: writes_def run_defs split: option.splits result.splits if_splits)

lemma writes_modify [writes_intros]: "(\<And>b. tb_code (h b) = tb_code b) \<Longrightarrow> writes (modifyM h) []"
  by (simp add: writes_def modifyM_def)

lemma writes_if [writes_intros]: "(c \<Longrightarrow> writes f ws) \<Longrightarrow> (\<not> c \<Longrightarrow> writes g ws) \<Longrightarrow> writes (if c then f else g) ws"
  by simp

lemma writes_option [writes_intros]:
  "(x = None \<Longrightarrow> writes f ws) \<Longrightarrow> (\<And>a. x = Some a \<Longrightarrow> writes (g a) ws) \<Longrightarrow>
   writes (case x of None \<Rightarrow> f | Some a \<Rightarrow> g a) ws"
  by (cases x) simp_all

lemma writes_map_err [writes_intros]: "writes f ws \<Longrightarrow> writes (map_err h f) ws"
  by (auto simp: writes_def map_err_def split: prod.splits result.splits)

lemma writes_forM [writes_intros]: "(\<And>a. writes (f a) []) \<Longrightarrow> writes (forM xs f) []"
  by (induction xs) (auto intro: writes_intros)

lemma writes_pop_stack_t [writes_intros]: "writes pop_stack_t []"
  unfolding pop_stack_t_def control_frame_stack_len_def split_def
  by (intro writes_intros) simp_all

lemma writes_stack [writes_intros]:
  "writes (pop_stack t) []" "writes (pop_known ty) []" "writes (push_stack env t) []" "writes (push_known env ty) []"
  unfolding pop_stack_def pop_known_def push_stack_def push_known_def stack_height_def
  by (intro writes_intros; simp)+

lemma writes_sigs [writes_intros]: "writes (validate env sig) []" "writes (call_sig env ps rs) []"
  unfolding validate_def call_sig_def by (intro writes_intros)+

lemma writes_mark_unreachable [writes_intros]: "writes mark_unreachable []"
  unfolding mark_unreachable_def by (intro writes_intros) simp_all

lemmas writes_instr [writes_intros] = emits_instr [THEN writes_emits] emits_imm [THEN writes_emits]
  emits_write [THEN writes_emits]

lemma writes_append: "writes f [w] \<Longrightarrow> writes g ws \<Longrightarrow> writes (thenM f g) (w # ws)"
  using writes_then [of f "[w]" g ws] by simp

lemma writes_return: "writes (instr_return r) (ir_words (Ir_return (case r of
     Some ty \<Rightarrow> word_of_nat (val_type_size ty) div 4 | None \<Rightarrow> 0)))"
  by (cases r) (simp_all add: instr_return_def writes_instr)

section \<open>The instruction a visit compiles to\<close>

text \<open>
  For the visits that compile to one instruction without a label; the type of \<open>drop\<close> and \<open>select\<close> is that
  of the operand on the checker's stack.
\<close>

definition ir_call_of :: "sym_ref \<Rightarrow> ir_op" where
  "ir_call_of r = (case r of Ref_Module i \<Rightarrow> Ir_call i | Ref_Host md i \<Rightarrow> Ir_call_host md i | Ref_Extern md i \<Rightarrow> Ir_call_extern md i)"

definition ir_global_get_of :: "sym_ref \<Rightarrow> ir_op" where
  "ir_global_get_of r = (case r of Ref_Module i \<Rightarrow> Ir_global_get i
     | Ref_Host md i \<Rightarrow> Ir_global_get_host md i | Ref_Extern md i \<Rightarrow> Ir_global_get_extern md i)"

definition ir_global_set_of :: "sym_ref \<Rightarrow> ir_op" where
  "ir_global_set_of r = (case r of Ref_Module i \<Rightarrow> Ir_global_set i
     | Ref_Host md i \<Rightarrow> Ir_global_set_host md i | Ref_Extern md i \<Rightarrow> Ir_global_set_extern md i)"

fun okR :: "('a, 'e) result \<Rightarrow> 'a option" where
  "okR (Ok a) = Some a"
| "okR _ = None"

fun compiled :: "build_env \<Rightarrow> builder \<Rightarrow> visit \<Rightarrow> ir_op option" where
  "compiled env b Vs_unreachable = Some Ir_unreachable"
| "compiled env b Vs_drop = map_option (\<lambda>t. Ir_drop (operand_val_type t)) (okR (fst (pop_stack_t b)))"
| "compiled env b Vs_select = map_option (\<lambda>t. Ir_select (operand_val_type t))
     (okR (fst (thenM (pop_known T_I32) (bindM pop_stack_t pop_stack) b)))"
| "compiled env b Vs_return = Some (Ir_return (case fn_return (be_func env) of
     Some ty \<Rightarrow> word_of_nat (val_type_size ty) div 4 | None \<Rightarrow> 0))"
| "compiled env b (Vs_call x) = map_option ir_call_of (get_func_ref (be_module env) x)"
| "compiled env b (Vs_call_indirect x) = Some (Ir_call_indirect x)"
| "compiled env b (Vs_local_get x) = map_option Ir_local_get (okR (get_local env x))"
| "compiled env b (Vs_local_set x) = map_option Ir_local_set (okR (get_local env x))"
| "compiled env b (Vs_local_tee x) = map_option Ir_local_tee (okR (get_local env x))"
| "compiled env b (Vs_global_get x) = map_option (\<lambda>g. ir_global_get_of (gv_reference g)) (okR (get_global env x))"
| "compiled env b (Vs_global_set x) = map_option (\<lambda>g. ir_global_set_of (gv_reference g)) (okR (get_global env x))"
| "compiled env b (Vs_mem p ma) = Some (Ir_mem p ma)"
| "compiled env b Vs_memory_size = Some Ir_memory_size"
| "compiled env b Vs_memory_grow = Some Ir_memory_grow"
| "compiled env b (Vs_i32_const n) = Some (Ir_i32_const n)"
| "compiled env b (Vs_i64_const n) = Some (Ir_i64_const n)"
| "compiled env b (Vs_f32_const z) = Some (Ir_f32_const z)"
| "compiled env b (Vs_f64_const z) = Some (Ir_f64_const z)"
| "compiled env b (Vs_base p) = Some (Ir_base p)"
| "compiled env b _ = None"

lemma okR_Some [simp]: "okR r = Some a \<longleftrightarrow> r = Ok a"
  by (cases r) simp_all

definition compiles :: "unit tb \<Rightarrow> builder \<Rightarrow> ir_op \<Rightarrow> bool" where
  "compiles f b p \<longleftrightarrow> (\<forall>a b'. f b = (Ok a, b') \<longrightarrow> code_inv (tb_code b) \<longrightarrow>
     code_inv (tb_code b') \<and> code_words (tb_code b') = code_words (tb_code b) @ ir_words p)"

lemma compiles_writes: "writes f (ir_words p) \<Longrightarrow> compiles f b p"
  by (auto simp: writes_def compiles_def)

lemma writes_liftR_bind: "(\<And>a. r = Ok a \<Longrightarrow> writes (g a) ws) \<Longrightarrow> writes (bindM (liftR r) g) ws"
  by (cases r) (auto simp: writes_def bindM_def liftR_def)

lemma writes_ok_or_bind: "(\<And>a. x = Some a \<Longrightarrow> writes (g a) ws) \<Longrightarrow> writes (bindM (ok_or x e) g) ws"
  by (cases x) (auto simp: writes_def run_defs)

lemma writes_base: "writes (c_base env p) (ir_words (Ir_base p))"
  unfolding c_base_def by (intro writes_quiet_then writes_sigs) (cases p; simp add: writes_instr)

lemma writes_locals:
  assumes "get_local env x = Ok l"
  shows "writes (c_local_get env x) (ir_words (Ir_local_get l))"
    "writes (c_local_set env x) (ir_words (Ir_local_set l))"
    "writes (c_local_tee env x) (ir_words (Ir_local_tee l))"
  unfolding c_local_get_def c_local_set_def c_local_tee_def assms ir_words.simps
  by (rule writes_quiet_bind writes_quiet_then writes_stack writes_state writes_liftR_bind writes_append writes_instr | simp only: result.inject)+

lemma writes_globals:
  assumes "get_global env x = Ok g"
  shows "writes (c_global_get env x) (ir_words (ir_global_get_of (gv_reference g)))"
    "writes (c_global_set env x) (ir_words (ir_global_set_of (gv_reference g)))"
  unfolding c_global_get_def c_global_set_def assms ir_global_get_of_def ir_global_set_of_def
  by (rule writes_liftR_bind, simp only: result.inject,
      intro writes_if writes_state writes_quiet_then writes_stack,
      cases "gv_reference g"; simp add: writes_instr writes_append)+

lemma writes_sig_instr: "writes f [] \<Longrightarrow> writes (thenM f (thenM (instr_imm_8 c x) (write_16 i))) [opcode_word c x, i]"
  by (rule writes_quiet_then, assumption, rule writes_append, rule writes_instr, rule writes_instr)

lemma writes_call:
  assumes "get_func_ref (be_module env) x = Some r"
  shows "writes (c_call env x) (ir_words (ir_call_of r))"
  unfolding c_call_def assms ir_call_of_def
proof (rule writes_ok_or_bind)
  fix a assume "Some r = Some a"
  then have "a = r" by simp
  then show "writes (case a of Ref_Module index \<Rightarrow>
         bindM (liftR (func_sig (be_module env) index)) (\<lambda>ty.
         thenM (call_sig env (ft_params ty) (ft_returns ty))
         (thenM (instr_imm_8 CALL 0) (write_16 index)))
     | Ref_Host md index \<Rightarrow>
         bindM (liftR (bindR (at (st_host_modules (be_store env)) (unat md))
           (\<lambda>hm. at (hmod_functions hm) (unat index)))) (\<lambda>f.
         thenM (call_sig env (hf_params f) (result_list (hf_returns f)))
         (thenM (instr_imm_8 CALL_HOST md) (write_16 index)))
     | Ref_Extern md index \<Rightarrow>
         bindM (liftR (bindR (at (st_modules (be_store env)) (unat md)) (\<lambda>em. func_sig em index))) (\<lambda>ty.
         thenM (call_sig env (ft_params ty) (ft_returns ty))
         (thenM (instr_imm_8 CALL_EXTERN md) (write_16 index))))
      (ir_words (case r of Ref_Module i \<Rightarrow> Ir_call i | Ref_Host md i \<Rightarrow> Ir_call_host md i | Ref_Extern md i \<Rightarrow> Ir_call_extern md i))"
    by (cases r) (auto intro!: writes_liftR_bind writes_sig_instr writes_sigs)
qed

lemma writes_call_indirect: "writes (c_call_indirect env x) (ir_words (Ir_call_indirect x))"
  unfolding c_call_indirect_def ir_words.simps
  by (intro writes_if writes_state writes_quiet_then writes_stack writes_ok_or_bind writes_forM writes_append writes_instr)

lemma writes_consts:
  "writes (c_i32_const env n) (ir_words (Ir_i32_const n))" "writes (c_i64_const env k) (ir_words (Ir_i64_const k))"
  "writes (c_f32_const env n) (ir_words (Ir_f32_const n))" "writes (c_f64_const env k) (ir_words (Ir_f64_const k))"
  unfolding c_i32_const_def c_i64_const_def c_f32_const_def c_f64_const_def ir_words.simps
  by (intro writes_quiet_then writes_sigs writes_append writes_instr)+

lemma writes_memory_size: "writes (c_memory_size env) (ir_words Ir_memory_size)"
  unfolding c_memory_size_def ir_words.simps by (intro writes_quiet_then writes_sigs writes_state writes_instr)

lemma writes_memory_grow: "writes (c_memory_grow env) (ir_words Ir_memory_grow)"
  unfolding c_memory_grow_def ir_words.simps
  by (intro writes_quiet_then writes_quiet_bind writes_sigs writes_state writes_instr writes_if)

lemma writes_mem: "writes (c_mem env p ma) (ir_words (Ir_mem p ma))"
  unfolding c_mem_def ir_words.simps
  by (intro writes_quiet_then writes_sigs writes_state writes_instr writes_if)

lemma writes_mark: "writes f ws \<Longrightarrow> writes (thenM f mark_unreachable) ws"
  using writes_then [OF _ writes_mark_unreachable] by fastforce

lemma writes_c_return: "writes (c_return env) (ir_words (Ir_return (case fn_return (be_func env) of
     Some ty \<Rightarrow> word_of_nat (val_type_size ty) div 4 | None \<Rightarrow> 0)))"
  unfolding c_return_def
proof (rule writes_mark)
  show "writes (case fn_return (be_func env) of Some ty \<Rightarrow> thenM (pop_known ty) (instr_return (Some ty)) | None \<Rightarrow> instr_return None)
      (ir_words (Ir_return (case fn_return (be_func env) of Some ty \<Rightarrow> word_of_nat (val_type_size ty) div 4 | None \<Rightarrow> 0)))"
    using writes_return [of "fn_return (be_func env)"]
    by (cases "fn_return (be_func env)") (auto intro: writes_quiet_then writes_stack)
qed

lemma writes_c_unreachable: "writes c_unreachable (ir_words Ir_unreachable)"
  unfolding c_unreachable_def ir_words.simps by (intro writes_mark writes_instr)

lemma compiles_bind:
  assumes "fst (f b) = Ok t" "writes f []" "writes (g t) (ir_words p)"
  shows "compiles (bindM f g) b p"
  unfolding compiles_def
proof (intro allI impI)
  fix a b' assume run: "bindM f g b = (Ok a, b')" and inv: "code_inv (tb_code b)"
  obtain t' b1 where f: "f b = (Ok t', b1)" "g t' b1 = (Ok a, b')" using run by (rule bindM_OkE)
  have t: "t' = t" using assms(1) f(1) by simp
  have b1: "code_inv (tb_code b1)" "code_words (tb_code b1) = code_words (tb_code b) @ []"
    using assms(2) f(1) inv unfolding writes_def by blast+
  show "code_inv (tb_code b') \<and> code_words (tb_code b') = code_words (tb_code b) @ ir_words p"
    using assms(3) f(2) b1 unfolding writes_def t by (metis append_Nil2)
qed

lemma compiles_drop: "fst (pop_stack_t b) = Ok t \<Longrightarrow> compiles c_drop b (Ir_drop (operand_val_type t))"
  unfolding c_drop_def operand_u8_def
  by (rule compiles_bind [of _ _ t]) (auto simp: writes_pop_stack_t writes_instr)

lemma c_select_alt:
  "c_select env = bindM (thenM (pop_known T_I32) (bindM pop_stack_t pop_stack))
     (\<lambda>t. thenM (push_stack env t) (instr_imm_8 SELECT (operand_u8 t)))"
  by (simp add: c_select_def thenM_def bindM_assoc)

lemma compiles_select:
  "fst (thenM (pop_known T_I32) (bindM pop_stack_t pop_stack) b) = Ok t \<Longrightarrow>
   compiles (c_select env) b (Ir_select (operand_val_type t))"
  unfolding c_select_alt operand_u8_def
  by (rule compiles_bind [of _ _ t])
    (auto intro!: writes_quiet_then writes_quiet_bind writes_stack writes_pop_stack_t writes_instr)

lemma ir_of_refs:
  "ir_call_of r \<noteq> Ir_call_indirect x" "ir_call_of r \<noteq> Ir_mem q ma"
  "ir_global_get_of r \<noteq> Ir_call_indirect x" "ir_global_get_of r \<noteq> Ir_mem q ma"
  "ir_global_set_of r \<noteq> Ir_call_indirect x" "ir_global_set_of r \<noteq> Ir_mem q ma"
  by (cases r; simp add: ir_call_of_def ir_global_get_of_def ir_global_set_of_def)+

lemmas compiles_simple = writes_c_unreachable writes_c_return writes_call_indirect writes_mem writes_memory_size
  writes_memory_grow writes_consts writes_base

lemma compile_compiles:
  assumes "compiled env b vs = Some p"
  shows "compiles (compile_visit env vs) b p"
proof -
  note w = compiles_simple [THEN compiles_writes] writes_call [THEN compiles_writes] writes_locals [THEN compiles_writes]
    writes_globals [THEN compiles_writes] compiles_drop compiles_select
  show ?thesis using assms by (cases vs) (auto simp del: ir_words.simps intro: w)
qed

lemma compile_fits:
  assumes "compiled env b vs = Some p" "compile_visit env vs b = (Ok a, b')"
  shows "ir_fits p"
proof (cases p)
  case (Ir_call_indirect x)
  then show ?thesis using assms
    by (cases vs) (auto simp: ir_of_refs c_call_indirect_def errM_def not_less
        split: if_splits elim!: thenM_OkE bindM_OkE)
next
  case (Ir_mem q ma)
  then show ?thesis using assms
    by (cases vs) (auto simp: ir_of_refs c_mem_def instr_mem_def errM_def not_le
        split: if_splits elim!: thenM_OkE bindM_OkE)
qed simp_all

section \<open>Reading back\<close>

text \<open>
  Claim C36. What is compiled is what is executed: a visit that compiles to an instruction, when it succeeds,
  leaves the words from which the IR reader gets that instruction, with its operands, and the reader
  stops where the compiler stopped. The code may have grown further since, in whatever pages.
\<close>

theorem compiled_instruction_read_back:
  fixes v :: "('s, 'e) ir_visitor"
  assumes "compiled env b vs = Some p" "compile_visit env vs b = (Ok a, b')" "code_inv (tb_code b)"
    and "\<forall>q\<in>set code. length q = 256" "take (word_count (tb_code b')) (concat code) = code_words (tb_code b')"
  shows "visit_instruction code v (addr (word_count (tb_code b)), s) =
    onSnd (iv_visit v p) (addr (word_count (tb_code b')), s)"
proof -
  define n where "n = word_count (tb_code b)"
  have b': "code_inv (tb_code b')" "code_words (tb_code b') = code_words (tb_code b) @ ir_words p"
    using compile_compiles [OF assms(1)] assms(2,3) by (simp_all add: compiles_def)
  have len: "word_count (tb_code b') = n + length (ir_words p)"
    using b' assms(3) length_code_words [of "tb_code b'"] by (simp add: n_def)
  have "drop n (take (n + length (ir_words p)) (concat code)) = ir_words p"
    using assms(3,5) b'(2) by (simp add: len n_def)
  moreover have "n + length (ir_words p) < 2 ^ 32" using word_count_room2 [OF b'(1)] by (simp add: len)
  moreover have "unat (word_of_nat n :: u32) = n"
    using calculation(2) by (simp add: unat_of_nat take_bit_nat_eq_self)
  ultimately have "code_at code (addr n) (ir_words p)"
    using assms(4) by (simp add: code_at_def addr_def drop_take)
  then show ?thesis
    using visited_op [OF compile_fits [OF assms(1,2)], of v]
    by (simp add: visited_def n_def len target_plus_def addr_def)
qed

text \<open>A constant too wide for the immediate byte, compiled at the start of the code.\<close>

lemma compiled_instruction_read_back_witness:
  "\<forall>(v :: (unit, unit) ir_visitor) s. let b' = snd (compile_visit tiny_env (Vs_i32_const 300) tiny_builder)
   in visit_instruction (cd_pages (tb_code b')) v (addr 0, s) = onSnd (iv_visit v (Ir_i32_const 300)) (addr 3, s)"
proof (intro allI)
  fix v :: "(unit, unit) ir_visitor" and s
  define r where "r = compile_visit tiny_env (Vs_i32_const 300) tiny_builder"
  have run: "fst r = Ok ()" "word_count (tb_code (snd r)) = 3" "word_count (tb_code tiny_builder) = 0"
    unfolding r_def by code_simp+
  have inv: "code_inv (tb_code tiny_builder)" using tiny_builder_ok by (simp add: tb_ok_def)
  have r: "compile_visit tiny_env (Vs_i32_const 300) tiny_builder = (Ok (), snd r)"
    using run(1) by (simp add: r_def prod_eq_iff)
  then have inv': "code_inv (tb_code (snd r))"
    using compile_compiles [of tiny_env tiny_builder "Vs_i32_const 300"] inv by (simp add: compiles_def)
  show "let b' = snd (compile_visit tiny_env (Vs_i32_const 300) tiny_builder)
    in visit_instruction (cd_pages (tb_code b')) v (addr 0, s) = onSnd (iv_visit v (Ir_i32_const 300)) (addr 3, s)"
    unfolding Let_def r_def [symmetric]
    using compiled_instruction_read_back [OF _ r inv, of "Ir_i32_const 300" "cd_pages (tb_code (snd r))" v s] inv'
    by (simp add: run(2,3) code_inv_def code_words_def flat_def)
qed

end
