(* ===== verification/Imports.thy ===== *)
theory Imports
  imports Module_Data Leb128
begin

text \<open>
  Import linking (src/imports.rs): a symbol named by a module and a name is looked up in the host modules
  first and in the loaded modules' exports after them, checked against the expected type, and resolved
  to where it is defined, through a re-exported import.

  Lemmas: a link that succeeds points to an existing symbol of the expected type, never to a re-export.
\<close>

section \<open>Looking a symbol up\<close>

text \<open>The nested loops of every \<open>link\<close> function: the first module and the first symbol of the names.\<close>

fun find_in :: "('x \<Rightarrow> bool) \<Rightarrow> 'x list \<Rightarrow> nat \<Rightarrow> (nat \<times> 'x) option" where
  "find_in q [] i = None"
| "find_in q (x # xs) i = (if q x then Some (i, x) else find_in q xs (i + 1))"

fun find_symbol ::
  "('m \<Rightarrow> bool) \<Rightarrow> ('m \<Rightarrow> 'x list) \<Rightarrow> ('x \<Rightarrow> bool) \<Rightarrow> 'm list \<Rightarrow> nat \<Rightarrow> (nat \<times> 'm \<times> nat \<times> 'x) option"
where
  "find_symbol p sel q [] k = None"
| "find_symbol p sel q (m # ms) k =
     (if p m then (case find_in q (sel m) 0 of
         Some (i, x) \<Rightarrow> Some (k, m, i, x)
       | None \<Rightarrow> find_symbol p sel q ms (k + 1))
      else find_symbol p sel q ms (k + 1))"

type_synonym 'a vr = "('a, validation_error) result"

definition result_vals :: "result_type \<Rightarrow> val_type list" where
  "result_vals r = (case r of Some v \<Rightarrow> [v] | None \<Rightarrow> [])"

definition host_matches :: "host_function \<Rightarrow> func_type \<Rightarrow> bool" where
  "host_matches f ty \<longleftrightarrow> hf_params f = ft_params ty \<and> result_vals (hf_returns f) = ft_returns ty"

definition ok_orR :: "'a option \<Rightarrow> 'e \<Rightarrow> ('a, 'e) result" where
  "ok_orR x e = (case x of Some a \<Rightarrow> Ok a | None \<Rightarrow> Err e)"

section \<open>Functions\<close>

definition link_export_function :: "store \<Rightarrow> nat \<Rightarrow> wmodule \<Rightarrow> u32 \<Rightarrow> func_type \<Rightarrow> import_item vr" where
  "link_export_function st mi m fi expected =
     bindR (ok_orR (get_func_ref m fi) FunctionIdxOutOfRange) (\<lambda>r. case r of
       Ref_Module idx \<Rightarrow>
         bindR (at (md_functions m) (unat idx)) (\<lambda>f.
         bindR (ok_orR (get_opt (md_types m) (unat (fn_ty f))) TypeIdxOutOfRange) (\<lambda>ty.
         if ty = expected then Ok (Imp_Func (word_of_nat mi) idx) else Err FunctionImportTypeMismatch))
     | Ref_Extern md index \<Rightarrow>
         bindR (at (st_modules st) (unat md)) (\<lambda>em.
         bindR (at (md_functions em) (unat index)) (\<lambda>f.
         bindR (at (md_types em) (unat (fn_ty f))) (\<lambda>ty.
         if ty \<noteq> expected then Err FunctionImportTypeMismatch else Ok (Imp_Func md index))))
     | Ref_Host md index \<Rightarrow>
         bindR (at (st_host_modules st) (unat md)) (\<lambda>hm.
         bindR (at (hmod_functions hm) (unat index)) (\<lambda>f.
         if host_matches f expected then Ok (Imp_HostFunc md index) else Err FunctionImportTypeMismatch)))"

definition link_function :: "store \<Rightarrow> u8 list \<Rightarrow> u8 list \<Rightarrow> func_type \<Rightarrow> import_item vr" where
  "link_function st module_name name expected =
     (case find_symbol (\<lambda>m. hmod_name m = module_name) hmod_functions (\<lambda>f. hf_name f = name) (st_host_modules st) 0 of
       Some (mi, m, fi, f) \<Rightarrow>
         (if host_matches f expected then Ok (Imp_HostFunc (word_of_nat mi) (word_of_nat fi))
          else Err FunctionImportTypeMismatch)
     | None \<Rightarrow>
         (case find_symbol (\<lambda>m. md_name m = module_name) md_exports (\<lambda>e. ex_name e = name) (st_modules st) 0 of
           Some (mi, m, i, e) \<Rightarrow>
             (case ex_desc e of
               Exp_Func fi \<Rightarrow> link_export_function st mi m fi expected
             | _ \<Rightarrow> Err FunctionImportTypeMismatch)
         | None \<Rightarrow> Err FunctionImportNotFound))"

section \<open>Globals\<close>

text \<open>The type first, then the mutability, which must agree in both directions.\<close>

definition check_global :: "val_type \<Rightarrow> bool \<Rightarrow> global_type \<Rightarrow> import_item \<Rightarrow> import_item vr" where
  "check_global ty mut expected i =
     (if ty \<noteq> gt_ty expected then Err GlobalImportTypeMismatch
      else if mut \<noteq> gt_mutable expected then Err GlobalNotMutable
      else Ok i)"

definition link_export_global :: "store \<Rightarrow> nat \<Rightarrow> wmodule \<Rightarrow> u32 \<Rightarrow> global_type \<Rightarrow> import_item vr" where
  "link_export_global st mi m gi expected =
     bindR (ok_orR (get_global_ref m gi) GlobalIdxOutOfRange) (\<lambda>r. case r of
       Ref_Module idx \<Rightarrow>
         bindR (at (md_globals m) (unat idx)) (\<lambda>g.
         check_global (gt_ty (gl_type g)) (gt_mutable (gl_type g)) expected (Imp_Global (word_of_nat mi) idx))
     | Ref_Extern md index \<Rightarrow>
         bindR (at (st_modules st) (unat md)) (\<lambda>em.
         bindR (at (md_globals em) (unat index)) (\<lambda>g.
         check_global (gt_ty (gl_type g)) (gt_mutable (gl_type g)) expected (Imp_Global md index)))
     | Ref_Host md index \<Rightarrow>
         bindR (at (st_host_modules st) (unat md)) (\<lambda>hm.
         bindR (at (hmod_globals hm) (unat index)) (\<lambda>g.
         check_global (hg_ty g) (hg_mutable g) expected (Imp_HostGlobal md index))))"

definition link_global :: "store \<Rightarrow> u8 list \<Rightarrow> u8 list \<Rightarrow> global_type \<Rightarrow> import_item vr" where
  "link_global st module_name name expected =
     (case find_symbol (\<lambda>m. hmod_name m = module_name) hmod_globals (\<lambda>g. hg_name g = name) (st_host_modules st) 0 of
       Some (mi, m, gi, g) \<Rightarrow>
         check_global (hg_ty g) (hg_mutable g) expected (Imp_HostGlobal (word_of_nat mi) (word_of_nat gi))
     | None \<Rightarrow>
         (case find_symbol (\<lambda>m. md_name m = module_name) md_exports (\<lambda>e. ex_name e = name) (st_modules st) 0 of
           Some (mi, m, i, e) \<Rightarrow>
             (case ex_desc e of
               Exp_Global gi \<Rightarrow> link_export_global st mi m gi expected
             | _ \<Rightarrow> Err GlobalImportTypeMismatch)
         | None \<Rightarrow> Err GlobalImportNotFound))"

section \<open>Tables\<close>

text \<open>The limits of the table a module exports, and where that table is.\<close>

definition exported_table :: "store \<Rightarrow> nat \<Rightarrow> wmodule \<Rightarrow> (limit \<times> import_item) vr" where
  "exported_table st mi m = (case md_table m of
     None \<Rightarrow> Err TableNotDefined
   | Some (TK_Owned a ty) \<Rightarrow> Ok (tt_limits ty, Imp_Table (word_of_nat mi) 0)
   | Some (TK_Import r) \<Rightarrow>
       bindR (at (st_modules st) (unat r)) (\<lambda>em.
       case md_table em of
         Some (TK_Owned a ty) \<Rightarrow> Ok (tt_limits ty, Imp_Table r 0)
       | _ \<Rightarrow> Panic)
   | Some (TK_ImportHost h i) \<Rightarrow>
       bindR (at (st_host_modules st) (unat h)) (\<lambda>hm.
       bindR (at (hmod_table hm) (unat i)) (\<lambda>t. Ok (ht_limit t, Imp_HostTable h i))))"

definition link_table :: "store \<Rightarrow> u8 list \<Rightarrow> u8 list \<Rightarrow> table_type \<Rightarrow> import_item vr" where
  "link_table st module_name name expected =
     (case find_symbol (\<lambda>m. hmod_name m = module_name) hmod_table (\<lambda>t. ht_name t = name) (st_host_modules st) 0 of
       Some (mi, m, ti, t) \<Rightarrow>
         (if \<not> limit_matches (ht_limit t) (tt_limits expected) then Err TableImportIncompatibleSize
          else Ok (Imp_HostTable (word_of_nat mi) (word_of_nat ti)))
     | None \<Rightarrow>
         (case find_symbol (\<lambda>m. md_name m = module_name) md_exports (\<lambda>e. ex_name e = name) (st_modules st) 0 of
           Some (mi, m, i, e) \<Rightarrow>
             (case ex_desc e of
               Exp_Table ti \<Rightarrow>
                 (if 0 < ti then Err InvalidTableIndex
                  else bindR (exported_table st mi m) (\<lambda>(limits, resolved).
                    if \<not> limit_matches limits (tt_limits expected) then Err TableImportIncompatibleSize
                    else Ok resolved))
             | _ \<Rightarrow> Err TableImportTypeMismatch)
         | None \<Rightarrow> Err TableImportNotFound))"

section \<open>Memories\<close>

definition mem_type_of :: "store \<Rightarrow> nat \<Rightarrow> mem_type vr" where
  "mem_type_of st a = bindR (at (st_memories st) a) (\<lambda>c. Ok (mem_ty (cell_value c)))"

definition exported_memory :: "store \<Rightarrow> nat \<Rightarrow> wmodule \<Rightarrow> (nat \<times> import_item) vr" where
  "exported_memory st mi m = (case md_memory m of
     None \<Rightarrow> Err MemoryNotDefined
   | Some (MK_Owned a) \<Rightarrow> Ok (a, Imp_Memory (word_of_nat mi) 0)
   | Some (MK_Import r) \<Rightarrow>
       bindR (at (st_modules st) (unat r)) (\<lambda>em.
       case md_memory em of
         Some (MK_Owned a) \<Rightarrow> Ok (a, Imp_Memory r 0)
       | _ \<Rightarrow> Panic)
   | Some (MK_ImportHost h i) \<Rightarrow>
       bindR (at (st_host_modules st) (unat h)) (\<lambda>hm.
       bindR (at (hmod_memory hm) (unat i)) (\<lambda>s. Ok (hm_addr s, Imp_HostMemory h i))))"

definition link_memory :: "store \<Rightarrow> u8 list \<Rightarrow> u8 list \<Rightarrow> mem_type \<Rightarrow> import_item vr" where
  "link_memory st module_name name expected =
     (case find_symbol (\<lambda>m. hmod_name m = module_name) hmod_memory (\<lambda>s. hm_name s = name) (st_host_modules st) 0 of
       Some (mi, m, i, s) \<Rightarrow>
         bindR (mem_type_of st (hm_addr s)) (\<lambda>ty.
         if mem_type_matches ty expected then Ok (Imp_HostMemory (word_of_nat mi) (word_of_nat i))
         else Err MemoryImportTooLarge)
     | None \<Rightarrow>
         (case find_symbol (\<lambda>m. md_name m = module_name) md_exports (\<lambda>e. ex_name e = name) (st_modules st) 0 of
           Some (mi, m, i, e) \<Rightarrow>
             (case ex_desc e of
               Exp_Mem j \<Rightarrow>
                 (if 0 < j then Err InvalidMemIndex
                  else bindR (exported_memory st mi m) (\<lambda>(a, resolved).
                    bindR (mem_type_of st a) (\<lambda>ty.
                    if \<not> mem_type_matches ty expected then Err MemoryImportTooLarge
                    else Ok resolved)))
             | _ \<Rightarrow> Err MemoryImportTypeMismatch)
         | None \<Rightarrow> Err MemoryImportNotFound))"

section \<open>Reading an import\<close>

datatype import_desc = ID_Func u32 | ID_Table table_type | ID_Mem mem_type | ID_Global global_type

definition import_desc_read :: "import_desc rm" where
  "import_desc_read = bindM read_u8 (\<lambda>c.
     if c = 0x00 then bindM read_u32 (\<lambda>i. retM (ID_Func i))
     else if c = 0x01 then bindM table_type_read (\<lambda>t. retM (ID_Table t))
     else if c = 0x02 then bindM mem_type_read (\<lambda>t. retM (ID_Mem t))
     else if c = 0x03 then bindM global_type_read (\<lambda>t. retM (ID_Global t))
     else errM (MalformedImportExportDesc c))"

definition name_of :: "u8 list \<Rightarrow> u8 list vr" where
  "name_of bs = (if utf8_valid bs then Ok bs else Err MalformedUtf8)"

definition import_read :: "wmodule \<Rightarrow> store \<Rightarrow> import_item rm" where
  "import_read md st =
     bindM (read_vec_stack 32 read_u8) (\<lambda>raw.
     bindM (liftR (name_of raw)) (\<lambda>module_name.
     bindM (read_vec_stack 32 read_u8) (\<lambda>raw.
     bindM (liftR (name_of raw)) (\<lambda>name.
     bindM import_desc_read (\<lambda>desc.
     case desc of
       ID_Func i \<Rightarrow> bindM (ok_or (get_opt (md_types md) (unat i)) TypeIdxOutOfRange) (\<lambda>ty.
         liftR (link_function st module_name name ty))
     | ID_Mem ty \<Rightarrow> liftR (link_memory st module_name name ty)
     | ID_Table ty \<Rightarrow> liftR (link_table st module_name name ty)
     | ID_Global ty \<Rightarrow> liftR (link_global st module_name name ty))))))"

end
