(* ===== verification/Module_Decode.thy ===== *)
theory Module_Decode
  imports Imports Constant
begin

text \<open>
  The section decoder (src/module.rs): \<open>Module::new\<close>, which reads a module from a stream, section by section,
  links its imports, compiles its functions and writes its element and data segments.

  The decoder works on the reader and on \<open>loading\<close>: the module under construction, the store it will join
  and the code builder. Tables and memories it creates get new addresses in the store. Segments are
  written while they are read, as in the source, so a failed load leaves them written.
\<close>

record loading =
  ld_module :: wmodule
  ld_store :: store
  ld_code :: code_builder

type_synonym 'a lm = "(reader \<times> loading, 'a, validation_error) m"

definition module_field :: "(wmodule \<Rightarrow> wmodule) \<Rightarrow> unit lm" where
  "module_field h = onState (modifyM (\<lambda>l. l\<lparr>ld_module := h (ld_module l)\<rparr>))"

definition the_module :: "wmodule lm" where
  "the_module = onState (getM ld_module)"

definition the_store :: "store lm" where
  "the_store = onState (getM ld_store)"

section \<open>Section kinds\<close>

definition section_convert :: "u8 \<Rightarrow> section_kind vr" where
  "section_convert v =
     (if v = 0 then Ok Sec_Custom else if v = 1 then Ok Sec_Type else if v = 2 then Ok Sec_Import
      else if v = 3 then Ok Sec_Function else if v = 4 then Ok Sec_Table else if v = 5 then Ok Sec_Memory
      else if v = 6 then Ok Sec_Global else if v = 7 then Ok Sec_Export else if v = 8 then Ok Sec_Start
      else if v = 9 then Ok Sec_Element else if v = 10 then Ok Sec_Code else if v = 11 then Ok Sec_Data
      else Err (MalformedSectionId v))"

definition section_read :: "section_kind rm" where
  "section_read = bindM read_u8 (\<lambda>v. liftR (section_convert v))"

text \<open>The derived order of the enumeration.\<close>

primrec section_rank :: "section_kind \<Rightarrow> nat" where
  "section_rank Sec_Custom = 0" | "section_rank Sec_Type = 1" | "section_rank Sec_Import = 2"
| "section_rank Sec_Function = 3" | "section_rank Sec_Table = 4" | "section_rank Sec_Memory = 5"
| "section_rank Sec_Global = 6" | "section_rank Sec_Export = 7" | "section_rank Sec_Start = 8"
| "section_rank Sec_Element = 9" | "section_rank Sec_Code = 10" | "section_rank Sec_Data = 11"
| "section_rank Sec_N = 12"

section \<open>Custom, type and import sections\<close>

type_synonym custom_handler = "u8 list \<Rightarrow> nat \<Rightarrow> unit rm"

definition default_custom :: custom_handler where
  "default_custom name sz = skip sz"

definition MAX_NAME_LENGTH :: nat where
  "MAX_NAME_LENGTH = 32"

definition custom_section_read :: "custom_handler \<Rightarrow> nat \<Rightarrow> unit lm" where
  "custom_section_read handler sz =
     bindM (onReader reader_offset) (\<lambda>start.
     bindM (onReader (read_vec_stack MAX_NAME_LENGTH read_u8)) (\<lambda>raw.
     bindM (onReader (liftR (name_of raw))) (\<lambda>name.
     bindM (onReader reader_offset) (\<lambda>fin.
     thenM (assertM (start \<le> fin))
     (if sz < fin - start then errM MalformedSectionSize
      else with_limit (\<lambda>e. e) (sz - (fin - start))
        (onReader (handler name (sz - (fin - start)))))))))"

text \<open>Imports of a memory or a table are resolved into the module at once.\<close>

definition resolve_import :: "store \<Rightarrow> import_item \<Rightarrow> (wmodule, unit, validation_error) m" where
  "resolve_import st i = (case i of
     Imp_Memory r _ \<Rightarrow>
       bindM (getM md_memory) (\<lambda>m. if m \<noteq> None then errM MultipleMemories
       else bindM (liftR (at (st_modules st) (unat r))) (\<lambda>em.
         case md_memory em of
           Some (MK_Owned a) \<Rightarrow> modifyM (\<lambda>md. md\<lparr>md_memory := Some (MK_Import r)\<rparr>)
         | _ \<Rightarrow> panicM))
   | Imp_HostMemory h j \<Rightarrow>
       bindM (getM md_memory) (\<lambda>m. if m \<noteq> None then errM MultipleMemories
       else bindM (liftR (at (st_host_modules st) (unat h))) (\<lambda>hm.
         thenM (bindM (liftR (at (hmod_memory hm) (unat j))) (\<lambda>_. retM ()))
         (modifyM (\<lambda>md. md\<lparr>md_memory := Some (MK_ImportHost h j)\<rparr>))))
   | Imp_Table r _ \<Rightarrow>
       bindM (getM md_table) (\<lambda>t. if t \<noteq> None then errM MultipleTables
       else bindM (liftR (at (st_modules st) (unat r))) (\<lambda>em.
         case md_table em of
           Some (TK_Owned a ty) \<Rightarrow> modifyM (\<lambda>md. md\<lparr>md_table := Some (TK_Import r)\<rparr>)
         | _ \<Rightarrow> panicM))
   | Imp_HostTable h j \<Rightarrow>
       bindM (getM md_table) (\<lambda>t. if t \<noteq> None then errM MultipleTables
       else bindM (liftR (at (st_host_modules st) (unat h))) (\<lambda>hm.
         thenM (bindM (liftR (at (hmod_table hm) (unat j))) (\<lambda>_. retM ()))
         (modifyM (\<lambda>md. md\<lparr>md_table := Some (TK_ImportHost h j)\<rparr>))))
   | _ \<Rightarrow> retM ())"

definition onModule :: "(wmodule, 'a, validation_error) m \<Rightarrow> 'a lm" where
  "onModule f = onState (\<lambda>l. case f (ld_module l) of (r, md) \<Rightarrow> (r, l\<lparr>ld_module := md\<rparr>))"

definition import_section_read :: "unit lm" where
  "import_section_read =
     bindM the_module (\<lambda>md. bindM the_store (\<lambda>st.
     bindM (onReader (read_vec (import_read md st))) (\<lambda>imports.
     thenM (module_field (\<lambda>md. md\<lparr>md_imports := imports\<rparr>))
     (onModule (forM imports (resolve_import st))))))"

section \<open>Function, table, memory and global sections\<close>

definition read_func_section :: "wmodule \<Rightarrow> func rm" where
  "read_func_section md =
     bindM read_u32 (\<lambda>ty_idx.
     bindM (ok_or (get_opt (md_types md) (unat ty_idx)) TypeIdxOutOfRange) (\<lambda>ty.
     bindM (if 1 < length (ft_returns ty) then errM FunctionReturnsTooLarge
            else retM (case ft_returns ty of [] \<Rightarrow> None | t # _ \<Rightarrow> Some t)) (\<lambda>return_ty.
     if 0xFF < param_words (ft_params ty) then errM FunctionParametersTooLarge
     else retM \<lparr>fn_ty = ty_idx, fn_stack_usage = 0, fn_local_size = 0,
       fn_param_size = word_of_nat (param_words (ft_params ty)), fn_return = return_ty, fn_locals = [],
       fn_expr = JumpTarget 0\<rparr>)))"

definition function_section_read :: "wmodule \<Rightarrow> func list rm" where
  "function_section_read md = bindM (read_vec (read_func_section md)) (\<lambda>fs.
     if 0xFFFF < length fs then errM IdxTooLarge else retM fs)"

definition new_table :: "nat \<Rightarrow> (loading, nat, validation_error) m" where
  "new_table n = (\<lambda>l. let st = ld_store l in
     (Ok (length (st_tables st)),
      l\<lparr>ld_store := st\<lparr>st_tables := st_tables st @ [\<lparr>cell_value = replicate n TE_Uninit, cell_extra = 0\<rparr>]\<rparr>\<rparr>))"

definition table_section_read :: "table_kind option lm" where
  "table_section_read =
     bindM (onReader read_u32) (\<lambda>n.
     if n = 0 then retM None
     else if n = 1 then
       bindM (onReader table_type_read) (\<lambda>ty.
       thenM (onReader (alloc_step 1))
       (bindM (onState (new_table (unat (lim_min (tt_limits ty))))) (\<lambda>a. retM (Some (TK_Owned a ty)))))
     else errM MultipleTables)"

definition new_memory :: "memory \<Rightarrow> (loading, nat, validation_error) m" where
  "new_memory m = (\<lambda>l. let st = ld_store l in
     (Ok (length (st_memories st)),
      l\<lparr>ld_store := st\<lparr>st_memories := st_memories st @ [\<lparr>cell_value = m, cell_extra = 0\<rparr>]\<rparr>\<rparr>))"

definition guest_memory :: "alloc_response \<Rightarrow> mem_type \<Rightarrow> memory vr" where
  "guest_memory al ty = (case memory_new al ty of
     Ok m \<Rightarrow> Ok m | Err _ \<Rightarrow> Err GuestMemoryAllocationFailure | Panic \<Rightarrow> Panic)"

definition memory_section_read :: "alloc_response \<Rightarrow> memory_kind option lm" where
  "memory_section_read al =
     bindM (onReader read_u32) (\<lambda>len.
     bindM the_module (\<lambda>md.
     if 1 < len then errM MultipleMemories
     else if len = 0 then retM None
     else if md_memory md \<noteq> None then errM MultipleMemories
     else
       bindM (onReader mem_type_read) (\<lambda>ty.
       bindM (onReader (liftR (guest_memory al ty))) (\<lambda>m.
       thenM (onReader (alloc_step 1))
       (bindM (onState (new_memory m)) (\<lambda>a. retM (Some (MK_Owned a))))))))"

definition value_raw :: "wasm_value \<Rightarrow> val_type \<times> raw_value" where
  "value_raw v = (case v of
     V_I32 i \<Rightarrow> (T_I32, raw_from_32 i) | V_I64 i \<Rightarrow> (T_I64, raw_from_64 i)
   | V_F32 z \<Rightarrow> (T_F32, raw_from_32 z) | V_F64 z \<Rightarrow> (T_F64, raw_from_64 z))"

definition global_read :: "host_globals \<Rightarrow> store \<Rightarrow> wmodule \<Rightarrow> global_var rm" where
  "global_read h st md =
     bindM global_type_read (\<lambda>ty.
     bindM (read_constant st md h) (\<lambda>init.
     case value_raw init of (t, raw) \<Rightarrow>
       if gt_ty ty \<noteq> t then errM GlobalTypeMismatch
       else retM \<lparr>gl_type = ty, gl_value = raw\<rparr>))"

definition global_section_read :: "host_globals \<Rightarrow> store \<Rightarrow> wmodule \<Rightarrow> global_var list rm" where
  "global_section_read h st md = bindM (read_vec (global_read h st md)) (\<lambda>gs.
     if 0xFFFF < length gs then errM IdxTooLarge else retM gs)"

section \<open>Exports and the start function\<close>

definition export_desc_read :: "export_desc rm" where
  "export_desc_read = bindM read_u8 (\<lambda>c.
     if c = 0x00 then bindM read_u32 (\<lambda>i. retM (Exp_Func i))
     else if c = 0x01 then bindM read_u32 (\<lambda>i. retM (Exp_Table i))
     else if c = 0x02 then bindM read_u32 (\<lambda>i. retM (Exp_Mem i))
     else if c = 0x03 then bindM read_u32 (\<lambda>i. retM (Exp_Global i))
     else errM (MalformedImportExportDesc c))"

definition check_export :: "wmodule \<Rightarrow> export_desc \<Rightarrow> unit vr" where
  "check_export md d = (case d of
     Exp_Func i \<Rightarrow> if get_func_ref md i = None then Err FunctionIdxOutOfRange else Ok ()
   | Exp_Table i \<Rightarrow> if i \<noteq> 0 then Err InvalidTableIndex else if md_table md = None then Err TableNotDefined else Ok ()
   | Exp_Mem i \<Rightarrow> if i \<noteq> 0 then Err InvalidMemIndex else if md_memory md = None then Err MemoryNotDefined else Ok ()
   | Exp_Global i \<Rightarrow> if get_global_ref md i = None then Err GlobalIdxOutOfRange else Ok ())"

definition export_read :: "wmodule \<Rightarrow> export_item rm" where
  "export_read md = bindM name_read (\<lambda>name. bindM export_desc_read (\<lambda>desc.
     thenM (liftR (check_export md desc)) (retM \<lparr>ex_name = name, ex_desc = desc\<rparr>)))"

fun read_exports :: "nat \<Rightarrow> wmodule \<Rightarrow> export_item list \<Rightarrow> export_item list rm" where
  "read_exports 0 md out = retM out"
| "read_exports (Suc n) md out = bindM (export_read md) (\<lambda>e.
     if list_ex (\<lambda>ei. ex_name ei = ex_name e) out then errM DuplicateExportName
     else read_exports n md (out @ [e]))"

definition export_section_read :: "wmodule \<Rightarrow> export_item list rm" where
  "export_section_read md = bindM read_u32 (\<lambda>len.
     thenM (alloc_step (unat len)) (read_exports (unat len) md []))"

definition check_start :: "store \<Rightarrow> wmodule \<Rightarrow> sym_ref \<Rightarrow> unit vr" where
  "check_start st md r = (case r of
     Ref_Module index \<Rightarrow> bindR (func_sig md index) (\<lambda>ty.
       if ft_params ty \<noteq> [] \<or> ft_returns ty \<noteq> [] then Err InvalidStartFunctionSignature else Ok ())
   | Ref_Host _ _ \<Rightarrow> Err InvalidHostStartFunction
   | Ref_Extern m index \<Rightarrow> bindR (bindR (at (st_modules st) (unat m)) (\<lambda>em. func_sig em index)) (\<lambda>ty.
       if ft_params ty \<noteq> [] \<or> ft_returns ty \<noteq> [] then Err InvalidStartFunctionSignature else Ok ()))"

definition start_section_read :: "store \<Rightarrow> wmodule \<Rightarrow> sym_ref rm" where
  "start_section_read st md = bindM read_u32 (\<lambda>idx.
     bindM (ok_or (get_func_ref md idx) FunctionIdxOutOfRange) (\<lambda>r.
     thenM (liftR (check_start st md r)) (retM r)))"

section \<open>Element segments\<close>

text \<open>
  The strong references to a table: its owner, host modules, for address 0 the store, and those from outside of
  the store, the embedder's and that of an engine to its current table.
\<close>

definition owns_table :: "nat \<Rightarrow> wmodule \<Rightarrow> bool" where
  "owns_table a md \<longleftrightarrow> (case md_table md of Some (TK_Owned b _) \<Rightarrow> a = b | _ \<Rightarrow> False)"

definition table_refs :: "wmodule \<Rightarrow> store \<Rightarrow> nat \<Rightarrow> nat" where
  "table_refs md st a =
     (if a = 0 then 1 else 0) +
     length (filter (owns_table a) (md # st_modules st)) +
     sum_list (map (\<lambda>hm. length (filter (\<lambda>t. ht_addr t = a) (hmod_table hm))) (st_host_modules st)) +
     cell_extra (st_tables st ! a)"

definition table_addr :: "wmodule \<Rightarrow> store \<Rightarrow> nat option vr" where
  "table_addr md st = (case md_table md of
     None \<Rightarrow> Ok None
   | Some (TK_Owned a _) \<Rightarrow> Ok (Some a)
   | Some (TK_Import r) \<Rightarrow>
       bindR (at (st_modules st) (unat r)) (\<lambda>em.
       case md_table em of Some (TK_Owned a _) \<Rightarrow> Ok (Some a) | _ \<Rightarrow> Panic)
   | Some (TK_ImportHost h i) \<Rightarrow>
       bindR (at (st_host_modules st) (unat h)) (\<lambda>hm.
       bindR (at (hmod_table hm) (unat i)) (\<lambda>t. Ok (Some (ht_addr t)))))"

text \<open>\<open>Module::get_table\<close>: the address and the length of the table, which must have no other reference.\<close>

definition module_table :: "wmodule \<Rightarrow> store \<Rightarrow> (nat \<times> nat) option vr" where
  "module_table md st =
     bindR (table_addr md st) (\<lambda>x. case x of
       None \<Rightarrow> Ok None
     | Some a \<Rightarrow> bindR (at (st_tables st) a) (\<lambda>c.
         if table_refs md st a = 1 then Ok (Some (a, length (cell_value c))) else Err TableRefNotUnique))"

definition get_module_table :: "(loading, (nat \<times> nat) option, validation_error) m" where
  "get_module_table = bindM (getM (\<lambda>l. module_table (ld_module l) (ld_store l))) liftR"

definition table_entry :: "store \<Rightarrow> sym_ref \<Rightarrow> table_element" where
  "table_entry st r = (case r of
     Ref_Module index \<Rightarrow> TE_Func (word_of_nat (length (st_modules st))) index
   | Ref_Host m index \<Rightarrow> TE_Host m index
   | Ref_Extern m index \<Rightarrow> TE_Func m index)"

definition put_entry :: "nat \<Rightarrow> nat \<Rightarrow> table_element \<Rightarrow> loading \<Rightarrow> loading" where
  "put_entry a j e l = (let st = ld_store l; c = st_tables st ! a in
     l\<lparr>ld_store := st\<lparr>st_tables := (st_tables st)[a := c\<lparr>cell_value := (cell_value c)[j := e]\<rparr>]\<rparr>\<rparr>)"

fun write_elements :: "nat \<Rightarrow> nat \<Rightarrow> unit lm" where
  "write_elements 0 j = retM ()"
| "write_elements (Suc n) j =
     bindM (onReader read_u32) (\<lambda>idx.
     bindM the_module (\<lambda>md. bindM (ok_or (get_func_ref md idx) FunctionIdxOutOfRange) (\<lambda>r.
     bindM the_store (\<lambda>st.
     bindM (onState get_module_table) (\<lambda>t. case t of
       None \<Rightarrow> errM TableNotDefined
     | Some (a, len) \<Rightarrow>
         if len \<le> j then errM InvalidElementOutOfBounds
         else thenM (onState (modifyM (put_entry a j (table_entry st r)))) (write_elements n (j + 1)))))))"

definition element_read :: "host_globals \<Rightarrow> unit lm" where
  "element_read h =
     bindM (onReader read_u32) (\<lambda>table.
     if table \<noteq> 0 then errM InvalidTableIndex
     else bindM the_module (\<lambda>md. bindM the_store (\<lambda>st.
     bindM (onReader (read_constant st md h)) (\<lambda>v. case v of
       V_I32 offset \<Rightarrow>
         bindM (onReader read_u32) (\<lambda>init_len.
         thenM (bindM (onState get_module_table) (\<lambda>t. case t of
             None \<Rightarrow> errM TableNotDefined
           | Some (a, len) \<Rightarrow>
               if len < unat offset then errM InvalidElementOffset
               else if len < unat offset + unat init_len then errM InvalidElementOutOfBounds
               else retM ()))
         (write_elements (unat init_len) (unat offset)))
     | _ \<Rightarrow> errM InvalidElementOffset))))"

definition element_section_read :: "host_globals \<Rightarrow> unit lm" where
  "element_section_read h = bindM (onReader read_u32) (\<lambda>len. timesM (unat len) (element_read h))"

section \<open>Function bodies\<close>

definition focus_code :: "(reader \<times> wmodule \<times> code_builder, 'a, 'e) m \<Rightarrow> (reader \<times> loading, 'a, 'e) m" where
  "focus_code = focus (\<lambda>l. (ld_module l, ld_code l)) (\<lambda>(md, cd) l. l\<lparr>ld_module := md, ld_code := cd\<rparr>)"

definition code_section_read :: "nat \<Rightarrow> nat \<Rightarrow> unit lm" where
  "code_section_read max_frames max_stack =
     bindM (onReader read_u32) (\<lambda>n.
     bindM the_module (\<lambda>md. bindM the_store (\<lambda>st.
     if unat n \<noteq> length (md_functions md) then errM InvalidCodeSectionFunctionCount
     else forM [0..<unat n] (\<lambda>i. focus_code (read_function_code max_frames max_stack st i)))))"

section \<open>Data segments\<close>

definition memory_addr :: "wmodule \<Rightarrow> store \<Rightarrow> nat option vr" where
  "memory_addr md st = (case md_memory md of
     None \<Rightarrow> Ok None
   | Some (MK_Owned a) \<Rightarrow> Ok (Some a)
   | Some (MK_Import r) \<Rightarrow>
       bindR (at (st_modules st) (unat r)) (\<lambda>em.
       case md_memory em of Some (MK_Owned a) \<Rightarrow> Ok (Some a) | _ \<Rightarrow> Panic)
   | Some (MK_ImportHost h i) \<Rightarrow>
       bindR (at (st_host_modules st) (unat h)) (\<lambda>hm.
       bindR (at (hmod_memory hm) (unat i)) (\<lambda>s. Ok (Some (hm_addr s)))))"

text \<open>An operation on the memory at an address; its errors become validation errors.\<close>

definition on_memory :: "nat \<Rightarrow> (memory \<Rightarrow> (memory, memory_error) result) \<Rightarrow> (loading, unit, validation_error) m" where
  "on_memory a f = (\<lambda>l. let st = ld_store l; ms = st_memories st in
     if length ms \<le> a then (Panic, l)
     else case f (cell_value (ms ! a)) of
       Ok m \<Rightarrow> (Ok (), l\<lparr>ld_store := st\<lparr>st_memories := ms[a := (ms ! a)\<lparr>cell_value := m\<rparr>]\<rparr>\<rparr>)
     | Err e \<Rightarrow> (Err (VMemoryError e), l)
     | Panic \<Rightarrow> (Panic, l))"

definition vmem :: "('a, memory_error) result \<Rightarrow> 'a vr" where
  "vmem r = (case r of Ok a \<Rightarrow> Ok a | Err e \<Rightarrow> Err (VMemoryError e) | Panic \<Rightarrow> Panic)"

fun write_data :: "nat \<Rightarrow> u32 \<Rightarrow> nat \<Rightarrow> u32 \<Rightarrow> unit lm" where
  "write_data a offset 0 i = retM ()"
| "write_data a offset (Suc n) i =
     bindM (onReader (liftR (vmem (effective_address offset i)))) (\<lambda>addr.
     bindM (onReader read_u8) (\<lambda>b.
     thenM (onState (on_memory a (\<lambda>m. store_u8 m addr b)))
     (write_data a offset n (i + 1))))"

definition data_read :: "host_globals \<Rightarrow> nat \<Rightarrow> unit lm" where
  "data_read h a =
     bindM (onReader read_u32) (\<lambda>mem.
     if mem \<noteq> 0 then errM InvalidMemIndex
     else bindM the_module (\<lambda>md. bindM the_store (\<lambda>st.
     thenM (onReader (liftR (check_memory_defined md)))
     (bindM (onReader (read_constant st md h)) (\<lambda>v. case v of
       V_I32 offset \<Rightarrow>
         bindM (onReader read_u32) (\<lambda>len.
         thenM (write_data a offset (unat len) 0)
         (if len = 0 then onState (on_memory a (\<lambda>m. memory_store m (unat offset) [])) else retM ()))
     | _ \<Rightarrow> errM InvalidMemOffsetType)))))"

definition data_section_read :: "host_globals \<Rightarrow> unit lm" where
  "data_section_read h =
     bindM (onReader read_u32) (\<lambda>len.
     if len = 0 then retM ()
     else bindM the_module (\<lambda>md. bindM the_store (\<lambda>st.
     bindM (onReader (liftR (memory_addr md st))) (\<lambda>x. case x of
       None \<Rightarrow> errM MemoryNotDefined
     | Some a \<Rightarrow> timesM (unat len) (data_read h a)))))"

section \<open>The module\<close>

record load_params =
  lp_frames :: nat
  lp_stack :: nat
  lp_alloc :: alloc_response
  lp_globals :: host_globals

definition read_section :: "load_params \<Rightarrow> custom_handler \<Rightarrow> nat \<Rightarrow> section_kind \<Rightarrow> unit lm" where
  "read_section p handler sz sec = bindM the_module (\<lambda>md. bindM the_store (\<lambda>st. case sec of
     Sec_Custom \<Rightarrow> custom_section_read handler sz
   | Sec_Type \<Rightarrow> bindM (onReader (read_vec func_type_read)) (\<lambda>x. module_field (\<lambda>md. md\<lparr>md_types := x\<rparr>))
   | Sec_Import \<Rightarrow> import_section_read
   | Sec_Function \<Rightarrow> bindM (onReader (function_section_read md)) (\<lambda>x. module_field (\<lambda>md. md\<lparr>md_functions := x\<rparr>))
   | Sec_Table \<Rightarrow> if md_table md \<noteq> None then errM MultipleTables
       else bindM table_section_read (\<lambda>x. module_field (\<lambda>md. md\<lparr>md_table := x\<rparr>))
   | Sec_Memory \<Rightarrow> bindM (memory_section_read (lp_alloc p)) (\<lambda>x. module_field (\<lambda>md. md\<lparr>md_memory := x\<rparr>))
   | Sec_Global \<Rightarrow> bindM (onReader (global_section_read (lp_globals p) st md)) (\<lambda>x. module_field (\<lambda>md. md\<lparr>md_globals := x\<rparr>))
   | Sec_Export \<Rightarrow> bindM (onReader (export_section_read md)) (\<lambda>x. module_field (\<lambda>md. md\<lparr>md_exports := x\<rparr>))
   | Sec_Start \<Rightarrow> bindM (onReader (start_section_read st md)) (\<lambda>x. module_field (\<lambda>md. md\<lparr>md_start := Some x\<rparr>))
   | Sec_Element \<Rightarrow> element_section_read (lp_globals p)
   | Sec_Code \<Rightarrow> code_section_read (lp_frames p) (lp_stack p)
   | Sec_Data \<Rightarrow> data_section_read (lp_globals p)
   | Sec_N \<Rightarrow> panicM))"

end
