(* ===== verification/Module_Reads.thy ===== *)
theory Module_Reads
  imports Module_Decode
begin

text \<open>
  The disciplines of the readers, for the section decoder: independence of the chunking (\<open>indep\<close>) and
  respect of the limit (\<open>bnd\<close>), by the closure rules of theories Reader, Leb128 and Decode.
\<close>

section \<open>Readers\<close>

lemma reader_indep_panic_lift [indep]: "reader_indep (liftR (name_of raw))"
  by (rule reader_indep_lift)

lemma reader_indep_import_desc [indep]: "reader_indep import_desc_read"
  unfolding import_desc_read_def by (intro indep)

lemma reader_indep_import_case [indep]:
  assumes "\<And>i. reader_indep (f1 i)" "\<And>t. reader_indep (f2 t)" "\<And>t. reader_indep (f3 t)" "\<And>t. reader_indep (f4 t)"
  shows "reader_indep (case d of ID_Func i \<Rightarrow> f1 i | ID_Table t \<Rightarrow> f2 t | ID_Mem t \<Rightarrow> f3 t | ID_Global t \<Rightarrow> f4 t)"
  using assms by (cases d) simp_all

lemma reader_indep_import [indep]: "reader_indep (import_read md st)"
  unfolding import_read_def by (intro indep)

lemma reader_indep_prod [indep]: "(\<And>a b. reader_indep (f a b)) \<Longrightarrow> reader_indep (case x of (a, b) \<Rightarrow> f a b)"
  by (cases x) simp

lemma reader_indep_sections [indep]:
  "reader_indep section_read" "reader_indep (function_section_read md)" "reader_indep (global_section_read h st md)"
  "reader_indep (start_section_read st md)"
  unfolding section_read_def function_section_read_def read_func_section_def global_section_read_def global_read_def
    start_section_read_def
  by (intro indep)+

lemma reader_indep_export [indep]: "reader_indep (export_read md)"
  unfolding export_read_def export_desc_read_def by (intro indep)

lemma reader_indep_exports [indep]: "reader_indep (read_exports n md out)"
  by (induction n arbitrary: out) (auto intro!: indep)

lemma reader_indep_export_section [indep]: "reader_indep (export_section_read md)"
  unfolding export_section_read_def by (intro indep)

lemma reader_bounded_import_case [bnd]:
  assumes "\<And>i. reader_bounded (f1 i)" "\<And>t. reader_bounded (f2 t)" "\<And>t. reader_bounded (f3 t)" "\<And>t. reader_bounded (f4 t)"
  shows "reader_bounded (case d of ID_Func i \<Rightarrow> f1 i | ID_Table t \<Rightarrow> f2 t | ID_Mem t \<Rightarrow> f3 t | ID_Global t \<Rightarrow> f4 t)"
  using assms by (cases d) simp_all

lemma reader_bounded_prod [bnd]: "(\<And>a b. reader_bounded (f a b)) \<Longrightarrow> reader_bounded (case x of (a, b) \<Rightarrow> f a b)"
  by (cases x) simp

lemma reader_bounded_sections [bnd]:
  "reader_bounded section_read" "reader_bounded import_desc_read" "reader_bounded (import_read md st)"
  "reader_bounded (function_section_read md)" "reader_bounded (global_section_read h st md)"
  "reader_bounded (start_section_read st md)" "reader_bounded (export_read md)"
  unfolding section_read_def import_desc_read_def import_read_def function_section_read_def read_func_section_def
    global_section_read_def global_read_def start_section_read_def export_read_def export_desc_read_def
  by (intro bnd)+

lemma reader_bounded_exports [bnd]: "reader_bounded (read_exports n md out)"
  by (induction n arbitrary: out) (auto intro!: bnd)

lemma reader_bounded_export_section [bnd]: "reader_bounded (export_section_read md)"
  unfolding export_section_read_def by (intro bnd)

section \<open>Sections\<close>

lemmas lm_defs = module_field_def the_module_def the_store_def onModule_def

lemma chunk_indep_value [indep]:
  assumes "\<And>i. chunk_indep (f1 i)" "\<And>i. chunk_indep (f2 i)" "\<And>i. chunk_indep (f3 i)" "\<And>i. chunk_indep (f4 i)"
  shows "chunk_indep (case v of V_I32 i \<Rightarrow> f1 i | V_I64 i \<Rightarrow> f2 i | V_F32 i \<Rightarrow> f3 i | V_F64 i \<Rightarrow> f4 i)"
  using assms by (cases v) simp_all

lemma bounded_value [bnd]:
  assumes "\<And>i. bounded (f1 i)" "\<And>i. bounded (f2 i)" "\<And>i. bounded (f3 i)" "\<And>i. bounded (f4 i)"
  shows "bounded (case v of V_I32 i \<Rightarrow> f1 i | V_I64 i \<Rightarrow> f2 i | V_F32 i \<Rightarrow> f3 i | V_F64 i \<Rightarrow> f4 i)"
  using assms by (cases v) simp_all

lemma bounded_forM [bnd]: "(\<And>a. bounded (f a)) \<Longrightarrow> bounded (forM xs f)"
  by (induction xs) (auto intro: bnd)

lemma bounded_assert [bnd]: "bounded (assertM b)"
  unfolding assertM_def by (intro bnd)

lemma reader_bounded_offset [bnd]: "reader_bounded reader_offset"
  unfolding reader_offset_def by (intro bnd)

lemma bounded_read_function_code [bnd]: "bounded (read_function_code mf ms st i)"
  unfolding read_function_code_def by (intro bnd)

lemma chunk_indep_focus_code [indep]: "chunk_indep f \<Longrightarrow> chunk_indep (focus_code f)"
  unfolding focus_code_def by (rule chunk_indep_focus)

lemma bounded_focus_code [bnd]: "bounded f \<Longrightarrow> bounded (focus_code f)"
  unfolding focus_code_def by (rule bounded_focus)

lemma lm_indep [indep]: "chunk_indep (module_field h)" "chunk_indep the_module" "chunk_indep the_store" "chunk_indep (onModule f)"
  unfolding lm_defs by (rule chunk_indep_onState)+

lemma lm_bounded [bnd]: "bounded (module_field h)" "bounded the_module" "bounded the_store" "bounded (onModule f)"
  unfolding lm_defs by (rule bnd)+

lemma chunk_indep_write_elements [indep]: "chunk_indep (write_elements n j)"
  by (induction n arbitrary: j) (auto intro!: indep)

lemma bounded_write_elements [bnd]: "bounded (write_elements n j)"
  by (induction n arbitrary: j) (auto intro!: bnd)

lemma chunk_indep_write_data [indep]: "chunk_indep (write_data a off n i)"
  by (induction n arbitrary: i) (auto intro!: indep)

lemma bounded_write_data [bnd]: "bounded (write_data a off n i)"
  by (induction n arbitrary: i) (auto intro!: bnd)

lemmas section_defs = custom_section_read_def import_section_read_def table_section_read_def memory_section_read_def
  element_section_read_def element_read_def code_section_read_def data_section_read_def data_read_def

lemma chunk_indep_sections [indep]:
  "(\<And>name k. reader_indep (handler name k)) \<Longrightarrow> chunk_indep (custom_section_read handler sz)"
  "chunk_indep import_section_read" "chunk_indep table_section_read" "chunk_indep (memory_section_read al)"
  "chunk_indep (element_section_read h)" "chunk_indep (code_section_read mf ms)" "chunk_indep (data_section_read h)"
  unfolding section_defs by (intro indep | assumption)+

lemma bounded_sections [bnd]:
  "(\<And>name k. reader_bounded (handler name k)) \<Longrightarrow> bounded (custom_section_read handler sz)"
  "bounded import_section_read" "bounded table_section_read" "bounded (memory_section_read al)"
  "bounded (element_section_read h)" "bounded (code_section_read mf ms)" "bounded (data_section_read h)"
  unfolding section_defs by (intro bnd | assumption)+

lemma chunk_indep_read_section [indep]:
  assumes "\<And>name k. reader_indep (handler name k)"
  shows "chunk_indep (read_section p handler sz s)"
  unfolding read_section_def by (cases s) (auto intro!: indep assms)

lemma bounded_read_section [bnd]:
  assumes "\<And>name k. reader_bounded (handler name k)"
  shows "bounded (read_section p handler sz s)"
  unfolding read_section_def by (cases s) (auto intro!: bnd assms)

end
