(* ===== verification/Module_Load.thy ===== *)
theory Module_Load
  imports Module_Reads
begin

text \<open>
  Reading a whole module (\<open>Module::read\<close> and \<open>Module::new\<close> of src/module.rs): the header, the loop over the
  sections with their order, sizes and limits, and the error with its section and byte offset.

  Lemmas: the loop returns; what is loaded does not depend on how the stream cuts the bytes.
\<close>

type_synonym 'a sm = "(reader \<times> loading, 'a, section_decode_error) m"

text \<open>Errors of the inner functions, through the \<open>From\<close> conversion of \<open>?\<close>.\<close>

definition sec :: "'a lm \<Rightarrow> 'a sm" where
  "sec f = map_err section_error_new f"

text \<open>A match on the result of a call: its error becomes a value.\<close>

definition tryM :: "('s, 'a, 'e) m \<Rightarrow> ('s, ('a, 'e) result, 'f) m" where
  "tryM f = (\<lambda>s. case f s of (Panic, t) \<Rightarrow> (Panic, t) | (r, t) \<Rightarrow> (Ok r, t))"

text \<open>The order of the sections: the new last section, or the error.\<close>

definition order_step :: "section_kind \<Rightarrow> section_kind \<Rightarrow> section_kind vr" where
  "order_step prev s =
     (if s = Sec_Custom then Ok prev
      else if section_rank s < section_rank prev \<and> prev \<noteq> Sec_Custom then Err (InvalidSectionOrdering prev s)
      else if prev = s then Err (DuplicateSection s)
      else Ok s)"

text \<open>One round of the loop: \<open>None\<close> at the end of the stream, else the last section and \<open>seen_code_section\<close>.\<close>

definition one_section :: "load_params \<Rightarrow> custom_handler \<Rightarrow> section_kind \<Rightarrow> bool \<Rightarrow> section_kind \<Rightarrow> (section_kind \<times> bool) sm" where
  "one_section p handler prev seen s =
     bindM (sec (onReader (liftR (order_step prev s)))) (\<lambda>prev'.
     bindM (sec (onReader read_u32)) (\<lambda>sz.
     bindM (sec (onReader reader_offset)) (\<lambda>start.
     thenM (with_limit section_error_new (unat sz) (map_err (with_section s) (read_section p handler (unat sz) s)))
     (bindM (sec (onReader reader_offset)) (\<lambda>fin.
      thenM (assertM (start \<le> fin))
      (if fin - start \<noteq> unat sz then errM (with_section s MalformedSectionSize)
       else retM (prev', seen \<or> s = Sec_Code)))))))"

definition next_section :: "load_params \<Rightarrow> custom_handler \<Rightarrow> section_kind \<Rightarrow> bool \<Rightarrow> (section_kind \<times> bool) option sm" where
  "next_section p handler prev seen =
     bindM (tryM (onReader section_read)) (\<lambda>r. case r of
       Err e \<Rightarrow> if e = Eof then retM None else errM (section_error_new e)
     | Ok s \<Rightarrow> bindM (one_section p handler prev seen s) (\<lambda>x. retM (Some x))
     | Panic \<Rightarrow> panicM)"

partial_function (option) section_loop ::
  "load_params \<Rightarrow> custom_handler \<Rightarrow> section_kind \<Rightarrow> bool \<Rightarrow> reader \<times> loading \<Rightarrow>
     ((bool, section_decode_error) result \<times> reader \<times> loading) option"
where
  "section_loop p handler prev seen s = (case next_section p handler prev seen s of
     (Ok None, t) \<Rightarrow> Some (Ok seen, t)
   | (Ok (Some (prev', seen')), t) \<Rightarrow> section_loop p handler prev' seen' t
   | (Err e, t) \<Rightarrow> Some (Err e, t)
   | (Panic, t) \<Rightarrow> Some (Panic, t))"

definition read_sections :: "load_params \<Rightarrow> custom_handler \<Rightarrow> bool sm" where
  "read_sections p handler = (\<lambda>s. case section_loop p handler Sec_Custom False s of
     Some r \<Rightarrow> r | None \<Rightarrow> (Panic, s))"

definition empty_module :: "u8 list \<Rightarrow> wmodule" where
  "empty_module name = \<lparr>md_name = name, md_types = [], md_functions = [], md_table = None, md_memory = None,
     md_globals = [], md_imports = [], md_exports = [], md_start = None\<rparr>"

definition duplicate_name :: "store \<Rightarrow> u8 list \<Rightarrow> bool" where
  "duplicate_name st name \<longleftrightarrow> name \<noteq> [] \<and>
     (list_ex (\<lambda>m. md_name m = name) (st_modules st) \<or> list_ex (\<lambda>m. hmod_name m = name) (st_host_modules st))"

text \<open>\<open>Module::read\<close>, first after the header.\<close>

definition module_body_read :: "load_params \<Rightarrow> custom_handler \<Rightarrow> u8 list \<Rightarrow> wmodule sm" where
  "module_body_read p handler name =
     bindM (sec the_store) (\<lambda>st.
     if duplicate_name st name then errM (section_error_new DuplicateModuleName)
     else thenM (sec (onReader (alloc_step (length name))))
       (thenM (sec (module_field (\<lambda>_. empty_module name)))
       (bindM (read_sections p handler) (\<lambda>seen.
        bindM (sec the_module) (\<lambda>md.
        if \<not> seen \<and> md_functions md \<noteq> [] then errM (section_error_new InvalidCodeSectionFunctionCount)
        else retM md)))))"

definition module_read :: "load_params \<Rightarrow> custom_handler \<Rightarrow> u8 list \<Rightarrow> wmodule sm" where
  "module_read p handler name =
     bindM (sec (onReader (strip_bytes 4))) (\<lambda>magic.
     if magic \<noteq> [0x00, 0x61, 0x73, 0x6D] then errM (section_error_new MalformedMagic)
     else bindM (sec (onReader (strip_bytes 4))) (\<lambda>version.
     if version \<noteq> [0x01, 0x00, 0x00, 0x00] then errM (section_error_new MalformedVersion)
     else module_body_read p handler name))"

text \<open>\<open>Module::new\<close>: the module or the error, and the store and the code builder after it.\<close>

definition module_new ::
  "load_params \<Rightarrow> chunk_result list \<Rightarrow> alloc_error option list \<Rightarrow> u8 list \<Rightarrow> store \<Rightarrow> code_builder \<Rightarrow>
     (wmodule, parse_error) result \<times> store \<times> code_builder"
where
  "module_new p stream al name st cd =
     (case module_read p default_custom name (reader_new stream al, \<lparr>ld_module = empty_module [], ld_store = st, ld_code = cd\<rparr>) of
       (r, (rd, l)) \<Rightarrow>
         ((case r of
             Ok md \<Rightarrow> Ok md
           | Err e \<Rightarrow> Err \<lparr>pe_offset = word_of_nat (rd_full_offset rd), pe_err = e\<rparr>
           | Panic \<Rightarrow> Panic),
          ld_store l, ld_code l))"

text \<open>
  \<open>Module::new\<close> on the store of an engine: beside the references inside of the store there is the one of
  \<open>engine.table\<close> (address \<open>a\<close>), which the engine keeps while the module is read.
\<close>

definition hold_table :: "nat \<Rightarrow> store \<Rightarrow> store" where
  "hold_table a st = st\<lparr>st_tables :=
     (st_tables st)[a := (st_tables st ! a)\<lparr>cell_extra := cell_extra (st_tables st ! a) + 1\<rparr>]\<rparr>"

definition release_table :: "nat \<Rightarrow> store \<Rightarrow> store" where
  "release_table a st = st\<lparr>st_tables :=
     (st_tables st)[a := (st_tables st ! a)\<lparr>cell_extra := cell_extra (st_tables st ! a) - 1\<rparr>]\<rparr>"

definition module_new_on ::
  "nat \<Rightarrow> load_params \<Rightarrow> chunk_result list \<Rightarrow> alloc_error option list \<Rightarrow> u8 list \<Rightarrow> store \<Rightarrow> code_builder \<Rightarrow>
     (wmodule, parse_error) result \<times> store \<times> code_builder"
where
  "module_new_on a p stream al name st cd =
     (case module_new p stream al name (hold_table a st) cd of (r, st', cd') \<Rightarrow> (r, release_table a st', cd'))"

lemma release_hold [simp]: "release_table a (hold_table a st) = st"
proof -
  have "st_tables (release_table a (hold_table a st)) = st_tables st"
    by (cases "a < length (st_tables st)") (simp_all add: hold_table_def release_table_def list_update_beyond not_less)
  then show ?thesis by (simp add: hold_table_def release_table_def)
qed

lemma held_fields [simp]:
  "st_modules (hold_table a st) = st_modules st" "st_modules (release_table a st) = st_modules st"
  "st_host_modules (hold_table a st) = st_host_modules st" "st_host_modules (release_table a st) = st_host_modules st"
  "st_max_modules (hold_table a st) = st_max_modules st" "st_max_modules (release_table a st) = st_max_modules st"
  "st_memories (hold_table a st) = st_memories st" "st_memories (release_table a st) = st_memories st"
  "length (st_tables (hold_table a st)) = length (st_tables st)"
  "length (st_tables (release_table a st)) = length (st_tables st)"
  by (simp_all add: hold_table_def release_table_def)

text \<open>So a table the engine refers to is not unique to the module that is read.\<close>

lemma table_refs_held:
  "a < length (st_tables st) \<Longrightarrow> table_refs md (hold_table a st) a = table_refs md st a + 1"
  by (simp add: table_refs_def hold_table_def)

section \<open>The loop returns\<close>

lemma bounded_map_err [bnd]: "bounded f \<Longrightarrow> bounded (map_err h f)"
  by (auto simp: bounded_def map_err_def split: prod.splits result.splits) (metis fst_conv snd_conv)+

lemma bounded_sec [bnd]: "bounded f \<Longrightarrow> bounded (sec f)"
  unfolding sec_def by (rule bounded_map_err)

lemma reader_bounded_skip [bnd]: "reader_bounded (skip n)"
  by (induction n) (auto intro: bnd)

lemma reader_bounded_default [bnd]: "reader_bounded (default_custom name k)"
  unfolding default_custom_def by (intro bnd)

lemma bounded_one_section [bnd]: "bounded (one_section p default_custom prev seen s)"
  unfolding one_section_def by (intro bnd)

lemma tryM_Ok: "tryM f s = (Ok r, t) \<longleftrightarrow> f s = (r, t) \<and> r \<noteq> Panic"
  by (auto simp: tryM_def split: prod.splits result.splits)

lemma next_section_SomeE:
  assumes "next_section p handler prev seen s = (Ok (Some x), t)"
  obtains k s1 where "onReader section_read s = (Ok k, s1)" "one_section p handler prev seen k s1 = (Ok x, t)"
proof -
  from assms obtain r s1 where r: "(tryM (onReader section_read) :: (_, _, section_decode_error) m) s = (Ok r, s1)"
    and rest: "(case r of Err e \<Rightarrow> if e = Eof then retM None else errM (section_error_new e)
       | Ok s \<Rightarrow> bindM (one_section p handler prev seen s) (\<lambda>x. retM (Some x)) | Panic \<Rightarrow> panicM) s1 = (Ok (Some x), t)"
    unfolding next_section_def by - (erule bindM_OkE, erule (1) that)
  obtain k where k: "r = Ok k"
    using rest by (cases r) (auto simp: run_defs split: if_splits)
  show ?thesis
    using that [of k s1] r rest unfolding k by (auto simp: tryM_Ok retM_def elim!: bindM_OkE)
qed

lemma next_section_moves:
  assumes "next_section p default_custom prev seen (r, l) = (Ok (Some x), (r', l'))"
  shows "rd_full_offset r < rd_full_offset r' \<and> rd_limit r' = rd_limit r \<and> rd_full_offset r' \<le> rd_limit r"
proof -
  obtain k s1 where k: "onReader section_read (r, l) = (Ok k, s1)"
    and one: "one_section p default_custom prev seen k s1 = (Ok x, (r', l'))"
    using assms by (rule next_section_SomeE)
  obtain r1 where r1: "section_read r = (Ok k, r1)" "s1 = (r1, l)"
    using k by (auto simp: onReader_def split: prod.splits)
  have "within_limit r1 r'"
    using bounded_one_section [of p prev seen k] one r1(2) unfolding bounded_def by (metis fst_conv snd_conv)
  moreover have "rd_full_offset r < rd_full_offset r1 \<and> rd_limit r1 = rd_limit r \<and> rd_full_offset r1 \<le> rd_limit r"
    using r1(1) read_u8_moves by (auto simp: section_read_def liftR_def elim!: bindM_OkE)
  ultimately show ?thesis by (auto simp: within_limit_def)
qed

lemma section_loop_total: "\<exists>y. section_loop p default_custom prev seen (r, l) = Some y"
proof (induction "rd_limit r - rd_full_offset r" arbitrary: prev seen r l rule: less_induct)
  case less
  obtain res r' l' where step: "next_section p default_custom prev seen (r, l) = (res, (r', l'))" by (metis prod_cases3)
  show ?case
  proof (cases "\<exists>x. res = Ok (Some x)")
    case False
    with step show ?thesis by (subst section_loop.simps) (auto split: result.split option.split)
  next
    case True
    then obtain prev' seen' where x: "res = Ok (Some (prev', seen'))" by auto
    have "rd_limit r' - rd_full_offset r' < rd_limit r - rd_full_offset r"
      using next_section_moves step x by fastforce
    from less [OF this] show ?thesis using step x by (subst section_loop.simps) simp
  qed
qed

lemma read_sections_loop: "section_loop p default_custom Sec_Custom False s = Some (read_sections p default_custom s)"
  using section_loop_total [of p Sec_Custom False "fst s" "snd s"] by (auto simp: read_sections_def)

section \<open>Independence of the chunking\<close>

text \<open>
  As \<open>chunk_indep\<close>, but the readers need not be in step afterwards: the end of the stream is met by a read
  that fails.
\<close>

definition same_outcome :: "(reader \<times> 'x, 'a, 'e) m \<Rightarrow> bool" where
  "same_outcome f \<longleftrightarrow> (\<forall>r1 r2 x. in_step r1 r2 \<longrightarrow>
     outcome_rel (\<lambda>p q. same_offset (fst p) (fst q) \<and> snd p = snd q)
       (\<lambda>p q. same_offset (fst p) (fst q) \<and> snd p = snd q) (f (r1, x)) (f (r2, x)))"

lemma outcome_rel_weaken:
  "outcome_rel R E x y \<Longrightarrow> (\<And>s t. R s t \<Longrightarrow> R' s t) \<Longrightarrow> outcome_rel R' E x y"
  by (cases x; cases y; cases "fst x") auto

lemma chunk_indep_outcome:
  assumes "chunk_indep f"
  shows "same_outcome f"
  unfolding same_outcome_def
proof (intro allI impI)
  fix r1 r2 x assume "in_step r1 r2"
  then have "outcome_rel (\<lambda>p q. in_step (fst p) (fst q) \<and> snd p = snd q)
      (\<lambda>p q. same_offset (fst p) (fst q) \<and> snd p = snd q) (f (r1, x)) (f (r2, x))"
    using assms by (simp add: chunk_indep_def)
  then show "outcome_rel (\<lambda>p q. same_offset (fst p) (fst q) \<and> snd p = snd q)
      (\<lambda>p q. same_offset (fst p) (fst q) \<and> snd p = snd q) (f (r1, x)) (f (r2, x))"
    by (rule outcome_rel_weaken) (auto simp: same_offset_def in_step_offset)
qed

lemma same_outcomeI:
  assumes "\<And>r1 r2 x. in_step r1 r2 \<Longrightarrow>
     outcome_rel (\<lambda>p q. same_offset (fst p) (fst q) \<and> snd p = snd q)
       (\<lambda>p q. same_offset (fst p) (fst q) \<and> snd p = snd q) (f (r1, x)) (f (r2, x))"
  shows "same_outcome f"
  using assms by (auto simp: same_outcome_def)

lemma same_outcome_bind:
  assumes "chunk_indep f" "\<And>a. same_outcome (g a)"
  shows "same_outcome (bindM f g)"
  unfolding same_outcome_def
proof (intro allI impI)
  fix r1 r2 x assume "in_step r1 r2"
  then have "outcome_rel (\<lambda>p q. in_step (fst p) (fst q) \<and> snd p = snd q)
      (\<lambda>p q. same_offset (fst p) (fst q) \<and> snd p = snd q) (f (r1, x)) (f (r2, x))"
    using assms by (simp add: chunk_indep_def)
  then show "outcome_rel (\<lambda>p q. same_offset (fst p) (fst q) \<and> snd p = snd q)
      (\<lambda>p q. same_offset (fst p) (fst q) \<and> snd p = snd q) (bindM f g (r1, x)) (bindM f g (r2, x))"
    by (rule outcome_rel_bind) (use assms(2) in \<open>auto simp: same_outcome_def\<close>)
qed

lemma chunk_indep_map_err [indep]:
  assumes "chunk_indep f"
  shows "chunk_indep (map_err h f)"
  unfolding chunk_indep_def
proof (intro allI impI)
  fix r1 r2 x assume "in_step r1 r2"
  then have "outcome_rel (\<lambda>p q. in_step (fst p) (fst q) \<and> snd p = snd q)
      (\<lambda>p q. same_offset (fst p) (fst q) \<and> snd p = snd q) (f (r1, x)) (f (r2, x))"
    using assms by (simp add: chunk_indep_def)
  then show "outcome_rel (\<lambda>p q. in_step (fst p) (fst q) \<and> snd p = snd q)
      (\<lambda>p q. same_offset (fst p) (fst q) \<and> snd p = snd q) (map_err h f (r1, x)) (map_err h f (r2, x))"
    unfolding map_err_def by (cases "f (r1, x)"; cases "f (r2, x)"; cases "fst (f (r1, x))") auto
qed

lemma chunk_indep_sec [indep]: "chunk_indep f \<Longrightarrow> chunk_indep (sec f)"
  unfolding sec_def by (rule indep)

lemma reader_indep_default [indep]: "reader_indep (default_custom name k)"
  unfolding default_custom_def by (intro indep)

lemma chunk_indep_one_section [indep]: "chunk_indep (one_section p default_custom prev seen s)"
  unfolding one_section_def by (intro indep)

lemma next_section_rel:
  assumes "in_step r1 r2"
  shows "outcome_rel (\<lambda>s t. same_offset (fst s) (fst t) \<and> snd s = snd t \<and>
            ((\<exists>x. fst (next_section p default_custom prev seen (r1, l)) = Ok (Some x)) \<longrightarrow> in_step (fst s) (fst t)))
       (\<lambda>p q. same_offset (fst p) (fst q) \<and> snd p = snd q)
       (next_section p default_custom prev seen (r1, l)) (next_section p default_custom prev seen (r2, l))"
proof -
  have read: "outcome_rel in_step same_offset (section_read r1) (section_read r2)"
    using assms reader_indep_sections(1) by (simp add: reader_indep_def)
  obtain a t1 where a: "section_read r1 = (a, t1)" by (cases "section_read r1")
  show ?thesis
  proof (cases a)
    case (Ok k)
    then obtain t2 where t2: "section_read r2 = (Ok k, t2)" "in_step t1 t2" using read a by auto
    have one: "outcome_rel (\<lambda>p q. in_step (fst p) (fst q) \<and> snd p = snd q)
      (\<lambda>p q. same_offset (fst p) (fst q) \<and> snd p = snd q)
      (one_section p default_custom prev seen k (t1, l)) (one_section p default_custom prev seen k (t2, l))"
      using chunk_indep_one_section t2(2) by (simp add: chunk_indep_def)
    obtain b u1 where b: "one_section p default_custom prev seen k (t1, l) = (b, u1)" by (rule prod.exhaust)
    obtain c u2 where c: "one_section p default_custom prev seen k (t2, l) = (c, u2)" by (rule prod.exhaust)
    show ?thesis
      using one a Ok t2 b c
      by (cases b) (auto simp: next_section_def tryM_def onReader_def bindM_def retM_def same_offset_def in_step_offset)
  next
    case (Err e)
    then obtain t2 where t2: "section_read r2 = (Err e, t2)" "same_offset t1 t2" using read a by auto
    show ?thesis
      using a Err t2 by (auto simp: next_section_def tryM_def onReader_def run_defs)
  next
    case Panic
    then obtain t2 where t2: "section_read r2 = (Panic, t2)" using read a by auto
    show ?thesis
      using a Panic t2 by (auto simp: next_section_def tryM_def onReader_def run_defs)
  qed
qed

lemma section_loop_rel:
  assumes "in_step r1 r2"
  shows "outcome_rel (\<lambda>p q. same_offset (fst p) (fst q) \<and> snd p = snd q)
       (\<lambda>p q. same_offset (fst p) (fst q) \<and> snd p = snd q)
       (the (section_loop p default_custom prev seen (r1, l))) (the (section_loop p default_custom prev seen (r2, l)))"
  using assms
proof (induction "rd_limit r1 - rd_full_offset r1" arbitrary: prev seen r1 r2 l rule: less_induct)
  case less
  note rel = next_section_rel [OF less.prems, of p prev seen l]
  obtain res r1' l' where step: "next_section p default_custom prev seen (r1, l) = (res, (r1', l'))" by (metis prod_cases3)
  obtain res2 r2' l2 where step2: "next_section p default_custom prev seen (r2, l) = (res2, (r2', l2))" by (metis prod_cases3)
  show ?case
  proof (cases "\<exists>x. res = Ok (Some x)")
    case False
    with step step2 rel show ?thesis
      by (subst (1 2) section_loop.simps) (auto split: result.split option.split)
  next
    case True
    then obtain prev' seen' where x: "res = Ok (Some (prev', seen'))" by auto
    then have *: "res2 = res" "l2 = l'" "in_step r1' r2'" using rel step step2 by auto
    have "rd_limit r1' - rd_full_offset r1' < rd_limit r1 - rd_full_offset r1"
      using next_section_moves step x by fastforce
    from less(1) [OF this *(3)] show ?thesis using step step2 x * by (subst (1 2) section_loop.simps) simp
  qed
qed

lemma same_outcome_read_sections: "same_outcome (read_sections p default_custom)"
proof (rule same_outcomeI)
  fix r1 r2 x assume "in_step r1 r2"
  from section_loop_rel [OF this, of p Sec_Custom False x]
  show "outcome_rel (\<lambda>p q. same_offset (fst p) (fst q) \<and> snd p = snd q)
      (\<lambda>p q. same_offset (fst p) (fst q) \<and> snd p = snd q)
      (read_sections p default_custom (r1, x)) (read_sections p default_custom (r2, x))"
    by (simp add: read_sections_loop)
qed

lemma same_outcome_tail:
  assumes "same_outcome f"
    and "\<And>a r1 r2 x. same_offset r1 r2 \<Longrightarrow> outcome_rel (\<lambda>p q. same_offset (fst p) (fst q) \<and> snd p = snd q)
       (\<lambda>p q. same_offset (fst p) (fst q) \<and> snd p = snd q) (g a (r1, x)) (g a (r2, x))"
  shows "same_outcome (bindM f g)"
proof (rule same_outcomeI)
  fix r1 r2 x assume "in_step r1 r2"
  then have "outcome_rel (\<lambda>p q. same_offset (fst p) (fst q) \<and> snd p = snd q)
      (\<lambda>p q. same_offset (fst p) (fst q) \<and> snd p = snd q) (f (r1, x)) (f (r2, x))"
    using assms(1) by (simp add: same_outcome_def)
  then show "outcome_rel (\<lambda>p q. same_offset (fst p) (fst q) \<and> snd p = snd q)
      (\<lambda>p q. same_offset (fst p) (fst q) \<and> snd p = snd q) (bindM f g (r1, x)) (bindM f g (r2, x))"
    by (rule outcome_rel_bind) (use assms(2) in auto)
qed

lemma same_outcome_if: "same_outcome f \<Longrightarrow> same_outcome g \<Longrightarrow> same_outcome (if b then f else g)"
  by simp

lemma same_outcome_then: "chunk_indep f \<Longrightarrow> same_outcome g \<Longrightarrow> same_outcome (thenM f g)"
  unfolding thenM_def by (rule same_outcome_bind)

lemma same_outcome_module_read: "same_outcome (module_read p default_custom name)"
proof -
  have err: "same_outcome (errM e)" for e :: section_decode_error
    by (rule chunk_indep_outcome, rule indep)
  have rest: "same_outcome (bindM (read_sections p default_custom) (\<lambda>seen. bindM (sec the_module) (\<lambda>md.
      if \<not> seen \<and> md_functions md \<noteq> [] then errM (section_error_new InvalidCodeSectionFunctionCount) else retM md)))"
    by (rule same_outcome_tail [OF same_outcome_read_sections])
      (simp add: sec_def map_err_def the_module_def onState_def run_defs)
  show ?thesis
    unfolding module_read_def module_body_read_def
    by (intro same_outcome_bind same_outcome_if same_outcome_then err rest indep)
qed

lemma module_new_chunks:
  assumes "stream_data s1 = stream_data s2"
  shows "fst (module_new p s1 al name st cd) = fst (module_new p s2 al name st cd)"
    and "fst (module_new p s1 al name st cd) \<noteq> Panic \<Longrightarrow> module_new p s1 al name st cd = module_new p s2 al name st cd"
proof -
  let ?l = "\<lparr>ld_module = empty_module [], ld_store = st, ld_code = cd\<rparr>"
  have "in_step (reader_new s1 al) (reader_new s2 al)"
    using assms by (simp add: in_step_def reader_inv_new reader_abs_new)
  then have rel: "outcome_rel (\<lambda>p q. same_offset (fst p) (fst q) \<and> snd p = snd q)
      (\<lambda>p q. same_offset (fst p) (fst q) \<and> snd p = snd q)
      (module_read p default_custom name (reader_new s1 al, ?l)) (module_read p default_custom name (reader_new s2 al, ?l))"
    using same_outcome_module_read unfolding same_outcome_def by blast
  obtain x r1 l1 where 1: "module_read p default_custom name (reader_new s1 al, ?l) = (x, (r1, l1))" by (metis prod_cases3)
  obtain y r2 l2 where 2: "module_read p default_custom name (reader_new s2 al, ?l) = (y, (r2, l2))" by (metis prod_cases3)
  from rel show "fst (module_new p s1 al name st cd) = fst (module_new p s2 al name st cd)"
    and "fst (module_new p s1 al name st cd) \<noteq> Panic \<Longrightarrow> module_new p s1 al name st cd = module_new p s2 al name st cd"
    unfolding module_new_def 1 2 by (cases x; auto simp: same_offset_def)+
qed

end
