(* ===== verification/Linking.thy ===== *)
theory Linking
  imports Imports Builder_Inv
begin

text \<open>
  The invariant of the store (\<open>store_ok\<close>) and the soundness of import linking in a store that has it.

  A module of the store refers only to modules loaded before it, so the last module can be removed again.
  What a module may refer to is written against the store: \<open>import_ok st i\<close> says that the symbol of
  import \<open>i\<close> exists, and that a table or memory is imported from the module that owns it.
\<close>

section \<open>Well-formed stores\<close>

fun import_ok :: "store \<Rightarrow> import_item \<Rightarrow> bool" where
  "import_ok st (Imp_Func m i) \<longleftrightarrow> ref_ok st (Ref_Extern m i)"
| "import_ok st (Imp_HostFunc m i) \<longleftrightarrow> ref_ok st (Ref_Host m i)"
| "import_ok st (Imp_Global m i) \<longleftrightarrow> global_ref_ok st (Ref_Extern m i)"
| "import_ok st (Imp_HostGlobal m i) \<longleftrightarrow> global_ref_ok st (Ref_Host m i)"
| "import_ok st (Imp_Table m i) \<longleftrightarrow> unat m < length (st_modules st) \<and>
     (\<exists>a ty. md_table (st_modules st ! unat m) = Some (TK_Owned a ty) \<and> a < length (st_tables st))"
| "import_ok st (Imp_HostTable h i) \<longleftrightarrow> unat h < length (st_host_modules st) \<and>
     unat i < length (hmod_table (st_host_modules st ! unat h))"
| "import_ok st (Imp_Memory m i) \<longleftrightarrow> unat m < length (st_modules st) \<and>
     (\<exists>a. md_memory (st_modules st ! unat m) = Some (MK_Owned a) \<and> a < length (st_memories st))"
| "import_ok st (Imp_HostMemory h i) \<longleftrightarrow> unat h < length (st_host_modules st) \<and>
     unat i < length (hmod_memory (st_host_modules st ! unat h))"

fun table_ok :: "store \<Rightarrow> table_kind \<Rightarrow> bool" where
  "table_ok st (TK_Owned a ty) \<longleftrightarrow> a < length (st_tables st)"
| "table_ok st (TK_Import m) \<longleftrightarrow> import_ok st (Imp_Table m 0)"
| "table_ok st (TK_ImportHost h i) \<longleftrightarrow> import_ok st (Imp_HostTable h i)"

fun memory_ok :: "store \<Rightarrow> memory_kind \<Rightarrow> bool" where
  "memory_ok st (MK_Owned a) \<longleftrightarrow> a < length (st_memories st)"
| "memory_ok st (MK_Import m) \<longleftrightarrow> import_ok st (Imp_Memory m 0)"
| "memory_ok st (MK_ImportHost h i) \<longleftrightarrow> import_ok st (Imp_HostMemory h i)"

definition module_ok :: "store \<Rightarrow> wmodule \<Rightarrow> bool" where
  "module_ok st md \<longleftrightarrow> module_types_ok md \<and> length (md_globals md) < 2 ^ 16 \<and>
     (\<forall>f\<in>set (md_functions md). required_stack_words f \<le> 0xFFFF) \<and>
     (\<forall>i\<in>set (md_imports md). import_ok st i) \<and>
     (\<forall>t. md_table md = Some t \<longrightarrow> table_ok st t) \<and> (\<forall>m. md_memory md = Some m \<longrightarrow> memory_ok st m)"

definition host_ok :: "store \<Rightarrow> host_module \<Rightarrow> bool" where
  "host_ok st hm \<longleftrightarrow> length (hmod_functions hm) \<le> 2 ^ 16 \<and> length (hmod_globals hm) \<le> 2 ^ 16 \<and>
     length (hmod_table hm) \<le> 2 ^ 16 \<and> length (hmod_memory hm) \<le> 2 ^ 16 \<and>
     (\<forall>t\<in>set (hmod_table hm). ht_addr t < length (st_tables st)) \<and>
     (\<forall>s\<in>set (hmod_memory hm). hm_addr s < length (st_memories st))"

text \<open>The store as module \<open>k\<close> met it when it was loaded: the modules before it.\<close>

definition before :: "nat \<Rightarrow> store \<Rightarrow> store" where
  "before k st = st\<lparr>st_modules := take k (st_modules st)\<rparr>"

definition store_ok :: "store \<Rightarrow> bool" where
  "store_ok st \<longleftrightarrow> length (st_modules st) \<le> st_max_modules st \<and> st_max_modules st \<le> 256 \<and>
     length (st_host_modules st) \<le> 256 \<and> st_memories st \<noteq> [] \<and> st_tables st \<noteq> [] \<and>
     (\<forall>k < length (st_modules st). module_ok (before k st) (st_modules st ! k)) \<and>
     (\<forall>hm\<in>set (st_host_modules st). host_ok st hm)"

text \<open>A later store: modules and cells were added.\<close>

definition store_le :: "store \<Rightarrow> store \<Rightarrow> bool" where
  "store_le st st' \<longleftrightarrow> (\<exists>ms. st_modules st' = st_modules st @ ms) \<and> st_host_modules st' = st_host_modules st \<and>
     length (st_memories st) \<le> length (st_memories st') \<and> length (st_tables st) \<le> length (st_tables st')"

lemma before_le: "store_le (before k st) st"
  unfolding store_le_def before_def by (auto intro: exI [of _ "drop k (st_modules st)"])

lemma import_ok_mono: "store_le st st' \<Longrightarrow> import_ok st i \<Longrightarrow> import_ok st' i"
  by (cases i) (auto simp: store_le_def nth_append)

lemma module_ok_mono: "store_le st st' \<Longrightarrow> module_ok st md \<Longrightarrow> module_ok st' md"
  unfolding module_ok_def
proof (elim conjE, intro conjI allI impI)
  fix t assume le: "store_le st st'" and t: "\<forall>t. md_table md = Some t \<longrightarrow> table_ok st t" "md_table md = Some t"
  then have "table_ok st t" by blast
  with le show "table_ok st' t" by (cases t) (auto simp: store_le_def nth_append)
next
  fix m assume le: "store_le st st'" and m: "\<forall>m. md_memory md = Some m \<longrightarrow> memory_ok st m" "md_memory md = Some m"
  then have "memory_ok st m" by blast
  with le show "memory_ok st' m" by (cases m) (auto simp: store_le_def nth_append)
qed (auto simp: import_ok_mono)

lemma store_module_ok: "store_ok st \<Longrightarrow> k < length (st_modules st) \<Longrightarrow> module_ok st (st_modules st ! k)"
  unfolding store_ok_def using module_ok_mono [OF before_le] by blast

lemma store_host_ok: "store_ok st \<Longrightarrow> k < length (st_host_modules st) \<Longrightarrow> host_ok st (st_host_modules st ! k)"
  by (simp add: store_ok_def)

lemma host_ok_mono: "store_le st st' \<Longrightarrow> host_ok st hm \<Longrightarrow> host_ok st' hm"
  by (auto simp: host_ok_def store_le_def)

text \<open>Cells are added, or their contents change.\<close>

lemma store_ok_cells:
  assumes "store_ok st" "st_modules st' = st_modules st" "st_host_modules st' = st_host_modules st"
    "st_max_modules st' = st_max_modules st" "length (st_memories st) \<le> length (st_memories st')"
    "length (st_tables st) \<le> length (st_tables st')"
  shows "store_ok st'"
proof -
  have le: "store_le st st'" "store_le (before k st) (before k st')" for k
    using assms by (auto simp: store_le_def before_def)
  have "module_ok (before k st') (st_modules st ! k)" if "k < length (st_modules st)" for k
    using that assms(1) module_ok_mono [OF le(2)] by (simp add: store_ok_def)
  moreover have "host_ok st' hm" if "hm \<in> set (st_host_modules st)" for hm
    using that assms(1) host_ok_mono [OF le(1)] by (simp add: store_ok_def)
  moreover have "st_memories st' \<noteq> []" "st_tables st' \<noteq> []" using assms by (auto simp: store_ok_def)
  ultimately show ?thesis using assms by (simp add: store_ok_def)
qed

lemma store_ok_push:
  assumes "store_ok st" "module_ok st md"
  shows "wpM (store_push_module md) (\<lambda>i st'. store_ok st' \<and> unat i = length (st_modules st) \<and>
      st_modules st' = st_modules st @ [md]) (\<lambda>e st'. e = AE_OutOfMemory \<and> st' = st) st"
proof (cases "length (st_modules st) < st_max_modules st")
  case True
  let ?st = "st\<lparr>st_modules := st_modules st @ [md]\<rparr>"
  have small: "length (st_modules st) < 256" using True assms(1) by (simp add: store_ok_def)
  have "module_ok (before k ?st) (st_modules ?st ! k)" if k: "k < Suc (length (st_modules st))" for k
  proof (cases "k = length (st_modules st)")
    case True
    then show ?thesis using assms(2) by (simp add: before_def)
  next
    case False
    then have "k < length (st_modules st)" "before k ?st = before k st" using k by (simp_all add: before_def)
    then show ?thesis using assms(1) by (simp add: store_ok_def nth_append)
  qed
  moreover have "host_ok ?st hm" if "hm \<in> set (st_host_modules st)" for hm
    using that assms(1) by (simp add: store_ok_def host_ok_def)
  ultimately have "store_ok ?st" using assms(1) True by (simp add: store_ok_def)
  then show ?thesis using True small by (simp add: wpM_def store_push_module_def unat_of_nat)
next
  case False
  then show ?thesis by (simp add: wpM_def store_push_module_def)
qed

lemma store_ok_pop: "store_ok st \<Longrightarrow> store_ok (snd (store_pop_module st))"
proof (cases "st_modules st" rule: rev_cases)
  case (snoc ms md)
  assume ok: "store_ok st"
  let ?st = "st\<lparr>st_modules := ms\<rparr>"
  have "module_ok (before k ?st) (ms ! k)" if "k < length ms" for k
  proof -
    have "before k ?st = before k st" using that snoc by (simp add: before_def)
    then show ?thesis using ok that snoc by (auto simp: store_ok_def nth_append less_Suc_eq)
  qed
  moreover have "host_ok ?st hm" if "hm \<in> set (st_host_modules st)" for hm
    using that ok by (simp add: store_ok_def host_ok_def)
  ultimately have "store_ok ?st" using ok snoc by (simp add: store_ok_def)
  then show ?thesis using snoc by (simp add: store_pop_module_def)
qed (simp add: store_pop_module_def)

lemma store_ok_new:
  assumes "length hosts \<le> 256"
    and "\<And>hm. hm \<in> set hosts \<Longrightarrow> length (hmod_functions hm) \<le> 2 ^ 16 \<and> length (hmod_globals hm) \<le> 2 ^ 16 \<and>
     length (hmod_table hm) \<le> 2 ^ 16 \<and> length (hmod_memory hm) \<le> 2 ^ 16 \<and>
     (\<forall>t\<in>set (hmod_table hm). ht_addr t < Suc (length tabs)) \<and> (\<forall>s\<in>set (hmod_memory hm). hm_addr s < Suc (length mems))"
    and "from_host_modules al n hosts mems tabs = Ok st"
  shows "store_ok st"
proof -
  have "n \<le> 256" "st = \<lparr>st_modules = [], st_max_modules = n, st_host_modules = hosts,
      st_memories = \<lparr>cell_value = memory_zero, cell_extra = 0\<rparr> # mems, st_tables = \<lparr>cell_value = [], cell_extra = 0\<rparr> # tabs\<rparr>"
    using from_host_modules_Ok [OF assms(3)] by simp_all
  then show ?thesis using assms(1,2) by (simp add: store_ok_def host_ok_def)
qed

section \<open>Looking symbols up\<close>

lemma find_in_Some:
  "find_in q xs i = Some (j, x) \<Longrightarrow> i \<le> j \<and> j - i < length xs \<and> xs ! (j - i) = x \<and> q x"
proof (induction xs arbitrary: i)
  case (Cons a xs)
  show ?case
  proof (cases "q a")
    case False
    with Cons.prems have "find_in q xs (i + 1) = Some (j, x)" by simp
    from Cons.IH [OF this] show ?thesis by (auto simp: nth_Cons' Suc_diff_Suc)
  qed (use Cons.prems in auto)
qed simp

lemma find_in_None: "find_in q xs i = None \<longleftrightarrow> (\<forall>x\<in>set xs. \<not> q x)"
  by (induction xs arbitrary: i) auto

lemma find_symbol_Some:
  assumes "find_symbol p sel q ms k = Some (j, m, i, x)"
  shows "k \<le> j" "j - k < length ms" "ms ! (j - k) = m" "p m" "i < length (sel m)" "sel m ! i = x" "q x"
proof -
  have "k \<le> j \<and> j - k < length ms \<and> ms ! (j - k) = m \<and> p m \<and> i < length (sel m) \<and> sel m ! i = x \<and> q x"
    using assms
  proof (induction ms arbitrary: k)
    case (Cons a ms)
    show ?case
    proof (cases "p a \<and> find_in q (sel a) 0 \<noteq> None")
      case True
      then show ?thesis using Cons.prems find_in_Some [of q "sel a" 0] by auto
    next
      case False
      with Cons.prems have "find_symbol p sel q ms (k + 1) = Some (j, m, i, x)"
        by (cases "find_in q (sel a) 0") (auto split: if_splits)
      from Cons.IH [OF this] show ?thesis by (auto simp: nth_Cons' Suc_diff_Suc)
    qed
  qed simp
  then show "k \<le> j" "j - k < length ms" "ms ! (j - k) = m" "p m" "i < length (sel m)" "sel m ! i = x" "q x"
    by blast+
qed

lemma find_symbol_None:
  "find_symbol p sel q ms k = None \<longleftrightarrow> (\<forall>m\<in>set ms. p m \<longrightarrow> (\<forall>x\<in>set (sel m). \<not> q x))"
proof (induction ms arbitrary: k)
  case (Cons a ms)
  show ?case
  proof (cases "find_in q (sel a) 0")
    case None
    then have "\<forall>x\<in>set (sel a). \<not> q x" by (simp add: find_in_None)
    with None show ?thesis using Cons by auto
  next
    case (Some y)
    then have "\<exists>x\<in>set (sel a). q x" using find_in_None [of q "sel a" 0] by auto
    with Some show ?thesis using Cons by auto
  qed
qed simp

section \<open>What an import gives\<close>

fun import_func_type :: "store \<Rightarrow> import_item \<Rightarrow> func_type option" where
  "import_func_type st (Imp_Func m i) = (let em = st_modules st ! unat m in
     Some (md_types em ! unat (fn_ty (md_functions em ! unat i))))"
| "import_func_type st (Imp_HostFunc h i) = (let f = hmod_functions (st_host_modules st ! unat h) ! unat i in
     Some \<lparr>ft_params = hf_params f, ft_returns = result_vals (hf_returns f)\<rparr>)"
| "import_func_type st _ = None"

fun import_global_type :: "store \<Rightarrow> import_item \<Rightarrow> global_type option" where
  "import_global_type st (Imp_Global m i) = Some (gl_type (md_globals (st_modules st ! unat m) ! unat i))"
| "import_global_type st (Imp_HostGlobal h i) = (let g = hmod_globals (st_host_modules st ! unat h) ! unat i in
     Some \<lparr>gt_ty = hg_ty g, gt_mutable = hg_mutable g\<rparr>)"
| "import_global_type st _ = None"

fun import_limits :: "store \<Rightarrow> import_item \<Rightarrow> limit option" where
  "import_limits st (Imp_Table m i) = (case md_table (st_modules st ! unat m) of
     Some (TK_Owned a ty) \<Rightarrow> Some (tt_limits ty) | _ \<Rightarrow> None)"
| "import_limits st (Imp_HostTable h i) = Some (ht_limit (hmod_table (st_host_modules st ! unat h) ! unat i))"
| "import_limits st _ = None"

fun import_mem_type :: "store \<Rightarrow> import_item \<Rightarrow> mem_type option" where
  "import_mem_type st (Imp_Memory m i) = (case md_memory (st_modules st ! unat m) of
     Some (MK_Owned a) \<Rightarrow> Some (mem_ty (cell_value (st_memories st ! a))) | _ \<Rightarrow> None)"
| "import_mem_type st (Imp_HostMemory h i) =
     Some (mem_ty (cell_value (st_memories st ! hm_addr (hmod_memory (st_host_modules st ! unat h) ! unat i))))"
| "import_mem_type st _ = None"

text \<open>Some host module or loaded module of that name has (exports) a symbol of that name.\<close>

definition provides :: "store \<Rightarrow> (host_module \<Rightarrow> u8 list list) \<Rightarrow> u8 list \<Rightarrow> u8 list \<Rightarrow> bool" where
  "provides st names mname name \<longleftrightarrow>
     (\<exists>hm\<in>set (st_host_modules st). hmod_name hm = mname \<and> name \<in> set (names hm)) \<or>
     (\<exists>m\<in>set (st_modules st). md_name m = mname \<and> name \<in> set (map ex_name (md_exports m)))"

section \<open>Linking is sound\<close>

lemma host_index:
  assumes "store_ok st" "find_symbol p sel q (st_host_modules st) 0 = Some (mi, m, i, x)"
    and "\<And>hm. host_ok st hm \<Longrightarrow> length (sel hm) \<le> 2 ^ 16"
  shows "unat (word_of_nat mi :: u8) = mi" "unat (word_of_nat i :: u16) = i" "mi < length (st_host_modules st)"
    "m = st_host_modules st ! mi" "i < length (sel m)" "x = sel m ! i" "p m" "q x"
proof -
  note f = find_symbol_Some [OF assms(2)]
  show "mi < length (st_host_modules st)" "m = st_host_modules st ! mi" "i < length (sel m)" "x = sel m ! i" "p m" "q x"
    using f by auto
  then have "length (sel m) \<le> 2 ^ 16" using store_host_ok [OF assms(1)] assms(3) by blast
  then show "unat (word_of_nat mi :: u8) = mi" "unat (word_of_nat i :: u16) = i"
    using f assms(1) by (simp_all add: unat_of_nat store_ok_def)
qed

lemma module_index:
  assumes "store_ok st" "find_symbol p sel q (st_modules st) 0 = Some (mi, m, i, x)"
  shows "unat (word_of_nat mi :: u8) = mi" "mi < length (st_modules st)" "m = st_modules st ! mi" "module_ok st m" "q x"
  using find_symbol_Some [OF assms(2)] store_module_ok [OF assms(1), of mi] assms(1)
  by (auto simp: store_ok_def unat_of_nat)

lemma own_index: "i < n \<Longrightarrow> n < 2 ^ 16 \<Longrightarrow> unat (word_of_nat i :: u16) = i"
  by (simp add: unat_of_nat)

lemma func_import_ok: "\<forall>i\<in>set is. import_ok st i \<Longrightarrow> r \<in> set (func_imports is) \<Longrightarrow> ref_ok st r"
  by (induction "is" rule: func_imports.induct) auto

lemma global_import_ok: "\<forall>i\<in>set is. import_ok st i \<Longrightarrow> r \<in> set (global_imports is) \<Longrightarrow> global_ref_ok st r"
  by (induction "is" rule: global_imports.induct) auto

lemma get_global_ref_cases:
  assumes "get_global_ref md x = Some r"
  obtains (imported) "r \<in> set (global_imports (md_imports md))"
  | (own) i where "i < length (md_globals md)" "r = Ref_Module (word_of_nat i)"
proof (cases "find_global_import (md_imports md) x 0")
  case (Inl r')
  then show thesis
    using imported assms count_to_Inl [of _ x 0 r'] by (auto simp: get_global_ref_def find_global_import_count)
next
  case (Inr n)
  then show thesis
    using own [of "unat (x - n)"] assms by (auto simp: get_global_ref_def Let_def not_le split: if_splits)
qed

lemma func_imports_not_own: "Ref_Module i \<notin> set (func_imports is)"
  by (induction "is" rule: func_imports.induct) auto

lemma global_imports_not_own: "Ref_Module i \<notin> set (global_imports is)"
  by (induction "is" rule: global_imports.induct) auto

text \<open>A reference of a well-formed module.\<close>

lemma module_func_ref:
  assumes "module_ok st md" "get_func_ref md x = Some r"
  shows "case r of Ref_Module i \<Rightarrow> unat i < length (md_functions md) \<and>
      unat (fn_ty (md_functions md ! unat i)) < length (md_types md) | _ \<Rightarrow> ref_ok st r"
  using assms(2)
proof (cases rule: get_func_ref_cases)
  case imported
  then have "ref_ok st r" using assms(1) func_import_ok unfolding module_ok_def by blast
  moreover have "\<forall>i. r \<noteq> Ref_Module i" using imported func_imports_not_own by blast
  ultimately show ?thesis by (cases r) auto
next
  case (own i)
  have "length (md_functions md) < 2 ^ 16" using assms(1) by (simp add: module_ok_def module_types_ok_def)
  with own show ?thesis using assms(1) own_index [of i] by (auto simp: module_ok_def module_types_ok_def)
qed

lemma module_global_ref:
  assumes "module_ok st md" "get_global_ref md x = Some r"
  shows "case r of Ref_Module i \<Rightarrow> unat i < length (md_globals md) | _ \<Rightarrow> global_ref_ok st r"
  using assms(2)
proof (cases rule: get_global_ref_cases)
  case imported
  then have "global_ref_ok st r" using assms(1) global_import_ok unfolding module_ok_def by blast
  moreover have "\<forall>i. r \<noteq> Ref_Module i" using imported global_imports_not_own by blast
  ultimately show ?thesis by (cases r) auto
next
  case (own i)
  then show ?thesis using assms(1) own_index [of i] by (auto simp: module_ok_def)
qed

text \<open>What a \<open>link\<close> function promises: no panic, and of a linked import, that it exists and satisfies \<open>Q\<close>.\<close>

definition linked :: "store \<Rightarrow> (import_item \<Rightarrow> bool) \<Rightarrow> import_item vr \<Rightarrow> bool" where
  "linked st Q r \<longleftrightarrow> (case r of Ok i \<Rightarrow> import_ok st i \<and> Q i | Err e \<Rightarrow> True | Panic \<Rightarrow> False)"

lemma linked_simps [simp]:
  "linked st Q (Ok i) \<longleftrightarrow> import_ok st i \<and> Q i" "linked st Q (Err e)" "\<not> linked st Q Panic"
  by (simp_all add: linked_def)

lemma linked_if: "(b \<Longrightarrow> linked st Q x) \<Longrightarrow> (\<not> b \<Longrightarrow> linked st Q y) \<Longrightarrow> linked st Q (if b then x else y)"
  by simp

lemma matches_type: "host_matches f ty \<Longrightarrow> \<lparr>ft_params = hf_params f, ft_returns = result_vals (hf_returns f)\<rparr> = ty"
  by (simp add: host_matches_def)

lemma link_export_function_linked:
  assumes st: "store_ok st" and m: "mi < length (st_modules st)" "unat (word_of_nat mi :: u8) = mi"
    "m = st_modules st ! mi" "module_ok st m"
  shows "linked st (\<lambda>i. import_func_type st i = Some ty) (link_export_function st mi m fi ty)"
proof (cases "get_func_ref m fi")
  case (Some r)
  note ref = module_func_ref [OF m(4) Some]
  show ?thesis
  proof (cases r)
    case (Ref_Module i)
    then have i: "unat i < length (md_functions m)" "unat (fn_ty (md_functions m ! unat i)) < length (md_types m)"
      using ref by simp_all
    moreover have "import_ok st (Imp_Func (word_of_nat mi) i)"
      using m i(1) by (simp add: module_ok_def)
    ultimately show ?thesis
      using Some Ref_Module m by (simp add: link_export_function_def ok_orR_def get_opt_def Let_def)
  next
    case (Ref_Extern md j)
    then have ok: "ref_ok st (Ref_Extern md j)" using ref by simp
    then have "md_functions (st_modules st ! unat md) ! unat j \<in> set (md_functions (st_modules st ! unat md))" by simp
    then have "unat (fn_ty (md_functions (st_modules st ! unat md) ! unat j)) < length (md_types (st_modules st ! unat md))"
      using ok by (simp add: module_types_ok_def)
    then show ?thesis
      using Some Ref_Extern ok by (simp add: link_export_function_def ok_orR_def Let_def)
  next
    case (Ref_Host h j)
    then have "ref_ok st (Ref_Host h j)" using ref by simp
    then show ?thesis
      using Some Ref_Host by (simp add: link_export_function_def ok_orR_def Let_def matches_type)
  qed
qed (simp add: link_export_function_def ok_orR_def)

lemma link_function_linked:
  assumes st: "store_ok st"
  shows "linked st (\<lambda>i. import_func_type st i = Some ty) (link_function st mn n ty)"
proof (cases "find_symbol (\<lambda>m. hmod_name m = mn) hmod_functions (\<lambda>f. hf_name f = n) (st_host_modules st) 0")
  case (Some y)
  then obtain mi m fi f where y: "y = (mi, m, fi, f)" by (cases y)
  note h = host_index [OF st Some [unfolded y], unfolded host_ok_def, simplified]
  show ?thesis
    using Some y h by (simp add: link_function_def Let_def matches_type)
next
  case None
  show ?thesis
  proof (cases "find_symbol (\<lambda>m. md_name m = mn) md_exports (\<lambda>e. ex_name e = n) (st_modules st) 0")
    case (Some y)
    then obtain mi m i e where y: "y = (mi, m, i, e)" by (cases y)
    note h = module_index [OF st Some [unfolded y]]
    show ?thesis
      using None Some y link_export_function_linked [OF st h(2,1,3,4)]
      by (simp add: link_function_def split: export_desc.split)
  qed (use None in \<open>simp add: link_function_def\<close>)
qed

lemma check_global_linked:
  assumes "import_ok st i" "import_global_type st i = Some \<lparr>gt_ty = t, gt_mutable = mu\<rparr>"
  shows "linked st (\<lambda>i. import_global_type st i = Some ty) (check_global t mu ty i)"
  using assms by (cases ty) (simp add: check_global_def)

lemma link_export_global_linked:
  assumes st: "store_ok st" and m: "mi < length (st_modules st)" "unat (word_of_nat mi :: u8) = mi"
    "m = st_modules st ! mi" "module_ok st m"
  shows "linked st (\<lambda>i. import_global_type st i = Some ty) (link_export_global st mi m gi ty)"
proof (cases "get_global_ref m gi")
  case (Some r)
  note ref = module_global_ref [OF m(4) Some]
  show ?thesis
    using Some ref m
    by (cases r) (auto simp: link_export_global_def ok_orR_def Let_def intro!: check_global_linked)
qed (simp add: link_export_global_def ok_orR_def)

lemma link_global_linked:
  assumes st: "store_ok st"
  shows "linked st (\<lambda>i. import_global_type st i = Some ty) (link_global st mn n ty)"
proof (cases "find_symbol (\<lambda>m. hmod_name m = mn) hmod_globals (\<lambda>g. hg_name g = n) (st_host_modules st) 0")
  case (Some y)
  then obtain mi m gi g where y: "y = (mi, m, gi, g)" by (cases y)
  note h = host_index [OF st Some [unfolded y], unfolded host_ok_def, simplified]
  show ?thesis
    using Some y h by (auto simp: link_global_def Let_def intro!: check_global_linked)
next
  case None
  show ?thesis
  proof (cases "find_symbol (\<lambda>m. md_name m = mn) md_exports (\<lambda>e. ex_name e = n) (st_modules st) 0")
    case (Some y)
    then obtain mi m i e where y: "y = (mi, m, i, e)" by (cases y)
    note h = module_index [OF st Some [unfolded y]]
    show ?thesis
      using None Some y link_export_global_linked [OF st h(2,1,3,4)]
      by (simp add: link_global_def split: export_desc.split)
  qed (use None in \<open>simp add: link_global_def\<close>)
qed

lemma exported_table_linked:
  assumes m: "mi < length (st_modules st)" "unat (word_of_nat mi :: u8) = mi" "m = st_modules st ! mi" "module_ok st m"
  shows "case exported_table st mi m of Ok (l, i) \<Rightarrow> import_ok st i \<and> import_limits st i = Some l
     | Err e \<Rightarrow> True | Panic \<Rightarrow> False"
proof (cases "md_table m")
  case (Some t)
  then have "table_ok st t" using m(4) by (simp add: module_ok_def)
  with Some m show ?thesis by (cases t) (auto simp: exported_table_def)
qed (simp add: exported_table_def)

lemma link_table_linked:
  assumes st: "store_ok st"
  shows "linked st (\<lambda>i. \<exists>l. import_limits st i = Some l \<and> limit_matches l (tt_limits ty)) (link_table st mn n ty)"
proof (cases "find_symbol (\<lambda>m. hmod_name m = mn) hmod_table (\<lambda>t. ht_name t = n) (st_host_modules st) 0")
  case (Some y)
  then obtain mi m ti t where y: "y = (mi, m, ti, t)" by (cases y)
  note h = host_index [OF st Some [unfolded y], unfolded host_ok_def, simplified]
  show ?thesis
    using Some y h by (simp add: link_table_def)
next
  case None
  show ?thesis
  proof (cases "find_symbol (\<lambda>m. md_name m = mn) md_exports (\<lambda>e. ex_name e = n) (st_modules st) 0")
    case (Some y)
    then obtain mi m i e where y: "y = (mi, m, i, e)" by (cases y)
    note h = module_index [OF st Some [unfolded y]]
    show ?thesis
      using None Some y exported_table_linked [OF h(2,1,3,4)]
      by (auto simp: link_table_def split: export_desc.split result.splits)
  qed (use None in \<open>simp add: link_table_def\<close>)
qed

lemma exported_memory_linked:
  assumes st: "store_ok st"
    and m: "mi < length (st_modules st)" "unat (word_of_nat mi :: u8) = mi" "m = st_modules st ! mi" "module_ok st m"
  shows "case exported_memory st mi m of Ok (a, i) \<Rightarrow> import_ok st i \<and> a < length (st_memories st) \<and>
       import_mem_type st i = Some (mem_ty (cell_value (st_memories st ! a)))
     | Err e \<Rightarrow> True | Panic \<Rightarrow> False"
proof (cases "md_memory m")
  case (Some t)
  then have ok: "memory_ok st t" using m(4) by (simp add: module_ok_def)
  show ?thesis
  proof (cases t)
    case (MK_ImportHost h i)
    then have i: "unat h < length (st_host_modules st)" "unat i < length (hmod_memory (st_host_modules st ! unat h))"
      using ok by simp_all
    then have "hm_addr (hmod_memory (st_host_modules st ! unat h) ! unat i) < length (st_memories st)"
      using store_host_ok [OF st i(1)] by (simp add: host_ok_def)
    with i Some MK_ImportHost show ?thesis by (simp add: exported_memory_def)
  qed (use Some ok m in \<open>auto simp: exported_memory_def\<close>)
qed (simp add: exported_memory_def)

lemma link_memory_linked:
  assumes st: "store_ok st"
  shows "linked st (\<lambda>i. \<exists>t. import_mem_type st i = Some t \<and> mem_type_matches t ty) (link_memory st mn n ty)"
proof (cases "find_symbol (\<lambda>m. hmod_name m = mn) hmod_memory (\<lambda>s. hm_name s = n) (st_host_modules st) 0")
  case (Some y)
  then obtain mi m ti s where y: "y = (mi, m, ti, s)" by (cases y)
  note h = host_index [OF st Some [unfolded y], unfolded host_ok_def, simplified]
  have "hm_addr s < length (st_memories st)"
    using store_host_ok [OF st h(3)] h by (simp add: host_ok_def)
  then show ?thesis
    using Some y h by (simp add: link_memory_def mem_type_of_def)
next
  case None
  show ?thesis
  proof (cases "find_symbol (\<lambda>m. md_name m = mn) md_exports (\<lambda>e. ex_name e = n) (st_modules st) 0")
    case (Some y)
    then obtain mi m i e where y: "y = (mi, m, i, e)" by (cases y)
    note h = module_index [OF st Some [unfolded y]]
    show ?thesis
      using None Some y exported_memory_linked [OF st h(2,1,3,4)]
      by (auto simp: link_memory_def mem_type_of_def split: export_desc.split result.splits)
  qed (use None in \<open>simp add: link_memory_def\<close>)
qed

text \<open>A link reports \<open>not found\<close> exactly when no module of that name has a symbol of that name.\<close>

lemma find_symbol_provides:
  assumes "names = (\<lambda>hm. map h (sel hm))"
  shows "provides st names mn n \<longleftrightarrow>
     find_symbol (\<lambda>m. hmod_name m = mn) sel (\<lambda>x. h x = n) (st_host_modules st) 0 \<noteq> None \<or>
     find_symbol (\<lambda>m. md_name m = mn) md_exports (\<lambda>e. ex_name e = n) (st_modules st) 0 \<noteq> None"
  unfolding provides_def assms find_symbol_None by (auto simp: image_iff)

lemma link_function_not_found:
  "link_function st mn n ty = Err FunctionImportNotFound \<longleftrightarrow> \<not> provides st (\<lambda>hm. map hf_name (hmod_functions hm)) mn n"
proof -
  have other: "link_export_function st mi m fi ty \<noteq> Err FunctionImportNotFound" for mi m fi
    by (auto simp: link_export_function_def ok_orR_def bindR_def at_def split: option.splits sym_ref.splits)
  show ?thesis
    unfolding find_symbol_provides [OF refl]
    by (auto simp: link_function_def other split: option.splits export_desc.splits)
qed

lemma link_global_not_found:
  "link_global st mn n ty = Err GlobalImportNotFound \<longleftrightarrow> \<not> provides st (\<lambda>hm. map hg_name (hmod_globals hm)) mn n"
proof -
  have other: "link_export_global st mi m fi ty \<noteq> Err GlobalImportNotFound" for mi m fi
    by (auto simp: link_export_global_def check_global_def ok_orR_def bindR_def at_def split: option.splits sym_ref.splits)
  have other2: "check_global t mu ty i \<noteq> Err GlobalImportNotFound" for t mu i by (simp add: check_global_def)
  show ?thesis
    unfolding find_symbol_provides [OF refl]
    by (auto simp: link_global_def other other2 split: option.splits export_desc.splits)
qed

text \<open>
  Claim C18. Linking a function is sound: in a well-formed store it never panics; a linked import refers to an
  existing function of exactly the expected type, never to a re-export; and \<open>FunctionImportNotFound\<close> is
  reported exactly when no host module or loaded module of that name has a symbol of that name.
\<close>

theorem link_function_sound:
  assumes "store_ok st"
  shows "case link_function st mname name ty of
     Ok i \<Rightarrow> import_ok st i \<and> import_func_type st i = Some ty
   | Err e \<Rightarrow> e = FunctionImportNotFound \<longleftrightarrow> \<not> provides st (\<lambda>hm. map hf_name (hmod_functions hm)) mname name
   | Panic \<Rightarrow> False"
  using link_function_linked [OF assms, where ty = ty and mn = mname and n = name]
    link_function_not_found [where st = st and ty = ty and mn = mname and n = name]
  by (auto simp: linked_def split: result.splits)

text \<open>A host module \<open>h\<close> with a function and a global, and a module \<open>m\<close> that re-exports the function.\<close>

definition link_store :: store where
  "link_store = \<lparr>st_modules = [\<lparr>md_name = [109], md_types = [\<lparr>ft_params = [T_I32], ft_returns = []\<rparr>], md_functions = [],
       md_table = Some (TK_Owned 1 \<lparr>tt_elem = FuncRef, tt_limits = \<lparr>lim_min = 2, lim_max = Some 2\<rparr>\<rparr>), md_memory = None, md_globals = [],
       md_imports = [Imp_HostFunc 0 0], md_exports = [\<lparr>ex_name = [120], ex_desc = Exp_Func 0\<rparr>, \<lparr>ex_name = [116], ex_desc = Exp_Table 0\<rparr>], md_start = None\<rparr>],
     st_max_modules = 4,
     st_host_modules = [\<lparr>hmod_name = [104], hmod_globals = [\<lparr>hg_name = [103], hg_ty = T_I32, hg_mutable = False\<rparr>],
       hmod_functions = [\<lparr>hf_name = [102], hf_params = [T_I32], hf_returns = None, hf_present = True\<rparr>],
       hmod_memory = [], hmod_table = []\<rparr>],
     st_memories = [\<lparr>cell_value = memory_zero, cell_extra = 0\<rparr>],
     st_tables = [\<lparr>cell_value = [], cell_extra = 0\<rparr>, \<lparr>cell_value = [TE_Uninit, TE_Uninit], cell_extra = 0\<rparr>]\<rparr>"

lemma link_store_ok: "store_ok link_store"
  by (simp add: store_ok_def link_store_def module_ok_def module_types_ok_def host_ok_def before_def)

lemma link_function_sound_witness:
  "(case link_function link_store [109] [120] \<lparr>ft_params = [T_I32], ft_returns = []\<rparr> of
      Ok i \<Rightarrow> i = Imp_HostFunc 0 0 \<and> import_ok link_store i | _ \<Rightarrow> False) \<and>
   link_function link_store [109] [121] \<lparr>ft_params = [], ft_returns = []\<rparr> = Err FunctionImportNotFound"
proof -
  have "link_function link_store [109] [120] \<lparr>ft_params = [T_I32], ft_returns = []\<rparr> = Ok (Imp_HostFunc 0 0)"
    by (simp add: link_function_def link_store_def link_export_function_def get_func_ref_def ok_orR_def host_matches_def result_vals_def)
  moreover have "\<exists>e. link_function link_store [109] [121] \<lparr>ft_params = [], ft_returns = []\<rparr> = Err e"
    by (simp add: link_function_def link_store_def)
  moreover have "\<not> provides link_store (\<lambda>hm. map hf_name (hmod_functions hm)) [109] [121]"
    by (simp add: provides_def link_store_def)
  ultimately show ?thesis
    using link_function_sound [OF link_store_ok, where ty = "\<lparr>ft_params = [T_I32], ft_returns = []\<rparr>" and
        mname = "[109]" and name = "[120]"]
      link_function_sound [OF link_store_ok, where ty = "\<lparr>ft_params = [], ft_returns = []\<rparr>" and
        mname = "[109]" and name = "[121]"]
    by auto
qed

text \<open>
  Claim C19. Linking globals, tables and memories is sound: no panic in a well-formed store, and the import
  exists, is not a re-export, and satisfies the importer: a global has the very type and mutability that is
  expected, a table's limits and a memory's type match.
\<close>

theorem link_state_sound:
  assumes "store_ok st"
  shows "linked st (\<lambda>i. import_global_type st i = Some gty) (link_global st mname name gty) \<and>
    linked st (\<lambda>i. \<exists>l. import_limits st i = Some l \<and> limit_matches l (tt_limits tty)) (link_table st mname name tty) \<and>
    linked st (\<lambda>i. \<exists>t. import_mem_type st i = Some t \<and> mem_type_matches t mty) (link_memory st mname name mty)"
  using link_global_linked [OF assms] link_table_linked [OF assms] link_memory_linked [OF assms] by blast

lemma link_state_sound_witness:
  "import_ok link_store (Imp_HostGlobal 0 0) \<and>
   import_global_type link_store (Imp_HostGlobal 0 0) = Some \<lparr>gt_ty = T_I32, gt_mutable = False\<rparr> \<and>
   (\<exists>l. import_limits link_store (Imp_Table 0 0) = Some l \<and> limit_matches l \<lparr>lim_min = 1, lim_max = None\<rparr>)"
proof -
  have "link_global link_store [104] [103] \<lparr>gt_ty = T_I32, gt_mutable = False\<rparr> = Ok (Imp_HostGlobal 0 0)"
    by (simp add: link_global_def link_store_def check_global_def)
  moreover have "link_table link_store [109] [116] \<lparr>tt_elem = FuncRef, tt_limits = \<lparr>lim_min = 1, lim_max = None\<rparr>\<rparr> = Ok (Imp_Table 0 0)"
    by (simp add: link_table_def link_store_def exported_table_def limit_matches_def)
  ultimately show ?thesis
    using link_state_sound [OF link_store_ok, where gty = "\<lparr>gt_ty = T_I32, gt_mutable = False\<rparr>" and
        mname = "[104]" and name = "[103]"]
      link_state_sound [OF link_store_ok, where mname = "[109]" and name = "[116]" and
        tty = "\<lparr>tt_elem = FuncRef, tt_limits = \<lparr>lim_min = 1, lim_max = None\<rparr>\<rparr>"]
    by auto
qed

end
