(* ===== verification/Module_Safe.thy ===== *)
theory Module_Safe
  imports Linking Module_Load
begin

text \<open>
  Loading a module is safe: from a well-formed store (\<open>store_ok\<close>) and code buffer it never panics, whatever
  the bytes, and a module that is accepted is well formed, so that the store it is pushed to is again.

  \<open>load_ok st0 k l\<close> is the invariant of the section loop before a section of rank \<open>k\<close>; \<open>load_failed\<close> is what an
  error leaves. The type section may only be read while there are no functions, hence the rank.
\<close>

section \<open>Readers with a postcondition\<close>

definition gives :: "('a \<Rightarrow> bool) \<Rightarrow> 'a rm \<Rightarrow> bool" where
  "gives P f \<longleftrightarrow> (\<forall>r. reader_inv r \<longrightarrow> wpM f (\<lambda>a r'. reader_inv r' \<and> P a) (\<lambda>_ _. True) r)"

lemma gives_safe: "gives P f \<Longrightarrow> reader_safe f"
  unfolding gives_def reader_safe_def by (auto elim!: wpM_mono)

lemma safe_gives: "reader_safe f \<Longrightarrow> gives (\<lambda>_. True) f"
  by (simp add: gives_def reader_safe_def)

lemma gives_ret: "P a \<Longrightarrow> gives P (retM a)"
  by (simp add: gives_def wp)

lemma gives_err: "gives P (errM e)"
  by (simp add: gives_def wp)

lemma gives_bind: "gives P f \<Longrightarrow> (\<And>a. P a \<Longrightarrow> gives Q (g a)) \<Longrightarrow> gives Q (bindM f g)"
  unfolding gives_def wpM_bind by (auto elim!: wpM_mono)

lemma gives_read: "reader_safe f \<Longrightarrow> (\<And>a. gives Q (g a)) \<Longrightarrow> gives Q (bindM f g)"
  by (rule gives_bind [OF safe_gives])

lemma gives_then: "reader_safe f \<Longrightarrow> gives Q g \<Longrightarrow> gives Q (thenM f g)"
  unfolding thenM_def by (rule gives_read)

lemma gives_if: "(b \<Longrightarrow> gives Q f) \<Longrightarrow> (\<not> b \<Longrightarrow> gives Q g) \<Longrightarrow> gives Q (if b then f else g)"
  by simp

lemma gives_ok_or: "(\<And>a. x = Some a \<Longrightarrow> P a) \<Longrightarrow> gives P (ok_or x e)"
  by (auto simp: gives_def wp split: option.split)

lemma gives_lift: "x \<noteq> Panic \<Longrightarrow> (\<And>a. x = Ok a \<Longrightarrow> P a) \<Longrightarrow> gives P (liftR x)"
  by (cases x) (auto simp: gives_def wp)

lemma gives_repeat: "gives P f \<Longrightarrow> gives (\<lambda>xs. length xs = n \<and> (\<forall>x\<in>set xs. P x)) (repeatM n f)"
proof (induction n)
  case (Suc n)
  show ?case unfolding repeatM.simps
    by (rule gives_bind [OF Suc.prems], rule gives_bind [OF Suc.IH [OF Suc.prems]], rule gives_ret) auto
qed (auto intro: gives_ret)

lemma gives_read_vec:
  assumes "gives P f" shows "gives (\<lambda>xs. \<forall>x\<in>set xs. P x) (read_vec f)"
proof -
  have "gives (\<lambda>xs. \<forall>x\<in>set xs. P x) (repeatM n f)" for n
    using gives_repeat [OF assms, of n] unfolding gives_def by (auto elim!: wpM_mono)
  then show ?thesis
    unfolding read_vec_def by (intro gives_read gives_if gives_err gives_then rsafe)
qed

lemma wpM_gives:
  assumes "gives P f" "reader_inv r" "\<And>a r'. reader_inv r' \<Longrightarrow> P a \<Longrightarrow> Q a (r', x)" "\<And>e r'. E e (r', x)"
  shows "wpM (onReader f) Q E (r, x)"
  unfolding wpM_onReader using assms(1,2) unfolding gives_def by (auto intro: assms(3,4) elim!: wpM_mono)

section \<open>The invariant\<close>

definition same_modules :: "store \<Rightarrow> store \<Rightarrow> bool" where
  "same_modules st st' \<longleftrightarrow> st_modules st' = st_modules st \<and> st_host_modules st' = st_host_modules st \<and>
     st_max_modules st' = st_max_modules st \<and> length (st_memories st) \<le> length (st_memories st') \<and>
     length (st_tables st) \<le> length (st_tables st')"

lemma same_modules_refl [simp]: "same_modules st st"
  by (simp add: same_modules_def)

lemma same_modules_trans: "same_modules a b \<Longrightarrow> same_modules b c \<Longrightarrow> same_modules a c"
  by (auto simp: same_modules_def)

lemma same_modules_ok: "same_modules st st' \<Longrightarrow> store_ok st \<Longrightarrow> store_ok st'"
  by (rule store_ok_cells) (auto simp: same_modules_def)

lemma same_modules_le: "same_modules st st' \<Longrightarrow> store_le st st'"
  by (auto simp: same_modules_def store_le_def)

definition load_failed :: "store \<Rightarrow> loading \<Rightarrow> bool" where
  "load_failed st0 l \<longleftrightarrow> store_ok (ld_store l) \<and> same_modules st0 (ld_store l) \<and> code_inv (ld_code l)"

definition load_ok :: "store \<Rightarrow> nat \<Rightarrow> loading \<Rightarrow> bool" where
  "load_ok st0 k l \<longleftrightarrow> load_failed st0 l \<and> module_ok (ld_store l) (ld_module l) \<and>
     (k \<le> 3 \<longrightarrow> md_functions (ld_module l) = [])"

lemma load_ok_failed: "load_ok st0 k l \<Longrightarrow> load_failed st0 l"
  by (simp add: load_ok_def)

lemma load_ok_mono: "load_ok st0 j l \<Longrightarrow> j \<le> k \<Longrightarrow> load_ok st0 k l"
  by (auto simp: load_ok_def)

lemma load_ok_store: "load_ok st0 k l \<Longrightarrow> store_ok (ld_store l)" and load_ok_module: "load_ok st0 k l \<Longrightarrow> module_ok (ld_store l) (ld_module l)"
  by (simp_all add: load_ok_def load_failed_def)

text \<open>A step of the decoder: it keeps the invariant, reading from a well-formed reader.\<close>

definition keeps :: "store \<Rightarrow> nat \<Rightarrow> nat \<Rightarrow> 'a lm \<Rightarrow> bool" where
  "keeps st0 j k f \<longleftrightarrow> (\<forall>r l. reader_inv r \<longrightarrow> load_ok st0 j l \<longrightarrow>
     wpM f (\<lambda>_ (r', l'). reader_inv r' \<and> load_ok st0 k l') (\<lambda>_ (_, l'). load_failed st0 l') (r, l))"

lemma keepsD:
  "keeps st0 j k f \<Longrightarrow> reader_inv r \<Longrightarrow> load_ok st0 j l \<Longrightarrow>
     wpM f (\<lambda>_ (r', l'). reader_inv r' \<and> load_ok st0 k l') (\<lambda>_ (_, l'). load_failed st0 l') (r, l)"
  by (simp add: keeps_def)

named_theorems keeps_rules "steps of the section decoder that keep the invariant"

lemma keeps_ret [keeps_rules]: "j \<le> k \<Longrightarrow> keeps st0 j k (retM a)"
  by (auto simp: keeps_def wp intro: load_ok_mono)

lemma keeps_err [keeps_rules]: "keeps st0 j k (errM e)"
  by (auto simp: keeps_def wp load_ok_failed)

lemma keeps_bind: "keeps st0 i j f \<Longrightarrow> (\<And>a. keeps st0 j k (g a)) \<Longrightarrow> keeps st0 i k (bindM f g)"
  unfolding keeps_def wpM_bind
proof (intro allI impI)
  fix r l
  assume f: "\<forall>r l. reader_inv r \<longrightarrow> load_ok st0 i l \<longrightarrow>
     wpM f (\<lambda>_ (r', l'). reader_inv r' \<and> load_ok st0 j l') (\<lambda>_ (_, l'). load_failed st0 l') (r, l)"
    and g: "\<And>a. \<forall>r l. reader_inv r \<longrightarrow> load_ok st0 j l \<longrightarrow>
     wpM (g a) (\<lambda>_ (r', l'). reader_inv r' \<and> load_ok st0 k l') (\<lambda>_ (_, l'). load_failed st0 l') (r, l)"
    and r: "reader_inv r" "load_ok st0 i l"
  have "wpM f (\<lambda>_ (r', l'). reader_inv r' \<and> load_ok st0 j l') (\<lambda>_ (_, l'). load_failed st0 l') (r, l)"
    using f r by blast
  then show "wpM f (\<lambda>a. wpM (g a) (\<lambda>_ (r', l'). reader_inv r' \<and> load_ok st0 k l') (\<lambda>_ (_, l'). load_failed st0 l'))
     (\<lambda>_ (_, l'). load_failed st0 l') (r, l)"
    by (rule wpM_mono) (use g in \<open>simp_all add: split_paired_all\<close>)
qed

lemma keeps_then: "keeps st0 i j f \<Longrightarrow> keeps st0 j k g \<Longrightarrow> keeps st0 i k (thenM f g)"
  unfolding thenM_def by (rule keeps_bind)

lemma keeps_if [keeps_rules]: "(b \<Longrightarrow> keeps st0 j k f) \<Longrightarrow> (\<not> b \<Longrightarrow> keeps st0 j k g) \<Longrightarrow> keeps st0 j k (if b then f else g)"
  by simp

lemma keeps_gives: "gives P f \<Longrightarrow> (\<And>a. P a \<Longrightarrow> keeps st0 j k (g a)) \<Longrightarrow> keeps st0 j k (bindM (onReader f) g)"
  unfolding keeps_def wpM_bind by (auto intro!: wpM_gives simp: load_ok_failed)

lemma keeps_read: "reader_safe f \<Longrightarrow> (\<And>a. keeps st0 j k (g a)) \<Longrightarrow> keeps st0 j k (bindM (onReader f) g)"
  by (rule keeps_gives [OF safe_gives])

lemma keeps_reader [keeps_rules]: "reader_safe f \<Longrightarrow> keeps st0 k k (onReader f)"
  unfolding keeps_def by (auto intro!: wpM_reader_safe simp: load_ok_failed)

text \<open>Steps that look at the module and the store may use that they are well formed.\<close>

lemma keeps_inspect:
  assumes "\<And>l. load_ok st0 j l \<Longrightarrow> keeps st0 j k (g (ld_module l) (ld_store l))"
  shows "keeps st0 j k (bindM the_module (\<lambda>md. bindM the_store (g md)))"
  unfolding keeps_def
proof (intro allI impI)
  fix r l assume r: "reader_inv r" and l: "load_ok st0 j l"
  show "wpM (bindM the_module (\<lambda>md. bindM the_store (g md))) (\<lambda>_ (r', l'). reader_inv r' \<and> load_ok st0 k l')
      (\<lambda>_ (_, l'). load_failed st0 l') (r, l)"
    using keepsD [OF assms [OF l] r l] by (simp add: the_module_def the_store_def wp wpM_onState)
qed

lemma keeps_times: "keeps st0 k k f \<Longrightarrow> keeps st0 k k (timesM n f)"
  by (induction n) (auto intro: keeps_ret keeps_then)

lemma keeps_with_limit: "keeps st0 j k f \<Longrightarrow> keeps st0 j k (with_limit (\<lambda>e. e) n f)"
  unfolding keeps_def
proof (intro allI impI)
  fix r l assume f: "\<forall>r l. reader_inv r \<longrightarrow> load_ok st0 j l \<longrightarrow>
     wpM f (\<lambda>_ (r', l'). reader_inv r' \<and> load_ok st0 k l') (\<lambda>_ (_, l'). load_failed st0 l') (r, l)"
    and r: "reader_inv r" "load_ok st0 j l"
  then have "wpM f (\<lambda>_ (r', l'). reader_inv r' \<and> load_ok st0 k l') (\<lambda>_ (_, l'). load_failed st0 l')
     (r\<lparr>rd_limit := rd_full_offset r + n\<rparr>, l)"
    by (simp add: reader_inv_limit)
  then show "wpM (with_limit (\<lambda>e. e) n f) (\<lambda>_ (r', l'). reader_inv r' \<and> load_ok st0 k l')
     (\<lambda>_ (_, l'). load_failed st0 l') (r, l)"
    using r by (intro wpM_with_limit) (auto simp: reader_inv_limit load_ok_failed elim!: wpM_mono)
qed

lemma keeps_state:
  assumes "\<And>l. load_ok st0 j l \<Longrightarrow> wpM f (\<lambda>_. load_ok st0 k) (\<lambda>_. load_failed st0) l"
  shows "keeps st0 j k (onState f)"
  using assms by (simp add: keeps_def wpM_onState)

lemma keeps_field:
  assumes "\<And>l. load_ok st0 j l \<Longrightarrow> module_ok (ld_store l) (h (ld_module l)) \<and> (k \<le> 3 \<longrightarrow> md_functions (h (ld_module l)) = [])"
  shows "keeps st0 j k (module_field h)"
  unfolding module_field_def by (rule keeps_state) (use assms in \<open>auto simp: wp load_ok_def load_failed_def\<close>)

section \<open>Custom and type sections\<close>

lemma wpM_read_forward:
  assumes "reader_safe f" "reader_bounded f" "reader_inv r"
    and "\<And>a r'. reader_inv r' \<Longrightarrow> rd_full_offset r \<le> rd_full_offset r' \<Longrightarrow> Q a (r', x)" "\<And>e r'. E e (r', x)"
  shows "wpM (onReader f) Q E (r, x)"
proof -
  have "within_limit r (snd (f r))" using assms(2) by (simp add: reader_bounded_def)
  then have "rd_full_offset r \<le> rd_full_offset (snd (f r))" by (simp add: within_limit_def)
  moreover have "wpM f (\<lambda>_. reader_inv) (\<lambda>_ _. True) r" using assms(1,3) by (simp add: reader_safe_def)
  ultimately show ?thesis
    unfolding wpM_onReader using assms(4,5) by (auto simp: wpM_def split: prod.splits result.splits)
qed

lemma wpM_offset: "wpM (onReader reader_offset) Q E (r, x) = Q (rd_full_offset r) (r, x)"
  by (simp add: wpM_onReader reader_offset_def wp)

lemma reader_safe_name_of [rsafe]: "reader_safe (liftR (name_of bs))"
  by (rule reader_safe_lift) (simp add: name_of_def)

lemma reader_safe_default [rsafe]: "reader_safe (default_custom name n)"
  unfolding default_custom_def by (rule rsafe)

lemma keeps_custom:
  assumes "\<And>name n. reader_safe (handler name n)"
  shows "keeps st0 k k (custom_section_read handler sz)"
  unfolding keeps_def
proof (intro allI impI)
  fix r l assume r: "reader_inv r" and l: "load_ok st0 k l"
  let ?Q = "\<lambda>_ (r', l'). reader_inv r' \<and> load_ok st0 k l'" and ?E = "\<lambda>_ (_, l'). load_failed st0 l'"
  have tail: "wpM (bindM (onReader (liftR (name_of raw))) (\<lambda>name. bindM (onReader reader_offset) (\<lambda>fin.
      thenM (assertM (rd_full_offset r \<le> fin))
       (if sz < fin - rd_full_offset r then errM MalformedSectionSize
        else with_limit (\<lambda>e. e) (sz - (fin - rd_full_offset r)) (onReader (handler name (sz - (fin - rd_full_offset r))))))))
      ?Q ?E (r1, l)" if r1: "reader_inv r1" "rd_full_offset r \<le> rd_full_offset r1" for raw r1
    unfolding wpM_bind
  proof (rule wpM_read_forward)
    fix name r2 assume r2: "reader_inv r2" "rd_full_offset r1 \<le> rd_full_offset r2"
    have "wpM (with_limit (\<lambda>e. e) n (onReader (handler name n'))) ?Q ?E (r2, l)" for n n'
      using keepsD [OF keeps_with_limit [OF keeps_reader [OF assms]] r2(1) l] by blast
    with r1 r2 l show "wpM (onReader reader_offset) (\<lambda>fin. wpM (thenM (assertM (rd_full_offset r \<le> fin))
       (if sz < fin - rd_full_offset r then errM MalformedSectionSize
        else with_limit (\<lambda>e. e) (sz - (fin - rd_full_offset r)) (onReader (handler name (sz - (fin - rd_full_offset r))))))
        ?Q ?E) ?E (r2, l)"
      by (simp add: wpM_offset wp load_ok_failed)
  qed (use r1 l in \<open>auto intro!: rsafe bnd simp: load_ok_failed\<close>)
  show "wpM (custom_section_read handler sz) ?Q ?E (r, l)"
    unfolding custom_section_read_def wpM_bind [of "onReader reader_offset"] wpM_offset
      wpM_bind [of "onReader (read_vec_stack _ _)"]
    by (rule wpM_read_forward [OF _ _ r]) (use tail l in \<open>auto intro!: rsafe bnd simp: load_ok_failed\<close>)
qed

lemma keeps_types: "keeps st0 1 2 (bindM (onReader (read_vec func_type_read)) (\<lambda>x. module_field (\<lambda>md. md\<lparr>md_types := x\<rparr>)))"
  by (rule keeps_read, intro rsafe, rule keeps_field) (auto simp: load_ok_def module_ok_def module_types_ok_def)

section \<open>Imports\<close>

lemma reader_safe_import_desc [rsafe]: "reader_safe import_desc_read"
  unfolding import_desc_read_def by (intro rsafe)

lemma gives_linked: "linked st Q x \<Longrightarrow> gives (import_ok st) (liftR x)"
  by (auto simp: gives_def wp linked_def split: result.splits)

lemma gives_import_read: "store_ok st \<Longrightarrow> gives (import_ok st) (import_read md st)"
  unfolding import_read_def
  by (intro gives_read rsafe)
    (auto split: import_desc.split intro!: gives_read rsafe gives_linked [OF link_function_linked]
      gives_linked [OF link_memory_linked] gives_linked [OF link_table_linked] gives_linked [OF link_global_linked])

text \<open>Resolving an import keeps the module well formed: the memory or table it is bound to exists.\<close>

lemma resolve_import_wp:
  assumes "import_ok st i" "module_ok st md"
  shows "wpM (resolve_import st i) (\<lambda>_ md'. module_ok st md' \<and> md_functions md' = md_functions md)
    (\<lambda>_ md'. module_ok st md') md"
  using assms by (cases i) (auto simp: resolve_import_def wp module_ok_def module_types_ok_def)

lemma resolve_imports_wp:
  assumes "\<forall>i\<in>set is. import_ok st i" "module_ok st md"
  shows "wpM (forM is (resolve_import st)) (\<lambda>_ md'. module_ok st md' \<and> md_functions md' = md_functions md)
    (\<lambda>_ md'. module_ok st md') md"
  using assms
proof (induction "is" arbitrary: md)
  case (Cons i "is")
  show ?case unfolding forM.simps wpM_then
  proof (rule wpM_mono [OF resolve_import_wp])
    fix md' assume "module_ok st md' \<and> md_functions md' = md_functions md"
    then show "wpM (forM is (resolve_import st)) (\<lambda>_ md'. module_ok st md' \<and> md_functions md' = md_functions md)
      (\<lambda>_ md'. module_ok st md') md'"
      using Cons.IH [of md'] Cons.prems(1) by simp
  qed (use Cons.prems in auto)
qed (simp add: wp)

lemma onModule_resolve:
  assumes l: "load_ok st0 j l" and "\<forall>i\<in>set is. import_ok (ld_store l) i"
  shows "wpM (onModule (forM is (resolve_import (ld_store l)))) (\<lambda>_ (r', l'). r' = r \<and> load_ok st0 j l')
    (\<lambda>_ (_, l'). load_failed st0 l') (r, l)"
proof -
  have "wpM (forM is (resolve_import (ld_store l))) (\<lambda>_ md'. load_ok st0 j (l\<lparr>ld_module := md'\<rparr>)) (\<lambda>_ _. True) (ld_module l)"
    by (rule wpM_mono [OF resolve_imports_wp [OF assms(2) load_ok_module [OF l]]])
      (use l in \<open>auto simp: load_ok_def load_failed_def\<close>)
  then show ?thesis
    using l unfolding onModule_def wpM_onState
    by (auto simp: wpM_def load_ok_def load_failed_def split: prod.splits result.splits)
qed

lemma keeps_import: "keeps st0 2 3 import_section_read"
  unfolding keeps_def
proof (intro allI impI)
  fix r l assume r: "reader_inv r" and l: "load_ok st0 2 l"
  let ?Q = "\<lambda>_ (r', l'). reader_inv r' \<and> load_ok st0 3 l'" and ?E = "\<lambda>_ (_, l'). load_failed st0 l'"
  have "wpM (thenM (module_field (\<lambda>md. md\<lparr>md_imports := is\<rparr>)) (onModule (forM is (resolve_import (ld_store l))))) ?Q ?E (r', l)"
    if r': "reader_inv r'" and "is": "\<forall>i\<in>set is. import_ok (ld_store l) i" for r' "is"
  proof -
    let ?l = "l\<lparr>ld_module := (ld_module l)\<lparr>md_imports := is\<rparr>\<rparr>"
    have "load_ok st0 3 ?l"
      using l "is" by (auto simp: load_ok_def load_failed_def module_ok_def module_types_ok_def)
    from onModule_resolve [OF this, of "is" r'] "is" r'
    have "wpM (onModule (forM is (resolve_import (ld_store l)))) ?Q ?E (r', ?l)"
      by (auto elim!: wpM_mono)
    then show ?thesis by (simp add: wpM_then module_field_def wpM_onState wp)
  qed
  then show "wpM import_section_read ?Q ?E (r, l)"
    unfolding import_section_read_def wpM_bind the_module_def the_store_def wpM_onState wpM_get
    using l r by (auto intro!: wpM_gives [OF gives_read_vec [OF gives_import_read [OF load_ok_store [OF l]]]] simp: load_ok_failed)
qed

section \<open>Function, table, memory and global sections\<close>

text \<open>A step from one state, for the sections that were given the module and the store before.\<close>

definition keeps_at :: "store \<Rightarrow> nat \<Rightarrow> loading \<Rightarrow> 'a lm \<Rightarrow> bool" where
  "keeps_at st0 k l f \<longleftrightarrow> (\<forall>r. reader_inv r \<longrightarrow>
     wpM f (\<lambda>_ (r', l'). reader_inv r' \<and> load_ok st0 k l') (\<lambda>_ (_, l'). load_failed st0 l') (r, l))"

lemma keeps_at: "keeps st0 j k f \<Longrightarrow> load_ok st0 j l \<Longrightarrow> keeps_at st0 k l f"
  by (simp add: keeps_def keeps_at_def)

lemma keeps_at_gives:
  "gives P f \<Longrightarrow> load_failed st0 l \<Longrightarrow> (\<And>a. P a \<Longrightarrow> keeps_at st0 k l (g a)) \<Longrightarrow> keeps_at st0 k l (bindM (onReader f) g)"
  unfolding keeps_at_def wpM_bind by (auto intro!: wpM_gives)

lemma keeps_at_read:
  "reader_safe f \<Longrightarrow> load_failed st0 l \<Longrightarrow> (\<And>a. keeps_at st0 k l (g a)) \<Longrightarrow> keeps_at st0 k l (bindM (onReader f) g)"
  by (rule keeps_at_gives [OF safe_gives])

lemma keeps_at_field: "load_ok st0 k (l\<lparr>ld_module := h (ld_module l)\<rparr>) \<Longrightarrow> keeps_at st0 k l (module_field h)"
  by (simp add: keeps_at_def module_field_def wpM_onState wp)

definition new_func_ok :: "wmodule \<Rightarrow> func \<Rightarrow> bool" where
  "new_func_ok md f \<longleftrightarrow> unat (fn_ty f) < length (md_types md) \<and> required_stack_words f \<le> 0xFFFF"

lemma gives_read_func: "gives (new_func_ok md) (read_func_section md)"
  unfolding read_func_section_def
proof (rule gives_read [OF reader_safe_ints(1)])
  fix idx :: u32
  let ?P = "\<lambda>_ :: func_type. unat idx < length (md_types md)"
  have "gives ?P (ok_or (get_opt (md_types md) (unat idx)) TypeIdxOutOfRange)"
    by (rule gives_ok_or) (simp add: get_opt_def split: if_splits)
  then show "gives (new_func_ok md)
     (bindM (ok_or (get_opt (md_types md) (unat idx)) TypeIdxOutOfRange) (\<lambda>ty.
     bindM (if 1 < length (ft_returns ty) then errM FunctionReturnsTooLarge
            else retM (case ft_returns ty of [] \<Rightarrow> None | t # _ \<Rightarrow> Some t)) (\<lambda>return_ty.
     if 0xFF < param_words (ft_params ty) then errM FunctionParametersTooLarge
     else retM \<lparr>fn_ty = idx, fn_stack_usage = 0, fn_local_size = 0,
       fn_param_size = word_of_nat (param_words (ft_params ty)), fn_return = return_ty, fn_locals = [],
       fn_expr = JumpTarget 0\<rparr>)))"
    by (rule gives_bind)
      (auto intro!: gives_read rsafe gives_ret gives_err simp: new_func_ok_def required_stack_words_def)
qed

lemma gives_functions:
  "gives (\<lambda>fs. length fs < 2 ^ 16 \<and> (\<forall>f\<in>set fs. new_func_ok md f)) (function_section_read md)"
  unfolding function_section_read_def
  by (rule gives_bind [OF gives_read_vec [OF gives_read_func]]) (auto intro!: gives_ret gives_err)

lemma keeps_functions:
  assumes "load_ok st0 3 l"
  shows "keeps_at st0 4 l (bindM (onReader (function_section_read (ld_module l))) (\<lambda>x. module_field (\<lambda>md. md\<lparr>md_functions := x\<rparr>)))"
  by (rule keeps_at_gives [OF gives_functions load_ok_failed [OF assms]], rule keeps_at_field)
    (use assms in \<open>auto simp: load_ok_def load_failed_def module_ok_def module_types_ok_def new_func_ok_def\<close>)

lemma load_ok_cells:
  assumes "load_ok st0 k l" "same_modules (ld_store l) st'"
  shows "load_ok st0 k (l\<lparr>ld_store := st'\<rparr>)"
  using assms same_modules_ok [OF assms(2)] same_modules_trans [OF _ assms(2)]
    module_ok_mono [OF same_modules_le [OF assms(2)]]
  by (auto simp: load_ok_def load_failed_def)

lemma load_failed_cells:
  assumes "load_failed st0 l" "same_modules (ld_store l) st'"
  shows "load_failed st0 (l\<lparr>ld_store := st'\<rparr>)"
  using assms same_modules_ok [OF assms(2)] same_modules_trans [OF _ assms(2)]
  by (auto simp: load_failed_def)

lemma new_table_wp:
  assumes l: "load_ok st0 k l"
  shows "wpM (new_table n) (\<lambda>a l'. load_ok st0 k l' \<and> ld_module l' = ld_module l \<and> a < length (st_tables (ld_store l'))) (\<lambda>_ _. False) l"
proof -
  let ?st = "(ld_store l)\<lparr>st_tables := st_tables (ld_store l) @ [\<lparr>cell_value = replicate n TE_Uninit, cell_extra = 0\<rparr>]\<rparr>"
  have "same_modules (ld_store l) ?st" by (simp add: same_modules_def)
  with load_ok_cells [OF l] show ?thesis by (simp add: new_table_def wpM_def Let_def)
qed

lemma new_memory_wp:
  assumes l: "load_ok st0 k l"
  shows "wpM (new_memory m) (\<lambda>a l'. load_ok st0 k l' \<and> ld_module l' = ld_module l \<and> a < length (st_memories (ld_store l'))) (\<lambda>_ _. False) l"
proof -
  let ?st = "(ld_store l)\<lparr>st_memories := st_memories (ld_store l) @ [\<lparr>cell_value = m, cell_extra = 0\<rparr>]\<rparr>"
  have "same_modules (ld_store l) ?st" by (simp add: same_modules_def)
  with load_ok_cells [OF l] show ?thesis by (simp add: new_memory_def wpM_def Let_def)
qed

text \<open>A step whose result is a value the module may hold.\<close>

definition makes :: "store \<Rightarrow> nat \<Rightarrow> (store \<Rightarrow> 'a \<Rightarrow> bool) \<Rightarrow> 'a lm \<Rightarrow> bool" where
  "makes st0 k P f \<longleftrightarrow> (\<forall>r l. reader_inv r \<longrightarrow> load_ok st0 k l \<longrightarrow>
     wpM f (\<lambda>a (r', l'). reader_inv r' \<and> load_ok st0 k l' \<and> P (ld_store l') a) (\<lambda>_ (_, l'). load_failed st0 l') (r, l))"

lemma makes_ret: "(\<And>st. P st a) \<Longrightarrow> makes st0 k P (retM a)"
  by (simp add: makes_def wp)

lemma makes_err: "makes st0 k P (errM e)"
  by (simp add: makes_def wp load_ok_failed)

lemma makes_read: "reader_safe f \<Longrightarrow> (\<And>a. makes st0 k P (g a)) \<Longrightarrow> makes st0 k P (bindM (onReader f) g)"
  unfolding makes_def wpM_bind by (auto intro!: wpM_reader_safe simp: load_ok_failed)

lemma makes_then: "reader_safe f \<Longrightarrow> makes st0 k P g \<Longrightarrow> makes st0 k P (thenM (onReader f) g)"
  unfolding thenM_def by (rule makes_read)

lemma makes_if: "makes st0 k P f \<Longrightarrow> makes st0 k P g \<Longrightarrow> makes st0 k P (if b then f else g)"
  by simp

lemma makes_module: "(\<And>md. makes st0 k P (g md)) \<Longrightarrow> makes st0 k P (bindM the_module g)"
  by (simp add: makes_def the_module_def wp wpM_onState)

lemma makes_new:
  assumes "\<And>l. load_ok st0 k l \<Longrightarrow> wpM f (\<lambda>a l'. load_ok st0 k l' \<and> ld_module l' = ld_module l \<and> P (ld_store l') (h a)) (\<lambda>_ _. False) l"
  shows "makes st0 k P (bindM (onState f) (\<lambda>a. retM (h a)))"
  using assms unfolding makes_def wpM_bind wpM_onState wpM_ret by (blast intro: wpM_mono)

definition maybe_ok :: "(store \<Rightarrow> 'a \<Rightarrow> bool) \<Rightarrow> store \<Rightarrow> 'a option \<Rightarrow> bool" where
  "maybe_ok P st x \<longleftrightarrow> (\<forall>a. x = Some a \<longrightarrow> P st a)"

lemma makes_table: "makes st0 k (maybe_ok table_ok) table_section_read"
  unfolding table_section_read_def
  by (intro makes_read makes_if makes_then makes_ret makes_err makes_new rsafe)
    (auto simp: maybe_ok_def elim!: wpM_mono dest!: new_table_wp)

lemma guest_memory_no_panic: "guest_memory al ty \<noteq> Panic"
proof -
  have "memory_new al ty \<noteq> Panic" by (auto simp: memory_new_def Let_def split: option.splits)
  then show ?thesis by (cases "memory_new al ty") (simp_all add: guest_memory_def)
qed

lemma makes_memory: "makes st0 k (maybe_ok memory_ok) (memory_section_read al)"
  unfolding memory_section_read_def
  by (intro makes_read makes_if makes_then makes_ret makes_err makes_new makes_module rsafe guest_memory_no_panic)
    (auto simp: maybe_ok_def elim!: wpM_mono dest!: new_memory_wp)

lemma keeps_makes:
  assumes "makes st0 k P f"
    and "\<And>l a. load_ok st0 k l \<Longrightarrow> P (ld_store l) a \<Longrightarrow> load_ok st0 k (l\<lparr>ld_module := h a (ld_module l)\<rparr>)"
  shows "keeps st0 k k (bindM f (\<lambda>a. module_field (h a)))"
  unfolding keeps_def wpM_bind module_field_def wpM_onState wpM_modify
proof (intro allI impI)
  fix r l assume "reader_inv r" "load_ok st0 k l"
  then have "wpM f (\<lambda>a (r', l'). reader_inv r' \<and> load_ok st0 k l' \<and> P (ld_store l') a) (\<lambda>_ (_, l'). load_failed st0 l') (r, l)"
    using assms(1) by (simp add: makes_def)
  then show "wpM f (\<lambda>a. wpM (onState (modifyM (\<lambda>l. l\<lparr>ld_module := h a (ld_module l)\<rparr>)))
      (\<lambda>_ (r', l'). reader_inv r' \<and> load_ok st0 k l') (\<lambda>_ (_, l'). load_failed st0 l')) (\<lambda>_ (_, l'). load_failed st0 l') (r, l)"
    by (rule wpM_mono) (use assms(2) in \<open>auto simp: wpM_onState wp\<close>)
qed

lemma keeps_table: "keeps st0 k k (bindM table_section_read (\<lambda>x. module_field (\<lambda>md. md\<lparr>md_table := x\<rparr>)))"
  by (rule keeps_makes [OF makes_table]) (auto simp: load_ok_def load_failed_def module_ok_def module_types_ok_def maybe_ok_def)

lemma keeps_memory: "keeps st0 k k (bindM (memory_section_read al) (\<lambda>x. module_field (\<lambda>md. md\<lparr>md_memory := x\<rparr>)))"
  by (rule keeps_makes [OF makes_memory]) (auto simp: load_ok_def load_failed_def module_ok_def module_types_ok_def maybe_ok_def)

lemma reader_safe_global_read [rsafe]: "reader_safe (global_read h st md)"
  unfolding global_read_def by (intro rsafe) (auto simp: value_raw_def intro!: rsafe split: wasm_value.split)

lemma gives_globals: "gives (\<lambda>gs. length gs < 2 ^ 16) (global_section_read h st md)"
  unfolding global_section_read_def by (rule gives_read, intro rsafe) (auto intro!: gives_ret gives_err)

lemma keeps_globals: "keeps st0 k k (bindM (onReader (global_section_read h st md)) (\<lambda>x. module_field (\<lambda>md. md\<lparr>md_globals := x\<rparr>)))"
  by (rule keeps_gives [OF gives_globals], rule keeps_field)
    (auto simp: load_ok_def load_failed_def module_ok_def module_types_ok_def)

section \<open>Exports and the start function\<close>

lemma reader_safe_export_read [rsafe]: "reader_safe (export_read md)"
proof -
  have "check_export md d \<noteq> Panic" for d by (simp add: check_export_def split: export_desc.split)
  then show ?thesis unfolding export_read_def export_desc_read_def by (intro rsafe)
qed

lemma reader_safe_exports [rsafe]: "reader_safe (read_exports n md out)"
  by (induction n arbitrary: out) (auto intro!: rsafe)

lemma reader_safe_export_section [rsafe]: "reader_safe (export_section_read md)"
  unfolding export_section_read_def by (intro rsafe)

lemma keeps_exports: "keeps st0 k k (bindM (onReader (export_section_read md)) (\<lambda>x. module_field (\<lambda>md. md\<lparr>md_exports := x\<rparr>)))"
  by (rule keeps_read, intro rsafe, rule keeps_field) (auto simp: load_ok_def load_failed_def module_ok_def module_types_ok_def)

lemma check_start_no_panic:
  assumes "module_ok st md" "get_func_ref md x = Some r"
  shows "check_start st md r \<noteq> Panic"
proof (cases r)
  case (Ref_Module i)
  then have "func_sig md i \<noteq> (Panic :: (func_type, validation_error) result)"
    using module_func_ref [OF assms] assms(1) by (intro func_sig_ok) (simp_all add: module_ok_def)
  then show ?thesis using Ref_Module by (cases "func_sig md i :: (func_type, validation_error) result") (simp_all add: check_start_def)
next
  case (Ref_Extern m i)
  then have ok: "ref_ok st (Ref_Extern m i)" using module_func_ref [OF assms] by simp
  then have "func_sig (st_modules st ! unat m) i \<noteq> (Panic :: (func_type, validation_error) result)"
    by (intro func_sig_ok) simp_all
  then show ?thesis using Ref_Extern ok
    by (cases "func_sig (st_modules st ! unat m) i :: (func_type, validation_error) result") (simp_all add: check_start_def)
qed (simp add: check_start_def)

lemma reader_safe_start: 
  assumes "module_ok st md" shows "reader_safe (start_section_read st md)"
  unfolding start_section_read_def
proof (rule reader_safe_bind [OF reader_safe_ints(1)])
  fix x :: u32
  have "gives (\<lambda>r. check_start st md r \<noteq> Panic) (ok_or (get_func_ref md x) FunctionIdxOutOfRange)"
    by (rule gives_ok_or) (rule check_start_no_panic [OF assms])
  then have "gives (\<lambda>_. True) (bindM (ok_or (get_func_ref md x) FunctionIdxOutOfRange)
      (\<lambda>r. thenM (liftR (check_start st md r)) (retM r)))"
    by (rule gives_bind) (auto intro!: gives_then gives_ret rsafe)
  then show "reader_safe (bindM (ok_or (get_func_ref md x) FunctionIdxOutOfRange)
      (\<lambda>r. thenM (liftR (check_start st md r)) (retM r)))"
    by (rule gives_safe)
qed

lemma keeps_start:
  assumes "load_ok st0 k l"
  shows "keeps_at st0 k l (bindM (onReader (start_section_read (ld_store l) (ld_module l))) (\<lambda>x. module_field (\<lambda>md. md\<lparr>md_start := Some x\<rparr>)))"
  by (rule keeps_at_read [OF reader_safe_start [OF load_ok_module [OF assms]] load_ok_failed [OF assms]], rule keeps_at_field)
    (use assms in \<open>auto simp: load_ok_def load_failed_def module_ok_def module_types_ok_def\<close>)

section \<open>Element and data segments\<close>

lemma table_addr_ok:
  assumes "store_ok st" "module_ok st md"
  shows "case table_addr md st of Ok x \<Rightarrow> (\<forall>a. x = Some a \<longrightarrow> a < length (st_tables st)) | Err e \<Rightarrow> False | Panic \<Rightarrow> False"
proof (cases "md_table md")
  case (Some t)
  then have ok: "table_ok st t" using assms(2) by (simp add: module_ok_def)
  show ?thesis
  proof (cases t)
    case (TK_ImportHost h i)
    then have i: "unat h < length (st_host_modules st)" "unat i < length (hmod_table (st_host_modules st ! unat h))"
      using ok by simp_all
    then have "ht_addr (hmod_table (st_host_modules st ! unat h) ! unat i) < length (st_tables st)"
      using store_host_ok [OF assms(1) i(1)] by (simp add: host_ok_def)
    with i Some TK_ImportHost show ?thesis by (simp add: table_addr_def)
  qed (use Some ok in \<open>auto simp: table_addr_def\<close>)
qed (simp add: table_addr_def)

lemma memory_addr_ok:
  assumes "store_ok st" "module_ok st md"
  shows "case memory_addr md st of Ok x \<Rightarrow> (\<forall>a. x = Some a \<longrightarrow> a < length (st_memories st)) | Err e \<Rightarrow> False | Panic \<Rightarrow> False"
proof (cases "md_memory md")
  case (Some t)
  then have ok: "memory_ok st t" using assms(2) by (simp add: module_ok_def)
  show ?thesis
  proof (cases t)
    case (MK_ImportHost h i)
    then have i: "unat h < length (st_host_modules st)" "unat i < length (hmod_memory (st_host_modules st ! unat h))"
      using ok by simp_all
    then have "hm_addr (hmod_memory (st_host_modules st ! unat h) ! unat i) < length (st_memories st)"
      using store_host_ok [OF assms(1) i(1)] by (simp add: host_ok_def)
    with i Some MK_ImportHost show ?thesis by (simp add: memory_addr_def)
  qed (use Some ok in \<open>auto simp: memory_addr_def\<close>)
qed (simp add: memory_addr_def)

lemma get_module_table_wp:
  assumes "load_ok st0 k l"
  shows "wpM get_module_table (\<lambda>t l'. l' = l \<and> (\<forall>a len. t = Some (a, len) \<longrightarrow> a < length (st_tables (ld_store l)))) (\<lambda>_ l'. l' = l) l"
  using table_addr_ok [OF load_ok_store [OF assms] load_ok_module [OF assms]]
  by (auto simp: get_module_table_def module_table_def wp bindR_def split: result.splits option.splits)

lemma put_entry_ok: "load_ok st0 k l \<Longrightarrow> load_ok st0 k (put_entry a j e l)"
  unfolding put_entry_def Let_def by (erule load_ok_cells) (simp add: same_modules_def)

lemma keeps_bind_state:
  assumes "\<And>l. load_ok st0 j l \<Longrightarrow> wpM f (\<lambda>a l'. load_ok st0 j l' \<and> P a) (\<lambda>_. load_failed st0) l"
    and "\<And>a. P a \<Longrightarrow> keeps st0 j k (g a)"
  shows "keeps st0 j k (bindM (onState f) g)"
  unfolding keeps_def wpM_bind wpM_onState
proof (intro allI impI)
  fix r l assume "reader_inv r" "load_ok st0 j l"
  then show "wpM f (\<lambda>a l'. wpM (g a) (\<lambda>_ (r', l'). reader_inv r' \<and> load_ok st0 k l') (\<lambda>_ (_, l'). load_failed st0 l') (r, l'))
     (\<lambda>e l'. case (r, l') of (_, l') \<Rightarrow> load_failed st0 l') l"
    by (intro wpM_mono [OF assms(1)]) (auto intro: keepsD [OF assms(2)])
qed

lemma keeps_table_look:
  assumes "keeps st0 k k f" "\<And>a len. keeps st0 k k (g a len)"
  shows "keeps st0 k k (bindM (onState get_module_table) (\<lambda>t. case t of None \<Rightarrow> f | Some (a, len) \<Rightarrow> g a len))"
proof (rule keeps_bind_state [where P = "\<lambda>_. True"])
  fix l assume l: "load_ok st0 k l"
  show "wpM get_module_table (\<lambda>_ l'. load_ok st0 k l' \<and> True) (\<lambda>_. load_failed st0) l"
    by (rule wpM_mono [OF get_module_table_wp [OF l]]) (use l in \<open>auto simp: load_ok_failed\<close>)
qed (use assms in \<open>auto split: option.split\<close>)

lemma keeps_module: "(\<And>md. keeps st0 j k (g md)) \<Longrightarrow> keeps st0 j k (bindM the_module g)"
  by (simp add: keeps_def the_module_def wp wpM_onState)

lemma keeps_store: "(\<And>st. keeps st0 j k (g st)) \<Longrightarrow> keeps st0 j k (bindM the_store g)"
  by (simp add: keeps_def the_store_def wp wpM_onState)

lemma keeps_ok_or: "(\<And>a. keeps st0 j k (g a)) \<Longrightarrow> keeps st0 j k (bindM (ok_or x e) g)"
  by (cases x) (simp_all add: keeps_def wp load_ok_failed)

lemma keeps_write_elements: "keeps st0 k k (write_elements n j)"
proof (induction n arbitrary: j)
  case (Suc n)
  have put: "keeps st0 k k (onState (modifyM (put_entry a j e)))" for a j e
    by (rule keeps_state) (simp add: wp put_entry_ok)
  show ?case unfolding write_elements.simps
    by (intro keeps_read keeps_module keeps_ok_or keeps_store keeps_table_look keeps_if keeps_then [OF put] keeps_err Suc.IH rsafe)
qed (simp add: keeps_ret)

lemma keeps_element: "keeps st0 k k (element_read h)"
proof -
  have bounds: "keeps st0 k k (bindM (onState get_module_table) (\<lambda>t. case t of
        None \<Rightarrow> errM TableNotDefined
      | Some (a, len) \<Rightarrow> if len < unat off then errM InvalidElementOffset
          else if len < unat off + unat n then errM InvalidElementOutOfBounds else retM ()))" for off n :: u32
    by (intro keeps_table_look keeps_if keeps_err keeps_ret order_refl)
  show ?thesis unfolding element_read_def
    by (intro keeps_read keeps_if keeps_err keeps_module keeps_store rsafe)
      (auto split: wasm_value.split intro!: keeps_read keeps_then [OF bounds] keeps_write_elements keeps_err rsafe)
qed

lemma keeps_elements: "keeps st0 k k (element_section_read h)"
  unfolding element_section_read_def by (intro keeps_read keeps_times keeps_element rsafe)

lemma keeps_rebase:
  assumes "load_ok st0 j l" "keeps (ld_store l) j k f"
  shows "keeps_at st0 k l f"
  unfolding keeps_at_def
proof (intro allI impI)
  fix r assume r: "reader_inv r"
  have l: "load_ok (ld_store l) j l" using assms(1) by (auto simp: load_ok_def load_failed_def)
  have st: "same_modules st0 (ld_store l)" using assms(1) by (simp add: load_ok_def load_failed_def)
  show "wpM f (\<lambda>_ (r', l'). reader_inv r' \<and> load_ok st0 k l') (\<lambda>_ (_, l'). load_failed st0 l') (r, l)"
    by (rule wpM_mono [OF keepsD [OF assms(2) r l]])
      (use same_modules_trans [OF st] in \<open>auto simp: load_ok_def load_failed_def\<close>)
qed

lemma keeps_memory_op:
  assumes "a < length (st_memories st1)" "\<And>m. f m \<noteq> Panic"
  shows "keeps st1 k k (onState (on_memory a f))"
proof (rule keeps_state)
  fix l assume l: "load_ok st1 k l"
  let ?ms = "st_memories (ld_store l)"
  have "a < length ?ms" using l assms(1) by (auto simp: load_ok_def load_failed_def same_modules_def)
  moreover have "same_modules (ld_store l) ((ld_store l)\<lparr>st_memories := ?ms[a := c]\<rparr>)" for c
    by (simp add: same_modules_def)
  ultimately show "wpM (on_memory a f) (\<lambda>_. load_ok st1 k) (\<lambda>_. load_failed st1) l"
    using l assms(2) [of "cell_value (?ms ! a)"] load_ok_cells [OF l] load_ok_failed [OF l]
    by (auto simp: on_memory_def wpM_def Let_def split: result.splits)
qed

lemma memory_ops_no_panic:
  "store_scalar n m ea i \<noteq> Panic" "memory_store m ea data \<noteq> Panic" "vmem (effective_address b off) \<noteq> Panic"
  by (simp_all add: store_scalar_def memory_store_def check_in_bounds_def vmem_def effective_address_def Let_def)

lemma keeps_write_data:
  assumes "a < length (st_memories st1)"
  shows "keeps st1 k k (write_data a off n i)"
proof (induction n arbitrary: i)
  case (Suc n)
  have put: "keeps st1 k k (onState (on_memory a (\<lambda>m. store_u8 m ea b)))" for ea b
    by (rule keeps_memory_op [OF assms]) (simp add: store_u8_def memory_ops_no_panic)
  show ?case unfolding write_data.simps
    by (intro keeps_read keeps_then [OF put] Suc.IH rsafe memory_ops_no_panic)
qed (simp add: keeps_ret)

lemma keeps_data:
  assumes "a < length (st_memories st1)"
  shows "keeps st1 k k (data_read h a)"
proof -
  have empty: "keeps st1 k k (onState (on_memory a (\<lambda>m. memory_store m ea [])))" for ea
    by (rule keeps_memory_op [OF assms]) (rule memory_ops_no_panic)
  have defined: "check_memory_defined md \<noteq> Panic" for md by (simp add: check_memory_defined_def)
  show ?thesis unfolding data_read_def thenM_def [of "onReader (liftR (check_memory_defined _))"]
    by (intro keeps_read keeps_if keeps_err keeps_module keeps_store rsafe defined)
      (auto split: wasm_value.split intro!: keeps_read keeps_then [OF keeps_write_data [OF assms]] empty keeps_ret keeps_err rsafe)
qed

lemma keeps_data_section:
  assumes l: "load_ok st0 k l"
  shows "keeps_at st0 k l (data_section_read h)"
  unfolding data_section_read_def
proof (rule keeps_at_read [OF reader_safe_ints(1) load_ok_failed [OF l]])
  fix len :: u32
  have inner: "keeps_at st0 k l (bindM (onReader (liftR (memory_addr (ld_module l) (ld_store l)))) (\<lambda>x. case x of
       None \<Rightarrow> errM MemoryNotDefined | Some a \<Rightarrow> timesM (unat len) (data_read h a)))"
  proof (rule keeps_at_gives [OF _ load_ok_failed [OF l]])
    let ?P = "\<lambda>x. \<forall>a. x = Some a \<longrightarrow> a < length (st_memories (ld_store l))"
    show "gives ?P (liftR (memory_addr (ld_module l) (ld_store l)))"
      using memory_addr_ok [OF load_ok_store [OF l] load_ok_module [OF l]]
      by (intro gives_lift) (auto split: result.splits)
    fix x assume x: "?P x"
    show "keeps_at st0 k l (case x of None \<Rightarrow> errM MemoryNotDefined | Some a \<Rightarrow> timesM (unat len) (data_read h a))"
      using x by (cases x) (auto intro!: keeps_rebase [OF l] keeps_err keeps_times keeps_data)
  qed
  then have "keeps_at st0 k l (bindM the_module (\<lambda>md. bindM the_store (\<lambda>st.
     bindM (onReader (liftR (memory_addr md st))) (\<lambda>x. case x of
       None \<Rightarrow> errM MemoryNotDefined | Some a \<Rightarrow> timesM (unat len) (data_read h a)))))"
    by (simp add: keeps_at_def the_module_def the_store_def wp wpM_onState)
  then show "keeps_at st0 k l (if len = 0 then retM () else bindM the_module (\<lambda>md. bindM the_store (\<lambda>st.
     bindM (onReader (liftR (memory_addr md st))) (\<lambda>x. case x of
       None \<Rightarrow> errM MemoryNotDefined | Some a \<Rightarrow> timesM (unat len) (data_read h a)))))"
    by (simp add: keeps_at [OF keeps_ret [OF order_refl] l])
qed

section \<open>Function bodies\<close>

lemma module_env_ok:
  assumes "module_ok st md" "ms < 2 ^ 16"
  shows "env_ok \<lparr>be_store = st, be_module = md, be_func = f, be_max_frames = mf, be_max_stack = ms\<rparr>"
  using assms func_import_ok global_import_ok unfolding env_ok_def module_ok_def by auto

lemma module_ok_function:
  assumes "module_ok st md" "only_function i md md'" "i < length (md_functions md)"
    and "required_stack_words (md_functions md' ! i) \<le> 0xFFFF"
  shows "module_ok st md'" "length (md_functions md') = length (md_functions md)"
proof -
  obtain g where g: "md' = md\<lparr>md_functions := (md_functions md)[i := g]\<rparr>" "fn_ty g = fn_ty (md_functions md ! i)"
    using assms(2) by (auto simp: only_function_def)
  have "unat (fn_ty f) < length (md_types md) \<and> required_stack_words f \<le> 0xFFFF" if "f \<in> set ((md_functions md)[i := g])" for f
    using that g assms(1,3,4) set_update_subset_insert [of "md_functions md" i g] nth_mem [OF assms(3)]
    by (auto simp: module_ok_def module_types_ok_def)
  then show "module_ok st md'" "length (md_functions md') = length (md_functions md)"
    using assms(1) by (simp_all add: g(1) module_ok_def module_types_ok_def)
qed

lemma function_code_wp:
  assumes "0 < mf" "ms < 2 ^ 16" "reader_inv r" and l: "load_ok st0 k l" and i: "i < length (md_functions (ld_module l))"
  shows "wpM (focus_code (read_function_code mf ms (ld_store l) i))
    (\<lambda>_ (r', l'). reader_inv r' \<and> load_ok st0 k l' \<and> ld_store l' = ld_store l \<and>
       length (md_functions (ld_module l')) = length (md_functions (ld_module l)))
    (\<lambda>_ (_, l'). load_failed st0 l') (r, l)"
proof -
  have cd: "code_inv (ld_code l)" using l by (simp add: load_ok_def load_failed_def)
  note run = read_function_code_ok [OF module_env_ok [OF load_ok_module [OF l] assms(2)] assms(1) cd assms(3) i]
  show ?thesis unfolding focus_code_def wpM_focus
    by (rule wpM_mono [OF run])
      (use l module_ok_function [OF load_ok_module [OF l] _ i] in \<open>auto simp: load_ok_def load_failed_def\<close>)
qed

lemma function_codes_wp:
  assumes "0 < mf" "ms < 2 ^ 16" "reader_inv r" "load_ok st0 k l" "ld_store l = st"
    and "\<forall>i\<in>set is. i < length (md_functions (ld_module l))"
  shows "wpM (forM is (\<lambda>i. focus_code (read_function_code mf ms st i)))
    (\<lambda>_ (r', l'). reader_inv r' \<and> load_ok st0 k l') (\<lambda>_ (_, l'). load_failed st0 l') (r, l)"
  using assms(3-)
proof (induction "is" arbitrary: r l)
  case (Cons i "is")
  have i: "i < length (md_functions (ld_module l))" using Cons.prems by simp
  show ?case unfolding forM.simps wpM_then
    by (rule wpM_mono [OF function_code_wp [OF assms(1,2) Cons.prems(1,2) i, unfolded Cons.prems(3)]])
      (use Cons.prems Cons.IH in \<open>simp_all add: split_paired_all\<close>)
qed (simp add: wp)

lemma keeps_code:
  assumes "0 < mf" "ms < 2 ^ 16" and l: "load_ok st0 k l"
  shows "keeps_at st0 k l (code_section_read mf ms)"
  unfolding code_section_read_def
  by (rule keeps_at_read [OF reader_safe_ints(1) load_ok_failed [OF l]])
    (use l in \<open>auto simp: keeps_at_def the_module_def the_store_def wp wpM_onState load_ok_failed
      intro!: function_codes_wp [OF assms(1,2)]\<close>)

section \<open>The module\<close>

lemma keeps_at_mono:
  assumes "keeps_at st0 j l f" "j \<le> k"
  shows "keeps_at st0 k l f"
  unfolding keeps_at_def
proof (intro allI impI)
  fix r assume "reader_inv r"
  then have "wpM f (\<lambda>_ (r', l'). reader_inv r' \<and> load_ok st0 j l') (\<lambda>_ (_, l'). load_failed st0 l') (r, l)"
    using assms(1) by (simp add: keeps_at_def)
  then show "wpM f (\<lambda>_ (r', l'). reader_inv r' \<and> load_ok st0 k l') (\<lambda>_ (_, l'). load_failed st0 l') (r, l)"
    by (rule wpM_mono) (use assms(2) in \<open>auto intro: load_ok_mono\<close>)
qed

lemma keeps_at_inspect:
  "keeps_at st0 k l (g (ld_module l) (ld_store l)) \<Longrightarrow> keeps_at st0 k l (bindM the_module (\<lambda>md. bindM the_store (g md)))"
  by (simp add: keeps_at_def the_module_def the_store_def wp wpM_onState)

lemma keeps_read_section:
  assumes p: "0 < lp_frames p" "lp_stack p < 2 ^ 16"
    and s: "s \<noteq> Sec_N" "s \<noteq> Sec_Custom" and l: "load_ok st0 (section_rank s) l"
  shows "keeps_at st0 (Suc (section_rank s)) l (read_section p handler sz s)"
  unfolding read_section_def
proof (rule keeps_at_inspect)
  have *: "keeps_at st0 (Suc (section_rank s)) l f" if "keeps st0 (section_rank s) (section_rank s) f" for f :: "unit lm"
    by (rule keeps_at_mono [OF keeps_at [OF that l]]) simp
  note rank = keeps_at_mono [of st0 "section_rank s" l _ "Suc (section_rank s)"]
  show "keeps_at st0 (Suc (section_rank s)) l (case s of
     Sec_Custom \<Rightarrow> custom_section_read handler sz
   | Sec_Type \<Rightarrow> bindM (onReader (read_vec func_type_read)) (\<lambda>x. module_field (\<lambda>md. md\<lparr>md_types := x\<rparr>))
   | Sec_Import \<Rightarrow> import_section_read
   | Sec_Function \<Rightarrow> bindM (onReader (function_section_read (ld_module l))) (\<lambda>x. module_field (\<lambda>md. md\<lparr>md_functions := x\<rparr>))
   | Sec_Table \<Rightarrow> if md_table (ld_module l) \<noteq> None then errM MultipleTables
       else bindM table_section_read (\<lambda>x. module_field (\<lambda>md. md\<lparr>md_table := x\<rparr>))
   | Sec_Memory \<Rightarrow> bindM (memory_section_read (lp_alloc p)) (\<lambda>x. module_field (\<lambda>md. md\<lparr>md_memory := x\<rparr>))
   | Sec_Global \<Rightarrow> bindM (onReader (global_section_read (lp_globals p) (ld_store l) (ld_module l))) (\<lambda>x. module_field (\<lambda>md. md\<lparr>md_globals := x\<rparr>))
   | Sec_Export \<Rightarrow> bindM (onReader (export_section_read (ld_module l))) (\<lambda>x. module_field (\<lambda>md. md\<lparr>md_exports := x\<rparr>))
   | Sec_Start \<Rightarrow> bindM (onReader (start_section_read (ld_store l) (ld_module l))) (\<lambda>x. module_field (\<lambda>md. md\<lparr>md_start := Some x\<rparr>))
   | Sec_Element \<Rightarrow> element_section_read (lp_globals p)
   | Sec_Code \<Rightarrow> code_section_read (lp_frames p) (lp_stack p)
   | Sec_Data \<Rightarrow> data_section_read (lp_globals p)
   | Sec_N \<Rightarrow> panicM)"
  proof (cases s)
    case Sec_Type
    then show ?thesis using keeps_at [OF keeps_types, of st0 l] l by (simp add: numeral_2_eq_2)
  next
    case Sec_Import
    then show ?thesis using keeps_at [OF keeps_import, of st0 l] l by simp
  next
    case Sec_Function
    then show ?thesis using keeps_functions [of st0 l] l by simp
  next
    case Sec_Code
    then show ?thesis using rank [OF keeps_code [OF p]] l by simp
  next
    case Sec_Data
    then show ?thesis using rank [OF keeps_data_section] l by simp
  next
    case Sec_Start
    then show ?thesis using rank [OF keeps_start] l by simp
  qed (use s * in \<open>auto intro!: keeps_if keeps_err keeps_table keeps_memory keeps_globals keeps_exports keeps_elements\<close>)
qed

lemma wpM_try: "wpM (tryM f) Q E s = wpM f (\<lambda>a. Q (Ok a)) (\<lambda>e. Q (Err e)) s"
  by (auto simp: wpM_def tryM_def split: prod.splits result.splits)

lemma wpM_sec: "wpM (sec f) Q E s = wpM f Q (\<lambda>e. E (section_error_new e)) s"
  by (simp add: sec_def wpM_map_err)

lemma gives_section: "gives (\<lambda>s. s \<noteq> Sec_N) section_read"
  unfolding section_read_def
  by (intro gives_read gives_lift rsafe) (auto simp: section_convert_def split: if_splits)

text \<open>The sections come in strictly increasing order of rank, custom sections anywhere.\<close>

lemma order_step_no_panic: "order_step prev s \<noteq> Panic"
  by (simp add: order_step_def)

lemma section_rank_eq: "section_rank s = section_rank t \<longleftrightarrow> s = t"
  by (cases s; cases t) simp_all

lemma order_step_rank:
  assumes "order_step prev s = Ok prev'" "s \<noteq> Sec_Custom"
  shows "prev' = s" "section_rank prev < section_rank s"
proof -
  show "prev' = s" using assms by (auto simp: order_step_def split: if_splits)
  have "prev \<noteq> s" "\<not> section_rank s < section_rank prev \<or> prev = Sec_Custom"
    using assms by (auto simp: order_step_def split: if_splits)
  moreover have "0 < section_rank s" using assms(2) by (cases s) simp_all
  ultimately show "section_rank prev < section_rank s" using section_rank_eq [of prev s] by auto
qed

lemma section_body_wp:
  assumes p: "0 < lp_frames p" "lp_stack p < 2 ^ 16" and r: "reader_inv r"
    and s: "s \<noteq> Sec_N" "order_step prev s = Ok prev'" and l: "load_ok st0 (Suc (section_rank prev)) l"
  shows "wpM (with_limit section_error_new n (map_err (with_section s) (read_section p default_custom n' s)))
    (\<lambda>_ (r', l'). reader_inv r' \<and> load_ok st0 (Suc (section_rank prev')) l' \<and> rd_full_offset r \<le> rd_full_offset r')
    (\<lambda>_ (_, l'). load_failed st0 l') (r, l)"
proof -
  have body: "keeps_at st0 (Suc (section_rank prev')) l (read_section p default_custom n' s)"
  proof (cases "s = Sec_Custom")
    case True
    then have "prev' = prev" using s(2) by (simp add: order_step_def)
    with True l show ?thesis
      unfolding read_section_def
      by (auto intro!: keeps_at_inspect keeps_at [OF keeps_custom] rsafe)
  next
    case False
    note rank = order_step_rank [OF s(2) False]
    have "load_ok st0 (section_rank s) l" by (rule load_ok_mono [OF l]) (use rank in simp)
    from keeps_read_section [OF p s(1) False this] show ?thesis by (simp add: rank)
  qed
  have "wpM (with_limit section_error_new n (map_err (with_section s) (read_section p default_custom n' s)))
    (\<lambda>_ (r', l'). reader_inv r' \<and> load_ok st0 (Suc (section_rank prev')) l') (\<lambda>_ (_, l'). load_failed st0 l') (r, l)"
    using body r l load_ok_failed [OF l]
    by (intro wpM_with_limit) (auto simp: keeps_at_def wpM_map_err reader_inv_limit elim!: wpM_mono)
  from wpM_bounded [OF _ this] have "wpM (with_limit section_error_new n (map_err (with_section s) (read_section p default_custom n' s)))
    (\<lambda>a q. (case q of (r', l') \<Rightarrow> reader_inv r' \<and> load_ok st0 (Suc (section_rank prev')) l') \<and> within_limit (fst (r, l)) (fst q))
    (\<lambda>_ (_, l'). load_failed st0 l') (r, l)"
    by (blast intro: bounded_with_limit bounded_map_err bounded_read_section reader_bounded_default)
  then show ?thesis by (rule wpM_mono) (auto simp: within_limit_def)
qed

lemma one_section_wp:
  assumes p: "0 < lp_frames p" "lp_stack p < 2 ^ 16" and r: "reader_inv r"
    and s: "s \<noteq> Sec_N" and l: "load_ok st0 (Suc (section_rank prev)) l"
  shows "wpM (one_section p default_custom prev seen s)
    (\<lambda>(prev', _) (r', l'). reader_inv r' \<and> load_ok st0 (Suc (section_rank prev')) l')
    (\<lambda>_ (_, l'). load_failed st0 l') (r, l)"
proof (cases "order_step prev s")
  case (Ok prev')
  note body = section_body_wp [OF p _ s Ok l]
  have "wpM (bindM (sec (onReader read_u32)) (\<lambda>sz. bindM (sec (onReader reader_offset)) (\<lambda>start.
     thenM (with_limit section_error_new (unat sz) (map_err (with_section s) (read_section p default_custom (unat sz) s)))
     (bindM (sec (onReader reader_offset)) (\<lambda>fin. thenM (assertM (start \<le> fin))
      (if fin - start \<noteq> unat sz then errM (with_section s MalformedSectionSize)
       else retM (prev', seen \<or> s = Sec_Code)))))))
    (\<lambda>(prev', _) (r', l'). reader_inv r' \<and> load_ok st0 (Suc (section_rank prev')) l')
    (\<lambda>_ (_, l'). load_failed st0 l') (r, l)"
    unfolding wpM_bind wpM_sec wpM_then wpM_offset
    by (rule wpM_reader_safe [OF reader_safe_ints(1) r])
      (use l in \<open>auto simp: wp wpM_sec wpM_offset load_ok_failed intro!: wpM_mono [OF body]\<close>)
  then show ?thesis using Ok by (simp add: one_section_def wp wpM_sec wpM_onReader)
qed (use l in \<open>simp_all add: one_section_def wp wpM_sec wpM_onReader load_ok_failed order_step_no_panic\<close>)

definition round_ok :: "store \<Rightarrow> (section_kind \<times> bool) option \<Rightarrow> reader \<times> loading \<Rightarrow> bool" where
  "round_ok st0 x s \<longleftrightarrow> (case x of
     None \<Rightarrow> load_ok st0 13 (snd s)
   | Some (prev, _) \<Rightarrow> reader_inv (fst s) \<and> load_ok st0 (Suc (section_rank prev)) (snd s))"

lemma next_section_wp:
  assumes p: "0 < lp_frames p" "lp_stack p < 2 ^ 16" and r: "reader_inv r"
    and l: "load_ok st0 (Suc (section_rank prev)) l"
  shows "wpM (next_section p default_custom prev seen) (round_ok st0) (\<lambda>_ (_, l'). load_failed st0 l') (r, l)"
  unfolding next_section_def wpM_bind wpM_try
proof (rule wpM_gives [OF gives_section r])
  fix s r' assume r': "reader_inv r'" and s: "s \<noteq> Sec_N"
  show "wpM (case Ok s of Err e \<Rightarrow> if e = Eof then retM None else errM (section_error_new e)
      | Ok s \<Rightarrow> bindM (one_section p default_custom prev seen s) (\<lambda>x. retM (Some x)) | Panic \<Rightarrow> panicM)
      (round_ok st0) (\<lambda>_ (_, l'). load_failed st0 l') (r', l)"
    using one_section_wp [OF p r' s l, of seen]
    by (auto simp: wp round_ok_def elim!: wpM_mono)
next
  fix e r'
  have "section_rank prev \<le> 12" by (cases prev) simp_all
  then have "load_ok st0 13 l" by (intro load_ok_mono [OF l]) simp
  then show "wpM (case Err e of Err e \<Rightarrow> if e = Eof then retM None else errM (section_error_new e)
      | Ok s \<Rightarrow> bindM (one_section p default_custom prev seen s) (\<lambda>x. retM (Some x)) | Panic \<Rightarrow> panicM)
      (round_ok st0) (\<lambda>_ (_, l'). load_failed st0 l') (r', l)"
    using l by (auto simp: wp round_ok_def load_ok_failed)
qed

lemma section_loop_wp:
  assumes p: "0 < lp_frames p" "lp_stack p < 2 ^ 16"
  shows "reader_inv r \<Longrightarrow> load_ok st0 (Suc (section_rank prev)) l \<Longrightarrow>
    wpM (\<lambda>s. the (section_loop p default_custom prev seen s)) (\<lambda>_ (_, l'). load_ok st0 13 l')
      (\<lambda>_ (_, l'). load_failed st0 l') (r, l)"
proof (induction "rd_limit r - rd_full_offset r" arbitrary: prev seen r l rule: less_induct)
  case less
  obtain res r' l' where step: "next_section p default_custom prev seen (r, l) = (res, (r', l'))" by (metis prod_cases3)
  note ok = next_section_wp [OF p less.prems, of seen, unfolded wpM_def step]
  show ?case
  proof (cases "\<exists>x. res = Ok (Some x)")
    case False
    with step ok show ?thesis
      by (subst section_loop.simps [abs_def]) (auto simp: wpM_def round_ok_def split: result.splits option.splits)
  next
    case True
    then obtain prev' seen' where x: "res = Ok (Some (prev', seen'))" by auto
    have "rd_limit r' - rd_full_offset r' < rd_limit r - rd_full_offset r"
      using next_section_moves step x by fastforce
    from less(1) [OF this] ok x have "wpM (\<lambda>s. the (section_loop p default_custom prev' seen' s)) (\<lambda>_ (_, l'). load_ok st0 13 l')
      (\<lambda>_ (_, l'). load_failed st0 l') (r', l')"
      by (simp add: round_ok_def)
    moreover have "section_loop p default_custom prev seen (r, l) = section_loop p default_custom prev' seen' (r', l')"
      using step x by (subst section_loop.simps) simp
    ultimately show ?thesis by (simp add: wpM_def)
  qed
qed

lemma read_sections_wp:
  assumes "0 < lp_frames p" "lp_stack p < 2 ^ 16" "reader_inv r" "load_ok st0 1 l"
  shows "wpM (read_sections p default_custom) (\<lambda>_ (_, l'). load_ok st0 13 l') (\<lambda>_ (_, l'). load_failed st0 l') (r, l)"
  using section_loop_wp [OF assms(1-3), of st0 Sec_Custom l False] assms(4)
  by (simp add: wpM_def read_sections_loop)

lemma module_body_wp:
  assumes p: "0 < lp_frames p" "lp_stack p < 2 ^ 16" and r: "reader_inv r" and l: "load_ok st0 1 l"
  shows "wpM (module_body_read p default_custom name) (\<lambda>md (_, l'). load_ok st0 13 l' \<and> md = ld_module l')
    (\<lambda>_ (_, l'). load_failed st0 l') (r, l)"
proof -
  let ?E = "\<lambda>_ (_ :: reader, l'). load_failed st0 l'" and ?l = "l\<lparr>ld_module := empty_module name\<rparr>"
  have l': "load_ok st0 1 ?l"
    using l by (auto simp: load_ok_def load_failed_def module_ok_def module_types_ok_def empty_module_def)
  have fail: "load_failed st0 l" by (rule load_ok_failed [OF l])
  have tail: "wpM (bindM (read_sections p default_custom) (\<lambda>seen. bindM (sec the_module) (\<lambda>md.
        if \<not> seen \<and> md_functions md \<noteq> [] then errM (section_error_new InvalidCodeSectionFunctionCount) else retM md)))
      (\<lambda>md (_, l'). load_ok st0 13 l' \<and> md = ld_module l') ?E (r', ?l)" if r': "reader_inv r'" for r'
    unfolding wpM_bind by (rule wpM_mono [OF read_sections_wp [OF p r' l']])
      (auto simp: wpM_sec the_module_def wpM_onState wp load_ok_failed)
  have field: "wpM (sec (module_field (\<lambda>_. empty_module name))) Q E (r', l) = Q () (r', ?l)" for Q r'
    and E :: "section_decode_error \<Rightarrow> reader \<times> loading \<Rightarrow> bool"
    by (simp add: wpM_sec module_field_def wpM_onState wpM_modify)
  have store: "wpM (sec the_store) Q E (r, l) = Q (ld_store l) (r, l)" for Q
    and E :: "section_decode_error \<Rightarrow> reader \<times> loading \<Rightarrow> bool"
    by (simp add: wpM_sec the_store_def wpM_onState wpM_get)
  have alloc: "wpM (sec (onReader (alloc_step (length name)))) Q ?E (r, l)"
    if "\<And>a r'. reader_inv r' \<Longrightarrow> Q a (r', l)" for Q :: "unit \<Rightarrow> reader \<times> loading \<Rightarrow> bool"
    unfolding wpM_sec by (rule wpM_reader_safe [OF _ r]) (use that fail in \<open>auto intro: rsafe\<close>)
  show ?thesis
    unfolding module_body_read_def wpM_bind [of "sec the_store"] store wpM_if wpM_err wpM_then field
    using tail fail by (auto intro!: alloc simp: field)
qed

lemma module_read_wp:
  assumes p: "0 < lp_frames p" "lp_stack p < 2 ^ 16" and r: "reader_inv r" and l: "load_ok st0 1 l"
  shows "wpM (module_read p default_custom name) (\<lambda>md (_, l'). load_ok st0 13 l' \<and> md = ld_module l')
    (\<lambda>_ (_, l'). load_failed st0 l') (r, l)"
proof -
  have fail: "load_failed st0 l" by (rule load_ok_failed [OF l])
  have strip: "wpM (sec (onReader (strip_bytes 4))) Q (\<lambda>_ (_, l'). load_failed st0 l') (r, l)"
    if "reader_inv r" "\<And>a r'. reader_inv r' \<Longrightarrow> Q a (r', l)" for Q :: "u8 list \<Rightarrow> reader \<times> loading \<Rightarrow> bool" and r
    unfolding wpM_sec by (rule wpM_reader_safe [OF _ that(1)]) (use that(2) fail in \<open>auto intro: rsafe\<close>)
  show ?thesis
    unfolding module_read_def wpM_bind wpM_if wpM_err
    using fail by (auto intro!: strip r module_body_wp [OF p _ l])
qed

text \<open>The loading state \<open>Module::new\<close> starts from.\<close>

lemma load_ok_start:
  assumes "store_ok st" "code_inv cd"
  shows "load_ok st 1 \<lparr>ld_module = empty_module [], ld_store = st, ld_code = cd\<rparr>"
  using assms by (simp add: load_ok_def load_failed_def module_ok_def module_types_ok_def empty_module_def)

lemma module_new_wp:
  assumes "store_ok st" "code_inv cd" "0 < lp_frames p" "lp_stack p < 2 ^ 16"
  shows "case module_new p stream al name st cd of
     (Ok md, st', cd') \<Rightarrow> store_ok st' \<and> same_modules st st' \<and> code_inv cd' \<and> module_ok st' md
   | (Err e, st', cd') \<Rightarrow> store_ok st' \<and> same_modules st st' \<and> code_inv cd'
   | (Panic, _) \<Rightarrow> False"
  using module_read_wp [OF assms(3,4) reader_inv_new [of stream al] load_ok_start [OF assms(1,2)], of name]
  by (auto simp: module_new_def wpM_def load_ok_def load_failed_def split: prod.splits result.splits)

text \<open>The reference an engine holds during the load changes none of it.\<close>

lemma store_ok_held: "store_ok (hold_table a st) = store_ok st" "store_ok (release_table a st) = store_ok st"
  by (rule iffI; erule store_ok_cells; simp)+

lemma module_ok_released: "module_ok st md \<Longrightarrow> module_ok (release_table a st) md"
  by (rule module_ok_mono) (auto simp: store_le_def)

lemma module_new_on_wp:
  assumes "store_ok st" "code_inv cd" "0 < lp_frames p" "lp_stack p < 2 ^ 16"
  shows "case module_new_on a p stream al name st cd of
     (Ok md, st', cd') \<Rightarrow> store_ok st' \<and> same_modules st st' \<and> code_inv cd' \<and> module_ok st' md
   | (Err e, st', cd') \<Rightarrow> store_ok st' \<and> same_modules st st' \<and> code_inv cd'
   | (Panic, _) \<Rightarrow> False"
proof -
  have "store_ok (hold_table a st)" using assms(1) by (simp add: store_ok_held)
  from module_new_wp [OF this assms(2-4), of stream al name] show ?thesis
    by (auto simp: module_new_on_def store_ok_held same_modules_def module_ok_released split: prod.splits result.splits)
qed

text \<open>
  Claim C1. \<open>Module::new\<close> never panics, whatever bytes the stream delivers, whatever the allocator answers and
  whatever host globals read: from a well-formed store and code buffer it returns a module or an error. The
  modules of the store are as before, store and code buffer are well formed in both cases, and an accepted
  module is well formed: pushed to the store it gets the next index and the store is well formed again.
\<close>

theorem module_new_safe:
  assumes "store_ok st" "code_inv cd" "0 < lp_frames p" "lp_stack p < 2 ^ 16"
  shows "case module_new p stream al name st cd of
     (Ok md, st', cd') \<Rightarrow> store_ok st' \<and> same_modules st st' \<and> code_inv cd' \<and> module_ok st' md \<and>
       wpM (store_push_module md) (\<lambda>i st''. store_ok st'' \<and> unat i = length (st_modules st))
         (\<lambda>e st''. e = AE_OutOfMemory \<and> st'' = st') st'
   | (Err e, st', cd') \<Rightarrow> store_ok st' \<and> same_modules st st' \<and> code_inv cd'
   | (Panic, _) \<Rightarrow> False"
proof -
  have push: "wpM (store_push_module md) (\<lambda>i st''. store_ok st'' \<and> unat i = length (st_modules st))
      (\<lambda>e st''. e = AE_OutOfMemory \<and> st'' = st') st'"
    if "store_ok st'" "same_modules st st'" "module_ok st' md" for st' md
    by (rule wpM_mono [OF store_ok_push [OF that(1,3)]]) (use that(2) in \<open>auto simp: same_modules_def\<close>)
  show ?thesis
    using module_new_wp [OF assms, of stream al name] push by (auto split: result.splits prod.splits)
qed

definition demo_params :: load_params where
  "demo_params = \<lparr>lp_frames = 8, lp_stack = 64, lp_alloc = (\<lambda>_ _ _. None), lp_globals = (\<lambda>_ _. None)\<rparr>"

lemma module_new_safe_witness:
  "fst (module_new demo_params [Chunk [0x00, 0x61, 0x73], Chunk [0x6D, 1, 0, 0, 0, 1, 4, 1, 0x60, 0, 0]] [] [109] link_store small_code) \<noteq> Panic"
  using module_new_safe [OF link_store_ok small_code_facts(1), of demo_params
      "[Chunk [0x00, 0x61, 0x73], Chunk [0x6D, 1, 0, 0, 0, 1, 4, 1, 0x60, 0, 0]]" "[]" "[109]"]
  by (auto simp: demo_params_def split: prod.splits result.splits)

text \<open>
  Claim C20. How the stream cuts a module into chunks does not matter: two streams with the same bytes and
  the same end give the same module, or the same error with the same section and byte offset, and the same
  store and code buffer afterwards.
\<close>

theorem module_new_chunking:
  assumes "stream_data s1 = stream_data s2"
    and "store_ok st" "code_inv cd" "0 < lp_frames p" "lp_stack p < 2 ^ 16"
  shows "module_new p s1 al name st cd = module_new p s2 al name st cd"
proof (rule module_new_chunks(2) [OF assms(1)])
  show "fst (module_new p s1 al name st cd) \<noteq> Panic"
    using module_new_wp [OF assms(2-5), of s1 al name] by (auto split: prod.splits result.splits)
qed

lemma module_new_chunking_witness:
  "module_new demo_params [Chunk [0x00, 0x61, 0x73, 0x6D, 1, 0, 0, 0, 1, 4]] [] [] link_store small_code =
   module_new demo_params [Chunk [0x00, 0x61], Chunk [0x73], Chunk [0x6D, 1, 0, 0, 0, 1, 4]] [] [] link_store small_code"
  by (rule module_new_chunking [OF _ link_store_ok small_code_facts(1)]) (simp_all add: demo_params_def)

text \<open>
  Claim C21. The section loop returns on every input, whatever the bytes and the size fields of the sections:
  every round reads at least the section's number, within the limit.
\<close>

theorem section_loop_returns:
  "\<exists>y. section_loop p default_custom prev seen (r, l) = Some y"
  by (rule section_loop_total)

end
