(* ===== verification/Loaded.thy ===== *)
theory Loaded
  imports Module_Safe Interp_Control
begin

text \<open>
  Loading and running together: every function of a well-formed store can be invoked, and what a failed
  load leaves behind in an imported table.
\<close>

section \<open>Invoking a loaded function\<close>

lemma store_memory:
  assumes "store_ok st" "unat k < length (st_modules st)"
  shows "\<exists>a. get_memory st k = Some a \<and> a < length (st_memories st)"
proof (cases "md_memory (st_modules st ! unat k)")
  case None
  then show ?thesis using assms by (simp add: get_memory_def get_opt_def store_ok_def)
next
  case (Some t)
  then have ok: "memory_ok st t" using store_module_ok [OF assms] by (simp add: module_ok_def)
  show ?thesis
  proof (cases t)
    case (MK_ImportHost h i)
    then have i: "unat h < length (st_host_modules st)" "unat i < length (hmod_memory (st_host_modules st ! unat h))"
      using ok by simp_all
    then have "hm_addr (hmod_memory (st_host_modules st ! unat h) ! unat i) < length (st_memories st)"
      using store_host_ok [OF assms(1) i(1)] by (simp add: host_ok_def)
    with i Some MK_ImportHost assms show ?thesis by (simp add: get_memory_def get_opt_def)
  qed (use Some ok assms in \<open>auto simp: get_memory_def get_opt_def\<close>)
qed

lemma store_table:
  assumes "store_ok st" "unat k < length (st_modules st)"
  shows "\<exists>a. get_table st k = Some a \<and> a < length (st_tables st)"
proof (cases "md_table (st_modules st ! unat k)")
  case None
  then show ?thesis using assms by (simp add: get_table_def get_opt_def store_ok_def)
next
  case (Some t)
  then have ok: "table_ok st t" using store_module_ok [OF assms] by (simp add: module_ok_def)
  show ?thesis
  proof (cases t)
    case (TK_ImportHost h i)
    then have i: "unat h < length (st_host_modules st)" "unat i < length (hmod_table (st_host_modules st ! unat h))"
      using ok by simp_all
    then have "ht_addr (hmod_table (st_host_modules st ! unat h) ! unat i) < length (st_tables st)"
      using store_host_ok [OF assms(1) i(1)] by (simp add: host_ok_def)
    with i Some TK_ImportHost assms show ?thesis by (simp add: get_table_def get_opt_def)
  qed (use Some ok assms in \<open>auto simp: get_table_def get_opt_def\<close>)
qed

text \<open>
  Every function of a loaded module can be invoked: on an idle engine whose store is well formed,
  as every load leaves it, \<open>invoke\<close> of any function of any module never panics, whatever the arguments; it
  enters the function, or refuses the arguments and stays idle, and never reports that the engine is busy.
\<close>

lemma loaded_function_invocable:
  assumes "store_ok (en_store s)" and idle: "en_pc s = SENTINEL" "en_sp s = 0" "en_fp s = 0"
    and k: "unat k < length (st_modules (en_store s))"
    and i: "unat i < length (md_functions (st_modules (en_store s) ! unat k))"
  shows "wpM (invoke \<lparr>wr_module = k, wr_index = i\<rparr> vs)
    (\<lambda>_ t. en_pc t = fn_expr (md_functions (st_modules (en_store s) ! unat k) ! unat i) \<and> en_module t = k \<and>
       en_memory t < length (st_memories (en_store t)) \<and> en_table t < length (st_tables (en_store t)) \<and>
       en_store t = en_store s)
    (\<lambda>e t. e \<noteq> IE_Busy \<and> en_pc t = SENTINEL \<and> en_sp t = 0) s"
proof -
  define m f where "m = st_modules (en_store s) ! unat k" and "f = md_functions m ! unat i"
  have m: "module_ok (en_store s) m" using store_module_ok [OF assms(1) k] by (simp add: m_def)
  have "f \<in> set (md_functions m)" using i by (simp add: m_def f_def)
  then obtain ty where ty: "get_opt (md_types m) (unat (fn_ty f)) = Some ty"
    using m by (auto simp: module_ok_def module_types_ok_def get_opt_def)
  have func: "get_func s (wr_module \<lparr>wr_module = k, wr_index = i\<rparr>) (wr_index \<lparr>wr_module = k, wr_index = i\<rparr>) = Some (m, f)"
    using k i by (simp add: get_func_def get_opt_def m_def f_def)
  obtain a b where ctx: "get_memory (en_store s) k = Some a" "a < length (st_memories (en_store s))"
      "get_table (en_store s) k = Some b" "b < length (st_tables (en_store s))"
    using store_memory [OF assms(1) k] store_table [OF assms(1) k] by auto
  show ?thesis
    by (rule wpM_mono [OF invoke_wp [OF idle func ty]])
      (use ctx idle in \<open>auto simp: restacked_def m_def f_def\<close>)
qed

lemma loaded_function_invocable_witness:
  "wpM (invoke \<lparr>wr_module = 0, wr_index = 0\<rparr> [V_I32 4]) (\<lambda>_ t. en_pc t = JumpTarget 9) (\<lambda>_ t. en_pc t = SENTINEL)
     (engine_reset demo_engine\<lparr>en_store := (en_store demo_engine)\<lparr>
       st_modules := [(st_modules (en_store demo_engine) ! 0)\<lparr>md_imports := []\<rparr>],
       st_memories := [\<lparr>cell_value = memory_zero, cell_extra = 0\<rparr>],
       st_tables := [\<lparr>cell_value = [], cell_extra = 0\<rparr>]\<rparr>\<rparr>)"
proof -
  let ?st = "(en_store demo_engine)\<lparr>st_modules := [(st_modules (en_store demo_engine) ! 0)\<lparr>md_imports := []\<rparr>],
       st_memories := [\<lparr>cell_value = memory_zero, cell_extra = 0\<rparr>],
       st_tables := [\<lparr>cell_value = [], cell_extra = 0\<rparr>]\<rparr>"
  let ?s = "engine_reset demo_engine\<lparr>en_store := ?st\<rparr>"
  have ok: "store_ok (en_store ?s)"
    by (simp add: demo_engine_def store_ok_def module_ok_def module_types_ok_def before_def small_module_def required_stack_words_def)
  have idle: "en_pc ?s = SENTINEL" "en_sp ?s = 0" "en_fp ?s = 0"
    by (simp_all add: engine_reset_def clear_table_def clear_memory_def)
  have fn: "unat (0 :: u8) < length (st_modules (en_store ?s))"
    "unat (0 :: u16) < length (md_functions (st_modules (en_store ?s) ! unat (0 :: u8)))"
    "fn_expr (md_functions (st_modules (en_store ?s) ! unat (0 :: u8)) ! unat (0 :: u16)) = JumpTarget 9"
    by (simp_all add: demo_engine_def)
  show ?thesis
    by (rule wpM_mono [OF loaded_function_invocable [OF ok idle fn(1,2)]]) (use fn(3) in auto)
qed

section \<open>What a failed load leaves behind\<close>

text \<open>
  Claim C22. A load that fails in its element section may leave dangling entries in a table it imports: if the
  first function index of a segment is good and the next cannot be read, the load fails, but the table of
  the other module now has an entry for the module that was refused; and \<open>call_indirect\<close> through that entry
  panics, until another module is loaded and takes the index.
\<close>

theorem failed_load_dangles:
  assumes st: "store_ok (ld_store l)" and len: "length (st_modules (ld_store l)) < 256"
    and first: "read_u32 r = (Ok x, r1)" "get_func_ref (ld_module l) x = Some (Ref_Module i)"
    and second: "read_u32 r1 = (Err e, r2)"
    and table: "module_table (ld_module l) (ld_store l) = Ok (Some (a, n))" "0 < n"
    and s: "en_table s = a" "0 < en_sp s" "en_sp s \<le> length (en_stack s)" "en_stack s ! (en_sp s - 1) = 0"
    and ty: "get_opt (st_modules (ld_store l)) (unat (en_module s)) = Some m" "get_opt (md_types m) (unat ty) = Some fty"
  shows "\<exists>l'. write_elements 2 0 (r, l) = (Err e, (r2, l')) \<and> ld_code l' = ld_code l \<and>
    same_modules (ld_store l) (ld_store l') \<and>
    (en_store s = ld_store l' \<longrightarrow> fst (interp_call_indirect api ty s) = Panic)"
proof -
  let ?e = "TE_Func (word_of_nat (length (st_modules (ld_store l)))) i"
  define l' where "l' = put_entry a 0 ?e l"
  have addr: "a < length (st_tables (ld_store l))" and n: "n = length (cell_value (st_tables (ld_store l) ! a))"
    using table(1) by (auto simp: module_table_def bindR_Ok_iff split: option.splits if_splits)
  have look: "onState get_module_table (r1, l) = (Ok (Some (a, n)), (r1, l))"
    using table(1) by (simp add: onState_def get_module_table_def run_defs)
  have run: "write_elements 2 0 (r, l) = (Err e, (r2, l'))"
    using first second look table(2)
    by (simp add: eval_nat_numeral onReader_def bindM_def thenM_def ok_or_def the_module_def the_store_def onState_def getM_def
        modifyM_def retM_def errM_def table_entry_def l'_def)
  have store: "same_modules (ld_store l) (ld_store l')" "ld_code l' = ld_code l"
    by (simp_all add: l'_def put_entry_def Let_def same_modules_def)
  have entry: "get_opt (st_tables (ld_store l')) a = Some ((st_tables (ld_store l) ! a)\<lparr>cell_value :=
      (cell_value (st_tables (ld_store l) ! a))[0 := ?e]\<rparr>)"
    using addr by (simp add: l'_def put_entry_def Let_def get_opt_def)
  have "fst (interp_call_indirect api ty s) = Panic" if es: "en_store s = ld_store l'"
  proof -
    have word: "pop_word s = (Ok 0, s\<lparr>en_sp := en_sp s - 1\<rparr>)"
      using s by (simp add: pop_word_def sp_sub_def sp_minus_def rd32_def onStack_def stack_read_u32_eq load32_def run_defs)
    have mods: "st_modules (ld_store l') = st_modules (ld_store l)" using store(1) by (simp add: same_modules_def)
    have "unat (word_of_nat (length (st_modules (ld_store l))) :: u8) = length (st_modules (ld_store l))"
      using len by (simp add: unat_of_nat)
    then have missing: "get_func t (word_of_nat (length (st_modules (ld_store l)))) i = None"
      if "en_store t = ld_store l'" for t :: "'a engine"
      using that mods by (simp add: get_func_def get_opt_def)
    have zero: "get_opt ((cell_value (st_tables (ld_store l) ! a))[0 := ?e]) 0 = Some ?e"
      using n table(2) by (simp add: get_opt_def)
    show ?thesis
      using es s(1) ty mods entry missing zero
      by (simp add: interp_call_indirect_def the_table_def func_type_of_def word bindM_def getM_def unwrapM_def retM_def panicM_def)
  qed
  with run store show ?thesis by blast
qed

lemma read_u32_zero:
  assumes "reader_inv r" "bs_bytes (reader_abs r) = 0 # bs" "rd_full_offset r < rd_limit r"
  obtains r' where "read_u32 r = (Ok 0, r')" "reader_inv r'" "bs_bytes (reader_abs r') = bs"
proof -
  obtain r' where r': "read_u8 r = (Ok 0, r')" "reader_inv r'"
    "reader_abs r' = (reader_abs r)\<lparr>bs_bytes := bs, bs_offset := Suc (rd_full_offset r)\<rparr>"
    using read_u8_Cons [OF assms] by blast
  have "read_u32 r = (Ok 0, r')"
    using r'(1) by (simp add: read_u32_def leb_group_def bindM_def retM_def)
  moreover have "bs_bytes (reader_abs r') = bs" unfolding r'(3) by simp
  ultimately show thesis using that r'(2) by blast
qed

lemma read_u32_eof:
  assumes "reader_inv r" "bs_bytes (reader_abs r) = []"
  obtains e r' where "read_u32 r = (Err e, r')"
proof -
  obtain e r' where "read_u8 r = (Err e, r')" using read_u8_Nil [OF assms(1)] assms(2) by (cases "read_u8 r") auto
  then have "read_u32 r = (Err e, r')" by (simp add: read_u32_def leb_group_def bindM_def)
  then show thesis by (rule that)
qed

definition dangling_load :: loading where
  "dangling_load = \<lparr>ld_module = (empty_module [110])\<lparr>md_types := [\<lparr>ft_params = [], ft_returns = []\<rparr>],
       md_functions := [\<lparr>fn_ty = 0, fn_stack_usage = 0, fn_local_size = 0, fn_param_size = 0, fn_return = None,
         fn_locals = [], fn_expr = JumpTarget 0\<rparr>], md_table := Some (TK_Import 0)\<rparr>,
     ld_store = link_store, ld_code = small_code\<rparr>"

lemma failed_load_dangles_witness:
  "\<exists>e r l'. write_elements 2 0 (reader_new [Chunk [0]] [], dangling_load) = (Err e, (r, l')) \<and>
     (\<forall>api. fst (interp_call_indirect api 0 (demo_engine\<lparr>en_store := ld_store l', en_table := 1, en_stack := [0, 0, 0]\<rparr>)) = Panic)"
proof -
  let ?r = "reader_new [Chunk [0]] []" and ?l = dangling_load
  have "bs_bytes (reader_abs ?r) = 0 # []" "rd_full_offset ?r < rd_limit ?r"
    by (simp_all add: reader_abs_new) (simp add: reader_new_def USIZE_MAX_def)
  then obtain r1 where r1: "read_u32 ?r = (Ok 0, r1)" "reader_inv r1" "bs_bytes (reader_abs r1) = []"
    using read_u32_zero [OF reader_inv_new, of "[Chunk [0]]" "[]" "[]"] by auto
  obtain e r2 where r2: "read_u32 r1 = (Err e, r2)" using read_u32_eof [OF r1(2,3)] .
  have st: "ld_store ?l = link_store" "store_ok (ld_store ?l)" by (simp_all add: dangling_load_def link_store_ok)
  have ref: "get_func_ref (ld_module ?l) 0 = Some (Ref_Module 0)"
    by (simp add: dangling_load_def get_func_ref_def empty_module_def)
  have table: "module_table (ld_module ?l) (ld_store ?l) = Ok (Some (1, 2))"
    by (simp add: dangling_load_def module_table_def table_addr_def link_store_def table_refs_def owns_table_def empty_module_def)
  have len: "length (st_modules (ld_store ?l)) < 256" by (simp add: st(1)) (simp add: link_store_def)
  have ty: "get_opt (st_modules (ld_store ?l)) (unat (0 :: u8)) = Some (st_modules link_store ! 0)"
    "get_opt (md_types (st_modules link_store ! 0)) (unat (0 :: u32)) = Some \<lparr>ft_params = [T_I32], ft_returns = []\<rparr>"
    by (simp_all add: st(1) get_opt_def link_store_def)
  have "en_module demo_engine = 0" "en_sp demo_engine = 3" by (simp_all add: demo_engine_def)
  then have run: "\<exists>l'. write_elements 2 0 (?r, ?l) = (Err e, (r2, l')) \<and> ld_code l' = ld_code ?l \<and>
     same_modules (ld_store ?l) (ld_store l') \<and>
     (en_store s = ld_store l' \<longrightarrow> fst (interp_call_indirect api 0 s) = Panic)"
    if "s = demo_engine\<lparr>en_store := st', en_table := 1, en_stack := [0, 0, 0]\<rparr>" for s st' and api :: "unit host_api"
    using that by (intro failed_load_dangles [OF st(2) len r1(1) ref r2 table _ _ _ _ _ _ ty(2)]) (use ty(1) in simp_all)
  obtain l' where l': "write_elements 2 0 (?r, ?l) = (Err e, (r2, l'))" using run [OF refl] by blast
  have "fst (interp_call_indirect api 0 (demo_engine\<lparr>en_store := ld_store l', en_table := 1, en_stack := [0, 0, 0]\<rparr>)) = Panic"
    for api :: "unit host_api"
    using run [OF refl, of "ld_store l'" api] l' by auto
  with l' show ?thesis by blast
qed

end
