(* ===== verification/Keep.thy ===== *)
theory Keep
  imports Decode Module_Load
begin

text \<open>
  Computations that keep a relation between the state before and after, however they end. The rules for the
  combinators of the state monad are proved once for any reflexive and transitive relation (locale
  \<open>kept\<close>) and collected in \<open>kp\<close>, so that \<open>(intro kp)\<close> walks through a whole handler; theory Run_Safe
  interprets the locale for the engine and the IR reader, theory Start_Safe for the module decoder.
\<close>

section \<open>Relations a computation keeps\<close>

definition keep :: "('s \<Rightarrow> 's \<Rightarrow> bool) \<Rightarrow> ('s, 'a, 'e) m \<Rightarrow> bool" where
  "keep R f \<longleftrightarrow> (\<forall>s. R s (snd (f s)))"

named_theorems kp "computations that keep a relation"

lemma keepD: "keep R f \<Longrightarrow> R s (snd (f s))"
  by (simp add: keep_def)

lemma keep_if [kp]: "(b \<Longrightarrow> keep R f) \<Longrightarrow> (\<not> b \<Longrightarrow> keep R g) \<Longrightarrow> keep R (if b then f else g)"
  by simp

lemma keep_option [kp]: "(x = None \<Longrightarrow> keep R f) \<Longrightarrow> (\<And>a. x = Some a \<Longrightarrow> keep R (g a)) \<Longrightarrow>
    keep R (case x of None \<Rightarrow> f | Some a \<Rightarrow> g a)"
  by (cases x) simp_all

lemma keep_prod [kp]: "(\<And>a b. keep R (f a b)) \<Longrightarrow> keep R (case x of (a, b) \<Rightarrow> f a b)"
  by (cases x) simp

lemma keep_result [kp]: "(\<And>a. keep R (f a)) \<Longrightarrow> (\<And>e. keep R (g e)) \<Longrightarrow> keep R h \<Longrightarrow>
    keep R (case x of Ok a \<Rightarrow> f a | Err e \<Rightarrow> g e | Panic \<Rightarrow> h)"
  by (cases x) simp_all

lemma keep_val_type [kp]: "keep R a \<Longrightarrow> keep R b \<Longrightarrow> keep R c \<Longrightarrow> keep R d \<Longrightarrow>
    keep R (case x of T_I32 \<Rightarrow> a | T_I64 \<Rightarrow> b | T_F32 \<Rightarrow> c | T_F64 \<Rightarrow> d)"
  by (cases x) simp_all

lemma keep_let [kp]: "keep R (f x) \<Longrightarrow> keep R (let y = x in f y)"
  by simp

lemma keep_modify: "(\<And>s. R s (f s)) \<Longrightarrow> keep R (modifyM f)"
  by (simp add: keep_def modifyM_def)

locale kept =
  fixes R :: "'s \<Rightarrow> 's \<Rightarrow> bool"
  assumes refl: "R s s" and trans: "R s t \<Longrightarrow> R t u \<Longrightarrow> R s u"
begin

lemma keep_pure [kp]:
  "keep R (retM a)" "keep R (errM e)" "keep R panicM" "keep R (getM f)" "keep R (liftR r)"
  "keep R (ok_or x e)" "keep R (unwrapM x)" "keep R (assertM b)"
  by (simp_all add: keep_def run_defs refl split: option.splits)

lemma keep_bind [kp]:
  assumes "keep R f" "\<And>a. keep R (g a)"
  shows "keep R (bindM f g)"
  unfolding keep_def
proof
  fix s
  obtain r t where f: "f s = (r, t)" by (cases "f s")
  have "R s t" using keepD [OF assms(1), of s] f by simp
  then show "R s (snd (bindM f g s))"
    using keepD [OF assms(2), where s = t] trans by (cases r) (auto simp: bindM_def f)
qed

lemma keep_then [kp]: "keep R f \<Longrightarrow> keep R g \<Longrightarrow> keep R (thenM f g)"
  unfolding thenM_def by (rule keep_bind)

lemma keep_when [kp]: "keep R f \<Longrightarrow> keep R (whenM b f)"
  by (simp add: whenM_def keep_pure)

lemma keep_for [kp]: "(\<And>x. keep R (f x)) \<Longrightarrow> keep R (forM xs f)"
  by (induction xs) (simp_all add: keep_pure keep_then)

lemma keep_times [kp]: "keep R f \<Longrightarrow> keep R (timesM n f)"
  by (induction n) (simp_all add: keep_pure keep_then)

lemma keep_repeat [kp]: "keep R f \<Longrightarrow> keep R (repeatM n f)"
  by (induction n) (simp_all add: keep_pure keep_bind)

end

section \<open>A reader beside the state\<close>

definition rel_snd :: "('s \<Rightarrow> 's \<Rightarrow> bool) \<Rightarrow> 'p \<times> 's \<Rightarrow> 'p \<times> 's \<Rightarrow> bool" where
  "rel_snd R p q \<longleftrightarrow> R (snd p) (snd q)"

lemma keep_onState: "keep R f \<Longrightarrow> keep (rel_snd R) (onState f)"
  by (auto simp: keep_def onState_def rel_snd_def split: prod.splits) (metis snd_conv)

lemma keep_with_limit [kp]:
  assumes "\<And>x. R x x" "keep (rel_snd R) f"
  shows "keep (rel_snd R) (with_limit into n f)"
proof -
  have "rel_snd R (r, x) (snd (with_limit into n f (r, x)))" for r x
    using keepD [OF assms(2), of "(r\<lparr>rd_limit := rd_full_offset r + n\<rparr>, x)"] assms(1)
    by (auto simp: with_limit_def rel_snd_def split: prod.splits)
  then show ?thesis by (simp add: keep_def)
qed

lemma keep_onReader [kp]: "(\<And>x. R x x) \<Longrightarrow> keep (rel_snd R) (onReader f)"
  by (auto simp: keep_def onReader_def rel_snd_def split: prod.splits)

lemma keep_map_err [kp]: "keep R f \<Longrightarrow> keep R (map_err h f)"
  by (auto simp: keep_def map_err_def split: prod.splits result.splits) (metis snd_conv)+

lemma keep_tryM [kp]: "keep R f \<Longrightarrow> keep R (tryM f)"
  by (auto simp: keep_def tryM_def split: prod.splits result.splits) (metis snd_conv)+

end
