(* ===== verification/Run_Safe.thy ===== *)
theory Run_Safe
  imports Keep Run Loaded
begin

text \<open>
  What running guest code leaves of the store. An instruction may write memories, table and globals, and
  the host it calls may do so too, but the \<^emph>\<open>shape\<close> of the store stays: which modules, functions, types,
  imports and exports there are, and how many memories and tables. The invariant of the store depends on its
  shape only, so it holds after any run, however it ended.

  Every handler of the interpreter and the IR decoder keeps the shape; the rules of theory Keep for the
  combinators of the state monad do the work.
\<close>

section \<open>The shape of a store\<close>

definition module_shape :: "wmodule \<Rightarrow> wmodule" where
  "module_shape md = md\<lparr>md_globals := map (\<lambda>g. g\<lparr>gl_value := RawValue 0\<rparr>) (md_globals md)\<rparr>"

definition host_shape :: "host_module \<Rightarrow> host_module" where
  "host_shape hm = hm\<lparr>hmod_functions := map (\<lambda>f. f\<lparr>hf_present := True\<rparr>) (hmod_functions hm)\<rparr>"

definition store_shape :: "store \<Rightarrow> wmodule list \<times> nat \<times> host_module list \<times> nat \<times> nat" where
  "store_shape st = (map module_shape (st_modules st), st_max_modules st, map host_shape (st_host_modules st),
     length (st_memories st), length (st_tables st))"

definition same_shape :: "'h engine \<Rightarrow> 'h engine \<Rightarrow> bool" where
  "same_shape s t \<longleftrightarrow> store_shape (en_store s) = store_shape (en_store t)"

lemma same_shape_store [simp]: "en_store s = en_store t \<Longrightarrow> same_shape s t"
  by (simp add: same_shape_def)

interpretation eng: kept same_shape
  by unfold_locales (simp_all add: same_shape_def)

interpretation dec: kept "rel_snd same_shape"
  by unfold_locales (simp_all add: rel_snd_def same_shape_def)

lemma map_update_same: "(i < length xs \<Longrightarrow> f y = f (xs ! i)) \<Longrightarrow> map f (xs[i := y]) = map f xs"
  by (cases "i < length xs") (auto simp: list_eq_iff_nth_eq nth_list_update)

lemma put_global_shape [simp]: "same_shape s (put_global md i v s)"
  by (simp add: same_shape_def put_global_def store_shape_def module_shape_def map_update_same Let_def)

lemma set_present_shape [simp]: "same_shape s (set_present md i p s)"
  by (simp add: same_shape_def set_present_def store_shape_def host_shape_def map_update_same Let_def)

lemma set_memory_shape [simp]: "same_shape s (set_memory a m s)"
  by (simp add: same_shape_def set_memory_def store_shape_def)

lemma clear_shape [simp]: "same_shape s (clear_memory s)" "same_shape s (clear_table s)"
  by (simp_all add: clear_memory_def clear_table_def)

section \<open>Every instruction keeps the shape\<close>

lemma keep_update [kp]: "(\<And>s. en_store (f s) = en_store s) \<Longrightarrow> keep same_shape (modifyM f)"
  by (simp add: keep_def modifyM_def)

lemma keep_onStack [kp]: "keep same_shape (onStack f)"
  by (simp add: keep_def onStack_def split: prod.splits)

lemma keep_words [kp]: "keep same_shape (rd32 a)" "keep same_shape (rd64 a)"
    "keep same_shape (wr32 a v)" "keep same_shape (wr64 a w)"
  by (simp_all add: rd32_def rd64_def wr32_def wr64_def keep_onStack)

lemma keep_sp [kp]: "keep same_shape (sp_minus n)" "keep same_shape (sp_sub n)" "keep same_shape (sp_add n)"
  unfolding sp_minus_def sp_sub_def sp_add_def by (intro kp; simp)+

lemma keep_push [kp]: "keep same_shape (push32 v)" "keep same_shape (push64 w)"
  unfolding push32_def push64_def by (intro kp)+


lemma keep_push_value [kp]: "keep same_shape (push_value v)"
  by (cases v) (simp_all add: push_value_def keep_push)

lemma keep_load_context [kp]: "keep same_shape load_context"
  unfolding load_context_def by (intro kp; simp)

lemma keep_zero_locals [kp]: "keep same_shape (zero_locals n a)"
  by (induction n arbitrary: a) (simp_all add: eng.keep_pure eng.keep_then keep_words)

lemma keep_call_impl [kp]: "keep same_shape (call_impl d i)"
  unfolding call_impl_def by (intro kp; simp)

lemma keep_call_enter [kp]: "keep same_shape (call_impl_enter_module f)"
  unfolding call_impl_enter_module_def by (intro kp; simp)

lemma keep_copy_words [kp]: "keep same_shape (copy_words n a b)"
  by (induction n arbitrary: a b) (simp_all add: eng.keep_pure eng.keep_then eng.keep_bind keep_words)

lemma keep_return [kp]: "keep same_shape (return_impl n)"
  unfolding return_impl_def return_jump_def return_result_def restore_module_def by (intro kp; simp)

lemma keep_arity: "keep R a \<Longrightarrow> keep R b \<Longrightarrow> keep R c \<Longrightarrow> keep R (case x of LA_None \<Rightarrow> a | LA_I32 \<Rightarrow> b | LA_I64 \<Rightarrow> c)"
  by (cases x) simp_all

lemma keep_br [kp]: "keep same_shape (br_impl off l)"
  unfolding br_impl_def by (intro kp keep_arity; simp)

text \<open>Numeric and memory instructions.\<close>

lemma keep_apply [kp]:
  "keep same_shape (un32 f)" "keep same_shape (un64 g)" "keep same_shape (bin32 h)" "keep same_shape (bin64 i)"
  "keep same_shape (test32 c)" "keep same_shape (test64 d)" "keep same_shape (rel32 r)" "keep same_shape (rel64 q)"
  "keep same_shape (widen w)" "keep same_shape (shrink x)" "keep same_shape (shrink_after y)"
  unfolding un32_def un64_def bin32_def bin64_def test32_def test64_def rel32_def rel64_def
    widen_def shrink_def shrink_after_def by (intro kp)+

lemma keep_conv [kp]: "keep same_shape (interp_conv l p)"
  by (cases p) (simp_all add: kp)

lemma keep_extend [kp]: "keep same_shape (interp_extend p)"
  by (cases p) (simp_all add: kp)

lemma keep_sat [kp]: "keep same_shape (interp_sat p)"
  by (cases p) (simp_all add: kp)

lemma keep_base [kp]: "keep same_shape (interp_base l p)"
  by (induction l p rule: interp_base.induct) (simp_all add: kp split: if_splits)

lemma keep_liftMem [kp]: "keep same_shape (liftMem r)"
  by (cases r rule: result.exhaust; simp add: liftMem_def kp split: memory_error.split)

lemma keep_set_memory [kp]: "keep same_shape (modifyM (set_memory a m))"
    "keep same_shape (modifyM (\<lambda>s. set_memory (en_memory s) m s))"
  by (simp_all add: keep_modify)

lemma keep_memory [kp]: "keep same_shape the_memory" "keep same_shape (load_at ld off p)"
    "keep same_shape (store_at st off v)"
  unfolding the_memory_def load_at_def store_at_def by (intro kp)+

lemma keep_load_store [kp]: "keep same_shape (load_32 ld f off)" "keep same_shape (load_64 ld g off)"
    "keep same_shape (store_32 st h off)" "keep same_shape (store_64 st' k off)"
  unfolding load_32_def load_64_def store_32_def store_64_def by (intro kp)+

lemma keep_mem [kp]: "keep same_shape (interp_mem p off)"
  by (cases p) (simp_all add: keep_load_store)

lemma keep_size [kp]: "keep same_shape interp_memory_size"
  unfolding interp_memory_size_def by (intro kp)

lemma keep_clear [kp]: "keep same_shape (modifyM clear_memory)"
  by (simp add: keep_modify)

lemma keep_grow [kp]: "keep same_shape (interp_memory_grow al)"
  unfolding interp_memory_grow_def by (intro kp; simp)

text \<open>Calls, variables and the host. A host function gets the engine, so what it keeps is a hypothesis.\<close>

definition host_keeps :: "'h host_api \<Rightarrow> bool" where
  "host_keeps api \<longleftrightarrow> (\<forall>md x args s. same_shape s (snd (ha_call api md x args s)))"

lemma keep_pop_word [kp]: "keep same_shape pop_word"
  unfolding pop_word_def by (intro kp)

lemma keep_host_args [kp]: "keep same_shape (host_args tys a sv)"
proof (induction tys arbitrary: a sv)
  case (Cons ty tys)
  show ?case by (cases ty) (auto intro!: kp Cons.IH)
qed (simp add: kp)

lemma keep_host_result [kp]: "keep same_shape (host_result v ty)"
  by (simp add: host_result_def kp split: option.split wasm_value.split val_type.split)

lemma keep_set_present [kp]: "keep same_shape (modifyM (set_present md x b))"
  by (simp add: keep_modify)

lemma keep_call_host_fn:
  assumes "host_keeps api"
  shows "keep same_shape (call_host_fn api md x args)"
proof -
  have rest: "keep same_shape (bindM (unwrapM v) (\<lambda>_. thenM (modifyM (set_present md x True)) (retM r)))" for v r
    by (intro kp)
  have "keep same_shape (\<lambda>s. case ha_call api md x args s of
      (Ok r, t) \<Rightarrow> bindM (unwrapM (host_fn t md x)) (\<lambda>_. thenM (modifyM (set_present md x True)) (retM r)) t
    | (_, t) \<Rightarrow> (Panic, t))" (is "keep same_shape ?call")
    unfolding keep_def
  proof
    fix s
    obtain r t where call: "ha_call api md x args s = (r, t)" by (cases "ha_call api md x args s")
    have st: "same_shape s t" using assms call unfolding host_keeps_def by (metis snd_conv)
    show "same_shape s (snd (?call s))"
    proof (cases r)
      case (Ok a)
      have "same_shape t (snd (bindM (unwrapM (host_fn t md x))
          (\<lambda>_. thenM (modifyM (set_present md x True)) (retM a)) t))"
        using keepD [OF rest [of "host_fn t md x" a], of t] .
      then show ?thesis unfolding call Ok prod.case result.case by (rule eng.trans [OF st])
    qed (use st in \<open>simp_all add: call\<close>)
  qed
  then show ?thesis unfolding call_host_fn_def by (intro kp)
qed

lemma keep_call_host:
  assumes "host_keeps api"
  shows "keep same_shape (interp_call_host api md x)"
proof -
  note kp' = kp keep_call_host_fn [OF assms]
  have outcome: "keep same_shape (case r of HO_Continue v \<Rightarrow> f v | HO_Trap \<Rightarrow> g | HO_Pause \<Rightarrow> h)"
    if "\<And>v. keep same_shape (f v)" "keep same_shape g" "keep same_shape h" for r and f :: "_ \<Rightarrow> ('a, unit) em" and g h
    using that by (cases r) simp_all
  show ?thesis unfolding interp_call_host_def by (intro kp' outcome; simp)
qed

lemma keep_call_indirect:
  assumes "host_keeps api"
  shows "keep same_shape (interp_call_indirect api x)"
proof -
  have entry: "keep same_shape (case e of TE_Uninit \<Rightarrow> f | TE_Host a b \<Rightarrow> g a b | TE_Func a b \<Rightarrow> h a b)"
    if "keep same_shape f" "\<And>a b. keep same_shape (g a b)" "\<And>a b. keep same_shape (h a b)"
    for e and f :: "('a, unit) em" and g h
    using that by (cases e) simp_all
  show ?thesis
    unfolding interp_call_indirect_def the_table_def
    by (intro kp entry keep_call_host [OF assms])
qed

lemma keep_in_module:
  assumes "keep same_shape f"
  shows "keep same_shape (in_module md f)"
  unfolding keep_def
proof
  fix s
  show "same_shape s (snd (in_module md f s))"
    using keepD [OF assms, of "s\<lparr>en_module := md\<rparr>"]
    by (cases "f (s\<lparr>en_module := md\<rparr>)") (simp add: in_module_def same_shape_def)
qed

lemma keep_global [kp]: "keep same_shape (interp_global_get i)" "keep same_shape (interp_global_set i)"
proof -
  have put: "keep same_shape (modifyM (\<lambda>s. put_global (en_module s) i v s))" for v
    by (simp add: keep_modify)
  show "keep same_shape (interp_global_get i)" unfolding interp_global_get_def by (intro kp)
  show "keep same_shape (interp_global_set i)" unfolding interp_global_set_def by (intro kp put)
qed

lemma keep_host_global [kp]: "keep same_shape (interp_global_get_host api md i)"
    "keep same_shape (interp_global_set_host api md i)"
proof -
  have "keep same_shape (write_host_global api md i v)" for v
    by (simp add: keep_def write_host_global_def split: prod.splits)
  then show "keep same_shape (interp_global_set_host api md i)"
    unfolding interp_global_set_host_def by (intro kp)
  show "keep same_shape (interp_global_get_host api md i)"
    unfolding interp_global_get_host_def by (intro kp)
qed

lemma keep_visit:
  assumes "host_keeps api"
  shows "keep same_shape (interp_visit api p)"
  by (cases p) (auto intro!: kp keep_call_host [OF assms] keep_call_indirect [OF assms] keep_in_module
    simp: interp_drop_def interp_select_def interp_if_def interp_br_def interp_br_if_def interp_call_def
      interp_call_extern_def interp_local_get_def interp_local_set_def interp_local_tee_def
      interp_global_get_extern_def interp_global_set_extern_def)

section \<open>Decoding keeps the shape\<close>

lemma keep_onSnd [kp]: "keep same_shape f \<Longrightarrow> keep (rel_snd same_shape) (onSnd f)"
  by (auto simp: keep_def onSnd_def rel_snd_def split: prod.splits) (metis snd_conv)

lemma keep_ir_read [kp]: "keep (rel_snd same_shape) (ir_read code)" "keep (rel_snd same_shape) (ir_read_u32 code)"
    "keep (rel_snd same_shape) (ir_read_u64 code)"
proof -
  have pc: "keep (rel_snd same_shape) (modifyM (\<lambda>(pc, s). (target_plus pc 1, s)))"
    by (rule keep_modify) (simp add: rel_snd_def split: prod.split)
  show *: "keep (rel_snd same_shape) (ir_read code)" unfolding ir_read_def by (intro kp pc)
  show "keep (rel_snd same_shape) (ir_read_u32 code)" "keep (rel_snd same_shape) (ir_read_u64 code)"
    unfolding ir_read_u32_def ir_read_u64_def by (intro kp *)+
qed

lemma keep_ir_case [kp]: "keep (rel_snd same_shape) (ir_case code n c)"
  unfolding ir_case_def by (intro kp)

lemma keep_decode [kp]: "keep (rel_snd same_shape) (ir_decode code opc imm)"
proof -
  have control: "keep (rel_snd same_shape) f" if "ir_control code opc imm = Some f" for f
    using that by (auto simp: ir_control_def intro!: kp split: if_splits)
  have variable: "keep (rel_snd same_shape) f" if "ir_variable code opc imm = Some f" for f
    using that by (auto simp: ir_variable_def ir_local_def ir_index_def imm_valtype_def intro!: kp split: if_splits)
  have mem: "keep (rel_snd same_shape) f" if "ir_memory code opc imm = Some f" for f
    using that by (auto simp: ir_memory_def intro!: kp split: if_splits option.splits)
  have numeric: "keep (rel_snd same_shape) (ir_numeric code opc imm)"
    unfolding ir_numeric_def by (intro kp)
  show ?thesis unfolding ir_decode_def by (intro keep_option control variable mem numeric)
qed

lemma keep_br_table [kp]: "(\<And>c. keep (rel_snd same_shape) (cases' c)) \<Longrightarrow> keep (rel_snd same_shape) (interp_br_table n cases')"
  unfolding interp_br_table_def by (intro kp)

lemma keep_visit_instruction:
  assumes "host_keeps api"
  shows "keep (rel_snd same_shape) (visit_instruction code (interpreter api))"
  unfolding visit_instruction_def interpreter_def ir_visitor.simps by (intro kp keep_visit [OF assms])

lemma keep_run_step:
  assumes "host_keeps api"
  shows "keep same_shape (run_step api code)"
  unfolding keep_def
proof
  fix s
  obtain r pc t where v: "visit_instruction code (interpreter api) (en_pc s, s) = (r, (pc, t))"
    by (metis prod.exhaust)
  have "rel_snd same_shape (en_pc s, s) (pc, t)"
    using keepD [OF keep_visit_instruction [OF assms], of "(en_pc s, s)" code] unfolding v by simp
  moreover have "en_store (snd (finish_step r pc t)) = en_store t"
    by (simp add: finish_step_def Let_def split: result.split interp_break.split)
  ultimately show "same_shape s (snd (run_step api code s))"
    by (simp add: run_step_def v rel_snd_def same_shape_def)
qed

lemma keep_run: "host_keeps api \<Longrightarrow> keep same_shape (run api code n)"
proof (induction n)
  case (Suc n)
  show ?case unfolding run.simps by (intro kp keep_run_step Suc)
qed (simp add: kp)

section \<open>The invariant depends on the shape only\<close>

lemma store_shape_lengths:
  assumes "store_shape st = store_shape st'"
  shows "length (st_modules st) = length (st_modules st')" "length (st_host_modules st) = length (st_host_modules st')"
    "st_max_modules st = st_max_modules st'" "length (st_memories st) = length (st_memories st')"
    "length (st_tables st) = length (st_tables st')"
  using assms by (auto simp: store_shape_def dest: map_eq_imp_length_eq)

lemma module_shape_eq:
  assumes "module_shape md = module_shape md'"
  shows "md_functions md = md_functions md'" "md_types md = md_types md'" "md_table md = md_table md'"
    "md_memory md = md_memory md'" "md_imports md = md_imports md'" "md_start md = md_start md'"
    "md_exports md = md_exports md'" "md_name md = md_name md'"
    "length (md_globals md) = length (md_globals md')"
  using assms by (cases md; cases md'; auto simp: module_shape_def dest: map_eq_imp_length_eq)+

lemma host_shape_eq:
  assumes "host_shape hm = host_shape hm'"
  shows "length (hmod_functions hm) = length (hmod_functions hm')" "hmod_globals hm = hmod_globals hm'"
    "hmod_table hm = hmod_table hm'" "hmod_memory hm = hmod_memory hm'"
  using assms by (cases hm; cases hm'; auto simp: host_shape_def dest: map_eq_imp_length_eq)+

lemma shape_module:
  assumes "store_shape st = store_shape st'" "k < length (st_modules st)"
  shows "module_shape (st_modules st ! k) = module_shape (st_modules st' ! k)"
  using assms store_shape_lengths [OF assms(1)] by (auto simp: store_shape_def dest!: arg_cong [where f = "\<lambda>xs. xs ! k"])

lemma shape_host:
  assumes "store_shape st = store_shape st'" "k < length (st_host_modules st)"
  shows "host_shape (st_host_modules st ! k) = host_shape (st_host_modules st' ! k)"
proof -
  have "map host_shape (st_host_modules st) ! k = map host_shape (st_host_modules st') ! k"
    using assms(1) by (simp add: store_shape_def)
  then show ?thesis using assms(2) store_shape_lengths(2) [OF assms(1)] by simp
qed

text \<open>One direction suffices: the relation is symmetric.\<close>

lemma module_types_ok_shape: "module_shape md = module_shape md' \<Longrightarrow> module_types_ok md = module_types_ok md'"
  by (simp add: module_types_ok_def module_shape_eq [of md md'])

lemma import_ok_shape:
  assumes sh: "store_shape st = store_shape st'" and ok: "import_ok st i"
  shows "import_ok st' i"
proof -
  note len = store_shape_lengths [OF sh]
  note md = module_shape_eq [OF shape_module [OF sh]]
  note hm = host_shape_eq [OF shape_host [OF sh]]
  note ty = module_types_ok_shape [OF shape_module [OF sh]]
  show ?thesis using ok by (cases i) (auto simp: len [symmetric] md hm ty)
qed

lemma module_ok_shape:
  assumes sh: "store_shape st = store_shape st'" "module_shape md = module_shape md'" and ok: "module_ok st md"
  shows "module_ok st' md'"
proof -
  note md = module_shape_eq [OF sh(2)]
  have "table_ok st' t" if "table_ok st t" for t
    using that import_ok_shape [OF sh(1)] store_shape_lengths [OF sh(1)] by (cases t) (simp_all del: import_ok.simps)
  moreover have "memory_ok st' m" if "memory_ok st m" for m
    using that import_ok_shape [OF sh(1)] store_shape_lengths [OF sh(1)] by (cases m) (simp_all del: import_ok.simps)
  ultimately show ?thesis
    using ok import_ok_shape [OF sh(1)] unfolding module_ok_def
    by (simp add: md [symmetric] module_types_ok_shape [OF sh(2)])
qed

lemma before_shape: "store_shape st = store_shape st' \<Longrightarrow> store_shape (before k st) = store_shape (before k st')"
  by (simp add: store_shape_def before_def take_map [symmetric])

lemma store_ok_shape:
  assumes sh: "store_shape st = store_shape st'" and ok: "store_ok st"
  shows "store_ok st'"
proof -
  note len = store_shape_lengths [OF sh]
  have "module_ok (before k st') (st_modules st' ! k)" if k: "k < length (st_modules st')" for k
    using module_ok_shape [OF before_shape [OF sh] shape_module [OF sh]] k ok len by (simp add: store_ok_def)
  moreover have "host_ok st' hm" if "hm \<in> set (st_host_modules st')" for hm
  proof -
    from that obtain k where k: "k < length (st_host_modules st')" "hm = st_host_modules st' ! k"
      by (auto simp: in_set_conv_nth)
    have "host_ok st (st_host_modules st ! k)" using k(1) len ok by (simp add: store_ok_def)
    then show ?thesis using host_shape_eq [OF shape_host [OF sh, of k]] len k by (simp add: host_ok_def)
  qed
  ultimately show ?thesis using ok len by (auto simp: store_ok_def)
qed

text \<open>
  Claim C7. Guest code cannot break the store: whatever code runs, for however long, whatever memory, table or
  global it writes, and whether it ends, traps, pauses, runs out of fuel or panics, the store is as
  well formed after the run as before, with the same modules, functions, types and imports, provided
  the host functions it calls leave that structure alone.
\<close>

theorem run_keeps_store:
  assumes "host_keeps api" "store_ok (en_store s)"
  shows "same_shape s (snd (run api code n s)) \<and> store_ok (en_store (snd (run api code n s)))"
proof -
  have "same_shape s (snd (run api code n s))" by (rule keepD [OF keep_run [OF assms(1)]])
  then show ?thesis using assms(2) store_ok_shape unfolding same_shape_def by blast
qed

text \<open>A host whose functions write a memory of the store.\<close>

definition writing_host :: "libm \<Rightarrow> unit host_api" where
  "writing_host l = \<lparr>ha_call = (\<lambda>md x args s. (Ok (HO_Continue None), set_memory 0 tiny_memory s)), ha_read = (\<lambda>_ _ _. None),
     ha_write = (\<lambda>_ _ _ h. (False, h)), ha_alloc = (\<lambda>_ _ _. None), ha_libm = l\<rparr>"

lemma run_keeps_store_witness:
  "\<forall>l code. let s = demo_engine\<lparr>en_store := link_store, en_pc := JumpTarget 0\<rparr> in
     store_ok (en_store (snd (run (writing_host l) code 1000 s)))"
proof (intro allI)
  fix l code
  let ?s = "demo_engine\<lparr>en_store := link_store, en_pc := JumpTarget 0\<rparr>"
  have "host_keeps (writing_host l)" by (simp add: host_keeps_def writing_host_def)
  moreover have "store_ok (en_store ?s)" by (simp add: link_store_ok)
  ultimately show "let s = ?s in store_ok (en_store (snd (run (writing_host l) code 1000 s)))"
    using run_keeps_store unfolding Let_def by blast
qed

end
