(* ===== verification/Start_Safe.thy ===== *)
theory Start_Safe
  imports Keep Module_Safe
begin

text \<open>
  The start function of a loaded module is never a host function: the start section refuses one, and no other
  step of the loader touches the field. \<open>Engine::module_start\<close> relies on it (it panics on a host function).
\<close>

definition start_ok :: "wmodule \<Rightarrow> bool" where
  "start_ok md \<longleftrightarrow> (case md_start md of Some (Ref_Host _ _) \<Rightarrow> False | _ \<Rightarrow> True)"

text \<open>Steps on the module and the code leave the field alone; steps of the loader keep \<open>start_ok\<close>.\<close>

definition same_start :: "wmodule \<times> code_builder \<Rightarrow> wmodule \<times> code_builder \<Rightarrow> bool" where
  "same_start p q \<longleftrightarrow> md_start (fst p) = md_start (fst q)"

definition start_kept :: "loading \<Rightarrow> loading \<Rightarrow> bool" where
  "start_kept l l' \<longleftrightarrow> (start_ok (ld_module l) \<longrightarrow> start_ok (ld_module l'))"

lemma same_start_refl [simp]: "same_start p p"
  by (simp add: same_start_def)

lemma start_kept_refl [simp]: "start_kept l l"
  by (simp add: start_kept_def)

interpretation body: kept "rel_snd same_start"
  by unfold_locales (auto simp: rel_snd_def same_start_def)

interpretation load: kept "rel_snd start_kept"
  by unfold_locales (auto simp: rel_snd_def start_kept_def)

interpretation mod: kept "\<lambda>md md'. md_start md = md_start md'"
  by unfold_locales auto

section \<open>Function bodies\<close>

lemma keep_focus_code_part [kp]: "keep (rel_snd same_start) (focus snd (\<lambda>cd (md, _). (md, cd)) f)"
  by (auto simp: keep_def focus_def rel_snd_def same_start_def split: prod.splits)

lemma keep_functions: "keep (rel_snd same_start) (onState (modifyM (\<lambda>(md, cd). (md\<lparr>md_functions := h md\<rparr>, cd))))"
  by (rule keep_onState, rule keep_modify) (simp add: same_start_def split: prod.split)

lemma keep_get [kp]: "keep (rel_snd same_start) (onState (getM f))"
    "keep (rel_snd same_start) (onState (bindM (getM g) (\<lambda>fs. indexM fs i)))"
  by (simp_all add: keep_def onState_def run_defs rel_snd_def)

lemma keep_function_code: "keep (rel_snd same_start) (read_function_code mf ms st i)"
  unfolding read_function_code_def read_body_def by (intro kp keep_functions same_start_refl)

lemma keep_focus_code [kp]: "keep (rel_snd same_start) f \<Longrightarrow> keep (rel_snd start_kept) (focus_code f)"
  by (auto simp: keep_def focus_code_def focus_def rel_snd_def same_start_def start_kept_def start_ok_def split: prod.splits)
    (metis fst_conv snd_conv)+

section \<open>Sections\<close>

lemma keep_field: "(\<And>md. start_ok md \<Longrightarrow> start_ok (h md)) \<Longrightarrow> keep (rel_snd start_kept) (module_field h)"
  unfolding module_field_def by (rule keep_onState, rule keep_modify) (simp add: start_kept_def)

lemma start_ok_fields [simp]:
  "start_ok (md\<lparr>md_types := a\<rparr>) = start_ok md" "start_ok (md\<lparr>md_functions := b\<rparr>) = start_ok md"
  "start_ok (md\<lparr>md_table := c\<rparr>) = start_ok md" "start_ok (md\<lparr>md_memory := d\<rparr>) = start_ok md"
  "start_ok (md\<lparr>md_globals := e\<rparr>) = start_ok md" "start_ok (md\<lparr>md_imports := f\<rparr>) = start_ok md"
  "start_ok (md\<lparr>md_exports := g\<rparr>) = start_ok md"
  by (simp_all add: start_ok_def)

lemma keep_reads [kp]: "keep (rel_snd start_kept) the_module" "keep (rel_snd start_kept) the_store"
  by (simp_all add: keep_def the_module_def the_store_def onState_def run_defs rel_snd_def)

lemma keep_store_step: "(\<And>l. ld_module (snd (f l)) = ld_module l) \<Longrightarrow> keep (rel_snd start_kept) (onState f)"
  by (rule keep_onState) (simp add: keep_def start_kept_def)

lemma keep_table_steps [kp]: "keep (rel_snd start_kept) (onState (new_table n))"
    "keep (rel_snd start_kept) (onState (new_memory m))" "keep (rel_snd start_kept) (onState get_module_table)"
    "keep (rel_snd start_kept) (onState (on_memory a f))"
    "keep (rel_snd start_kept) (onState (modifyM (put_entry a j e)))"
  by (rule keep_store_step, simp add: new_table_def new_memory_def get_module_table_def on_memory_def put_entry_def
      run_defs Let_def split: result.split)+

lemma keep_wasm_value [kp]: "(\<And>x. keep R (a x)) \<Longrightarrow> (\<And>x. keep R (b x)) \<Longrightarrow> (\<And>x. keep R (c x)) \<Longrightarrow> (\<And>x. keep R (d x)) \<Longrightarrow>
    keep R (case v of V_I32 x \<Rightarrow> a x | V_I64 x \<Rightarrow> b x | V_F32 x \<Rightarrow> c x | V_F64 x \<Rightarrow> d x)"
  by (cases v) simp_all

lemma keep_resolve: "keep (\<lambda>md md'. md_start md = md_start md') (resolve_import st i)"
proof -
  have upd: "keep (\<lambda>md md'. md_start md = md_start md') (modifyM (\<lambda>md. md\<lparr>md_memory := m\<rparr>))"
    "keep (\<lambda>md md'. md_start md = md_start md') (modifyM (\<lambda>md. md\<lparr>md_table := t\<rparr>))" for m t
    by (simp_all add: keep_modify)
  have mk: "keep R (case k of MK_Owned x \<Rightarrow> a x | MK_Import x \<Rightarrow> b x | MK_ImportHost x y \<Rightarrow> c x y)"
    if "\<And>x. keep R (a x)" "\<And>x. keep R (b x)" "\<And>x y. keep R (c x y)"
    for k and R :: "wmodule \<Rightarrow> wmodule \<Rightarrow> bool" and a :: "_ \<Rightarrow> (wmodule, unit, validation_error) m" and b c
    using that by (cases k) simp_all
  have tk: "keep R (case k of TK_Owned x z \<Rightarrow> a x z | TK_Import x \<Rightarrow> b x | TK_ImportHost x y \<Rightarrow> c x y)"
    if "\<And>x z. keep R (a x z)" "\<And>x. keep R (b x)" "\<And>x y. keep R (c x y)"
    for k and R :: "wmodule \<Rightarrow> wmodule \<Rightarrow> bool" and a :: "_ \<Rightarrow> _ \<Rightarrow> (wmodule, unit, validation_error) m" and b c
    using that by (cases k) simp_all
  show ?thesis by (cases i) (auto simp: resolve_import_def intro!: kp upd mk tk)
qed

lemma keep_onModule:
  assumes "keep (\<lambda>md md'. md_start md = md_start md') f"
  shows "keep (rel_snd start_kept) (onModule f)"
  unfolding onModule_def
proof (rule keep_onState, unfold keep_def, rule allI)
  fix l
  show "start_kept l (snd (case f (ld_module l) of (r, md) \<Rightarrow> (r, l\<lparr>ld_module := md\<rparr>)))"
    using keepD [OF assms, of "ld_module l"] by (cases "f (ld_module l)") (simp add: start_kept_def start_ok_def)
qed

lemma keep_write_elements [kp]: "keep (rel_snd start_kept) (write_elements n j)"
proof (induction n arbitrary: j)
  case (Suc n)
  show ?case unfolding write_elements.simps by (intro kp Suc) simp_all
qed (simp add: kp)

lemma keep_write_data [kp]: "keep (rel_snd start_kept) (write_data a off n i)"
proof (induction n arbitrary: i)
  case (Suc n)
  show ?case unfolding write_data.simps by (intro kp Suc) simp_all
qed (simp add: kp)

lemma keep_section_parts [kp]:
  "keep (rel_snd start_kept) (custom_section_read h n)" "keep (rel_snd start_kept) import_section_read"
  "keep (rel_snd start_kept) table_section_read" "keep (rel_snd start_kept) (memory_section_read al)"
  "keep (rel_snd start_kept) (element_section_read g)" "keep (rel_snd start_kept) (code_section_read mf ms)"
  "keep (rel_snd start_kept) (data_section_read g)"
  unfolding custom_section_read_def import_section_read_def table_section_read_def memory_section_read_def
    element_section_read_def element_read_def code_section_read_def data_section_read_def data_read_def
  by (intro kp keep_field keep_onModule keep_resolve keep_function_code; simp)+

text \<open>The start section: what it returns is no host function.\<close>

lemma keep_start_section: "keep (rel_snd start_kept)
    (bindM (onReader (start_section_read st md)) (\<lambda>x. module_field (\<lambda>md. md\<lparr>md_start := Some x\<rparr>)))"
  unfolding keep_def
proof
  fix s :: "reader \<times> loading"
  obtain r l where s: "s = (r, l)" by (cases s)
  obtain res r' where read: "start_section_read st md r = (res, r')" by (cases "start_section_read st md r")
  have "\<not> (\<exists>h i. res = Ok (Ref_Host h i))"
    using read by (auto simp: start_section_read_def run_defs check_start_def split: prod.splits result.splits option.splits)
  then show "rel_snd start_kept s (snd (bindM (onReader (start_section_read st md))
      (\<lambda>x. module_field (\<lambda>md. md\<lparr>md_start := Some x\<rparr>)) s))"
    using read by (cases res) (auto simp: s bindM_def onReader_def module_field_def onState_def modifyM_def rel_snd_def
        start_kept_def start_ok_def split: sym_ref.split)
qed

lemma keep_read_section [kp]: "keep (rel_snd start_kept) (read_section p h n k)"
proof -
  have "keep (rel_snd start_kept) (case k of Sec_Custom \<Rightarrow> a | Sec_Type \<Rightarrow> b | Sec_Import \<Rightarrow> c | Sec_Function \<Rightarrow> d
     | Sec_Table \<Rightarrow> e | Sec_Memory \<Rightarrow> f | Sec_Global \<Rightarrow> g | Sec_Export \<Rightarrow> i | Sec_Start \<Rightarrow> j | Sec_Element \<Rightarrow> l
     | Sec_Code \<Rightarrow> m | Sec_Data \<Rightarrow> n | Sec_N \<Rightarrow> q)"
    if "\<forall>x\<in>{a, b, c, d, e, f, g, i, j, l, m, n, q}. keep (rel_snd start_kept) x" for a b c d e f g i j l m n and q :: "unit lm"
    using that by (cases k) simp_all
  then show ?thesis unfolding read_section_def
    by (intro kp) (simp add: kp keep_field keep_start_section load.keep_bind keep_if)
qed

section \<open>The module\<close>

lemma keep_sec [kp]: "keep (rel_snd start_kept) f \<Longrightarrow> keep (rel_snd start_kept) (sec f)"
  unfolding sec_def by (rule keep_map_err)

lemma keep_one_section [kp]: "keep (rel_snd start_kept) (one_section p h prev seen k)"
  unfolding one_section_def by (intro kp; simp)

lemma keep_next_section: "keep (rel_snd start_kept) (next_section p h prev seen)"
  unfolding next_section_def by (intro kp; simp)

lemma section_loop_start:
  assumes "section_loop p h prev seen s = Some (r, t)"
  shows "rel_snd start_kept s t"
proof -
  have "rel_snd start_kept s (snd (r, t))"
  proof (rule section_loop.raw_induct [where P = "\<lambda>p h prev seen s y. rel_snd start_kept s (snd y)", OF _ assms])
    fix loop p h prev seen s y
    assume IH: "\<And>p h prev seen s y. loop p h prev seen s = Some y \<Longrightarrow> rel_snd start_kept s (snd y)"
      and body: "(case next_section p h prev seen s of (Ok None, t) \<Rightarrow> Some (Ok seen, t)
        | (Ok (Some (prev', seen')), t) \<Rightarrow> loop p h prev' seen' t
        | (Err e, t) \<Rightarrow> Some (Err e, t) | (Panic, t) \<Rightarrow> Some (Panic, t)) = Some y"
    obtain res u where step: "next_section p h prev seen s = (res, u)" by (cases "next_section p h prev seen s")
    have su: "rel_snd start_kept s u" using keepD [OF keep_next_section, of s p h prev seen] step by simp
    show "rel_snd start_kept s (snd y)"
    proof (cases "\<exists>x. res = Ok (Some x)")
      case True
      then obtain prev' seen' where "res = Ok (Some (prev', seen'))" by auto
      then have "loop p h prev' seen' u = Some y" using body step by simp
      from load.trans [OF su IH [OF this]] show ?thesis .
    next
      case False
      then have "snd y = u" using body step by (auto split: result.splits option.splits)
      then show ?thesis using su by simp
    qed
  qed
  then show ?thesis by simp
qed

lemma keep_read_sections [kp]: "keep (rel_snd start_kept) (read_sections p h)"
  unfolding keep_def
proof
  fix s
  show "rel_snd start_kept s (snd (read_sections p h s))"
    by (cases "section_loop p h Sec_Custom False s")
      (use section_loop_start [of p h Sec_Custom False s] in \<open>auto simp: read_sections_def rel_snd_def\<close>)
qed

lemma keep_module_read: "keep (rel_snd start_kept) (module_read p h name)"
proof -
  have "keep (rel_snd start_kept) (module_field (\<lambda>_. empty_module name))"
    by (rule keep_field) (simp add: start_ok_def empty_module_def)
  then show ?thesis unfolding module_read_def module_body_read_def by (intro kp; simp)
qed

lemma module_read_result:
  assumes "module_read p h name s = (Ok md, t)"
  shows "md = ld_module (snd t)"
proof -
  have last: "md = ld_module (snd t)"
    if "sec the_module u = (Ok a, v)" "retM a v = ((Ok md, t) :: (wmodule, section_decode_error) result \<times> _)" for u a v
    using that by (auto simp: sec_def map_err_def the_module_def onState_def run_defs split: prod.splits)
  show ?thesis
    using assms unfolding module_read_def module_body_read_def
    by (auto elim!: bindM_OkE thenM_OkE split: if_splits simp: errM_def) (rule last; assumption)+
qed

lemma module_new_start:
  assumes "module_new p stream al name st cd = (Ok md, st', cd')"
  shows "start_ok md"
proof -
  let ?s = "(reader_new stream al, \<lparr>ld_module = empty_module [], ld_store = st, ld_code = cd\<rparr>)"
  obtain t where t: "module_read p default_custom name ?s = (Ok md, t)"
    using assms by (auto simp: module_new_def split: prod.splits result.splits)
  have "rel_snd start_kept ?s t" using keepD [OF keep_module_read, of ?s p default_custom name] t by simp
  then show ?thesis
    using module_read_result [OF t] by (simp add: rel_snd_def start_kept_def start_ok_def empty_module_def)
qed

lemma module_new_on_start: "module_new_on a p stream al name st cd = (Ok md, st', cd') \<Longrightarrow> start_ok md"
  by (auto simp: module_new_on_def split: prod.splits dest: module_new_start)

end
