(* ===== verification/Paging.thy ===== *)
theory Paging
  imports Linear_Memory
begin

text \<open>
  The page allocator (src/util/paging.rs): a bump allocator in at most \<open>MAX_PAGES\<close> pages that it takes from
  another allocator. A page is given back when its last block is freed; the first \<open>dealloc\<close> poisons the heap,
  so that nothing is allocated until every block is freed.

  Addresses are numbers. The allocator behind it belongs to the embedder: \<open>backing\<close> is its answer to the
  request an operation may make, and the pages handed back to it are recorded in \<open>pa_returned\<close>.

  Lemmas: whatever the order of the operations, the live blocks are disjoint, lie in live pages and can be
  freed without a panic, and the heap holds pages exactly as long as it holds blocks.
\<close>

definition ALIGNMENT :: nat where
  "ALIGNMENT = 8"

section \<open>Pages\<close>

record page =
  pg_ptr :: nat
  pg_size :: nat
  pg_allocated :: nat
  pg_n :: nat
  pg_wasted :: nat

definition page_new :: "nat \<Rightarrow> nat \<Rightarrow> page" where
  "page_new ptr sz = \<lparr>pg_ptr = ptr, pg_size = sz, pg_allocated = 0, pg_n = 0, pg_wasted = 0\<rparr>"

definition page_alloc :: "nat \<Rightarrow> nat \<Rightarrow> page \<Rightarrow> (nat \<times> page) option" where
  "page_alloc sz al pg =
     (let start = pg_ptr pg + pg_allocated pg;
          offset = (if start mod al = 0 then 0 else al - start mod al);
          aligned = start + offset;
          fin = aligned - pg_ptr pg + sz in
      if fin \<le> pg_size pg
      then Some (aligned, pg\<lparr>pg_wasted := pg_wasted pg + offset, pg_allocated := fin, pg_n := pg_n pg + 1\<rparr>)
      else None)"

definition page_dealloc :: "nat \<Rightarrow> page \<Rightarrow> (bool option, 'e) result \<times> page" where
  "page_dealloc ptr pg =
     (if pg_ptr pg \<le> ptr \<and> ptr < pg_ptr pg + pg_size pg then
        (if pg_n pg = 0 then (Panic, pg)
         else (Ok (Some (pg_n pg - 1 = 0)), pg\<lparr>pg_n := pg_n pg - 1\<rparr>))
      else (Ok None, pg))"

section \<open>The allocator\<close>

record page_allocator =
  pa_page_size :: nat
  pa_pages :: "page option list"
  pa_poisoned :: bool
  pa_returned :: "nat list"

definition pa_new :: "nat \<Rightarrow> nat \<Rightarrow> page_allocator" where
  "pa_new max_pages page_size =
     \<lparr>pa_page_size = page_size, pa_pages = replicate max_pages None, pa_poisoned = False, pa_returned = []\<rparr>"

type_synonym backing = "nat \<Rightarrow> nat \<Rightarrow> (nat, alloc_error) result"

text \<open>The loop of \<open>alloc\<close> over the buckets: the result, the buckets and the pages handed back.\<close>

fun alloc_in :: "backing \<Rightarrow> nat \<Rightarrow> nat \<Rightarrow> nat \<Rightarrow> page option list \<Rightarrow> (nat, alloc_error) result \<times> page option list \<times> nat list" where
  "alloc_in bk psize sz al [] = (Err AE_OutOfMemory, [], [])"
| "alloc_in bk psize sz al (Some pg # ps) = (case page_alloc sz al pg of
     Some (p, pg') \<Rightarrow> (Ok p, Some pg' # ps, [])
   | None \<Rightarrow> (case alloc_in bk psize sz al ps of (r, ps', f) \<Rightarrow> (r, Some pg # ps', f)))"
| "alloc_in bk psize sz al (None # ps) =
     (if \<not> layout_ok psize ALIGNMENT then (Panic, None # ps, [])
      else case bk psize ALIGNMENT of
        Err e \<Rightarrow> (Err e, None # ps, [])
      | Panic \<Rightarrow> (Panic, None # ps, [])
      | Ok a \<Rightarrow> (case page_alloc sz al (page_new a psize) of
          None \<Rightarrow> (Err AE_PageTooSmall, None # ps, [a])
        | Some (p, pg) \<Rightarrow> (Ok p, Some pg # ps, [])))"

definition pa_alloc :: "backing \<Rightarrow> nat \<Rightarrow> nat \<Rightarrow> (page_allocator, nat, alloc_error) m" where
  "pa_alloc bk sz al = (\<lambda>h.
     if sz = 0 then (Err AE_AllocationFailed, h)
     else if pa_poisoned h then (Err AE_HeapPoisoned, h)
     else case alloc_in bk (pa_page_size h) sz al (pa_pages h) of
       (r, ps, f) \<Rightarrow> (r, h\<lparr>pa_pages := ps, pa_returned := pa_returned h @ f\<rparr>))"

text \<open>The loop of \<open>dealloc\<close>: whether a page owned the block, the buckets and the pages handed back.\<close>

fun dealloc_in :: "nat \<Rightarrow> page option list \<Rightarrow> (bool, alloc_error) result \<times> page option list \<times> nat list" where
  "dealloc_in ptr [] = (Ok False, [], [])"
| "dealloc_in ptr (None # ps) = (case dealloc_in ptr ps of (r, ps', f) \<Rightarrow> (r, None # ps', f))"
| "dealloc_in ptr (Some pg # ps) = (case page_dealloc ptr pg of
     (Ok None, _) \<Rightarrow> (case dealloc_in ptr ps of (r, ps', f) \<Rightarrow> (r, Some pg # ps', f))
   | (Ok (Some drop_page), pg') \<Rightarrow>
       if drop_page then (Ok True, None # ps, [pg_ptr pg]) else (Ok True, Some pg' # ps, [])
   | (Err e, pg') \<Rightarrow> (Err e, Some pg' # ps, [])
   | (Panic, pg') \<Rightarrow> (Panic, Some pg' # ps, []))"

definition pa_dealloc :: "nat \<Rightarrow> (page_allocator, unit, alloc_error) m" where
  "pa_dealloc ptr = (\<lambda>h. case dealloc_in ptr (pa_pages h) of
     (Ok True, ps, f) \<Rightarrow> (Ok (), h\<lparr>pa_pages := ps, pa_returned := pa_returned h @ f,
         pa_poisoned := \<not> list_all (\<lambda>b. b = None) ps\<rparr>)
   | (Ok False, ps, f) \<Rightarrow> (Ok (), h)
   | (Err e, ps, f) \<Rightarrow> (Err e, h)
   | (Panic, ps, f) \<Rightarrow> (Panic, h))"

fun held :: "page option list \<Rightarrow> page list" where
  "held [] = []"
| "held (None # ps) = held ps"
| "held (Some pg # ps) = pg # held ps"

definition pa_drop :: "page_allocator \<Rightarrow> page_allocator" where
  "pa_drop h = h\<lparr>pa_pages := map (\<lambda>_. None) (pa_pages h),
     pa_returned := pa_returned h @ map pg_ptr (rev (held (pa_pages h)))\<rparr>"

record page_stats =
  ps_total_bytes :: u32
  ps_pad_bytes :: u32
  ps_pages :: u32

definition pa_stats :: "page_allocator \<Rightarrow> page_stats" where
  "pa_stats h = foldl (\<lambda>s pg. \<lparr>ps_total_bytes = ps_total_bytes s + word_of_nat (pg_allocated pg),
       ps_pad_bytes = ps_pad_bytes s + word_of_nat (pg_wasted pg), ps_pages = ps_pages s + 1\<rparr>)
     \<lparr>ps_total_bytes = 0, ps_pad_bytes = 0, ps_pages = 0\<rparr> (held (pa_pages h))"

section \<open>What an allocator promises\<close>

text \<open>A live block is its address and its size.\<close>

type_synonym block = "nat \<times> nat"

definition apart :: "block \<Rightarrow> block \<Rightarrow> bool" where
  "apart a b \<longleftrightarrow> fst a + snd a \<le> fst b \<or> fst b + snd b \<le> fst a"

text \<open>
  The states of a heap and its live blocks, through any sequence of requests (each with what the embedder
  answers, \<open>fair\<close> saying that the answer is one it may give) and of frees of live blocks.
\<close>

inductive heap_reach ::
  "('b \<Rightarrow> nat \<Rightarrow> nat \<Rightarrow> ('s, nat, alloc_error) m) \<Rightarrow> (nat \<Rightarrow> ('s, unit, alloc_error) m) \<Rightarrow> ('b \<Rightarrow> 's \<Rightarrow> bool) \<Rightarrow> 's \<Rightarrow> 's \<Rightarrow> block list \<Rightarrow> bool"
  for alloc dealloc fair init
where
  start: "heap_reach alloc dealloc fair init init []"
| allocated: "\<lbrakk>heap_reach alloc dealloc fair init s live; fair b s; 0 < al; alloc b sz al s = (Ok p, t)\<rbrakk> \<Longrightarrow>
    heap_reach alloc dealloc fair init t ((p, sz) # live)"
| refused: "\<lbrakk>heap_reach alloc dealloc fair init s live; fair b s; 0 < al; alloc b sz al s = (Err e, t)\<rbrakk> \<Longrightarrow>
    heap_reach alloc dealloc fair init t live"
| freed: "\<lbrakk>heap_reach alloc dealloc fair init s live; (p, sz) \<in> set live; dealloc p s = (Ok (), t)\<rbrakk> \<Longrightarrow>
    heap_reach alloc dealloc fair init t (remove1 (p, sz) live)"

locale allocator =
  fixes alloc :: "'b \<Rightarrow> nat \<Rightarrow> nat \<Rightarrow> ('s, nat, alloc_error) m"
    and dealloc :: "nat \<Rightarrow> ('s, unit, alloc_error) m"
    and fair :: "'b \<Rightarrow> 's \<Rightarrow> bool"
    and inv :: "'s \<Rightarrow> block list \<Rightarrow> bool"
  assumes alloc_ok: "inv s live \<Longrightarrow> fair b s \<Longrightarrow> 0 < al \<Longrightarrow>
      wpM (alloc b sz al) (\<lambda>p t. inv t ((p, sz) # live) \<and> al dvd p) (\<lambda>_ t. inv t live) s"
    and dealloc_ok: "inv s live \<Longrightarrow> (p, sz) \<in> set live \<Longrightarrow>
      wpM (dealloc p) (\<lambda>_ t. inv t (remove1 (p, sz) live)) (\<lambda>_ _. False) s"
    and blocks_apart: "inv s live \<Longrightarrow> sorted_wrt apart live"
begin

lemma reach_inv: "heap_reach alloc dealloc fair init s live \<Longrightarrow> inv init [] \<Longrightarrow> inv s live"
proof (induction rule: heap_reach.induct)
  case (allocated s live b al sz p t)
  then have "inv s live" by simp
  from wpM_OkD [OF alloc_ok [OF this allocated.hyps(2,3)] allocated.hyps(4)] show ?case by simp
next
  case (refused s live b al sz e t)
  then have "inv s live" by simp
  from wpM_ErrD [OF alloc_ok [OF this refused.hyps(2,3)] refused.hyps(4)] show ?case by simp
next
  case (freed s live p sz t)
  then have "inv s live" by simp
  from wpM_OkD [OF dealloc_ok [OF this freed.hyps(2)] freed.hyps(3)] show ?case by simp
qed simp

lemma reach_apart: "heap_reach alloc dealloc fair init s live \<Longrightarrow> inv init [] \<Longrightarrow> sorted_wrt apart live"
  using reach_inv blocks_apart by blast

end

section \<open>The page allocator keeps the promise\<close>

definition in_page :: "page \<Rightarrow> nat \<Rightarrow> bool" where
  "in_page pg p \<longleftrightarrow> pg_ptr pg \<le> p \<and> p < pg_ptr pg + pg_size pg"

definition page_live :: "block list \<Rightarrow> page \<Rightarrow> block list" where
  "page_live live pg = filter (\<lambda>b. in_page pg (fst b)) live"

definition page_fits :: "nat \<Rightarrow> block list \<Rightarrow> page \<Rightarrow> bool" where
  "page_fits psize live pg \<longleftrightarrow> pg_size pg = psize \<and> pg_allocated pg \<le> pg_size pg \<and>
     pg_n pg = length (page_live live pg) \<and>
     (\<forall>b\<in>set (page_live live pg). fst b + snd b \<le> pg_ptr pg + pg_allocated pg)"

definition page_ok :: "nat \<Rightarrow> block list \<Rightarrow> page \<Rightarrow> bool" where
  "page_ok psize live pg \<longleftrightarrow> page_fits psize live pg \<and> 0 < pg_n pg"

definition span :: "page \<Rightarrow> block" where
  "span pg = (pg_ptr pg, pg_size pg)"

definition pages_ok :: "nat \<Rightarrow> page list \<Rightarrow> block list \<Rightarrow> bool" where
  "pages_ok psize pgs live \<longleftrightarrow> sorted_wrt (\<lambda>a b. apart (span a) (span b)) pgs \<and> (\<forall>pg\<in>set pgs. page_ok psize live pg) \<and>
     (\<forall>b\<in>set live. 0 < snd b \<and> (\<exists>pg\<in>set pgs. in_page pg (fst b))) \<and> sorted_wrt apart live"

definition pa_inv :: "page_allocator \<Rightarrow> block list \<Rightarrow> bool" where
  "pa_inv h live \<longleftrightarrow> layout_ok (pa_page_size h) ALIGNMENT \<and> pages_ok (pa_page_size h) (held (pa_pages h)) live \<and>
     (pa_poisoned h \<longrightarrow> held (pa_pages h) \<noteq> [])"

text \<open>What the allocator behind may answer: a failure, or a page apart from those it has handed out.\<close>

definition pa_fair :: "backing \<Rightarrow> page_allocator \<Rightarrow> bool" where
  "pa_fair bk h \<longleftrightarrow> bk (pa_page_size h) ALIGNMENT \<noteq> Panic \<and>
     (\<forall>a. bk (pa_page_size h) ALIGNMENT = Ok a \<longrightarrow> (\<forall>pg\<in>set (held (pa_pages h)). apart (a, pa_page_size h) (span pg)))"

lemma apart_sym: "apart a b \<longleftrightarrow> apart b a"
  by (auto simp: apart_def)

lemma apart_span: "apart (span a) (span b) \<Longrightarrow> in_page a p \<Longrightarrow> in_page b p \<Longrightarrow> False"
  by (auto simp: apart_def span_def in_page_def)

lemma page_alloc_block:
  assumes "page_alloc sz al pg = Some (p, pg')" "0 < al" "0 < sz"
  shows "al dvd p" "pg_ptr pg + pg_allocated pg \<le> p" "p + sz = pg_ptr pg + pg_allocated pg'" "in_page pg p"
    "pg_ptr pg' = pg_ptr pg" "pg_size pg' = pg_size pg" "pg_n pg' = Suc (pg_n pg)" "pg_allocated pg' \<le> pg_size pg'"
proof -
  let ?s = "pg_ptr pg + pg_allocated pg"
  let ?o = "if ?s mod al = 0 then 0 else al - ?s mod al"
  have p: "p = ?s + ?o" "pg' = pg\<lparr>pg_wasted := pg_wasted pg + ?o, pg_allocated := p - pg_ptr pg + sz, pg_n := pg_n pg + 1\<rparr>"
    "p - pg_ptr pg + sz \<le> pg_size pg"
    using assms(1) by (auto simp: page_alloc_def Let_def split: if_split_asm)
  show "al dvd p"
  proof (cases "?s mod al = 0")
    case True
    then show ?thesis by (simp add: p(1) mod_0_imp_dvd)
  next
    case False
    have "?s + (al - ?s mod al) = ?s div al * al + al"
      using assms(2) mod_less_divisor [of al ?s] div_mult_mod_eq [of ?s al] by linarith
    also have "\<dots> = (?s div al + 1) * al" by simp
    finally have "p = (?s div al + 1) * al" using False p(1) by simp
    then show ?thesis by simp
  qed
  have le: "?s \<le> p" using p(1) by simp
  then show "?s \<le> p" "p + sz = pg_ptr pg + pg_allocated pg'" "in_page pg p" "pg_allocated pg' \<le> pg_size pg'"
    using p(3) assms(3) by (simp_all add: p(2) in_page_def)
  show "pg_ptr pg' = pg_ptr pg" "pg_size pg' = pg_size pg" "pg_n pg' = Suc (pg_n pg)" by (simp_all add: p(2))
qed

lemma alloc_in_cases:
  assumes "layout_ok psize ALIGNMENT" "bk psize ALIGNMENT \<noteq> Panic"
  shows "case alloc_in bk psize sz al ps of
     (Ok p, ps', f) \<Rightarrow>
       (\<exists>xs pg ys pg'. held ps = xs @ pg # ys \<and> held ps' = xs @ pg' # ys \<and> page_alloc sz al pg = Some (p, pg')) \<or>
       (\<exists>xs ys a pg'. held ps = xs @ ys \<and> held ps' = xs @ pg' # ys \<and> bk psize ALIGNMENT = Ok a \<and>
          page_alloc sz al (page_new a psize) = Some (p, pg'))
   | (Err e, ps', f) \<Rightarrow> ps' = ps
   | (Panic, _) \<Rightarrow> False"
  using assms
proof (induction bk psize sz al ps rule: alloc_in.induct)
  case (2 bk psize sz al pg ps)
  show ?case
  proof (cases "page_alloc sz al pg")
    case None
    obtain r ps' f where r: "alloc_in bk psize sz al ps = (r, ps', f)" by (metis prod_cases3)
    show ?thesis
    proof (cases r)
      case (Ok p)
      from 2(1) [OF None 2(2,3)] r Ok consider
        xs pg1 ys pg' where "held ps = xs @ pg1 # ys" "held ps' = xs @ pg' # ys" "page_alloc sz al pg1 = Some (p, pg')"
      | xs ys a pg' where "held ps = xs @ ys" "held ps' = xs @ pg' # ys" "bk psize ALIGNMENT = Ok a"
          "page_alloc sz al (page_new a psize) = Some (p, pg')"
        by auto
      then show ?thesis
      proof cases
        case 1
        then have "held (Some pg # ps) = (pg # xs) @ pg1 # ys" "held (Some pg # ps') = (pg # xs) @ pg' # ys" by simp_all
        with 1(3) None r Ok show ?thesis by (simp del: append_Cons) blast
      next
        case 2
        then have "held (Some pg # ps) = (pg # xs) @ ys" "held (Some pg # ps') = (pg # xs) @ pg' # ys" by simp_all
        with 2(3,4) None r Ok show ?thesis by (simp del: append_Cons) blast
      qed
    qed (use 2(1) [OF None 2(2,3)] r None in auto)
  next
    case (Some y)
    then show ?thesis by (cases y) (auto intro: exI [of _ "[]"])
  qed
next
  case (3 bk psize sz al ps)
  show ?case
  proof (cases "bk psize ALIGNMENT")
    case (Ok a)
    show ?thesis
    proof (cases "page_alloc sz al (page_new a psize)")
      case (Some y)
      then obtain p pg' where y: "page_alloc sz al (page_new a psize) = Some (p, pg')" by (cases y) auto
      have "held (None # ps) = [] @ held ps" "held (Some pg' # ps) = [] @ pg' # held ps" by simp_all
      with y Ok 3 show ?thesis by (simp del: append_Nil) blast
    qed (use Ok 3 in simp)
  qed (use 3 in simp_all)
qed simp

lemma sorted_wrt_middle:
  "sorted_wrt R (xs @ y # ys) \<longleftrightarrow> sorted_wrt R (xs @ ys) \<and> (\<forall>x\<in>set xs. R x y) \<and> (\<forall>x\<in>set ys. R y x)"
  by (auto simp: sorted_wrt_append)

lemma pages_ok_alloc:
  assumes others: "sorted_wrt (\<lambda>a b. apart (span a) (span b)) (xs @ ys)" "\<forall>q\<in>set (xs @ ys). page_ok psize live q"
    and pg: "page_fits psize live pg" "\<forall>q\<in>set (xs @ ys). apart (span q) (span pg)"
    and live: "\<forall>b\<in>set live. 0 < snd b \<and> (\<exists>q\<in>set (pg # xs @ ys). in_page q (fst b))" "sorted_wrt apart live"
    and alloc: "page_alloc sz al pg = Some (p, pg')" "0 < al" "0 < sz"
  shows "pages_ok psize (xs @ pg' # ys) ((p, sz) # live)"
proof -
  note a = page_alloc_block [OF alloc]
  have sp: "span pg' = span pg" "in_page pg' = in_page pg" by (simp_all add: span_def fun_eq_iff in_page_def a)
  have pl: "page_live live pg' = page_live live pg" by (simp add: page_live_def sp)
  have fits': "page_ok psize ((p, sz) # live) pg'"
    using pg(1) a by (auto simp: page_ok_def page_fits_def page_live_def sp) fastforce
  have other': "page_ok psize ((p, sz) # live) q" if "q \<in> set (xs @ ys)" for q
  proof -
    have "\<not> in_page q p" using that pg(2) a(4) apart_span by blast
    then have "page_live ((p, sz) # live) q = page_live live q" by (simp add: page_live_def)
    moreover have "page_ok psize live q" using that others(2) by blast
    ultimately show ?thesis unfolding page_ok_def page_fits_def by metis
  qed
  have new: "apart (p, sz) b" if b: "b \<in> set live" for b
  proof -
    obtain q where q: "q \<in> set (pg # xs @ ys)" "in_page q (fst b)" using live(1) b by blast
    then have mem: "b \<in> set (page_live live q)" using b by (simp add: page_live_def)
    show ?thesis
    proof (cases "q = pg")
      case True
      then have "fst b + snd b \<le> pg_ptr pg + pg_allocated pg" using pg(1) mem by (simp add: page_fits_def)
      with a(2) show ?thesis by (simp add: apart_def)
    next
      case False
      then have q': "q \<in> set (xs @ ys)" using q(1) by simp
      then have fq: "page_fits psize live q" using others(2) by (simp add: page_ok_def)
      then have "fst b + snd b \<le> pg_ptr q + pg_size q" "pg_ptr q \<le> fst b"
        using mem q(2) by (auto simp: page_fits_def in_page_def)
      moreover have "apart (span q) (span pg)" using pg(2) q' by blast
      moreover have "pg_ptr pg \<le> p" "p + sz \<le> pg_ptr pg + pg_size pg" using a pg(1) by simp_all
      ultimately show ?thesis by (auto simp: apart_def span_def)
    qed
  qed
  have "sorted_wrt (\<lambda>a b. apart (span a) (span b)) (xs @ pg' # ys)"
    unfolding sorted_wrt_middle using others(1) pg(2) apart_sym by (auto simp: sp)
  moreover have "\<forall>q\<in>set (xs @ pg' # ys). page_ok psize ((p, sz) # live) q" using fits' other' by auto
  moreover have "\<forall>b\<in>set ((p, sz) # live). 0 < snd b \<and> (\<exists>q\<in>set (xs @ pg' # ys). in_page q (fst b))"
    using live(1) alloc(3) a(4) by (auto simp: sp)
  moreover have "sorted_wrt apart ((p, sz) # live)" using live(2) new by simp
  ultimately show ?thesis unfolding pages_ok_def by blast
qed

lemma pa_alloc_ok:
  assumes inv: "pa_inv h live" and fair: "pa_fair bk h" and al: "0 < al"
  shows "wpM (pa_alloc bk sz al) (\<lambda>p t. pa_inv t ((p, sz) # live) \<and> al dvd p) (\<lambda>_ t. pa_inv t live) h"
proof (cases "sz = 0 \<or> pa_poisoned h")
  case True
  then show ?thesis using inv by (auto simp: pa_alloc_def wpM_def)
next
  case False
  let ?n = "pa_page_size h"
  have pages: "pages_ok ?n (held (pa_pages h)) live" "layout_ok ?n ALIGNMENT" using inv by (simp_all add: pa_inv_def)
  obtain r ps f where r: "alloc_in bk ?n sz al (pa_pages h) = (r, ps, f)" by (metis prod_cases3)
  have bk: "bk ?n ALIGNMENT \<noteq> Panic" using fair by (simp add: pa_fair_def)
  note cases = alloc_in_cases [where bk = bk and psize = ?n, OF pages(2) bk, where sz = sz and al = al and ps = "pa_pages h", unfolded r]
  have "pages_ok ?n (held ps) ((p, sz) # live) \<and> al dvd p" if p: "r = Ok p" for p
  proof -
    from cases p consider
      xs pg ys pg' where "held (pa_pages h) = xs @ pg # ys" "held ps = xs @ pg' # ys" "page_alloc sz al pg = Some (p, pg')"
    | xs ys a pg' where "held (pa_pages h) = xs @ ys" "held ps = xs @ pg' # ys" "bk ?n ALIGNMENT = Ok a"
        "page_alloc sz al (page_new a ?n) = Some (p, pg')"
      by auto
    then show ?thesis
    proof cases
      case 1
      have "pages_ok ?n (xs @ pg' # ys) ((p, sz) # live)"
        using pages(1) 1(1) False al apart_sym
        by (intro pages_ok_alloc [OF _ _ _ _ _ _ 1(3)]) (auto simp: pages_ok_def page_ok_def sorted_wrt_middle)
      then show ?thesis using 1 False al page_alloc_block(1) by auto
    next
      case 2
      have far: "\<forall>q\<in>set (xs @ ys). apart (span q) (span (page_new a ?n))"
        using fair 2(1,3) apart_sym by (auto simp: pa_fair_def span_def page_new_def)
      have "\<not> in_page (page_new a ?n) (fst b)" if "b \<in> set live" for b
        using pages(1) that far apart_span unfolding pages_ok_def 2(1) by blast
      then have none: "page_live live (page_new a ?n) = []" by (simp add: page_live_def)
      have "pages_ok ?n (xs @ pg' # ys) ((p, sz) # live)"
        using pages(1) 2(1) False al far none
        by (intro pages_ok_alloc [OF _ _ _ far _ _ 2(4)]) (auto simp: pages_ok_def page_fits_def page_new_def)
      then show ?thesis using 2 False al page_alloc_block(1) by auto
    qed
  qed
  then show ?thesis
    using False r cases inv pages(2) by (auto simp: pa_alloc_def wpM_def pa_inv_def split: result.splits)
qed

lemma dealloc_in_cases:
  "case dealloc_in p ps of
     (Ok True, ps', f) \<Rightarrow> \<exists>xs pg ys. held ps = xs @ pg # ys \<and> in_page pg p \<and> 0 < pg_n pg \<and>
        (if pg_n pg = 1 then held ps' = xs @ ys else held ps' = xs @ pg\<lparr>pg_n := pg_n pg - 1\<rparr> # ys)
   | (Ok False, _) \<Rightarrow> \<forall>pg\<in>set (held ps). \<not> in_page pg p
   | (Err e, _) \<Rightarrow> False
   | (Panic, _) \<Rightarrow> \<exists>pg\<in>set (held ps). in_page pg p \<and> pg_n pg = 0"
proof (induction p ps rule: dealloc_in.induct)
  case (3 p pg ps)
  show ?case
  proof (cases "in_page pg p")
    case True
    have "\<exists>xs q ys. held (Some pg # ps) = xs @ q # ys \<and> in_page q p \<and> 0 < pg_n q \<and>
        (if pg_n q = 1 then held ps' = xs @ ys else held ps' = xs @ q\<lparr>pg_n := pg_n q - 1\<rparr> # ys)"
      if "0 < pg_n pg" "held ps' = (if pg_n pg = 1 then held ps else pg\<lparr>pg_n := pg_n pg - 1\<rparr> # held ps)" for ps'
      by (intro exI [where x = "[]"] exI [where x = pg] exI [where x = "held ps"]) (use that True in simp)
    then show ?thesis using True
      by (auto simp: page_dealloc_def in_page_def split: if_split_asm)
  next
    case False
    then have skip: "page_dealloc p pg = (Ok None :: (bool option, alloc_error) result, pg)" by (auto simp: page_dealloc_def in_page_def)
    obtain r ps' f where r: "dealloc_in p ps = (r, ps', f)" by (metis prod_cases3)
    note IH = 3 [OF skip [symmetric] refl refl, unfolded r]
    show ?thesis
    proof (cases "r = Ok True")
      case True
      then obtain xs pg1 ys where "held ps = xs @ pg1 # ys" "in_page pg1 p" "0 < pg_n pg1"
        "if pg_n pg1 = 1 then held ps' = xs @ ys else held ps' = xs @ pg1\<lparr>pg_n := pg_n pg1 - 1\<rparr> # ys"
        using IH by auto
      then have "held (Some pg # ps) = (pg # xs) @ pg1 # ys \<and> in_page pg1 p \<and> 0 < pg_n pg1 \<and>
          (if pg_n pg1 = 1 then held (Some pg # ps') = (pg # xs) @ ys
           else held (Some pg # ps') = (pg # xs) @ pg1\<lparr>pg_n := pg_n pg1 - 1\<rparr> # ys)"
        by simp
      then have "\<exists>xs q ys. held (Some pg # ps) = xs @ q # ys \<and> in_page q p \<and> 0 < pg_n q \<and>
          (if pg_n q = 1 then held (Some pg # ps') = xs @ ys else held (Some pg # ps') = xs @ q\<lparr>pg_n := pg_n q - 1\<rparr> # ys)"
        by blast
      moreover have "dealloc_in p (Some pg # ps) = (Ok True, Some pg # ps', f)" using skip r True by simp
      ultimately show ?thesis by (simp only: prod.case result.case bool.case)
    next
      case no: False
      then show ?thesis using IH skip r False by (cases r) auto
    qed
  qed
qed (simp_all split: prod.splits result.splits bool.splits split del: if_split cong: if_cong)

lemma sorted_wrt_remove1: "sorted_wrt R xs \<Longrightarrow> sorted_wrt R (remove1 x xs)"
  by (induction xs) (auto dest: notin_set_remove1 [THEN contrapos_pp])

lemma page_live_remove1: "page_live (remove1 b live) pg = remove1 b (page_live live pg)"
  by (simp add: page_live_def filter_remove1)

lemma pages_ok_dealloc:
  assumes ok: "pages_ok psize (xs @ pg # ys) live" and b: "(p, sz) \<in> set live" "in_page pg p"
  shows "pages_ok psize (if pg_n pg = 1 then xs @ ys else xs @ pg\<lparr>pg_n := pg_n pg - 1\<rparr> # ys) (remove1 (p, sz) live)"
proof -
  let ?live = "remove1 (p, sz) live" and ?pg = "pg\<lparr>pg_n := pg_n pg - 1\<rparr>"
  have sp: "span (pg\<lparr>pg_n := k\<rparr>) = span pg" "in_page (pg\<lparr>pg_n := k\<rparr>) = in_page pg" for k
    by (simp_all add: span_def fun_eq_iff in_page_def)
  have sub: "set (remove1 (p, sz) l) \<subseteq> set l" for l :: "block list" by (rule set_remove1_subset)
  have mem: "(p, sz) \<in> set (page_live live pg)" using b by (simp add: page_live_def)
  have pok: "page_ok psize live pg" using ok by (simp add: pages_ok_def)
  have n: "length (page_live ?live pg) = pg_n pg - 1"
    using pok mem by (simp add: page_live_remove1 length_remove1 page_ok_def page_fits_def)
  have other: "page_ok psize ?live q" if q: "q \<in> set (xs @ ys)" for q
  proof -
    have "apart (span q) (span pg) \<or> apart (span pg) (span q)" using ok q by (auto simp: pages_ok_def sorted_wrt_middle)
    then have "apart (span q) (span pg)" using apart_sym by blast
    then have "\<not> in_page q p" using b(2) apart_span by blast
    then have "page_live ?live q = page_live live q"
      unfolding page_live_remove1 by (intro remove1_idem) (simp add: page_live_def)
    moreover have "page_ok psize live q" using ok q by (auto simp: pages_ok_def)
    ultimately show ?thesis unfolding page_ok_def page_fits_def by metis
  qed
  have own: "page_ok psize ?live ?pg" if "pg_n pg \<noteq> 1"
  proof -
    have "page_live ?live ?pg = page_live ?live pg" by (simp add: page_live_def sp)
    then show ?thesis
      using pok n that sub [of "page_live live pg"] by (auto simp: page_ok_def page_fits_def page_live_remove1)
  qed
  have apart_all: "sorted_wrt apart ?live" using ok by (auto simp: pages_ok_def intro: sorted_wrt_remove1)
  have blocks: "0 < snd c \<and> (\<exists>q\<in>set (xs @ pg # ys). in_page q (fst c))" if "c \<in> set ?live" for c
    using ok that sub [of live] unfolding pages_ok_def by blast
  show ?thesis
  proof (cases "pg_n pg = 1")
    case True
    then have "page_live ?live pg = []" using n by simp
    then have gone: "\<not> in_page pg (fst c)" if "c \<in> set ?live" for c
      using that by (auto simp: page_live_def filter_empty_conv)
    have "\<exists>q\<in>set (xs @ ys). in_page q (fst c)" if "c \<in> set ?live" for c
      using blocks [OF that] gone [OF that] by auto
    then show ?thesis using True other blocks apart_all ok by (auto simp: pages_ok_def sorted_wrt_middle)
  next
    case False
    have "\<exists>q\<in>set (xs @ ?pg # ys). in_page q (fst c)" if "c \<in> set ?live" for c
      using blocks [OF that] by (auto simp: sp)
    then show ?thesis using False other own blocks apart_all ok by (auto simp: pages_ok_def sorted_wrt_middle sp)
  qed
qed

lemma held_empty: "held ps = [] \<longleftrightarrow> list_all (\<lambda>b. b = None) ps"
  by (induction ps rule: held.induct) simp_all

lemma pa_dealloc_ok:
  assumes inv: "pa_inv h live" and b: "(p, sz) \<in> set live"
  shows "wpM (pa_dealloc p) (\<lambda>_ t. pa_inv t (remove1 (p, sz) live)) (\<lambda>_ _. False) h"
proof -
  have pages: "pages_ok (pa_page_size h) (held (pa_pages h)) live" using inv by (simp add: pa_inv_def)
  obtain r ps f where r: "dealloc_in p (pa_pages h) = (r, ps, f)" by (metis prod_cases3)
  note cases = dealloc_in_cases [where p = p and ps = "pa_pages h", unfolded r]
  obtain q where q: "q \<in> set (held (pa_pages h))" "in_page q p" using pages b by (auto simp: pages_ok_def)
  have "r = Ok True"
  proof (cases r)
    case (Ok x)
    then show ?thesis using cases q by (cases x) auto
  next
    case Panic
    then show ?thesis using cases pages by (auto simp: pages_ok_def page_ok_def)
  qed (use cases in auto)
  with cases obtain xs pg ys where split: "held (pa_pages h) = xs @ pg # ys" "in_page pg p"
    "held ps = (if pg_n pg = 1 then xs @ ys else xs @ pg\<lparr>pg_n := pg_n pg - 1\<rparr> # ys)"
    by (auto split: if_splits)
  have "pages_ok (pa_page_size h) (held ps) (remove1 (p, sz) live)"
    unfolding split(3) using pages_ok_dealloc [OF _ b split(2)] pages split(1) by metis
  then show ?thesis
    using \<open>r = Ok True\<close> r inv by (simp add: pa_dealloc_def wpM_def pa_inv_def held_empty)
qed

interpretation page_heap: allocator pa_alloc pa_dealloc pa_fair pa_inv
  by unfold_locales (fact pa_alloc_ok, fact pa_dealloc_ok, simp add: pa_inv_def pages_ok_def)

lemma pa_inv_new: "layout_ok psize ALIGNMENT \<Longrightarrow> pa_inv (pa_new n psize) []"
proof -
  have "held (replicate n None) = []" by (induction n) simp_all
  then show "layout_ok psize ALIGNMENT \<Longrightarrow> pa_inv (pa_new n psize) []" by (simp add: pa_inv_def pa_new_def pages_ok_def)
qed

text \<open>
  Claim C5. The page allocator is safe through any sequence of requests and frees, in any order and whatever
  the allocator behind it answers: the live blocks are pairwise disjoint and lie inside pages it holds, each
  of them can be freed without a panic, a block handed out is aligned as requested, and pages are held exactly
  as long as blocks are, so that the heap is usable again as soon as the last block is freed.
\<close>

theorem page_allocator_safe:
  assumes "heap_reach pa_alloc pa_dealloc pa_fair (pa_new n psize) h live" "layout_ok psize ALIGNMENT"
  shows "sorted_wrt apart live \<and>
    (\<forall>b\<in>set live. \<exists>pg\<in>set (held (pa_pages h)). pg_ptr pg \<le> fst b \<and> fst b + snd b \<le> pg_ptr pg + pg_size pg) \<and>
    (held (pa_pages h) = [] \<longleftrightarrow> live = []) \<and> (pa_poisoned h \<longrightarrow> live \<noteq> []) \<and>
    (\<forall>b\<in>set live. fst (pa_dealloc (fst b) h) = Ok ()) \<and>
    (\<forall>bk sz al. pa_fair bk h \<longrightarrow> 0 < al \<longrightarrow>
       (case fst (pa_alloc bk sz al h) of Ok p \<Rightarrow> al dvd p \<and> (\<forall>b\<in>set live. apart (p, sz) b) | Err e \<Rightarrow> True | Panic \<Rightarrow> False))"
proof -
  have inv: "pa_inv h live"
    using page_heap.reach_inv [OF assms(1) pa_inv_new [OF assms(2)]] .
  then have pages: "pages_ok (pa_page_size h) (held (pa_pages h)) live" by (simp add: pa_inv_def)
  have inside: "\<exists>pg\<in>set (held (pa_pages h)). pg_ptr pg \<le> fst b \<and> fst b + snd b \<le> pg_ptr pg + pg_size pg"
    if b: "b \<in> set live" for b
  proof -
    obtain pg where pg: "pg \<in> set (held (pa_pages h))" "in_page pg (fst b)" using pages b by (auto simp: pages_ok_def)
    then have "page_fits (pa_page_size h) live pg" "b \<in> set (page_live live pg)"
      using pages b by (auto simp: pages_ok_def page_ok_def page_live_def)
    then have "fst b + snd b \<le> pg_ptr pg + pg_size pg" by (auto simp: page_fits_def)
    with pg show ?thesis by (auto simp: in_page_def)
  qed
  have empty: "held (pa_pages h) = [] \<longleftrightarrow> live = []"
  proof
    assume "live = []"
    then have "pg_n pg = 0 \<and> 0 < pg_n pg" if "pg \<in> set (held (pa_pages h))" for pg
      using pages that \<open>live = []\<close> unfolding pages_ok_def page_ok_def page_fits_def page_live_def by fastforce
    then show "held (pa_pages h) = []" by (cases "held (pa_pages h)") force+
  qed (use inside in \<open>cases live\<close>, auto)
  have free: "fst (pa_dealloc (fst b) h) = Ok ()" if "b \<in> set live" for b
    using pa_dealloc_ok [OF inv, of "fst b" "snd b"] that by (auto simp: wpM_def split: prod.splits result.splits)
  have get: "case fst (pa_alloc bk sz al h) of Ok p \<Rightarrow> al dvd p \<and> (\<forall>b\<in>set live. apart (p, sz) b) | Err e \<Rightarrow> True | Panic \<Rightarrow> False"
    if "pa_fair bk h" "0 < al" for bk sz al
    using pa_alloc_ok [OF inv that, of sz] by (auto simp: wpM_def pa_inv_def pages_ok_def split: prod.splits result.splits)
  show ?thesis
    using page_heap.reach_apart [OF assms(1) pa_inv_new [OF assms(2)]] inside empty free get inv
    by (auto simp: pa_inv_def)
qed

lemma page_allocator_safe_witness:
  "\<exists>h. heap_reach pa_alloc pa_dealloc pa_fair (pa_new 2 128) h [(8, 64)] \<and> pa_poisoned h \<and>
     fst (pa_dealloc 8 h) = Ok () \<and> fst (pa_alloc (\<lambda>_ _. Ok 500) 16 8 h) = Err AE_HeapPoisoned"
proof -
  let ?bk = "\<lambda>_ _. Ok 8" and ?reach = "heap_reach pa_alloc pa_dealloc pa_fair (pa_new 2 128)"
  let ?h = "\<lambda>k n p. \<lparr>pa_page_size = 128,
    pa_pages = [Some \<lparr>pg_ptr = 8, pg_size = 128, pg_allocated = k, pg_n = n, pg_wasted = 0\<rparr>, None],
    pa_poisoned = p, pa_returned = []\<rparr>"
  have two: "replicate 2 None = [None, None]" by (simp add: numeral_2_eq_2)
  have "?reach (pa_new 2 128) []" by (rule heap_reach.start)
  then have "?reach (?h 64 1 False) [(8, 64)]"
    by (rule heap_reach.allocated [where b = ?bk and al = 8])
      (simp_all add: pa_fair_def pa_new_def two pa_alloc_def page_new_def page_alloc_def
        layout_ok_def ALIGNMENT_def ISIZE_MAX_def)
  then have "?reach (?h 128 2 False) [(72, 64), (8, 64)]"
    by (rule heap_reach.allocated [where b = "\<lambda>_ _. Err AE_OutOfMemory" and al = 8])
      (simp_all add: pa_fair_def pa_alloc_def page_alloc_def)
  then have "?reach (?h 128 1 True) (remove1 (72, 64) [(72, 64), (8, 64)])"
    by (rule heap_reach.freed) (simp_all add: pa_dealloc_def page_dealloc_def)
  then have live: "?reach (?h 128 1 True) [(8, 64)]" by simp
  from page_allocator_safe [OF this] have "fst (pa_dealloc 8 (?h 128 1 True)) = Ok ()"
    by (simp add: layout_ok_def ALIGNMENT_def ISIZE_MAX_def)
  with live show ?thesis by (intro exI [where x = "?h 128 1 True"]) (simp add: pa_alloc_def)
qed

end
