(* ===== verification/Owned.thy ===== *)
theory Owned
  imports Module_Data Paging "HOL-Library.Multiset"
begin

text \<open>
  The owned containers: \<open>InnerVec\<close> (src/util/inner_vec.rs), \<open>Vec\<close> and its iterator \<open>IntoIter\<close>
  (src/util/vec.rs), boxed values and slices (src/util/box_.rs), strings (src/util/string.rs) and the reference counts of
  \<open>Rc\<close> (src/util/rc.rs). A Rust value is moved out of raw memory by \<open>ptr::read\<close> and into it by
  \<open>ptr::write\<close>: the memory behind a pointer is a list of slots, \<open>None\<close> a slot that holds no value (never
  written, or moved out). Reading such a slot is undefined behaviour, which the model makes a panic; writing
  over a value forgets it. So losing an element, or dropping one twice, is visible in the model.

  \<open>esz\<close> and \<open>eal\<close> are size and alignment of the element type, \<open>bk\<close> is the allocator's answer.

  Lemmas: through any use of a vector, its iterator and its boxed slice each element that went in comes out
  exactly once, nothing undefined happens and the buffer is freed exactly once, with the layout it was
  allocated with; the count of an \<open>Rc\<close> is its number of handles.
\<close>

section \<open>InnerVec\<close>

record 'a inner_vec =
  iv_ptr :: nat
  iv_capacity :: nat
  iv_len :: nat
  iv_buf :: "'a option list"

definition ptr_read :: "'a option list \<Rightarrow> nat \<Rightarrow> ('a \<times> 'a option list) option" where
  "ptr_read buf i = (case get_opt buf i of Some (Some x) \<Rightarrow> Some (x, buf[i := None]) | _ \<Rightarrow> None)"

definition iv_zero :: "'a inner_vec" where
  "iv_zero = \<lparr>iv_ptr = 0, iv_capacity = 0, iv_len = 0, iv_buf = []\<rparr>"

definition iv_from_raw_parts :: "nat \<Rightarrow> nat \<Rightarrow> nat \<Rightarrow> 'a option list \<Rightarrow> 'a inner_vec" where
  "iv_from_raw_parts ptr capacity len buf = \<lparr>iv_ptr = ptr, iv_capacity = capacity, iv_len = len, iv_buf = buf\<rparr>"

definition iv_is_empty :: "'a inner_vec \<Rightarrow> bool" where
  "iv_is_empty v = (iv_len v = 0)"

definition iv_try_push :: "'a \<Rightarrow> ('a inner_vec, unit, alloc_error) m" where
  "iv_try_push x = (\<lambda>v.
     if iv_len v < iv_capacity v then
       (if iv_len v < length (iv_buf v) then (Ok (), v\<lparr>iv_buf := (iv_buf v)[iv_len v := Some x], iv_len := iv_len v + 1\<rparr>)
        else (Panic, v))
     else (Err AE_OutOfMemory, v))"

definition iv_push :: "'a \<Rightarrow> ('a inner_vec, unit, 'e) m" where
  "iv_push x = (\<lambda>v. case iv_try_push x v of (Ok _, w) \<Rightarrow> (Ok (), w) | (_, w) \<Rightarrow> (Panic, w))"

definition iv_pop :: "('a inner_vec, 'a option, 'e) m" where
  "iv_pop = (\<lambda>v.
     if iv_len v = 0 then (Ok None, v)
     else let w = v\<lparr>iv_len := iv_len v - 1\<rparr> in
       case ptr_read (iv_buf w) (iv_len w) of
         Some (x, buf) \<Rightarrow> (Ok (Some x), w\<lparr>iv_buf := buf\<rparr>)
       | None \<Rightarrow> (Panic, w))"

definition iv_deref :: "'a inner_vec \<Rightarrow> ('a list, 'e) result" where
  "iv_deref v =
     (if iv_ptr v = 0 then Ok []
      else if iv_len v \<le> length (iv_buf v) \<and> list_all (\<lambda>b. b \<noteq> None) (take (iv_len v) (iv_buf v))
      then Ok (map the (take (iv_len v) (iv_buf v))) else Panic)"

section \<open>Vec\<close>

text \<open>\<open>Vec\<close> is an \<open>InnerVec\<close> that owns its buffer, and an allocator.\<close>

definition vec_new_in :: "backing \<Rightarrow> nat \<Rightarrow> nat \<Rightarrow> nat \<Rightarrow> ('a inner_vec, alloc_error) result" where
  "vec_new_in bk esz eal capacity =
     bindR (if 0 < capacity then
         (if \<not> layout_ok (esz * capacity) eal then Err AE_AllocationFailed else bk (esz * capacity) eal)
       else Ok 0) (\<lambda>ptr.
     Ok (iv_from_raw_parts ptr capacity 0 (replicate capacity None)))"

definition vec_from_exact_iter :: "backing \<Rightarrow> nat \<Rightarrow> nat \<Rightarrow> nat \<Rightarrow> 'a list \<Rightarrow> ('a inner_vec, alloc_error) result" where
  "vec_from_exact_iter bk esz eal n xs =
     bindR (vec_new_in bk esz eal n) (\<lambda>v. case forM xs iv_push v of
       (Ok _, o') \<Rightarrow> Ok o' | (Err e, _) \<Rightarrow> Err e | (Panic, _) \<Rightarrow> Panic)"

definition vec_try_clone :: "backing \<Rightarrow> nat \<Rightarrow> nat \<Rightarrow> ('a \<Rightarrow> 'a) \<Rightarrow> 'a inner_vec \<Rightarrow> ('a inner_vec, alloc_error) result" where
  "vec_try_clone bk esz eal clone v =
     bindR (vec_new_in bk esz eal (iv_capacity v)) (\<lambda>n.
       case forM [0..<iv_len v] (\<lambda>i. bindM (liftR (bindR (iv_deref v) (\<lambda>xs. at xs i))) (\<lambda>x. iv_push (clone x))) n of
         (Ok _, n') \<Rightarrow> Ok n' | (Err e, _) \<Rightarrow> Err e | (Panic, _) \<Rightarrow> Panic)"

definition vec_assume_init :: "'a inner_vec \<Rightarrow> 'a inner_vec" where
  "vec_assume_init v = v\<lparr>iv_len := iv_capacity v\<rparr>"

text \<open>A block of the heap: its address, size and alignment.\<close>

type_synonym layout_block = "nat \<times> nat \<times> nat"

text \<open>\<open>while self.pop().is_some() {}\<close>: the elements dropped, in order.\<close>

function pop_all :: "'a inner_vec \<Rightarrow> ('a list, unit) result" where
  "pop_all v = (case iv_pop v of
     (Ok None, _) \<Rightarrow> Ok []
   | (Ok (Some x), w) \<Rightarrow> bindR (pop_all w) (\<lambda>xs. Ok (x # xs))
   | (Err e, _) \<Rightarrow> Err e
   | (Panic, _) \<Rightarrow> Panic)"
  by pat_completeness auto

termination
  by (relation "measure iv_len") (auto simp: iv_pop_def Let_def split: if_splits option.splits)

text \<open>The elements dropped and the blocks freed.\<close>

definition vec_drop :: "nat \<Rightarrow> nat \<Rightarrow> 'a inner_vec \<Rightarrow> ('a list \<times> layout_block list, unit) result" where
  "vec_drop esz eal v =
     (if iv_capacity v \<noteq> 0 then
        bindR (pop_all v) (\<lambda>xs.
        if \<not> layout_ok (esz * iv_capacity v) eal then Panic
        else Ok (xs, [(iv_ptr v, esz * iv_capacity v, eal)]))
      else Ok ([], []))"

section \<open>IntoIter\<close>

record 'a into_iter =
  ii_buf :: nat
  ii_cap :: nat
  ii_start :: nat
  ii_end :: nat
  ii_slots :: "'a option list"

definition vec_into_iter :: "'a inner_vec \<Rightarrow> 'a into_iter" where
  "vec_into_iter v = \<lparr>ii_buf = iv_ptr v, ii_cap = iv_capacity v, ii_start = 0,
     ii_end = (if iv_capacity v = 0 then 0 else iv_len v), ii_slots = iv_buf v\<rparr>"

definition ii_next :: "('a into_iter, 'a option, 'e) m" where
  "ii_next = (\<lambda>it.
     if ii_start it = ii_end it then (Ok None, it)
     else case ptr_read (ii_slots it) (ii_start it) of
       Some (x, s) \<Rightarrow> (Ok (Some x), it\<lparr>ii_slots := s, ii_start := ii_start it + 1\<rparr>)
     | None \<Rightarrow> (Panic, it))"

definition ii_next_back :: "('a into_iter, 'a option, 'e) m" where
  "ii_next_back = (\<lambda>it.
     if ii_start it = ii_end it then (Ok None, it)
     else let w = it\<lparr>ii_end := ii_end it - 1\<rparr> in
       case ptr_read (ii_slots w) (ii_end w) of
         Some (x, s) \<Rightarrow> (Ok (Some x), w\<lparr>ii_slots := s\<rparr>)
       | None \<Rightarrow> (Panic, w))"

definition ii_size_hint :: "'a into_iter \<Rightarrow> nat \<times> nat option" where
  "ii_size_hint it = (let len = ii_end it - ii_start it in (len, Some len))"

text \<open>\<open>for _ in &mut *self {}\<close>: the elements dropped, in order.\<close>

function next_all :: "'a into_iter \<Rightarrow> ('a list, unit) result" where
  "next_all it = (case ii_next it of
     (Ok None, _) \<Rightarrow> Ok []
   | (Ok (Some x), w) \<Rightarrow> bindR (next_all w) (\<lambda>xs. Ok (x # xs))
   | (Err e, _) \<Rightarrow> Err e
   | (Panic, _) \<Rightarrow> Panic)"
  by pat_completeness auto

termination
  by (relation "measure (\<lambda>it. length (ii_slots it) - ii_start it)")
    (auto simp: ii_next_def ptr_read_def get_opt_def split: if_splits option.splits)

definition ii_drop :: "nat \<Rightarrow> nat \<Rightarrow> 'a into_iter \<Rightarrow> ('a list \<times> layout_block list, unit) result" where
  "ii_drop esz eal it =
     (if ii_cap it \<noteq> 0 then
        bindR (next_all it) (\<lambda>xs.
        if \<not> layout_ok (esz * ii_cap it) eal then Panic
        else Ok (xs, [(ii_buf it, esz * ii_cap it, eal)]))
      else Ok ([], []))"

section \<open>Boxes\<close>

text \<open>\<open>Box<[T]>\<close>: an address and its slots. A slice that needs no memory has a dangling address.\<close>

record 'a box_slice =
  bx_ptr :: nat
  bx_slots :: "'a option list"

definition vec_into_boxed_slice :: "nat \<Rightarrow> 'a inner_vec \<Rightarrow> ('a box_slice, 'e) result" where
  "vec_into_boxed_slice eal v =
     (if iv_capacity v \<noteq> iv_len v then Panic
      else Ok \<lparr>bx_ptr = (if iv_capacity v = 0 then eal else iv_ptr v), bx_slots = take (iv_capacity v) (iv_buf v)\<rparr>)"

definition box_slice_drop :: "nat \<Rightarrow> nat \<Rightarrow> 'a box_slice \<Rightarrow> ('a list \<times> layout_block list, unit) result" where
  "box_slice_drop esz eal b =
     (if \<not> list_all (\<lambda>s. s \<noteq> None) (bx_slots b) then Panic
      else let sz = esz * length (bx_slots b) in
        Ok (map the (bx_slots b), if sz \<noteq> 0 then [(bx_ptr b, sz, eal)] else []))"

definition box_slice_try_clone :: "backing \<Rightarrow> nat \<Rightarrow> nat \<Rightarrow> ('a \<Rightarrow> 'a) \<Rightarrow> 'a box_slice \<Rightarrow> ('a box_slice, alloc_error) result" where
  "box_slice_try_clone bk esz eal clone b =
     bindR (vec_new_in bk esz eal (length (bx_slots b))) (\<lambda>n.
       case forM [0..<length (bx_slots b)] (\<lambda>i. case bx_slots b ! i of Some x \<Rightarrow> iv_push (clone x) | None \<Rightarrow> panicM) n of
         (Ok _, n') \<Rightarrow> vec_into_boxed_slice eal n' | (Err e, _) \<Rightarrow> Err e | (Panic, _) \<Rightarrow> Panic)"

text \<open>
  A boxed value of size \<open>esz\<close>: the address and the value. Beside its result \<open>new_in\<close> has the values it drops
  itself: a value that is not written to memory is dropped when the call returns, also that of a size of zero,
  which the box then holds (and drops) again.
\<close>

definition box_new_in :: "backing \<Rightarrow> nat \<Rightarrow> nat \<Rightarrow> 'a \<Rightarrow> (nat \<times> 'a, alloc_error) result \<times> 'a list" where
  "box_new_in bk esz eal x =
     (if esz = 0 then (Ok (eal, x), [x])
      else case bk esz eal of
        Ok ptr \<Rightarrow> (Ok (ptr, x), [])
      | Err e \<Rightarrow> (Err e, [x])
      | Panic \<Rightarrow> (Panic, [x]))"

definition box_into_inner :: "nat \<Rightarrow> nat \<Rightarrow> nat \<times> 'a \<Rightarrow> 'a \<times> layout_block list" where
  "box_into_inner esz eal b = (snd b, if esz \<noteq> 0 then [(fst b, esz, eal)] else [])"

definition box_drop :: "nat \<Rightarrow> nat \<Rightarrow> nat \<times> 'a \<Rightarrow> 'a \<times> layout_block list" where
  "box_drop esz eal b = (snd b, if esz \<noteq> 0 then [(fst b, esz, eal)] else [])"

section \<open>Strings\<close>

definition string_from_str :: "backing \<Rightarrow> u8 list \<Rightarrow> (u8 box_slice, validation_error) result" where
  "string_from_str bk s =
     bindR (case vec_new_in bk 1 1 (length s) of Ok v \<Rightarrow> Ok v | Err e \<Rightarrow> Err (VAllocError e) | Panic \<Rightarrow> Panic) (\<lambda>v. case forM s iv_push v of
       (Ok _, v') \<Rightarrow> vec_into_boxed_slice 1 v' | (Err e, _) \<Rightarrow> Err e | (Panic, _) \<Rightarrow> Panic)"

definition string_from_bytes :: "backing \<Rightarrow> u8 list \<Rightarrow> (u8 box_slice, validation_error) result" where
  "string_from_bytes bk s = (if utf8_valid s then string_from_str bk s else Err MalformedUtf8)"

definition string_from_vec :: "u8 inner_vec \<Rightarrow> (u8 box_slice, validation_error) result" where
  "string_from_vec v =
     bindR (iv_deref v) (\<lambda>s. if utf8_valid s then vec_into_boxed_slice 1 v else Err MalformedUtf8)"

section \<open>Rc\<close>

text \<open>
  \<open>Layout::extend\<close> and \<open>pad_to_align\<close> of the standard library, and with them the layout of
  \<open>RcInner<T>\<close>: the count, then the value (\<open>repr(C)\<close>).
\<close>

definition round_up :: "nat \<Rightarrow> nat \<Rightarrow> nat" where
  "round_up n al = (n + (al - 1)) div al * al"

definition layout_extend :: "nat \<times> nat \<Rightarrow> nat \<times> nat \<Rightarrow> ((nat \<times> nat) \<times> nat) option" where
  "layout_extend l n =
     (let al = max (snd l) (snd n); offset = round_up (fst l) (snd n); sz = offset + fst n in
      if layout_ok sz al then Some ((sz, al), offset) else None)"

definition pad_to_align :: "nat \<times> nat \<Rightarrow> nat \<times> nat" where
  "pad_to_align l = (round_up (fst l) (snd l), snd l)"

text \<open>The heap cell of an \<open>Rc\<close>; the value is \<open>None\<close> once dropped. A handle is the cell's address.\<close>

record 'v rc_inner =
  rc_count :: u32
  rc_value :: "'v option"

definition rc_layout :: "nat \<Rightarrow> nat \<Rightarrow> nat \<times> nat" where
  "rc_layout esz eal = pad_to_align (round_up 4 eal + esz, max 4 eal)"

text \<open>\<open>Rc::new_in\<close>: the leaked box of the cell, and the cells dropped when there is no memory for one.\<close>

definition rc_new_in :: "backing \<Rightarrow> nat \<Rightarrow> nat \<Rightarrow> 'v \<Rightarrow> (nat \<times> 'v rc_inner, alloc_error) result \<times> 'v rc_inner list" where
  "rc_new_in bk esz eal x =
     (case rc_layout esz eal of (sz, al) \<Rightarrow> box_new_in bk sz al \<lparr>rc_count = 1, rc_value = Some x\<rparr>)"

text \<open>\<open>new_uninit_slice_in\<close>: the address and the offset of the elements.\<close>

definition rc_new_uninit_slice_in :: "backing \<Rightarrow> nat \<Rightarrow> nat \<Rightarrow> nat \<Rightarrow> (nat \<times> nat, alloc_error) result" where
  "rc_new_uninit_slice_in bk esz eal len =
     (if \<not> layout_ok (esz * len) eal then Err AE_OutOfMemory
      else case layout_extend (4, 4) (esz * len, eal) of
        None \<Rightarrow> Err AE_OutOfMemory
      | Some (full, slice_offset) \<Rightarrow>
          (case pad_to_align full of (sz, al) \<Rightarrow> bindR (bk sz al) (\<lambda>ptr. Ok (ptr, slice_offset))))"

definition rc_new_slice_in :: "backing \<Rightarrow> nat \<Rightarrow> nat \<Rightarrow> nat \<Rightarrow> (nat \<Rightarrow> 'a) \<Rightarrow> (nat \<times> 'a list rc_inner, alloc_error) result" where
  "rc_new_slice_in bk esz eal len init =
     bindR (rc_new_uninit_slice_in bk esz eal len) (\<lambda>(ptr, offset).
       Ok (ptr, \<lparr>rc_count = 1, rc_value = Some (map init [0..<len])\<rparr>))"

definition rc_inc :: "('v rc_inner, unit, 'e) m" where
  "rc_inc = (\<lambda>r.
     if rc_count r = 0 then (Panic, r)
     else let strong = unat (rc_count r) + 1; t = r\<lparr>rc_count := word_of_nat strong\<rparr> in
       if (word_of_nat strong :: u32) \<noteq> 0 then (Ok (), t) else (Panic, t))"

definition rc_dec :: "('v rc_inner, nat, 'e) m" where
  "rc_dec = (\<lambda>r.
     if rc_count r = 0 then (Panic, r)
     else let new_count = unat (rc_count r) - 1 in (Ok new_count, r\<lparr>rc_count := word_of_nat new_count\<rparr>))"

definition rc_clone :: "nat \<Rightarrow> ('v rc_inner, nat, 'e) m" where
  "rc_clone ptr = bindM rc_inc (\<lambda>_. retM ptr)"

text \<open>
  Dropping a handle: the value dropped and the block freed with the last one. The layout of the block is that of
  the cell (\<open>Layout::for_value\<close>): \<open>lay\<close> gives the size and the alignment of the value in it.
\<close>

definition rc_block :: "('v \<Rightarrow> nat \<times> nat) \<Rightarrow> nat \<Rightarrow> 'v \<Rightarrow> layout_block" where
  "rc_block lay ptr x = (case lay x of (esz, eal) \<Rightarrow> (case rc_layout esz eal of (sz, al) \<Rightarrow> (ptr, sz, al)))"

definition rc_drop :: "('v \<Rightarrow> nat \<times> nat) \<Rightarrow> nat \<Rightarrow> ('v rc_inner, 'v option \<times> layout_block list, 'e) m" where
  "rc_drop lay ptr = bindM rc_dec (\<lambda>new_count.
     if new_count = 0 then (\<lambda>r. case rc_value r of
         Some x \<Rightarrow> (Ok (Some x, [rc_block lay ptr x]), r\<lparr>rc_value := None\<rparr>)
       | None \<Rightarrow> (Panic, r))
     else retM (None, []))"

definition rc_is_unique :: "'v rc_inner \<Rightarrow> bool" where
  "rc_is_unique r = (rc_count r = 1)"

definition rc_get_mut :: "'v rc_inner \<Rightarrow> 'v option" where
  "rc_get_mut r = (if rc_is_unique r then rc_value r else None)"

section \<open>The life of an Rc\<close>

text \<open>
  \<open>rc_life\<close>: the states of the cell of an \<open>Rc\<close>, the number of handles to it, and what was dropped and freed,
  through any sequence of clones, drops and mutations through \<open>get_mut\<close>, which keep the size of the value.
\<close>

inductive rc_life :: "('v \<Rightarrow> nat \<times> nat) \<Rightarrow> nat \<Rightarrow> 'v rc_inner \<Rightarrow> nat \<Rightarrow> 'v rc_inner \<Rightarrow> 'v list \<Rightarrow> layout_block list \<Rightarrow> bool"
  for lay ptr r0
where
  created: "rc_life lay ptr r0 1 r0 [] []"
| cloned: "\<lbrakk>rc_life lay ptr r0 n r dr fr; 0 < n; rc_clone ptr r = (Ok p :: (nat, unit) result, t)\<rbrakk> \<Longrightarrow> rc_life lay ptr r0 (n + 1) t dr fr"
| mutated: "\<lbrakk>rc_life lay ptr r0 n r dr fr; 0 < n; rc_get_mut r = Some x; lay y = lay x\<rbrakk> \<Longrightarrow>
    rc_life lay ptr r0 n (r\<lparr>rc_value := Some y\<rparr>) dr fr"
| dropped: "\<lbrakk>rc_life lay ptr r0 n r dr fr; 0 < n; rc_drop lay ptr r = (Ok (d, f) :: (_, unit) result, t)\<rbrakk> \<Longrightarrow>
    rc_life lay ptr r0 (n - 1) t (dr @ (case d of Some x \<Rightarrow> [x] | None \<Rightarrow> [])) (fr @ f)"

definition rc_inv :: "('v \<Rightarrow> nat \<times> nat) \<Rightarrow> nat \<Rightarrow> 'v \<Rightarrow> nat \<Rightarrow> 'v rc_inner \<Rightarrow> 'v list \<Rightarrow> layout_block list \<Rightarrow> bool" where
  "rc_inv lay ptr x0 n r dr fr \<longleftrightarrow> unat (rc_count r) = n \<and>
     (if n = 0 then rc_value r = None \<and> length dr = 1 \<and> fr = [rc_block lay ptr x0]
      else (\<exists>x. rc_value r = Some x \<and> lay x = lay x0) \<and> dr = [] \<and> fr = [])"

lemma rc_block_cong: "lay x = lay y \<Longrightarrow> rc_block lay ptr x = rc_block lay ptr y"
  by (simp add: rc_block_def)

lemma rc_life_inv:
  assumes "rc_life lay ptr r0 n r dr fr" "rc_count r0 = 1" "rc_value r0 = Some x0"
  shows "rc_inv lay ptr x0 n r dr fr"
  using assms
proof (induction rule: rc_life.induct)
  case (cloned n r dr fr p t)
  then have inv: "rc_inv lay ptr x0 n r dr fr" by simp
  from cloned.hyps(3) have "rc_count r \<noteq> 0" "t = r\<lparr>rc_count := rc_count r + 1\<rparr>" "rc_count r + 1 \<noteq> 0"
    by (auto simp: rc_clone_def bindM_def rc_inc_def Let_def retM_def add.commute split: if_splits)
  moreover from this have "unat (rc_count r + 1) = unat (rc_count r) + 1" by (metis add.commute Suc_eq_plus1 unatSuc)
  ultimately show ?case using inv cloned.hyps(2) by (auto simp: rc_inv_def)
next
  case (dropped n r dr fr d f t)
  then have inv: "rc_inv lay ptr x0 n r dr fr" by simp
  then obtain x where x: "rc_value r = Some x" "lay x = lay x0" "dr = []" "fr = []"
    using dropped.hyps(2) by (auto simp: rc_inv_def)
  have "unat (rc_count r) < 2 ^ 32" using unsigned_less [of "rc_count r"] by simp
  with inv have n: "unat (rc_count r) = n" "n < 2 ^ 32" by (simp_all add: rc_inv_def)
  then have "unat (word_of_nat (n - 1) :: u32) = n - 1" by (simp add: unsigned_of_nat take_bit_nat_eq_self)
  then show ?case using n dropped.hyps(2,3) x rc_block_cong [where lay = lay, OF x(2)]
    by (auto simp: rc_inv_def rc_drop_def bindM_def rc_dec_def Let_def retM_def split: if_splits option.splits) metis
qed (auto simp: rc_inv_def rc_get_mut_def split: if_splits)

text \<open>The freed block is the allocated one, for a sized value and for a slice.\<close>

lemma round_up_ge: "0 < al \<Longrightarrow> n \<le> round_up n al"
proof -
  assume al: "0 < al"
  have "round_up n al + (n + (al - 1)) mod al = n + (al - 1)" by (simp add: round_up_def)
  moreover have "(n + (al - 1)) mod al < al" using al by simp
  ultimately show ?thesis by linarith
qed

lemma rc_new_in_block:
  assumes "rc_new_in bk (fst (lay x)) (snd (lay x)) x = (Ok (ptr, r), dr)" "0 < snd (lay x)"
  shows "r = \<lparr>rc_count = 1, rc_value = Some x\<rparr> \<and> dr = [] \<and> (case rc_block lay ptr x of (p, sz, al) \<Rightarrow> bk sz al = Ok p)"
proof -
  obtain sz al where l: "rc_layout (fst (lay x)) (snd (lay x)) = (sz, al)" by (cases "rc_layout (fst (lay x)) (snd (lay x))")
  have "4 \<le> round_up 4 (snd (lay x)) + fst (lay x)" using round_up_ge [OF assms(2), of 4] by simp
  also have "\<dots> \<le> sz"
    using round_up_ge [of "max 4 (snd (lay x))" "round_up 4 (snd (lay x)) + fst (lay x)"] l
    by (auto simp: rc_layout_def pad_to_align_def)
  finally show ?thesis
    using assms(1) l by (auto simp: rc_new_in_def box_new_in_def rc_block_def split: prod.splits result.splits if_splits)
qed

lemma rc_new_slice_block:
  assumes "rc_new_slice_in bk esz eal len init = Ok (ptr, r)"
  shows "rc_value r = Some (map init [0..<len]) \<and>
    (case rc_block (\<lambda>xs. (esz * length xs, eal)) ptr (map init [0..<len]) of (p, sz, al) \<Rightarrow> bk sz al = Ok p)"
  using assms
  by (auto simp: rc_new_slice_in_def rc_new_uninit_slice_in_def bindR_def layout_extend_def rc_block_def rc_layout_def Let_def
      split: prod.splits result.splits if_splits)

text \<open>
  Claim C25. An \<open>Rc\<close> counts its handles: through any sequence of clones, drops and mutations the count is the
  number of handles and the value is alive while there is one; the last drop, and only that, drops the value
  and frees the block of the cell, whose layout is that of the value it was made with; \<open>get_mut\<close> gives access
  exactly when there is one handle; no drop panics, and a clone panics exactly when there are already 2^32 - 1
  handles.
\<close>

theorem rc_counts_handles:
  assumes "rc_life lay ptr r0 n r dr fr" "rc_count r0 = 1" "rc_value r0 = Some x0"
  shows "unat (rc_count r) = n \<and>
    (if n = 0 then length dr = 1 \<and> fr = [rc_block lay ptr x0] else rc_value r \<noteq> None \<and> dr = [] \<and> fr = []) \<and>
    (rc_get_mut r \<noteq> None \<longleftrightarrow> n = 1) \<and>
    (0 < n \<longrightarrow> wpM (rc_drop lay ptr) (\<lambda>(d, f) _. (d \<noteq> None \<longleftrightarrow> n = 1) \<and> (f \<noteq> [] \<longleftrightarrow> n = 1)) (\<lambda>(_ :: unit) _. False) r) \<and>
    (0 < n \<longrightarrow> (fst (rc_clone ptr r :: (nat, unit) result \<times> _) = Panic \<longleftrightarrow> n = 2 ^ 32 - 1))"
proof -
  have inv: "rc_inv lay ptr x0 n r dr fr" by (rule rc_life_inv [OF assms])
  have "unat (rc_count r) < 2 ^ 32" using unsigned_less [of "rc_count r"] by simp
  with inv have n: "unat (rc_count r) = n" "n < 2 ^ 32" by (simp_all add: rc_inv_def)
  have one: "rc_count r = 1 \<longleftrightarrow> n = 1" using n by (metis unat_1 word_unat_eq_iff)
  have zero: "rc_count r = 0 \<longleftrightarrow> n = 0" using n by (metis unat_0 unat_eq_zero)
  have wrap: "(word_of_nat (unat (rc_count r) + 1) :: u32) = 0 \<longleftrightarrow> n = 2 ^ 32 - 1"
  proof -
    have "(word_of_nat (unat (rc_count r) + 1) :: u32) = 0 \<longleftrightarrow> 2 ^ 32 dvd n + 1"
      using word_of_nat_eq_0_iff [where n = "n + 1" and 'a = 32] n(1) by simp
    also have "\<dots> \<longleftrightarrow> n + 1 = 2 ^ 32" using n(2) by (auto dest: dvd_imp_le)
    finally show ?thesis by simp
  qed
  show ?thesis
    using inv one zero wrap n(1)
    by (auto simp: rc_inv_def rc_get_mut_def rc_is_unique_def rc_drop_def rc_clone_def rc_dec_def rc_inc_def
        wpM_def bindM_def retM_def Let_def split: if_splits option.splits)
qed

lemma rc_counts_handles_witness:
  "\<exists>r. rc_life (\<lambda>_. (1, 1)) 64 \<lparr>rc_count = 1, rc_value = Some True\<rparr> 1 r [] [] \<and> rc_get_mut r \<noteq> None"
proof -
  let ?r = "\<lambda>c. \<lparr>rc_count = c, rc_value = Some True\<rparr>" and ?l = "\<lambda>_ :: bool. (1 :: nat, 1 :: nat)"
  have "rc_life ?l 64 (?r 1) 1 (?r 1) [] []" by (rule rc_life.created)
  then have "rc_life ?l 64 (?r 1) (1 + 1) (?r 2) [] []"
    by (rule rc_life.cloned [where p = 64]) (simp_all add: rc_clone_def bindM_def rc_inc_def Let_def retM_def)
  then have "rc_life ?l 64 (?r 1) (1 + 1 - 1) (?r 1) ([] @ (case None of Some x \<Rightarrow> [x] | None \<Rightarrow> [])) ([] @ [])"
    by (rule rc_life.dropped) (simp_all add: rc_drop_def bindM_def rc_dec_def Let_def retM_def)
  then have live: "rc_life ?l 64 (?r 1) 1 (?r 1) [] []" by simp
  from rc_counts_handles [OF this] have "rc_get_mut (?r 1) \<noteq> None" by simp
  with live show ?thesis by blast
qed

section \<open>The life of a vector\<close>

text \<open>The slots \<open>i\<close> to \<open>j\<close> hold values, and these values.\<close>

definition filled :: "'a option list \<Rightarrow> nat \<Rightarrow> nat \<Rightarrow> bool" where
  "filled buf i j \<longleftrightarrow> i \<le> j \<and> j \<le> length buf \<and> (\<forall>k. i \<le> k \<and> k < j \<longrightarrow> buf ! k \<noteq> None)"

definition held_in :: "'a option list \<Rightarrow> nat \<Rightarrow> nat \<Rightarrow> 'a list" where
  "held_in buf i j = map (\<lambda>k. the (buf ! k)) [i..<j]"

datatype 'a owner = O_Vec "'a inner_vec" | O_Iter "'a into_iter" | O_Box "'a box_slice" | O_Gone

fun owner_holds :: "'a owner \<Rightarrow> 'a list" where
  "owner_holds (O_Vec v) = held_in (iv_buf v) 0 (iv_len v)"
| "owner_holds (O_Iter it) = held_in (ii_slots it) (ii_start it) (ii_end it)"
| "owner_holds (O_Box b) = map the (bx_slots b)"
| "owner_holds O_Gone = []"

text \<open>
  \<open>owner_life\<close>: a vector, the iterator or the boxed slice it was turned into, through any sequence of
  operations: the elements that were moved in and out (a refused push drops its element), and the blocks
  allocated and freed.
\<close>

inductive owner_life ::
  "backing \<Rightarrow> nat \<Rightarrow> nat \<Rightarrow> 'a owner \<Rightarrow> 'a list \<Rightarrow> 'a list \<Rightarrow> layout_block list \<Rightarrow> layout_block list \<Rightarrow> bool"
  for bk esz eal
where
  created: "vec_new_in bk esz eal c = Ok v \<Longrightarrow>
    owner_life bk esz eal (O_Vec v) [] [] (if c = 0 then [] else [(iv_ptr v, esz * c, eal)]) []"
| pushed: "\<lbrakk>owner_life bk esz eal (O_Vec v) ins outs al fr; iv_try_push x v = (Ok (), w)\<rbrakk> \<Longrightarrow>
    owner_life bk esz eal (O_Vec w) (ins @ [x]) outs al fr"
| refused: "\<lbrakk>owner_life bk esz eal (O_Vec v) ins outs al fr; iv_try_push x v = (Err e, w)\<rbrakk> \<Longrightarrow>
    owner_life bk esz eal (O_Vec w) (ins @ [x]) (outs @ [x]) al fr"
| popped: "\<lbrakk>owner_life bk esz eal (O_Vec v) ins outs al fr; iv_pop v = (Ok (Some x) :: (_, unit) result, w)\<rbrakk> \<Longrightarrow>
    owner_life bk esz eal (O_Vec w) ins (outs @ [x]) al fr"
| iterated: "owner_life bk esz eal (O_Vec v) ins outs al fr \<Longrightarrow>
    owner_life bk esz eal (O_Iter (vec_into_iter v)) ins outs al fr"
| into_box: "\<lbrakk>owner_life bk esz eal (O_Vec v) ins outs al fr; vec_into_boxed_slice eal v = (Ok b :: (_, unit) result)\<rbrakk> \<Longrightarrow>
    owner_life bk esz eal (O_Box b) ins outs al fr"
| from_front: "\<lbrakk>owner_life bk esz eal (O_Iter it) ins outs al fr; ii_next it = (Ok (Some x) :: (_, unit) result, jt)\<rbrakk> \<Longrightarrow>
    owner_life bk esz eal (O_Iter jt) ins (outs @ [x]) al fr"
| from_back: "\<lbrakk>owner_life bk esz eal (O_Iter it) ins outs al fr; ii_next_back it = (Ok (Some x) :: (_, unit) result, jt)\<rbrakk> \<Longrightarrow>
    owner_life bk esz eal (O_Iter jt) ins (outs @ [x]) al fr"
| vec_dropped: "\<lbrakk>owner_life bk esz eal (O_Vec v) ins outs al fr; vec_drop esz eal v = Ok (xs, f)\<rbrakk> \<Longrightarrow>
    owner_life bk esz eal O_Gone ins (outs @ xs) al (fr @ f)"
| iter_dropped: "\<lbrakk>owner_life bk esz eal (O_Iter it) ins outs al fr; ii_drop esz eal it = Ok (xs, f)\<rbrakk> \<Longrightarrow>
    owner_life bk esz eal O_Gone ins (outs @ xs) al (fr @ f)"
| box_dropped: "\<lbrakk>owner_life bk esz eal (O_Box b) ins outs al fr; box_slice_drop esz eal b = Ok (xs, f)\<rbrakk> \<Longrightarrow>
    owner_life bk esz eal O_Gone ins (outs @ xs) al (fr @ f)"

definition block_of :: "nat \<Rightarrow> nat \<Rightarrow> nat \<Rightarrow> nat \<Rightarrow> layout_block list" where
  "block_of esz eal c ptr = (if c = 0 then [] else [(ptr, esz * c, eal)])"

fun owner_ok :: "nat \<Rightarrow> nat \<Rightarrow> layout_block list \<Rightarrow> 'a owner \<Rightarrow> bool" where
  "owner_ok esz eal al (O_Vec v) \<longleftrightarrow> filled (iv_buf v) 0 (iv_len v) \<and> length (iv_buf v) = iv_capacity v \<and>
     al = block_of esz eal (iv_capacity v) (iv_ptr v) \<and>
     (0 < iv_capacity v \<longrightarrow> layout_ok (esz * iv_capacity v) eal \<and> iv_ptr v \<noteq> 0)"
| "owner_ok esz eal al (O_Iter it) \<longleftrightarrow> filled (ii_slots it) (ii_start it) (ii_end it) \<and> length (ii_slots it) = ii_cap it \<and>
     al = block_of esz eal (ii_cap it) (ii_buf it) \<and> (0 < ii_cap it \<longrightarrow> layout_ok (esz * ii_cap it) eal)"
| "owner_ok esz eal al (O_Box b) \<longleftrightarrow> filled (bx_slots b) 0 (length (bx_slots b)) \<and>
     al = block_of esz eal (length (bx_slots b)) (bx_ptr b)"
| "owner_ok esz eal al O_Gone \<longleftrightarrow> length al \<le> 1"

lemma held_in_update: "k < i \<or> j \<le> k \<Longrightarrow> held_in (buf[k := b]) i j = held_in buf i j"
  by (auto simp: held_in_def nth_list_update)

lemma read_front:
  assumes "filled buf i j" "i < j"
  obtains x where "ptr_read buf i = Some (x, buf[i := None])" "held_in buf i j = x # held_in (buf[i := None]) (Suc i) j"
    "filled (buf[i := None]) (Suc i) j"
proof -
  obtain x where x: "buf ! i = Some x" using assms by (auto simp: filled_def)
  show ?thesis
  proof
    show "ptr_read buf i = Some (x, buf[i := None])" using assms x by (simp add: ptr_read_def get_opt_def filled_def)
    show "held_in buf i j = x # held_in (buf[i := None]) (Suc i) j"
      unfolding held_in_update [of i "Suc i", OF disjI1, OF lessI] using assms(2) x by (simp add: held_in_def upt_rec [of i])
    show "filled (buf[i := None]) (Suc i) j" using assms by (auto simp: filled_def nth_list_update)
  qed
qed

lemma read_back:
  assumes "filled buf i (Suc j)" "i \<le> j"
  obtains x where "ptr_read buf j = Some (x, buf[j := None])" "held_in buf i (Suc j) = held_in (buf[j := None]) i j @ [x]"
    "filled (buf[j := None]) i j"
proof -
  obtain x where x: "buf ! j = Some x" using assms by (auto simp: filled_def)
  show ?thesis
  proof
    show "ptr_read buf j = Some (x, buf[j := None])" using assms x by (simp add: ptr_read_def get_opt_def filled_def)
    show "held_in buf i (Suc j) = held_in (buf[j := None]) i j @ [x]"
      unfolding held_in_update [of j i, OF disjI2, OF order_refl] using assms(2) x by (simp add: held_in_def)
    show "filled (buf[j := None]) i j" using assms by (auto simp: filled_def nth_list_update)
  qed
qed

lemma filled_self: "i \<le> length buf \<Longrightarrow> filled buf i i"
  by (auto simp: filled_def)

lemma held_in_self [simp]: "held_in buf i i = []"
  by (simp add: held_in_def)

lemma vec_new_in_Ok:
  assumes "vec_new_in bk esz eal c = Ok v" "\<forall>s a. bk s a \<noteq> Ok 0"
  shows "owner_ok esz eal (block_of esz eal c (iv_ptr v)) (O_Vec v)" "iv_capacity v = c" "iv_len v = 0"
  using assms
  by (auto simp: vec_new_in_def bindR_Ok_iff iv_from_raw_parts_def block_of_def intro!: filled_self gr0I split: if_splits)

lemma iv_try_push_cases:
  assumes "owner_ok esz eal al (O_Vec v)"
  shows "case iv_try_push x v of
    (Ok _, w) \<Rightarrow> owner_ok esz eal al (O_Vec w) \<and> owner_holds (O_Vec w) = owner_holds (O_Vec v) @ [x]
  | (Err e, w) \<Rightarrow> w = v \<and> iv_len v = iv_capacity v
  | (Panic, _) \<Rightarrow> False"
proof -
  have "held_in ((iv_buf v)[iv_len v := Some x]) 0 (Suc (iv_len v)) = held_in (iv_buf v) 0 (iv_len v) @ [x]"
    if "iv_len v < length (iv_buf v)"
    using that held_in_update [of "iv_len v" 0 "iv_len v"] by (simp add: held_in_def)
  moreover have "filled ((iv_buf v)[iv_len v := Some x]) 0 (Suc (iv_len v))" if "iv_len v < length (iv_buf v)"
    using that assms by (auto simp: filled_def nth_list_update)
  ultimately show ?thesis using assms by (auto simp: iv_try_push_def filled_def)
qed

lemma iv_pop_cases:
  assumes "owner_ok esz eal al (O_Vec v)"
  shows "case iv_pop v of
    (Ok None, w) \<Rightarrow> w = v \<and> owner_holds (O_Vec v) = []
  | (Ok (Some x), w) \<Rightarrow> owner_ok esz eal al (O_Vec w) \<and> owner_holds (O_Vec v) = owner_holds (O_Vec w) @ [x]
  | _ \<Rightarrow> False"
proof (cases "iv_len v")
  case (Suc n)
  then have "filled (iv_buf v) 0 (Suc n)" using assms by simp
  then obtain x where "ptr_read (iv_buf v) n = Some (x, (iv_buf v)[n := None])"
    "held_in (iv_buf v) 0 (Suc n) = held_in ((iv_buf v)[n := None]) 0 n @ [x]" "filled ((iv_buf v)[n := None]) 0 n"
    by (rule read_back) simp
  then show ?thesis using assms Suc by (simp add: iv_pop_def Let_def)
qed (simp add: iv_pop_def)

lemma ii_next_cases:
  assumes "owner_ok esz eal al (O_Iter it)"
  shows "case ii_next it of
    (Ok None, jt) \<Rightarrow> jt = it \<and> owner_holds (O_Iter it) = []
  | (Ok (Some x), jt) \<Rightarrow> owner_ok esz eal al (O_Iter jt) \<and> owner_holds (O_Iter it) = x # owner_holds (O_Iter jt)
  | _ \<Rightarrow> False"
proof (cases "ii_start it = ii_end it")
  case False
  then have "filled (ii_slots it) (ii_start it) (ii_end it)" "ii_start it < ii_end it"
    using assms by (simp_all add: filled_def)
  then obtain x where "ptr_read (ii_slots it) (ii_start it) = Some (x, (ii_slots it)[ii_start it := None])"
    "held_in (ii_slots it) (ii_start it) (ii_end it) = x # held_in ((ii_slots it)[ii_start it := None]) (Suc (ii_start it)) (ii_end it)"
    "filled ((ii_slots it)[ii_start it := None]) (Suc (ii_start it)) (ii_end it)"
    by (rule read_front)
  then show ?thesis using assms False by (simp add: ii_next_def)
qed (simp add: ii_next_def)

lemma ii_next_back_cases:
  assumes "owner_ok esz eal al (O_Iter it)"
  shows "case ii_next_back it of
    (Ok None, jt) \<Rightarrow> jt = it \<and> owner_holds (O_Iter it) = []
  | (Ok (Some x), jt) \<Rightarrow> owner_ok esz eal al (O_Iter jt) \<and> owner_holds (O_Iter it) = owner_holds (O_Iter jt) @ [x]
  | _ \<Rightarrow> False"
proof (cases "ii_start it = ii_end it")
  case False
  then obtain n where n: "ii_end it = Suc n" "ii_start it \<le> n" "filled (ii_slots it) (ii_start it) (Suc n)"
    using assms by (cases "ii_end it") (auto simp: filled_def)
  from n(3,2) obtain x where "ptr_read (ii_slots it) n = Some (x, (ii_slots it)[n := None])"
    "held_in (ii_slots it) (ii_start it) (Suc n) = held_in ((ii_slots it)[n := None]) (ii_start it) n @ [x]"
    "filled ((ii_slots it)[n := None]) (ii_start it) n"
    by (rule read_back)
  then show ?thesis using assms False n(1) by (simp add: ii_next_back_def Let_def)
qed (simp add: ii_next_back_def)

declare pop_all.simps [simp del] next_all.simps [simp del]

lemma pop_all_rev: "owner_ok esz eal al (O_Vec v) \<Longrightarrow> pop_all v = Ok (rev (owner_holds (O_Vec v)))"
proof (induction v rule: pop_all.induct)
  case (1 v)
  obtain r w where r: "iv_pop v = (r :: ('a option, unit) result, w)" by (metis surj_pair)
  from iv_pop_cases [OF 1(2), where 'b = unit, unfolded r] show ?case
    using 1(1) [OF r [symmetric]] r by (subst pop_all.simps) (auto split: result.splits option.splits)
qed

lemma next_all_holds: "owner_ok esz eal al (O_Iter it) \<Longrightarrow> next_all it = Ok (owner_holds (O_Iter it))"
proof (induction it rule: next_all.induct)
  case (1 it)
  obtain r w where r: "ii_next it = (r :: ('a option, unit) result, w)" by (metis surj_pair)
  from ii_next_cases [OF 1(2), where 'b = unit, unfolded r] show ?case
    using 1(1) [OF r [symmetric]] r by (subst next_all.simps) (auto split: result.splits option.splits)
qed

lemma held_in_all: "held_in buf 0 (length buf) = map the buf"
  by (auto simp: held_in_def intro: nth_equalityI)

lemma iv_push_room:
  assumes "owner_ok esz eal al (O_Vec v)" "iv_len v < iv_capacity v"
  shows "\<exists>w. iv_push x v = (Ok () :: (unit, 'e) result, w) \<and> owner_ok esz eal al (O_Vec w) \<and>
    owner_holds (O_Vec w) = owner_holds (O_Vec v) @ [x] \<and> iv_len w = Suc (iv_len v) \<and> iv_capacity w = iv_capacity v"
proof -
  from assms have "iv_try_push x v = (Ok (), v\<lparr>iv_buf := (iv_buf v)[iv_len v := Some x], iv_len := Suc (iv_len v)\<rparr>)"
    by (simp add: iv_try_push_def)
  with iv_try_push_cases [OF assms(1), of x] show ?thesis
    by (simp add: iv_push_def del: owner_ok.simps owner_holds.simps)
qed

lemma push_each:
  assumes "owner_ok esz eal al (O_Vec v)" "iv_len v + length xs \<le> iv_capacity v"
    and f: "\<And>i. i < length xs \<Longrightarrow> f (ks ! i) = (iv_push (xs ! i) :: ('a inner_vec, unit, 'e) m)" "length ks = length xs"
  shows "\<exists>w. forM ks f v = (Ok () :: (unit, 'e) result, w) \<and> owner_ok esz eal al (O_Vec w) \<and>
    owner_holds (O_Vec w) = owner_holds (O_Vec v) @ xs \<and> iv_len w = iv_len v + length xs \<and> iv_capacity w = iv_capacity v"
  using assms
proof (induction xs arbitrary: v ks)
  case Nil
  then show ?case by (simp add: retM_def)
next
  case (Cons x xs)
  then obtain k ks' where ks: "ks = k # ks'" by (cases ks) auto
  obtain w where w: "iv_push x v = (Ok () :: (unit, 'e) result, w)" "owner_ok esz eal al (O_Vec w)"
    "owner_holds (O_Vec w) = owner_holds (O_Vec v) @ [x]" "iv_len w = Suc (iv_len v)" "iv_capacity w = iv_capacity v"
    using iv_push_room [OF Cons.prems(1), of x, where 'e = 'e] Cons.prems(2) by (auto simp del: owner_ok.simps owner_holds.simps)
  have "\<exists>u. forM ks' f w = (Ok () :: (unit, 'e) result, u) \<and> owner_ok esz eal al (O_Vec u) \<and>
      owner_holds (O_Vec u) = owner_holds (O_Vec w) @ xs \<and> iv_len u = iv_len w + length xs \<and> iv_capacity u = iv_capacity w"
    using Cons.prems w(4,5) ks by (intro Cons.IH [OF w(2)]) (force)+
  moreover have "f k = iv_push x" using Cons.prems(3) [of 0] ks by simp
  ultimately show ?case
    using w ks by (simp add: thenM_def bindM_def del: owner_ok.simps owner_holds.simps)
qed

text \<open>A vector of an iterator holds its elements; the clone of a vector holds the clones.\<close>

lemma vec_from_exact_iter_holds:
  assumes "vec_from_exact_iter bk esz eal (length xs) xs = r" "\<forall>s a. bk s a \<noteq> Ok 0 \<and> bk s a \<noteq> Panic"
  shows "case r of Ok v \<Rightarrow> owner_ok esz eal (block_of esz eal (length xs) (iv_ptr v)) (O_Vec v) \<and> owner_holds (O_Vec v) = xs \<and> iv_capacity v = length xs
    | Err e \<Rightarrow> True | Panic \<Rightarrow> False"
proof (cases "vec_new_in bk esz eal (length xs) :: ('a inner_vec, alloc_error) result")
  case (Ok v)
  have nonnull: "\<forall>s a. bk s a \<noteq> Ok 0" using assms(2) by simp
  note v = vec_new_in_Ok [OF Ok nonnull]
  from push_each [where 'e = alloc_error, OF v(1), of xs iv_push xs] v obtain w where
    "forM xs iv_push v = (Ok () :: (unit, alloc_error) result, w)" "owner_ok esz eal (block_of esz eal (length xs) (iv_ptr v)) (O_Vec w)"
    "owner_holds (O_Vec w) = xs" "iv_capacity w = length xs" by (auto simp del: owner_ok.simps)
  moreover from this have "iv_ptr w = iv_ptr v \<or> xs = []" by (auto simp: block_of_def split: if_splits)
  ultimately show ?thesis using assms(1) Ok by (auto simp: vec_from_exact_iter_def block_of_def)
next
  case Panic
  then show ?thesis using assms(2) by (auto simp: vec_new_in_def bindR_def split: result.splits if_splits)
next
  case (Err e)
  then have "r = Err e" using assms(1) by (simp add: vec_from_exact_iter_def)
  then show ?thesis by simp
qed

lemma vec_try_clone_holds:
  assumes "owner_ok esz eal al (O_Vec v)" "vec_try_clone bk esz eal clone v = r" "\<forall>s a. bk s a \<noteq> Ok 0 \<and> bk s a \<noteq> Panic"
  shows "case r of Ok w \<Rightarrow> owner_holds (O_Vec w) = map clone (owner_holds (O_Vec v)) \<and> iv_capacity w = iv_capacity v
    | Err e \<Rightarrow> True | Panic \<Rightarrow> False"
proof (cases "vec_new_in bk esz eal (iv_capacity v) :: ('a inner_vec, alloc_error) result")
  case (Ok n)
  have nonnull: "\<forall>s a. bk s a \<noteq> Ok 0" using assms(3) by simp
  note n = vec_new_in_Ok [OF Ok nonnull]
  let ?xs = "owner_holds (O_Vec v)"
  have deref: "iv_deref v = (Ok ?xs :: ('a list, alloc_error) result)"
    using assms(1) by (auto simp: iv_deref_def filled_def held_in_def list_all_length intro!: nth_equalityI)
  have len: "length ?xs = iv_len v" "iv_len v \<le> iv_capacity v" using assms(1) by (auto simp: held_in_def filled_def)
  have step: "bindM (liftR (bindR (iv_deref v) (\<lambda>xs. at xs ([0..<iv_len v] ! i)))) (\<lambda>x. iv_push (clone x)) =
      (iv_push (map clone ?xs ! i) :: ('a inner_vec, unit, alloc_error) m)" if "i < length (map clone ?xs)" for i
    using that len by (simp add: deref at_def liftR_def bindM_def fun_eq_iff del: owner_holds.simps)
  from push_each [OF n(1) _ step] n len obtain w where
    "forM [0..<iv_len v] (\<lambda>i. bindM (liftR (bindR (iv_deref v) (\<lambda>xs. at xs i))) (\<lambda>x. iv_push (clone x))) n =
       (Ok () :: (unit, alloc_error) result, w)" "owner_holds (O_Vec w) = map clone ?xs" "iv_capacity w = iv_capacity v"
    by (auto simp del: owner_ok.simps)
  then show ?thesis using assms(2) Ok by (auto simp: vec_try_clone_def)
next
  case Panic
  then show ?thesis using assms(3) by (auto simp: vec_new_in_def bindR_def split: result.splits if_splits)
next
  case (Err e)
  then have "r = Err e" using assms(2) by (simp add: vec_try_clone_def)
  then show ?thesis by simp
qed

lemma string_from_bytes_holds:
  assumes "string_from_bytes bk s = r" "\<forall>s a. bk s a \<noteq> Ok 0 \<and> bk s a \<noteq> Panic"
  shows "case r of Ok b \<Rightarrow> utf8_valid s \<and> owner_holds (O_Box b) = s
    | Err e \<Rightarrow> (e = MalformedUtf8 \<longleftrightarrow> \<not> utf8_valid s) | Panic \<Rightarrow> False"
proof (cases "utf8_valid s")
  case True
  then have r: "r = string_from_str bk s" using assms(1) by (simp add: string_from_bytes_def)
  show ?thesis
  proof (cases "vec_new_in bk 1 1 (length s) :: (u8 inner_vec, alloc_error) result")
    case (Ok v)
    have nonnull: "\<forall>s a. bk s a \<noteq> Ok 0" using assms(2) by simp
    note v = vec_new_in_Ok [OF Ok nonnull]
    have hv: "owner_holds (O_Vec v) = []" using v(3) by simp
    from push_each [where 'e = validation_error, OF v(1), of s iv_push s] v(2,3) hv obtain w where
      w: "forM s iv_push v = (Ok () :: (unit, validation_error) result, w)" "owner_ok 1 1 (block_of 1 1 (length s) (iv_ptr v)) (O_Vec w)"
      "owner_holds (O_Vec w) = s" "iv_capacity w = length s" "iv_len w = length s"
      by (auto simp del: owner_ok.simps owner_holds.simps)
    have len: "length (iv_buf w) = length s" using w(2,4) by simp
    have "map the (iv_buf w) = s" using w(3,5) unfolding owner_holds.simps held_in_all [symmetric] len by simp
    moreover have "r = vec_into_boxed_slice 1 w" using r Ok w(1) by (simp add: string_from_str_def)
    moreover have "take (length s) (iv_buf w) = iv_buf w" using len by simp
    ultimately show ?thesis using True w(4,5) by (simp only: vec_into_boxed_slice_def) simp
  next
    case Panic
    then show ?thesis using assms(2) by (auto simp: vec_new_in_def bindR_def split: result.splits if_splits)
  next
    case (Err e)
    then have "r = Err (VAllocError e)" using r by (simp add: string_from_str_def)
    then show ?thesis using True by simp
  qed
qed (use assms(1) in \<open>auto simp: string_from_bytes_def\<close>)

lemma vec_drop_eq:
  assumes "owner_ok esz eal al (O_Vec v)"
  shows "vec_drop esz eal v = Ok (rev (owner_holds (O_Vec v)), al)"
  using assms pop_all_rev [OF assms] by (auto simp: vec_drop_def block_of_def filled_def)

lemma ii_drop_eq:
  assumes "owner_ok esz eal al (O_Iter it)"
  shows "ii_drop esz eal it = Ok (owner_holds (O_Iter it), al)"
  using assms next_all_holds [OF assms] by (auto simp: ii_drop_def block_of_def filled_def)

lemma box_drop_eq:
  assumes "owner_ok esz eal al (O_Box b)" "0 < esz"
  shows "box_slice_drop esz eal b = Ok (owner_holds (O_Box b), al)"
proof -
  have "list_all (\<lambda>s. s \<noteq> None) (bx_slots b)" using assms(1) by (simp add: filled_def list_all_length)
  then show ?thesis using assms by (auto simp: box_slice_drop_def block_of_def Let_def)
qed

lemma into_iter_ok:
  assumes "owner_ok esz eal al (O_Vec v)"
  shows "owner_ok esz eal al (O_Iter (vec_into_iter v))" "owner_holds (O_Iter (vec_into_iter v)) = owner_holds (O_Vec v)"
  using assms by (auto simp: vec_into_iter_def filled_def)

lemma into_box_ok:
  assumes "owner_ok esz eal al (O_Vec v)" "vec_into_boxed_slice eal v = (Ok b :: (_, unit) result)"
  shows "owner_ok esz eal al (O_Box b)" "owner_holds (O_Box b) = owner_holds (O_Vec v)"
  using assms held_in_all [of "iv_buf v"]
  by (auto simp: vec_into_boxed_slice_def block_of_def split: if_splits)

definition owner_inv ::
  "nat \<Rightarrow> nat \<Rightarrow> 'a owner \<Rightarrow> 'a list \<Rightarrow> 'a list \<Rightarrow> layout_block list \<Rightarrow> layout_block list \<Rightarrow> bool" where
  "owner_inv esz eal ow ins outs al fr \<longleftrightarrow> owner_ok esz eal al ow \<and> mset ins = mset outs + mset (owner_holds ow) \<and>
     fr = (if ow = O_Gone then al else [])"

lemma block_of_le: "length (block_of esz eal c ptr) \<le> 1"
  by (simp add: block_of_def)

lemma owner_life_inv:
  assumes "owner_life bk esz eal ow ins outs al fr" "\<forall>s a. bk s a \<noteq> Ok 0" "0 < esz"
  shows "owner_inv esz eal ow ins outs al fr"
  using assms
proof (induction rule: owner_life.induct)
  case (created c v)
  from vec_new_in_Ok [OF this(1,2)] show ?case
    unfolding owner_inv_def block_of_def by (intro conjI) (simp_all only: owner_holds.simps held_in_self owner.distinct if_False mset.simps add_0)
next
  case (pushed v ins outs al fr x w)
  then have "owner_inv esz eal (O_Vec v) ins outs al fr" by simp
  then show ?case using iv_try_push_cases [of esz eal al v x] pushed.hyps(2) by (simp add: owner_inv_def del: owner_ok.simps owner_holds.simps)
next
  case (refused v ins outs al fr x e w)
  then have "owner_inv esz eal (O_Vec v) ins outs al fr" by simp
  then show ?case using iv_try_push_cases [of esz eal al v x] refused.hyps(2) by (simp add: owner_inv_def del: owner_ok.simps owner_holds.simps)
next
  case (popped v ins outs al fr x w)
  then have "owner_inv esz eal (O_Vec v) ins outs al fr" by simp
  then show ?case using iv_pop_cases [of esz eal al v, where 'b = unit] popped.hyps(2) by (simp add: owner_inv_def del: owner_ok.simps owner_holds.simps)
next
  case (iterated v ins outs al fr)
  then have "owner_inv esz eal (O_Vec v) ins outs al fr" by simp
  then show ?case using into_iter_ok [of esz eal al v] by (simp add: owner_inv_def del: owner_ok.simps owner_holds.simps)
next
  case (into_box v ins outs al fr b)
  then have "owner_inv esz eal (O_Vec v) ins outs al fr" by simp
  then show ?case using into_box_ok [OF _ into_box.hyps(2), of esz al] by (simp add: owner_inv_def del: owner_ok.simps owner_holds.simps)
next
  case (from_front it ins outs al fr x jt)
  then have "owner_inv esz eal (O_Iter it) ins outs al fr" by simp
  then show ?case using ii_next_cases [of esz eal al it, where 'b = unit] from_front.hyps(2) by (simp add: owner_inv_def del: owner_ok.simps owner_holds.simps)
next
  case (from_back it ins outs al fr x jt)
  then have "owner_inv esz eal (O_Iter it) ins outs al fr" by simp
  then show ?case using ii_next_back_cases [of esz eal al it, where 'b = unit] from_back.hyps(2) by (simp add: owner_inv_def del: owner_ok.simps owner_holds.simps)
next
  case (vec_dropped v ins outs al fr xs f)
  then have "owner_inv esz eal (O_Vec v) ins outs al fr" by simp
  then show ?case using vec_drop_eq [of esz eal al v] vec_dropped.hyps(2) block_of_le by (auto simp: owner_inv_def)
next
  case (iter_dropped it ins outs al fr xs f)
  then have "owner_inv esz eal (O_Iter it) ins outs al fr" by simp
  then show ?case using ii_drop_eq [of esz eal al it] iter_dropped.hyps(2) block_of_le by (auto simp: owner_inv_def)
next
  case (box_dropped b ins outs al fr xs f)
  then have "owner_inv esz eal (O_Box b) ins outs al fr" by simp
  then show ?case using box_drop_eq [of esz eal al b] box_dropped.hyps(2) box_dropped.prems block_of_le by (auto simp: owner_inv_def)
qed

text \<open>What each operation does on an owner: never a panic, and what it gives.\<close>

fun owner_total :: "nat \<Rightarrow> nat \<Rightarrow> 'a owner \<Rightarrow> bool" where
  "owner_total esz eal (O_Vec v) \<longleftrightarrow>
     (iv_deref v :: ('a list, unit) result) = Ok (owner_holds (O_Vec v)) \<and>
     (\<forall>x. fst (iv_try_push x v) = (if iv_len v < iv_capacity v then Ok () else Err AE_OutOfMemory)) \<and>
     fst (iv_pop v :: ('a option, unit) result \<times> _) = Ok (if owner_holds (O_Vec v) = [] then None else Some (last (owner_holds (O_Vec v)))) \<and>
     map_option fst (case vec_drop esz eal v of Ok r \<Rightarrow> Some r | _ \<Rightarrow> None) = Some (rev (owner_holds (O_Vec v)))"
| "owner_total esz eal (O_Iter it) \<longleftrightarrow>
     fst (ii_next it :: ('a option, unit) result \<times> _) = Ok (if owner_holds (O_Iter it) = [] then None else Some (hd (owner_holds (O_Iter it)))) \<and>
     fst (ii_next_back it :: ('a option, unit) result \<times> _) = Ok (if owner_holds (O_Iter it) = [] then None else Some (last (owner_holds (O_Iter it)))) \<and>
     fst (ii_size_hint it) = length (owner_holds (O_Iter it)) \<and>
     map_option fst (case ii_drop esz eal it of Ok r \<Rightarrow> Some r | _ \<Rightarrow> None) = Some (owner_holds (O_Iter it))"
| "owner_total esz eal (O_Box b) \<longleftrightarrow>
     map_option fst (case box_slice_drop esz eal b of Ok r \<Rightarrow> Some r | _ \<Rightarrow> None) = Some (owner_holds (O_Box b))"
| "owner_total esz eal O_Gone \<longleftrightarrow> True"

lemma owner_ok_total:
  assumes ok: "owner_ok esz eal al ow" and "0 < esz"
  shows "owner_total esz eal ow"
proof (cases ow)
  case (O_Vec v)
  have "iv_deref v = (Ok (owner_holds (O_Vec v)) :: ('a list, unit) result)"
    using ok O_Vec
    by (auto simp: iv_deref_def filled_def held_in_def list_all_length intro!: nth_equalityI)
  moreover have "fst (iv_try_push x v) = (if iv_len v < iv_capacity v then Ok () else Err AE_OutOfMemory)" for x
    using ok O_Vec by (auto simp: iv_try_push_def)
  moreover have "fst (iv_pop v :: ('a option, unit) result \<times> _) =
      Ok (if owner_holds (O_Vec v) = [] then None else Some (last (owner_holds (O_Vec v))))"
    using iv_pop_cases [of esz eal al v, where 'b = unit] ok O_Vec
    by (auto simp del: owner_holds.simps owner_ok.simps split: prod.splits result.splits option.splits)
  ultimately show ?thesis using vec_drop_eq [of esz eal al v] ok O_Vec by simp
next
  case (O_Iter it)
  have "fst (ii_next it :: ('a option, unit) result \<times> _) =
      Ok (if owner_holds (O_Iter it) = [] then None else Some (hd (owner_holds (O_Iter it))))"
    using ii_next_cases [of esz eal al it, where 'b = unit] ok O_Iter
    by (auto simp del: owner_holds.simps owner_ok.simps split: prod.splits result.splits option.splits)
  moreover have "fst (ii_next_back it :: ('a option, unit) result \<times> _) =
      Ok (if owner_holds (O_Iter it) = [] then None else Some (last (owner_holds (O_Iter it))))"
    using ii_next_back_cases [of esz eal al it, where 'b = unit] ok O_Iter
    by (auto simp del: owner_holds.simps owner_ok.simps split: prod.splits result.splits option.splits)
  ultimately show ?thesis
    using ii_drop_eq [of esz eal al it] ok O_Iter by (simp add: ii_size_hint_def Let_def held_in_def)
next
  case (O_Box b)
  then show ?thesis using box_drop_eq [of esz eal al b] assms by simp
qed simp

text \<open>
  Claim C6. Through any use of a vector, of the iterator or the boxed slice it is turned into, every element
  that was moved in is, at any time, exactly once either moved out (returned or dropped) or still held, so none
  is lost or dropped twice; no operation touches a slot that holds no value or panics; elements come out in
  the order of the vector; and once it is gone its buffer, if it had one, has been freed exactly once, with the
  size and alignment it was allocated with.
\<close>

theorem owned_elements_once:
  assumes "owner_life bk esz eal ow ins outs al fr" "\<forall>s a. bk s a \<noteq> Ok 0" "0 < esz"
  shows "mset ins = mset outs + mset (owner_holds ow) \<and> owner_total esz eal ow \<and>
    length al \<le> 1 \<and> fr = (if ow = O_Gone then al else [])"
proof -
  have inv: "owner_inv esz eal ow ins outs al fr" by (rule owner_life_inv [OF assms])
  moreover have "length al \<le> 1" using inv block_of_le by (cases ow) (auto simp: owner_inv_def)
  ultimately show ?thesis using owner_ok_total assms(3) by (auto simp: owner_inv_def simp del: owner_ok.simps owner_total.simps)
qed

lemma owned_elements_once_witness:
  "\<exists>ins outs. owner_life (\<lambda>_ _. Ok 64) 4 4 (O_Gone :: u32 owner) ins outs [(64, 8, 4)] [(64, 8, 4)] \<and>
     ins = [1, 2, 3] \<and> mset ins = mset outs"
proof -
  let ?life = "owner_life (\<lambda>_ _. Ok 64) 4 4" and ?al = "[(64, 8, 4)]"
  let ?v = "\<lambda>n b. \<lparr>iv_ptr = 64, iv_capacity = 2, iv_len = n, iv_buf = b\<rparr>"
  have two: "replicate 2 None = [None, None]" by (simp add: numeral_2_eq_2)
  have "vec_new_in (\<lambda>_ _. Ok 64) 4 4 2 = Ok (?v 0 [None, None :: u32 option])"
    by (simp add: vec_new_in_def iv_from_raw_parts_def layout_ok_def ISIZE_MAX_def two)
  from owner_life.created [OF this] have "?life (O_Vec (?v 0 [None, None :: u32 option])) [] [] ?al []" by simp
  then have "?life (O_Vec (?v 1 [Some (1 :: u32), None])) ([] @ [1]) [] ?al []"
    by (rule owner_life.pushed) (simp add: iv_try_push_def)
  then have "?life (O_Vec (?v 2 [Some (1 :: u32), Some 2])) (([] @ [1]) @ [2]) [] ?al []"
    by (rule owner_life.pushed) (simp add: iv_try_push_def)
  then have "?life (O_Vec (?v 2 [Some (1 :: u32), Some 2])) ((([] @ [1]) @ [2]) @ [3]) ([] @ [3]) ?al []"
    by (rule owner_life.refused [where e = AE_OutOfMemory]) (simp add: iv_try_push_def)
  from owner_life.iterated [OF this] have "?life (O_Iter \<lparr>ii_buf = 64, ii_cap = 2, ii_start = 0, ii_end = 2, ii_slots = [Some (1 :: u32), Some 2]\<rparr>)
      [1, 2, 3] [3] ?al []" by (simp add: vec_into_iter_def)
  then have iter: "?life (O_Iter \<lparr>ii_buf = 64, ii_cap = 2, ii_start = 0, ii_end = 1, ii_slots = [Some (1 :: u32), None]\<rparr>)
      [1, 2, 3] ([3] @ [2]) ?al []"
    by (rule owner_life.from_back) (simp add: ii_next_back_def Let_def ptr_read_def get_opt_def)
  have "ii_drop 4 4 \<lparr>ii_buf = 64, ii_cap = 2, ii_start = 0, ii_end = 1, ii_slots = [Some (1 :: u32), None]\<rparr> = Ok ([1], ?al)"
    by (subst ii_drop_eq [where al = ?al]) (simp_all add: filled_def block_of_def layout_ok_def ISIZE_MAX_def held_in_def)
  from owner_life.iter_dropped [OF iter this] have gone: "?life O_Gone [1 :: u32, 2, 3] [3, 2, 1] ?al ?al" by simp
  from owned_elements_once [OF this] have "mset [1 :: u32, 2, 3] = mset [3, 2, 1]" by simp
  with gone show ?thesis by blast
qed

end
