(* ===== verification/Host.thy ===== *)
theory Host
  imports Interp_Control
begin

text \<open>
  What an embedder builds host modules from (src/host.rs): bounded inline names, lists of value types parsed
  from a signature string, their double-ended iterator, and host functions with the closure that a call
  takes out and puts back. A \<open>&str\<close> is the list of its bytes; \<open>utf8_chars\<close> is \<open>str::chars\<close>, as code points.
  The records of theory Module_Data, which the interpreter uses, hold a name as its bytes and a list of
  types as a list; \<open>HostName::as_bytes\<close> and \<open>HostValList::as_slice\<close> give these.

  Lemmas: a name or a signature that fits is stored exactly and read back; each other is refused with
  the error that says why; the iterator delivers the types from both ends; a host function is made exactly
  when it has at most one result and its closure can be boxed.
\<close>

section \<open>Names\<close>

datatype host_name_error = HostNameError

record host_name =
  hn_data :: "u8 list"
  hn_len :: u8

definition host_name_build :: "nat \<Rightarrow> u8 list \<Rightarrow> host_name option" where
  "host_name_build cap bytes =
     (if cap < length bytes then None
      else Some \<lparr>hn_data = foldl (\<lambda>data i. data[i := bytes ! i]) (replicate cap 0) [0..<length bytes],
                 hn_len = word_of_nat (length bytes)\<rparr>)"

definition host_name_new :: "nat \<Rightarrow> u8 list \<Rightarrow> (host_name, 'e) result" where
  "host_name_new cap s = (case host_name_build cap s of Some n \<Rightarrow> Ok n | None \<Rightarrow> Panic)"

definition host_name_try_from_str :: "nat \<Rightarrow> u8 list \<Rightarrow> (host_name, host_name_error) result" where
  "host_name_try_from_str cap s = (case host_name_build cap s of Some n \<Rightarrow> Ok n | None \<Rightarrow> Err HostNameError)"

definition host_name_try_from_bytes :: "nat \<Rightarrow> u8 list \<Rightarrow> (host_name, host_name_error) result" where
  "host_name_try_from_bytes cap bytes =
     (if \<not> utf8_valid bytes then Err HostNameError
      else case host_name_build cap bytes of Some n \<Rightarrow> Ok n | None \<Rightarrow> Err HostNameError)"

definition host_name_as_bytes :: "host_name \<Rightarrow> (u8 list, 'e) result" where
  "host_name_as_bytes n = (if unat (hn_len n) \<le> length (hn_data n) then Ok (take (unat (hn_len n)) (hn_data n)) else Panic)"

definition host_name_eq :: "host_name \<Rightarrow> u8 list \<Rightarrow> (bool, 'e) result" where
  "host_name_eq n other = bindR (host_name_as_bytes n) (\<lambda>b. Ok (b = other))"

definition HOST_GLOBAL_NAME_CAP :: nat where "HOST_GLOBAL_NAME_CAP = 15"
definition HOST_FUNCTION_NAME_CAP :: nat where "HOST_FUNCTION_NAME_CAP = 31"
definition HOST_MODULE_NAME_CAP :: nat where "HOST_MODULE_NAME_CAP = 31"
definition HOST_SYMBOL_NAME_CAP :: nat where "HOST_SYMBOL_NAME_CAP = 15"

section \<open>Characters\<close>

definition cont6 :: "u8 \<Rightarrow> nat" where
  "cont6 b = unat b mod 64"

fun utf8_chars :: "u8 list \<Rightarrow> nat list" where
  "utf8_chars [] = []"
| "utf8_chars (a # bs) =
     (if a \<le> 0x7F then unat a # utf8_chars bs
      else if a \<le> 0xDF then (case bs of b # r \<Rightarrow> (unat a mod 32 * 64 + cont6 b) # utf8_chars r | _ \<Rightarrow> [])
      else if a \<le> 0xEF then (case bs of
          b # c # r \<Rightarrow> (unat a mod 16 * 4096 + cont6 b * 64 + cont6 c) # utf8_chars r | _ \<Rightarrow> [])
      else (case bs of
          b # c # d # r \<Rightarrow> (unat a mod 8 * 262144 + cont6 b * 4096 + cont6 c * 64 + cont6 d) # utf8_chars r | _ \<Rightarrow> []))"

section \<open>Lists of value types\<close>

datatype host_function_error = HE_ValListInvalidItem | HE_ParameterListTooLong | HE_MultiReturnNotAllowed | HE_AllocError alloc_error

record host_val_list =
  hvl_data :: "val_type list"
  hvl_len :: u8

definition map_char :: "nat \<Rightarrow> (val_type, host_function_error) result" where
  "map_char c =
     (if c = 0x69 then Ok T_I32 else if c = 0x49 then Ok T_I64
      else if c = 0x66 then Ok T_F32 else if c = 0x64 then Ok T_F64
      else Err HE_ValListInvalidItem)"

text \<open>The loop of \<open>try_new\<close> over the characters, with the array and the number of entries set.\<close>

fun val_list_loop :: "nat list \<Rightarrow> val_type list \<Rightarrow> nat \<Rightarrow> (val_type list \<times> nat, host_function_error) result" where
  "val_list_loop [] data len = Ok (data, len)"
| "val_list_loop (c # cs) data len =
     (if MAX_HOST_FUNCTION_PARAMS \<le> len then Err HE_ParameterListTooLong
      else bindR (map_char c) (\<lambda>t.
        if len < length data then val_list_loop cs (data[len := t]) (len + 1) else Panic))"

definition host_val_list_try_new :: "u8 list \<Rightarrow> (host_val_list, host_function_error) result" where
  "host_val_list_try_new s =
     bindR (val_list_loop (utf8_chars s) (replicate MAX_HOST_FUNCTION_PARAMS T_I32) 0) (\<lambda>(data, len).
       Ok \<lparr>hvl_data = data, hvl_len = word_of_nat len\<rparr>)"

definition host_val_list_new :: "u8 list \<Rightarrow> (host_val_list, 'e) result" where
  "host_val_list_new s = (case host_val_list_try_new s of Ok l \<Rightarrow> Ok l | _ \<Rightarrow> Panic)"

definition hvl_as_slice :: "host_val_list \<Rightarrow> (val_type list, 'e) result" where
  "hvl_as_slice l = (if unat (hvl_len l) \<le> length (hvl_data l) then Ok (take (unat (hvl_len l)) (hvl_data l)) else Panic)"

definition hvl_length :: "host_val_list \<Rightarrow> nat" where
  "hvl_length l = unat (hvl_len l)"

definition hvl_is_empty :: "host_val_list \<Rightarrow> bool" where
  "hvl_is_empty l = (hvl_len l = 0)"

definition hvl_into_result :: "host_val_list \<Rightarrow> (result_type, 'e) result" where
  "hvl_into_result l =
     (if hvl_len l = 0 then Ok None
      else if hvl_len l = 1 then bindR (at (hvl_data l) 0) (\<lambda>t. Ok (Some t))
      else Panic)"

record hvl_iter =
  hi_index :: nat
  hi_back :: nat
  hi_data :: host_val_list

definition hvl_iterate :: "host_val_list \<Rightarrow> hvl_iter" where
  "hvl_iterate l = \<lparr>hi_index = 0, hi_back = unat (hvl_len l), hi_data = l\<rparr>"

definition hi_next :: "(hvl_iter, val_type option, 'e) m" where
  "hi_next = (\<lambda>it.
     if hi_back it \<le> hi_index it then (Ok None, it)
     else case at (hvl_data (hi_data it)) (hi_index it) of
       Ok c \<Rightarrow> (Ok (Some c), it\<lparr>hi_index := hi_index it + 1\<rparr>)
     | Err e \<Rightarrow> (Err e, it)
     | Panic \<Rightarrow> (Panic, it))"

definition hi_next_back :: "(hvl_iter, val_type option, 'e) m" where
  "hi_next_back = (\<lambda>it.
     if hi_back it \<le> hi_index it then (Ok None, it)
     else let jt = it\<lparr>hi_back := hi_back it - 1\<rparr> in
       case at (hvl_data (hi_data jt)) (hi_back jt) of
         Ok c \<Rightarrow> (Ok (Some c), jt)
       | Err e \<Rightarrow> (Err e, jt)
       | Panic \<Rightarrow> (Panic, jt))"

text \<open>A \<open>for\<close> loop over the iterator: what its body makes of an accumulator, until it fails.\<close>

function hi_fold :: "('b \<Rightarrow> val_type \<Rightarrow> ('b, 'e) result) \<Rightarrow> 'b \<Rightarrow> hvl_iter \<Rightarrow> ('b, 'e) result" where
  "hi_fold f n it = (case hi_next it of
     (Ok None, _) \<Rightarrow> Ok n
   | (Ok (Some t), jt) \<Rightarrow> (case f n t of Ok k \<Rightarrow> hi_fold f k jt | Err e \<Rightarrow> Err e | Panic \<Rightarrow> Panic)
   | (Err e, _) \<Rightarrow> Err e
   | (Panic, _) \<Rightarrow> Panic)"
  by pat_completeness auto

termination
  by (relation "measure (\<lambda>(_, _, it). hi_back it - hi_index it)")
    (auto simp: hi_next_def split: if_splits result.splits)

section \<open>Host functions\<close>

record host_fn_item =
  hfi_name :: host_name
  hfi_params :: host_val_list
  hfi_returns :: result_type
  hfi_present :: bool

text \<open>\<open>boxed\<close> is the answer of the allocator to the closure's box.\<close>

definition host_function_try_new ::
  "alloc_error option \<Rightarrow> host_name \<Rightarrow> host_val_list \<Rightarrow> host_val_list \<Rightarrow> (host_fn_item, host_function_error) result" where
  "host_function_try_new boxed name params returns =
     (if MAX_HOST_FUNCTION_PARAMS < hvl_length params then Err HE_ParameterListTooLong
      else bindR (hi_fold (\<lambda>rs r. if rs \<noteq> None then Err HE_MultiReturnNotAllowed else Ok (Some r)) None (hvl_iterate returns)) (\<lambda>rs.
        case boxed of
          Some e \<Rightarrow> Err (HE_AllocError e)
        | None \<Rightarrow> Ok \<lparr>hfi_name = name, hfi_params = params, hfi_returns = rs, hfi_present = True\<rparr>))"

definition host_function_new ::
  "alloc_error option \<Rightarrow> host_name \<Rightarrow> host_val_list \<Rightarrow> host_val_list \<Rightarrow> (host_fn_item, 'e) result" where
  "host_function_new boxed name params returns =
     (case host_function_try_new boxed name params returns of Ok f \<Rightarrow> Ok f | _ \<Rightarrow> Panic)"

definition hfi_param_size :: "host_fn_item \<Rightarrow> (nat, unit) result" where
  "hfi_param_size f = bindR (hi_fold (\<lambda>n t. Ok (n + val_type_size t)) 0 (hvl_iterate (hfi_params f))) (\<lambda>n. Ok (n div 4))"

text \<open>\<open>get_call\<close>: whether the closure was there; \<open>finish_call\<close> puts it back.\<close>

definition hfi_get_call :: "host_fn_item \<Rightarrow> bool \<times> host_fn_item" where
  "hfi_get_call f = (hfi_present f, f\<lparr>hfi_present := False\<rparr>)"

definition hfi_finish_call :: "host_fn_item \<Rightarrow> host_fn_item" where
  "hfi_finish_call f = f\<lparr>hfi_present := True\<rparr>"

text \<open>The host function of theory Module_Data it is.\<close>

definition host_function_of :: "host_fn_item \<Rightarrow> (host_function, 'e) result" where
  "host_function_of f =
     bindR (host_name_as_bytes (hfi_name f)) (\<lambda>name. bindR (hvl_as_slice (hfi_params f)) (\<lambda>params.
       Ok \<lparr>hf_name = name, hf_params = params, hf_returns = hfi_returns f, hf_present = hfi_present f\<rparr>))"

section \<open>Names are stored exactly\<close>

lemma build_loop:
  "n \<le> length bytes \<Longrightarrow> length bytes \<le> cap \<Longrightarrow>
    foldl (\<lambda>data i. data[i := bytes ! i]) (replicate cap 0) [0..<n] = take n bytes @ replicate (cap - n) (0 :: u8)"
proof (induction n)
  case (Suc n)
  then have "replicate (cap - n) (0 :: u8) = 0 # replicate (cap - Suc n) 0"
    by (metis Suc_diff_Suc Suc_le_lessD le_trans replicate_Suc)
  with Suc show ?case by (simp add: take_Suc_conv_app_nth list_update_append)
qed simp

lemma host_name_build_cases:
  assumes "cap < 256"
  shows "case host_name_build cap s of
    Some n \<Rightarrow> length s \<le> cap \<and> host_name_as_bytes n = (Ok s :: (u8 list, 'e) result)
  | None \<Rightarrow> cap < length s"
proof (cases "cap < length s")
  case False
  then have "unat (word_of_nat (length s) :: u8) = length s" using assms by (simp add: unsigned_of_nat take_bit_nat_eq_self)
  then show ?thesis using False build_loop [of "length s" s cap] by (simp add: host_name_build_def host_name_as_bytes_def)
qed (simp add: host_name_build_def)

lemma host_name_exact:
  assumes "cap < 256"
  shows "case host_name_try_from_bytes cap s of
    Ok n \<Rightarrow> utf8_valid s \<and> length s \<le> cap \<and> host_name_as_bytes n = (Ok s :: (u8 list, unit) result) \<and>
      (\<forall>t. host_name_eq n t = (Ok (s = t) :: (bool, unit) result))
  | Err e \<Rightarrow> \<not> utf8_valid s \<or> cap < length s | Panic \<Rightarrow> False"
  using host_name_build_cases [OF assms, of s, where 'e = unit]
  by (auto simp: host_name_try_from_bytes_def host_name_eq_def split: option.splits)

section \<open>Signatures are stored exactly\<close>

primrec type_byte :: "val_type \<Rightarrow> u8" where
  "type_byte T_I32 = 0x69"
| "type_byte T_I64 = 0x49"
| "type_byte T_F32 = 0x66"
| "type_byte T_F64 = 0x64"

lemma map_char_Ok: "map_char c = Ok t \<longleftrightarrow> c = unat (type_byte t)"
  by (cases t) (auto simp: map_char_def)

lemma map_char_Err: "map_char c = Err e \<longleftrightarrow> e = HE_ValListInvalidItem \<and> (\<forall>t. c \<noteq> unat (type_byte t))"
proof -
  have "(\<forall>t. c \<noteq> unat (type_byte t)) \<longleftrightarrow> c \<noteq> 0x69 \<and> c \<noteq> 0x49 \<and> c \<noteq> 0x66 \<and> c \<noteq> 0x64"
  proof
    assume "\<forall>t. c \<noteq> unat (type_byte t)"
    from this [rule_format, of T_I32] this [rule_format, of T_I64] this [rule_format, of T_F32] this [rule_format, of T_F64]
    show "c \<noteq> 0x69 \<and> c \<noteq> 0x49 \<and> c \<noteq> 0x66 \<and> c \<noteq> 0x64" by simp
  next
    assume "c \<noteq> 0x69 \<and> c \<noteq> 0x49 \<and> c \<noteq> 0x66 \<and> c \<noteq> 0x64"
    then show "\<forall>t. c \<noteq> unat (type_byte t)" by (intro allI) (case_tac t; simp)
  qed
  then show ?thesis by (auto simp: map_char_def)
qed

lemma map_char_no_panic [simp]: "map_char c \<noteq> Panic"
  by (simp add: map_char_def)

text \<open>A byte sequence that is no ASCII character is a code point above 127.\<close>

lemma cont6_low: "in_range x y b \<Longrightarrow> unat x \<le> unat b \<and> unat b \<le> unat y"
  by (simp add: in_range_def word_le_nat_alt)

lemma mod_window:
  fixes n :: nat
  assumes "k * m \<le> n" "n < k * m + m"
  shows "n mod m = n - k * m"
proof -
  have "n mod m = (k * m + (n - k * m)) mod m" using assms(1) by simp
  also have "\<dots> = (n - k * m) mod m" by simp
  also have "\<dots> = n - k * m" using assms by simp
  finally show ?thesis .
qed

lemma utf8_non_ascii:
  assumes "utf8_valid (a # bs)" "\<not> a \<le> 0x7F"
  obtains c r where "utf8_chars (a # bs) = c # utf8_chars r" "128 \<le> c"
proof -
  define n where "n = unat a"
  consider (two) b r where "bs = b # r" "194 \<le> n" "n \<le> 223"
    | (three) b c r where "bs = b # c # r" "224 \<le> n" "n \<le> 239" "n = 224 \<longrightarrow> 160 \<le> unat b \<and> unat b \<le> 191"
    | (four) b c d r where "bs = b # c # d # r" "240 \<le> n" "n \<le> 244" "n = 240 \<longrightarrow> 144 \<le> unat b \<and> unat b \<le> 191"
    using assms
    by (auto simp: n_def word_le_nat_alt utf8_second_def word_unat_eq_iff in_range_def split: if_splits list.splits)
  then show ?thesis
  proof cases
    case two
    then have "n mod 32 = n - 192" using mod_window [of 6 32 n] by simp
    then have "128 \<le> n mod 32 * 64 + cont6 b" using two by simp
    moreover have "utf8_chars (a # bs) = (n mod 32 * 64 + cont6 b) # utf8_chars r"
      using two assms(2) by (simp add: n_def word_le_nat_alt)
    ultimately show ?thesis using that by blast
  next
    case three
    have "1 \<le> n mod 16 \<or> 32 \<le> cont6 b"
    proof (cases "n = 224")
      case True
      then have "unat b mod 64 = unat b - 128" using three(4) mod_window [of 2 64 "unat b"] by simp
      then show ?thesis using True three(4) unfolding cont6_def by linarith
    next
      case False
      then have "n mod 16 = n - 224" "224 < n" using three(2,3) mod_window [of 14 16 n] by simp_all
      then show ?thesis by linarith
    qed
    then have "128 \<le> n mod 16 * 4096 + cont6 b * 64 + cont6 c" by linarith
    moreover have "utf8_chars (a # bs) = (n mod 16 * 4096 + cont6 b * 64 + cont6 c) # utf8_chars r"
      using three assms(2) by (simp add: n_def word_le_nat_alt)
    ultimately show ?thesis using that by blast
  next
    case four
    have "1 \<le> n mod 8 \<or> 16 \<le> cont6 b"
    proof (cases "n = 240")
      case True
      then have "unat b mod 64 = unat b - 128" using four(4) mod_window [of 2 64 "unat b"] by simp
      then show ?thesis using True four(4) unfolding cont6_def by linarith
    next
      case False
      then have "n mod 8 = n - 240" "240 < n" using four(2,3) mod_window [of 30 8 n] by simp_all
      then show ?thesis by linarith
    qed
    then have "128 \<le> n mod 8 * 262144 + cont6 b * 4096 + cont6 c * 64 + cont6 d" by linarith
    moreover have "utf8_chars (a # bs) = (n mod 8 * 262144 + cont6 b * 4096 + cont6 c * 64 + cont6 d) # utf8_chars r"
      using four assms(2) by (simp add: n_def word_le_nat_alt)
    ultimately show ?thesis using that by blast
  qed
qed

lemma utf8_chars_empty: "utf8_valid r \<Longrightarrow> utf8_chars r = [] \<Longrightarrow> r = []"
proof (cases r)
  case (Cons a bs)
  assume "utf8_valid r" "utf8_chars r = []"
  then show ?thesis using Cons utf8_non_ascii [of a bs] by (cases "a \<le> 0x7F") (simp, metis list.distinct(1))
qed simp

lemma type_byte_ascii: "type_byte t \<le> 0x7F"
  by (cases t) simp_all

lemma utf8_chars_types: "utf8_chars (map type_byte ts) = map (unat \<circ> type_byte) ts"
  by (induction ts) (simp_all add: type_byte_ascii)

lemma utf8_valid_types: "utf8_valid (map type_byte ts)"
  by (induction ts) (simp_all add: type_byte_ascii)

text \<open>So a prefix of the characters that are type letters is one of the bytes.\<close>

lemma types_prefix:
  assumes "utf8_valid s" "utf8_chars s = map (unat \<circ> type_byte) ts @ cs"
  shows "\<exists>r. s = map type_byte ts @ r \<and> utf8_chars r = cs \<and> utf8_valid r"
  using assms
proof (induction ts arbitrary: s)
  case (Cons t ts)
  then have "s \<noteq> []" by auto
  then obtain a bs where s: "s = a # bs" by (cases s) auto
  have small: "unat (type_byte t) < 128" by (cases t) simp_all
  have a: "a \<le> 0x7F"
  proof (rule ccontr)
    assume "\<not> a \<le> 0x7F"
    then obtain c r where "utf8_chars (a # bs) = c # utf8_chars r" "128 \<le> c" using utf8_non_ascii Cons.prems(1) s by blast
    then show False using Cons.prems(2) s small by simp
  qed
  then have "unat a = unat (type_byte t)" "utf8_chars bs = map (unat \<circ> type_byte) ts @ cs" "utf8_valid bs"
    using Cons.prems s by simp_all
  moreover from this(1) have "a = type_byte t" by (simp add: word_unat_eq_iff)
  ultimately show ?case using Cons.IH [of bs] s by auto
qed simp

definition hvl_ok :: "host_val_list \<Rightarrow> val_type list \<Rightarrow> bool" where
  "hvl_ok l ts \<longleftrightarrow> length (hvl_data l) = MAX_HOST_FUNCTION_PARAMS \<and> unat (hvl_len l) = length ts \<and>
     length ts \<le> MAX_HOST_FUNCTION_PARAMS \<and> take (length ts) (hvl_data l) = ts"

lemma val_list_loop_cases:
  assumes "length data = MAX_HOST_FUNCTION_PARAMS" "len \<le> MAX_HOST_FUNCTION_PARAMS"
  shows "case val_list_loop cs data len of
    Ok (d, n) \<Rightarrow> \<exists>ts. cs = map (unat \<circ> type_byte) ts \<and> n = len + length ts \<and> n \<le> MAX_HOST_FUNCTION_PARAMS \<and>
      length d = MAX_HOST_FUNCTION_PARAMS \<and> take n d = take len data @ ts
  | Err HE_ParameterListTooLong \<Rightarrow> \<exists>ts c r. cs = map (unat \<circ> type_byte) ts @ c # r \<and> len + length ts = MAX_HOST_FUNCTION_PARAMS
  | Err e \<Rightarrow> e = HE_ValListInvalidItem \<and> (\<exists>ts c r. cs = map (unat \<circ> type_byte) ts @ c # r \<and> (\<forall>t. c \<noteq> unat (type_byte t)) \<and>
      len + length ts < MAX_HOST_FUNCTION_PARAMS)
  | Panic \<Rightarrow> False"
  using assms
proof (induction cs data len rule: val_list_loop.induct)
  case (1 data len)
  then show ?case by simp
next
  case (2 c cs data len)
  show ?case
  proof (cases "len = MAX_HOST_FUNCTION_PARAMS")
    case True
    then show ?thesis by (auto intro!: exI [of _ "[]"])
  next
    case False
    then have lt: "len < MAX_HOST_FUNCTION_PARAMS" using "2.prems" by simp
    show ?thesis
    proof (cases "map_char c")
      case (Ok t)
      then have c: "c = unat (type_byte t)" by (simp add: map_char_Ok)
      have loop: "val_list_loop (c # cs) data len = val_list_loop cs (data[len := t]) (len + 1)"
        using lt Ok "2.prems" by simp
      have take: "take (len + 1) (data[len := t]) = take len data @ [t]"
        using lt "2.prems" by (simp add: take_Suc_conv_app_nth)
      have IH: "case val_list_loop cs (data[len := t]) (len + 1) of
          Ok (d, n) \<Rightarrow> \<exists>ts. cs = map (unat \<circ> type_byte) ts \<and> n = len + 1 + length ts \<and> n \<le> MAX_HOST_FUNCTION_PARAMS \<and>
            length d = MAX_HOST_FUNCTION_PARAMS \<and> take n d = take (len + 1) (data[len := t]) @ ts
        | Err HE_ParameterListTooLong \<Rightarrow> \<exists>ts c r. cs = map (unat \<circ> type_byte) ts @ c # r \<and> len + 1 + length ts = MAX_HOST_FUNCTION_PARAMS
        | Err e \<Rightarrow> e = HE_ValListInvalidItem \<and> (\<exists>ts c r. cs = map (unat \<circ> type_byte) ts @ c # r \<and> (\<forall>t. c \<noteq> unat (type_byte t)) \<and>
            len + 1 + length ts < MAX_HOST_FUNCTION_PARAMS)
        | Panic \<Rightarrow> False"
        by (rule "2.IH") (use lt Ok "2.prems" in auto)
      show ?thesis
      proof (cases "val_list_loop cs (data[len := t]) (len + 1)")
        case (Ok dn)
        then obtain d n where "val_list_loop cs (data[len := t]) (len + 1) = Ok (d, n)" by (cases dn) simp
        moreover from this IH obtain ts where "cs = map (unat \<circ> type_byte) ts" "n = len + 1 + length ts" "n \<le> MAX_HOST_FUNCTION_PARAMS"
          "length d = MAX_HOST_FUNCTION_PARAMS" "take n d = take len data @ t # ts" unfolding take by auto
        ultimately show ?thesis unfolding loop by (auto simp: c intro!: exI [of _ "t # ts"])
      next
        case (Err e)
        show ?thesis
        proof (cases "e = HE_ParameterListTooLong")
          case True
          with IH Err obtain ts c' r where "cs = map (unat \<circ> type_byte) ts @ c' # r" "len + 1 + length ts = MAX_HOST_FUNCTION_PARAMS"
            by auto
          then have "c # cs = map (unat \<circ> type_byte) (t # ts) @ c' # r \<and> len + length (t # ts) = MAX_HOST_FUNCTION_PARAMS"
            by (simp add: c)
          then show ?thesis unfolding loop Err True result.case host_function_error.case by blast
        next
          case False
          with IH Err obtain ts c' r where "e = HE_ValListInvalidItem" "cs = map (unat \<circ> type_byte) ts @ c' # r"
            "\<forall>t. c' \<noteq> unat (type_byte t)" "len + 1 + length ts < MAX_HOST_FUNCTION_PARAMS"
            by (cases e) auto
          then have e: "e = HE_ValListInvalidItem" and "c # cs = map (unat \<circ> type_byte) (t # ts) @ c' # r \<and> (\<forall>t. c' \<noteq> unat (type_byte t)) \<and>
              len + length (t # ts) < MAX_HOST_FUNCTION_PARAMS"
            by (simp_all add: c)
          then show ?thesis unfolding loop Err e result.case host_function_error.case by blast
        qed
      next
        case Panic
        then show ?thesis using IH by simp
      qed
    next
      case (Err e)
      then have e: "e = HE_ValListInvalidItem" and c: "\<forall>t. c \<noteq> unat (type_byte t)" by (simp_all add: map_char_Err)
      have loop: "val_list_loop (c # cs) data len = Err HE_ValListInvalidItem" using lt Err e by simp
      have "c # cs = map (unat \<circ> type_byte) [] @ c # cs \<and> (\<forall>t. c \<noteq> unat (type_byte t)) \<and>
          len + length ([] :: val_type list) < MAX_HOST_FUNCTION_PARAMS" using c lt by simp
      then show ?thesis unfolding loop result.case host_function_error.case by blast
    qed simp
  qed
qed

lemma max_params [simp]: "MAX_HOST_FUNCTION_PARAMS = 9"
  by (simp add: MAX_HOST_FUNCTION_PARAMS_def)

lemma try_new_cases:
  assumes "utf8_valid s"
  shows "case host_val_list_try_new s of
    Ok l \<Rightarrow> \<exists>ts. s = map type_byte ts \<and> hvl_ok l ts
  | Err HE_ParameterListTooLong \<Rightarrow> \<exists>ts r. s = map type_byte ts @ r \<and> length ts = MAX_HOST_FUNCTION_PARAMS \<and> r \<noteq> []
  | Err e \<Rightarrow> e = HE_ValListInvalidItem \<and> (\<exists>ts r. s = map type_byte ts @ r \<and> length ts < MAX_HOST_FUNCTION_PARAMS \<and> r \<noteq> [] \<and>
      (\<forall>t. hd r \<noteq> type_byte t))
  | Panic \<Rightarrow> False"
proof -
  let ?loop = "val_list_loop (utf8_chars s) (replicate MAX_HOST_FUNCTION_PARAMS T_I32) 0"
  note loop = val_list_loop_cases [of "replicate MAX_HOST_FUNCTION_PARAMS T_I32" 0 "utf8_chars s", simplified]
  show ?thesis
  proof (cases ?loop)
    case (Ok dn)
    then obtain d n where dn: "?loop = Ok (d, n)" by (cases dn) simp
    with loop have "\<exists>ts. utf8_chars s = map (unat \<circ> type_byte) ts \<and> n = length ts \<and> n \<le> 9 \<and> length d = 9 \<and> take n d = ts"
      by simp
    then obtain ts where ts: "utf8_chars s = map (unat \<circ> type_byte) ts" "n = length ts" "n \<le> 9" "length d = 9" "take n d = ts"
      by blast
    then obtain r where "s = map type_byte ts @ r" "utf8_chars r = []" "utf8_valid r" using types_prefix [OF assms, of ts "[]"] by auto
    moreover from this have "r = []" using utf8_chars_empty by simp
    moreover have "unat (word_of_nat n :: u8) = n" using ts(3) by (simp add: unsigned_of_nat take_bit_nat_eq_self)
    ultimately show ?thesis using dn ts by (auto simp: host_val_list_try_new_def hvl_ok_def)
  next
    case (Err e)
    have new: "host_val_list_try_new s = Err e" using Err by (simp add: host_val_list_try_new_def)
    show ?thesis
    proof (cases "e = HE_ParameterListTooLong")
      case True
      with loop Err obtain ts c r where ts: "utf8_chars s = map (unat \<circ> type_byte) ts @ c # r" "length ts = 9" by auto
      then obtain r' where "s = map type_byte ts @ r'" "utf8_chars r' = c # r" using types_prefix [OF assms, of ts "c # r"] by auto
      moreover from this(2) have "r' \<noteq> []" by auto
      ultimately have "s = map type_byte ts @ r' \<and> length ts = MAX_HOST_FUNCTION_PARAMS \<and> r' \<noteq> []" using ts(2) by simp
      then show ?thesis unfolding new True result.case host_function_error.case by blast
    next
      case False
      with loop Err obtain ts c r where e: "e = HE_ValListInvalidItem" and ts: "utf8_chars s = map (unat \<circ> type_byte) ts @ c # r"
          "\<forall>t. c \<noteq> unat (type_byte t)" "length ts < 9"
        by (cases e) auto
      then obtain r' where r': "s = map type_byte ts @ r'" "utf8_chars r' = c # r" using types_prefix [OF assms, of ts "c # r"] by auto
      then obtain a bs where "r' = a # bs" by (cases r') auto
      then have "\<forall>t. hd r' \<noteq> type_byte t" "r' \<noteq> []" using r'(2) ts(2) type_byte_ascii by (auto split: if_splits)
      then have "s = map type_byte ts @ r' \<and> length ts < MAX_HOST_FUNCTION_PARAMS \<and> r' \<noteq> [] \<and> (\<forall>t. hd r' \<noteq> type_byte t)"
        using ts(3) r'(1) by simp
      then show ?thesis unfolding new e result.case host_function_error.case by blast
    qed
  next
    case Panic
    then show ?thesis using loop by simp
  qed
qed

lemma hvl_slice: "hvl_ok l ts \<Longrightarrow> hvl_as_slice l = Ok ts" "hvl_ok l ts \<Longrightarrow> hvl_length l = length ts"
  by (auto simp: hvl_ok_def hvl_as_slice_def hvl_length_def)

section \<open>The iterator\<close>

definition hi_rest :: "hvl_iter \<Rightarrow> val_type list" where
  "hi_rest it = take (hi_back it - hi_index it) (drop (hi_index it) (hvl_data (hi_data it)))"

definition hi_ok :: "hvl_iter \<Rightarrow> bool" where
  "hi_ok it \<longleftrightarrow> hi_back it \<le> length (hvl_data (hi_data it)) \<and> hi_index it \<le> hi_back it"

lemma hi_next_cases:
  assumes "hi_ok it"
  shows "case hi_next it of
    (Ok None, jt) \<Rightarrow> jt = it \<and> hi_rest it = []
  | (Ok (Some t), jt) \<Rightarrow> hi_ok jt \<and> hi_rest it = t # hi_rest jt
  | _ \<Rightarrow> False"
proof (cases "hi_back it \<le> hi_index it")
  case False
  then have "drop (hi_index it) (hvl_data (hi_data it)) = hvl_data (hi_data it) ! hi_index it # drop (Suc (hi_index it)) (hvl_data (hi_data it))"
    using assms by (intro Cons_nth_drop_Suc [symmetric]) (simp add: hi_ok_def)
  moreover obtain k where "hi_back it - hi_index it = Suc k" "hi_back it - Suc (hi_index it) = k"
    using False by (cases "hi_back it - hi_index it") auto
  ultimately show ?thesis using False assms by (simp add: hi_next_def hi_ok_def hi_rest_def at_def)
qed (simp add: hi_next_def hi_rest_def)

lemma hi_next_back_cases:
  assumes "hi_ok it"
  shows "case hi_next_back it of
    (Ok None, jt) \<Rightarrow> jt = it \<and> hi_rest it = []
  | (Ok (Some t), jt) \<Rightarrow> hi_ok jt \<and> hi_rest it = hi_rest jt @ [t]
  | _ \<Rightarrow> False"
proof (cases "hi_back it \<le> hi_index it")
  case False
  then obtain k where k: "hi_back it - hi_index it = Suc k" "hi_back it - Suc 0 = hi_index it + k" "hi_back it - Suc (hi_index it) = k"
    by (cases "hi_back it - hi_index it") auto
  then have "take (Suc k) (drop (hi_index it) (hvl_data (hi_data it))) =
      take k (drop (hi_index it) (hvl_data (hi_data it))) @ [hvl_data (hi_data it) ! (hi_index it + k)]"
    using assms by (subst take_Suc_conv_app_nth) (auto simp: hi_ok_def)
  then show ?thesis using False k assms by (simp add: hi_next_back_def hi_ok_def hi_rest_def at_def Let_def)
qed (simp add: hi_next_back_def hi_rest_def)

fun fold_types :: "('b \<Rightarrow> val_type \<Rightarrow> ('b, 'e) result) \<Rightarrow> 'b \<Rightarrow> val_type list \<Rightarrow> ('b, 'e) result" where
  "fold_types f n [] = Ok n"
| "fold_types f n (t # ts) = bindR (f n t) (\<lambda>k. fold_types f k ts)"

declare hi_fold.simps [simp del]

lemma hi_fold_rest: "hi_ok it \<Longrightarrow> hi_fold f n it = fold_types f n (hi_rest it)"
proof (induction f n it rule: hi_fold.induct)
  case (1 f n it)
  obtain r jt where r: "hi_next it = (r :: (val_type option, 'b) result, jt)" by (metis surj_pair)
  from hi_next_cases [where 'a = 'b, OF 1(2), unfolded r] show ?case
    using 1(1) [OF r [symmetric]] r by (subst hi_fold.simps) (auto simp: bindR_def split: result.splits option.splits)
qed

lemma iterate_ok: "hvl_ok l ts \<Longrightarrow> hi_ok (hvl_iterate l) \<and> hi_rest (hvl_iterate l) = ts"
  by (auto simp: hvl_ok_def hi_ok_def hi_rest_def hvl_iterate_def)

lemma fold_sizes: "fold_types (\<lambda>n t. Ok (n + val_type_size t)) n ts = Ok (foldl (\<lambda>n t. n + val_type_size t) n ts)"
  by (induction ts arbitrary: n) simp_all

lemma foldl_sizes_le: "foldl (\<lambda>n t. n + val_type_size t) n ts \<le> n + 8 * length ts"
proof (induction ts arbitrary: n)
  case (Cons t ts)
  have "val_type_size t \<le> 8" by (cases t) simp_all
  then show ?case using Cons [of "n + val_type_size t"] by simp
qed simp

lemma param_words_le: "param_words ts \<le> 2 * length ts"
  using foldl_sizes_le [of 0 ts] by (simp add: param_words_def div_le_mono [where n = 4, THEN order_trans])

lemma try_new_types:
  assumes us: "length us \<le> MAX_HOST_FUNCTION_PARAMS"
  shows "\<exists>l. host_val_list_try_new (map type_byte us) = Ok l \<and> hvl_ok l us"
proof -
  have inj: "map type_byte ts = map type_byte us \<longleftrightarrow> ts = us" for ts us
    by (rule inj_map_eq_map) (auto simp: inj_def, case_tac x; case_tac y; simp)
  have letter: "map type_byte ts @ r = map type_byte us \<Longrightarrow> r \<noteq> [] \<Longrightarrow> length ts < length us \<and> (\<exists>t. hd r = type_byte t)" for ts us r
  proof (induction ts arbitrary: us)
    case Nil
    then show ?case by (cases us) auto
  next
    case (Cons t ts)
    then show ?case by (cases us) auto
  qed
  note new = try_new_cases [OF utf8_valid_types, of us]
  show ?thesis
  proof (cases "host_val_list_try_new (map type_byte us)")
    case (Ok l)
    with new inj show ?thesis by auto
  next
    case (Err e)
    then consider ts r where "map type_byte us = map type_byte ts @ r" "length ts = MAX_HOST_FUNCTION_PARAMS" "r \<noteq> []"
      | ts r where "map type_byte us = map type_byte ts @ r" "r \<noteq> []" "\<forall>t. hd r \<noteq> type_byte t"
      using new by (cases e) (auto simp: Err)
    then show ?thesis using letter us by cases (metis linorder_not_le, metis)
  qed (use new in simp)
qed

text \<open>
  Claim C26. Signatures are parsed exactly: each list of at most nine value types, printed with the letters
  \<open>iIfd\<close>, is read back as that list, and whatever UTF-8 string is read, what is stored is the list it spells.
  A string is refused as too long exactly when its first nine characters are letters and more follow, as
  invalid exactly when one of its first nine characters is the first that is no letter; nothing panics.
\<close>

theorem signature_roundtrip:
  assumes "utf8_valid s"
  shows "(\<forall>ts. length ts \<le> MAX_HOST_FUNCTION_PARAMS \<longrightarrow>
      (\<exists>l. host_val_list_try_new (map type_byte ts) = Ok l \<and> hvl_as_slice l = (Ok ts :: (_, unit) result))) \<and>
    (case host_val_list_try_new s of
      Ok l \<Rightarrow> \<exists>ts. s = map type_byte ts \<and> hvl_as_slice l = (Ok ts :: (_, unit) result) \<and> length ts \<le> MAX_HOST_FUNCTION_PARAMS
    | Err e \<Rightarrow> (e = HE_ParameterListTooLong \<and> (\<exists>ts r. s = map type_byte ts @ r \<and> length ts = MAX_HOST_FUNCTION_PARAMS \<and> r \<noteq> [])) \<or>
        (e = HE_ValListInvalidItem \<and> (\<exists>ts r. s = map type_byte ts @ r \<and> length ts < MAX_HOST_FUNCTION_PARAMS \<and> r \<noteq> [] \<and>
           (\<forall>t. hd r \<noteq> type_byte t)))
    | Panic \<Rightarrow> False)"
proof -
  have "\<forall>ts. length ts \<le> MAX_HOST_FUNCTION_PARAMS \<longrightarrow>
      (\<exists>l. host_val_list_try_new (map type_byte ts) = Ok l \<and> hvl_as_slice l = (Ok ts :: (_, unit) result))"
    using try_new_types hvl_slice(1) by blast
  moreover have "hvl_ok l ts \<Longrightarrow> length ts \<le> MAX_HOST_FUNCTION_PARAMS" for l ts by (simp add: hvl_ok_def)
  ultimately show ?thesis
    using try_new_cases [OF assms] by (auto simp: hvl_slice split: result.splits host_function_error.splits)
qed

lemma signature_roundtrip_witness:
  "\<exists>l. host_val_list_try_new [0x69, 0x64] = Ok l \<and> hvl_as_slice l = (Ok [T_I32, T_F64] :: (_, unit) result)"
proof -
  have "utf8_valid [0x69]" by simp
  from signature_roundtrip [OF this] have "\<forall>ts. length ts \<le> MAX_HOST_FUNCTION_PARAMS \<longrightarrow>
      (\<exists>l. host_val_list_try_new (map type_byte ts) = Ok l \<and> hvl_as_slice l = (Ok ts :: (_, unit) result))" by blast
  from this [rule_format, of "[T_I32, T_F64]"] show ?thesis by simp
qed

lemma result_fold:
  "fold_types (\<lambda>rs r. if rs \<noteq> None then Err HE_MultiReturnNotAllowed else Ok (Some r)) None rs =
    (case rs of [] \<Rightarrow> Ok None | [t] \<Rightarrow> Ok (Some t) | _ \<Rightarrow> Err HE_MultiReturnNotAllowed)"
  by (cases rs; cases "tl rs") auto

lemma host_function_parts:
  assumes nm: "host_name_as_bytes name = (Ok nm :: (_, 'e) result)" and ps: "hvl_ok params ps" and rs: "hvl_ok returns rs"
  shows "case host_function_try_new boxed name params returns of
       Ok f \<Rightarrow> length rs \<le> 1 \<and> boxed = None \<and>
         host_function_of f = (Ok \<lparr>hf_name = nm, hf_params = ps, hf_returns = (case rs of [] \<Rightarrow> None | t # _ \<Rightarrow> Some t),
           hf_present = True\<rparr> :: (_, 'e) result) \<and>
         hfi_param_size f = Ok (param_words ps) \<and> param_words ps \<le> 18
     | Err e \<Rightarrow> (e = HE_MultiReturnNotAllowed \<and> 1 < length rs) \<or> (\<exists>a. e = HE_AllocError a \<and> boxed = Some a \<and> length rs \<le> 1)
     | Panic \<Rightarrow> False"
proof -
  have slice: "hvl_as_slice params = (Ok ps :: (_, 'e) result)" using hvl_slice(1) [OF ps] .
  have len: "length ps \<le> 9" using ps by (simp add: hvl_ok_def)
  have fold: "hi_fold f n (hvl_iterate returns) = fold_types f n rs" "hi_fold g k (hvl_iterate params) = fold_types g k ps"
    for f :: "'b \<Rightarrow> val_type \<Rightarrow> ('b, 'f) result" and n and g :: "nat \<Rightarrow> val_type \<Rightarrow> (nat, unit) result" and k
    using iterate_ok [OF rs] iterate_ok [OF ps] by (simp_all add: hi_fold_rest)
  have words: "param_words ps \<le> 18" using param_words_le [of ps] len by simp
  have small: "\<not> MAX_HOST_FUNCTION_PARAMS < hvl_length params" using len hvl_slice(2) [OF ps] by simp
  show ?thesis
    using small words nm slice
    by (cases rs; cases "tl rs"; cases boxed)
      (auto simp: host_function_try_new_def fold result_fold host_function_of_def hfi_param_size_def fold_sizes param_words_def
        simp del: max_params)
qed

text \<open>
  Claim C27. Registering a host function from strings: once the name and both signatures are accepted,
  \<open>HostFunction::try_new\<close> makes the function exactly when it declares at most one result and its closure can be
  boxed, with the name, the parameters and the result that were spelled; its parameters take at most 18
  words, so their number fits the instruction's byte. Otherwise it says which of the two failed.
\<close>

theorem host_function_exact:
  assumes name: "host_name_try_from_str HOST_FUNCTION_NAME_CAP nm = Ok name"
    and p: "utf8_valid p" "host_val_list_try_new p = Ok params"
    and r: "utf8_valid r" "host_val_list_try_new r = Ok returns"
  shows "\<exists>ps rs. p = map type_byte ps \<and> r = map type_byte rs \<and>
    (case host_function_try_new boxed name params returns of
       Ok f \<Rightarrow> length rs \<le> 1 \<and> boxed = None \<and>
         host_function_of f = (Ok \<lparr>hf_name = nm, hf_params = ps, hf_returns = (case rs of [] \<Rightarrow> None | t # _ \<Rightarrow> Some t),
           hf_present = True\<rparr> :: (_, unit) result) \<and>
         hfi_param_size f = Ok (param_words ps) \<and> param_words ps \<le> 18
     | Err e \<Rightarrow> (e = HE_MultiReturnNotAllowed \<and> 1 < length rs) \<or> (\<exists>a. e = HE_AllocError a \<and> boxed = Some a \<and> length rs \<le> 1)
     | Panic \<Rightarrow> False)"
proof -
  from try_new_cases [OF p(1)] p(2) obtain ps where ps: "p = map type_byte ps" "hvl_ok params ps" by auto
  from try_new_cases [OF r(1)] r(2) obtain rs where rs: "r = map type_byte rs" "hvl_ok returns rs" by auto
  have nm: "host_name_as_bytes name = (Ok nm :: (_, unit) result)"
    using host_name_build_cases [of HOST_FUNCTION_NAME_CAP nm, where 'e = unit] name
    by (auto simp: host_name_try_from_str_def HOST_FUNCTION_NAME_CAP_def split: option.splits)
  from host_function_parts [OF nm ps(2) rs(2)] ps(1) rs(1) show ?thesis by blast
qed

lemma host_function_exact_witness:
  "\<exists>name params. host_name_try_from_str HOST_FUNCTION_NAME_CAP [0x66] = Ok name \<and>
     host_val_list_try_new [0x69] = Ok params \<and>
     (\<exists>f. host_function_try_new None name params params = Ok f \<and> hfi_param_size f = Ok 1)"
proof -
  obtain name where name: "host_name_try_from_str HOST_FUNCTION_NAME_CAP [0x66] = Ok name"
    by (simp add: host_name_try_from_str_def host_name_build_def HOST_FUNCTION_NAME_CAP_def)
  have utf: "utf8_valid [0x69]" by simp
  obtain params where params: "host_val_list_try_new [0x69] = Ok params"
    by (simp add: host_val_list_try_new_def map_char_def)
  have "inj type_byte" by (auto simp: inj_def, case_tac x; case_tac y; simp)
  from host_function_exact [OF name utf params utf params, of None] obtain ps where
    ps: "[0x69] = map type_byte ps" and ok: "case host_function_try_new None name params params of
       Ok f \<Rightarrow> hfi_param_size f = Ok (param_words ps) | Err e \<Rightarrow> 1 < length ps | Panic \<Rightarrow> False"
    using inj_map_eq_map [OF \<open>inj type_byte\<close>] by (force split: result.splits)
  have "t = T_I32" if "type_byte t = 0x69" for t using that by (cases t) simp_all
  with ps have "ps = [T_I32]" by (cases ps) auto
  with ok have "\<exists>f. host_function_try_new None name params params = Ok f \<and> hfi_param_size f = Ok 1"
    by (auto simp: param_words_def split: result.splits)
  with name params show ?thesis by blast
qed

end
