(* ===== verification/Capi_Status.thy ===== *)
theory Capi_Status
  imports Host Engine
begin

text \<open>
  The status codes of the C interface (src/crates/spacewasm_c_api/src/status.rs) and the translation of
  every error of the crate into a code. \<open>spacewasm_status_t\<close> is \<open>repr(i32)\<close>: a status is its integer here,
  and each variant a constant.

  Lemmas: no error is reported as success.
\<close>

section \<open>Codes\<close>

type_synonym c_status = int

definition SPACEWASM_OK :: c_status where [simp]: "SPACEWASM_OK = 0"
definition SPACEWASM_ERR_NULL_ARG :: c_status where [simp]: "SPACEWASM_ERR_NULL_ARG = 1"
definition SPACEWASM_ERR_BAD_ARG :: c_status where [simp]: "SPACEWASM_ERR_BAD_ARG = 2"
definition SPACEWASM_ERR_BAD_UTF8 :: c_status where [simp]: "SPACEWASM_ERR_BAD_UTF8 = 3"
definition SPACEWASM_ERR_NAME_TOO_LONG :: c_status where [simp]: "SPACEWASM_ERR_NAME_TOO_LONG = 4"
definition SPACEWASM_ERR_BAD_SIGNATURE :: c_status where [simp]: "SPACEWASM_ERR_BAD_SIGNATURE = 5"
definition SPACEWASM_ERR_CAPACITY :: c_status where [simp]: "SPACEWASM_ERR_CAPACITY = 6"
definition SPACEWASM_ERR_NOT_FOUND :: c_status where [simp]: "SPACEWASM_ERR_NOT_FOUND = 7"
definition SPACEWASM_ERR_WRONG_STATE :: c_status where [simp]: "SPACEWASM_ERR_WRONG_STATE = 8"
definition SPACEWASM_ERR_GUEST_MEMORY_ALLOC_FAILED :: c_status where [simp]: "SPACEWASM_ERR_GUEST_MEMORY_ALLOC_FAILED = 15"
definition SPACEWASM_ERR_ALLOC_FAILED :: c_status where [simp]: "SPACEWASM_ERR_ALLOC_FAILED = 16"
definition SPACEWASM_ERR_OUT_OF_MEMORY :: c_status where [simp]: "SPACEWASM_ERR_OUT_OF_MEMORY = 17"
definition SPACEWASM_ERR_PAGE_TOO_SMALL :: c_status where [simp]: "SPACEWASM_ERR_PAGE_TOO_SMALL = 18"
definition SPACEWASM_ERR_HEAP_POISONED :: c_status where [simp]: "SPACEWASM_ERR_HEAP_POISONED = 19"
definition SPACEWASM_ERR_MEM_OUT_OF_BOUNDS :: c_status where [simp]: "SPACEWASM_ERR_MEM_OUT_OF_BOUNDS = 32"
definition SPACEWASM_ERR_PARAM_LEN_MISMATCH :: c_status where [simp]: "SPACEWASM_ERR_PARAM_LEN_MISMATCH = 48"
definition SPACEWASM_ERR_PARAM_TYPE_MISMATCH :: c_status where [simp]: "SPACEWASM_ERR_PARAM_TYPE_MISMATCH = 49"
definition SPACEWASM_ERR_STACK_OVERFLOW :: c_status where [simp]: "SPACEWASM_ERR_STACK_OVERFLOW = 50"
definition SPACEWASM_ERR_EOF :: c_status where [simp]: "SPACEWASM_ERR_EOF = 64"
definition SPACEWASM_ERR_MALFORMED_INTEGER :: c_status where [simp]: "SPACEWASM_ERR_MALFORMED_INTEGER = 65"
definition SPACEWASM_ERR_I33_IS_NEGATIVE :: c_status where [simp]: "SPACEWASM_ERR_I33_IS_NEGATIVE = 66"
definition SPACEWASM_ERR_MALFORMED_MAGIC :: c_status where [simp]: "SPACEWASM_ERR_MALFORMED_MAGIC = 67"
definition SPACEWASM_ERR_MALFORMED_VERSION :: c_status where [simp]: "SPACEWASM_ERR_MALFORMED_VERSION = 68"
definition SPACEWASM_ERR_MALFORMED_UTF8 :: c_status where [simp]: "SPACEWASM_ERR_MALFORMED_UTF8 = 69"
definition SPACEWASM_ERR_DUPLICATE_MODULE_NAME :: c_status where [simp]: "SPACEWASM_ERR_DUPLICATE_MODULE_NAME = 70"
definition SPACEWASM_ERR_DUPLICATE_EXPORT_NAME :: c_status where [simp]: "SPACEWASM_ERR_DUPLICATE_EXPORT_NAME = 71"
definition SPACEWASM_ERR_MALFORMED_SECTION_ID :: c_status where [simp]: "SPACEWASM_ERR_MALFORMED_SECTION_ID = 72"
definition SPACEWASM_ERR_MALFORMED_VALUE_TYPE :: c_status where [simp]: "SPACEWASM_ERR_MALFORMED_VALUE_TYPE = 73"
definition SPACEWASM_ERR_MALFORMED_FUNCTION :: c_status where [simp]: "SPACEWASM_ERR_MALFORMED_FUNCTION = 74"
definition SPACEWASM_ERR_MALFORMED_LIMIT :: c_status where [simp]: "SPACEWASM_ERR_MALFORMED_LIMIT = 75"
definition SPACEWASM_ERR_MALFORMED_ELEM_TYPE :: c_status where [simp]: "SPACEWASM_ERR_MALFORMED_ELEM_TYPE = 76"
definition SPACEWASM_ERR_MALFORMED_SECTION_SIZE :: c_status where [simp]: "SPACEWASM_ERR_MALFORMED_SECTION_SIZE = 77"
definition SPACEWASM_ERR_EXPECTED_CONST_OR_VAR :: c_status where [simp]: "SPACEWASM_ERR_EXPECTED_CONST_OR_VAR = 78"
definition SPACEWASM_ERR_MALFORMED_IMPORT_EXPORT_DESC :: c_status where [simp]: "SPACEWASM_ERR_MALFORMED_IMPORT_EXPORT_DESC = 79"
definition SPACEWASM_ERR_MALFORMED_MEM_TYPE :: c_status where [simp]: "SPACEWASM_ERR_MALFORMED_MEM_TYPE = 80"
definition SPACEWASM_ERR_INVALID_PAGE_SIZE :: c_status where [simp]: "SPACEWASM_ERR_INVALID_PAGE_SIZE = 81"
definition SPACEWASM_ERR_INVALID_SECTION_ORDERING :: c_status where [simp]: "SPACEWASM_ERR_INVALID_SECTION_ORDERING = 82"
definition SPACEWASM_ERR_DUPLICATE_SECTION :: c_status where [simp]: "SPACEWASM_ERR_DUPLICATE_SECTION = 83"
definition SPACEWASM_ERR_INVALID_MAX_LIMIT :: c_status where [simp]: "SPACEWASM_ERR_INVALID_MAX_LIMIT = 84"
definition SPACEWASM_ERR_EXPECTED_TERMINAL :: c_status where [simp]: "SPACEWASM_ERR_EXPECTED_TERMINAL = 85"
definition SPACEWASM_ERR_INVALID_OPCODE :: c_status where [simp]: "SPACEWASM_ERR_INVALID_OPCODE = 86"
definition SPACEWASM_ERR_MALFORMED_CODE_SIZE :: c_status where [simp]: "SPACEWASM_ERR_MALFORMED_CODE_SIZE = 87"
definition SPACEWASM_ERR_INVALID_CODE_SECTION_FUNCTION_COUNT :: c_status where [simp]: "SPACEWASM_ERR_INVALID_CODE_SECTION_FUNCTION_COUNT = 88"
definition SPACEWASM_ERR_VEC_TOO_LONG :: c_status where [simp]: "SPACEWASM_ERR_VEC_TOO_LONG = 89"
definition SPACEWASM_ERR_IDX_TOO_LARGE :: c_status where [simp]: "SPACEWASM_ERR_IDX_TOO_LARGE = 90"
definition SPACEWASM_ERR_MODULE_IDX_TOO_LARGE :: c_status where [simp]: "SPACEWASM_ERR_MODULE_IDX_TOO_LARGE = 91"
definition SPACEWASM_ERR_MEMORY_TOO_LARGE :: c_status where [simp]: "SPACEWASM_ERR_MEMORY_TOO_LARGE = 92"
definition SPACEWASM_ERR_MEMORY_IMPORT_TOO_LARGE :: c_status where [simp]: "SPACEWASM_ERR_MEMORY_IMPORT_TOO_LARGE = 93"
definition SPACEWASM_ERR_MEM_ALIGN_TOO_LARGE :: c_status where [simp]: "SPACEWASM_ERR_MEM_ALIGN_TOO_LARGE = 94"
definition SPACEWASM_ERR_TABLE_TOO_LARGE :: c_status where [simp]: "SPACEWASM_ERR_TABLE_TOO_LARGE = 95"
definition SPACEWASM_ERR_CONTROL_FLOW_TOO_DEEP :: c_status where [simp]: "SPACEWASM_ERR_CONTROL_FLOW_TOO_DEEP = 96"
definition SPACEWASM_ERR_STACK_UNDERFLOW :: c_status where [simp]: "SPACEWASM_ERR_STACK_UNDERFLOW = 97"
definition SPACEWASM_ERR_STACK_TOO_LARGE :: c_status where [simp]: "SPACEWASM_ERR_STACK_TOO_LARGE = 98"
definition SPACEWASM_ERR_LABEL_STACK_JUMP_TOO_DEEP :: c_status where [simp]: "SPACEWASM_ERR_LABEL_STACK_JUMP_TOO_DEEP = 99"
definition SPACEWASM_ERR_LABEL_JUMP_TOO_LARGE :: c_status where [simp]: "SPACEWASM_ERR_LABEL_JUMP_TOO_LARGE = 100"
definition SPACEWASM_ERR_TYPE_MISMATCH :: c_status where [simp]: "SPACEWASM_ERR_TYPE_MISMATCH = 101"
definition SPACEWASM_ERR_BLOCK_RESULT_TYPE_MISMATCH :: c_status where [simp]: "SPACEWASM_ERR_BLOCK_RESULT_TYPE_MISMATCH = 102"
definition SPACEWASM_ERR_FUNCTION_RESULT_TYPE_MISMATCH :: c_status where [simp]: "SPACEWASM_ERR_FUNCTION_RESULT_TYPE_MISMATCH = 103"
definition SPACEWASM_ERR_BR_TABLE_RESULT_TYPE_MISMATCH :: c_status where [simp]: "SPACEWASM_ERR_BR_TABLE_RESULT_TYPE_MISMATCH = 104"
definition SPACEWASM_ERR_ILLEGAL_MEMORY_GROW :: c_status where [simp]: "SPACEWASM_ERR_ILLEGAL_MEMORY_GROW = 112"
definition SPACEWASM_ERR_INVALID_ELEMENT_OFFSET :: c_status where [simp]: "SPACEWASM_ERR_INVALID_ELEMENT_OFFSET = 113"
definition SPACEWASM_ERR_INVALID_ELEMENT_OUT_OF_BOUNDS :: c_status where [simp]: "SPACEWASM_ERR_INVALID_ELEMENT_OUT_OF_BOUNDS = 114"
definition SPACEWASM_ERR_INVALID_TABLE_INDEX :: c_status where [simp]: "SPACEWASM_ERR_INVALID_TABLE_INDEX = 115"
definition SPACEWASM_ERR_TABLE_NOT_DEFINED :: c_status where [simp]: "SPACEWASM_ERR_TABLE_NOT_DEFINED = 116"
definition SPACEWASM_ERR_INVALID_ELEMENT_COUNT :: c_status where [simp]: "SPACEWASM_ERR_INVALID_ELEMENT_COUNT = 117"
definition SPACEWASM_ERR_INVALID_MEM_INDEX :: c_status where [simp]: "SPACEWASM_ERR_INVALID_MEM_INDEX = 118"
definition SPACEWASM_ERR_MEMORY_NOT_DEFINED :: c_status where [simp]: "SPACEWASM_ERR_MEMORY_NOT_DEFINED = 119"
definition SPACEWASM_ERR_INVALID_MEM_OFFSET_TYPE :: c_status where [simp]: "SPACEWASM_ERR_INVALID_MEM_OFFSET_TYPE = 120"
definition SPACEWASM_ERR_INVALID_MEM_OFFSET :: c_status where [simp]: "SPACEWASM_ERR_INVALID_MEM_OFFSET = 122"
definition SPACEWASM_ERR_MULTIPLE_MEMORIES :: c_status where [simp]: "SPACEWASM_ERR_MULTIPLE_MEMORIES = 123"
definition SPACEWASM_ERR_MULTIPLE_TABLES :: c_status where [simp]: "SPACEWASM_ERR_MULTIPLE_TABLES = 124"
definition SPACEWASM_ERR_INVALID_LABEL_INDEX :: c_status where [simp]: "SPACEWASM_ERR_INVALID_LABEL_INDEX = 128"
definition SPACEWASM_ERR_INVALID_ELSE_BLOCK :: c_status where [simp]: "SPACEWASM_ERR_INVALID_ELSE_BLOCK = 129"
definition SPACEWASM_ERR_INVALID_END_BLOCK :: c_status where [simp]: "SPACEWASM_ERR_INVALID_END_BLOCK = 130"
definition SPACEWASM_ERR_INSTRUCTION_OUTSIDE_OF_FUNCTION :: c_status where [simp]: "SPACEWASM_ERR_INSTRUCTION_OUTSIDE_OF_FUNCTION = 131"
definition SPACEWASM_ERR_LOCAL_IDX_OUT_OF_RANGE :: c_status where [simp]: "SPACEWASM_ERR_LOCAL_IDX_OUT_OF_RANGE = 132"
definition SPACEWASM_ERR_FUNCTION_IDX_OUT_OF_RANGE :: c_status where [simp]: "SPACEWASM_ERR_FUNCTION_IDX_OUT_OF_RANGE = 133"
definition SPACEWASM_ERR_TYPE_IDX_OUT_OF_RANGE :: c_status where [simp]: "SPACEWASM_ERR_TYPE_IDX_OUT_OF_RANGE = 134"
definition SPACEWASM_ERR_FUNCTION_TEXT_OUT_OF_RANGE :: c_status where [simp]: "SPACEWASM_ERR_FUNCTION_TEXT_OUT_OF_RANGE = 135"
definition SPACEWASM_ERR_GLOBAL_IDX_OUT_OF_RANGE :: c_status where [simp]: "SPACEWASM_ERR_GLOBAL_IDX_OUT_OF_RANGE = 136"
definition SPACEWASM_ERR_FUNCTION_IMPORT_NOT_FOUND :: c_status where [simp]: "SPACEWASM_ERR_FUNCTION_IMPORT_NOT_FOUND = 144"
definition SPACEWASM_ERR_GLOBAL_IMPORT_NOT_FOUND :: c_status where [simp]: "SPACEWASM_ERR_GLOBAL_IMPORT_NOT_FOUND = 145"
definition SPACEWASM_ERR_MEMORY_IMPORT_NOT_FOUND :: c_status where [simp]: "SPACEWASM_ERR_MEMORY_IMPORT_NOT_FOUND = 146"
definition SPACEWASM_ERR_TABLE_IMPORT_NOT_FOUND :: c_status where [simp]: "SPACEWASM_ERR_TABLE_IMPORT_NOT_FOUND = 147"
definition SPACEWASM_ERR_FUNCTION_IMPORT_OUT_OF_RANGE :: c_status where [simp]: "SPACEWASM_ERR_FUNCTION_IMPORT_OUT_OF_RANGE = 148"
definition SPACEWASM_ERR_FUNCTION_IMPORT_TYPE_MISMATCH :: c_status where [simp]: "SPACEWASM_ERR_FUNCTION_IMPORT_TYPE_MISMATCH = 149"
definition SPACEWASM_ERR_GLOBAL_NOT_MUTABLE :: c_status where [simp]: "SPACEWASM_ERR_GLOBAL_NOT_MUTABLE = 150"
definition SPACEWASM_ERR_GLOBAL_IMPORT_TYPE_MISMATCH :: c_status where [simp]: "SPACEWASM_ERR_GLOBAL_IMPORT_TYPE_MISMATCH = 151"
definition SPACEWASM_ERR_MEMORY_IMPORT_TYPE_MISMATCH :: c_status where [simp]: "SPACEWASM_ERR_MEMORY_IMPORT_TYPE_MISMATCH = 152"
definition SPACEWASM_ERR_TABLE_IMPORT_TYPE_MISMATCH :: c_status where [simp]: "SPACEWASM_ERR_TABLE_IMPORT_TYPE_MISMATCH = 153"
definition SPACEWASM_ERR_TABLE_IMPORT_INCOMPATIBLE_SIZE :: c_status where [simp]: "SPACEWASM_ERR_TABLE_IMPORT_INCOMPATIBLE_SIZE = 154"
definition SPACEWASM_ERR_TABLE_REF_NOT_UNIQUE :: c_status where [simp]: "SPACEWASM_ERR_TABLE_REF_NOT_UNIQUE = 155"
definition SPACEWASM_ERR_FUNCTION_PARAMETERS_TOO_LARGE :: c_status where [simp]: "SPACEWASM_ERR_FUNCTION_PARAMETERS_TOO_LARGE = 160"
definition SPACEWASM_ERR_FUNCTION_RETURNS_TOO_LARGE :: c_status where [simp]: "SPACEWASM_ERR_FUNCTION_RETURNS_TOO_LARGE = 161"
definition SPACEWASM_ERR_TOO_MANY_LOCALS :: c_status where [simp]: "SPACEWASM_ERR_TOO_MANY_LOCALS = 162"
definition SPACEWASM_ERR_INVALID_CONST_INSTRUCTION :: c_status where [simp]: "SPACEWASM_ERR_INVALID_CONST_INSTRUCTION = 163"
definition SPACEWASM_ERR_GLOBAL_TYPE_MISMATCH :: c_status where [simp]: "SPACEWASM_ERR_GLOBAL_TYPE_MISMATCH = 164"
definition SPACEWASM_ERR_ALIGNMENT_LARGER_THAN_TYPE :: c_status where [simp]: "SPACEWASM_ERR_ALIGNMENT_LARGER_THAN_TYPE = 165"
definition SPACEWASM_ERR_INVALID_START_FUNCTION_SIGNATURE :: c_status where [simp]: "SPACEWASM_ERR_INVALID_START_FUNCTION_SIGNATURE = 166"
definition SPACEWASM_ERR_INVALID_HOST_START_FUNCTION :: c_status where [simp]: "SPACEWASM_ERR_INVALID_HOST_START_FUNCTION = 167"
definition SPACEWASM_ERR_CONST_ALREADY_HAS_VALUE :: c_status where [simp]: "SPACEWASM_ERR_CONST_ALREADY_HAS_VALUE = 176"
definition SPACEWASM_ERR_CONST_NO_VALUE :: c_status where [simp]: "SPACEWASM_ERR_CONST_NO_VALUE = 177"
definition SPACEWASM_ERR_CONST_INVALID_GLOBAL :: c_status where [simp]: "SPACEWASM_ERR_CONST_INVALID_GLOBAL = 178"
definition SPACEWASM_ERR_POSSIBLE_BACKPATCH_CYCLE :: c_status where [simp]: "SPACEWASM_ERR_POSSIBLE_BACKPATCH_CYCLE = 192"
definition SPACEWASM_ERR_PAGE_FAULT :: c_status where [simp]: "SPACEWASM_ERR_PAGE_FAULT = 193"
definition SPACEWASM_ERR_READER_ERROR :: c_status where [simp]: "SPACEWASM_ERR_READER_ERROR = 194"

datatype c_run_status = SPACEWASM_RUN_FINISHED | SPACEWASM_RUN_OUT_OF_FUEL | SPACEWASM_RUN_PAUSE | SPACEWASM_RUN_TRAP

fun run_status_code :: "c_run_status \<Rightarrow> int" where
  "run_status_code SPACEWASM_RUN_FINISHED = 0"
| "run_status_code SPACEWASM_RUN_OUT_OF_FUEL = 1"
| "run_status_code SPACEWASM_RUN_PAUSE = 2"
| "run_status_code SPACEWASM_RUN_TRAP = 3"

datatype c_trap =
    SPACEWASM_TRAP_NONE | SPACEWASM_TRAP_UNREACHABLE | SPACEWASM_TRAP_HOST
    | SPACEWASM_TRAP_DIVIDE_BY_ZERO | SPACEWASM_TRAP_INVALID_TABLE_INDEX | SPACEWASM_TRAP_INVALID_TABLE_FUNCTION_TYPE
    | SPACEWASM_TRAP_UNINITIALIZED_TABLE_ELEMENT | SPACEWASM_TRAP_GLOBAL_GET_FAILED | SPACEWASM_TRAP_GLOBAL_SET_FAILED
    | SPACEWASM_TRAP_OUT_OF_MEMORY | SPACEWASM_TRAP_MEMORY_REF_NOT_UNIQUE | SPACEWASM_TRAP_MEMORY_OUT_OF_BOUNDS
    | SPACEWASM_TRAP_STACK_OVERFLOW | SPACEWASM_TRAP_UNREPRESENTABLE_RESULT | SPACEWASM_TRAP_INTEGER_OVERFLOW
    | SPACEWASM_TRAP_BAD_CONVERSION_TO_INTEGER | SPACEWASM_TRAP_MALFORMED_IR

primrec trap_code :: "c_trap \<Rightarrow> int" where
  "trap_code SPACEWASM_TRAP_NONE = -1"
| "trap_code SPACEWASM_TRAP_UNREACHABLE = 0"
| "trap_code SPACEWASM_TRAP_HOST = 1"
| "trap_code SPACEWASM_TRAP_DIVIDE_BY_ZERO = 2"
| "trap_code SPACEWASM_TRAP_INVALID_TABLE_INDEX = 3"
| "trap_code SPACEWASM_TRAP_INVALID_TABLE_FUNCTION_TYPE = 4"
| "trap_code SPACEWASM_TRAP_UNINITIALIZED_TABLE_ELEMENT = 5"
| "trap_code SPACEWASM_TRAP_GLOBAL_GET_FAILED = 6"
| "trap_code SPACEWASM_TRAP_GLOBAL_SET_FAILED = 7"
| "trap_code SPACEWASM_TRAP_OUT_OF_MEMORY = 8"
| "trap_code SPACEWASM_TRAP_MEMORY_REF_NOT_UNIQUE = 9"
| "trap_code SPACEWASM_TRAP_MEMORY_OUT_OF_BOUNDS = 10"
| "trap_code SPACEWASM_TRAP_STACK_OVERFLOW = 11"
| "trap_code SPACEWASM_TRAP_UNREPRESENTABLE_RESULT = 12"
| "trap_code SPACEWASM_TRAP_INTEGER_OVERFLOW = 13"
| "trap_code SPACEWASM_TRAP_BAD_CONVERSION_TO_INTEGER = 14"
| "trap_code SPACEWASM_TRAP_MALFORMED_IR = 15"

section \<open>Translations\<close>

primrec trap_reason_code :: "trap_reason \<Rightarrow> c_trap" where
  "trap_reason_code TR_Unreachable = SPACEWASM_TRAP_UNREACHABLE"
| "trap_reason_code TR_Host = SPACEWASM_TRAP_HOST"
| "trap_reason_code TR_DivideByZero = SPACEWASM_TRAP_DIVIDE_BY_ZERO"
| "trap_reason_code TR_InvalidTableIndex = SPACEWASM_TRAP_INVALID_TABLE_INDEX"
| "trap_reason_code TR_InvalidTableFunctionType = SPACEWASM_TRAP_INVALID_TABLE_FUNCTION_TYPE"
| "trap_reason_code TR_UninitializedTableElement = SPACEWASM_TRAP_UNINITIALIZED_TABLE_ELEMENT"
| "trap_reason_code TR_GlobalGetFailed = SPACEWASM_TRAP_GLOBAL_GET_FAILED"
| "trap_reason_code TR_GlobalSetFailed = SPACEWASM_TRAP_GLOBAL_SET_FAILED"
| "trap_reason_code TR_OutOfMemory = SPACEWASM_TRAP_OUT_OF_MEMORY"
| "trap_reason_code TR_MemoryRefNotUnique = SPACEWASM_TRAP_MEMORY_REF_NOT_UNIQUE"
| "trap_reason_code TR_MemoryOutOfBounds = SPACEWASM_TRAP_MEMORY_OUT_OF_BOUNDS"
| "trap_reason_code TR_StackOverflow = SPACEWASM_TRAP_STACK_OVERFLOW"
| "trap_reason_code TR_UnrepresentableResult = SPACEWASM_TRAP_UNREPRESENTABLE_RESULT"
| "trap_reason_code TR_IntegerOverflow = SPACEWASM_TRAP_INTEGER_OVERFLOW"
| "trap_reason_code TR_BadConversionToInteger = SPACEWASM_TRAP_BAD_CONVERSION_TO_INTEGER"
| "trap_reason_code TR_MalformedIr = SPACEWASM_TRAP_MALFORMED_IR"

fun alloc_status :: "alloc_error \<Rightarrow> c_status" where
  "alloc_status AE_AllocationFailed = SPACEWASM_ERR_ALLOC_FAILED"
| "alloc_status AE_OutOfMemory = SPACEWASM_ERR_OUT_OF_MEMORY"
| "alloc_status AE_PageTooSmall = SPACEWASM_ERR_PAGE_TOO_SMALL"
| "alloc_status AE_HeapPoisoned = SPACEWASM_ERR_HEAP_POISONED"

fun memory_status :: "memory_error \<Rightarrow> c_status" where
  "memory_status ME_OutOfBounds = SPACEWASM_ERR_MEM_OUT_OF_BOUNDS"
| "memory_status ME_OutOfMemory = SPACEWASM_ERR_OUT_OF_MEMORY"
| "memory_status ME_AllocationFailed = SPACEWASM_ERR_ALLOC_FAILED"
| "memory_status ME_PageTooSmall = SPACEWASM_ERR_PAGE_TOO_SMALL"
| "memory_status ME_HeapPoisoned = SPACEWASM_ERR_HEAP_POISONED"

fun invoke_status :: "invoke_error \<Rightarrow> c_status" where
  "invoke_status IE_ParamLenMismatch = SPACEWASM_ERR_PARAM_LEN_MISMATCH"
| "invoke_status IE_ParamTypeMismatch = SPACEWASM_ERR_PARAM_TYPE_MISMATCH"
| "invoke_status IE_StackOverflow = SPACEWASM_ERR_STACK_OVERFLOW"
| "invoke_status IE_Busy = SPACEWASM_ERR_WRONG_STATE"

fun constant_expr_status :: "constant_expr_error \<Rightarrow> c_status" where
  "constant_expr_status CE_InvalidConstantInstruction = SPACEWASM_ERR_INVALID_CONST_INSTRUCTION"
| "constant_expr_status CE_AlreadyHasValue = SPACEWASM_ERR_CONST_ALREADY_HAS_VALUE"
| "constant_expr_status CE_NoValue = SPACEWASM_ERR_CONST_NO_VALUE"
| "constant_expr_status CE_InvalidGlobal = SPACEWASM_ERR_CONST_INVALID_GLOBAL"

primrec validation_status :: "validation_error \<Rightarrow> c_status" where
  "validation_status Eof = SPACEWASM_ERR_EOF"
| "validation_status MalformedInteger = SPACEWASM_ERR_MALFORMED_INTEGER"
| "validation_status I33IsNegative = SPACEWASM_ERR_I33_IS_NEGATIVE"
| "validation_status MalformedMagic = SPACEWASM_ERR_MALFORMED_MAGIC"
| "validation_status MalformedVersion = SPACEWASM_ERR_MALFORMED_VERSION"
| "validation_status MalformedUtf8 = SPACEWASM_ERR_MALFORMED_UTF8"
| "validation_status DuplicateModuleName = SPACEWASM_ERR_DUPLICATE_MODULE_NAME"
| "validation_status DuplicateExportName = SPACEWASM_ERR_DUPLICATE_EXPORT_NAME"
| "validation_status (MalformedSectionId a) = SPACEWASM_ERR_MALFORMED_SECTION_ID"
| "validation_status (MalformedValueType a) = SPACEWASM_ERR_MALFORMED_VALUE_TYPE"
| "validation_status (MalformedFunction a) = SPACEWASM_ERR_MALFORMED_FUNCTION"
| "validation_status (MalformedLimit a) = SPACEWASM_ERR_MALFORMED_LIMIT"
| "validation_status (MalformedElemType a) = SPACEWASM_ERR_MALFORMED_ELEM_TYPE"
| "validation_status MalformedSectionSize = SPACEWASM_ERR_MALFORMED_SECTION_SIZE"
| "validation_status (ExpectedConstOrVar a) = SPACEWASM_ERR_EXPECTED_CONST_OR_VAR"
| "validation_status (MalformedImportExportDesc a) = SPACEWASM_ERR_MALFORMED_IMPORT_EXPORT_DESC"
| "validation_status (MalformedMemType a) = SPACEWASM_ERR_MALFORMED_MEM_TYPE"
| "validation_status (InvalidPageSize a) = SPACEWASM_ERR_INVALID_PAGE_SIZE"
| "validation_status (InvalidSectionOrdering a b) = SPACEWASM_ERR_INVALID_SECTION_ORDERING"
| "validation_status (DuplicateSection a) = SPACEWASM_ERR_DUPLICATE_SECTION"
| "validation_status InvalidMaxLimit = SPACEWASM_ERR_INVALID_MAX_LIMIT"
| "validation_status (ExpectedTerminal a) = SPACEWASM_ERR_EXPECTED_TERMINAL"
| "validation_status (InvalidOpcode a) = SPACEWASM_ERR_INVALID_OPCODE"
| "validation_status (InvalidFcOpcode a) = SPACEWASM_ERR_INVALID_OPCODE"
| "validation_status MalformedCodeSize = SPACEWASM_ERR_MALFORMED_CODE_SIZE"
| "validation_status InvalidCodeSectionFunctionCount = SPACEWASM_ERR_INVALID_CODE_SECTION_FUNCTION_COUNT"
| "validation_status VecTooLong = SPACEWASM_ERR_VEC_TOO_LONG"
| "validation_status IdxTooLarge = SPACEWASM_ERR_IDX_TOO_LARGE"
| "validation_status ModuleIdxTooLarge = SPACEWASM_ERR_MODULE_IDX_TOO_LARGE"
| "validation_status MemoryTooLarge = SPACEWASM_ERR_MEMORY_TOO_LARGE"
| "validation_status TableTooLarge = SPACEWASM_ERR_TABLE_TOO_LARGE"
| "validation_status MemoryImportTooLarge = SPACEWASM_ERR_MEMORY_IMPORT_TOO_LARGE"
| "validation_status MemAlignTooLarge = SPACEWASM_ERR_MEM_ALIGN_TOO_LARGE"
| "validation_status ControlFlowTooDeep = SPACEWASM_ERR_CONTROL_FLOW_TOO_DEEP"
| "validation_status StackUnderflow = SPACEWASM_ERR_STACK_UNDERFLOW"
| "validation_status StackTooLarge = SPACEWASM_ERR_STACK_TOO_LARGE"
| "validation_status LabelStackJumpTooDeep = SPACEWASM_ERR_LABEL_STACK_JUMP_TOO_DEEP"
| "validation_status LabelJumpTooLarge = SPACEWASM_ERR_LABEL_JUMP_TOO_LARGE"
| "validation_status TypeMismatch = SPACEWASM_ERR_TYPE_MISMATCH"
| "validation_status BlockResultTypeMismatch = SPACEWASM_ERR_BLOCK_RESULT_TYPE_MISMATCH"
| "validation_status BrTableResultTypeMismatch = SPACEWASM_ERR_BR_TABLE_RESULT_TYPE_MISMATCH"
| "validation_status FunctionResultTypeMismatch = SPACEWASM_ERR_FUNCTION_RESULT_TYPE_MISMATCH"
| "validation_status IllegalMemoryGrow = SPACEWASM_ERR_ILLEGAL_MEMORY_GROW"
| "validation_status InvalidElementOffset = SPACEWASM_ERR_INVALID_ELEMENT_OFFSET"
| "validation_status InvalidElementOutOfBounds = SPACEWASM_ERR_INVALID_ELEMENT_OUT_OF_BOUNDS"
| "validation_status InvalidTableIndex = SPACEWASM_ERR_INVALID_TABLE_INDEX"
| "validation_status TableNotDefined = SPACEWASM_ERR_TABLE_NOT_DEFINED"
| "validation_status InvalidElementCount = SPACEWASM_ERR_INVALID_ELEMENT_COUNT"
| "validation_status InvalidMemIndex = SPACEWASM_ERR_INVALID_MEM_INDEX"
| "validation_status MemoryNotDefined = SPACEWASM_ERR_MEMORY_NOT_DEFINED"
| "validation_status InvalidMemOffsetType = SPACEWASM_ERR_INVALID_MEM_OFFSET_TYPE"
| "validation_status InvalidMemOffset = SPACEWASM_ERR_INVALID_MEM_OFFSET"
| "validation_status InvalidLabelIndex = SPACEWASM_ERR_INVALID_LABEL_INDEX"
| "validation_status InvalidElseBlock = SPACEWASM_ERR_INVALID_ELSE_BLOCK"
| "validation_status InvalidEndBlock = SPACEWASM_ERR_INVALID_END_BLOCK"
| "validation_status MultipleMemories = SPACEWASM_ERR_MULTIPLE_MEMORIES"
| "validation_status MultipleTables = SPACEWASM_ERR_MULTIPLE_TABLES"
| "validation_status PossibleBackpatchCycle = SPACEWASM_ERR_POSSIBLE_BACKPATCH_CYCLE"
| "validation_status PageFault = SPACEWASM_ERR_PAGE_FAULT"
| "validation_status InstructionOutsideOfFunction = SPACEWASM_ERR_INSTRUCTION_OUTSIDE_OF_FUNCTION"
| "validation_status LocalIdxOutOfRange = SPACEWASM_ERR_LOCAL_IDX_OUT_OF_RANGE"
| "validation_status FunctionIdxOutOfRange = SPACEWASM_ERR_FUNCTION_IDX_OUT_OF_RANGE"
| "validation_status TypeIdxOutOfRange = SPACEWASM_ERR_TYPE_IDX_OUT_OF_RANGE"
| "validation_status FunctionTextOutOfRange = SPACEWASM_ERR_FUNCTION_TEXT_OUT_OF_RANGE"
| "validation_status GlobalIdxOutOfRange = SPACEWASM_ERR_GLOBAL_IDX_OUT_OF_RANGE"
| "validation_status FunctionImportNotFound = SPACEWASM_ERR_FUNCTION_IMPORT_NOT_FOUND"
| "validation_status GlobalImportNotFound = SPACEWASM_ERR_GLOBAL_IMPORT_NOT_FOUND"
| "validation_status MemoryImportNotFound = SPACEWASM_ERR_MEMORY_IMPORT_NOT_FOUND"
| "validation_status TableImportNotFound = SPACEWASM_ERR_TABLE_IMPORT_NOT_FOUND"
| "validation_status FunctionImportOutOfRange = SPACEWASM_ERR_FUNCTION_IMPORT_OUT_OF_RANGE"
| "validation_status FunctionImportTypeMismatch = SPACEWASM_ERR_FUNCTION_IMPORT_TYPE_MISMATCH"
| "validation_status GlobalNotMutable = SPACEWASM_ERR_GLOBAL_NOT_MUTABLE"
| "validation_status GlobalImportTypeMismatch = SPACEWASM_ERR_GLOBAL_IMPORT_TYPE_MISMATCH"
| "validation_status MemoryImportTypeMismatch = SPACEWASM_ERR_MEMORY_IMPORT_TYPE_MISMATCH"
| "validation_status TableImportTypeMismatch = SPACEWASM_ERR_TABLE_IMPORT_TYPE_MISMATCH"
| "validation_status TableImportIncompatibleSize = SPACEWASM_ERR_TABLE_IMPORT_INCOMPATIBLE_SIZE"
| "validation_status TableRefNotUnique = SPACEWASM_ERR_TABLE_REF_NOT_UNIQUE"
| "validation_status FunctionParametersTooLarge = SPACEWASM_ERR_FUNCTION_PARAMETERS_TOO_LARGE"
| "validation_status FunctionReturnsTooLarge = SPACEWASM_ERR_FUNCTION_RETURNS_TOO_LARGE"
| "validation_status TooManyLocals = SPACEWASM_ERR_TOO_MANY_LOCALS"
| "validation_status InvalidConstInstruction = SPACEWASM_ERR_INVALID_CONST_INSTRUCTION"
| "validation_status GlobalTypeMismatch = SPACEWASM_ERR_GLOBAL_TYPE_MISMATCH"
| "validation_status AlignmentLargerThanType = SPACEWASM_ERR_ALIGNMENT_LARGER_THAN_TYPE"
| "validation_status InvalidStartFunctionSignature = SPACEWASM_ERR_INVALID_START_FUNCTION_SIGNATURE"
| "validation_status InvalidHostStartFunction = SPACEWASM_ERR_INVALID_HOST_START_FUNCTION"
| "validation_status (InvalidConstantExpr ce) = constant_expr_status ce"
| "validation_status GuestMemoryAllocationFailure = SPACEWASM_ERR_GUEST_MEMORY_ALLOC_FAILED"
| "validation_status (VAllocError ae) = alloc_status ae"
| "validation_status (VMemoryError me) = memory_status me"
| "validation_status (ReaderError a) = SPACEWASM_ERR_READER_ERROR"

definition parse_status :: "parse_error \<Rightarrow> c_status" where
  "parse_status e = validation_status (sde_err (pe_err e))"

definition host_name_status :: "host_name_error \<Rightarrow> c_status" where
  "host_name_status e = SPACEWASM_ERR_NAME_TOO_LONG"

fun host_val_list_status :: "host_function_error \<Rightarrow> c_status" where
  "host_val_list_status HE_ValListInvalidItem = SPACEWASM_ERR_BAD_SIGNATURE"
| "host_val_list_status HE_ParameterListTooLong = SPACEWASM_ERR_FUNCTION_PARAMETERS_TOO_LARGE"
| "host_val_list_status HE_MultiReturnNotAllowed = SPACEWASM_ERR_FUNCTION_RETURNS_TOO_LARGE"
| "host_val_list_status (HE_AllocError ae) = alloc_status ae"

fun resume_status :: "resume_error \<Rightarrow> c_status" where
  "resume_status RE_NotPaused = SPACEWASM_ERR_WRONG_STATE"
| "resume_status RE_ResultTypeMismatch = SPACEWASM_ERR_PARAM_TYPE_MISMATCH"

fun run_status :: "interp_result \<Rightarrow> c_run_status \<times> c_trap" where
  "run_status IR_Finished = (SPACEWASM_RUN_FINISHED, SPACEWASM_TRAP_NONE)"
| "run_status IR_OutOfFuel = (SPACEWASM_RUN_OUT_OF_FUEL, SPACEWASM_TRAP_NONE)"
| "run_status IR_Pause = (SPACEWASM_RUN_PAUSE, SPACEWASM_TRAP_NONE)"
| "run_status (IR_Trap t) = (SPACEWASM_RUN_TRAP, trap_reason_code t)"

section \<open>No error is success\<close>

lemma alloc_status_nonzero [simp]: "alloc_status e \<noteq> 0"
  by (cases e) simp_all

lemma memory_status_nonzero [simp]: "memory_status e \<noteq> 0"
  by (cases e) simp_all

lemma invoke_status_nonzero [simp]: "invoke_status e \<noteq> 0"
  by (cases e) simp_all

lemma constant_expr_status_nonzero [simp]: "constant_expr_status e \<noteq> 0"
  by (cases e) simp_all

lemma validation_status_nonzero [simp]: "validation_status e \<noteq> 0"
  by (cases e) simp_all

lemma parse_status_nonzero [simp]: "parse_status e \<noteq> 0"
  by (simp add: parse_status_def)

lemma host_status_nonzero [simp]: "host_name_status n \<noteq> 0" "host_val_list_status e \<noteq> 0"
  by (simp add: host_name_status_def) (cases e; simp)

lemma resume_status_nonzero [simp]: "resume_status e \<noteq> 0"
  by (cases e) simp_all

text \<open>A trap has a reason exactly if the run trapped.\<close>

lemma run_status_trap: "snd (run_status r) \<noteq> SPACEWASM_TRAP_NONE \<longleftrightarrow> fst (run_status r) = SPACEWASM_RUN_TRAP"
proof (cases r)
  case (IR_Trap t)
  then show ?thesis by (cases t) simp_all
qed simp_all

end
