(* ===== verification/Capi.thy ===== *)
theory Capi
  imports Capi_Status Owned Loaded Run
begin

text \<open>
  The C interface (src/crates/spacewasm_c_api: capi.rs, host.rs, value.rs, stream.rs, alloc.rs,
  global_alloc.rs). A pointer argument is an option, \<open>None\<close> for null; a C string is its bytes. A function
  returns \<open>Ok\<close> with what it wrote through its out-pointers for \<open>SPACEWASM_OK\<close>, and \<open>Err\<close> with
  every other status (nothing is written then, which is how the code has it), or panics. The callbacks, the
  allocators and the bytes a stream delivers belong to the embedder and are arguments.

  Undefined behaviour, such as a slice made from a null pointer, is a panic here.

  The calls on an engine are in theory Capi_Calls, what they promise in Capi_Safe and Capi_Contract.
  Freeing a handle or a block has no effect here: \<open>dealloc\<close> callbacks and \<open>userdata\<close> are left out.
\<close>

section \<open>Values\<close>

text \<open>A value is its tag and the bits of its payload, the low half for a 32-bit type.\<close>

record c_value =
  cv_tag :: u8
  cv_bits :: u64

definition tag_to_type :: "u8 \<Rightarrow> val_type option" where
  "tag_to_type raw =
     (if raw = 0 then Some T_I32 else if raw = 1 then Some T_I64
      else if raw = 2 then Some T_F32 else if raw = 3 then Some T_F64 else None)"

primrec type_to_tag :: "val_type \<Rightarrow> u8" where
  "type_to_tag T_I32 = 0"
| "type_to_tag T_I64 = 1"
| "type_to_tag T_F32 = 2"
| "type_to_tag T_F64 = 3"

primrec c_value_from :: "wasm_value \<Rightarrow> c_value" where
  "c_value_from (V_I32 x) = \<lparr>cv_tag = type_to_tag T_I32, cv_bits = ucast x\<rparr>"
| "c_value_from (V_I64 x) = \<lparr>cv_tag = type_to_tag T_I64, cv_bits = x\<rparr>"
| "c_value_from (V_F32 x) = \<lparr>cv_tag = type_to_tag T_F32, cv_bits = ucast x\<rparr>"
| "c_value_from (V_F64 x) = \<lparr>cv_tag = type_to_tag T_F64, cv_bits = x\<rparr>"

definition try_to_value :: "c_value \<Rightarrow> wasm_value option" where
  "try_to_value c = (case tag_to_type (cv_tag c) of
     None \<Rightarrow> None
   | Some T_I32 \<Rightarrow> Some (V_I32 (ucast (cv_bits c)))
   | Some T_I64 \<Rightarrow> Some (V_I64 (cv_bits c))
   | Some T_F32 \<Rightarrow> Some (V_F32 (ucast (cv_bits c)))
   | Some T_F64 \<Rightarrow> Some (V_F64 (cv_bits c)))"

definition c_value_from_raw :: "raw_value \<Rightarrow> val_type \<Rightarrow> c_value" where
  "c_value_from_raw r ty = c_value_from (raw_to_value r ty)"

section \<open>Allocators\<close>

text \<open>Callbacks return an address, 0 for failure.\<close>

type_synonym c_alloc_fn = "nat \<Rightarrow> nat \<Rightarrow> nat"
type_synonym c_realloc_fn = "nat \<Rightarrow> nat \<Rightarrow> nat \<Rightarrow> nat \<Rightarrow> nat"

record c_allocator =
  ca_alloc :: c_alloc_fn
  ca_realloc :: c_realloc_fn

definition allocator_new :: "c_alloc_fn option \<Rightarrow> c_realloc_fn option \<Rightarrow> bool \<Rightarrow> alloc_error option \<Rightarrow> c_allocator option" where
  "allocator_new al re has_dealloc rc = (case (al, re) of
     (Some a, Some r) \<Rightarrow> if \<not> has_dealloc then None
       else (case rc of None \<Rightarrow> Some \<lparr>ca_alloc = a, ca_realloc = r\<rparr> | Some _ \<Rightarrow> None)
   | _ \<Rightarrow> None)"

definition c_allocate :: "c_allocator \<Rightarrow> nat \<Rightarrow> nat \<Rightarrow> (nat, alloc_error) result" where
  "c_allocate c sz al = (let ptr = ca_alloc c sz al in if ptr = 0 then Err AE_AllocationFailed else Ok ptr)"

definition c_reallocate :: "c_allocator \<Rightarrow> nat \<Rightarrow> nat \<Rightarrow> nat \<Rightarrow> nat \<Rightarrow> (nat, alloc_error) result" where
  "c_reallocate c ptr old_size sz al =
     (let new = ca_realloc c ptr old_size sz al in if new = 0 then Err AE_AllocationFailed else Ok new)"

text \<open>The answer of such an allocator to the requests of a linear memory (theory Linear_Memory).\<close>

definition c_alloc_response :: "c_allocator \<Rightarrow> nat \<Rightarrow> alloc_response" where
  "c_alloc_response c ptr old new al =
     (case (if old = 0 then c_allocate c new al else c_reallocate c ptr old new al) of Ok _ \<Rightarrow> None | Err e \<Rightarrow> Some e | Panic \<Rightarrow> None)"

text \<open>The allocator behind the process-wide page heap; \<open>None\<close> until one is registered.\<close>

record c_backend =
  cb_alloc :: "c_alloc_fn option"
  cb_dealloc :: bool

definition page_backend_alloc :: "c_backend \<Rightarrow> backing" where
  "page_backend_alloc b = (\<lambda>sz al. case cb_alloc b of
     None \<Rightarrow> Err AE_AllocationFailed
   | Some f \<Rightarrow> (let ptr = f sz al in if ptr = 0 then Err AE_OutOfMemory else Ok ptr))"

definition spacewasm_set_global_allocator :: "c_alloc_fn option \<Rightarrow> bool \<Rightarrow> (c_backend, unit, c_status) m" where
  "spacewasm_set_global_allocator al has_dealloc = (case al of
     Some f \<Rightarrow> if has_dealloc then modifyM (\<lambda>_. \<lparr>cb_alloc = Some f, cb_dealloc = True\<rparr>) else errM SPACEWASM_ERR_BAD_ARG
   | None \<Rightarrow> errM SPACEWASM_ERR_BAD_ARG)"

definition GLOBAL_ALLOCATOR_MAX_PAGES :: nat where "GLOBAL_ALLOCATOR_MAX_PAGES = 16"
definition GLOBAL_ALLOCATOR_PAGE_SIZE :: nat where "GLOBAL_ALLOCATOR_PAGE_SIZE = 8192"
definition MAX_CONTROL_FRAMES :: nat where "MAX_CONTROL_FRAMES = 64"
definition MAX_STACK_DEPTH :: nat where "MAX_STACK_DEPTH = 256"

section \<open>Streams and host callbacks\<close>

datatype read_outcome = READ_OK "u8 list option" | READ_EOF | READ_ERROR

text \<open>\<open>CallbackStream::read\<close>: what the reader gets for an answer of the callback.\<close>

fun callback_read :: "read_outcome \<Rightarrow> chunk_result" where
  "callback_read READ_ERROR = ReadErr 1"
| "callback_read READ_EOF = NoChunk"
| "callback_read (READ_OK buf) = (case buf of None \<Rightarrow> NoChunk | Some bs \<Rightarrow> if bs = [] then NoChunk else Chunk bs)"

datatype c_call_result = CONTINUE_NONE | CONTINUE_SOME | CALL_TRAP | CALL_PAUSE

text \<open>A callback gets the arguments and the engine; it returns the outcome and \<open>out_result\<close>, or never returns.\<close>

type_synonym 'h c_host_fn = "c_value list \<Rightarrow> ('h engine, c_call_result \<times> c_value, unit) m"

definition MAX_HOST_PARAMS :: nat where "MAX_HOST_PARAMS = 32"

definition c_host_call :: "'h c_host_fn \<Rightarrow> wasm_value list \<Rightarrow> ('h engine, host_outcome, unit) m" where
  "c_host_call f args =
     (if MAX_HOST_PARAMS < length args then retM HO_Trap
      else bindM (f (map c_value_from args)) (\<lambda>(outcome, out_result).
        case outcome of
          CONTINUE_NONE \<Rightarrow> retM (HO_Continue None)
        | CONTINUE_SOME \<Rightarrow> bindM (unwrapM (try_to_value out_result)) (\<lambda>v. retM (HO_Continue (Some v)))
        | CALL_TRAP \<Rightarrow> retM HO_Trap
        | CALL_PAUSE \<Rightarrow> retM HO_Pause))"

section \<open>Errors and pointers\<close>

type_synonym c_str = "u8 list option"

definition requireM :: "bool \<Rightarrow> 'e \<Rightarrow> ('s, unit, 'e) m" where
  "requireM b e = (if b then retM () else errM e)"

definition cstr :: "c_str \<Rightarrow> (u8 list, c_status) result" where
  "cstr p = (case p of
     None \<Rightarrow> Err SPACEWASM_ERR_NULL_ARG
   | Some c \<Rightarrow> if utf8_valid c then Ok c else Err SPACEWASM_ERR_BAD_UTF8)"

section \<open>Host modules\<close>

record c_host_module =
  chm_name :: host_name
  chm_globals :: "host_global inner_vec"
  chm_functions :: "host_fn_item inner_vec"

record c_sizes =
  cs_module :: "nat \<times> nat"
  cs_function :: "nat \<times> nat"
  cs_global :: "nat \<times> nat"

definition new_vec :: "backing \<Rightarrow> nat \<times> nat \<Rightarrow> nat \<Rightarrow> ('a inner_vec, c_status) result" where
  "new_vec bk l n = map_errR alloc_status (vec_new_in bk (fst l) (snd l) n)"

definition spacewasm_host_new :: "backing \<Rightarrow> c_sizes \<Rightarrow> nat \<Rightarrow> bool \<Rightarrow> (c_host_module inner_vec, c_status) result" where
  "spacewasm_host_new bk sz len dest =
     (if \<not> dest then Err SPACEWASM_ERR_NULL_ARG else new_vec bk (cs_module sz) len)"

text \<open>The host vector is updated in place; the index goes to \<open>out_idx\<close> if that is not null.\<close>

definition spacewasm_add_host_module ::
  "backing \<Rightarrow> c_sizes \<Rightarrow> c_str \<Rightarrow> nat \<Rightarrow> nat \<Rightarrow> (c_host_module inner_vec option, u32, c_status) m" where
  "spacewasm_add_host_module bk sz name max_functions max_globals =
     bindM (liftR (new_vec bk (cs_function sz) max_functions)) (\<lambda>functions.
     bindM (liftR (new_vec bk (cs_global sz) max_globals)) (\<lambda>globals.
     bindM (liftR (cstr name)) (\<lambda>name.
     bindM (liftR (map_errR host_name_status (host_name_try_from_str HOST_MODULE_NAME_CAP name))) (\<lambda>name.
     bindM (getM id) (\<lambda>host.
     case host of
       None \<Rightarrow> errM SPACEWASM_ERR_NULL_ARG
     | Some v \<Rightarrow>
         (case iv_try_push \<lparr>chm_name = name, chm_globals = globals, chm_functions = functions\<rparr> v of
            (Ok _, w) \<Rightarrow> (\<lambda>_. (Ok (word_of_nat (iv_len w - 1)), Some w))
          | (Err _, w) \<Rightarrow> (\<lambda>_. (Err SPACEWASM_ERR_CAPACITY, Some w))
          | (Panic, w) \<Rightarrow> (\<lambda>_. (Panic, Some w))))))))"

text \<open>\<open>host.get_mut(i)\<close> on the slice of the vector.\<close>

definition vec_get :: "'a inner_vec \<Rightarrow> nat \<Rightarrow> ('a option, 'e) result" where
  "vec_get v i = bindR (iv_deref v) (\<lambda>xs. Ok (get_opt xs i))"

definition spacewasm_add_host_function ::
  "alloc_error option \<Rightarrow> u32 \<Rightarrow> c_str \<Rightarrow> c_str \<Rightarrow> c_str \<Rightarrow> bool \<Rightarrow> (c_host_module inner_vec option, unit, c_status) m" where
  "spacewasm_add_host_function boxed module_idx name params_sig returns_sig f =
     bindM (liftR (cstr name)) (\<lambda>name.
     bindM (liftR (cstr params_sig)) (\<lambda>params_sig.
     bindM (liftR (cstr returns_sig)) (\<lambda>returns_sig.
     bindM (liftR (map_errR host_name_status (host_name_try_from_str HOST_FUNCTION_NAME_CAP name))) (\<lambda>name.
     bindM (liftR (map_errR host_val_list_status (host_val_list_try_new params_sig))) (\<lambda>params.
     bindM (liftR (map_errR host_val_list_status (host_val_list_try_new returns_sig))) (\<lambda>returns.
     bindM (getM id) (\<lambda>host. case host of
       None \<Rightarrow> errM SPACEWASM_ERR_NULL_ARG
     | Some v \<Rightarrow>
         thenM (requireM f SPACEWASM_ERR_NULL_ARG)
         (bindM (liftR (map_errR host_val_list_status (host_function_try_new boxed name params returns))) (\<lambda>host_fn.
          bindM (liftR (vec_get v (unat module_idx))) (\<lambda>m. case m of
            None \<Rightarrow> errM SPACEWASM_ERR_NOT_FOUND
          | Some m \<Rightarrow> (case iv_try_push host_fn (chm_functions m) of
              (Ok _, fs) \<Rightarrow> modifyM (\<lambda>_. Some (v\<lparr>iv_buf := (iv_buf v)[unat module_idx := Some (m\<lparr>chm_functions := fs\<rparr>)]\<rparr>))
            | (Err _, _) \<Rightarrow> errM SPACEWASM_ERR_CAPACITY
            | (Panic, _) \<Rightarrow> panicM)))))))))))"

text \<open>A host module as the store keeps it (theory Module_Data).\<close>

fun collect :: "('a \<Rightarrow> ('b, 'e) result) \<Rightarrow> 'a list \<Rightarrow> ('b list, 'e) result" where
  "collect f [] = Ok []"
| "collect f (x # xs) = bindR (f x) (\<lambda>y. bindR (collect f xs) (\<lambda>ys. Ok (y # ys)))"

definition host_module_of :: "c_host_module \<Rightarrow> (host_module, 'e) result" where
  "host_module_of m =
     bindR (host_name_as_bytes (chm_name m)) (\<lambda>name.
     bindR (iv_deref (chm_globals m)) (\<lambda>globals.
     bindR (iv_deref (chm_functions m)) (\<lambda>fs.
     bindR (collect host_function_of fs) (\<lambda>functions.
     Ok \<lparr>hmod_name = name, hmod_globals = globals, hmod_functions = functions, hmod_memory = [], hmod_table = []\<rparr>))))"

section \<open>Engines\<close>

record 'h cengine =
  ce_engine :: "'h engine"
  ce_code :: code_builder

record c_options =
  co_memory_grow :: bool
  co_iterations :: u32
  co_pages :: nat

definition options_of :: "c_options \<Rightarrow> compiler_options" where
  "options_of o' = \<lparr>allow_memory_grow = co_memory_grow o',
     max_backpatch_iterations = (if co_iterations o' \<noteq> 0 then Some (co_iterations o') else None),
     max_code_pages = co_pages o'\<rparr>"

text \<open>What the allocator answers to \<open>spacewasm_new\<close>: for the store, the stack, the pages and the box.\<close>

record new_answers =
  na_store :: "alloc_error option list"
  na_stack :: "nat \<Rightarrow> (nat \<Rightarrow> u32, alloc_error) result"
  na_pages :: "alloc_error option list"
  na_box :: "alloc_error option"

text \<open>The result, and whether the host vector was consumed.\<close>

definition spacewasm_new ::
  "new_answers \<Rightarrow> 'h \<Rightarrow> c_host_module inner_vec option \<Rightarrow> nat \<Rightarrow> nat \<Rightarrow> c_options \<Rightarrow> bool \<Rightarrow> ('h cengine, c_status) result \<times> bool"
where
  "spacewasm_new na h host stack_size max_modules options out_engine =
     (if \<not> out_engine then (Err SPACEWASM_ERR_NULL_ARG, False)
      else if 256 < max_modules then (Err SPACEWASM_ERR_VEC_TOO_LONG, False)
      else
        (bindR (case host of None \<Rightarrow> Ok [] | Some v \<Rightarrow> bindR (iv_deref v) (collect host_module_of)) (\<lambda>hosts.
         bindR (map_errR memory_status (engine_new (na_store na) (na_stack na) stack_size max_modules hosts [] [] h)) (\<lambda>engine.
         bindR (map_errR alloc_status (code_new (na_pages na) (options_of options))) (\<lambda>code.
         case na_box na of
           Some e \<Rightarrow> Err (alloc_status e)
         | None \<Rightarrow> Ok \<lparr>ce_engine = engine, ce_code = code\<rparr>))), True))"

text \<open>The functions that take an engine return \<open>NULL_ARG\<close> for a null pointer.\<close>

definition with_engine :: "('h cengine, 'a, c_status) m \<Rightarrow> ('h cengine option, 'a, c_status) m" where
  "with_engine f = (\<lambda>p. case p of
     None \<Rightarrow> (Err SPACEWASM_ERR_NULL_ARG, None)
   | Some c \<Rightarrow> (case f c of (r, d) \<Rightarrow> (r, Some d)))"

definition onEngine :: "('h engine, 'a, 'e) m \<Rightarrow> ('h cengine, 'a, 'e) m" where
  "onEngine f = (\<lambda>c. case f (ce_engine c) of (r, s) \<Rightarrow> (r, c\<lparr>ce_engine := s\<rparr>))"

definition ce_modules :: "'h cengine \<Rightarrow> wmodule list" where
  "ce_modules c = st_modules (en_store (ce_engine c))"

definition the_wmodule :: "u32 \<Rightarrow> ('h cengine, wmodule, c_status) m" where
  "the_wmodule i = bindM (getM ce_modules) (\<lambda>ms. ok_or (get_opt ms (unat i)) SPACEWASM_ERR_NOT_FOUND)"

end
