(* ===== verification/Capi_Calls.thy ===== *)
theory Capi_Calls
  imports Capi
begin

text \<open>
  The functions of src/crates/spacewasm_c_api/src/capi.rs that take an engine handle, and the memory access
  of host callbacks (host.rs), in the order of the source, on the state of theory Capi. The argument
  \<open>out_x\<close> says that the out-pointer \<open>x\<close> is not null.
\<close>

section \<open>Loading\<close>

definition c_load_params :: "c_allocator \<Rightarrow> host_globals \<Rightarrow> load_params" where
  "c_load_params al globals = \<lparr>lp_frames = MAX_CONTROL_FRAMES, lp_stack = MAX_STACK_DEPTH,
     lp_alloc = c_alloc_response al 0, lp_globals = globals\<rparr>"

text \<open>\<open>stream.errored()\<close>: one of the answers taken from the callback was an error.\<close>

definition stream_errored :: "chunk_result list \<Rightarrow> reader \<Rightarrow> bool" where
  "stream_errored stream r =
     list_ex (\<lambda>c. case c of ReadErr _ \<Rightarrow> True | _ \<Rightarrow> False) (take (length stream - length (rd_stream r)) stream)"

text \<open>
  \<open>Module::new\<close> on the engine's store and code builder, its error turned into a status. The engine refers to its
  current table meanwhile.
\<close>

definition c_module_new :: "load_params \<Rightarrow> chunk_result list \<Rightarrow> alloc_error option list \<Rightarrow> u8 list \<Rightarrow> ('h cengine, wmodule, c_status) m" where
  "c_module_new p stream allocs name = (\<lambda>c.
     let e = ce_engine c; r0 = reader_new stream allocs;
         l0 = \<lparr>ld_module = empty_module [], ld_store = hold_table (en_table e) (en_store e), ld_code = ce_code c\<rparr> in
     case module_new_on (en_table e) p stream allocs name (en_store e) (ce_code c) of (r, st, cd) \<Rightarrow>
       (map_errR (\<lambda>err. if stream_errored stream (fst (snd (module_read p default_custom name (r0, l0))))
          then SPACEWASM_ERR_READER_ERROR else parse_status err) r,
        c\<lparr>ce_engine := e\<lparr>en_store := st\<rparr>, ce_code := cd\<rparr>))"

definition spacewasm_load_module ::
  "c_str \<Rightarrow> read_outcome list option \<Rightarrow> c_allocator option \<Rightarrow> host_globals \<Rightarrow> alloc_error option list \<Rightarrow>
   ('h cengine option, u32, c_status) m"
where
  "spacewasm_load_module name read handle globals allocs =
     (case handle of
        None \<Rightarrow> errM SPACEWASM_ERR_NULL_ARG
      | Some al \<Rightarrow> with_engine
         (bindM (getM (\<lambda>c. is_idle (ce_engine c))) (\<lambda>idle.
          thenM (requireM idle SPACEWASM_ERR_WRONG_STATE)
          (bindM (liftR (cstr name)) (\<lambda>name.
           bindM (ok_or read SPACEWASM_ERR_NULL_ARG) (\<lambda>answers.
           bindM (c_module_new (c_load_params al globals) (map callback_read answers) allocs name) (\<lambda>md.
           bindM (map_err (\<lambda>_. SPACEWASM_ERR_CAPACITY) (onEngine (engine_push_module md))) (\<lambda>module_ref.
           retM (ucast module_ref)))))))))"

section \<open>Lookups\<close>

definition spacewasm_find_module :: "c_str \<Rightarrow> bool \<Rightarrow> ('h cengine option, u32, c_status) m" where
  "spacewasm_find_module name out_index = with_engine
     (thenM (requireM out_index SPACEWASM_ERR_NULL_ARG)
      (bindM (liftR (cstr name)) (\<lambda>name.
       bindM (getM ce_modules) (\<lambda>ms.
       bindM (ok_or (find_in (\<lambda>m. md_name m = name) ms 0) SPACEWASM_ERR_NOT_FOUND) (\<lambda>(i, _).
       retM (word_of_nat i))))))"

text \<open>The loop over the exports: the first of that name and kind.\<close>

primrec func_export :: "export_desc \<Rightarrow> u32 option" where
  "func_export (Exp_Func i) = Some i"
| "func_export (Exp_Table i) = None"
| "func_export (Exp_Mem i) = None"
| "func_export (Exp_Global i) = None"

primrec global_export :: "export_desc \<Rightarrow> u32 option" where
  "global_export (Exp_Func i) = None"
| "global_export (Exp_Table i) = None"
| "global_export (Exp_Mem i) = None"
| "global_export (Exp_Global i) = Some i"

fun find_export :: "(export_desc \<Rightarrow> u32 option) \<Rightarrow> u8 list \<Rightarrow> export_item list \<Rightarrow> u32 option" where
  "find_export kind name [] = None"
| "find_export kind name (e # es) =
     (case (if ex_name e = name then kind (ex_desc e) else None) of
        Some i \<Rightarrow> Some i
      | None \<Rightarrow> find_export kind name es)"

definition own_ref_index :: "sym_ref option \<Rightarrow> ('s, u32, c_status) m" where
  "own_ref_index r = (case r of
     Some (Ref_Module idx) \<Rightarrow> retM (ucast idx)
   | _ \<Rightarrow> errM SPACEWASM_ERR_NOT_FOUND)"

definition spacewasm_find_export_func :: "u32 \<Rightarrow> c_str \<Rightarrow> bool \<Rightarrow> ('h cengine option, u32, c_status) m" where
  "spacewasm_find_export_func module_idx name out_index = with_engine
     (thenM (requireM out_index SPACEWASM_ERR_NULL_ARG)
      (bindM (liftR (cstr name)) (\<lambda>name.
       bindM (the_wmodule module_idx) (\<lambda>md.
       bindM (ok_or (find_export func_export name (md_exports md)) SPACEWASM_ERR_NOT_FOUND) (\<lambda>fi.
       own_ref_index (get_func_ref md fi))))))"

definition spacewasm_module_start :: "u32 \<Rightarrow> bool \<Rightarrow> bool \<Rightarrow> ('h cengine option, u32 \<times> u32, c_status) m" where
  "spacewasm_module_start module_idx out_module_idx out_func_index = with_engine
     (thenM (requireM (out_module_idx \<and> out_func_index) SPACEWASM_ERR_NULL_ARG)
      (bindM (getM ce_modules) (\<lambda>ms.
       thenM (requireM (unat module_idx < length ms) SPACEWASM_ERR_NOT_FOUND)
       (bindM (getM (\<lambda>c. module_start (ce_engine c) (ucast module_idx))) (\<lambda>start.
        bindM (liftR start) (\<lambda>start.
        bindM (ok_or start SPACEWASM_ERR_NOT_FOUND) (\<lambda>f.
        retM (ucast (wr_module f), ucast (wr_index f)))))))))"

definition spacewasm_check_func_signature :: "u32 \<Rightarrow> u32 \<Rightarrow> c_str \<Rightarrow> c_str \<Rightarrow> ('h cengine option, unit, c_status) m" where
  "spacewasm_check_func_signature module_idx func_index params_sig returns_sig = with_engine
     (bindM (liftR (cstr params_sig)) (\<lambda>params_sig.
      bindM (liftR (cstr returns_sig)) (\<lambda>returns_sig.
      bindM (liftR (map_errR host_val_list_status (host_val_list_try_new params_sig))) (\<lambda>params.
      bindM (liftR (map_errR host_val_list_status (host_val_list_try_new returns_sig))) (\<lambda>returns.
      bindM (the_wmodule module_idx) (\<lambda>md.
      bindM (ok_or (get_opt (md_functions md) (unat func_index)) SPACEWASM_ERR_NOT_FOUND) (\<lambda>f.
      bindM (ok_or (get_opt (md_types md) (unat (fn_ty f))) SPACEWASM_ERR_NOT_FOUND) (\<lambda>ty.
      thenM (requireM (hvl_length params = length (ft_params ty) \<and> hvl_length returns = length (ft_returns ty))
        SPACEWASM_ERR_PARAM_LEN_MISMATCH)
      (bindM (liftR (hvl_as_slice params)) (\<lambda>ps. bindM (liftR (hvl_as_slice returns)) (\<lambda>rs.
       requireM (ps = ft_params ty \<and> rs = ft_returns ty) SPACEWASM_ERR_PARAM_TYPE_MISMATCH)))))))))))"

section \<open>Globals\<close>

definition spacewasm_find_global :: "u32 \<Rightarrow> c_str \<Rightarrow> bool \<Rightarrow> ('h cengine option, u32, c_status) m" where
  "spacewasm_find_global module_idx name out_index = with_engine
     (thenM (requireM out_index SPACEWASM_ERR_NULL_ARG)
      (bindM (liftR (cstr name)) (\<lambda>name.
       bindM (the_wmodule module_idx) (\<lambda>md.
       bindM (ok_or (find_export global_export name (md_exports md)) SPACEWASM_ERR_NOT_FOUND) (\<lambda>gi.
       own_ref_index (get_global_ref md gi))))))"

definition spacewasm_get_global :: "u32 \<Rightarrow> u32 \<Rightarrow> bool \<Rightarrow> ('h cengine option, c_value, c_status) m" where
  "spacewasm_get_global module_idx global_index out = with_engine
     (thenM (requireM out SPACEWASM_ERR_NULL_ARG)
      (bindM (the_wmodule module_idx) (\<lambda>md.
       bindM (ok_or (get_opt (md_globals md) (unat global_index)) SPACEWASM_ERR_NOT_FOUND) (\<lambda>g.
       retM (c_value_from (global_value g))))))"

primrec value_parts :: "wasm_value \<Rightarrow> val_type \<times> raw_value" where
  "value_parts (V_I32 i) = (T_I32, raw_from_32 i)"
| "value_parts (V_I64 i) = (T_I64, raw_from_64 i)"
| "value_parts (V_F32 f) = (T_F32, raw_from_32 f)"
| "value_parts (V_F64 f) = (T_F64, raw_from_64 f)"

definition write_global :: "nat \<Rightarrow> nat \<Rightarrow> raw_value \<Rightarrow> 'h cengine \<Rightarrow> 'h cengine" where
  "write_global i j v c = (let e = ce_engine c; st = en_store e; md = st_modules st ! i; g = md_globals md ! j in
     c\<lparr>ce_engine := e\<lparr>en_store := st\<lparr>st_modules := (st_modules st)[i := md\<lparr>md_globals := (md_globals md)[j := g\<lparr>gl_value := v\<rparr>]\<rparr>]\<rparr>\<rparr>\<rparr>)"

definition spacewasm_set_global :: "u32 \<Rightarrow> u32 \<Rightarrow> c_value \<Rightarrow> ('h cengine option, unit, c_status) m" where
  "spacewasm_set_global module_idx global_index v = with_engine
     (bindM (the_wmodule module_idx) (\<lambda>md.
      bindM (ok_or (get_opt (md_globals md) (unat global_index)) SPACEWASM_ERR_NOT_FOUND) (\<lambda>g.
      bindM (ok_or (try_to_value v) SPACEWASM_ERR_BAD_ARG) (\<lambda>value_val.
      case value_parts value_val of (ty, raw) \<Rightarrow>
      thenM (requireM (ty = gt_ty (gl_type g)) SPACEWASM_ERR_GLOBAL_TYPE_MISMATCH)
      (thenM (requireM (gt_mutable (gl_type g)) SPACEWASM_ERR_GLOBAL_NOT_MUTABLE)
      (modifyM (write_global (unat module_idx) (unat global_index) raw)))))))"

section \<open>Running\<close>

text \<open>The arguments, copied into a buffer of 64 values.\<close>

fun read_params :: "c_value list \<Rightarrow> (wasm_value list, c_status) result" where
  "read_params [] = Ok []"
| "read_params (v # vs) = (case try_to_value v of
     None \<Rightarrow> Err SPACEWASM_ERR_BAD_ARG
   | Some val \<Rightarrow> bindR (read_params vs) (\<lambda>rest. Ok (val # rest)))"

text \<open>\<open>params\<close> points to (at least) \<open>n\<close> values, as its contract says.\<close>

definition spacewasm_invoke :: "u32 \<Rightarrow> u32 \<Rightarrow> c_value list option \<Rightarrow> nat \<Rightarrow> ('h cengine option, unit, c_status) m" where
  "spacewasm_invoke module_idx func_index params n = with_engine
     (thenM (requireM (params \<noteq> None \<or> n = 0) SPACEWASM_ERR_NULL_ARG)
      (thenM (requireM (func_index \<le> 0xFFFF) SPACEWASM_ERR_BAD_ARG)
      (bindM (getM (\<lambda>c. is_idle (ce_engine c))) (\<lambda>idle.
       thenM (requireM idle SPACEWASM_ERR_WRONG_STATE)
       (bindM (the_wmodule module_idx) (\<lambda>md.
        thenM (requireM (unat func_index < length (md_functions md)) SPACEWASM_ERR_NOT_FOUND)
        (thenM (requireM (n \<le> 64) SPACEWASM_ERR_CAPACITY)
        (bindM (liftR (read_params (case params of None \<Rightarrow> [] | Some vs \<Rightarrow> take n vs))) (\<lambda>vals.
         map_err invoke_status
           (onEngine (invoke \<lparr>wr_module = ucast module_idx, wr_index = ucast func_index\<rparr> vals)))))))))))"

text \<open>\<open>spacewasm_run\<close> returns a run status of its own, with the trap that goes to \<open>out_trap\<close>.\<close>

definition spacewasm_run :: "'h host_api \<Rightarrow> nat \<Rightarrow> ('h cengine option, c_run_status \<times> c_trap, unit) m" where
  "spacewasm_run api fuel = (\<lambda>p. case p of
     None \<Rightarrow> (Ok (SPACEWASM_RUN_TRAP, SPACEWASM_TRAP_NONE), None)
   | Some c \<Rightarrow>
       if is_idle (ce_engine c) then (Ok (SPACEWASM_RUN_TRAP, SPACEWASM_TRAP_NONE), Some c)
       else case onEngine (run api (cd_pages (ce_code c)) fuel) c of
         (Ok r, d) \<Rightarrow> (Ok (run_status r), Some d)
       | (Err u, d) \<Rightarrow> (Err u, Some d)
       | (Panic, d) \<Rightarrow> (Panic, Some d))"

definition spacewasm_resume :: "('h cengine option, unit, c_status) m" where
  "spacewasm_resume = with_engine (map_err resume_status (onEngine (resume None)))"

definition spacewasm_resume_value :: "c_value \<Rightarrow> ('h cengine option, unit, c_status) m" where
  "spacewasm_resume_value v = with_engine
     (bindM (ok_or (try_to_value v) SPACEWASM_ERR_BAD_ARG) (\<lambda>value.
      map_err resume_status (onEngine (resume (Some value)))))"

definition spacewasm_reset :: "('h cengine option, unit, c_status) m" where
  "spacewasm_reset = with_engine (onEngine (modifyM engine_reset))"

definition spacewasm_get_result :: "u8 \<Rightarrow> bool \<Rightarrow> ('h cengine option, c_value, c_status) m" where
  "spacewasm_get_result expected out = with_engine
     (thenM (requireM out SPACEWASM_ERR_NULL_ARG)
      (bindM (ok_or (tag_to_type expected) SPACEWASM_ERR_BAD_ARG) (\<lambda>ty.
       bindM (getM (\<lambda>c. en_result (ce_engine c))) (\<lambda>r.
       bindM (ok_or r SPACEWASM_ERR_NOT_FOUND) (\<lambda>raw. retM (c_value_from_raw raw ty))))))"

section \<open>Memory access of host callbacks\<close>

text \<open>
  \<open>caller\<close> is the engine the callback was given. A null \<open>src\<close> passes the guard when \<open>len\<close> is 0 and reaches
  \<open>slice::from_raw_parts\<close>, which is undefined behaviour.
\<close>

definition with_caller :: "('h engine, 'a, c_status) m \<Rightarrow> ('h engine option, 'a, c_status) m" where
  "with_caller f = (\<lambda>p. case p of
     None \<Rightarrow> (Err SPACEWASM_ERR_NULL_ARG, None)
   | Some s \<Rightarrow> (case f s of (r, t) \<Rightarrow> (r, Some t)))"

definition caller_memory :: "('h engine, memory, c_status) m" where
  "caller_memory = bindM (getM (\<lambda>s. get_opt (st_memories (en_store s)) (en_memory s))) (\<lambda>c.
     bindM (unwrapM c) (\<lambda>cell. retM (cell_value cell)))"

definition spacewasm_mem_read :: "u32 \<Rightarrow> bool \<Rightarrow> nat \<Rightarrow> ('h engine option, u8 list, c_status) m" where
  "spacewasm_mem_read address dst n = with_caller
     (thenM (requireM (dst \<or> n = 0) SPACEWASM_ERR_NULL_ARG)
      (bindM caller_memory (\<lambda>m. liftR (map_errR memory_status (memory_load m (unat address) n)))))"

definition spacewasm_mem_write :: "u32 \<Rightarrow> u8 list option \<Rightarrow> nat \<Rightarrow> ('h engine option, unit, c_status) m" where
  "spacewasm_mem_write address src n = with_caller
     (thenM (requireM (src \<noteq> None \<or> n = 0) SPACEWASM_ERR_NULL_ARG)
      (bindM (unwrapM src) (\<lambda>bytes.
       bindM caller_memory (\<lambda>m.
       bindM (liftR (map_errR memory_status (memory_store m (unat address) (take n bytes)))) (\<lambda>m'.
       modifyM (\<lambda>s. set_memory (en_memory s) m' s))))))"

definition spacewasm_mem_size :: "bool \<Rightarrow> ('h engine option, u32, c_status) m" where
  "spacewasm_mem_size out_pages = with_caller
     (thenM (requireM out_pages SPACEWASM_ERR_NULL_ARG)
      (bindM caller_memory (\<lambda>m. retM (memory_size m))))"

end
