(* ===== verification/Capi_Safe.thy ===== *)
theory Capi_Safe
  imports Capi_Calls Run_Safe Start_Safe
begin

text \<open>
  The C interface as an embedder sees it: any sequence of calls on an engine handle. \<open>exec_call\<close> is one call,
  \<open>session\<close> a sequence of them.

  Lemmas: the engine behind a handle stays well formed whatever is called with whatever arguments, and no
  call but the two that run or resume guest code can panic; a checked signature is all \<open>spacewasm_invoke\<close>
  asks for; a global is read back as it was set.
\<close>

section \<open>Sequences of calls\<close>

datatype call =
    Load_module c_str "read_outcome list option" "c_allocator option" host_globals "alloc_error option list"
  | Find_module c_str bool
  | Find_export_func u32 c_str bool
  | Module_start u32 bool bool
  | Check_func_signature u32 u32 c_str c_str
  | Find_global u32 c_str bool
  | Get_global u32 u32 bool
  | Set_global u32 u32 c_value
  | Invoke u32 u32 "c_value list option" nat
  | Run nat
  | Resume
  | Resume_value c_value
  | Reset
  | Get_result u8 bool

text \<open>A call of any function: whether it returned, and the engine after it.\<close>

definition returns :: "('s, 'a, 'e) m \<Rightarrow> ('s, unit, unit) m" where
  "returns f = (\<lambda>s. case f s of (Ok _, t) \<Rightarrow> (Ok (), t) | (Err _, t) \<Rightarrow> (Ok (), t) | (Panic, t) \<Rightarrow> (Panic, t))"

primrec exec_call :: "'h host_api \<Rightarrow> call \<Rightarrow> ('h cengine option, unit, unit) m" where
  "exec_call api (Load_module name read handle globals allocs) = returns (spacewasm_load_module name read handle globals allocs)"
| "exec_call api (Find_module name out) = returns (spacewasm_find_module name out)"
| "exec_call api (Find_export_func m name out) = returns (spacewasm_find_export_func m name out)"
| "exec_call api (Module_start m o1 o2) = returns (spacewasm_module_start m o1 o2)"
| "exec_call api (Check_func_signature m f ps rs) = returns (spacewasm_check_func_signature m f ps rs)"
| "exec_call api (Find_global m name out) = returns (spacewasm_find_global m name out)"
| "exec_call api (Get_global m g out) = returns (spacewasm_get_global m g out)"
| "exec_call api (Set_global m g v) = returns (spacewasm_set_global m g v)"
| "exec_call api (Invoke m f ps n) = returns (spacewasm_invoke m f ps n)"
| "exec_call api (Run fuel) = returns (spacewasm_run api fuel)"
| "exec_call api Resume = returns spacewasm_resume"
| "exec_call api (Resume_value v) = returns (spacewasm_resume_value v)"
| "exec_call api Reset = returns spacewasm_reset"
| "exec_call api (Get_result t out) = returns (spacewasm_get_result t out)"

fun session :: "'h host_api \<Rightarrow> call list \<Rightarrow> 'h cengine option \<Rightarrow> 'h cengine option" where
  "session api [] p = p"
| "session api (x # xs) p = session api xs (snd (exec_call api x p))"

section \<open>Well-formed engines\<close>

definition ce_ok :: "'h cengine \<Rightarrow> bool" where
  "ce_ok c \<longleftrightarrow> store_ok (en_store (ce_engine c)) \<and> code_inv (ce_code c) \<and> (\<forall>md\<in>set (ce_modules c). start_ok md)"

definition ok_handle :: "'h cengine option \<Rightarrow> bool" where
  "ok_handle p \<longleftrightarrow> (case p of None \<Rightarrow> True | Some c \<Rightarrow> ce_ok c)"

definition ce_kept :: "'h cengine \<Rightarrow> 'h cengine \<Rightarrow> bool" where
  "ce_kept c d \<longleftrightarrow> (ce_ok c \<longrightarrow> ce_ok d)"

definition handle_kept :: "'h cengine option \<Rightarrow> 'h cengine option \<Rightarrow> bool" where
  "handle_kept p q \<longleftrightarrow> (ok_handle p \<longrightarrow> ok_handle q)"

interpretation ce: kept ce_kept
  by unfold_locales (auto simp: ce_kept_def)

lemma ce_ok_shape:
  assumes "same_shape (ce_engine c) t" "ce_ok c"
  shows "ce_ok (c\<lparr>ce_engine := t\<rparr>)"
proof -
  have sh: "store_shape (en_store (ce_engine c)) = store_shape (en_store t)" using assms(1) by (simp add: same_shape_def)
  have "start_ok md" if md: "md \<in> set (st_modules (en_store t))" for md
  proof -
    obtain k where k: "k < length (st_modules (en_store t))" "md = st_modules (en_store t) ! k"
      using md by (auto simp: in_set_conv_nth)
    then have k': "k < length (st_modules (en_store (ce_engine c)))" using store_shape_lengths [OF sh] by simp
    then have "start_ok (st_modules (en_store (ce_engine c)) ! k)" using assms(2) by (simp add: ce_ok_def ce_modules_def)
    then show ?thesis using module_shape_eq(6) [OF shape_module [OF sh k']] k(2) by (simp add: start_ok_def)
  qed
  then show ?thesis using assms store_ok_shape [OF sh] by (simp add: ce_ok_def ce_modules_def)
qed

lemma keep_onEngine [kp]:
  fixes f :: "('h engine, 'a, 'e) m"
  assumes "keep same_shape f"
  shows "keep ce_kept (onEngine f)"
  unfolding keep_def
proof
  fix c :: "'h cengine"
  have "same_shape (ce_engine c) (snd (f (ce_engine c)))" by (rule keepD [OF assms])
  from ce_ok_shape [OF this] show "ce_kept c (snd (onEngine f c))"
    by (simp add: ce_kept_def onEngine_def split_beta)
qed

lemma keep_require [kp]: "keep ce_kept (requireM b e)"
  by (simp add: requireM_def kp)

lemma keep_wmodule [kp]: "keep ce_kept (the_wmodule i)"
  unfolding the_wmodule_def by (intro kp)

lemma keep_own_index [kp]: "keep ce_kept (own_ref_index r)"
  by (simp add: own_ref_index_def kp split: option.split sym_ref.split)

lemma keep_with_engine:
  assumes "keep ce_kept f"
  shows "keep handle_kept (with_engine f)"
  unfolding keep_def
proof
  fix p
  show "handle_kept p (snd (with_engine f p))"
    using keepD [OF assms] by (cases p)
      (auto simp: with_engine_def handle_kept_def ok_handle_def ce_kept_def split_beta)
qed

lemma keep_returns: "keep R f \<Longrightarrow> keep R (returns f)"
  by (auto simp: keep_def returns_def split: prod.splits result.splits) (metis snd_conv)+

lemma keep_invoke [kp]: "keep same_shape (invoke r vs)"
proof -
  have push: "keep same_shape (push_params vs ts)" for ts
    by (induction vs ts rule: push_params.induct) (auto intro!: kp)
  have expect: "keep same_shape (expectM f)" if "keep same_shape f" for f :: "('a engine, unit, interp_break) m"
    using that by (auto simp: keep_def expectM_def split: prod.splits result.splits) (metis snd_conv)+
  show ?thesis unfolding invoke_def by (intro kp push expect; simp)
qed

lemma keep_resume [kp]: "keep same_shape (resume v)"
  unfolding resume_def by (auto intro!: kp split: option.split val_type.split wasm_value.split)

lemma keep_reset [kp]: "keep same_shape (modifyM engine_reset)"
  by (rule keep_modify) (simp add: engine_reset_def clear_memory_def clear_table_def)

section \<open>Calls that cannot panic\<close>

definition sound :: "('h cengine, 'a, 'e) m \<Rightarrow> bool" where
  "sound f \<longleftrightarrow> (\<forall>c. ce_ok c \<longrightarrow> wpM f (\<lambda>_. ce_ok) (\<lambda>_. ce_ok) c)"

named_theorems so "calls that cannot panic"

lemma wpM_const: "wpM f (\<lambda>_. P) (\<lambda>_. P) s \<longleftrightarrow> fst (f s) \<noteq> Panic \<and> P (snd (f s))"
  by (cases "f s"; cases "fst (f s)") (simp_all add: wpM_def)

lemma sound_iff: "sound f \<longleftrightarrow> (\<forall>c. ce_ok c \<longrightarrow> fst (f c) \<noteq> Panic \<and> ce_ok (snd (f c)))"
  by (simp add: sound_def wpM_const)

lemma soundI: "(\<And>c. ce_ok c \<Longrightarrow> wpM f (\<lambda>_. ce_ok) (\<lambda>_. ce_ok) c) \<Longrightarrow> sound f"
  by (simp add: sound_def)

lemma sound_pure [so]: "sound (retM a)" "sound (errM e)" "sound (getM f)" "sound (ok_or x e)" "sound (requireM b e)"
  by (simp_all add: sound_def requireM_def wp split: option.split)

lemma sound_lift [so]: "r \<noteq> Panic \<Longrightarrow> sound (liftR r)"
  by (cases r) (simp_all add: sound_def wp)

lemma sound_bind [so]: "sound f \<Longrightarrow> (\<And>a. sound (g a)) \<Longrightarrow> sound (bindM f g)"
  by (auto simp: sound_def wpM_bind intro: wpM_mono)

lemma sound_then [so]: "sound f \<Longrightarrow> sound g \<Longrightarrow> sound (thenM f g)"
  unfolding thenM_def by (rule sound_bind)

lemma sound_prod [so]: "(\<And>a b. sound (f a b)) \<Longrightarrow> sound (case x of (a, b) \<Rightarrow> f a b)"
  by (cases x) simp

lemma sound_wmodule [so]: "sound (the_wmodule i)"
  unfolding the_wmodule_def by (intro so)

lemma sound_own_index [so]: "sound (own_ref_index r)"
  by (simp add: own_ref_index_def so split: option.split sym_ref.split)

lemma sound_map_err [so]: "sound f \<Longrightarrow> sound (map_err h f)"
  by (simp add: sound_def wp)

lemma sound_keep: "keep ce_kept f \<Longrightarrow> (\<And>c. ce_ok c \<Longrightarrow> fst (f c) \<noteq> Panic) \<Longrightarrow> sound f"
  by (simp add: sound_iff keep_def ce_kept_def)

lemma cstr_cases: "cstr p \<noteq> Panic" "cstr p = Ok c \<Longrightarrow> utf8_valid c"
  by (auto simp: cstr_def split: option.splits if_splits)

text \<open>The signature strings: no panic for valid text.\<close>

lemma signature_cases:
  assumes "utf8_valid s"
  shows "(\<exists>l ts. host_val_list_try_new s = Ok l \<and> s = map type_byte ts \<and> hvl_ok l ts) \<or> (\<exists>e. host_val_list_try_new s = Err e)"
  using try_new_cases [OF assms] by (auto split: result.splits)

lemma sound_cstr [so]: "(\<And>c. utf8_valid c \<Longrightarrow> sound (g c)) \<Longrightarrow> sound (bindM (liftR (cstr p)) g)"
  using cstr_cases [of p] by (cases "cstr p") (auto simp: sound_def wp)

lemma sound_signature [so]:
  assumes "utf8_valid s" "\<And>l ts. hvl_ok l ts \<Longrightarrow> sound (g l)"
  shows "sound (bindM (liftR (map_errR h (host_val_list_try_new s))) g)"
  using signature_cases [OF assms(1)]
proof (elim disjE exE conjE)
  fix l ts assume "host_val_list_try_new s = Ok l" "hvl_ok l ts"
  then show ?thesis using assms(2) by (auto simp: sound_def wp map_errR_def)
qed (simp add: sound_def wp map_errR_def)

lemma sound_slice [so]: "hvl_ok l ts \<Longrightarrow> (\<And>xs. sound (g xs)) \<Longrightarrow> sound (bindM (liftR (hvl_as_slice l)) g)"
  by (simp add: hvl_slice sound_def wp)

lemma sound_write_global [so]: "sound (modifyM (write_global i j v) :: ('a cengine, unit, 'e) m)"
proof (rule sound_keep)
  show "keep ce_kept (modifyM (write_global i j v :: 'a cengine \<Rightarrow> _))"
  proof (rule keep_modify)
    fix c :: "'a cengine"
    let ?md = "st_modules (en_store (ce_engine c)) ! i"
    have "same_shape (ce_engine c) (ce_engine (write_global i j v c))"
      by (simp add: same_shape_def write_global_def store_shape_def module_shape_def map_update_same Let_def)
    from ce_ok_shape [OF this] show "ce_kept c (write_global i j v c)"
      by (simp add: ce_kept_def write_global_def Let_def)
  qed
qed (simp add: modifyM_def)

lemma read_params_no_panic: "read_params vs \<noteq> Panic"
  by (induction vs) (auto simp: bindR_def split: option.split result.split)

text \<open>\<open>invoke\<close> of a function that exists.\<close>

lemma invoke_no_panic:
  assumes st: "store_ok (en_store s)" and k: "unat k < length (st_modules (en_store s))"
    and i: "unat i < length (md_functions (st_modules (en_store s) ! unat k))"
  shows "fst (invoke \<lparr>wr_module = k, wr_index = i\<rparr> vs s) \<noteq> Panic"
proof (cases "en_pc s = SENTINEL \<and> en_sp s = 0 \<and> en_fp s = 0")
  case True
  define m f where "m = st_modules (en_store s) ! unat k" and "f = md_functions m ! unat i"
  have m: "module_ok (en_store s) m" using store_module_ok [OF st k] by (simp add: m_def)
  have "f \<in> set (md_functions m)" using i by (simp add: m_def f_def)
  then obtain ty where ty: "get_opt (md_types m) (unat (fn_ty f)) = Some ty"
    using m by (auto simp: module_ok_def module_types_ok_def get_opt_def)
  have func: "get_func s (wr_module \<lparr>wr_module = k, wr_index = i\<rparr>) (wr_index \<lparr>wr_module = k, wr_index = i\<rparr>) = Some (m, f)"
    using k i by (simp add: get_func_def get_opt_def m_def f_def)
  obtain a b where "get_memory (en_store s) k = Some a" "get_table (en_store s) k = Some b"
    using store_memory [OF st k] store_table [OF st k] by auto
  then show ?thesis using True by (intro wpM_no_panic [OF invoke_wp [OF _ _ _ func ty]]) simp_all
next
  case False
  then show ?thesis by (auto simp: invoke_def run_defs)
qed

lemma small_index: "unat i < n \<Longrightarrow> n \<le> 256 \<Longrightarrow> unat (ucast (i :: u32) :: u8) = unat i"
  "(i :: u32) \<le> 0xFFFF \<Longrightarrow> unat (ucast i :: u16) = unat i"
  by (simp_all add: unsigned_ucast_eq take_bit_nat_eq_self word_le_nat_alt)

section \<open>Every call\<close>

definition hsound :: "('h cengine option, 'a, 'e) m \<Rightarrow> bool" where
  "hsound f \<longleftrightarrow> (\<forall>p. ok_handle p \<longrightarrow> fst (f p) \<noteq> Panic \<and> ok_handle (snd (f p)))"

lemma hsound_with_engine:
  assumes "sound f"
  shows "hsound (with_engine f)"
  unfolding hsound_def
proof (intro allI impI)
  fix p :: "'a cengine option" assume "ok_handle p"
  then show "fst (with_engine f p) \<noteq> Panic \<and> ok_handle (snd (with_engine f p))"
    using assms unfolding sound_iff by (cases p) (auto simp: with_engine_def ok_handle_def split_beta)
qed

lemma hsound_lookups:
  "hsound (spacewasm_find_module name out)" "hsound (spacewasm_find_export_func m name out)"
  "hsound (spacewasm_check_func_signature m f c_ps c_rs)" "hsound (spacewasm_find_global m name out)"
  "hsound (spacewasm_get_global m g out)" "hsound (spacewasm_set_global m g v)" "hsound (spacewasm_get_result t out)"
  unfolding spacewasm_find_module_def spacewasm_find_export_func_def spacewasm_check_func_signature_def
    spacewasm_find_global_def spacewasm_get_global_def spacewasm_set_global_def spacewasm_get_result_def
  by (rule hsound_with_engine, intro so; assumption)+

lemma ce_ok_small: "ce_ok c \<Longrightarrow> length (ce_modules c) \<le> 256"
  by (simp add: ce_ok_def store_ok_def ce_modules_def)

lemma hsound_module_start: "hsound (spacewasm_module_start m o1 o2)"
  unfolding spacewasm_module_start_def
proof (rule hsound_with_engine, rule soundI)
  fix c :: "'a cengine" assume ok: "ce_ok c"
  show "wpM (thenM (requireM (o1 \<and> o2) SPACEWASM_ERR_NULL_ARG) (bindM (getM ce_modules) (\<lambda>ms.
       thenM (requireM (unat m < length ms) SPACEWASM_ERR_NOT_FOUND)
       (bindM (getM (\<lambda>c. module_start (ce_engine c) (ucast m))) (\<lambda>start. bindM (liftR start) (\<lambda>start.
        bindM (ok_or start SPACEWASM_ERR_NOT_FOUND) (\<lambda>f. retM (ucast (wr_module f), ucast (wr_index f)))))))))
     (\<lambda>_. ce_ok) (\<lambda>_. ce_ok) c"
  proof (cases "unat m < length (ce_modules c)")
    case True
    let ?start = "module_start (ce_engine c) (ucast m) :: (wasm_ref option, c_status) result"
    have "unat (ucast m :: u8) = unat m" using small_index(1) [OF True ce_ok_small [OF ok]] .
    then have start: "?start = (case md_start (ce_modules c ! unat m) of None \<Rightarrow> Ok None
        | Some (Ref_Module index) \<Rightarrow> Ok (Some \<lparr>wr_module = ucast m, wr_index = index\<rparr>)
        | Some (Ref_Extern md' index) \<Rightarrow> Ok (Some \<lparr>wr_module = md', wr_index = index\<rparr>)
        | Some (Ref_Host _ _) \<Rightarrow> Panic)"
      using True by (simp add: module_start_def ce_modules_def get_opt_def)
    have "start_ok (ce_modules c ! unat m)" using ok True by (simp add: ce_ok_def)
    then have "?start \<noteq> Panic"
      unfolding start start_ok_def by (cases "md_start (ce_modules c ! unat m)") (auto split: sym_ref.splits)
    then show ?thesis using ok by (simp add: wp requireM_def split: result.split option.split)
  qed (use ok in \<open>simp add: wp requireM_def\<close>)
qed

lemma hsound_invoke: "hsound (spacewasm_invoke m f ps n)"
  unfolding spacewasm_invoke_def
proof (rule hsound_with_engine, rule soundI)
  fix c :: "'a cengine" assume ok: "ce_ok c"
  have inv: "wpM (map_err invoke_status (onEngine (invoke \<lparr>wr_module = ucast m, wr_index = ucast f\<rparr> vals)))
      (\<lambda>_. ce_ok) (\<lambda>_. ce_ok) c"
    if "get_opt (ce_modules c) (unat m) = Some md" "unat f < length (md_functions md)" "f \<le> 0xFFFF" for md vals
  proof -
    have m: "unat m < length (ce_modules c)" "md = ce_modules c ! unat m"
      using that(1) by (auto simp: get_opt_def split: if_splits)
    have "unat (ucast m :: u8) = unat m" "unat (ucast f :: u16) = unat f"
      using small_index m(1) ce_ok_small [OF ok] that(3) by auto
    then have "fst (invoke \<lparr>wr_module = ucast m, wr_index = ucast f\<rparr> vals (ce_engine c)) \<noteq> Panic"
      using ok m that(2) by (intro invoke_no_panic) (simp_all add: ce_ok_def ce_modules_def)
    then have "fst (map_err invoke_status (onEngine (invoke \<lparr>wr_module = ucast m, wr_index = ucast f\<rparr> vals)) c) \<noteq> Panic"
      by (auto simp: map_err_def onEngine_def split: prod.splits result.splits)
    moreover have "ce_kept c (snd (map_err invoke_status (onEngine (invoke \<lparr>wr_module = ucast m, wr_index = ucast f\<rparr> vals)) c))"
      by (rule keepD) (intro kp)
    ultimately show ?thesis using ok by (simp add: wpM_const ce_kept_def)
  qed
  show "wpM (thenM (requireM (ps \<noteq> None \<or> n = 0) SPACEWASM_ERR_NULL_ARG) (thenM (requireM (f \<le> 0xFFFF) SPACEWASM_ERR_BAD_ARG)
     (bindM (getM (\<lambda>c. is_idle (ce_engine c))) (\<lambda>idle. thenM (requireM idle SPACEWASM_ERR_WRONG_STATE)
       (bindM (the_wmodule m) (\<lambda>md. thenM (requireM (unat f < length (md_functions md)) SPACEWASM_ERR_NOT_FOUND)
        (thenM (requireM (n \<le> 64) SPACEWASM_ERR_CAPACITY)
        (bindM (liftR (read_params (case ps of None \<Rightarrow> [] | Some vs \<Rightarrow> take n vs))) (\<lambda>vals.
         map_err invoke_status (onEngine (invoke \<lparr>wr_module = ucast m, wr_index = ucast f\<rparr> vals))))))))))) (\<lambda>_. ce_ok) (\<lambda>_. ce_ok) c"
    using ok read_params_no_panic
    by (auto simp: requireM_def the_wmodule_def wpM_if wpM_ret wpM_err wpM_bind wpM_then wpM_get wpM_ok_or wpM_lift
        split: option.split result.split intro!: inv)
qed

text \<open>Loading: what \<open>Module::new\<close> accepts is pushed, and the engine is well formed again.\<close>

lemma c_module_new_wp:
  assumes ok: "ce_ok c" and p: "0 < lp_frames p" "lp_stack p < 2 ^ 16"
  shows "wpM (c_module_new p stream allocs name)
    (\<lambda>md d. ce_ok d \<and> module_ok (en_store (ce_engine d)) md \<and> start_ok md) (\<lambda>_. ce_ok) c"
proof -
  let ?new = "module_new_on (en_table (ce_engine c)) p stream allocs name (en_store (ce_engine c)) (ce_code c)"
  have st: "store_ok (en_store (ce_engine c))" "code_inv (ce_code c)" using ok by (simp_all add: ce_ok_def)
  have starts: "\<forall>md\<in>set (st_modules st'). start_ok md" if "same_modules (en_store (ce_engine c)) st'" for st'
    using that ok by (simp add: same_modules_def ce_ok_def ce_modules_def)
  obtain r st' cd' where new: "?new = (r, st', cd')" by (cases ?new) auto
  show ?thesis
  proof (cases r)
    case (Ok md)
    then show ?thesis
      using module_new_on_wp [OF st p, of "en_table (ce_engine c)" stream allocs name] module_new_on_start [of "en_table (ce_engine c)" p stream allocs name _ _ md] new starts [of st']
      by (simp add: wpM_def c_module_new_def map_errR_def ce_ok_def ce_modules_def Let_def)
  next
    case (Err e)
    then show ?thesis
      using module_new_on_wp [OF st p, of "en_table (ce_engine c)" stream allocs name] new starts [of st']
      by (simp add: wpM_def c_module_new_def map_errR_def ce_ok_def ce_modules_def Let_def)
  next
    case Panic
    then show ?thesis using module_new_on_wp [OF st p, of "en_table (ce_engine c)" stream allocs name] new by simp
  qed
qed

lemma push_wp:
  assumes ok: "ce_ok c" and md: "module_ok (en_store (ce_engine c)) md" "start_ok md"
  shows "wpM (map_err h (onEngine (engine_push_module md))) (\<lambda>_. ce_ok) (\<lambda>_. ce_ok) c"
proof -
  let ?st = "en_store (ce_engine c)"
  obtain r st' where push: "store_push_module md ?st = (r, st')" by (cases "store_push_module md ?st")
  have "store_ok ?st" using ok by (simp add: ce_ok_def)
  from store_ok_push [OF this md(1)] push
  have "r \<noteq> Panic \<and> store_ok st' \<and> set (st_modules st') \<subseteq> insert md (set (st_modules ?st))"
    using \<open>store_ok ?st\<close> by (cases r) (auto simp: wpM_def)
  then show ?thesis
    using ok md(2) push
    by (auto simp: wpM_const map_err_def onEngine_def engine_push_module_def ce_ok_def ce_modules_def split: result.splits)
qed

lemma hsound_load: "hsound (spacewasm_load_module name read handle globals allocs)"
proof (cases handle)
  case None
  then show ?thesis by (simp add: spacewasm_load_module_def hsound_def errM_def)
next
  case (Some al)
  have load: "sound (bindM (c_module_new (c_load_params al globals) stream allocs nm) (\<lambda>md.
      bindM (map_err h (onEngine (engine_push_module md))) (\<lambda>i. retM (ucast i))))" for stream nm h
  proof (rule soundI)
    fix c assume ok: "ce_ok c"
    have p: "0 < lp_frames (c_load_params al globals)" "lp_stack (c_load_params al globals) < 2 ^ 16"
      by (simp_all add: c_load_params_def MAX_CONTROL_FRAMES_def MAX_STACK_DEPTH_def)
    show "wpM (bindM (c_module_new (c_load_params al globals) stream allocs nm) (\<lambda>md.
        bindM (map_err h (onEngine (engine_push_module md))) (\<lambda>i. retM (ucast i)))) (\<lambda>_. ce_ok) (\<lambda>_. ce_ok) c"
      unfolding wpM_bind wpM_ret
      by (rule wpM_mono [OF c_module_new_wp [OF ok p]]) (auto intro: push_wp)
  qed
  show ?thesis
    unfolding spacewasm_load_module_def Some option.case
    by (rule hsound_with_engine) (intro so load)
qed

lemma hsound_reset: "hsound spacewasm_reset"
  unfolding spacewasm_reset_def
proof (rule hsound_with_engine, rule sound_keep)
  show "keep ce_kept (onEngine (modifyM engine_reset))" by (intro kp)
qed (simp add: onEngine_def modifyM_def)

lemma hsound_resume: "hsound spacewasm_resume"
  unfolding spacewasm_resume_def
proof (rule hsound_with_engine, rule sound_map_err, rule sound_keep)
  show "keep ce_kept (onEngine (resume None))" by (intro kp)
  show "fst (onEngine (resume None) c) \<noteq> Panic" for c
    by (auto simp: onEngine_def resume_def run_defs split: option.split prod.split val_type.split)
qed

text \<open>The two that may panic keep the engine well formed.\<close>

lemma kept_resume_value: "keep handle_kept (spacewasm_resume_value v)"
  unfolding spacewasm_resume_value_def by (rule keep_with_engine) (intro kp)

lemma kept_run:
  assumes "host_keeps api"
  shows "keep handle_kept (spacewasm_run api fuel)"
  unfolding keep_def
proof
  fix p
  have "ce_kept c (snd (onEngine (run api pages fuel) c))" for c pages
    by (rule keepD) (intro kp keep_run assms)
  then show "handle_kept p (snd (spacewasm_run api fuel p))"
    by (cases p) (auto simp: spacewasm_run_def handle_kept_def ok_handle_def ce_kept_def split_beta split: result.split)
qed

primrec may_panic :: "call \<Rightarrow> bool" where
  "may_panic (Load_module name read handle globals allocs) = False"
| "may_panic (Find_module name out) = False"
| "may_panic (Find_export_func m name out) = False"
| "may_panic (Module_start m o1 o2) = False"
| "may_panic (Check_func_signature m f ps rs) = False"
| "may_panic (Find_global m name out) = False"
| "may_panic (Get_global m g out) = False"
| "may_panic (Set_global m g v) = False"
| "may_panic (Invoke m f ps n) = False"
| "may_panic (Run fuel) = True"
| "may_panic Resume = False"
| "may_panic (Resume_value v) = True"
| "may_panic Reset = False"
| "may_panic (Get_result t out) = False"

lemma hsound_returns: "hsound f \<Longrightarrow> hsound (returns f)"
  by (auto simp: hsound_def returns_def split_beta split: result.split)

lemma exec_call_safe:
  assumes "host_keeps api" "ok_handle p"
  shows "ok_handle (snd (exec_call api x p)) \<and> (\<not> may_panic x \<longrightarrow> fst (exec_call api x p) \<noteq> Panic)"
proof (cases "may_panic x")
  case False
  have "hsound (exec_call api x)" using False
    by (cases x) (simp_all add: hsound_returns hsound_lookups hsound_module_start hsound_invoke hsound_load
        hsound_reset hsound_resume)
  then show ?thesis using assms(2) by (simp add: hsound_def)
next
  case True
  have "keep handle_kept (exec_call api x)" using True
    by (cases x) (simp_all add: keep_returns kept_resume_value kept_run [OF assms(1)])
  then show ?thesis using assms(2) True by (simp add: keep_def handle_kept_def)
qed

lemma session_ok: "host_keeps api \<Longrightarrow> ok_handle p \<Longrightarrow> ok_handle (session api xs p)"
  by (induction xs arbitrary: p) (simp_all add: exec_call_safe)

section \<open>Host callbacks\<close>

text \<open>
  A host callback written in C is given the caller handle and the three functions that use it, so it is a
  program over \<open>spacewasm_mem_read\<close>, \<open>spacewasm_mem_write\<close>, \<open>spacewasm_mem_size\<close> and the embedder's own
  state: it may branch on every answer it gets. \<open>userdata\<close> is part of the embedder's state.
\<close>

datatype 'h c_script =
    C_return c_call_result c_value
  | C_mem_read u32 bool nat "(u8 list, c_status) result \<Rightarrow> 'h c_script"
  | C_mem_write u32 "u8 list option" nat "(unit, c_status) result \<Rightarrow> 'h c_script"
  | C_mem_size bool "(u32, c_status) result \<Rightarrow> 'h c_script"
  | C_user "'h \<Rightarrow> 'h" "'h \<Rightarrow> 'h c_script"

text \<open>A call with the caller handle: its status and what it wrote are the answer; a panic ends the callback.\<close>

definition as_caller :: "('h engine option, 'a, c_status) m \<Rightarrow> ('h engine, ('a, c_status) result, unit) m" where
  "as_caller f = (\<lambda>s. let (r, p) = f (Some s); t = (case p of None \<Rightarrow> s | Some t \<Rightarrow> t) in
     case r of Panic \<Rightarrow> (Panic, t) | _ \<Rightarrow> (Ok r, t))"

primrec run_script :: "'h c_script \<Rightarrow> ('h engine, c_call_result \<times> c_value, unit) m" where
  "run_script (C_return outcome v) = retM (outcome, v)"
| "run_script (C_mem_read address dst n k) = bindM (as_caller (spacewasm_mem_read address dst n)) (\<lambda>r. run_script (k r))"
| "run_script (C_mem_write address src n k) = bindM (as_caller (spacewasm_mem_write address src n)) (\<lambda>r. run_script (k r))"
| "run_script (C_mem_size out k) = bindM (as_caller (spacewasm_mem_size out)) (\<lambda>r. run_script (k r))"
| "run_script (C_user f k) = thenM (modifyM (\<lambda>s. s\<lparr>en_host := f (en_host s)\<rparr>)) (bindM (getM en_host) (\<lambda>h. run_script (k h)))"

text \<open>The host of an engine made through the C interface: every host function is such a callback.\<close>

definition c_api :: "(u8 \<Rightarrow> u16 \<Rightarrow> c_value list \<Rightarrow> 'h c_script) \<Rightarrow> 'h host_api \<Rightarrow> 'h host_api" where
  "c_api callbacks api = api\<lparr>ha_call := (\<lambda>md x args. c_host_call (\<lambda>vs. run_script (callbacks md x vs)) args)\<rparr>"

lemma keep_caller_memory [kp]: "keep same_shape caller_memory"
  unfolding caller_memory_def by (intro kp)

lemma keep_require_engine [kp]: "keep same_shape (requireM b e)"
  by (simp add: requireM_def kp)

lemma keep_as_caller [kp]:
  assumes "keep same_shape f"
  shows "keep same_shape (as_caller (with_caller f))"
  using assms unfolding keep_def
  by (auto simp: as_caller_def with_caller_def Let_def split_beta split: result.split)

lemma keep_mem_calls [kp]:
  "keep same_shape (as_caller (spacewasm_mem_read address dst n))"
  "keep same_shape (as_caller (spacewasm_mem_write address src n))"
  "keep same_shape (as_caller (spacewasm_mem_size out))"
  unfolding spacewasm_mem_read_def spacewasm_mem_write_def spacewasm_mem_size_def by (intro kp)+

lemma keep_run_script [kp]: "keep same_shape (run_script k)"
proof (induction k)
  case (C_user f k)
  show ?case unfolding run_script.simps by (intro kp C_user; simp)
qed (simp_all add: kp)

lemma c_api_keeps: "host_keeps (c_api callbacks api)"
proof -
  have outcome: "keep same_shape (case r of CONTINUE_NONE \<Rightarrow> a | CONTINUE_SOME \<Rightarrow> b | CALL_TRAP \<Rightarrow> c | CALL_PAUSE \<Rightarrow> d)"
    if "keep same_shape a" "keep same_shape b" "keep same_shape c" "keep same_shape d"
    for r and a b c d :: "('a engine, host_outcome, unit) m"
    using that by (cases r) simp_all
  have "keep same_shape (c_host_call (\<lambda>vs. run_script (callbacks md x vs)) args)" for md x args
    unfolding c_host_call_def by (intro kp outcome)
  then show ?thesis by (simp add: host_keeps_def c_api_def keep_def)
qed

section \<open>A session\<close>

text \<open>A host vector whose indices fit the bytes that name them.\<close>

definition hosts_small :: "c_host_module inner_vec option \<Rightarrow> bool" where
  "hosts_small host \<longleftrightarrow> (case host of None \<Rightarrow> True | Some v \<Rightarrow> iv_len v \<le> 256 \<and>
     list_all (\<lambda>b. case b of None \<Rightarrow> True | Some m \<Rightarrow> iv_len (chm_functions m) \<le> 2 ^ 16 \<and> iv_len (chm_globals m) \<le> 2 ^ 16) (iv_buf v))"

lemma deref_length: "iv_deref v = Ok xs \<Longrightarrow> length xs \<le> iv_len v \<and> (\<forall>x\<in>set xs. Some x \<in> set (iv_buf v))"
  by (auto simp: iv_deref_def list_all_iff split: if_splits) (metis in_set_takeD option.sel)

lemma collect_Ok: "collect f xs = Ok ys \<Longrightarrow> length ys = length xs \<and> (\<forall>y\<in>set ys. \<exists>x\<in>set xs. f x = Ok y)"
proof (induction xs arbitrary: ys)
  case (Cons x xs)
  then obtain z zs where "f x = Ok z" "collect f xs = Ok zs" "ys = z # zs" by (auto simp: bindR_Ok_iff)
  with Cons.IH [of zs] show ?case by auto
qed simp

lemma host_module_of_Ok:
  assumes "host_module_of m = Ok hm"
  shows "length (hmod_functions hm) \<le> iv_len (chm_functions m)" "length (hmod_globals hm) \<le> iv_len (chm_globals m)"
    "hmod_memory hm = []" "hmod_table hm = []"
  using assms by (auto simp: host_module_of_def bindR_Ok_iff dest!: deref_length collect_Ok)

lemma map_errR_Ok: "map_errR f r = Ok a \<longleftrightarrow> r = Ok a"
  by (cases r) (simp_all add: map_errR_def)

lemma spacewasm_new_ok:
  assumes "spacewasm_new na h host stack_size max_modules options out = (Ok c, b)" and small: "hosts_small host"
  shows "ce_ok c" "ce_modules c = []" "is_idle (ce_engine c)"
proof -
  let ?hs = "(case host of None \<Rightarrow> Ok [] | Some v \<Rightarrow> bindR (iv_deref v) (collect host_module_of)) :: (_, c_status) result"
  have "bindR ?hs (\<lambda>hosts.
      bindR (map_errR memory_status (engine_new (na_store na) (na_stack na) stack_size max_modules hosts [] [] h)) (\<lambda>engine.
      bindR (map_errR alloc_status (code_new (na_pages na) (options_of options))) (\<lambda>code.
      case na_box na of Some e \<Rightarrow> Err (alloc_status e) | None \<Rightarrow> Ok \<lparr>ce_engine = engine, ce_code = code\<rparr>))) = Ok c"
    using assms(1) by (simp add: spacewasm_new_def split: if_splits)
  then obtain hosts e where hosts: "?hs = Ok hosts"
    and e: "engine_new (na_store na) (na_stack na) stack_size max_modules hosts [] [] h = Ok e"
    and code: "code_new (na_pages na) (options_of options) = Ok (ce_code c)" "ce_engine c = e"
    unfolding bindR_Ok_iff map_errR_Ok by (cases "na_box na") auto
  obtain st stk where st: "from_host_modules (na_store na) max_modules hosts [] [] = Ok st"
    and e': "e = \<lparr>en_pc = SENTINEL, en_jumped = False, en_fp = 0, en_sp = 0, en_stack = stk, en_memory = 0,
      en_table = 0, en_module = 0, en_store = st, en_pause = None, en_result = None, en_host = h\<rparr>"
    using e by (auto simp: engine_new_def bindR_Ok_iff map_errR_Ok)
  have "length hosts \<le> 256 \<and> (\<forall>hm\<in>set hosts. length (hmod_functions hm) \<le> 2 ^ 16 \<and> length (hmod_globals hm) \<le> 2 ^ 16 \<and>
      hmod_memory hm = [] \<and> hmod_table hm = [])"
  proof (cases host)
    case (Some v)
    then obtain xs where xs: "iv_deref v = (Ok xs :: (_, c_status) result)" "collect host_module_of xs = (Ok hosts :: (_, c_status) result)"
      using hosts by (auto simp: bindR_Ok_iff)
    have bound: "iv_len (chm_functions m) \<le> 2 ^ 16 \<and> iv_len (chm_globals m) \<le> 2 ^ 16" if "m \<in> set xs" for m
    proof -
      have "Some m \<in> set (iv_buf v)" using deref_length [OF xs(1)] that by blast
      with small show ?thesis unfolding Some hosts_small_def list_all_iff option.case by fastforce
    qed
    have "length hosts \<le> 256" using deref_length [OF xs(1)] collect_Ok [OF xs(2)] small Some by (simp add: hosts_small_def)
    moreover have "length (hmod_functions hm) \<le> 2 ^ 16 \<and> length (hmod_globals hm) \<le> 2 ^ 16 \<and> hmod_memory hm = [] \<and> hmod_table hm = []"
      if "hm \<in> set hosts" for hm
    proof -
      have "\<exists>m\<in>set xs. host_module_of m = (Ok hm :: (_, c_status) result)"
        using conjunct2 [OF collect_Ok [OF xs(2)]] that by (rule bspec)
      then obtain m where "m \<in> set xs" "host_module_of m = (Ok hm :: (_, c_status) result)" by (rule bexE)
      note hm = host_module_of_Ok [OF this(2)] bound [OF this(1)]
      show ?thesis using hm(1-4) hm(5) by (meson le_trans)
    qed
    ultimately show ?thesis by blast
  qed (use hosts in simp)
  then have "store_ok st" by (intro store_ok_new [OF _ _ st]) auto
  moreover have "st_modules st = []" using from_host_modules_Ok [OF st] by simp
  ultimately show "ce_ok c" "ce_modules c = []" "is_idle (ce_engine c)"
    using code_inv_new [OF code(1)] unfolding ce_ok_def ce_modules_def is_idle_def code(2) e' by simp_all
qed

lemma session_safe:
  assumes "host_keeps api"
    and "spacewasm_new na h host stack_size max_modules options out = (Ok c, b)" and "hosts_small host"
  shows "ok_handle (session api xs (Some c)) \<and>
    (\<not> may_panic x \<longrightarrow> fst (exec_call api x (session api xs (Some c))) \<noteq> Panic)"
proof -
  have "ok_handle (Some c)" using spacewasm_new_ok(1) [OF assms(2,3)] by (simp add: ok_handle_def)
  then have "ok_handle (session api xs (Some c))" by (rule session_ok [OF assms(1)])
  then show ?thesis using exec_call_safe [OF assms(1)] by blast
qed

text \<open>
  Claim C2. An embedder cannot break the engine through the C interface: after \<open>spacewasm_new\<close>, in any
  sequence of calls with any arguments (any module bytes, names, indices, values, fuel, null pointers), every
  call but \<open>spacewasm_run\<close> and \<open>spacewasm_resume_value\<close> returns and never panics, and the engine is well
  formed throughout, whatever guest code ran in between and whatever the C callbacks it called did with their
  caller handle; provided the host vector is not too long for its indices.
\<close>

theorem capi_session_safe:
  assumes "spacewasm_new na h host stack_size max_modules options out = (Ok c, b)" and "hosts_small host"
  shows "let api = c_api callbacks rest in ok_handle (session api xs (Some c)) \<and>
    (\<not> may_panic x \<longrightarrow> fst (exec_call api x (session api xs (Some c))) \<noteq> Panic)"
  unfolding Let_def by (rule session_safe [OF c_api_keeps assms])

definition demo_answers :: new_answers where
  "demo_answers = \<lparr>na_store = [], na_stack = (\<lambda>_. Ok (\<lambda>_. 0)), na_pages = [], na_box = None\<rparr>"

definition demo_options :: c_options where
  "demo_options = \<lparr>co_memory_grow = True, co_iterations = 0, co_pages = 4\<rparr>"

definition demo_handle :: "(unit cengine, c_status) result \<times> bool" where
  "demo_handle = spacewasm_new demo_answers () None 4 2 demo_options True"

text \<open>A callback that copies the word at address 4 to address 0 and yields, or traps.\<close>

definition demo_callback :: "u8 \<Rightarrow> u16 \<Rightarrow> c_value list \<Rightarrow> unit c_script" where
  "demo_callback md x vs = (let zero = c_value_from (V_I32 0) in
     C_mem_read 4 True 4 (\<lambda>r. case r of
       Ok bytes \<Rightarrow> C_mem_write 0 (Some bytes) 4 (\<lambda>_. C_return CALL_PAUSE zero)
     | _ \<Rightarrow> C_return CALL_TRAP zero))"

lemma demo_handle_new: "\<exists>c. demo_handle = (Ok c, True)"
  by (simp add: demo_handle_def spacewasm_new_def demo_answers_def demo_options_def options_of_def engine_new_def
      from_host_modules_def stack_new_def layout_ok_def ISIZE_MAX_def USIZE_MAX_def code_new_def MAX_ADDRESSABLE_CODE_PAGES_def
      map_errR_def)

definition demo_session :: "u8 list \<Rightarrow> call list" where
  "demo_session bytes =
     [Load_module (Some [109]) (Some [READ_OK (Some bytes), READ_EOF]) (Some \<lparr>ca_alloc = (\<lambda>_ _. 4096), ca_realloc = (\<lambda>_ _ _ _. 0)\<rparr>) (\<lambda>_ _. None) [],
      Invoke 0 0 None 0, Run 100, Resume, Run 100, Reset]"

lemma capi_session_safe_witness:
  "\<forall>l bytes. \<exists>c. demo_handle = (Ok c, True) \<and> (let api = c_api demo_callback (writing_host l) in
     fst (exec_call api (Module_start 0 True True) (session api (demo_session bytes) (Some c))) \<noteq> Panic)"
proof (intro allI)
  fix l bytes
  obtain c where c: "demo_handle = (Ok c, True)" using demo_handle_new by blast
  have "hosts_small None" by (simp add: hosts_small_def)
  from capi_session_safe [OF c [unfolded demo_handle_def] this, of demo_callback "writing_host l" "demo_session bytes" "Module_start 0 True True"]
  have "let api = c_api demo_callback (writing_host l) in
     fst (exec_call api (Module_start 0 True True) (session api (demo_session bytes) (Some c))) \<noteq> Panic"
    by (simp add: Let_def)
  with c show "\<exists>c. demo_handle = (Ok c, True) \<and> (let api = c_api demo_callback (writing_host l) in
     fst (exec_call api (Module_start 0 True True) (session api (demo_session bytes) (Some c))) \<noteq> Panic)"
    by blast
qed

end
