(* ===== verification/Capi_Contract.thy ===== *)
theory Capi_Contract
  imports Capi_Safe
begin

text \<open>
  What calls of the C interface promise about each other: a checked signature is all \<open>spacewasm_invoke\<close> asks
  for; a global is read back as it was set, and setting it changes no other; a host callback reads back the
  bytes it wrote.
\<close>

section \<open>Globals\<close>

lemma get_global_eq: "spacewasm_get_global m g True (Some c) =
    ((case get_opt (ce_modules c) (unat m) of None \<Rightarrow> Err SPACEWASM_ERR_NOT_FOUND
      | Some md \<Rightarrow> (case get_opt (md_globals md) (unat g) of None \<Rightarrow> Err SPACEWASM_ERR_NOT_FOUND
         | Some gl \<Rightarrow> Ok (c_value_from (global_value gl)))), Some c)"
  by (simp add: spacewasm_get_global_def with_engine_def requireM_def the_wmodule_def run_defs split: option.split)

lemma set_global_Ok:
  assumes "spacewasm_set_global m g v (Some c) = (Ok u, p)"
  obtains md gl val where "get_opt (ce_modules c) (unat m) = Some md" "get_opt (md_globals md) (unat g) = Some gl"
    "try_to_value v = Some val" "fst (value_parts val) = gt_ty (gl_type gl)" "gt_mutable (gl_type gl)"
    "p = Some (write_global (unat m) (unat g) (snd (value_parts val)) c)"
  using assms by (auto simp: spacewasm_set_global_def with_engine_def requireM_def the_wmodule_def run_defs
      split: option.splits prod.splits if_splits)

lemma narrow_wide: "ucast (ucast (x :: u32) :: u64) = x"
  by (rule bit_word_eqI) (simp add: bit_simps)

lemma value_back: "raw_to_value (snd (value_parts val)) (fst (value_parts val)) = val"
  by (cases val) (simp_all add: raw_to_value_def raw_from_32_def raw_from_64_def narrow_wide)

lemma c_value_back: "try_to_value (c_value_from val) = Some val"
  by (cases val) (simp_all add: try_to_value_def tag_to_type_def narrow_wide)

lemma c_value_tag: "try_to_value v = Some val \<Longrightarrow> cv_tag (c_value_from val) = cv_tag v"
  by (auto simp: try_to_value_def tag_to_type_def split: if_splits)

text \<open>
  Claim C28. A global is read back as it was set: after an accepted \<open>spacewasm_set_global\<close>, \<open>spacewasm_get_global\<close>
  returns the value that was set, with its tag, and every other global of every module reads as before.
\<close>

theorem global_read_back:
  assumes "spacewasm_set_global m g v (Some c) = (Ok u, Some d)"
  shows "\<exists>w. spacewasm_get_global m g True (Some d) = (Ok w, Some d) \<and> cv_tag w = cv_tag v \<and>
      try_to_value w = try_to_value v \<and>
      (\<forall>m' g'. (m', g') \<noteq> (m, g) \<longrightarrow>
        fst (spacewasm_get_global m' g' True (Some d)) = fst (spacewasm_get_global m' g' True (Some c)))"
proof -
  from assms obtain md gl val where
    md: "get_opt (ce_modules c) (unat m) = Some md" and gl: "get_opt (md_globals md) (unat g) = Some gl"
    and val: "try_to_value v = Some val" "fst (value_parts val) = gt_ty (gl_type gl)"
    and d: "d = write_global (unat m) (unat g) (snd (value_parts val)) c"
    by (auto elim!: set_global_Ok)
  define gl' where "gl' = gl\<lparr>gl_value := snd (value_parts val)\<rparr>"
  have i: "unat m < length (ce_modules c)" "md = ce_modules c ! unat m"
    and j: "unat g < length (md_globals md)" "gl = md_globals md ! unat g"
    using md gl by (auto simp: get_opt_def split: if_splits)
  have mods: "ce_modules d = (ce_modules c)[unat m := md\<lparr>md_globals := (md_globals md)[unat g := gl']\<rparr>]"
    using i j by (simp add: d write_global_def ce_modules_def gl'_def Let_def)
  have "global_value gl' = val" using value_back [of val] val(2) by (simp add: gl'_def global_value_def)
  then have read: "spacewasm_get_global m g True (Some d) = (Ok (c_value_from val), Some d)"
    using i j unfolding get_global_eq mods by (simp add: get_opt_def)
  have other: "fst (spacewasm_get_global m' g' True (Some d)) = fst (spacewasm_get_global m' g' True (Some c))"
    if "(m', g') \<noteq> (m, g)" for m' g'
  proof (cases "m' = m")
    case True
    then have "unat g' \<noteq> unat g" using that by (simp add: word_unat_eq_iff)
    then show ?thesis using i j True unfolding get_global_eq mods by (simp add: get_opt_def)
  next
    case False
    then have "unat m' \<noteq> unat m" by (simp add: word_unat_eq_iff)
    then show ?thesis unfolding get_global_eq mods by (simp add: get_opt_def)
  qed
  show ?thesis using read other c_value_back [of val] c_value_tag [OF val(1)] val(1) by auto
qed

section \<open>Invoking\<close>

lemma check_signature_Ok:
  assumes "spacewasm_check_func_signature m f (Some ps) rs (Some c) = (Ok u, p)"
  obtains md fn ty l where "get_opt (ce_modules c) (unat m) = Some md" "get_opt (md_functions md) (unat f) = Some fn"
    "get_opt (md_types md) (unat (fn_ty fn)) = Some ty" "utf8_valid ps" "host_val_list_try_new ps = Ok l"
    "hvl_as_slice l = (Ok (ft_params ty) :: (_, c_status) result)"
  using assms by (auto simp: spacewasm_check_func_signature_def with_engine_def requireM_def the_wmodule_def run_defs
      cstr_def map_errR_Ok map_errR_def split: option.splits prod.splits if_splits result.splits)

lemma type_byte_inj: "map type_byte ts = map type_byte ts' \<Longrightarrow> ts = ts'"
proof (rule map_injective)
  show "inj type_byte"
  proof (rule injI)
    fix a b assume "type_byte a = type_byte b"
    then show "a = b" by (cases a; cases b) simp_all
  qed
qed

lemma read_params_typed:
  "map cv_tag vs = map type_to_tag ts \<Longrightarrow> \<exists>vals. read_params vs = Ok vals \<and> map value_type vals = ts"
proof (induction vs arbitrary: ts)
  case (Cons v vs)
  then obtain t ts' where ts: "ts = t # ts'" "cv_tag v = type_to_tag t" "map cv_tag vs = map type_to_tag ts'"
    by (cases ts) auto
  obtain val where "try_to_value v = Some val" "value_type val = t"
    using ts(2) by (cases t) (auto simp: try_to_value_def tag_to_type_def value_type_def)
  with Cons.IH [OF ts(3)] ts(1) show ?case by auto
qed simp

text \<open>
  Claim C8. A checked signature is all an embedder has to know: if \<open>spacewasm_check_func_signature\<close> accepted
  parameter types for a function of an idle engine, then \<open>spacewasm_invoke\<close> with arguments of these types
  enters the function, or says that the stack is too small for it and leaves the engine idle; no
  other status and no panic is possible, whatever the values.
\<close>

theorem checked_invoke:
  assumes ok: "ce_ok c" and idle: "en_pc (ce_engine c) = SENTINEL" "en_sp (ce_engine c) = 0" "en_fp (ce_engine c) = 0"
    and check: "spacewasm_check_func_signature m f (Some (map type_byte ts)) rs (Some c) = (Ok u, p)"
    and args: "map cv_tag vs = map type_to_tag ts"
  shows "\<exists>d. ce_ok d \<and>
    (spacewasm_invoke m f (Some vs) (length vs) (Some c) = (Ok (), Some d) \<and> en_module (ce_engine d) = ucast m \<and>
       en_pc (ce_engine d) = fn_expr (md_functions (ce_modules c ! unat m) ! unat f) \<or>
     spacewasm_invoke m f (Some vs) (length vs) (Some c) = (Err SPACEWASM_ERR_STACK_OVERFLOW, Some d) \<and> is_idle (ce_engine d))"
proof -
  let ?e = "ce_engine c"
  obtain md fn ty l where md: "get_opt (ce_modules c) (unat m) = Some md" and fn: "get_opt (md_functions md) (unat f) = Some fn"
    and ty: "get_opt (md_types md) (unat (fn_ty fn)) = Some ty" and l: "utf8_valid (map type_byte ts)"
    "host_val_list_try_new (map type_byte ts) = Ok l" "hvl_as_slice l = (Ok (ft_params ty) :: (_, c_status) result)"
    using check by (rule check_signature_Ok)
  obtain ts' where "map type_byte ts = map type_byte ts'" and hvl: "hvl_ok l ts'" using signature_cases [OF l(1)] l(2) by auto
  then have "ts' = ts" using type_byte_inj by metis
  then have params: "ft_params ty = ts" and few: "length ts \<le> 9"
    using hvl_slice(1) [OF hvl, where ?'a = c_status] l(3) hvl by (simp_all add: hvl_ok_def)
  have m: "unat m < length (ce_modules c)" "md = ce_modules c ! unat m"
    and f: "unat f < length (md_functions md)" "fn = md_functions md ! unat f"
    using md fn by (auto simp: get_opt_def split: if_splits)
  have st: "store_ok (en_store ?e)" using ok by (simp add: ce_ok_def)
  have um: "unat (ucast m :: u8) = unat m" using small_index(1) [OF m(1) ce_ok_small [OF ok]] .
  have "length (md_functions md) < 2 ^ 16"
    using store_module_ok [OF st, of "unat m"] m by (simp add: module_ok_def module_types_ok_def ce_modules_def)
  then have f16: "f \<le> 0xFFFF" using f(1) by (simp add: word_le_nat_alt)
  have uf: "unat (ucast f :: u16) = unat f" using small_index(2) [OF f16] .
  obtain vals where vals: "read_params vs = Ok vals" "map value_type vals = ts" using read_params_typed [OF args] by blast
  let ?r = "\<lparr>wr_module = ucast m, wr_index = ucast f\<rparr> :: wasm_ref"
  have func: "get_func ?e (wr_module ?r) (wr_index ?r) = Some (md, fn)"
    using m f um uf by (simp add: get_func_def get_opt_def ce_modules_def)
  obtain a b where ctx: "get_memory (en_store ?e) (wr_module ?r) = Some a" "get_table (en_store ?e) (wr_module ?r) = Some b"
    using store_memory [OF st, of "ucast m"] store_table [OF st, of "ucast m"] m um by (auto simp: ce_modules_def)
  obtain res t where inv: "invoke ?r vals ?e = (res, t)" by (cases "invoke ?r vals ?e")
  have "length (map value_type vals) = length ts" "length (map cv_tag vs) = length (map type_to_tag ts)"
    unfolding vals(2) args by (rule refl)+
  then have len: "length vals = length (ft_params ty)" "length vs = length ts" using params by simp_all
  have outcome: "res = Ok () \<and> en_module t = ucast m \<and> en_pc t = fn_expr fn \<or> res = Err IE_StackOverflow \<and> is_idle t"
  proof (cases res)
    case (Ok x)
    then show ?thesis using invoke_wp [OF idle func ty ctx, of vals] inv by (simp add: wpM_def)
  next
    case (Err e)
    then have "restacked 0 ?e t" "e = IE_StackOverflow"
      using invoke_wp [OF idle func ty ctx, of vals] inv vals(2) params len(1) by (cases e; simp add: wpM_def)+
    then show ?thesis using Err idle(1) by (auto simp: restacked_def is_idle_def)
  next
    case Panic
    then show ?thesis using invoke_wp [OF idle func ty ctx, of vals] inv by (simp add: wpM_def)
  qed
  have run: "spacewasm_invoke m f (Some vs) (length vs) (Some c) = (map_errR invoke_status res, Some (c\<lparr>ce_engine := t\<rparr>))"
    using md f(1) f16 few len(2) vals(1) inv idle
    by (cases res) (simp_all add: spacewasm_invoke_def with_engine_def requireM_def the_wmodule_def run_defs map_err_def
        onEngine_def is_idle_def map_errR_def)
  have "ce_ok (c\<lparr>ce_engine := t\<rparr>)"
    using ce_ok_shape [OF _ ok, of t] keepD [OF keep_invoke, of ?e ?r vals] inv by simp
  then show ?thesis using outcome run f(2) m(2) by (intro exI [of _ "c\<lparr>ce_engine := t\<rparr>"]) (auto simp: map_errR_def)
qed

section \<open>Memory of a host callback\<close>

lemma mem_write_Ok:
  assumes "spacewasm_mem_write a src n (Some s) = (Ok u, p)"
  obtains bytes m m' where "src = Some bytes" "get_opt (st_memories (en_store s)) (en_memory s) = Some m"
    "memory_store (cell_value m) (unat a) (take n bytes) = Ok m'" "p = Some (set_memory (en_memory s) m' s)"
  using assms by (auto simp: spacewasm_mem_write_def with_caller_def requireM_def caller_memory_def run_defs map_errR_Ok
      split: option.splits prod.splits if_splits result.splits)

text \<open>A callback reads back the bytes it wrote, and neither call changes the structure of the store.\<close>

lemma mem_read_back:
  assumes "spacewasm_mem_write a (Some bytes) (length bytes) (Some s) = (Ok u, Some t)"
  shows "spacewasm_mem_read a True (length bytes) (Some t) = (Ok bytes, Some t)" "same_shape s t"
proof -
  obtain m m' where m: "get_opt (st_memories (en_store s)) (en_memory s) = Some m"
    and st: "memory_store (cell_value m) (unat a) bytes = Ok m'" and t: "t = set_memory (en_memory s) m' s"
    using assms by (auto elim!: mem_write_Ok)
  have "get_opt (st_memories (en_store t)) (en_memory t) = Some (m\<lparr>cell_value := m'\<rparr>)"
    using m by (auto simp: t set_memory_def get_opt_def split: if_splits)
  then show "spacewasm_mem_read a True (length bytes) (Some t) = (Ok bytes, Some t)"
    using memory_store_load [OF st]
    by (simp add: spacewasm_mem_read_def with_caller_def requireM_def caller_memory_def run_defs map_errR_def)
  show "same_shape s t" by (simp add: t)
qed

section \<open>Status codes\<close>

text \<open>The \<open>Err\<close> of a call is the status it returns: it is never \<open>SPACEWASM_OK\<close>.\<close>

definition fails_nonzero :: "('s, 'a, c_status) m \<Rightarrow> bool" where
  "fails_nonzero f \<longleftrightarrow> (\<forall>s. fst (f s) \<noteq> Err 0)"

named_theorems nz "calls whose error is not SPACEWASM_OK"

lemma nz_pure [nz]: "fails_nonzero (retM a)" "fails_nonzero (getM h)" "fails_nonzero (modifyM g)" "fails_nonzero panicM"
    "fails_nonzero (unwrapM x)"
  by (simp_all add: fails_nonzero_def run_defs split: option.split)

lemma nz_err [nz]: "e \<noteq> 0 \<Longrightarrow> fails_nonzero (errM e)" "e \<noteq> 0 \<Longrightarrow> fails_nonzero (ok_or y e)" "e \<noteq> 0 \<Longrightarrow> fails_nonzero (requireM b e)"
  by (simp_all add: fails_nonzero_def run_defs requireM_def split: option.split)

lemma nz_bind [nz]: "fails_nonzero f \<Longrightarrow> (\<And>a. fails_nonzero (g a)) \<Longrightarrow> fails_nonzero (bindM f g)"
  by (auto simp: fails_nonzero_def bindM_def split: prod.split result.split) (metis fst_conv)+

lemma nz_then [nz]: "fails_nonzero f \<Longrightarrow> fails_nonzero g \<Longrightarrow> fails_nonzero (thenM f g)"
  unfolding thenM_def by (rule nz_bind)

lemma nz_prod [nz]: "(\<And>a b. fails_nonzero (f a b)) \<Longrightarrow> fails_nonzero (case x of (a, b) \<Rightarrow> f a b)"
  by (cases x) simp

lemma nz_option [nz]: "fails_nonzero f \<Longrightarrow> (\<And>a. fails_nonzero (g a)) \<Longrightarrow> fails_nonzero (case x of None \<Rightarrow> f | Some a \<Rightarrow> g a)"
  by (cases x) simp_all

lemma nz_map_err [nz]: "(\<And>e. h e \<noteq> 0) \<Longrightarrow> fails_nonzero (map_err h f)" "(\<And>e. h e \<noteq> 0) \<Longrightarrow> fails_nonzero (liftR (map_errR h r))"
  by (auto simp: fails_nonzero_def map_err_def liftR_def map_errR_def split: prod.split result.split)

lemma nz_lift [nz]: "fails_nonzero (liftR (cstr p))" "fails_nonzero (liftR (hvl_as_slice l))"
    "fails_nonzero (liftR (module_start e i))" "fails_nonzero (liftR (read_params vs))"
proof -
  have "read_params vs \<noteq> Err 0" by (induction vs) (auto simp: bindR_def split: option.split result.split)
  then show "fails_nonzero (liftR (read_params vs))" by (simp add: fails_nonzero_def liftR_def)
qed (auto simp: fails_nonzero_def liftR_def cstr_def hvl_as_slice_def module_start_def split: option.split sym_ref.split)

lemma nz_wmodule [nz]: "fails_nonzero (the_wmodule i)" "fails_nonzero (own_ref_index r)"
  unfolding the_wmodule_def own_ref_index_def by (auto intro!: nz split: sym_ref.split option.split)

lemma nz_engine [nz]: "fails_nonzero f \<Longrightarrow> fails_nonzero (with_engine f)" "fails_nonzero g \<Longrightarrow> fails_nonzero (with_caller g)"
  by (auto simp: fails_nonzero_def with_engine_def with_caller_def split: option.split prod.split) (metis fst_conv)+

lemma nz_module_new [nz]: "fails_nonzero (c_module_new p stream allocs name)"
  by (auto simp: fails_nonzero_def c_module_new_def Let_def map_errR_def split: prod.split result.split)

lemma nz_start: "(\<And>a. fails_nonzero (g a)) \<Longrightarrow>
    fails_nonzero (bindM (getM (\<lambda>c. module_start (ce_engine c) i)) (\<lambda>start. bindM (liftR start) g))"
proof -
  assume "\<And>a. fails_nonzero (g a)"
  then have "fails_nonzero (bindM (liftR (module_start e i)) g)" for e :: "'a engine" by (intro nz)
  then show ?thesis by (simp add: fails_nonzero_def bindM_def getM_def)
qed

lemma nz_module_start: "fails_nonzero (spacewasm_module_start m o1 o2)"
  unfolding spacewasm_module_start_def
  by (rule nz_engine, rule nz_then, rule nz_err, simp, rule nz_bind, rule nz_pure, rule nz_then, rule nz_err, simp,
      rule nz_start) (intro nz; simp)

lemma nz_calls:
  "fails_nonzero (spacewasm_load_module name read handle globals allocs)" "fails_nonzero (spacewasm_find_module name out)"
  "fails_nonzero (spacewasm_find_export_func m name out)"
  "fails_nonzero (spacewasm_check_func_signature m f c_ps c_rs)" "fails_nonzero (spacewasm_find_global m name out)"
  "fails_nonzero (spacewasm_get_global m g out)" "fails_nonzero (spacewasm_set_global m g v)"
  "fails_nonzero (spacewasm_invoke m f ps n)" "fails_nonzero spacewasm_resume" "fails_nonzero (spacewasm_resume_value v)"
  "fails_nonzero (spacewasm_get_result t out)" "fails_nonzero (spacewasm_mem_read a dst n)"
  "fails_nonzero (spacewasm_mem_write a src n)" "fails_nonzero (spacewasm_mem_size out)"
  unfolding spacewasm_load_module_def spacewasm_find_module_def spacewasm_find_export_func_def
    spacewasm_check_func_signature_def spacewasm_find_global_def spacewasm_get_global_def spacewasm_set_global_def
    spacewasm_invoke_def spacewasm_resume_def spacewasm_resume_value_def spacewasm_get_result_def
    spacewasm_mem_read_def spacewasm_mem_write_def spacewasm_mem_size_def caller_memory_def
  by (intro nz; simp)+

section \<open>A small engine\<close>

definition demo_ce :: "unit cengine" where
  "demo_ce = \<lparr>ce_engine = (engine_reset demo_engine)\<lparr>en_store := \<lparr>st_modules = [\<lparr>md_name = [109],
       md_types = [\<lparr>ft_params = [T_I32], ft_returns = []\<rparr>],
       md_functions = [\<lparr>fn_ty = 0, fn_stack_usage = 1, fn_local_size = 1, fn_param_size = 1,
           fn_return = None, fn_locals = [(1, T_I32)], fn_expr = JumpTarget 9\<rparr>],
       md_table = None, md_memory = None, md_globals = [\<lparr>gl_type = \<lparr>gt_ty = T_I32, gt_mutable = True\<rparr>, gl_value = RawValue 0\<rparr>],
       md_imports = [], md_exports = [\<lparr>ex_name = [120], ex_desc = Exp_Func 0\<rparr>], md_start = None\<rparr>],
     st_max_modules = 4, st_host_modules = [], st_memories = [\<lparr>cell_value = memory_zero, cell_extra = 0\<rparr>],
     st_tables = [\<lparr>cell_value = [], cell_extra = 0\<rparr>]\<rparr>\<rparr>, ce_code = small_code\<rparr>"

lemma demo_ce_ok: "ce_ok demo_ce"
  by (simp add: ce_ok_def ce_modules_def demo_ce_def store_ok_def module_ok_def module_types_ok_def before_def
      small_code_facts start_ok_def required_stack_words_def)

lemma demo_ce_idle: "en_pc (ce_engine demo_ce) = SENTINEL" "en_sp (ce_engine demo_ce) = 0" "en_fp (ce_engine demo_ce) = 0"
  by (simp_all add: demo_ce_def engine_reset_def clear_table_def clear_memory_def)

lemma global_read_back_witness:
  "\<exists>d w. spacewasm_set_global 0 0 \<lparr>cv_tag = 0, cv_bits = 5\<rparr> (Some demo_ce) = (Ok (), Some d) \<and>
     spacewasm_get_global 0 0 True (Some d) = (Ok w, Some d) \<and> cv_tag w = 0"
proof -
  have "fst (spacewasm_set_global 0 0 \<lparr>cv_tag = 0, cv_bits = 5\<rparr> (Some demo_ce)) = Ok ()"
    by (simp add: spacewasm_set_global_def with_engine_def requireM_def the_wmodule_def run_defs demo_ce_def ce_modules_def
        get_opt_def try_to_value_def tag_to_type_def)
  moreover have "\<exists>d. snd (spacewasm_set_global 0 0 \<lparr>cv_tag = 0, cv_bits = 5\<rparr> (Some demo_ce)) = Some d"
    by (simp add: spacewasm_set_global_def with_engine_def split: prod.split)
  ultimately obtain d where d: "spacewasm_set_global 0 0 \<lparr>cv_tag = 0, cv_bits = 5\<rparr> (Some demo_ce) = (Ok (), Some d)"
    by (auto simp: prod_eq_iff)
  from global_read_back [OF d] d show ?thesis by auto
qed

lemma checked_invoke_witness:
  "\<exists>r d. spacewasm_invoke 0 0 (Some [\<lparr>cv_tag = 0, cv_bits = 7\<rparr>]) 1 (Some demo_ce) = (r, Some d) \<and> ce_ok d \<and>
     (r = Ok () \<or> r = Err SPACEWASM_ERR_STACK_OVERFLOW)"
proof -
  have nine: "replicate 9 t = t # replicate 8 t" for t :: val_type by (simp flip: replicate_Suc)
  let ?ts = "[T_I32]" and ?v = "\<lparr>cv_tag = 0, cv_bits = 7\<rparr>"
  have "fst (spacewasm_check_func_signature 0 0 (Some (map type_byte ?ts)) (Some []) (Some demo_ce)) = Ok ()"
    by (simp add: spacewasm_check_func_signature_def with_engine_def requireM_def the_wmodule_def run_defs demo_ce_def
        ce_modules_def get_opt_def cstr_def host_val_list_try_new_def map_char_def map_errR_def
        hvl_length_def hvl_as_slice_def nine)
  then have check: "spacewasm_check_func_signature 0 0 (Some (map type_byte ?ts)) (Some []) (Some demo_ce) =
      (Ok (), snd (spacewasm_check_func_signature 0 0 (Some (map type_byte ?ts)) (Some []) (Some demo_ce)))"
    by (simp add: prod_eq_iff)
  have args: "map cv_tag [?v] = map type_to_tag ?ts" by simp
  from checked_invoke [OF demo_ce_ok demo_ce_idle check args] show ?thesis by auto
qed

end
