(* ===== verification/Wasi.thy ===== *)
theory Wasi
  imports Capi Run_Safe
begin

text \<open>
  The WASI embedder (src/crates/spacewasi): the host module of \<open>wasi_preview1.rs\<close>, whose functions pass their
  arguments and the linear memory on to the wasi-common crate, and what \<open>main.rs\<close> does with a loaded module.

  The functions of wasi-common are a parameter: given the name of the function, its arguments, the WASI
  context and the bytes of the memory, one answers with an errno, with the exit status of \<open>proc_exit\<close> or with
  another error, and leaves a context and a content of the memory. The state of the embedder is the WASI
  context and the recorded exit status. The macros \<open>stringify!\<close> and \<open>next_arg!\<close> work on the tokens
  of a binding, so a binding is data here: its name, its two signatures and its argument tokens.

  Lemmas: the module is built without a panic; each of its functions, called by the interpreter,
  never panics; what the process exits with.
\<close>

section \<open>Bindings\<close>

text \<open>The bytes of a string literal.\<close>

definition lit :: "string \<Rightarrow> u8 list" where
  "lit cs = map (\<lambda>c. word_of_nat (of_char c)) cs"

datatype arg_token = Arg_i | Arg_I

datatype wasi_fn = Binding string string string "arg_token list" | Proc_exit

definition wasi_functions :: "wasi_fn list" where
  "wasi_functions =
    [Binding ''args_get'' ''ii'' ''i'' [Arg_i, Arg_i],
     Binding ''args_sizes_get'' ''ii'' ''i'' [Arg_i, Arg_i],
     Binding ''environ_get'' ''ii'' ''i'' [Arg_i, Arg_i],
     Binding ''environ_sizes_get'' ''ii'' ''i'' [Arg_i, Arg_i],
     Binding ''clock_res_get'' ''ii'' ''i'' [Arg_i, Arg_i],
     Binding ''clock_time_get'' ''iIi'' ''i'' [Arg_i, Arg_I, Arg_i],
     Binding ''fd_advise'' ''iIIi'' ''i'' [Arg_i, Arg_I, Arg_I, Arg_i],
     Binding ''fd_allocate'' ''iII'' ''i'' [Arg_i, Arg_I, Arg_I],
     Binding ''fd_close'' ''i'' ''i'' [Arg_i],
     Binding ''fd_datasync'' ''i'' ''i'' [Arg_i],
     Binding ''fd_fdstat_get'' ''ii'' ''i'' [Arg_i, Arg_i],
     Binding ''fd_fdstat_set_flags'' ''ii'' ''i'' [Arg_i, Arg_i],
     Binding ''fd_fdstat_set_rights'' ''iII'' ''i'' [Arg_i, Arg_I, Arg_I],
     Binding ''fd_filestat_get'' ''ii'' ''i'' [Arg_i, Arg_i],
     Binding ''fd_filestat_set_size'' ''iI'' ''i'' [Arg_i, Arg_I],
     Binding ''fd_filestat_set_times'' ''iIIi'' ''i'' [Arg_i, Arg_I, Arg_I, Arg_i],
     Binding ''fd_pread'' ''iiiIi'' ''i'' [Arg_i, Arg_i, Arg_i, Arg_I, Arg_i],
     Binding ''fd_prestat_get'' ''ii'' ''i'' [Arg_i, Arg_i],
     Binding ''fd_prestat_dir_name'' ''iii'' ''i'' [Arg_i, Arg_i, Arg_i],
     Binding ''fd_pwrite'' ''iiiIi'' ''i'' [Arg_i, Arg_i, Arg_i, Arg_I, Arg_i],
     Binding ''fd_read'' ''iiii'' ''i'' [Arg_i, Arg_i, Arg_i, Arg_i],
     Binding ''fd_readdir'' ''iiiIi'' ''i'' [Arg_i, Arg_i, Arg_i, Arg_I, Arg_i],
     Binding ''fd_seek'' ''iIii'' ''i'' [Arg_i, Arg_I, Arg_i, Arg_i],
     Binding ''fd_sync'' ''i'' ''i'' [Arg_i],
     Binding ''fd_tell'' ''ii'' ''i'' [Arg_i, Arg_i],
     Binding ''fd_write'' ''iiii'' ''i'' [Arg_i, Arg_i, Arg_i, Arg_i],
     Binding ''path_create_directory'' ''iii'' ''i'' [Arg_i, Arg_i, Arg_i],
     Binding ''path_filestat_get'' ''iiiii'' ''i'' [Arg_i, Arg_i, Arg_i, Arg_i, Arg_i],
     Binding ''path_filestat_set_times'' ''iiiiIIi'' ''i'' [Arg_i, Arg_i, Arg_i, Arg_i, Arg_I, Arg_I, Arg_i],
     Binding ''path_link'' ''iiiiiii'' ''i'' [Arg_i, Arg_i, Arg_i, Arg_i, Arg_i, Arg_i, Arg_i],
     Binding ''path_open'' ''iiiiiIIii'' ''i'' [Arg_i, Arg_i, Arg_i, Arg_i, Arg_i, Arg_I, Arg_I, Arg_i, Arg_i],
     Binding ''path_readlink'' ''iiiiii'' ''i'' [Arg_i, Arg_i, Arg_i, Arg_i, Arg_i, Arg_i],
     Binding ''path_remove_directory'' ''iii'' ''i'' [Arg_i, Arg_i, Arg_i],
     Binding ''path_rename'' ''iiiiii'' ''i'' [Arg_i, Arg_i, Arg_i, Arg_i, Arg_i, Arg_i],
     Binding ''path_symlink'' ''iiiii'' ''i'' [Arg_i, Arg_i, Arg_i, Arg_i, Arg_i],
     Binding ''path_unlink_file'' ''iii'' ''i'' [Arg_i, Arg_i, Arg_i],
     Binding ''poll_oneoff'' ''iiii'' ''i'' [Arg_i, Arg_i, Arg_i, Arg_i],
     Proc_exit,
     Binding ''proc_raise'' ''i'' ''i'' [Arg_i],
     Binding ''random_get'' ''ii'' ''i'' [Arg_i, Arg_i],
     Binding ''sched_yield'' '''' ''i'' [],
     Binding ''sock_accept'' ''iii'' ''i'' [Arg_i, Arg_i, Arg_i],
     Binding ''sock_recv'' ''iiiiii'' ''i'' [Arg_i, Arg_i, Arg_i, Arg_i, Arg_i, Arg_i],
     Binding ''sock_send'' ''iiiii'' ''i'' [Arg_i, Arg_i, Arg_i, Arg_i, Arg_i],
     Binding ''sock_shutdown'' ''ii'' ''i'' [Arg_i, Arg_i]]"

text \<open>The strings \<open>HostFunction::new\<close> gets: the name and the two signatures.\<close>

primrec fn_strings :: "wasi_fn \<Rightarrow> string \<times> string \<times> string" where
  "fn_strings (Binding name params results tokens) = (name, params, results)"
| "fn_strings Proc_exit = (''proc_exit'', ''i'', '''')"

text \<open>\<open>boxed\<close> is the answer of the allocator to the box of the closure.\<close>

definition wasi_host_function :: "alloc_error option \<Rightarrow> wasi_fn \<Rightarrow> (host_fn_item, 'e) result" where
  "wasi_host_function boxed f = (case fn_strings f of (name, params, results) \<Rightarrow>
     bindR (host_name_new HOST_FUNCTION_NAME_CAP (lit name)) (\<lambda>name.
     bindR (host_val_list_new (lit params)) (\<lambda>params.
     bindR (host_val_list_new (lit results)) (\<lambda>results.
     host_function_new boxed name params results))))"

text \<open>\<open>vec\<close> is the answer of the allocator to the vector of the functions.\<close>

definition make_wasi_preview1_module :: "(nat \<Rightarrow> alloc_error option) \<Rightarrow> bool \<Rightarrow> (host_module, 'e) result" where
  "make_wasi_preview1_module boxed vec =
     bindR (host_name_new HOST_MODULE_NAME_CAP (lit ''wasi_snapshot_preview1'')) (\<lambda>name.
     bindR (collect (\<lambda>(i, f). bindR (wasi_host_function (boxed i) f) host_function_of) (zip [0..<length wasi_functions] wasi_functions)) (\<lambda>functions.
     if \<not> vec then Panic
     else bindR (host_name_as_bytes name) (\<lambda>name.
       Ok \<lparr>hmod_name = name, hmod_globals = [], hmod_functions = functions, hmod_memory = [], hmod_table = []\<rparr>)))"

section \<open>Calls\<close>

datatype wasi_arg = Int32 u32 | Int64 u64

datatype wasi_answer = Wasi_errno u32 | Wasi_exit u32 | Wasi_error

type_synonym 'c wasi_common = "string \<Rightarrow> wasi_arg list \<Rightarrow> 'c \<Rightarrow> u8 list \<Rightarrow> wasi_answer \<times> 'c \<times> (nat \<Rightarrow> u8)"

record 'c wasi_host =
  wh_ctx :: 'c
  wh_exit :: "u32 option"

text \<open>The iterator over the arguments is the list of those left.\<close>

definition next_i32 :: "(wasm_value list, u32, 'e) m" where
  "next_i32 = (\<lambda>it. case it of V_I32 v # r \<Rightarrow> (Ok v, r) | _ \<Rightarrow> (Panic, tl it))"

definition next_i64 :: "(wasm_value list, u64, 'e) m" where
  "next_i64 = (\<lambda>it. case it of V_I64 v # r \<Rightarrow> (Ok v, r) | _ \<Rightarrow> (Panic, tl it))"

primrec next_arg :: "arg_token \<Rightarrow> (wasm_value list, wasi_arg, 'e) m" where
  "next_arg Arg_i = bindM next_i32 (\<lambda>v. retM (Int32 v))"
| "next_arg Arg_I = bindM next_i64 (\<lambda>v. retM (Int64 v))"

fun next_args :: "arg_token list \<Rightarrow> (wasm_value list, wasi_arg list, 'e) m" where
  "next_args [] = retM []"
| "next_args (t # ts) = bindM (next_arg t) (\<lambda>v. bindM (next_args ts) (\<lambda>vs. retM (v # vs)))"

text \<open>The linear memory as cells: a null pointer has size 0. The length cannot change through them.\<close>

definition as_shared_cells :: "memory \<Rightarrow> u8 list" where
  "as_shared_cells m = mem_bytes m"

definition set_cells :: "(nat \<Rightarrow> u8) \<Rightarrow> memory \<Rightarrow> memory" where
  "set_cells f m = m\<lparr>mem_bytes := map f [0..<length (mem_bytes m)]\<rparr>"

definition engine_memory :: "('h engine, memory, unit) m" where
  "engine_memory = bindM (getM (\<lambda>s. get_opt (st_memories (en_store s)) (en_memory s))) (\<lambda>c.
     bindM (unwrapM c) (\<lambda>cell. retM (cell_value cell)))"

text \<open>\<open>wasi_snapshot_preview1::name(&mut ctx, &mut memory, args)\<close>.\<close>

definition wasi_snapshot :: "'c wasi_common \<Rightarrow> string \<Rightarrow> wasi_arg list \<Rightarrow> ('c wasi_host engine, wasi_answer, unit) m" where
  "wasi_snapshot wasi name vs = bindM engine_memory (\<lambda>m. bindM (getM en_host) (\<lambda>h.
     case wasi name vs (wh_ctx h) (as_shared_cells m) of (answer, ctx, cells) \<Rightarrow>
       thenM (modifyM (\<lambda>s. set_memory (en_memory s) (set_cells cells m) (s\<lparr>en_host := h\<lparr>wh_ctx := ctx\<rparr>\<rparr>)))
         (retM answer)))"

definition finish :: "wasi_answer \<Rightarrow> host_outcome" where
  "finish r = (case r of Wasi_errno code \<Rightarrow> HO_Continue (Some (V_I32 code)) | _ \<Rightarrow> HO_Trap)"

definition wasi_binding :: "'c wasi_common \<Rightarrow> string \<Rightarrow> arg_token list \<Rightarrow> wasm_value list \<Rightarrow> ('c wasi_host engine, host_outcome, unit) m" where
  "wasi_binding wasi name tokens args =
     bindM (liftR (fst (next_args tokens args))) (\<lambda>vs.
     bindM (wasi_snapshot wasi name vs) (\<lambda>r. retM (finish r)))"

definition proc_exit_binding :: "'c wasi_common \<Rightarrow> wasm_value list \<Rightarrow> ('c wasi_host engine, host_outcome, unit) m" where
  "proc_exit_binding wasi args =
     bindM (liftR (fst (next_i32 args))) (\<lambda>status.
     bindM (wasi_snapshot wasi ''proc_exit'' [Int32 status]) (\<lambda>r.
     thenM (case r of Wasi_exit code \<Rightarrow> modifyM (\<lambda>s. s\<lparr>en_host := (en_host s)\<lparr>wh_exit := Some code\<rparr>\<rparr>) | _ \<Rightarrow> retM ())
       (retM HO_Trap)))"

primrec wasi_call :: "'c wasi_common \<Rightarrow> wasi_fn \<Rightarrow> wasm_value list \<Rightarrow> ('c wasi_host engine, host_outcome, unit) m" where
  "wasi_call wasi (Binding name params results tokens) args = wasi_binding wasi name tokens args"
| "wasi_call wasi Proc_exit args = proc_exit_binding wasi args"

text \<open>The host of the process: its only host module is the one above.\<close>

definition wasi_api :: "'c wasi_common \<Rightarrow> alloc_response \<Rightarrow> libm \<Rightarrow> 'c wasi_host host_api" where
  "wasi_api wasi al lm = \<lparr>ha_call = (\<lambda>md x args. case get_opt wasi_functions (unat x) of
       Some f \<Rightarrow> if md = 0 then wasi_call wasi f args else panicM
     | None \<Rightarrow> panicM),
     ha_read = (\<lambda>_ _ _. None), ha_write = (\<lambda>_ _ _ h. (False, h)), ha_alloc = al, ha_libm = lm\<rparr>"

section \<open>The module is well formed\<close>

primrec token_type :: "arg_token \<Rightarrow> val_type" where
  "token_type Arg_i = T_I32"
| "token_type Arg_I = T_I64"

primrec fn_params :: "wasi_fn \<Rightarrow> val_type list" where
  "fn_params (Binding name params results tokens) = map token_type tokens"
| "fn_params Proc_exit = [T_I32]"

primrec fn_result :: "wasi_fn \<Rightarrow> result_type" where
  "fn_result (Binding name params results tokens) = Some T_I32"
| "fn_result Proc_exit = None"

definition opt_list :: "'a option \<Rightarrow> 'a list" where
  "opt_list x = (case x of None \<Rightarrow> [] | Some a \<Rightarrow> [a])"

text \<open>The strings of every binding are those of its argument tokens.\<close>

definition strings_ok :: "wasi_fn \<Rightarrow> bool" where
  "strings_ok f \<longleftrightarrow> (case fn_strings f of (name, params, results) \<Rightarrow>
     length name \<le> HOST_FUNCTION_NAME_CAP \<and> lit params = map type_byte (fn_params f) \<and>
     length (fn_params f) \<le> MAX_HOST_FUNCTION_PARAMS \<and> lit results = map type_byte (opt_list (fn_result f)))"

lemma bindings_ok: "list_all strings_ok wasi_functions"
  by (simp add: wasi_functions_def strings_ok_def lit_def HOST_FUNCTION_NAME_CAP_def opt_list_def)

definition fn_entry :: "wasi_fn \<Rightarrow> host_function" where
  "fn_entry f = \<lparr>hf_name = lit (fst (fn_strings f)), hf_params = fn_params f, hf_returns = fn_result f, hf_present = True\<rparr>"

lemma host_name_new_fits:
  assumes "length s \<le> cap" "cap < 256"
  obtains n where "host_name_new cap s = Ok n" "host_name_as_bytes n = (Ok s :: (_, 'e) result)"
  using host_name_build_cases [OF assms(2), of s, where 'e = 'e] assms(1)
  by (auto simp: host_name_new_def split: option.splits)

lemma host_val_list_new_types:
  assumes "length ts \<le> MAX_HOST_FUNCTION_PARAMS"
  obtains l where "host_val_list_new (map type_byte ts) = Ok l" "hvl_ok l ts"
  using try_new_types [OF assms] by (auto simp: host_val_list_new_def)

lemma wasi_host_function_cases:
  assumes "strings_ok f"
  shows "bindR (wasi_host_function boxed f) host_function_of =
    (if boxed = None then Ok (fn_entry f) else (Panic :: (host_function, 'e) result))"
proof -
  obtain name params results where strs: "fn_strings f = (name, params, results)" by (metis prod_cases3)
  have ok: "length (lit name) \<le> HOST_FUNCTION_NAME_CAP" "lit params = map type_byte (fn_params f)"
      "length (fn_params f) \<le> MAX_HOST_FUNCTION_PARAMS" "lit results = map type_byte (opt_list (fn_result f))"
    using assms by (simp_all add: strings_ok_def strs lit_def)
  obtain n where n: "host_name_new HOST_FUNCTION_NAME_CAP (lit name) = (Ok n :: (_, 'e) result)"
      "host_name_as_bytes n = (Ok (lit name) :: (_, 'e) result)"
    by (rule host_name_new_fits [OF ok(1)]) (simp_all add: HOST_FUNCTION_NAME_CAP_def)
  obtain ps where ps: "host_val_list_new (lit params) = (Ok ps :: (_, 'e) result)" "hvl_ok ps (fn_params f)"
    by (rule host_val_list_new_types [OF ok(3)]) (simp add: ok(2))
  have res: "length (opt_list (fn_result f)) \<le> 1" by (simp add: opt_list_def split: option.split)
  then have "length (opt_list (fn_result f)) \<le> MAX_HOST_FUNCTION_PARAMS" by simp
  then obtain rs where rs: "host_val_list_new (lit results) = (Ok rs :: (_, 'e) result)" "hvl_ok rs (opt_list (fn_result f))"
    by (rule host_val_list_new_types) (simp add: ok(4))
  have ret: "(case opt_list (fn_result f) of [] \<Rightarrow> None | t # _ \<Rightarrow> Some t) = fn_result f"
    by (simp add: opt_list_def split: option.split)
  show ?thesis
    using host_function_parts [OF n(2) ps(2) rs(2), of boxed] res
    by (cases boxed; cases "host_function_try_new boxed n ps rs")
      (auto simp: wasi_host_function_def strs n(1) ps(1) rs(1) host_function_new_def fn_entry_def ret bindR_def)
qed

definition wasi_module :: host_module where
  "wasi_module = \<lparr>hmod_name = lit ''wasi_snapshot_preview1'', hmod_globals = [],
     hmod_functions = map fn_entry wasi_functions, hmod_memory = [], hmod_table = []\<rparr>"

lemma collect_entries:
  "list_all strings_ok fs \<Longrightarrow>
    collect (\<lambda>(i, f). bindR (wasi_host_function (boxed i) f) host_function_of) (zip [n..<n + length fs] fs) =
    (if \<forall>i\<in>{n..<n + length fs}. boxed i = None then Ok (map fn_entry fs) else (Panic :: (host_function list, 'e) result))"
proof (induction fs arbitrary: n)
  case (Cons f fs)
  have "{n..<n + length (f # fs)} = insert n {Suc n..<Suc n + length fs}" by auto
  with Cons.IH [of "Suc n"] Cons.prems show ?case
    by (cases "boxed n") (simp_all add: upt_rec [of n] wasi_host_function_cases del: upt_Suc)
qed simp

lemma make_wasi_module:
  "make_wasi_preview1_module boxed vec =
    (if vec \<and> (\<forall>i<length wasi_functions. boxed i = None) then Ok wasi_module else (Panic :: (host_module, 'e) result))"
proof -
  obtain n where n: "host_name_new HOST_MODULE_NAME_CAP (lit ''wasi_snapshot_preview1'') = (Ok n :: (_, 'e) result)"
      "host_name_as_bytes n = (Ok (lit ''wasi_snapshot_preview1'') :: (_, 'e) result)"
    by (rule host_name_new_fits [of "lit ''wasi_snapshot_preview1''" HOST_MODULE_NAME_CAP])
      (simp_all add: HOST_MODULE_NAME_CAP_def lit_def)
  have "(\<forall>i\<in>{0..<0 + length wasi_functions}. boxed i = None) \<longleftrightarrow> (\<forall>i<length wasi_functions. boxed i = None)" by auto
  with collect_entries [OF bindings_ok, of boxed 0, where 'e = 'e] show ?thesis
    by (simp add: make_wasi_preview1_module_def n wasi_module_def bindR_def)
qed

section \<open>Calls of bindings\<close>

lemma next_args_typed: "map value_type vs = map token_type ts \<Longrightarrow> \<exists>ws. next_args ts vs = (Ok ws :: (_, 'e) result, [])"
proof (induction ts arbitrary: vs)
  case (Cons t ts)
  then obtain v us where v: "vs = v # us" "value_type v = token_type t" "map value_type us = map token_type ts"
    by (auto simp: map_eq_Cons_conv)
  from Cons.IH [OF v(3)] obtain ws where "next_args ts us = (Ok ws :: (_, 'e) result, [])" by blast
  with v(1,2) show ?case
    by (cases t; cases v) (auto simp: run_defs next_i32_def next_i64_def value_type_def)
qed (simp add: run_defs)

lemma host_args_wp:
  "length sv + length tys \<le> MAX_HOST_FUNCTION_PARAMS \<Longrightarrow> a + ty_list_words tys \<le> length (en_stack s) \<Longrightarrow>
    (\<And>vs. map value_type vs = tys \<Longrightarrow> Q (sv @ vs) s) \<Longrightarrow> wpM (host_args tys a sv) Q E s"
proof (induction tys arbitrary: a sv)
  case (Cons ty tys)
  have more: "wpM (host_args tys (a + n) (sv @ [v])) Q E s" if "value_type v = ty" "n = ty_words ty" for v n
    using Cons.prems(1,2) that by (intro Cons.IH) (auto intro!: Cons.prems(3))
  have room: "\<not> MAX_HOST_FUNCTION_PARAMS \<le> length sv" using Cons.prems(1) by simp
  show ?case
    using Cons.prems(2) room more
    by (cases ty) (simp_all add: wp sv_push_def value_type_def)
qed (simp add: wp)

text \<open>What a binding may change: the content of the memory and the state of the embedder.\<close>

definition host_step :: "'h engine \<Rightarrow> 'h engine \<Rightarrow> bool" where
  "host_step s t \<longleftrightarrow> (\<exists>m h. t = set_memory (en_memory s) m (s\<lparr>en_host := h\<rparr>))"

lemma host_stepI [simp]: "host_step s (set_memory (en_memory s) m (s\<lparr>en_host := h\<rparr>))"
  unfolding host_step_def by blast

lemma host_step_host:
  assumes "host_step s t"
  shows "host_step s (t\<lparr>en_host := h\<rparr>)"
proof -
  obtain m k where "t = set_memory (en_memory s) m (s\<lparr>en_host := k\<rparr>)" using assms by (auto simp: host_step_def)
  then have "t\<lparr>en_host := h\<rparr> = set_memory (en_memory s) m (s\<lparr>en_host := h\<rparr>)" by (simp add: set_memory_def)
  then show ?thesis by simp
qed

definition outcome_ok :: "result_type \<Rightarrow> host_outcome \<Rightarrow> bool" where
  "outcome_ok ty r \<longleftrightarrow> (case r of HO_Continue v \<Rightarrow> ty = Some T_I32 \<and> map_option value_type v = ty | HO_Trap \<Rightarrow> True | HO_Pause \<Rightarrow> False)"

lemma wasi_snapshot_wp:
  assumes "en_memory s < length (st_memories (en_store s))" "\<And>r t. host_step s t \<Longrightarrow> Q r t"
  shows "wpM (wasi_snapshot wasi name vs) Q E s"
  using assms(1)
  by (auto simp: wasi_snapshot_def engine_memory_def wp get_opt_def split_beta intro!: assms(2))

lemma wasi_call_wp:
  assumes mem: "en_memory s < length (st_memories (en_store s))" and args: "map value_type args = fn_params f"
  shows "wpM (wasi_call wasi f args) (\<lambda>r t. host_step s t \<and> outcome_ok (fn_result f) r) (\<lambda>_ _. False) s"
proof (cases f)
  case (Binding name params results tokens)
  with args obtain ws where "next_args tokens args = (Ok ws :: (_, unit) result, [])"
    using next_args_typed [of args tokens] by auto
  then show ?thesis
    by (auto simp: Binding wasi_binding_def wp finish_def outcome_ok_def value_type_def intro!: wasi_snapshot_wp mem split: wasi_answer.split)
next
  case Proc_exit
  with args obtain v where args': "args = [v]" "value_type v = T_I32" by auto
  then obtain n where v: "v = V_I32 n" by (cases v) (simp_all add: value_type_def)
  show ?thesis
    unfolding Proc_exit wasi_call.simps proc_exit_binding_def wpM_bind
    by (simp add: args' v next_i32_def wp)
      (auto simp: wp outcome_ok_def host_step_host intro!: wasi_snapshot_wp mem split: wasi_answer.split)
qed

text \<open>The closure is taken out, called and put back.\<close>

lemma wasi_call_host_fn_wp:
  assumes hosts: "st_host_modules (en_store s) = [wasi_module]" and x: "unat x < length wasi_functions"
    and mem: "en_memory s < length (st_memories (en_store s))" and args: "map value_type args = fn_params (wasi_functions ! unat x)"
    and Q: "\<And>r t. st_host_modules (en_store t) = [wasi_module] \<Longrightarrow> en_sp t = en_sp s \<Longrightarrow> en_stack t = en_stack s \<Longrightarrow>
      outcome_ok (fn_result (wasi_functions ! unat x)) r \<Longrightarrow> Q r t"
  shows "wpM (call_host_fn (wasi_api wasi al lm) 0 x args) Q E s"
proof -
  let ?f = "wasi_functions ! unat x"
  have fn: "host_fn s 0 x = Some (fn_entry ?f)" using hosts x by (simp add: host_fn_def get_opt_def wasi_module_def)
  define u where "u = set_present 0 x False s"
  have u: "en_memory u = en_memory s" "en_sp u = en_sp s" "en_stack u = en_stack s"
      "st_memories (en_store u) = st_memories (en_store s)"
      "st_host_modules (en_store u) = [wasi_module\<lparr>hmod_functions := (map fn_entry wasi_functions)[unat x := (fn_entry ?f)\<lparr>hf_present := False\<rparr>]\<rparr>]"
    using hosts x by (simp_all add: u_def set_present_def wasi_module_def Let_def)
  have "wpM (wasi_call wasi ?f args) (\<lambda>r t. host_step u t \<and> outcome_ok (fn_result ?f) r) (\<lambda>_ _. False) u"
    by (rule wasi_call_wp) (use mem u args in simp_all)
  then obtain r t where call: "wasi_call wasi ?f args u = (Ok r, t)" and step: "host_step u t" and r: "outcome_ok (fn_result ?f) r"
    by (auto simp: wpM_def split: prod.splits result.splits)
  have t: "st_host_modules (en_store t) = st_host_modules (en_store u)" "en_sp t = en_sp s" "en_stack t = en_stack s"
    using step u(2,3) by (auto simp: host_step_def set_memory_def)
  have present: "(fn_entry ?f)\<lparr>hf_present := True\<rparr> = fn_entry ?f" by (simp add: fn_entry_def)
  have fn': "host_fn t 0 x = Some ((fn_entry ?f)\<lparr>hf_present := False\<rparr>)"
    using x by (simp add: host_fn_def get_opt_def t(1) u(5))
  have restored: "st_host_modules (en_store (set_present 0 x True t)) = [wasi_module]"
    using x by (simp add: set_present_def Let_def t(1) u(5) present map_update [symmetric]) (simp add: wasi_module_def)
  have after: "Q r (set_present 0 x True t)"
    by (rule Q [OF restored]) (simp_all add: set_present_def Let_def t r)
  have "ha_call (wasi_api wasi al lm) 0 x args u = (Ok r, t)" using x call by (simp add: wasi_api_def get_opt_def)
  then have "call_host_fn (wasi_api wasi al lm) 0 x args s = (Ok r, set_present 0 x True t)"
    by (simp add: call_host_fn_def run_defs fn fn' u_def) (simp add: fn_entry_def)
  with after show ?thesis by (simp add: wpM_def)
qed

text \<open>
  Claim C12. The bindings of \<open>wasi_preview1.rs\<close> fit their signatures: in a process whose host module
  was made by \<open>make_wasi_preview1_module\<close>, an instruction that calls any of the 45 functions, with its
  arguments on the stack and a place for the result, never panics, whatever wasi-common answers. It pops
  exactly the parameters, puts the closure back, and either pushes the one-word errno the function declares or traps.
\<close>

theorem wasi_call_safe:
  assumes "make_wasi_preview1_module boxed vec = (Ok hm :: (_, unit) result)" and "st_host_modules (en_store s) = [hm]"
    and "unat x < length (hmod_functions hm)" and "fn = hmod_functions hm ! unat x"
    and "host_param_size fn \<le> en_sp s" "en_sp s \<le> length (en_stack s)" "en_sp s - host_param_size fn < length (en_stack s)"
    and "en_memory s < length (st_memories (en_store s))"
  shows "case interp_call_host (wasi_api wasi al lm) 0 x s of
      (Ok (), t) \<Rightarrow> st_host_modules (en_store t) = [hm] \<and> hf_returns fn = Some T_I32 \<and>
        en_sp t = en_sp s - host_param_size fn + 1
    | (Err b, t) \<Rightarrow> st_host_modules (en_store t) = [hm] \<and> b = IB_Trap TR_Host \<and> en_sp t = en_sp s - host_param_size fn
    | (Panic, _) \<Rightarrow> False"
proof -
  have hm: "hm = wasi_module" using assms(1) unfolding make_wasi_module by (simp split: if_splits)
  have x: "unat x < length wasi_functions" using assms(3) by (simp add: hm wasi_module_def)
  let ?f = "wasi_functions ! unat x"
  have fn: "fn = fn_entry ?f" using assms(4) x by (simp add: hm wasi_module_def)
  have host_fn: "host_fn t 0 x = Some fn" if "st_host_modules (en_store t) = [wasi_module]" for t :: "'a wasi_host engine"
    using that x by (simp add: host_fn_def get_opt_def wasi_module_def fn)
  let ?n = "host_param_size fn" and ?s = "s\<lparr>en_sp := en_sp s - host_param_size fn\<rparr>"
  have size: "?n = ty_list_words (fn_params ?f)" by (simp add: host_param_size_def param_words_eq fn fn_entry_def)
  have "strings_ok ?f" using bindings_ok x by (simp add: list_all_length)
  then have len: "length (fn_params ?f) \<le> MAX_HOST_FUNCTION_PARAMS" by (auto simp: strings_ok_def split: prod.splits)
  have result: "fn_result ?f = None \<or> fn_result ?f = Some T_I32" by (cases ?f) simp_all
  let ?Q = "\<lambda>(_ :: unit) t. st_host_modules (en_store t) = [hm] \<and> hf_returns fn = Some T_I32 \<and> en_sp t = en_sp s - ?n + 1"
  let ?E = "\<lambda>b t. st_host_modules (en_store t) = [hm] \<and> b = IB_Trap TR_Host \<and> en_sp t = en_sp s - ?n"
  define K :: "host_outcome \<Rightarrow> ('a wasi_host, unit) em" where
    "K r = bindM (getM (\<lambda>s. host_fn s 0 x)) (\<lambda>f'. bindM (unwrapM f') (\<lambda>fn'.
      case r of HO_Continue v \<Rightarrow> host_result v (hf_returns fn')
      | HO_Pause \<Rightarrow> bindM (getM en_pause) (\<lambda>other. thenM (modifyM (\<lambda>s. s\<lparr>en_pause := Some (hf_returns fn')\<rparr>))
          (if other \<noteq> None then panicM else errM IB_Pause))
      | HO_Trap \<Rightarrow> errM (IB_Trap TR_Host)))" for r
  have K: "wpM (K r) ?Q ?E t" if "st_host_modules (en_store t) = [wasi_module]" "en_sp t = en_sp ?s" "en_stack t = en_stack ?s"
      "outcome_ok (fn_result ?f) r" for r t
    using that assms(7) result host_fn [OF that(1)]
    by (auto simp: K_def wp outcome_ok_def hm fn fn_entry_def host_result_def value_type_def
        split: host_outcome.splits option.splits wasm_value.splits)
  have call: "wpM (bindM (call_host_fn (wasi_api wasi al lm) 0 x vs) K) ?Q ?E ?s" if "map value_type vs = fn_params ?f" for vs
    unfolding wpM_bind by (rule wasi_call_host_fn_wp) (use assms(2,8) x that K in \<open>simp_all add: hm\<close>)
  have "wpM (host_args (hf_params fn) (en_sp s - ?n) []) (\<lambda>vs. wpM (bindM (call_host_fn (wasi_api wasi al lm) 0 x vs) K) ?Q ?E) ?E ?s"
    by (rule host_args_wp) (use len assms(5,6) size call in \<open>simp_all add: fn fn_entry_def\<close>)
  then have "wpM (interp_call_host (wasi_api wasi al lm) 0 x) ?Q ?E s"
    using host_fn [of s] assms(2,5) unfolding interp_call_host_def K_def by (simp add: wpM_bind wpM_then wpM_get wpM_unwrap wpM_sp hm)
  then show ?thesis by (simp add: wpM_def split: prod.splits result.splits unit.splits)
qed

text \<open>A process with the host module, no guest module yet, and the arguments of \<open>fd_read\<close> on the stack.\<close>

definition wasi_engine :: "unit wasi_host engine" where
  "wasi_engine = \<lparr>en_pc = SENTINEL, en_jumped = False, en_fp = 0, en_sp = 4, en_stack = [0, 16, 1, 24, 0, 0], en_memory = 0,
     en_table = 0, en_module = 0,
     en_store = \<lparr>st_modules = [], st_max_modules = 1, st_host_modules = [wasi_module],
       st_memories = [\<lparr>cell_value = memory_zero, cell_extra = 0\<rparr>], st_tables = [\<lparr>cell_value = [], cell_extra = 0\<rparr>]\<rparr>,
     en_pause = None, en_result = None, en_host = \<lparr>wh_ctx = (), wh_exit = None\<rparr>\<rparr>"

lemma wasi_call_safe_witness:
  "\<forall>wasi al lm. fst (interp_call_host (wasi_api wasi al lm) 0 20 wasi_engine) \<noteq> Panic"
proof (intro allI)
  fix wasi al lm
  have "make_wasi_preview1_module (\<lambda>_. None) True = (Ok wasi_module :: (_, unit) result)" by (simp add: make_wasi_module)
  moreover have "st_host_modules (en_store wasi_engine) = [wasi_module]" by (simp add: wasi_engine_def)
  moreover have "unat (20 :: u16) < length (hmod_functions wasi_module)" by (simp add: wasi_module_def wasi_functions_def)
  moreover have "hmod_functions wasi_module ! unat (20 :: u16) = fn_entry (Binding ''fd_read'' ''iiii'' ''i'' [Arg_i, Arg_i, Arg_i, Arg_i])"
    by (simp add: wasi_module_def wasi_functions_def)
  then have "host_param_size (hmod_functions wasi_module ! unat (20 :: u16)) = 4"
    by (simp add: host_param_size_def param_words_eq fn_entry_def)
  then have "host_param_size (hmod_functions wasi_module ! unat (20 :: u16)) \<le> en_sp wasi_engine"
    "en_sp wasi_engine - host_param_size (hmod_functions wasi_module ! unat (20 :: u16)) < length (en_stack wasi_engine)"
    by (simp_all add: wasi_engine_def)
  moreover have "en_sp wasi_engine \<le> length (en_stack wasi_engine)" "en_memory wasi_engine < length (st_memories (en_store wasi_engine))"
    by (simp_all add: wasi_engine_def)
  ultimately show "fst (interp_call_host (wasi_api wasi al lm) 0 20 wasi_engine) \<noteq> Panic"
    using wasi_call_safe [of "\<lambda>_. None" True wasi_module wasi_engine 20 _ wasi al lm] by (auto split: prod.splits)
qed

end
