(* ===== verification/Start_Module.thy ===== *)
theory Start_Module
  imports Module_Safe Read_Ahead
begin

text \<open>
  A module of 37 bytes and its load, decoded byte by byte with the rules of theory Read_Ahead: one function type
  \<open>[i32] -> []\<close>, one function of that type with an empty body, exported as \<open>_start\<close>. \<open>Module::new\<close> accepts it
  into every store; the witness of the property about \<open>_start\<close> in theory Wasi_Main loads it.
\<close>

definition start_bytes :: "u8 list" where
  "start_bytes =
     [0x00, 0x61, 0x73, 0x6D, 0x01, 0x00, 0x00, 0x00,
      0x01, 0x05, 0x01, 0x60, 0x01, 0x7F, 0x00,
      0x03, 0x02, 0x01, 0x00,
      0x07, 0x0A, 0x01, 0x06, 0x5F, 0x73, 0x74, 0x61, 0x72, 0x74, 0x00, 0x00,
      0x0A, 0x04, 0x01, 0x02, 0x00, 0x0B]"

section \<open>The content of the sections\<close>

lemma check_func_export: "get_func_ref md i \<noteq> None \<Longrightarrow> check_export md (Exp_Func i) = Ok ()"
  by (simp add: check_export_def)

lemmas ahead_eval = wp repeatM_numeral CONTINUATION_BIT_def INTEGER_BIT_FLAG_def read_vec_def strip_bytes_def
  type_reader_defs val_type_convert_def function_section_read_def read_func_section_def get_opt_def param_words_def
  export_section_read_def export_read_def export_desc_read_def check_func_export

lemma small_magic:
  "ahead r 0 start_bytes lim \<Longrightarrow> 8 \<le> lim \<Longrightarrow>
     (\<And>r'. ahead r' 4 (drop 4 start_bytes) lim \<Longrightarrow> Q [0x00, 0x61, 0x73, 0x6D] r') \<Longrightarrow> wpM (strip_bytes 4) Q E r"
  by (simp add: start_bytes_def ahead_eval) ((erule ahead_run; (simp add: ahead_eval)?)+, simp add: eval_nat_numeral)

lemma small_version:
  "ahead r 4 (drop 4 start_bytes) lim \<Longrightarrow> 8 \<le> lim \<Longrightarrow>
     (\<And>r'. ahead r' 8 (drop 8 start_bytes) lim \<Longrightarrow> Q [1, 0, 0, 0] r') \<Longrightarrow> wpM (strip_bytes 4) Q E r"
  by (simp add: start_bytes_def ahead_eval) (erule ahead_run; (simp add: ahead_eval)?)+

lemma small_type:
  "ahead r 10 (drop 10 start_bytes) 15 \<Longrightarrow>
     (\<And>r'. ahead r' 15 (drop 15 start_bytes) 15 \<Longrightarrow> Q [\<lparr>ft_params = [T_I32], ft_returns = []\<rparr>] r') \<Longrightarrow>
   wpM (read_vec func_type_read) Q E r"
  by (simp add: start_bytes_def ahead_eval) (erule ahead_run; (simp add: ahead_eval)?)+

lemma small_function:
  "ahead r 17 (drop 17 start_bytes) 19 \<Longrightarrow> md_types md = [\<lparr>ft_params = [T_I32], ft_returns = []\<rparr>] \<Longrightarrow>
     (\<And>r' f. ahead r' 19 (drop 19 start_bytes) 19 \<Longrightarrow> fn_ty f = 0 \<Longrightarrow> fn_return f = None \<Longrightarrow> Q [f] r') \<Longrightarrow>
   wpM (function_section_read md) Q E r"
  by (simp add: start_bytes_def ahead_eval) (erule ahead_run; (simp add: ahead_eval)?)+

lemma small_export:
  "ahead r 21 (drop 21 start_bytes) 31 \<Longrightarrow> get_func_ref md 0 \<noteq> None \<Longrightarrow>
     (\<And>r'. ahead r' 31 (drop 31 start_bytes) 31 \<Longrightarrow>
        Q [\<lparr>ex_name = [0x5F, 0x73, 0x74, 0x61, 0x72, 0x74], ex_desc = Exp_Func 0\<rparr>] r') \<Longrightarrow>
   wpM (export_section_read md) Q E r"
  by (simp add: start_bytes_def ahead_eval) (erule ahead_run; (simp add: ahead_eval)?)+


text \<open>The body: its only byte is \<open>end\<close>, compiled to one \<open>RETURN\<close>.\<close>

definition fresh_code :: "code_builder \<Rightarrow> bool" where
  "fresh_code cd \<longleftrightarrow> cd_pages cd = [] \<and> cd_offset cd = 0 \<and> cd_alloc cd = [] \<and> 0 < max_code_pages (cd_options cd)"

lemma finish_fresh:
  assumes "fresh_code cd" "fn_return (be_func env) = None" "0 < be_max_frames env"
  shows "\<exists>b. c_finish (builder_new env cd) = (Ok (), b) \<and> tb_highwater b = 0"
  using assms
  by (simp add: fresh_code_def builder_new_def push_control_def c_finish_def pop_control_def instr_return_def instr_def
    emit_word_def onCodeB_def code_push_def add_page_def pcB_def code_pc_def MAX_ADDRESSABLE_CODE_PAGES_def backpatchB_def backpatch_def
    sv_push_def sv_last_def sv_pop_def pop_frame_def pop_result_type_def map_err_def run_defs set_word_def)

lemma small_body:
  assumes "ahead r 36 (drop 36 start_bytes) lim" "37 \<le> lim" "fresh_code cd" "fn_return (be_func env) = None" "0 < be_max_frames env"
    and "\<And>r' b. ahead r' 37 [] lim \<Longrightarrow> tb_highwater b = 0 \<Longrightarrow> Q () (r', b)"
  shows "wpM (read_code (compile_visit env)) Q E (r, builder_new env cd)"
proof -
  obtain b where b: "c_finish (builder_new env cd) = (Ok (), b)" "tb_highwater b = 0"
    using finish_fresh [OF assms(3-5)] by blast
  show ?thesis
    unfolding read_code_from_0
    apply (subst read_code_from_unfold)
    apply (simp only: wp decode_step_def wpM_onReader)
    apply (rule ahead_u8)
    using assms(1) apply (simp add: start_bytes_def)
    using assms(2) apply simp
    using assms(6) b apply (simp add: decode_op_def decode_control_def control_codes wp wpM_onState)
    apply (simp add: wpM_def)
   done
qed


lemma wpM_code_pc_fresh: "fresh_code cd \<Longrightarrow> wpM code_pc Q E cd = Q (JumpTarget 0) cd"
  by (simp add: fresh_code_def code_pc_def wp MAX_ADDRESSABLE_CODE_PAGES_def)

lemmas ahead_state = ahead_eval wpM_onReader wpM_onState wpM_focus

lemma small_function_code:
  assumes "ahead r 34 (drop 34 start_bytes) 37" "md_functions md = [f]" "fn_return f = None" "fresh_code cd" "0 < frames"
    and "\<And>r' md' cd' f'. ahead r' 37 [] 37 \<Longrightarrow> md' = md\<lparr>md_functions := [f']\<rparr> \<Longrightarrow> fn_ty f' = fn_ty f \<Longrightarrow> Q () (r', (md', cd'))"
  shows "wpM (read_function_code frames stack st 0) Q E (r, (md, cd))"
  unfolding read_function_code_def read_body_def expr_read_def
  apply (simp only: wp wpM_onReader)
    apply (rule ahead_u32)
    using assms(1) apply (simp add: start_bytes_def)
    apply simp
    apply (simp add: ahead_eval)
  apply (erule ahead_offset)
  apply (simp add: ahead_state assms(2-5))
  apply (erule ahead_with_limit)
    apply (simp add: ahead_eval)
    apply (simp add: USIZE_MAX_def)
  apply (simp add: ahead_state)
  apply (erule ahead_run; (simp add: ahead_state)?)+
  apply (simp add: Let_def ahead_state wpM_code_pc_fresh [OF assms(4)])
  apply (rule small_body [OF _ _ assms(4)])
  apply (simp add: start_bytes_def)
  apply simp
  apply (simp add: assms)
  apply (simp add: assms)
  apply (simp add: ahead_state)
  apply (erule ahead_offset [OF ahead_limit])
  apply (simp add: ahead_state)
  apply (rule assms(6))
  apply assumption
  apply simp
  apply simp
  done

lemma small_code_section:
  assumes "ahead r 33 (drop 33 start_bytes) 37" "md_functions (ld_module l) = [f]" "fn_return f = None" "fresh_code (ld_code l)" "0 < frames"
    and "\<And>r' l' f'. ahead r' 37 [] 37 \<Longrightarrow> ld_module l' = (ld_module l)\<lparr>md_functions := [f']\<rparr> \<Longrightarrow> ld_store l' = ld_store l \<Longrightarrow>
      fn_ty f' = fn_ty f \<Longrightarrow> Q () (r', l')"
  shows "wpM (code_section_read frames stack) Q E (r, l)"
  unfolding code_section_read_def the_module_def the_store_def focus_code_def
  apply (simp only: ahead_state)
    apply (rule ahead_u32)
    using assms(1) apply (simp add: start_bytes_def)
    apply simp
    apply (simp add: ahead_eval)
  apply (simp add: ahead_state assms(2))
  apply (rule small_function_code [OF _ assms(2-5)])
  apply (simp add: start_bytes_def)
  apply (simp add: assms(6))
  done

lemma small_section:
  assumes "ahead r n (k # sz # bs) lim" "n + 2 + unat sz \<le> lim" "lim \<le> USIZE_MAX" "section_convert k = Ok s"
    and "sz AND CONTINUATION_BIT = 0" "sz AND INTEGER_BIT_FLAG = sz" "order_step prev s = Ok prev'"
    and "\<And>r'. ahead r' (n + 2) bs (n + 2 + unat sz) \<Longrightarrow>
      wpM (read_section p h (unat sz) s) (\<lambda>_ (r', l'). ahead r' (n + 2 + unat sz) bs' (n + 2 + unat sz) \<and>
        (\<forall>r'. ahead r' (n + 2 + unat sz) bs' lim \<longrightarrow> Q (Some (prev', seen \<or> s = Sec_Code)) (r', l'))) (\<lambda>_ _. False) (r', l)"
  shows "wpM (next_section p h prev seen) Q E (r, l)"
proof -
  have sz: "unat (ucast sz :: u32) = unat sz"
    using unsigned_less [where 'a = nat and w = sz] by (simp add: unsigned_ucast_eq take_bit_nat_eq_self)
  have content: "wpM (with_limit section_error_new (unat (ucast sz :: u32)) (map_err (with_section s) (read_section p h (unat (ucast sz :: u32)) s)))
      (\<lambda>_ (r', l'). ahead r' (n + 2 + unat sz) bs' lim \<and>
        (\<forall>r'. ahead r' (n + 2 + unat sz) bs' lim \<longrightarrow> Q (Some (prev', seen \<or> s = Sec_Code)) (r', l'))) (\<lambda>_ _. False) (r1, l)"
    if "ahead r1 (n + 2) bs lim" for r1
    unfolding sz
  proof (rule ahead_with_limit [OF that assms(2,3)])
    fix r' assume "ahead r' (n + 2) bs (n + 2 + unat sz)"
    from assms(8) [OF this] show "wpM (map_err (with_section s) (read_section p h (unat sz) s))
      (\<lambda>a (r', x'). case (r'\<lparr>rd_limit := lim\<rparr>, x') of (r', l') \<Rightarrow> ahead r' (n + 2 + unat sz) bs' lim \<and>
        (\<forall>r'. ahead r' (n + 2 + unat sz) bs' lim \<longrightarrow> Q (Some (prev', seen \<or> s = Sec_Code)) (r', l')))
      (\<lambda>e (r', x'). False) (r', l)"
      unfolding wpM_map_err by (rule wpM_mono) (auto intro: ahead_limit)
  qed
  show ?thesis
    unfolding next_section_def section_read_def one_section_def wp wpM_onReader wpM_try wpM_sec
    apply (rule ahead_u8 [OF assms(1)])
    using assms(2) apply simp
    apply (simp add: wp wpM_onReader wpM_sec assms(4,7))
    apply (erule ahead_u32)
    using assms(2) apply simp
    apply (simp add: assms(5))
    apply (erule ahead_offset)
    apply (simp only: assms(6) sz)
    apply (rule wpM_mono [OF content [unfolded sz add_2_eq_Suc']])
    apply assumption
     apply (auto simp: ahead_state wpM_sec elim!: ahead_offset)
    done
qed

section \<open>The whole module\<close>

definition loop_ends :: "load_params \<Rightarrow> custom_handler \<Rightarrow> section_kind \<Rightarrow> bool \<Rightarrow> (bool \<Rightarrow> reader \<times> loading \<Rightarrow> bool) \<Rightarrow> reader \<times> loading \<Rightarrow> bool" where
  "loop_ends p h prev seen Q s \<longleftrightarrow> (\<exists>c t. section_loop p h prev seen s = Some (Ok c, t) \<and> Q c t)"

lemma loop_ends_step:
  assumes "wpM (next_section p h prev seen) (\<lambda>x t. case x of None \<Rightarrow> Q seen t | Some (a, b) \<Rightarrow> loop_ends p h a b Q t) (\<lambda>_ _. False) s"
  shows "loop_ends p h prev seen Q s"
  using assms unfolding loop_ends_def
  by (subst section_loop.simps) (auto simp: wpM_def split: prod.splits result.splits option.splits)

lemma loop_ends_read: "loop_ends p h Sec_Custom False Q s \<Longrightarrow> wpM (read_sections p h) Q E s"
  by (auto simp: loop_ends_def read_sections_def wpM_def)

lemma loop_ends_section:
  assumes "ahead r n (k # sz # bs) lim" "n + 2 + unat sz \<le> lim" "lim \<le> USIZE_MAX" "section_convert k = Ok s"
    and "sz AND CONTINUATION_BIT = 0" "sz AND INTEGER_BIT_FLAG = sz" "order_step prev s = Ok prev'"
    and "\<And>r'. ahead r' (n + 2) bs (n + 2 + unat sz) \<Longrightarrow>
      wpM (read_section p h (unat sz) s) (\<lambda>_ (r', l'). ahead r' (n + 2 + unat sz) bs' (n + 2 + unat sz) \<and>
        (\<forall>r'. ahead r' (n + 2 + unat sz) bs' lim \<longrightarrow> loop_ends p h prev' (seen \<or> s = Sec_Code) Q (r', l'))) (\<lambda>_ _. False) (r', l)"
  shows "loop_ends p h prev seen Q (r, l)"
  by (rule loop_ends_step, rule small_section [where bs' = bs', OF assms(1-7)]) (simp add: assms(8) [simplified])

lemma loop_ends_eof:
  assumes "ahead r n [] lim" "\<And>r'. Q seen (r', l)"
  shows "loop_ends p h prev seen Q (r, l)"
  by (rule loop_ends_step, unfold next_section_def section_read_def wp wpM_onReader wpM_try wpM_sec)
    (rule ahead_eof [OF assms(1)], simp add: wp assms(2))

lemma start_section:
  assumes "ahead r n (drop n start_bytes) USIZE_MAX" "drop n start_bytes = k # sz # drop (n + 2) start_bytes"
    and "n + 2 + unat sz = m" "m \<le> 37" "section_convert k = Ok s"
    and "sz AND CONTINUATION_BIT = 0" "sz AND INTEGER_BIT_FLAG = sz" "order_step prev s = Ok prev'"
    and "\<And>r'. ahead r' (n + 2) (drop (n + 2) start_bytes) m \<Longrightarrow>
      wpM (read_section p h (unat sz) s) (\<lambda>_ (r', l'). ahead r' m (drop m start_bytes) m \<and>
        (\<forall>r'. ahead r' m (drop m start_bytes) USIZE_MAX \<longrightarrow> loop_ends p h prev' (seen \<or> s = Sec_Code) Q (r', l'))) (\<lambda>_ _. False) (r', l)"
  shows "loop_ends p h prev seen Q (r, l)"
proof (rule loop_ends_section [where bs' = "drop m start_bytes"])
  show "ahead r n (k # sz # drop (n + 2) start_bytes) USIZE_MAX" using assms(1,2) by simp
  show "n + 2 + unat sz \<le> USIZE_MAX" using assms(3,4) by (simp add: USIZE_MAX_def)
  show "wpM (read_section p h (unat sz) s) (\<lambda>_ (r', l'). ahead r' (n + 2 + unat sz) (drop m start_bytes) (n + 2 + unat sz) \<and>
        (\<forall>r'. ahead r' (n + 2 + unat sz) (drop m start_bytes) USIZE_MAX \<longrightarrow>
           loop_ends p h prev' (seen \<or> s = Sec_Code) Q (r', l'))) (\<lambda>_ _. False) (r', l)"
    if "ahead r' (n + 2) (drop (n + 2) start_bytes) (n + 2 + unat sz)" for r'
    using assms(9) that unfolding assms(3) .
qed (use assms in simp_all)

lemmas section_eval = section_convert_def order_step_def CONTINUATION_BIT_def INTEGER_BIT_FLAG_def

lemmas section_state = lm_defs wp wpM_onReader wpM_onState

definition start_loaded :: "u8 list \<Rightarrow> func \<Rightarrow> wmodule" where
  "start_loaded name f = (empty_module name)\<lparr>md_types := [\<lparr>ft_params = [T_I32], ft_returns = []\<rparr>], md_functions := [f],
     md_exports := [\<lparr>ex_name = [0x5F, 0x73, 0x74, 0x61, 0x72, 0x74], ex_desc = Exp_Func 0\<rparr>]\<rparr>"

lemma section_type:
  assumes "ahead r 8 (drop 8 start_bytes) USIZE_MAX"
    and "\<And>r'. ahead r' 15 (drop 15 start_bytes) USIZE_MAX \<Longrightarrow>
      loop_ends p h Sec_Type False Q (r', l\<lparr>ld_module := (ld_module l)\<lparr>md_types := [\<lparr>ft_params = [T_I32], ft_returns = []\<rparr>]\<rparr>\<rparr>)"
  shows "loop_ends p h Sec_Custom False Q (r, l)"
  by (rule start_section [where k = 1 and sz = 5 and m = 15 and prev' = Sec_Type and s = Sec_Type, OF assms(1)];
      (simp add: start_bytes_def section_eval; fail)?)
    (simp add: read_section_def section_state, erule small_type, simp add: section_state assms(2))

lemma section_function:
  assumes "ahead r 15 (drop 15 start_bytes) USIZE_MAX" "md_types (ld_module l) = [\<lparr>ft_params = [T_I32], ft_returns = []\<rparr>]"
    and "\<And>r' f. ahead r' 19 (drop 19 start_bytes) USIZE_MAX \<Longrightarrow> fn_ty f = 0 \<Longrightarrow> fn_return f = None \<Longrightarrow>
      loop_ends p h Sec_Function False Q (r', l\<lparr>ld_module := (ld_module l)\<lparr>md_functions := [f]\<rparr>\<rparr>)"
  shows "loop_ends p h Sec_Type False Q (r, l)"
  by (rule start_section [where k = 3 and sz = 2 and m = 19 and prev' = Sec_Function and s = Sec_Function, OF assms(1)];
      (simp add: start_bytes_def section_eval; fail)?)
    (simp add: read_section_def section_state, erule small_function, simp_all add: section_state assms(2,3))

lemma section_export:
  assumes "ahead r 19 (drop 19 start_bytes) USIZE_MAX" "get_func_ref (ld_module l) 0 \<noteq> None"
    and "\<And>r'. ahead r' 31 (drop 31 start_bytes) USIZE_MAX \<Longrightarrow>
      loop_ends p h Sec_Export False Q (r', l\<lparr>ld_module := (ld_module l)\<lparr>md_exports :=
        [\<lparr>ex_name = [0x5F, 0x73, 0x74, 0x61, 0x72, 0x74], ex_desc = Exp_Func 0\<rparr>]\<rparr>\<rparr>)"
  shows "loop_ends p h Sec_Function False Q (r, l)"
  by (rule start_section [where k = 7 and sz = 10 and m = 31 and prev' = Sec_Export and s = Sec_Export, OF assms(1)];
      (simp add: start_bytes_def section_eval; fail)?)
    (simp add: read_section_def section_state, erule small_export, simp_all add: section_state assms(2,3))

lemma section_code:
  assumes "ahead r 31 (drop 31 start_bytes) USIZE_MAX" "md_functions (ld_module l) = [f]" "fn_return f = None"
    and "fresh_code (ld_code l)" "0 < lp_frames p"
    and "\<And>r' l' f'. ahead r' 37 [] USIZE_MAX \<Longrightarrow> ld_module l' = (ld_module l)\<lparr>md_functions := [f']\<rparr> \<Longrightarrow>
      ld_store l' = ld_store l \<Longrightarrow> fn_ty f' = fn_ty f \<Longrightarrow> loop_ends p h Sec_Code True Q (r', l')"
  shows "loop_ends p h Sec_Export False Q (r, l)"
  by (rule start_section [where k = 10 and sz = 4 and m = 37 and prev' = Sec_Code and s = Sec_Code, OF assms(1)];
      (simp add: start_bytes_def section_eval; fail)?)
    (simp add: read_section_def section_state, erule small_code_section [where f = f],
      auto simp: start_bytes_def assms(2-5) intro: assms(6))

lemma start_sections:
  assumes "ahead r 8 (drop 8 start_bytes) USIZE_MAX" "fresh_code (ld_code l)" "0 < lp_frames p" "ld_module l = empty_module name"
    and "\<And>r' l' f. fn_ty f = 0 \<Longrightarrow> ld_store l' = ld_store l \<Longrightarrow> ld_module l' = start_loaded name f \<Longrightarrow> Q True (r', l')"
  shows "loop_ends p h Sec_Custom False Q (r, l)"
proof (rule section_type [OF assms(1)], erule section_function, simp, erule section_export)
  fix r' and f :: func
  assume f: "fn_ty f = 0" "fn_return f = None"
  let ?types = "(ld_module l)\<lparr>md_types := [\<lparr>ft_params = [T_I32], ft_returns = []\<rparr>]\<rparr>"
  let ?l = "l\<lparr>ld_module := ?types\<rparr>"
  let ?f = "?l\<lparr>ld_module := (ld_module ?l)\<lparr>md_functions := [f]\<rparr>\<rparr>"
  show "get_func_ref (ld_module ?f) 0 \<noteq> None"
    by (simp add: get_func_ref_def assms(4) empty_module_def)
  let ?e = "?f\<lparr>ld_module := (ld_module ?f)\<lparr>md_exports :=
        [\<lparr>ex_name = [0x5F, 0x73, 0x74, 0x61, 0x72, 0x74], ex_desc = Exp_Func 0\<rparr>]\<rparr>\<rparr>"
  fix r' assume "ahead r' 31 (drop 31 start_bytes) USIZE_MAX"
  then show "loop_ends p h Sec_Export False Q (r', ?e)"
  proof (rule section_code [where f = f])
    fix r' f' and l' :: loading
    assume "ahead r' 37 [] USIZE_MAX" "ld_module l' = (ld_module ?e)\<lparr>md_functions := [f']\<rparr>" "ld_store l' = ld_store ?e"
      "fn_ty f' = fn_ty f"
    then show "loop_ends p h Sec_Code True Q (r', l')"
      by (intro loop_ends_eof assms(5) [of f']) (simp_all add: f assms(4) start_loaded_def empty_module_def)
  qed (use f assms(2,3) in simp_all)
qed

text \<open>\<open>Module::new\<close> accepts the module, into any store that has no other module of its name.\<close>

lemma start_module_new:
  assumes "fresh_code cd" "0 < lp_frames p" "\<not> duplicate_name st name"
  obtains f cd' where "module_new p [Chunk start_bytes] [] name st cd = (Ok (start_loaded name f), st, cd')" "fn_ty f = 0"
proof -
  have "ahead (reader_new [Chunk start_bytes] []) 0 start_bytes USIZE_MAX"
    by (rule ahead_new) (simp add: start_bytes_def)
  then have "wpM (module_read p default_custom name) (\<lambda>md (r, l). ld_store l = st \<and> (\<exists>f. md = start_loaded name f \<and> fn_ty f = 0)) (\<lambda>_ _. False)
      (reader_new [Chunk start_bytes] [], \<lparr>ld_module = empty_module [], ld_store = st, ld_code = cd\<rparr>)"
    unfolding module_read_def module_body_read_def wp wpM_sec wpM_onReader
    apply (rule small_magic)
     apply (simp add: USIZE_MAX_def)
    apply (simp add: wp wpM_sec wpM_onReader)
    apply (erule small_version)
    apply (simp add: USIZE_MAX_def)
    apply (simp add: wp wpM_sec section_state assms(3))
    apply (erule ahead_alloc)
    apply (rule loop_ends_read)
    apply (erule start_sections)
    apply (simp add: assms)
    apply (simp add: assms)
    apply simp
    apply (auto simp: section_state)
    done
  then have "\<exists>f cd'. module_new p [Chunk start_bytes] [] name st cd = (Ok (start_loaded name f), st, cd') \<and> fn_ty f = 0"
    by (auto simp: module_new_def wpM_def split: prod.splits result.splits)
  then show thesis using that by blast
qed

end
