(* ===== verification/Wasi_Main.thy ===== *)
theory Wasi_Main
  imports Wasi Start_Module
begin

text \<open>
  The process of src/crates/spacewasi/src/main.rs: the WASI host module, the code builder and the engine, the load
  of the guest as module \<open>main\<close>, its start function, the search for \<open>_start\<close>, the loop that runs it, and the exit
  status. Command line, terminal, messages and the opening of the file are left out. What the allocators answer
  and the chunks of the file are parameters. \<open>None\<close> is a process that runs for ever.

  Lemmas: the loop is one uninterrupted run; the status when \<open>_start\<close> is entered; a
  \<open>_start\<close> with parameters is loaded and reaches \<open>unreachable!()\<close>.
\<close>

section \<open>Loading the guest\<close>

definition MAIN_MAX_PAGES :: nat where
  "MAIN_MAX_PAGES = 0x10000"

definition MAIN_CONTROL_FRAMES :: nat where
  "MAIN_CONTROL_FRAMES = 0x1000"

definition MAIN_STACK_DEPTH :: nat where
  "MAIN_STACK_DEPTH = 0x400"

definition MAIN_STACK_SIZE :: nat where
  "MAIN_STACK_SIZE = 0x100000"

text \<open>What the process gets from outside: the answers to its requests for memory, the file, the WASI context.\<close>

record 'c main_env =
  me_boxed :: "nat \<Rightarrow> alloc_error option"
  me_functions :: bool
  me_pages :: "alloc_error option list"
  me_hosts :: bool
  me_store :: "alloc_error option list"
  me_stack :: "nat \<Rightarrow> (nat \<Rightarrow> u32, alloc_error) result"
  me_allocator :: bool
  me_file :: "chunk_result list"
  me_load :: "alloc_error option list"
  me_memory :: alloc_response
  me_ctx :: 'c

definition unwrapR :: "('a, 'e) result \<Rightarrow> ('a, 'f) result" where
  "unwrapR r = (case r of Ok a \<Rightarrow> Ok a | _ \<Rightarrow> Panic)"

definition main_options :: compiler_options where
  "main_options = \<lparr>allow_memory_grow = True, max_backpatch_iterations = None, max_code_pages = MAIN_MAX_PAGES\<rparr>"

definition main_params :: "alloc_response \<Rightarrow> load_params" where
  "main_params al = \<lparr>lp_frames = MAIN_CONTROL_FRAMES, lp_stack = MAIN_STACK_DEPTH, lp_alloc = al, lp_globals = (\<lambda>_ _. None)\<rparr>"

text \<open>
  The guest's module, the engine and the code, or the status of a process that could not load its module.
\<close>

definition load_main :: "'c main_env \<Rightarrow> (u8 + u8 \<times> 'c wasi_host engine \<times> code_builder, unit) result" where
  "load_main e =
     bindR (make_wasi_preview1_module (me_boxed e) (me_functions e)) (\<lambda>preview1.
     bindR (unwrapR (code_new (me_pages e) main_options)) (\<lambda>cd.
     if \<not> me_hosts e then Panic
     else bindR (unwrapR (engine_new (me_store e) (me_stack e) MAIN_STACK_SIZE 1 [preview1] [] []
         \<lparr>wh_ctx = me_ctx e, wh_exit = None\<rparr>)) (\<lambda>s.
     if \<not> me_allocator e then Panic
     else case module_new_on (en_table s) (main_params (me_memory e)) (me_file e) (me_load e) (lit ''main'') (en_store s) cd of
       (Ok m, st, cd') \<Rightarrow>
         (case engine_push_module m (s\<lparr>en_store := st\<rparr>) of
            (Ok md, t) \<Rightarrow> Ok (Inr (md, t, cd'))
          | _ \<Rightarrow> Panic)
     | (Err _, _) \<Rightarrow> Ok (Inl 1)
     | (Panic, _) \<Rightarrow> Panic)))"

section \<open>Running it\<close>

text \<open>The two uses of \<open>engine.invoke\<close>: entered, stack overflow, or \<open>unreachable!()\<close>.\<close>

definition enter :: "wasm_ref \<Rightarrow> ('h engine, bool, unit) m" where
  "enter f = (\<lambda>s. case invoke f [] s of
     (Ok _, t) \<Rightarrow> (Ok True, t)
   | (Err e, t) \<Rightarrow> (if e = IE_StackOverflow then Ok False else Panic, t)
   | (Panic, t) \<Rightarrow> (Panic, t))"

definition init_result :: "'h host_api \<Rightarrow> text_page list \<Rightarrow> u8 \<Rightarrow> ('h engine, interp_result, unit) m" where
  "init_result api pages md =
     bindM (getM (\<lambda>s. module_start s md)) (\<lambda>start. bindM (liftR start) (\<lambda>start. case start of
       None \<Rightarrow> retM IR_Finished
     | Some f \<Rightarrow> bindM (enter f) (\<lambda>ok. if ok then run api pages USIZE_MAX else retM (IR_Trap TR_StackOverflow))))"

text \<open>\<open>_start\<close>: the index of a function of the module itself, or the message that there is none.\<close>

definition find_start :: "wmodule \<Rightarrow> (u16 option, 'e) result" where
  "find_start m = (case find (\<lambda>e. ex_name e = lit ''_start'') (md_exports m) of
     None \<Rightarrow> Ok None
   | Some e \<Rightarrow> (case ex_desc e of
       Exp_Func fi \<Rightarrow> (case get_func_ref m fi of
           Some (Ref_Module i) \<Rightarrow> Ok (Some i) | Some _ \<Rightarrow> Ok None | None \<Rightarrow> Panic)
     | _ \<Rightarrow> Ok None))"

partial_function (option) run_out ::
  "'h host_api \<Rightarrow> text_page list \<Rightarrow> 'h engine \<Rightarrow> ((interp_result, unit) result \<times> 'h engine) option"
where
  "run_out api pages s = (case run api pages USIZE_MAX s of
     (q, t) \<Rightarrow> if q = Ok IR_OutOfFuel then run_out api pages t else Some (q, t))"

definition exit_code :: "interp_result \<Rightarrow> 'c wasi_host engine \<Rightarrow> u8" where
  "exit_code r s = (case wh_exit (en_host s) of
     Some code \<Rightarrow> ucast code
   | None \<Rightarrow> if r = IR_Finished then 0 else 1)"

definition run_start :: "'c wasi_host host_api \<Rightarrow> text_page list \<Rightarrow> wasm_ref \<Rightarrow> 'c wasi_host engine \<Rightarrow> ((u8, unit) result \<times> 'c wasi_host engine) option" where
  "run_start api pages f s = (case enter f s of
     (Ok True, t) \<Rightarrow> map_option (\<lambda>(q, u). (case q of Ok r \<Rightarrow> Ok (exit_code r u) | _ \<Rightarrow> Panic, u)) (run_out api pages t)
   | (Ok False, t) \<Rightarrow> Some (Ok (exit_code (IR_Trap TR_StackOverflow) t), t)
   | (_, t) \<Rightarrow> Some (Panic, t))"

definition spacewasi_main :: "'c wasi_host host_api \<Rightarrow> text_page list \<Rightarrow> u8 \<Rightarrow> 'c wasi_host engine \<Rightarrow> ((u8, unit) result \<times> 'c wasi_host engine) option" where
  "spacewasi_main api pages md s = (case init_result api pages md s of
     (Ok r, t) \<Rightarrow>
       (if wh_exit (en_host t) \<noteq> None \<or> r \<noteq> IR_Finished then Some (Ok (exit_code r t), t)
        else if st_modules (en_store t) = [] then Some (Panic, t)
        else case (find_start (last (st_modules (en_store t))) :: (_, unit) result) of
          Ok None \<Rightarrow> Some (Ok 1, t)
        | Ok (Some i) \<Rightarrow> run_start api pages \<lparr>wr_module = md, wr_index = i\<rparr> t
        | _ \<Rightarrow> Some (Panic, t))
   | (_, t) \<Rightarrow> Some (Panic, t))"

text \<open>The whole process: its exit status.\<close>

definition main_process :: "'c wasi_common \<Rightarrow> libm \<Rightarrow> 'c main_env \<Rightarrow> (u8, unit) result option" where
  "main_process wasi lm e = (case load_main e of
     Ok (Inl code) \<Rightarrow> Some (Ok code)
   | Ok (Inr (md, s, cd)) \<Rightarrow> map_option fst (spacewasi_main (wasi_api wasi (me_memory e) lm) (cd_pages cd) md s)
   | _ \<Rightarrow> Some Panic)"

section \<open>The loop is one run\<close>

lemma run_out_ends:
  "run api pages n s = (q, t) \<Longrightarrow> q \<noteq> Ok IR_OutOfFuel \<Longrightarrow> run_out api pages s = Some (q, t)"
proof (induction n arbitrary: s rule: less_induct)
  case (less n)
  show ?case
  proof (cases "n \<le> USIZE_MAX")
    case True
    then have "run api pages USIZE_MAX s = (q, t)"
      using run_resumes [of api pages n "USIZE_MAX - n" s] less.prems
      by (auto simp: bindM_def retM_def split: result.splits)
    then show ?thesis using less.prems(2) by (simp add: run_out.simps [of api pages s])
  next
    case False
    obtain p u where p: "run api pages USIZE_MAX s = (p, u)" by (cases "run api pages USIZE_MAX s")
    show ?thesis
    proof (cases "p = Ok IR_OutOfFuel")
      case True
      then have "run api pages (n - USIZE_MAX) u = (q, t)"
        using run_resumes [of api pages USIZE_MAX "n - USIZE_MAX" s] less.prems(1) False p by (simp add: bindM_def)
      moreover have "n - USIZE_MAX < n" using False by (simp add: USIZE_MAX_def)
      ultimately have "run_out api pages u = Some (q, t)" using less by blast
      then show ?thesis using p True by (simp add: run_out.simps [of api pages s])
    next
      case ended: False
      then have "(q, t) = (p, u)"
        using run_resumes [of api pages USIZE_MAX "n - USIZE_MAX" s] less.prems(1) False p
        by (cases p) (auto simp: bindM_def retM_def)
      then show ?thesis using p ended by (simp add: run_out.simps [of api pages s])
    qed
  qed
qed

lemma run_out_run:
  assumes "run_out api pages s = Some y"
  shows "\<exists>n. run api pages n s = y \<and> fst y \<noteq> Ok IR_OutOfFuel"
proof (rule run_out.raw_induct [where P = "\<lambda>api pages s y. \<exists>n. run api pages n s = y \<and> fst y \<noteq> Ok IR_OutOfFuel", OF _ assms])
  fix loop :: "'a host_api \<Rightarrow> text_page list \<Rightarrow> 'a engine \<Rightarrow> ((interp_result, unit) result \<times> 'a engine) option" and api pages s y
  assume IH: "\<And>api pages s y. loop api pages s = Some y \<Longrightarrow> \<exists>n. run api pages n s = y \<and> fst y \<noteq> Ok IR_OutOfFuel"
    and body: "(case run api pages USIZE_MAX s of (q, t) \<Rightarrow> if q = Ok IR_OutOfFuel then loop api pages t else Some (q, t)) = Some y"
  obtain q t where q: "run api pages USIZE_MAX s = (q, t)" by (cases "run api pages USIZE_MAX s")
  show "\<exists>n. run api pages n s = y \<and> fst y \<noteq> Ok IR_OutOfFuel"
  proof (cases "q = Ok IR_OutOfFuel")
    case True
    then have "loop api pages t = Some y" using body q by simp
    then obtain n where "run api pages n t = y" "fst y \<noteq> Ok IR_OutOfFuel" using IH by blast
    then have "run api pages (USIZE_MAX + n) s = y" using q True by (simp add: run_resumes bindM_def)
    then show ?thesis using \<open>fst y \<noteq> Ok IR_OutOfFuel\<close> by blast
  next
    case False
    then have "run api pages USIZE_MAX s = y \<and> fst y \<noteq> Ok IR_OutOfFuel" using body q by auto
    then show ?thesis by blast
  qed
qed

lemma run_out_None: "run_out api pages s = None \<longleftrightarrow> (\<forall>n. fst (run api pages n s) = Ok IR_OutOfFuel)"
proof
  assume none: "run_out api pages s = None"
  show "\<forall>n. fst (run api pages n s) = Ok IR_OutOfFuel"
  proof
    fix n
    obtain q t where "run api pages n s = (q, t)" by (cases "run api pages n s")
    then show "fst (run api pages n s) = Ok IR_OutOfFuel" using run_out_ends [of api pages n s q t] none by auto
  qed
next
  assume out: "\<forall>n. fst (run api pages n s) = Ok IR_OutOfFuel"
  show "run_out api pages s = None"
  proof (rule ccontr)
    assume "run_out api pages s \<noteq> None"
    then obtain y where "run_out api pages s = Some y" by auto
    from run_out_run [OF this] out show False by auto
  qed
qed

section \<open>The status\<close>

text \<open>
  Claim C13. What the process does once the guest's \<open>_start\<close> is entered: if the run of the guest, cut into
  as many calls of the interpreter as it takes, ends after any number of instructions, \<open>main\<close> returns with its
  outcome: the status the guest gave to \<open>proc_exit\<close>, cut to a byte, or else 0 if it finished
  and 1 if it trapped or paused. \<open>main\<close> never returns exactly if the guest never ends.
\<close>

theorem spacewasi_exit_status:
  assumes "init_result api pages md s = (Ok IR_Finished, t)" "wh_exit (en_host t) = None" "st_modules (en_store t) \<noteq> []"
    and "find_start (last (st_modules (en_store t))) = (Ok (Some i) :: (_, unit) result)"
    and "enter \<lparr>wr_module = md, wr_index = i\<rparr> t = (Ok True, u)"
  shows "(\<forall>n r v. run api pages n u = (Ok r, v) \<and> r \<noteq> IR_OutOfFuel \<longrightarrow>
      spacewasi_main api pages md s = Some (Ok (case wh_exit (en_host v) of
        Some code \<Rightarrow> ucast code | None \<Rightarrow> if r = IR_Finished then 0 else 1), v)) \<and>
    (spacewasi_main api pages md s = None \<longleftrightarrow> (\<forall>n. fst (run api pages n u) = Ok IR_OutOfFuel))"
proof -
  have main: "spacewasi_main api pages md s =
      map_option (\<lambda>(q, v). (case q of Ok r \<Rightarrow> Ok (exit_code r v) | _ \<Rightarrow> Panic, v)) (run_out api pages u)"
    using assms by (simp add: spacewasi_main_def run_start_def)
  show ?thesis
  proof (intro conjI allI impI; (elim conjE)?)
    fix n r v
    assume "run api pages n u = (Ok r, v)" "r \<noteq> IR_OutOfFuel"
    then have "run_out api pages u = Some (Ok r, v)" by (intro run_out_ends) simp_all
    then show "spacewasi_main api pages md s = Some (Ok (case wh_exit (en_host v) of
        Some code \<Rightarrow> ucast code | None \<Rightarrow> if r = IR_Finished then 0 else 1), v)"
      unfolding main by (simp add: exit_code_def)
  qed (simp add: main run_out_None)
qed

text \<open>A module that exports its only function, with these parameters, as \<open>_start\<close>; its code is unreachable.\<close>

definition start_module :: "val_type list \<Rightarrow> wmodule" where
  "start_module ps = small_module\<lparr>md_types := [\<lparr>ft_params = ps, ft_returns = []\<rparr>],
     md_imports := [], md_exports := [\<lparr>ex_name = lit ''_start'', ex_desc = Exp_Func 0\<rparr>]\<rparr>"

definition start_engine :: "val_type list \<Rightarrow> unit wasi_host engine" where
  "start_engine ps = wasi_engine\<lparr>en_sp := 0, en_store := (en_store wasi_engine)\<lparr>st_modules := [start_module ps]\<rparr>\<rparr>"

lemma start_engine_find:
  "find_start (last (st_modules (en_store (start_engine ps)))) = Ok (Some 0)"
  "module_start (start_engine ps) 0 = Ok None" "wh_exit (en_host (start_engine ps)) = None"
  "st_modules (en_store (start_engine ps)) \<noteq> []"
  by (simp_all add: start_engine_def start_module_def small_module_def find_start_def get_func_ref_def module_start_def get_opt_def
      wasi_engine_def)

lemma spacewasi_exit_status_witness:
  "\<forall>wasi al lm. \<exists>v. spacewasi_main (wasi_api wasi al lm) [replicate 256 0] 0 (start_engine []) = Some (Ok 1, v)"
proof (intro allI)
  fix wasi :: "unit wasi_common" and al lm
  let ?api = "wasi_api wasi al lm" and ?s = "start_engine []"
  have init: "init_result ?api [replicate 256 0] 0 ?s = (Ok IR_Finished, ?s)"
    by (simp add: init_result_def run_defs start_engine_find)
  obtain u where u: "enter \<lparr>wr_module = 0, wr_index = 0\<rparr> ?s = (Ok True, u)" "en_pc u = JumpTarget 0" "wh_exit (en_host u) = None"
    by (simp add: enter_def invoke_def is_idle_def run_defs start_engine_def wasi_engine_def start_module_def small_module_def
        get_func_def get_opt_def load_context_def get_memory_def get_table_def required_stack_words_def call_impl_def expectM_def
        wr32_def onStack_def stack_write_u32_eq put32_def sp_add_def)
  have "fst (run ?api [replicate 256 0] (Suc 0) u) = Ok (IR_Trap TR_Unreachable) \<and>
      wh_exit (en_host (snd (run ?api [replicate 256 0] (Suc 0) u))) = None"
    using u(2,3)
    by (simp add: run_step_def finish_step_def visit_instruction_def ir_decode_def ir_control_def run_defs
        SENTINEL_def ir_read_def interpreter_def onSnd_def target_page_def target_offset_def BR_TABLE_def UNREACHABLE_def)
  then obtain v where v: "run ?api [replicate 256 0] (Suc 0) u = (Ok (IR_Trap TR_Unreachable), v)" "wh_exit (en_host v) = None"
    by (metis prod.collapse)
  from spacewasi_exit_status [OF init start_engine_find(3,4,1) u(1)] v
  have "spacewasi_main ?api [replicate 256 0] 0 ?s = Some (Ok 1, v)" by fastforce
  then show "\<exists>v. spacewasi_main ?api [replicate 256 0] 0 ?s = Some (Ok 1, v)" by blast
qed

section \<open>A \<open>_start\<close> with parameters\<close>

text \<open>What is loaded: an idle engine with one module, accepted by \<open>Module::new\<close> from the file.\<close>

lemma wasi_module_small:
  "length (hmod_functions wasi_module) \<le> 2 ^ 16 \<and> length (hmod_globals wasi_module) \<le> 2 ^ 16 \<and>
   hmod_table wasi_module = [] \<and> hmod_memory wasi_module = []"
  by (simp add: wasi_module_def wasi_functions_def)

lemma unwrapR_Ok_iff: "unwrapR r = Ok a \<longleftrightarrow> r = Ok a"
  by (cases r) (simp_all add: unwrapR_def)

lemma engine_new_Ok:
  assumes "engine_new al alloc n k hosts mems tabs h = Ok s"
  shows "is_idle s \<and> en_sp s = 0 \<and> en_fp s = 0 \<and> en_table s = 0 \<and> en_host s = h \<and> from_host_modules al k hosts mems tabs = Ok (en_store s)"
  using assms
  by (cases "from_host_modules al k hosts mems tabs"; cases "stack_new alloc n")
    (auto simp: engine_new_def map_errR_def is_idle_def)

lemma load_main_steps:
  assumes "load_main e = Ok (Inr (md, s, cd))"
  obtains cd0 s0 m st where "code_new (me_pages e) main_options = Ok cd0"
    "engine_new (me_store e) (me_stack e) MAIN_STACK_SIZE 1 [wasi_module] [] [] \<lparr>wh_ctx = me_ctx e, wh_exit = None\<rparr> = Ok s0"
    "module_new_on (en_table s0) (main_params (me_memory e)) (me_file e) (me_load e) (lit ''main'') (en_store s0) cd0 = (Ok m, st, cd)"
    "engine_push_module m (s0\<lparr>en_store := st\<rparr>) = (Ok md, s)"
proof -
  let ?engine = "engine_new (me_store e) (me_stack e) MAIN_STACK_SIZE 1 [wasi_module] [] [] \<lparr>wh_ctx = me_ctx e, wh_exit = None\<rparr>"
  obtain cd0 where cd0: "code_new (me_pages e) main_options = Ok cd0"
    using assms by (auto simp: load_main_def bindR_Ok_iff unwrapR_Ok_iff)
  moreover obtain s0 where "?engine = Ok s0"
    using assms cd0 by (cases ?engine) (auto simp: load_main_def make_wasi_module unwrapR_def split: if_splits)
  moreover note that
  ultimately show thesis
    using assms by (auto simp: load_main_def make_wasi_module unwrapR_def split: if_splits prod.splits result.splits)
qed

lemma load_main_loaded:
  assumes "load_main e = Ok (Inr (md, s, cd))"
  shows "\<exists>m. md = 0 \<and> st_modules (en_store s) = [m] \<and> is_idle s \<and> en_sp s = 0 \<and> en_fp s = 0 \<and> wh_exit (en_host s) = None"
proof -
  obtain cd0 s0 m st where cd0: "code_new (me_pages e) main_options = Ok cd0"
    and s0: "engine_new (me_store e) (me_stack e) MAIN_STACK_SIZE 1 [wasi_module] [] [] \<lparr>wh_ctx = me_ctx e, wh_exit = None\<rparr> = Ok s0"
    and load: "module_new_on (en_table s0) (main_params (me_memory e)) (me_file e) (me_load e) (lit ''main'') (en_store s0) cd0 = (Ok m, st, cd)"
    and push: "engine_push_module m (s0\<lparr>en_store := st\<rparr>) = (Ok md, s)"
    using assms by (rule load_main_steps)
  note e = engine_new_Ok [OF s0]
  have "store_ok (en_store s0)"
    by (rule store_ok_new [OF _ _ conjunct2 [OF conjunct2 [OF conjunct2 [OF conjunct2 [OF conjunct2 [OF e]]]]]])
      (use wasi_module_small in auto)
  moreover have "code_inv cd0" using code_inv_new [OF cd0] ..
  moreover have "0 < lp_frames (main_params (me_memory e))" "lp_stack (main_params (me_memory e)) < 2 ^ 16"
    by (simp_all add: main_params_def MAIN_CONTROL_FRAMES_def MAIN_STACK_DEPTH_def)
  ultimately have "same_modules (en_store s0) st"
    using module_new_on_wp [of "en_store s0" cd0 "main_params (me_memory e)" "en_table s0" "me_file e" "me_load e" "lit ''main''"] load by simp
  moreover have "st_modules (en_store s0) = []" using e from_host_modules_Ok by fastforce
  ultimately have "st_modules st = []" by (simp add: same_modules_def)
  then show ?thesis
    using push e by (auto simp: engine_push_module_def store_push_module_def is_idle_def split: if_splits)
qed

text \<open>
  Claim C37. \<open>main\<close> assumes that \<open>_start\<close> takes no parameters: if it has loaded the file without an error, whatever
  the file holds, and the module has no start function and exports as \<open>_start\<close> a function of its own with
  parameters, then the process panics, at the \<open>unreachable!()\<close> behind \<open>invoke\<close>; the engine is as it was after
  the load, so the guest has not run an instruction.
\<close>

theorem start_parameters_panic:
  assumes "load_main e = Ok (Inr (md, s, cd))" and "m = last (st_modules (en_store s))"
    and "md_start m = None" "find_start m = (Ok (Some i) :: (_, unit) result)"
    and "get_opt (md_functions m) (unat i) = Some f" "get_opt (md_types m) (unat (fn_ty f)) = Some ty" "ft_params ty \<noteq> []"
  shows "main_process wasi lm e = Some Panic \<and>
    spacewasi_main (wasi_api wasi (me_memory e) lm) (cd_pages cd) md s = Some (Panic, s)"
proof -
  obtain m' where s: "md = 0" "st_modules (en_store s) = [m']" "is_idle s" "en_sp s = 0" "en_fp s = 0" "wh_exit (en_host s) = None"
    using load_main_loaded [OF assms(1)] by blast
  then have func: "get_func s md i = Some (m, f)"
    using assms(2,5) by (simp add: get_func_def get_opt_def split: if_splits)
  have "invoke \<lparr>wr_module = md, wr_index = i\<rparr> [] s = (Err IE_ParamLenMismatch, s)"
    using s(3-5) func assms(6,7) by (simp add: invoke_def is_idle_def run_defs)
  moreover have "init_result (wasi_api wasi (me_memory e) lm) (cd_pages cd) md s = (Ok IR_Finished, s)"
    using s(1,2) assms(2,3) by (simp add: init_result_def run_defs module_start_def get_opt_def)
  ultimately have "spacewasi_main (wasi_api wasi (me_memory e) lm) (cd_pages cd) md s = Some (Panic, s)"
    using s(2,6) assms(2,4) by (simp add: spacewasi_main_def run_start_def enter_def)
  then show ?thesis using assms(1) by (simp add: main_process_def)
qed

text \<open>The module of theory Start_Module, from a file that delivers it in one chunk, every request granted.\<close>

definition start_env :: "unit main_env" where
  "start_env = \<lparr>me_boxed = (\<lambda>_. None), me_functions = True, me_pages = [], me_hosts = True, me_store = [],
     me_stack = (\<lambda>_. Ok (\<lambda>_. 0)), me_allocator = True, me_file = [Chunk start_bytes], me_load = [],
     me_memory = (\<lambda>_ _ _. None), me_ctx = ()\<rparr>"

lemma load_start_env:
  obtains s cd f where "load_main start_env = Ok (Inr (0, s, cd))" "st_modules (en_store s) = [start_loaded (lit ''main'') f]" "fn_ty f = 0"
proof -
  define cd0 where "cd0 = \<lparr>cd_pages = [], cd_offset = 0, cd_options = main_options, cd_alloc = []\<rparr>"
  define st where "st = \<lparr>st_modules = [], st_max_modules = 1, st_host_modules = [wasi_module],
      st_memories = [\<lparr>cell_value = memory_zero, cell_extra = 0\<rparr>], st_tables = [\<lparr>cell_value = [], cell_extra = 0\<rparr>]\<rparr>"
  have code: "code_new [] main_options = Ok cd0"
    by (simp add: code_new_def cd0_def main_options_def MAIN_MAX_PAGES_def MAX_ADDRESSABLE_CODE_PAGES_def)
  obtain stk where stk: "stack_new (\<lambda>_. Ok (\<lambda>_. 0)) MAIN_STACK_SIZE = Ok stk"
    by (simp add: stack_new_def MAIN_STACK_SIZE_def USIZE_MAX_def layout_ok_def ISIZE_MAX_def)
  have "from_host_modules [] 1 [wasi_module] [] [] = Ok st" by (simp add: from_host_modules_def st_def)
  with stk obtain s0 where s0: "engine_new [] (\<lambda>_. Ok (\<lambda>_. 0)) MAIN_STACK_SIZE 1 [wasi_module] [] [] \<lparr>wh_ctx = (), wh_exit = None\<rparr> = Ok s0"
      "en_store s0 = st" "en_table s0 = 0"
    by (simp add: engine_new_def map_errR_def)
  have "fresh_code cd0" by (simp add: fresh_code_def cd0_def main_options_def MAIN_MAX_PAGES_def)
  moreover have "0 < lp_frames (main_params (\<lambda>_ _ _. None))" by (simp add: main_params_def MAIN_CONTROL_FRAMES_def)
  moreover have "\<not> duplicate_name (hold_table 0 st) (lit ''main'')"
    by (simp add: duplicate_name_def st_def wasi_module_def lit_def)
  ultimately obtain f cd where load: "module_new (main_params (\<lambda>_ _ _. None)) [Chunk start_bytes] [] (lit ''main'') (hold_table 0 st) cd0 =
      (Ok (start_loaded (lit ''main'') f), hold_table 0 st, cd)" and f: "fn_ty f = 0"
    by (rule start_module_new)
  let ?s = "s0\<lparr>en_store := st\<lparr>st_modules := [start_loaded (lit ''main'') f]\<rparr>\<rparr>"
  have "load_main start_env = Ok (Inr (0, ?s, cd))"
    by (simp add: load_main_def start_env_def make_wasi_module code s0 s0(1) [unfolded One_nat_def] unwrapR_def module_new_on_def load
        engine_push_module_def store_push_module_def) (simp add: st_def)
  with f show thesis by (intro that [of ?s cd f]) simp_all
qed

lemma start_loaded_start: "find_start (start_loaded name f) = Ok (Some 0)"
  by (simp add: find_start_def start_loaded_def empty_module_def lit_def get_func_ref_def)

lemma start_parameters_panic_witness:
  "\<forall>wasi lm. main_process wasi lm start_env = Some Panic"
proof (intro allI)
  fix wasi :: "unit wasi_common" and lm
  obtain s cd f where s: "load_main start_env = Ok (Inr (0, s, cd))" "st_modules (en_store s) = [start_loaded (lit ''main'') f]" "fn_ty f = 0"
    by (rule load_start_env)
  have m: "start_loaded (lit ''main'') f = last (st_modules (en_store s))" using s(2) by simp
  have "md_start (start_loaded (lit ''main'') f) = None" "get_opt (md_functions (start_loaded (lit ''main'') f)) (unat (0 :: u16)) = Some f"
    "get_opt (md_types (start_loaded (lit ''main'') f)) (unat (fn_ty f)) = Some \<lparr>ft_params = [T_I32], ft_returns = []\<rparr>"
    by (simp_all add: start_loaded_def empty_module_def get_opt_def s(3))
  from start_parameters_panic [OF s(1) m this(1) start_loaded_start this(2,3), of wasi lm]
  show "main_process wasi lm start_env = Some Panic" by simp
qed

end
