(* ===== verification/Spec2Isabelle.thy ===== *)
theory Spec2Isabelle
  imports Prelude Errors Circular_Buffer Reader Leb128 Wasm_Types Linear_Memory Stack Code_Builder
    Backpatch Ops Module_Data Builder Compiler Builder_Inv Reader_Safe Read_Ahead Decode Constant Ieee Engine
    Numerics Interp Interp_Control Ir_Reader Run Stack_Effect Ir_Roundtrip
    Imports Module_Decode Module_Reads Module_Load Linking Module_Safe Loaded
    Keep Run_Safe Start_Safe Paging Owned Host Capi_Status Capi Capi_Calls Capi_Safe Capi_Contract
    Wasi Start_Module Wasi_Main
begin

text \<open>
  SpaceWasm (the crate under src/src) is a WebAssembly interpreter for flight software: it reads a
  module from a stream of chunks, validates it while compiling each function to 16-bit IR words in one
  pass, and runs the IR on a word stack, without unbounded allocation and without panics. This
  development models that pipeline and proves what each part promises.

  Conventions. Rust results are values of \<open>result\<close> (Prelude): \<open>Ok\<close>, \<open>Err\<close> and \<open>Panic\<close>, the last one for
  every \<open>panic!\<close>, \<open>unwrap\<close>, failed \<open>assert!\<close>, index out of range and \<open>usize\<close> underflow; code over \<open>&mut\<close>
  state is a function of the state monad \<open>m\<close>. \<open>u8\<close> to \<open>u64\<close> are words and wrap around as in a release
  build; \<open>usize\<close> is \<open>nat\<close>. Floats are their bit patterns; their arithmetic is in Ieee. The crate is built with
  \<open>strict-assertions\<close>. The embedder's allocator, stream, host functions and globals, and the \<open>libm\<close>
  crate, are parameters. Loops that need an argument to end are \<open>partial_function (option)\<close> with a
  proof that they return; a run that never ended would be a \<open>Panic\<close>, which the safety theorems exclude.

  The theories, in the order of the pipeline:

  \<^item> Prelude, Errors: vocabulary, weakest preconditions, error types (src/src/error.rs, util/alloc.rs).
  \<^item> Circular_Buffer, Reader, Leb128, Reader_Safe, Read_Ahead (util/circular_buffer.rs, reader.rs, stream.rs): the
    byte reader over chunks with its limit and lookahead, and the LEB128 decoders. Reads deliver the
    bytes of the stream however it is chunked, chunks go back exactly once, the decoders accept exactly
    the encodings of their values, and no read panics. Read_Ahead has the rules to decode known bytes.
  \<^item> Wasm_Types (types.rs), Linear_Memory (memory.rs), Stack (stack.rs): value, memory and table types,
    linear memory with its bounds, the interpreter's word stack.
  \<^item> Code_Builder, Backpatch (text.rs): IR pages, packed labels, and the chains of pending jumps that
    live in the code until their block ends.
  \<^item> Ops (opcode.rs and the signature tables of compiler.rs), Module_Data (module.rs, store.rs,
    imports.rs, host.rs): opcodes, and the data of modules and of the store with its lookups.
  \<^item> Builder, Compiler, Builder_Inv (text.rs, compiler.rs): the validating one-pass compiler. Builder_Inv
    states its invariant \<open>tb_ok\<close> and proves that every visitor method keeps it or fails without a panic.
  \<^item> Decode (code.rs), Constant (constant.rs): the instruction decoder over any visitor, its termination,
    its two clients (the compiler and the constant evaluator), and the reading of function bodies. What
    the decoder asks of a visitor is the locale \<open>visitor_contract\<close>, interpreted for both clients. A constant
    expression is accepted exactly if it is one of a given grammar.
  \<^item> Ieee: executable IEEE 754 arithmetic on bit patterns, proved correctly rounded.
  \<^item> Engine (engine.rs, store.rs, interpreter.rs): the engine's state, invoke, resume, calls, returns
    and branches.

  \<^item> Numerics, Interp, Interp_Control (interpreter.rs): every instruction handler, the numeric ones as
    functions of their operands first. Stack_Effect proves that they keep to the signatures the compiler
    checked.
  \<^item> Ir_Reader (ir_reader.rs), Run (the loop of interpreter.rs), Ir_Roundtrip: the IR decoder over any
    visitor, runs with fuel, and the agreement of compiler and IR decoder on the encoding.

  \<^item> Imports, Linking (imports.rs): import linking, the invariant \<open>store_ok\<close> of the store, and the soundness of
    links in a store that has it.
  \<^item> Module_Decode, Module_Reads, Module_Load, Module_Safe (module.rs): the section readers and the section
    loop of \<open>Module::new\<close>, their independence of the chunking, and their safety: from a well-formed store no
    stream of bytes makes them panic, and what they accept keeps the store well formed.
  \<^item> Loaded: loading and running together. Functions of a well-formed store can be invoked; a load that fails
    in its element segments leaves dangling table entries behind.

  \<^item> Keep, Run_Safe, Start_Safe: computations that keep a relation (locale \<open>kept\<close>). Running guest code keeps the
    structure of the store, hence \<open>store_ok\<close>; the start function of a loaded module is no host function.
  \<^item> Paging (util/paging.rs), Owned (util/inner_vec.rs, vec.rs, box_.rs, string.rs, rc.rs): the page allocator,
    and the owning containers over buffers of slots that hold a value or nothing. Live blocks are disjoint and
    aligned; an element is read out once, a buffer freed once; a reference count is the number of handles.
  \<^item> Host (host.rs): names, signatures and their iterator, host functions.
  \<^item> Capi_Status, Capi, Capi_Calls (crates/spacewasm_c_api): the C interface: status codes, values, allocators,
    host vectors, engines, and every call on an engine handle. Capi_Safe: in any sequence of calls with any
    arguments the engine stays well formed and no call panics but, possibly, the two that run guest code or
    push the result of a paused host call, whatever the C callbacks do with their caller handle. Capi_Contract: what calls promise about each other.
  \<^item> Wasi, Wasi_Main (crates/spacewasi): the host module of WASI functions over wasi-common as a parameter, and
    the process that loads a module and runs its \<open>_start\<close>. No binding panics when the interpreter calls it; the
    exit status; a module whose \<open>_start\<close> has parameters is loaded and makes the process panic. Start_Module loads
    such a module byte by byte.

  A panic inside \<open>run\<close> is not excluded as a whole: Stack_Effect shows instructions keep to their signatures,
  but the bound \<open>required_stack_words\<close> of a compiled function is not carried through a run of it.

  Not modelled: dropping a module or an engine (it only frees), the command line and set-up of spacewasi, the
  fuzzing, tracing and benchmark drivers and the other command line tools under src/crates, which use the library
  but are not part of it, and the tests.
\<close>

end
